(* ===== verification/Go_Prelude.thy ===== *)
theory Go_Prelude
  imports Complex_Main "HOL-Library.Word" "HOL-Library.Sublist"
begin

text \<open>
  What the components share: the development's collections of rewrite rules, Go's strings
  (byte sequences, so \<^typ>\<open>string\<close>) with the functions of package \<open>strings\<close> the source calls,
  decimal printing and parsing of integers, \<open>int32\<close> arithmetic, gRPC status errors, and the
  order in which a Go \<open>range\<close> loop visits a map.
\<close>

named_theorems go_simps \<open>rewrite rules of the Go string and integer functions\<close>
named_theorems world_simps \<open>what each operation leaves of each field of the world\<close>
named_theorems server_simps \<open>what each handler leaves of each field of the cell server\<close>

section \<open>Lists\<close>

lemma find_SomeD: "find P xs = Some x \<Longrightarrow> x \<in> set xs \<and> P x"
  by (induction xs) (auto split: if_splits)

lemma find_NoneD: "find P xs = None \<Longrightarrow> x \<in> set xs \<Longrightarrow> \<not> P x"
  by (induction xs) (auto split: if_splits)

lemma sorted_wrt_distinct:
  "sorted_wrt R xs \<Longrightarrow> distinct xs \<Longrightarrow> sorted_wrt (\<lambda>a b. R a b \<and> a \<noteq> b) xs"
  by (induction xs) auto

section \<open>Strings\<close>

text \<open>
  The UTF-8 encodings of the code points for which \<open>unicode.IsSpace\<close> holds. \<open>strings.TrimSpace\<close>
  strips them from both ends.
\<close>

definition ascii_spaces :: "string list" where
  "ascii_spaces = [[CHR 0x09], [CHR 0x0A], [CHR 0x0B], [CHR 0x0C], [CHR 0x0D], [CHR 0x20]]"

definition unicode_spaces :: "string list" where
  "unicode_spaces =
     [[CHR 0xC2, CHR 0x85], [CHR 0xC2, CHR 0xA0], [CHR 0xE1, CHR 0x9A, CHR 0x80],
      [CHR 0xE2, CHR 0x80, CHR 0x80], [CHR 0xE2, CHR 0x80, CHR 0x81],
      [CHR 0xE2, CHR 0x80, CHR 0x82], [CHR 0xE2, CHR 0x80, CHR 0x83],
      [CHR 0xE2, CHR 0x80, CHR 0x84], [CHR 0xE2, CHR 0x80, CHR 0x85],
      [CHR 0xE2, CHR 0x80, CHR 0x86], [CHR 0xE2, CHR 0x80, CHR 0x87],
      [CHR 0xE2, CHR 0x80, CHR 0x88], [CHR 0xE2, CHR 0x80, CHR 0x89],
      [CHR 0xE2, CHR 0x80, CHR 0x8A], [CHR 0xE2, CHR 0x80, CHR 0xA8],
      [CHR 0xE2, CHR 0x80, CHR 0xA9], [CHR 0xE2, CHR 0x80, CHR 0xAF],
      [CHR 0xE2, CHR 0x81, CHR 0x9F], [CHR 0xE3, CHR 0x80, CHR 0x80]]"

definition spaces :: "string list" where
  "spaces = ascii_spaces @ unicode_spaces"

definition drop_space :: "string list \<Rightarrow> string \<Rightarrow> string option" where
  "drop_space ws s =
     (case find (\<lambda>w. w \<noteq> [] \<and> prefix w s) ws of
        None \<Rightarrow> None | Some w \<Rightarrow> Some (drop (length w) s))"

lemma drop_space_SomeD:
  assumes "drop_space ws s = Some t"
  obtains w where "w \<in> set ws" "w \<noteq> []" "s = w @ t"
proof -
  from assms obtain w where w: "find (\<lambda>w. w \<noteq> [] \<and> prefix w s) ws = Some w"
      and t: "t = drop (length w) s"
    by (auto simp: drop_space_def split: option.splits)
  from w have "w \<noteq> [] \<and> prefix w s" "w \<in> set ws"
    by (auto simp: find_Some_iff)
  with t show ?thesis by (intro that[of w]) (auto simp: prefix_def)
qed

lemma drop_space_shorter: "drop_space ws s = Some t \<Longrightarrow> length t < length s"
  by (erule drop_space_SomeD) simp

lemma drop_space_None_iff:
  "drop_space ws s = None \<longleftrightarrow> (\<forall>w \<in> set ws. w \<noteq> [] \<longrightarrow> \<not> prefix w s)"
proof -
  have "drop_space ws s = None \<longleftrightarrow> find (\<lambda>w. w \<noteq> [] \<and> prefix w s) ws = None"
    by (simp add: drop_space_def split: option.splits)
  then show ?thesis
    by (auto simp: find_None_iff)
qed

text \<open>Space encodings are removed from the front until none is left; each removal drops a byte.\<close>

function strip :: "string list \<Rightarrow> string \<Rightarrow> string" where
  "strip ws s = (case drop_space ws s of None \<Rightarrow> s | Some t \<Rightarrow> strip ws t)"
  by pat_completeness auto
termination
  by (relation "measure (length \<circ> snd)") (auto dest: drop_space_shorter)

declare strip.simps [simp del]

definition TrimSpace :: "string \<Rightarrow> string" where
  "TrimSpace s = rev (strip (map rev spaces) (rev (strip spaces s)))"

lemma strip_None: "drop_space ws s = None \<Longrightarrow> strip ws s = s"
  by (simp add: strip.simps)

lemma drop_space_strip: "drop_space ws (strip ws s) = None"
proof (induction ws s rule: strip.induct)
  case (1 ws s)
  then show ?case by (subst strip.simps) (auto split: option.splits)
qed

lemma suffix_strip: "suffix (strip ws s) s"
proof (induction ws s rule: strip.induct)
  case (1 ws s)
  show ?case
  proof (cases "drop_space ws s")
    case None
    then show ?thesis by (simp add: strip_None)
  next
    case (Some t)
    then have "suffix t s"
      by (auto elim: drop_space_SomeD simp: suffix_def)
    moreover have "strip ws s = strip ws t"
      using Some by (simp add: strip.simps)
    ultimately show ?thesis
      using 1[OF Some] by (auto intro: suffix_order.trans)
  qed
qed

text \<open>\<open>trimmed s\<close>: no end of \<open>s\<close> is a space, the strings \<open>TrimSpace\<close> leaves alone.\<close>

definition trimmed :: "string \<Rightarrow> bool" where
  "trimmed s \<longleftrightarrow> drop_space spaces s = None \<and> drop_space (map rev spaces) (rev s) = None"

lemma TrimSpace_trimmed [go_simps]: "trimmed s \<Longrightarrow> TrimSpace s = s"
  by (simp add: trimmed_def TrimSpace_def strip_None)

lemma trimmed_TrimSpace [go_simps, simp]: "trimmed (TrimSpace s)"
proof -
  let ?l = "strip spaces s"
  let ?t = "rev (strip (map rev spaces) (rev ?l))"
  have "suffix (rev ?t) (rev ?l)"
    by (simp add: suffix_strip)
  then have "prefix ?t ?l"
    by (simp add: suffix_to_prefix)
  moreover have "\<forall>w \<in> set spaces. w \<noteq> [] \<longrightarrow> \<not> prefix w ?l"
    using drop_space_strip[of spaces s] by (simp only: drop_space_None_iff)
  ultimately have "drop_space spaces ?t = None"
    by (auto simp: drop_space_None_iff dest: prefix_order.trans)
  then show ?thesis
    by (simp add: trimmed_def TrimSpace_def drop_space_strip)
qed

lemma TrimSpace_idem [go_simps, simp]: "TrimSpace (TrimSpace s) = TrimSpace s"
  by (simp add: TrimSpace_trimmed)

lemma trimmed_Nil [go_simps, simp]: "trimmed []"
  by (simp add: trimmed_def drop_space_None_iff spaces_def ascii_spaces_def unicode_spaces_def)

lemma TrimSpace_Nil [go_simps, simp]: "TrimSpace [] = []"
  by (simp add: TrimSpace_trimmed)

text \<open>A string whose first and last bytes are printable ASCII is already trimmed.\<close>

definition ascii_graph :: "char \<Rightarrow> bool" where
  "ascii_graph c \<longleftrightarrow> 0x20 < (of_char c :: nat) \<and> (of_char c :: nat) < 0x7F"

lemma hd_space: "w \<in> set spaces \<Longrightarrow> \<not> ascii_graph (hd w) \<and> w \<noteq> []"
  by (auto simp: spaces_def ascii_spaces_def unicode_spaces_def ascii_graph_def)

lemma last_space: "w \<in> set spaces \<Longrightarrow> \<not> ascii_graph (last w) \<and> w \<noteq> []"
  by (auto simp: spaces_def ascii_spaces_def unicode_spaces_def ascii_graph_def)

lemma trimmedI:
  assumes "s \<noteq> []" "ascii_graph (hd s)" "ascii_graph (last s)"
  shows "trimmed s"
proof -
  have "\<not> prefix w s" if "w \<in> set spaces" for w
    using hd_space[OF that] assms(2) by (auto simp: prefix_def)
  moreover have "\<not> prefix (rev w) (rev s)" if "w \<in> set spaces" for w
  proof
    assume "prefix (rev w) (rev s)"
    then have "suffix w s"
      by (simp add: suffix_to_prefix)
    then have "last w = last s"
      using last_space[OF that] by (auto simp: suffix_def)
    then show False
      using last_space[OF that] assms(3) by simp
  qed
  ultimately show ?thesis
    by (auto simp: trimmed_def drop_space_None_iff)
qed

text \<open>\<open>strings.Join\<close> and \<open>strings.Split\<close> (with a one-byte separator).\<close>

fun Join :: "string list \<Rightarrow> string \<Rightarrow> string" where
  "Join [] sep = []"
| "Join [x] sep = x"
| "Join (x # y # xs) sep = x @ sep @ Join (y # xs) sep"

fun Split1 :: "string \<Rightarrow> char \<Rightarrow> string list" where
  "Split1 [] c = [[]]"
| "Split1 (x # xs) c =
     (if x = c then [] # Split1 xs c
      else (case Split1 xs c of [] \<Rightarrow> [[x]] | p # ps \<Rightarrow> (x # p) # ps))"

lemma Split1_nonempty [simp]: "Split1 s c \<noteq> []"
  by (induction s) (auto split: list.splits)

lemma Split1_free [go_simps]: "c \<notin> set s \<Longrightarrow> Split1 s c = [s]"
  by (induction s) auto

lemma Split1_append_sep:
  "c \<notin> set x \<Longrightarrow> Split1 (x @ c # s) c = x # Split1 s c"
  by (induction x) auto

lemma Split1_Join [go_simps]:
  "ps \<noteq> [] \<Longrightarrow> \<forall>p \<in> set ps. c \<notin> set p \<Longrightarrow> Split1 (Join ps [c]) c = ps"
proof (induction ps "[c]" rule: Join.induct)
  case (3 x y xs)
  then show ?case by (simp add: Split1_append_sep)
qed (simp_all add: Split1_free)

section \<open>Integers\<close>

text \<open>\<open>strconv.Itoa\<close> and \<open>fmt\<close>'s \<open>%d\<close>.\<close>

definition digit_char :: "nat \<Rightarrow> char" where
  "digit_char d = char_of (48 + d)"

fun itoa_nat :: "nat \<Rightarrow> string" where
  "itoa_nat n = (if n < 10 then [digit_char n] else itoa_nat (n div 10) @ [digit_char (n mod 10)])"

declare itoa_nat.simps [simp del]

definition Itoa :: "int \<Rightarrow> string" where
  "Itoa k = (if k < 0 then CHR ''-'' # itoa_nat (nat (- k)) else itoa_nat (nat k))"

text \<open>\<open>strconv.Atoi\<close>: optional sign, decimal digits, an error outside the 64-bit range.\<close>

definition digit_val :: "char \<Rightarrow> nat option" where
  "digit_val c = (let n = (of_char c :: nat) in if 48 \<le> n \<and> n \<le> 57 then Some (n - 48) else None)"

fun digits_val :: "nat \<Rightarrow> string \<Rightarrow> nat option" where
  "digits_val acc [] = Some acc"
| "digits_val acc (c # cs) =
     (case digit_val c of None \<Rightarrow> None | Some d \<Rightarrow> digits_val (10 * acc + d) cs)"

definition int_in_range :: "int \<Rightarrow> bool" where
  "int_in_range k \<longleftrightarrow> - (2 ^ 63) \<le> k \<and> k < 2 ^ 63"

definition Atoi :: "string \<Rightarrow> int option" where
  "Atoi s =
     (let (neg, body) =
        (case s of c # cs \<Rightarrow> if c = CHR ''-'' then (True, cs)
                             else if c = CHR ''+'' then (False, cs) else (False, s)
                 | [] \<Rightarrow> (False, []))
      in if body = [] then None
         else (case digits_val 0 body of
                 None \<Rightarrow> None
               | Some n \<Rightarrow> (let k = (if neg then - int n else int n)
                            in if int_in_range k then Some k else None)))"

lemma digit_val_digit_char: "d < 10 \<Longrightarrow> digit_val (digit_char d) = Some d"
  by (simp add: digit_val_def digit_char_def)

text \<open>\<open>int32\<close> values are integers between \<open>-2^31\<close> and \<open>2^31 - 1\<close>; arithmetic wraps.\<close>

type_synonym int32 = int

definition to_int32 :: "int \<Rightarrow> int32" where
  "to_int32 k = (k + 2 ^ 31) mod 2 ^ 32 - 2 ^ 31"

definition is_int32 :: "int \<Rightarrow> bool" where
  "is_int32 k \<longleftrightarrow> - (2 ^ 31) \<le> k \<and> k < 2 ^ 31"

lemma is_int32_to_int32 [go_simps, simp]: "is_int32 (to_int32 k)"
proof -
  have "0 \<le> (k + 2 ^ 31) mod 2 ^ 32" "(k + 2 ^ 31) mod 2 ^ 32 < (2::int) ^ 32"
    by simp_all
  then show ?thesis by (simp add: is_int32_def to_int32_def)
qed

lemma to_int32_id [go_simps]: "is_int32 k \<Longrightarrow> to_int32 k = k"
  by (simp add: is_int32_def to_int32_def)

section \<open>Errors\<close>

text \<open>A gRPC status error, as \<open>status.Error(code, message)\<close> builds it.\<close>

datatype grpc_code = Unknown | InvalidArgument | NotFound | FailedPrecondition | Unavailable | Internal

record grpc_error =
  code :: grpc_code
  message :: string

abbreviation status_error :: "grpc_code \<Rightarrow> string \<Rightarrow> grpc_error" where
  "status_error c m \<equiv> \<lparr>code = c, message = m\<rparr>"

section \<open>The order of a range loop\<close>

text \<open>
  Go visits the keys of a map in an unspecified order. A definition that ranges over a map takes
  the visiting order as an argument; \<open>visits ks S\<close> says that \<open>ks\<close> is an order of the keys \<open>S\<close>.
\<close>

definition visits :: "'a list \<Rightarrow> 'a set \<Rightarrow> bool" where
  "visits ks S \<longleftrightarrow> distinct ks \<and> set ks = S"

lemma visitsI: "distinct ks \<Longrightarrow> set ks = S \<Longrightarrow> visits ks S"
  by (simp add: visits_def)

lemma visits_set: "visits ks S \<Longrightarrow> set ks = S"
  by (simp add: visits_def)

lemma visits_distinct: "visits ks S \<Longrightarrow> distinct ks"
  by (simp add: visits_def)

lemma visits_finite: "visits ks S \<Longrightarrow> finite S"
  by (auto simp: visits_def)

lemma visits_length: "visits ks S \<Longrightarrow> length ks = card S"
  by (auto simp: visits_def distinct_card)

lemma visits_ex: "finite S \<Longrightarrow> \<exists>ks. visits ks S"
  using finite_distinct_list by (auto simp: visits_def)

end
