(* ===== verification/Float64.thy ===== *)
theory Float64
  imports Go_Prelude "HOL-Library.Log_Nat"
begin

text \<open>
  IEEE 754 binary floating point as Go's \<open>float64\<close> and \<open>float32\<close> use it: not-a-number, the two
  infinities, and finite values as rationals, with every arithmetic result rounded to nearest,
  ties to even, in the format's precision and exponent range. The two zeros are one value here:
  the source never divides by a zero it could observe the sign of. A \<open>float32\<close> is held as the
  \<open>float64\<close> of the same value, so that the widening conversion is the identity and the narrowing
  one is \<open>to_f32\<close>.
\<close>

datatype f64 = NaN | PInf | NInf | Fin rat

section \<open>Rounding\<close>

definition pow2 :: "int \<Rightarrow> rat" where
  "pow2 k = (if 0 \<le> k then 2 ^ nat k else 1 / 2 ^ nat (- k))"

text \<open>The exponent of a positive rational: \<open>pow2 (ilog2 q) \<le> q < pow2 (ilog2 q + 1)\<close>.\<close>

definition ilog2 :: "rat \<Rightarrow> int" where
  "ilog2 q = (let (n, d) = quotient_of q; k = bitlen n - bitlen d
              in if pow2 k \<le> q then k else k - 1)"

definition round_even :: "rat \<Rightarrow> int" where
  "round_even q =
     (let f = \<lfloor>q\<rfloor>; r = q - of_int f
      in if r < 1 / 2 then f else if 1 / 2 < r then f + 1 else if even f then f else f + 1)"

definition round_pos :: "int \<Rightarrow> int \<Rightarrow> rat \<Rightarrow> rat" where
  "round_pos p emin q =
     (let u = max (ilog2 q - (p - 1)) emin in of_int (round_even (q / pow2 u)) * pow2 u)"

definition round_rat :: "int \<Rightarrow> int \<Rightarrow> rat \<Rightarrow> rat" where
  "round_rat p emin q =
     (if q = 0 then 0 else if 0 < q then round_pos p emin q else - round_pos p emin (- q))"

definition round_float :: "int \<Rightarrow> int \<Rightarrow> int \<Rightarrow> rat \<Rightarrow> f64" where
  "round_float p emin emax q =
     (let r = round_rat p emin q
      in if pow2 emax \<le> r then PInf else if r \<le> - pow2 emax then NInf else Fin r)"

definition rnd64 :: "rat \<Rightarrow> f64" where
  "rnd64 = round_float 53 (-1074) 1024"

definition rnd32 :: "rat \<Rightarrow> f64" where
  "rnd32 = round_float 24 (-149) 128"

section \<open>Comparison and arithmetic\<close>

fun fle :: "f64 \<Rightarrow> f64 \<Rightarrow> bool" where
  "fle NaN _ = False"
| "fle _ NaN = False"
| "fle NInf _ = True"
| "fle _ PInf = True"
| "fle (Fin a) (Fin b) = (a \<le> b)"
| "fle _ _ = False"

fun feq :: "f64 \<Rightarrow> f64 \<Rightarrow> bool" where
  "feq NaN _ = False"
| "feq a b = (a = b)"

definition flt :: "f64 \<Rightarrow> f64 \<Rightarrow> bool" where
  "flt a b \<longleftrightarrow> fle a b \<and> \<not> feq a b"

fun fneg :: "f64 \<Rightarrow> f64" where
  "fneg NaN = NaN" | "fneg PInf = NInf" | "fneg NInf = PInf" | "fneg (Fin a) = Fin (- a)"

fun fabs :: "f64 \<Rightarrow> f64" where
  "fabs NaN = NaN" | "fabs PInf = PInf" | "fabs NInf = PInf" | "fabs (Fin a) = Fin \<bar>a\<bar>"

fun fadd :: "f64 \<Rightarrow> f64 \<Rightarrow> f64" where
  "fadd (Fin a) (Fin b) = rnd64 (a + b)"
| "fadd NaN _ = NaN"
| "fadd _ NaN = NaN"
| "fadd PInf NInf = NaN"
| "fadd NInf PInf = NaN"
| "fadd PInf _ = PInf"
| "fadd _ PInf = PInf"
| "fadd NInf _ = NInf"
| "fadd _ NInf = NInf"

definition fsub :: "f64 \<Rightarrow> f64 \<Rightarrow> f64" where
  "fsub a b = fadd a (fneg b)"

definition inf_sgn :: "rat \<Rightarrow> f64" where
  "inf_sgn s = (if s = 0 then NaN else if 0 < s then PInf else NInf)"

fun fmul :: "f64 \<Rightarrow> f64 \<Rightarrow> f64" where
  "fmul (Fin a) (Fin b) = rnd64 (a * b)"
| "fmul NaN _ = NaN"
| "fmul _ NaN = NaN"
| "fmul PInf PInf = PInf"
| "fmul PInf NInf = NInf"
| "fmul NInf PInf = NInf"
| "fmul NInf NInf = PInf"
| "fmul PInf (Fin b) = inf_sgn b"
| "fmul NInf (Fin b) = inf_sgn (- b)"
| "fmul (Fin a) PInf = inf_sgn a"
| "fmul (Fin a) NInf = inf_sgn (- a)"

text \<open>Division by zero gives the infinity of the dividend's sign (the divisor taken as \<open>+0\<close>).\<close>

fun fdiv :: "f64 \<Rightarrow> f64 \<Rightarrow> f64" where
  "fdiv (Fin a) (Fin b) = (if b = 0 then inf_sgn a else rnd64 (a / b))"
| "fdiv NaN _ = NaN"
| "fdiv _ NaN = NaN"
| "fdiv (Fin a) _ = Fin 0"
| "fdiv PInf (Fin b) = (if 0 \<le> b then PInf else NInf)"
| "fdiv NInf (Fin b) = (if 0 \<le> b then NInf else PInf)"
| "fdiv _ _ = NaN"

text \<open>\<open>float32(x)\<close> for a \<open>float64\<close> \<open>x\<close>.\<close>

fun to_f32 :: "f64 \<Rightarrow> f64" where
  "to_f32 (Fin a) = rnd32 a"
| "to_f32 a = a"

text \<open>
  \<open>int(math.Floor(x))\<close>. Outside the \<open>int\<close> range Go leaves the result to the implementation; the
  value is the one of the amd64 instruction, the least \<open>int\<close>.
\<close>

fun floor_int :: "f64 \<Rightarrow> int" where
  "floor_int (Fin a) = (if int_in_range \<lfloor>a\<rfloor> then \<lfloor>a\<rfloor> else - (2 ^ 63))"
| "floor_int _ = - (2 ^ 63)"

text \<open>\<open>lit q\<close>: a decimal constant of the source, rounded at compile time; \<open>float64(n)\<close> of an integer.\<close>

abbreviation lit :: "rat \<Rightarrow> f64" where
  "lit q \<equiv> rnd64 q"

definition of_int_f64 :: "int \<Rightarrow> f64" where
  "of_int_f64 n = rnd64 (of_int n)"

definition is_fin :: "f64 \<Rightarrow> bool" where
  "is_fin x \<longleftrightarrow> (case x of Fin _ \<Rightarrow> True | _ \<Rightarrow> False)"

text \<open>Representable rationals: the finite values of the two formats.\<close>

definition rep64 :: "rat \<Rightarrow> bool" where
  "rep64 q \<longleftrightarrow> rnd64 q = Fin q"

definition rep32 :: "rat \<Rightarrow> bool" where
  "rep32 q \<longleftrightarrow> rnd32 q = Fin q"

text \<open>\<open>is_f64 x\<close>: \<open>x\<close> is a value a \<open>float64\<close> variable can hold.\<close>

definition is_f64 :: "f64 \<Rightarrow> bool" where
  "is_f64 x \<longleftrightarrow> (case x of Fin q \<Rightarrow> rep64 q | _ \<Rightarrow> True)"

section \<open>Order\<close>

lemma fle_refl [simp]: "fle x x \<longleftrightarrow> x \<noteq> NaN"
  by (cases x) auto

lemma fle_trans: "fle x y \<Longrightarrow> fle y z \<Longrightarrow> fle x z"
  by (cases x; cases y; cases z) auto

lemma fle_total: "x \<noteq> NaN \<Longrightarrow> y \<noteq> NaN \<Longrightarrow> fle x y \<or> fle y x"
  by (cases x; cases y) auto

lemma fle_antisym: "fle x y \<Longrightarrow> fle y x \<Longrightarrow> x = y"
  by (cases x; cases y) auto

lemma fle_not_NaN: "fle x y \<Longrightarrow> x \<noteq> NaN \<and> y \<noteq> NaN"
  by (cases x; cases y) auto

lemma feq_iff [simp]: "feq x y \<longleftrightarrow> x = y \<and> x \<noteq> NaN"
  by (cases x; cases y) auto

lemma flt_iff: "flt x y \<longleftrightarrow> fle x y \<and> x \<noteq> y"
  by (cases x; cases y) (auto simp: flt_def)

lemma not_fle: "x \<noteq> NaN \<Longrightarrow> y \<noteq> NaN \<Longrightarrow> \<not> fle x y \<longleftrightarrow> flt y x"
  by (cases x; cases y) (auto simp: flt_iff)

lemma flt_fle: "flt x y \<Longrightarrow> fle x y"
  by (simp add: flt_def)

lemma not_flt_refl [simp]: "\<not> flt x x"
  by (cases x) (auto simp: flt_def)

lemma flt_Fin [simp]: "flt (Fin a) (Fin b) \<longleftrightarrow> a < b"
  by (auto simp: flt_def)

lemma is_fin_Fin [simp]: "is_fin (Fin q)" "\<not> is_fin NaN" "\<not> is_fin PInf" "\<not> is_fin NInf"
  by (simp_all add: is_fin_def)

lemma is_fin_not_NaN: "is_fin x \<Longrightarrow> x \<noteq> NaN"
  by auto

lemma is_finE: "is_fin x \<Longrightarrow> (\<And>q. x = Fin q \<Longrightarrow> P) \<Longrightarrow> P"
  by (cases x) auto

section \<open>Rounding is monotone and exact on the values of the format\<close>

lemma pow2_pos [simp]: "0 < pow2 k"
  by (simp add: pow2_def)

lemma pow2_nonneg [simp]: "0 \<le> pow2 k" "pow2 k \<noteq> 0"
  using pow2_pos[of k] by (simp_all add: less_imp_le del: pow2_pos)

lemma pow2_eq: "pow2 k = 2 powi k"
  by (simp add: pow2_def power_int_def field_simps)

lemma pow2_add: "pow2 (a + b) = pow2 a * pow2 b"
  by (simp add: pow2_eq power_int_add)

lemma pow2_minus: "pow2 (- k) = 1 / pow2 k"
  by (simp add: pow2_eq power_int_minus field_simps)

lemma pow2_diff: "pow2 (a - b) = pow2 a / pow2 b"
  by (simp add: pow2_eq power_int_diff)

lemma pow2_mono: "a \<le> b \<Longrightarrow> pow2 a \<le> pow2 b"
  by (simp add: pow2_eq power_int_increasing)

lemma pow2_less: "a < b \<Longrightarrow> pow2 a < pow2 b"
  by (simp add: pow2_eq power_int_strict_increasing)

lemma pow2_less_iff [simp]: "pow2 a < pow2 b \<longleftrightarrow> a < b"
  by (meson leD linorder_not_less pow2_less pow2_mono)

lemma pow2_le_iff [simp]: "pow2 a \<le> pow2 b \<longleftrightarrow> a \<le> b"
  by (meson leD linorder_not_less pow2_less pow2_mono)

lemma pow2_1 [simp]: "pow2 0 = 1" "pow2 1 = 2"
  by (simp_all add: pow2_def)

lemma pow2_Suc: "pow2 (k + 1) = 2 * pow2 k"
  by (simp add: pow2_add)

lemma pow2_int: "0 \<le> k \<Longrightarrow> pow2 k = of_int (2 ^ nat k)"
  by (simp add: pow2_def)

lemma bitlen_pow2:
  assumes "0 < n"
  shows "pow2 (bitlen n - 1) \<le> of_int n" "of_int n < pow2 (bitlen n)"
proof -
  have b: "0 < bitlen n" using assms bitlen_eq_zero_iff[of n] bitlen_nonneg[of n] by linarith
  have *: "2 ^ nat (bitlen n - 1) \<le> n \<and> n < 2 ^ nat (bitlen n)"
    using bitlen_bounds[OF assms] .
  then have "of_int (2 ^ nat (bitlen n - 1)) \<le> (of_int n :: rat)" "(of_int n :: rat) < of_int (2 ^ nat (bitlen n))"
    by (simp_all only: of_int_le_iff of_int_less_iff)
  then show "pow2 (bitlen n - 1) \<le> of_int n" "of_int n < pow2 (bitlen n)"
    using b by (simp_all add: pow2_int)
qed

lemma ilog2_bounds:
  assumes "0 < q"
  shows "pow2 (ilog2 q) \<le> q" "q < pow2 (ilog2 q + 1)"
proof -
  obtain n d where nd: "quotient_of q = (n, d)" by fastforce
  have d: "0 < d" by (rule quotient_of_denom_pos[OF nd])
  have q: "q = of_int n / of_int d" by (rule quotient_of_div[OF nd])
  have n: "0 < n" using assms d q by (simp add: zero_less_divide_iff)
  let ?k = "bitlen n - bitlen d"
  have dq: "0 < (of_int d :: rat)" using d by simp
  have "q < pow2 (bitlen n) / of_int d"
    unfolding q using bitlen_pow2(2)[OF n] dq by (intro divide_strict_right_mono) auto
  also have "\<dots> \<le> pow2 (bitlen n) / pow2 (bitlen d - 1)"
    using bitlen_pow2(1)[OF d] dq by (intro divide_left_mono) auto
  also have "\<dots> = pow2 (?k + 1)"
    by (simp flip: pow2_diff add: algebra_simps)
  finally have ub: "q < pow2 (?k + 1)" .
  have "pow2 (?k - 1) = pow2 (bitlen n - 1) / pow2 (bitlen d)"
    by (simp flip: pow2_diff add: algebra_simps)
  also have "\<dots> \<le> of_int n / pow2 (bitlen d)"
    using bitlen_pow2(1)[OF n] by (intro divide_right_mono) auto
  also have "\<dots> < q"
    unfolding q using bitlen_pow2(2)[OF d] dq n by (intro divide_strict_left_mono) auto
  finally have lb: "pow2 (?k - 1) < q" .
  show "pow2 (ilog2 q) \<le> q" "q < pow2 (ilog2 q + 1)"
    using ub lb by (auto simp: ilog2_def nd Let_def)
qed

lemma ilog2_unique:
  assumes "pow2 e \<le> q" "q < pow2 (e + 1)"
  shows "ilog2 q = e"
proof -
  have q: "0 < q" using assms(1) pow2_pos[of e] by linarith
  have "pow2 (ilog2 q) < pow2 (e + 1)" "pow2 e < pow2 (ilog2 q + 1)"
    using ilog2_bounds[OF q] assms by linarith+
  then show ?thesis by simp
qed

lemma ilog2_mono: "0 < x \<Longrightarrow> x \<le> y \<Longrightarrow> ilog2 x \<le> ilog2 y"
proof -
  assume "0 < x" "x \<le> y"
  then have "pow2 (ilog2 x) < pow2 (ilog2 y + 1)"
    using ilog2_bounds(1)[of x] ilog2_bounds(2)[of y] by linarith
  then show ?thesis by simp
qed

lemma round_even_mono: "x \<le> y \<Longrightarrow> round_even x \<le> round_even y"
proof -
  assume le: "x \<le> y"
  then have f: "\<lfloor>x\<rfloor> \<le> \<lfloor>y\<rfloor>" by (rule floor_mono)
  show ?thesis
  proof (cases "\<lfloor>x\<rfloor> = \<lfloor>y\<rfloor>")
    case True
    with le show ?thesis by (auto simp: round_even_def Let_def)
  next
    case False
    with f have "\<lfloor>x\<rfloor> + 1 \<le> \<lfloor>y\<rfloor>" by simp
    then show ?thesis by (auto simp: round_even_def Let_def)
  qed
qed

lemma round_even_of_int [simp]: "round_even (of_int n) = n"
  by (simp add: round_even_def)

lemma round_even_nonneg: "0 \<le> x \<Longrightarrow> 0 \<le> round_even x"
  using round_even_mono[of 0 x] round_even_of_int[of 0] by simp

lemma round_pos_le_int:
  assumes "q \<le> of_int m * pow2 (max (ilog2 q - (p - 1)) emin)"
  shows "round_pos p emin q \<le> of_int m * pow2 (max (ilog2 q - (p - 1)) emin)"
proof -
  let ?u = "max (ilog2 q - (p - 1)) emin"
  have "q / pow2 ?u \<le> of_int m"
    using assms by (simp add: divide_le_eq)
  then have "round_even (q / pow2 ?u) \<le> m"
    using round_even_mono[of "q / pow2 ?u" "of_int m"] by simp
  then show ?thesis
    by (simp add: round_pos_def Let_def mult_right_mono)
qed

lemma round_pos_ge_int:
  assumes "of_int m * pow2 (max (ilog2 q - (p - 1)) emin) \<le> q"
  shows "of_int m * pow2 (max (ilog2 q - (p - 1)) emin) \<le> round_pos p emin q"
proof -
  let ?u = "max (ilog2 q - (p - 1)) emin"
  have "of_int m \<le> q / pow2 ?u"
    using assms by (simp add: le_divide_eq)
  then have "m \<le> round_even (q / pow2 ?u)"
    using round_even_mono[of "of_int m" "q / pow2 ?u"] by simp
  then show ?thesis
    by (simp add: round_pos_def Let_def mult_right_mono)
qed

lemma pow2_split: "u \<le> e \<Longrightarrow> pow2 e = of_int (2 ^ nat (e - u)) * pow2 u"
  by (simp add: pow2_int[symmetric] pow2_diff del: of_int_power)

lemma round_pos_exact:
  assumes "0 < q" "q = of_int m * pow2 e" "emin \<le> e" "of_int m < pow2 p"
  shows "round_pos p emin q = q"
proof -
  let ?u = "max (ilog2 q - (p - 1)) emin"
  have "q < pow2 (p + e)"
    using assms(2,4) by (simp add: pow2_add)
  then have "pow2 (ilog2 q) < pow2 (p + e)"
    using ilog2_bounds(1)[OF assms(1)] by linarith
  then have u: "?u \<le> e"
    using assms(3) by simp
  have "of_int m * pow2 e = of_int (m * 2 ^ nat (e - u)) * pow2 u" if "u \<le> e" for u
    by (simp add: pow2_split[OF that])
  note eq = trans[OF assms(2) this[OF u]]
  show ?thesis
  proof (rule antisym)
    show "round_pos p emin q \<le> q"
      using round_pos_le_int[OF eq_refl[OF eq]] eq[symmetric] by simp
    show "q \<le> round_pos p emin q"
      using round_pos_ge_int[OF eq_refl[OF eq[symmetric]]] eq[symmetric] by simp
  qed
qed

lemma round_pos_nonneg: "0 < q \<Longrightarrow> 0 \<le> round_pos p emin q"
  using round_pos_ge_int[of 0 q p emin] by simp

lemma round_pos_mono:
  assumes "0 < x" "x \<le> y" "1 \<le> p"
  shows "round_pos p emin x \<le> round_pos p emin y"
proof -
  let ?ux = "max (ilog2 x - (p - 1)) emin" and ?uy = "max (ilog2 y - (p - 1)) emin"
  have il: "ilog2 x \<le> ilog2 y"
    by (rule ilog2_mono[OF assms(1,2)])
  show ?thesis
  proof (cases "?ux = ?uy")
    case True
    then have "round_even (x / pow2 ?ux) \<le> round_even (y / pow2 ?uy)"
      using assms(2) by (intro round_even_mono) (simp add: divide_right_mono)
    with True show ?thesis
      by (simp add: round_pos_def Let_def mult_right_mono)
  next
    case False
    with il have e: "ilog2 x < ilog2 y" "?ux \<le> ilog2 y" "?uy \<le> ilog2 y"
      using assms(3) by (auto simp: max_def split: if_splits)
    have "x < pow2 (ilog2 x + 1)"
      by (rule ilog2_bounds(2)[OF assms(1)])
    also have "\<dots> \<le> pow2 (ilog2 y)"
      using e(1) by simp
    finally have "round_pos p emin x \<le> pow2 (ilog2 y)"
      using round_pos_le_int[of x "2 ^ nat (ilog2 y - ?ux)" p emin] pow2_split[OF e(2)] by simp
    moreover have "pow2 (ilog2 y) \<le> round_pos p emin y"
      using round_pos_ge_int[of "2 ^ nat (ilog2 y - ?uy)" y p emin] pow2_split[OF e(3)]
        ilog2_bounds(1)[of y] assms(1,2) by simp
    ultimately show ?thesis by linarith
  qed
qed

lemma round_rat_mono:
  assumes "x \<le> y" "1 \<le> p"
  shows "round_rat p emin x \<le> round_rat p emin y"
proof -
  consider "0 < x" | "x = 0" | "x < 0" "y < 0" | "x < 0" "0 \<le> y"
    by linarith
  then show ?thesis
  proof cases
    case 1
    with assms show ?thesis by (auto simp: round_rat_def round_pos_mono)
  next
    case 2
    with assms show ?thesis by (auto simp: round_rat_def round_pos_nonneg)
  next
    case 3
    with assms show ?thesis by (auto simp: round_rat_def intro: round_pos_mono)
  next
    case 4
    then have "round_rat p emin x \<le> 0"
      using round_pos_nonneg[of "- x" p emin] by (simp add: round_rat_def)
    also have "0 \<le> round_rat p emin y"
      using 4 round_pos_nonneg[of y p emin] by (simp add: round_rat_def)
    finally show ?thesis .
  qed
qed

lemma round_rat_exact:
  assumes "q = of_int m * pow2 e" "emin \<le> e" "of_int \<bar>m\<bar> < pow2 p"
  shows "round_rat p emin q = q"
proof -
  have "round_pos p emin q = q" if "0 < q"
    using that assms by (intro round_pos_exact[of q m e]) auto
  moreover have "round_pos p emin (- q) = - q" if "q < 0"
    using that assms by (intro round_pos_exact[of "- q" "- m" e]) auto
  ultimately show ?thesis
    by (auto simp: round_rat_def)
qed

lemma round_float_mono:
  assumes "x \<le> y" "1 \<le> p"
  shows "fle (round_float p emin emax x) (round_float p emin emax y)"
proof -
  let ?x = "round_rat p emin x" and ?y = "round_rat p emin y"
  have "?x \<le> ?y" by (rule round_rat_mono[OF assms])
  moreover have "0 < pow2 emax" by simp
  ultimately show ?thesis
    by (auto simp: round_float_def Let_def)
qed

lemma rnd64_mono: "x \<le> y \<Longrightarrow> fle (rnd64 x) (rnd64 y)"
  by (simp add: rnd64_def round_float_mono)

lemma rnd32_mono: "x \<le> y \<Longrightarrow> fle (rnd32 x) (rnd32 y)"
  by (simp add: rnd32_def round_float_mono)

lemma round_float_exact:
  assumes "q = of_int m * pow2 e" "emin \<le> e" "of_int \<bar>m\<bar> < pow2 p" "\<bar>q\<bar> < pow2 emax"
  shows "round_float p emin emax q = Fin q"
  using round_rat_exact[OF assms(1-3)] assms(4)
  by (auto simp: round_float_def abs_less_iff)

lemma rnd64_not_NaN [simp]: "rnd64 q \<noteq> NaN" "rnd32 q \<noteq> NaN"
  by (simp_all add: rnd64_def rnd32_def round_float_def Let_def)

lemma rnd64_of_int:
  assumes "\<bar>n\<bar> < 2 ^ 53"
  shows "rnd64 (of_int n) = Fin (of_int n)"
proof -
  have "of_int \<bar>n\<bar> < (of_int (2 ^ 53) :: rat)"
    using assms by (simp only: of_int_less_iff)
  moreover have "pow2 53 = of_int (2 ^ 53)" "pow2 53 < pow2 1024"
    by (simp_all add: pow2_def)
  ultimately show ?thesis
    unfolding rnd64_def
    by (intro round_float_exact[of _ n 0]) (auto simp flip: of_int_abs)
qed

lemma rnd64_numeral [simp]:
  "(numeral k :: int) < 2 ^ 53 \<Longrightarrow> rnd64 (numeral k) = Fin (numeral k)"
  "(numeral k :: int) < 2 ^ 53 \<Longrightarrow> rnd64 (- numeral k) = Fin (- numeral k)"
  using rnd64_of_int[of "numeral k"] rnd64_of_int[of "- numeral k"] by simp_all

lemma rnd64_0 [simp]: "rnd64 0 = Fin 0"
  using rnd64_of_int[of 0] by simp

lemma rnd64_1 [simp]: "rnd64 1 = Fin 1" "rnd64 (- 1) = Fin (- 1)"
  using rnd64_of_int[of 1] rnd64_of_int[of "- 1"] by simp_all

text \<open>Values of the form \<open>n / 2^k\<close> with a short numerator are exact.\<close>

lemma rnd64_dyadic:
  assumes "\<bar>n\<bar> < 2 ^ 53" "k \<le> 1074"
  shows "rnd64 (of_int n / 2 ^ k) = Fin (of_int n / 2 ^ k)"
proof -
  have n: "of_int \<bar>n\<bar> < (of_int (2 ^ 53) :: rat)"
    using assms(1) by (simp only: of_int_less_iff)
  have "\<bar>of_int n / 2 ^ k\<bar> \<le> (of_int \<bar>n\<bar> :: rat)"
    using mult_left_mono[of 1 "2 ^ k" "\<bar>of_int n :: rat\<bar>"] by (simp add: abs_divide divide_le_eq)
  also have "\<dots> < pow2 53"
    using n by (simp add: pow2_def)
  also have "\<dots> < pow2 1024"
    by simp
  finally have "\<bar>of_int n / 2 ^ k\<bar> < pow2 1024" .
  then show ?thesis
    unfolding rnd64_def using assms(2) n
    by (intro round_float_exact[of _ n "- int k"]) (auto simp: pow2_def)
qed

section \<open>Averages stay between their arguments\<close>

lemma round_pos_double:
  assumes "0 < q" "round_pos p emin q = q"
  shows "round_pos p emin (2 * q) = 2 * q"
proof -
  let ?u = "max (ilog2 q - (p - 1)) emin"
  let ?u' = "max (ilog2 (2 * q) - (p - 1)) emin"
  define k where "k = round_even (q / pow2 ?u)"
  have q: "of_int k * pow2 ?u = q"
    using assms(2) by (simp add: round_pos_def Let_def k_def)
  have "ilog2 (2 * q) = ilog2 q + 1"
    using ilog2_bounds[OF assms(1)] pow2_Suc[of "ilog2 q + 1"]
    by (intro ilog2_unique) (simp_all add: pow2_Suc)
  then have "?u' = ?u + 1 \<or> ?u' = ?u"
    by (auto simp: max_def)
  then obtain m where m: "of_int m * pow2 ?u' = 2 * q"
  proof
    assume "?u' = ?u + 1"
    then have "of_int k * pow2 ?u' = 2 * q"
      using q by (simp add: pow2_Suc)
    then show ?thesis by (rule that)
  next
    assume "?u' = ?u"
    then have "of_int (2 * k) * pow2 ?u' = 2 * q"
      using q by simp
    then show ?thesis by (rule that)
  qed
  show ?thesis
    using round_pos_le_int[OF eq_refl[OF m[symmetric]]]
      round_pos_ge_int[OF eq_refl[OF m]] m by (intro antisym) auto
qed

lemma round_rat_double: "round_rat p emin q = q \<Longrightarrow> round_rat p emin (2 * q) = 2 * q"
  using round_pos_double[of q p emin] round_pos_double[of "- q" p emin]
  by (auto simp: round_rat_def split: if_splits)

lemma round_float_Fin:
  "round_float p emin emax q = Fin r \<longleftrightarrow> round_rat p emin q = r \<and> \<bar>r\<bar> < pow2 emax"
  by (auto simp: round_float_def Let_def abs_less_iff)

lemma favg_between:
  assumes "rep64 a" "rep64 b" "a \<le> b" "fadd (Fin a) (Fin b) = Fin s"
  obtains m where "fdiv (Fin s) (Fin 2) = Fin m" "a \<le> m" "m \<le> b"
proof -
  let ?R = "round_rat 53 (-1074)"
  have a: "?R a = a" "\<bar>a\<bar> < pow2 1024" and b: "?R b = b" "\<bar>b\<bar> < pow2 1024"
    using assms(1,2) by (simp_all add: rep64_def rnd64_def round_float_Fin)
  have s: "?R (a + b) = s"
    using assms(4) by (simp add: rnd64_def round_float_Fin)
  have "2 * a \<le> s" "s \<le> 2 * b"
    using round_rat_mono[of "2 * a" "a + b" 53 "-1074"] round_rat_mono[of "a + b" "2 * b" 53 "-1074"]
      round_rat_double[OF a(1)] round_rat_double[OF b(1)] s assms(3) by simp_all
  then have "a \<le> ?R (s / 2)" "?R (s / 2) \<le> b"
    using round_rat_mono[of a "s / 2" 53 "-1074"] round_rat_mono[of "s / 2" b 53 "-1074"] a b
    by simp_all
  moreover from this have "\<bar>?R (s / 2)\<bar> < pow2 1024"
    using a(2) b(2) by (simp add: abs_less_iff)
  ultimately show ?thesis
    by (intro that[of "?R (s / 2)"]) (simp_all add: rnd64_def round_float_Fin)
qed

text \<open>Adding a non-negative amount never decreases a value.\<close>

lemma fadd_nonneg:
  assumes "is_f64 x" "is_fin x" "fle (Fin 0) y"
  shows "fle x (fadd x y)"
proof (cases "\<exists>a b. x = Fin a \<and> y = Fin b")
  case True
  then obtain a b where ab: "x = Fin a" "y = Fin b" by blast
  with assms have "rnd64 a = Fin a" "0 \<le> b"
    by (simp_all add: is_f64_def rep64_def)
  with ab show ?thesis
    using rnd64_mono[of a "a + b"] by simp
next
  case False
  with assms(2,3) show ?thesis by (cases x; cases y) simp_all
qed

end
