(* ===== verification/Partition.thy ===== *)
theory Partition
  imports Float64 "HOL-Library.Multiset"
begin

text \<open>
  Package \<open>partition\<close> (\<open>src/internal/partition/split.go\<close>): the quadtree of cells. Cell bounds,
  the split of a cell in four, the path identifiers \<open>cell_root\<close>, \<open>cell_q0_q3\<close>, the point test,
  the children a split plans, and the two checks that four catalog entries are the inverse of a
  split. A nil pointer of the source is \<^const>\<open>None\<close>; an error is a value of \<open>partition_error\<close>
  that carries the arguments of the message the source prints.
\<close>

section \<open>Data\<close>

record Bounds =
  XMin :: f64
  XMax :: f64
  ZMin :: f64
  ZMax :: f64

record CellSpec =
  cs_Id :: string
  cs_Level :: int32
  cs_Bounds :: "Bounds option"
  cs_GrpcEndpoint :: string

record PlanSplitResponseChild =
  ch_Id :: string
  ch_Bounds :: "Bounds option"
  ch_Level :: int32

datatype partition_error =
    InvalidCellPathId string
  | InvalidCellPathSegment string
  | InvalidCellPathQuadrant string
  | QuadrantOutOfRange int
  | ParentNilOrNoBounds
  | AmbiguousCatalogMatch nat
  | MissingCatalogChild nat
  | EmptyChildIdInQuadrant nat
  | DuplicateChildIdInQuadrants string
  | ParentBoundsNil
  | NeedFourChildren nat
  | ChildSpecNil
  | ChildEmptyId
  | ChildWrongLevel string int32 int32
  | ChildMissingBounds string
  | DuplicateChildId string
  | ChildBoundsNoQuadrant string
  | MissingMergeQuadrant nat

section \<open>Geometry\<close>

definition Mid :: "Bounds option \<Rightarrow> f64 \<times> f64" where
  "Mid ob =
     (case ob of
        None \<Rightarrow> (Fin 0, Fin 0)
      | Some b \<Rightarrow> (fdiv (fadd (XMin b) (XMax b)) (Fin 2), fdiv (fadd (ZMin b) (ZMax b)) (Fin 2)))"

definition SplitFour :: "Bounds \<Rightarrow> Bounds list" where
  "SplitFour parent =
     (let (mx, mz) = Mid (Some parent)
      in [\<lparr>XMin = XMin parent, XMax = mx, ZMin = ZMin parent, ZMax = mz\<rparr>,
          \<lparr>XMin = mx, XMax = XMax parent, ZMin = ZMin parent, ZMax = mz\<rparr>,
          \<lparr>XMin = XMin parent, XMax = mx, ZMin = mz, ZMax = ZMax parent\<rparr>,
          \<lparr>XMin = mx, XMax = XMax parent, ZMin = mz, ZMax = ZMax parent\<rparr>])"

definition Quadrant :: "f64 \<Rightarrow> f64 \<Rightarrow> Bounds option \<Rightarrow> nat" where
  "Quadrant x z b =
     (let (mx, mz) = Mid b;
          qx = (if fle mx x then 1 else 0);
          qz = (if fle mz z then 1 else 0)
      in qz * 2 + qx)"

definition Contains :: "Bounds option \<Rightarrow> f64 \<Rightarrow> f64 \<Rightarrow> bool" where
  "Contains ob x z =
     (case ob of
        None \<Rightarrow> False
      | Some b \<Rightarrow> fle (XMin b) x \<and> fle x (XMax b) \<and> fle (ZMin b) z \<and> fle z (ZMax b))"

definition boundsEqual :: "Bounds option \<Rightarrow> Bounds option \<Rightarrow> bool" where
  "boundsEqual oa ob =
     (case (oa, ob) of
        (Some a, Some b) \<Rightarrow>
          feq (XMin a) (XMin b) \<and> feq (XMax a) (XMax b) \<and>
          feq (ZMin a) (ZMin b) \<and> feq (ZMax a) (ZMax b)
      | _ \<Rightarrow> oa = None \<and> ob = None)"

section \<open>Path identifiers\<close>

definition rootCellID :: string where
  "rootCellID = ''cell_root''"

definition RootCellID :: string where
  "RootCellID = rootCellID"

text \<open>The regular expression \<open>^cell_(root|q[0-3](?:_q[0-3])*)$\<close>.\<close>

definition quad_char :: "char \<Rightarrow> bool" where
  "quad_char c \<longleftrightarrow> c \<in> set ''0123''"

fun match_segments :: "string \<Rightarrow> bool" where
  "match_segments [a, b] = (a = CHR ''q'' \<and> quad_char b)"
| "match_segments (a # b # c # s) = (a = CHR ''q'' \<and> quad_char b \<and> c = CHR ''_'' \<and> match_segments s)"
| "match_segments _ = False"

definition pathCellIDRe :: "string \<Rightarrow> bool" where
  "pathCellIDRe s \<longleftrightarrow>
     take 5 s = ''cell_'' \<and> (drop 5 s = ''root'' \<or> match_segments (drop 5 s))"

fun parse_segments :: "string list \<Rightarrow> partition_error + int list" where
  "parse_segments [] = Inr []"
| "parse_segments (p # ps) =
     (if length p \<noteq> 2 \<or> p ! 0 \<noteq> CHR ''q'' then Inl (InvalidCellPathSegment p)
      else case Atoi (drop 1 p) of
             None \<Rightarrow> Inl (InvalidCellPathQuadrant p)
           | Some q \<Rightarrow>
               if q < 0 \<or> q > 3 then Inl (InvalidCellPathQuadrant p)
               else (case parse_segments ps of Inl e \<Rightarrow> Inl e | Inr qs \<Rightarrow> Inr (q # qs)))"

definition ParseCellPathID :: "string \<Rightarrow> partition_error + int list" where
  "ParseCellPathID id0 =
     (let id' = TrimSpace id0
      in if \<not> pathCellIDRe id' then Inl (InvalidCellPathId id')
         else let body = drop 5 id'
              in if body = ''root'' then Inr [] else parse_segments (Split1 body (CHR ''_'')))"

definition CellPathLevel :: "string \<Rightarrow> int32 \<times> bool" where
  "CellPathLevel id0 =
     (case ParseCellPathID id0 of Inl _ \<Rightarrow> (0, False) | Inr p \<Rightarrow> (to_int32 (int (length p)), True))"

definition ChildIDForQuadrant :: "string \<Rightarrow> int \<Rightarrow> partition_error + string" where
  "ChildIDForQuadrant parentID quadrant =
     (if quadrant < 0 \<or> quadrant > 3 then Inl (QuadrantOutOfRange quadrant)
      else case ParseCellPathID parentID of
             Inl e \<Rightarrow> Inl e
           | Inr path \<Rightarrow>
               Inr (''cell_'' @ Join (map (\<lambda>q. ''q'' @ Itoa q) path @ [''q'' @ Itoa quadrant]) ''_''))"

text \<open>The prefix loop of \<open>IsDescendantPath\<close>; the length test before it keeps \<open>childPath[i]\<close> in range.\<close>

definition IsDescendantPath :: "string \<Rightarrow> string \<Rightarrow> bool" where
  "IsDescendantPath parentID childID =
     (case ParseCellPathID parentID of
        Inl _ \<Rightarrow> False
      | Inr parentPath \<Rightarrow>
          (case ParseCellPathID childID of
             Inl _ \<Rightarrow> False
           | Inr childPath \<Rightarrow>
               (if length childPath \<le> length parentPath then False
                else (\<forall>i \<in> {0..<length parentPath}. parentPath ! i = childPath ! i))))"

section \<open>Planning a split\<close>

fun child_specs :: "string \<Rightarrow> Bounds list \<Rightarrow> int32 \<Rightarrow> int list \<Rightarrow>
    partition_error + PlanSplitResponseChild list" where
  "child_specs parentID bs nextLevel [] = Inr []"
| "child_specs parentID bs nextLevel (i # is) =
     (case ChildIDForQuadrant parentID i of
        Inl e \<Rightarrow> Inl e
      | Inr childID \<Rightarrow>
          (case child_specs parentID bs nextLevel is of
             Inl e \<Rightarrow> Inl e
           | Inr cs \<Rightarrow>
               Inr (\<lparr>ch_Id = childID, ch_Bounds = Some (bs ! nat i), ch_Level = nextLevel\<rparr> # cs)))"

definition ChildSpecsForSplit :: "string \<Rightarrow> Bounds option \<Rightarrow> int32 \<Rightarrow>
    partition_error + PlanSplitResponseChild list" where
  "ChildSpecsForSplit parentID oparent parentLevel =
     (case oparent of
        None \<Rightarrow> Inr []
      | Some parent \<Rightarrow>
          child_specs parentID (SplitFour parent) (to_int32 (parentLevel + 1)) [0, 1, 2, 3])"

section \<open>The inverse of a split\<close>

text \<open>The inner loop of \<open>CatalogMergeChildren\<close>: the catalog entry of quadrant \<open>qi\<close>.\<close>

fun match_quadrant :: "nat \<Rightarrow> int32 \<Rightarrow> Bounds \<Rightarrow> CellSpec option \<Rightarrow> CellSpec option list \<Rightarrow>
    partition_error + CellSpec option" where
  "match_quadrant qi wantLevel q match [] = Inr match"
| "match_quadrant qi wantLevel q match (None # cs) = match_quadrant qi wantLevel q match cs"
| "match_quadrant qi wantLevel q match (Some c # cs) =
     (if cs_Bounds c = None then match_quadrant qi wantLevel q match cs
      else if cs_Level c \<noteq> wantLevel then match_quadrant qi wantLevel q match cs
      else if \<not> boundsEqual (cs_Bounds c) (Some q) then match_quadrant qi wantLevel q match cs
      else (case match of
              Some m \<Rightarrow>
                if TrimSpace (cs_Id m) \<noteq> TrimSpace (cs_Id c) then Inl (AmbiguousCatalogMatch qi)
                else match_quadrant qi wantLevel q (Some c) cs
            | None \<Rightarrow> match_quadrant qi wantLevel q (Some c) cs))"

fun match_quadrants :: "int32 \<Rightarrow> Bounds list \<Rightarrow> CellSpec option list \<Rightarrow> nat list \<Rightarrow>
    partition_error + CellSpec list" where
  "match_quadrants wantLevel quads catalog [] = Inr []"
| "match_quadrants wantLevel quads catalog (qi # qis) =
     (case match_quadrant qi wantLevel (quads ! qi) None catalog of
        Inl e \<Rightarrow> Inl e
      | Inr None \<Rightarrow> Inl (MissingCatalogChild qi)
      | Inr (Some m) \<Rightarrow>
          (case match_quadrants wantLevel quads catalog qis of
             Inl e \<Rightarrow> Inl e
           | Inr ms \<Rightarrow> Inr (m # ms)))"

fun check_child_ids :: "nat \<Rightarrow> string list \<Rightarrow> CellSpec list \<Rightarrow> partition_error option" where
  "check_child_ids i seen [] = None"
| "check_child_ids i seen (c # cs) =
     (let id' = TrimSpace (cs_Id c)
      in if id' = [] then Some (EmptyChildIdInQuadrant i)
         else if id' \<in> set seen then Some (DuplicateChildIdInQuadrants id')
         else check_child_ids (Suc i) (id' # seen) cs)"

definition CatalogMergeChildren :: "CellSpec option \<Rightarrow> CellSpec option list \<Rightarrow>
    partition_error + CellSpec list" where
  "CatalogMergeChildren oparent catalog =
     (case oparent of
        None \<Rightarrow> Inl ParentNilOrNoBounds
      | Some parent \<Rightarrow>
          (case cs_Bounds parent of
             None \<Rightarrow> Inl ParentNilOrNoBounds
           | Some b \<Rightarrow>
               (case match_quadrants (to_int32 (cs_Level parent + 1)) (SplitFour b) catalog [0, 1, 2, 3] of
                  Inl e \<Rightarrow> Inl e
                | Inr out \<Rightarrow>
                    (case check_child_ids 0 [] out of
                       Some e \<Rightarrow> Inl e
                     | None \<Rightarrow> Inr out))))"

text \<open>The quadrant search of \<open>ValidateMergeChildren\<close>: the first unused quadrant with equal bounds.\<close>

definition find_quadrant :: "bool list \<Rightarrow> Bounds list \<Rightarrow> Bounds option \<Rightarrow> nat option" where
  "find_quadrant used quads b =
     find (\<lambda>qi. \<not> used ! qi \<and> boundsEqual b (Some (quads ! qi))) [0, 1, 2, 3]"

fun validate_children :: "int32 \<Rightarrow> Bounds list \<Rightarrow> bool list \<Rightarrow> string list \<Rightarrow>
    CellSpec option list \<Rightarrow> partition_error + bool list" where
  "validate_children wantLevel quads used seen [] = Inr used"
| "validate_children wantLevel quads used seen (None # cs) = Inl ChildSpecNil"
| "validate_children wantLevel quads used seen (Some c # cs) =
     (let id' = TrimSpace (cs_Id c)
      in if id' = [] then Inl ChildEmptyId
         else if cs_Level c \<noteq> wantLevel then Inl (ChildWrongLevel id' (cs_Level c) wantLevel)
         else if cs_Bounds c = None then Inl (ChildMissingBounds id')
         else if id' \<in> set seen then Inl (DuplicateChildId id')
         else case find_quadrant used quads (cs_Bounds c) of
                None \<Rightarrow> Inl (ChildBoundsNoQuadrant id')
              | Some qi \<Rightarrow> validate_children wantLevel quads (used[qi := True]) (id' # seen) cs)"

definition ValidateMergeChildren :: "Bounds option \<Rightarrow> int32 \<Rightarrow> CellSpec option list \<Rightarrow>
    partition_error option" where
  "ValidateMergeChildren oparent parentLevel children =
     (case oparent of
        None \<Rightarrow> Some ParentBoundsNil
      | Some parent \<Rightarrow>
          (if length children \<noteq> 4 then Some (NeedFourChildren (length children))
           else case validate_children (to_int32 (parentLevel + 1)) (SplitFour parent)
                       [False, False, False, False] [] children of
                  Inl e \<Rightarrow> Some e
                | Inr used \<Rightarrow>
                    map_option MissingMergeQuadrant (find (\<lambda>qi. \<not> used ! qi) [0, 1, 2, 3])))"


section \<open>Path identifiers and paths\<close>

text \<open>
  \<open>path_id\<close> prints a path; \<open>ParseCellPathID\<close> accepts exactly the printed paths, up to surrounding
  white space, and gives the path back.
\<close>

definition valid_path :: "int list \<Rightarrow> bool" where
  "valid_path p \<longleftrightarrow> (\<forall>q \<in> set p. 0 \<le> q \<and> q \<le> 3)"

definition seg :: "int \<Rightarrow> string" where
  "seg q = ''q'' @ Itoa q"

definition path_id :: "int list \<Rightarrow> string" where
  "path_id p = ''cell_'' @ (if p = [] then ''root'' else Join (map seg p) ''_'')"

lemma quadrant_cases: "0 \<le> (q::int) \<Longrightarrow> q \<le> 3 \<Longrightarrow> q = 0 \<or> q = 1 \<or> q = 2 \<or> q = 3"
  by auto

lemma seg_values:
  "seg 0 = ''q0''" "seg 1 = ''q1''" "seg 2 = ''q2''" "seg 3 = ''q3''"
  by code_simp+

lemma Atoi_quad: "Atoi ''0'' = Some 0" "Atoi ''1'' = Some 1" "Atoi ''2'' = Some 2" "Atoi ''3'' = Some 3"
  by code_simp+

lemma seg_facts:
  assumes "0 \<le> q" "q \<le> 3"
  shows "\<exists>c. seg q = [CHR ''q'', c] \<and> quad_char c \<and> Atoi [c] = Some q \<and> ascii_graph c"
  using quadrant_cases[OF assms]
  by (auto simp: seg_values quad_char_def ascii_graph_def Atoi_quad)

lemma quad_char_seg:
  assumes "quad_char c"
  obtains q where "0 \<le> q" "q \<le> 3" "seg q = [CHR ''q'', c]"
proof -
  have "c = CHR ''0'' \<or> c = CHR ''1'' \<or> c = CHR ''2'' \<or> c = CHR ''3''"
    using assms by (simp add: quad_char_def)
  then show ?thesis
    using that[of 0] that[of 1] that[of 2] that[of 3] seg_values by auto
qed

lemma valid_path_Cons [simp]: "valid_path (q # p) \<longleftrightarrow> 0 \<le> q \<and> q \<le> 3 \<and> valid_path p"
  by (auto simp: valid_path_def)

lemma valid_path_Nil [simp]: "valid_path []"
  by (simp add: valid_path_def)

lemma valid_path_append [simp]: "valid_path (p @ r) \<longleftrightarrow> valid_path p \<and> valid_path r"
  by (auto simp: valid_path_def)

lemma parse_segments_seg: "valid_path p \<Longrightarrow> parse_segments (map seg p) = Inr p"
proof (induction p)
  case (Cons q p)
  then obtain c where "seg q = [CHR ''q'', c]" "Atoi [c] = Some q"
    using seg_facts by auto
  with Cons show ?case by simp
qed simp

lemma match_segments_Join:
  "valid_path p \<Longrightarrow> p \<noteq> [] \<Longrightarrow> match_segments (Join (map seg p) ''_'')"
proof (induction p rule: induct_list012)
  case (2 q)
  then show ?case using seg_facts[of q] by auto
next
  case (3 q r p)
  then show ?case using seg_facts[of q] by auto
qed simp

lemma match_segments_inv:
  "match_segments s \<Longrightarrow> \<exists>p. p \<noteq> [] \<and> valid_path p \<and> s = Join (map seg p) ''_''"
proof (induction s rule: match_segments.induct)
  case (1 a b)
  then obtain q where "0 \<le> q" "q \<le> 3" "seg q = [a, b]"
    using quad_char_seg[of b] by auto
  then show ?case by (intro exI[of _ "[q]"]) simp
next
  case (2 a b c s)
  then obtain p where p: "p \<noteq> []" "valid_path p" "s = Join (map seg p) ''_''" "c = CHR ''_''"
    by auto
  from 2 obtain q where q: "0 \<le> q" "q \<le> 3" "seg q = [a, b]"
    using quad_char_seg[of b] by auto
  from p obtain r ps where "p = r # ps" by (cases p) auto
  with q p have "a # b # c # s = Join (map seg (q # p)) ''_''"
    by simp
  with q p show ?case by (intro exI[of _ "q # p"]) simp
qed simp_all

lemma Join_seg_q:
  "valid_path p \<Longrightarrow> p \<noteq> [] \<Longrightarrow> hd (Join (map seg p) ''_'') = CHR ''q'' \<and> Join (map seg p) ''_'' \<noteq> []"
  using seg_facts[of "hd p"] by (cases p; cases "tl p") auto

lemma last_Join_seg:
  "valid_path p \<Longrightarrow> p \<noteq> [] \<Longrightarrow> ascii_graph (last (Join (map seg p) ''_''))"
proof (induction p rule: induct_list012)
  case (2 q)
  then show ?case using seg_facts[of q] by auto
next
  case (3 q r p)
  then show ?case using Join_seg_q[of "r # p"] by simp
qed simp

lemma trimmed_path_id:
  assumes "valid_path p"
  shows "trimmed (path_id p)"
proof (rule trimmedI)
  show "path_id p \<noteq> []" "ascii_graph (hd (path_id p))"
    by (simp_all add: path_id_def ascii_graph_def)
  show "ascii_graph (last (path_id p))"
    using last_Join_seg[OF assms] Join_seg_q[OF assms]
    by (auto simp: path_id_def ascii_graph_def)
qed

lemma seg_no_underscore: "valid_path p \<Longrightarrow> \<forall>s \<in> set (map seg p). CHR ''_'' \<notin> set s"
  using quadrant_cases by (fastforce simp: valid_path_def seg_values)

lemma ParseCellPathID_path_id:
  assumes "valid_path p"
  shows "ParseCellPathID (path_id p) = Inr p"
proof (cases "p = []")
  case True
  then show ?thesis
    using TrimSpace_trimmed[OF trimmed_path_id[OF assms]]
    by (simp add: ParseCellPathID_def path_id_def pathCellIDRe_def)
next
  case False
  let ?b = "Join (map seg p) ''_''"
  have "?b \<noteq> ''root''"
    using Join_seg_q[OF assms False] by auto
  moreover have "Split1 ?b (CHR ''_'') = map seg p"
    using Split1_Join[of "map seg p"] seg_no_underscore[OF assms] False by simp
  ultimately show ?thesis
    using False TrimSpace_trimmed[OF trimmed_path_id[OF assms]] parse_segments_seg[OF assms]
      match_segments_Join[OF assms False]
    by (simp add: ParseCellPathID_def path_id_def pathCellIDRe_def)
qed

lemma ParseCellPathID_TrimSpace: "ParseCellPathID (TrimSpace s) = ParseCellPathID s"
  by (simp add: ParseCellPathID_def)

lemma ParseCellPathID_iff:
  "ParseCellPathID s = Inr p \<longleftrightarrow> valid_path p \<and> TrimSpace s = path_id p"
proof
  assume "valid_path p \<and> TrimSpace s = path_id p"
  then show "ParseCellPathID s = Inr p"
    using ParseCellPathID_path_id[of p] ParseCellPathID_TrimSpace[of s] by simp
next
  assume ok: "ParseCellPathID s = Inr p"
  then have re: "pathCellIDRe (TrimSpace s)"
    by (auto simp: ParseCellPathID_def Let_def split: if_splits)
  obtain p' where p': "valid_path p'" "TrimSpace s = path_id p'"
  proof (cases "drop 5 (TrimSpace s) = ''root''")
    case True
    then have "TrimSpace s = path_id []"
      using re append_take_drop_id[of 5 "TrimSpace s"] by (simp add: pathCellIDRe_def path_id_def)
    then show ?thesis by (intro that[of "[]"]) simp_all
  next
    case False
    then obtain p' where "p' \<noteq> []" "valid_path p'" "drop 5 (TrimSpace s) = Join (map seg p') ''_''"
      using re match_segments_inv by (auto simp: pathCellIDRe_def)
    then show ?thesis
      using re append_take_drop_id[of 5 "TrimSpace s"]
      by (intro that[of p']) (auto simp: pathCellIDRe_def path_id_def)
  qed
  then have "ParseCellPathID s = Inr p'"
    using ParseCellPathID_path_id[of p'] ParseCellPathID_TrimSpace[of s] by simp
  with ok p' show "valid_path p \<and> TrimSpace s = path_id p" by simp
qed

lemma ChildIDForQuadrant_iff:
  "ChildIDForQuadrant s q = Inr c \<longleftrightarrow>
     0 \<le> q \<and> q \<le> 3 \<and> (\<exists>p. ParseCellPathID s = Inr p \<and> c = path_id (p @ [q]))"
  by (auto simp: ChildIDForQuadrant_def path_id_def seg_def[abs_def] split: sum.splits)

lemma IsDescendantPath_iff:
  "IsDescendantPath s t \<longleftrightarrow>
     (\<exists>p r. ParseCellPathID s = Inr p \<and> ParseCellPathID t = Inr r \<and> strict_prefix p r)"
proof -
  have "(length p < length r \<and> (\<forall>i \<in> {0..<length p}. p ! i = r ! i)) \<longleftrightarrow> strict_prefix p r"
    for p r :: "int list"
  proof
    assume l: "length p < length r \<and> (\<forall>i \<in> {0..<length p}. p ! i = r ! i)"
    then have "p = take (length p) r"
      by (intro nth_equalityI) auto
    then show "strict_prefix p r"
      using l take_is_prefix[of "length p" r] by (auto simp: strict_prefix_def)
  next
    assume "strict_prefix p r"
    then obtain a s where "r = p @ a # s"
      by (rule strict_prefixE') auto
    then show "length p < length r \<and> (\<forall>i \<in> {0..<length p}. p ! i = r ! i)"
      by (auto simp: nth_append)
  qed
  then show ?thesis
    by (auto simp: IsDescendantPath_def not_le split: sum.splits)
qed

section \<open>Geometry of a split\<close>

text \<open>
  \<open>finite_bounds\<close>: every bound is a finite number. \<open>splittable\<close>: moreover the bounds are
  \<open>float64\<close> values in order and the two sums of \<open>Mid\<close> do not overflow.
\<close>

definition finite_bounds :: "Bounds \<Rightarrow> bool" where
  "finite_bounds b \<longleftrightarrow> is_fin (XMin b) \<and> is_fin (XMax b) \<and> is_fin (ZMin b) \<and> is_fin (ZMax b)"

definition splittable :: "Bounds \<Rightarrow> bool" where
  "splittable b \<longleftrightarrow>
     finite_bounds b \<and> fle (XMin b) (XMax b) \<and> fle (ZMin b) (ZMax b) \<and>
     is_f64 (XMin b) \<and> is_f64 (XMax b) \<and> is_f64 (ZMin b) \<and> is_f64 (ZMax b) \<and>
     is_fin (fadd (XMin b) (XMax b)) \<and> is_fin (fadd (ZMin b) (ZMax b))"

lemma half_not_NaN: "x \<noteq> NaN \<Longrightarrow> fdiv x (Fin 2) \<noteq> NaN"
  by (cases x) auto

lemma Mid_not_NaN:
  assumes "finite_bounds b"
  shows "fst (Mid (Some b)) \<noteq> NaN" "snd (Mid (Some b)) \<noteq> NaN"
  using assms by (auto simp: Mid_def finite_bounds_def half_not_NaN elim!: is_finE)

lemma Mid_between:
  assumes "splittable b"
  shows "fle (XMin b) (fst (Mid (Some b)))" "fle (fst (Mid (Some b))) (XMax b)"
    "fle (ZMin b) (snd (Mid (Some b)))" "fle (snd (Mid (Some b))) (ZMax b)"
proof -
  have *: "fle x (fdiv (fadd x y) (Fin 2)) \<and> fle (fdiv (fadd x y) (Fin 2)) y"
    if h: "is_fin x" "is_fin y" "fle x y" "is_f64 x" "is_f64 y" "is_fin (fadd x y)" for x y
  proof -
    obtain p q where pq: "x = Fin p" "y = Fin q"
      using h(1,2) by (auto elim!: is_finE)
    obtain s where s: "fadd (Fin p) (Fin q) = Fin s"
      using h(6) pq by (elim is_finE) simp
    have "rep64 p" "rep64 q" "p \<le> q"
      using h(3-5) pq by (simp_all add: is_f64_def)
    then obtain m where "fdiv (Fin s) (Fin 2) = Fin m" "p \<le> m" "m \<le> q"
      using s by (rule favg_between)
    with pq s show ?thesis by simp
  qed
  show "fle (XMin b) (fst (Mid (Some b)))" "fle (fst (Mid (Some b))) (XMax b)"
    "fle (ZMin b) (snd (Mid (Some b)))" "fle (snd (Mid (Some b))) (ZMax b)"
    using assms *[of "XMin b" "XMax b"] *[of "ZMin b" "ZMax b"]
    by (simp_all add: splittable_def finite_bounds_def Mid_def del: fadd.simps fdiv.simps)
qed

lemma Quadrant_less: "Quadrant x z b < 4"
  by (simp add: Quadrant_def split: prod.splits)

lemma length_SplitFour [simp]: "length (SplitFour b) = 4"
  by (simp add: SplitFour_def split: prod.splits)

lemma SplitFour_eq:
  "SplitFour b =
     (let mx = fst (Mid (Some b)); mz = snd (Mid (Some b)) in
      [\<lparr>XMin = XMin b, XMax = mx, ZMin = ZMin b, ZMax = mz\<rparr>,
       \<lparr>XMin = mx, XMax = XMax b, ZMin = ZMin b, ZMax = mz\<rparr>,
       \<lparr>XMin = XMin b, XMax = mx, ZMin = mz, ZMax = ZMax b\<rparr>,
       \<lparr>XMin = mx, XMax = XMax b, ZMin = mz, ZMax = ZMax b\<rparr>])"
  by (simp add: SplitFour_def split: prod.splits)

lemma less_four: "i < (4::nat) \<longleftrightarrow> i = 0 \<or> i = 1 \<or> i = 2 \<or> i = 3"
  by auto

section \<open>What the merge checks accept\<close>

text \<open>
  The specification of a merge group: four cells with distinct non-empty names, one level below
  the parent, whose bounds are the four quadrants of the parent in some order.
\<close>

definition merge_group :: "Bounds \<Rightarrow> int32 \<Rightarrow> CellSpec list \<Rightarrow> bool" where
  "merge_group parent parentLevel cs \<longleftrightarrow>
     distinct (map (\<lambda>c. TrimSpace (cs_Id c)) cs) \<and>
     (\<forall>c \<in> set cs. TrimSpace (cs_Id c) \<noteq> [] \<and> cs_Level c = to_int32 (parentLevel + 1)) \<and>
     mset (map cs_Bounds cs) = mset (map Some (SplitFour parent))"

lemma boundsEqual_iff:
  "boundsEqual b (Some q) \<longleftrightarrow>
     b = Some q \<and> XMin q \<noteq> NaN \<and> XMax q \<noteq> NaN \<and> ZMin q \<noteq> NaN \<and> ZMax q \<noteq> NaN"
  by (cases b) (auto simp: boundsEqual_def)

lemma quads_equal_iff:
  assumes "finite_bounds parent" "i < 4"
  shows "boundsEqual b (Some (SplitFour parent ! i)) \<longleftrightarrow> b = Some (SplitFour parent ! i)"
  using assms Mid_not_NaN[OF assms(1)]
  by (auto simp: boundsEqual_iff SplitFour_eq Let_def less_four finite_bounds_def is_fin_not_NaN
      numeral_2_eq_2 numeral_3_eq_3)

text \<open>The quadrants a run of \<open>validate_children\<close> has not used yet.\<close>

definition unused :: "bool list \<Rightarrow> Bounds list \<Rightarrow> Bounds list" where
  "unused used quads = map ((!) quads) (filter (\<lambda>i. \<not> used ! i) [0, 1, 2, 3])"

lemma filter_update:
  assumes "\<not> u ! q" "q < length u"
  shows "q \<in> set xs \<Longrightarrow> distinct xs \<Longrightarrow>
    mset (filter (\<lambda>i. \<not> u ! i) xs) = add_mset q (mset (filter (\<lambda>i. \<not> u[q := True] ! i) xs))"
proof (induction xs)
  case (Cons x xs)
  show ?case
  proof (cases "x = q")
    case True
    then have "filter (\<lambda>i. \<not> u[q := True] ! i) xs = filter (\<lambda>i. \<not> u ! i) xs"
      using Cons.prems by (intro filter_cong) (auto, (metis nth_list_update_neq)+)
    with True assms show ?thesis by simp
  qed (use Cons in auto)
qed simp

lemma unused_update:
  assumes "length used = 4" "qi < 4" "\<not> used ! qi"
  shows "mset (unused used quads) = add_mset (quads ! qi) (mset (unused (used[qi := True]) quads))"
  using filter_update[of used qi "[0, 1, 2, 3]"] assms
  by (auto simp: unused_def less_four simp del: filter.simps)

lemma find_quadrant_Some:
  assumes "finite_bounds parent" "length used = 4"
    and "find_quadrant used (SplitFour parent) b = Some qi"
  shows "qi < 4" "b = Some (SplitFour parent ! qi)"
    "mset (unused used (SplitFour parent)) =
       add_mset (SplitFour parent ! qi) (mset (unused (used[qi := True]) (SplitFour parent)))"
proof -
  have qi: "qi \<in> {0, 1, 2, 3}" and nu: "\<not> used ! qi"
    and be: "boundsEqual b (Some (SplitFour parent ! qi))"
    using find_SomeD[OF assms(3)[unfolded find_quadrant_def]] by auto
  then show q: "qi < 4" by auto
  show "b = Some (SplitFour parent ! qi)"
    using be quads_equal_iff[OF assms(1) q] by simp
  show "mset (unused used (SplitFour parent)) =
       add_mset (SplitFour parent ! qi) (mset (unused (used[qi := True]) (SplitFour parent)))"
    using assms(2) q nu by (rule unused_update)
qed

lemma find_quadrant_None:
  assumes "finite_bounds parent" "find_quadrant used (SplitFour parent) b = None"
  shows "b \<notin># mset (map Some (unused used (SplitFour parent)))"
proof
  assume "b \<in># mset (map Some (unused used (SplitFour parent)))"
  then obtain i where i: "i \<in> set [0, 1, 2, 3]" "\<not> used ! i" "b = Some (SplitFour parent ! i)"
    by (auto simp: unused_def split: if_splits)
  then show False
    using find_NoneD[OF assms(2)[unfolded find_quadrant_def] i(1)] quads_equal_iff[OF assms(1), of i b]
    by auto
qed

lemma validate_children_Inr:
  assumes "finite_bounds parent"
  shows "length used = 4 \<Longrightarrow>
    validate_children l (SplitFour parent) used seen ocs = Inr used' \<Longrightarrow>
    \<exists>cs. ocs = map Some cs \<and> length used' = 4 \<and>
      distinct (map (\<lambda>c. TrimSpace (cs_Id c)) cs) \<and>
      (\<forall>c \<in> set cs. TrimSpace (cs_Id c) \<noteq> [] \<and> TrimSpace (cs_Id c) \<notin> set seen \<and> cs_Level c = l) \<and>
      mset (map Some (unused used (SplitFour parent))) =
        mset (map cs_Bounds cs) + mset (map Some (unused used' (SplitFour parent)))"
proof (induction ocs arbitrary: used seen)
  case Nil
  then show ?case by simp
next
  case (Cons oc ocs)
  from Cons.prems(2) obtain c where oc: "oc = Some c"
    by (cases oc) auto
  let ?id = "TrimSpace (cs_Id c)"
  from Cons.prems(2) oc obtain qi where
    c: "?id \<noteq> []" "cs_Level c = l" "?id \<notin> set seen"
    and fq: "find_quadrant used (SplitFour parent) (cs_Bounds c) = Some qi"
    and rec: "validate_children l (SplitFour parent) (used[qi := True]) (?id # seen) ocs = Inr used'"
    by (auto simp: Let_def split: if_splits option.splits)
  from Cons.IH[OF _ rec] Cons.prems(1) obtain cs where cs: "ocs = map Some cs" "length used' = 4"
      "distinct (map (\<lambda>c. TrimSpace (cs_Id c)) cs)"
      "\<forall>c \<in> set cs. TrimSpace (cs_Id c) \<noteq> [] \<and> TrimSpace (cs_Id c) \<notin> set (?id # seen) \<and> cs_Level c = l"
      "mset (map Some (unused (used[qi := True]) (SplitFour parent))) =
        mset (map cs_Bounds cs) + mset (map Some (unused used' (SplitFour parent)))"
    by auto
  have "mset (map Some (unused used (SplitFour parent))) =
      add_mset (cs_Bounds c) (mset (map Some (unused (used[qi := True]) (SplitFour parent))))"
    using find_quadrant_Some[OF assms Cons.prems(1) fq] by simp
  with cs c oc show ?case
    by (intro exI[of _ "c # cs"]) (auto simp: image_iff)
qed

lemma validate_children_complete:
  assumes "finite_bounds parent"
  shows "length used = 4 \<Longrightarrow> distinct (map (\<lambda>c. TrimSpace (cs_Id c)) cs) \<Longrightarrow>
    \<forall>c \<in> set cs. TrimSpace (cs_Id c) \<noteq> [] \<and> TrimSpace (cs_Id c) \<notin> set seen \<and> cs_Level c = l \<Longrightarrow>
    mset (map cs_Bounds cs) \<subseteq># mset (map Some (unused used (SplitFour parent))) \<Longrightarrow>
    \<exists>used'. validate_children l (SplitFour parent) used seen (map Some cs) = Inr used'"
proof (induction cs arbitrary: used seen)
  case (Cons c cs)
  have "cs_Bounds c \<in># mset (map Some (unused used (SplitFour parent)))"
    using Cons.prems(4) by (metis list.set_intros(1) list.simps(9) mset_subset_eqD set_mset_mset)
  then obtain qi where fq: "find_quadrant used (SplitFour parent) (cs_Bounds c) = Some qi"
    using find_quadrant_None[OF assms, of used "cs_Bounds c"] by blast
  note q = find_quadrant_Some[OF assms Cons.prems(1) fq]
  have "mset (map cs_Bounds cs) \<subseteq># mset (map Some (unused (used[qi := True]) (SplitFour parent)))"
    using Cons.prems(4) q(2,3) by simp
  then obtain used' where
    "validate_children l (SplitFour parent) (used[qi := True]) (TrimSpace (cs_Id c) # seen) (map Some cs)
       = Inr used'"
    using Cons.IH[of "used[qi := True]" "TrimSpace (cs_Id c) # seen"] Cons.prems(1-3)
    by (auto simp: image_iff eq_commute[of "TrimSpace (cs_Id c)"])
  with Cons.prems fq q(2) show ?case
    by (auto simp: Let_def)
qed simp

lemma unused_init: "unused [False, False, False, False] (SplitFour b) = SplitFour b"
  by (simp add: unused_def SplitFour_eq Let_def)

lemma unused_empty_iff:
  "length used = 4 \<Longrightarrow> unused used quads = [] \<longleftrightarrow> find (\<lambda>qi. \<not> used ! qi) [0, 1, 2, 3] = None"
  by (auto simp: unused_def find_None_iff filter_empty_conv)


section \<open>Properties of the quadtree\<close>

lemma SplitFour_nth:
  "SplitFour b ! 0 = \<lparr>XMin = XMin b, XMax = fst (Mid (Some b)), ZMin = ZMin b, ZMax = snd (Mid (Some b))\<rparr>"
  "SplitFour b ! Suc 0 = \<lparr>XMin = fst (Mid (Some b)), XMax = XMax b, ZMin = ZMin b, ZMax = snd (Mid (Some b))\<rparr>"
  "SplitFour b ! 2 = \<lparr>XMin = XMin b, XMax = fst (Mid (Some b)), ZMin = snd (Mid (Some b)), ZMax = ZMax b\<rparr>"
  "SplitFour b ! 3 = \<lparr>XMin = fst (Mid (Some b)), XMax = XMax b, ZMin = snd (Mid (Some b)), ZMax = ZMax b\<rparr>"
  by (simp_all add: SplitFour_eq Let_def)

lemma Contains_iff:
  "Contains (Some b) x z \<longleftrightarrow> fle (XMin b) x \<and> fle x (XMax b) \<and> fle (ZMin b) z \<and> fle z (ZMax b)"
  by (simp add: Contains_def)

lemma split_covers:
  assumes "finite_bounds b" "Contains (Some b) x z"
  shows "Quadrant x z (Some b) < 4 \<and> Contains (Some (SplitFour b ! Quadrant x z (Some b))) x z"
proof -
  have "x \<noteq> NaN" "z \<noteq> NaN"
    using assms(2) fle_not_NaN by (auto simp: Contains_iff)
  then have "fle (fst (Mid (Some b))) x \<or> fle x (fst (Mid (Some b)))"
    "fle (snd (Mid (Some b))) z \<or> fle z (snd (Mid (Some b)))"
    using Mid_not_NaN[OF assms(1)] fle_total by blast+
  then show ?thesis
    using assms(2) by (auto simp: Quadrant_def SplitFour_nth Contains_iff split: prod.splits)
qed

text \<open>
  C1: A split loses no point. Every point of a parent with finite bounds lies in the child that
  \<open>Quadrant\<close> names for it, whatever the rounding of the two midpoints.
\<close>

theorem split_covers_parent:
  assumes "finite_bounds b" "Contains (Some b) x z"
  shows "Quadrant x z (Some b) < 4 \<and> Contains (Some (SplitFour b ! Quadrant x z (Some b))) x z"
  using assms by (rule split_covers)

theorem split_covers_parent_witness:
  "Contains (Some (SplitFour \<lparr>XMin = Fin (-1000), XMax = Fin 1000, ZMin = Fin (-1000), ZMax = Fin 1000\<rparr> !
     Quadrant (Fin (-1)) (Fin 7) (Some \<lparr>XMin = Fin (-1000), XMax = Fin 1000, ZMin = Fin (-1000), ZMax = Fin 1000\<rparr>)))
     (Fin (-1)) (Fin 7)"
  using split_covers_parent[of "\<lparr>XMin = Fin (-1000), XMax = Fin 1000, ZMin = Fin (-1000), ZMax = Fin 1000\<rparr>"
      "Fin (-1)" "Fin 7"]
  by (simp add: finite_bounds_def Contains_iff)

text \<open>
  A split adds no point and separates the children. For ordered bounds whose midpoint sums do
  not overflow, a point of a child is a point of the parent, and a point of two different children
  lies on one of the two seams.
\<close>

theorem split_within_parent:
  assumes "splittable b" "i < 4" "Contains (Some (SplitFour b ! i)) x z"
  shows "Contains (Some b) x z \<and>
    (\<forall>j. j < 4 \<longrightarrow> j \<noteq> i \<longrightarrow> Contains (Some (SplitFour b ! j)) x z \<longrightarrow>
       x = fst (Mid (Some b)) \<or> z = snd (Mid (Some b)))"
proof (intro conjI allI impI)
  note m = Mid_between[OF assms(1)]
  show "Contains (Some b) x z"
    using assms(2,3) m fle_trans[of "XMin b" _ x] fle_trans[of x _ "XMax b"]
      fle_trans[of "ZMin b" _ z] fle_trans[of z _ "ZMax b"]
    by (auto simp: less_four SplitFour_nth Contains_iff)
  show "x = fst (Mid (Some b)) \<or> z = snd (Mid (Some b))"
    if "j < 4" "j \<noteq> i" "Contains (Some (SplitFour b ! j)) x z" for j
    using assms(2,3) that fle_antisym[of x "fst (Mid (Some b))"] fle_antisym[of z "snd (Mid (Some b))"]
    by (auto simp: less_four SplitFour_nth Contains_iff)
qed

lemma splittable_1000:
  "splittable \<lparr>XMin = Fin (-1000), XMax = Fin 1000, ZMin = Fin (-1000), ZMax = Fin 1000\<rparr>"
  by (simp add: splittable_def finite_bounds_def is_f64_def rep64_def)

theorem split_within_parent_witness:
  "Contains (Some \<lparr>XMin = Fin (-1000), XMax = Fin 1000, ZMin = Fin (-1000), ZMax = Fin 1000\<rparr>) (Fin (-3)) (Fin 9)"
  using split_within_parent[OF splittable_1000, of 2 "Fin (-3)" "Fin 9"]
  by (simp add: SplitFour_nth Contains_iff Mid_def)

text \<open>
  \<open>ChildIDForQuadrant\<close> is inverse to \<open>ParseCellPathID\<close>: naming child \<open>q\<close> of a well-formed cell
  succeeds exactly for the four quadrants, and parsing the name gives the parent's path
  extended by \<open>q\<close>, one level deeper.
\<close>

theorem child_id_round_trip:
  assumes "ParseCellPathID parentID = Inr path"
  shows "(case ChildIDForQuadrant parentID q of
            Inl _ \<Rightarrow> q < 0 \<or> 3 < q
          | Inr childID \<Rightarrow>
              0 \<le> q \<and> q \<le> 3 \<and> ParseCellPathID childID = Inr (path @ [q]) \<and>
              CellPathLevel childID = (to_int32 (int (length path) + 1), True))"
proof (cases "0 \<le> q \<and> q \<le> 3")
  case True
  then have c: "ChildIDForQuadrant parentID q = Inr (path_id (path @ [q]))"
    using assms by (simp add: ChildIDForQuadrant_iff)
  have "valid_path (path @ [q])"
    using assms True by (simp add: ParseCellPathID_iff)
  from ParseCellPathID_path_id[OF this] c True show ?thesis
    by (simp add: CellPathLevel_def add.commute)
next
  case False
  have "ChildIDForQuadrant parentID q \<noteq> Inr c" for c
    using False by (auto simp: ChildIDForQuadrant_iff)
  then show ?thesis using False by (cases "ChildIDForQuadrant parentID q") auto
qed

theorem child_id_round_trip_witness:
  "ParseCellPathID ''cell_q1'' = Inr [1] \<and>
   (case ChildIDForQuadrant ''cell_q1'' 3 of
      Inl _ \<Rightarrow> False | Inr childID \<Rightarrow> ParseCellPathID childID = Inr [1, 3])"
proof -
  have "ParseCellPathID ''cell_q1'' = Inr [1]"
    by code_simp
  then show ?thesis
    using child_id_round_trip[of "''cell_q1''" "[1]" 3] by (simp split: sum.splits)
qed

text \<open>One or more \<open>ChildIDForQuadrant\<close> steps.\<close>

inductive descends :: "string \<Rightarrow> string \<Rightarrow> bool" where
  child: "ChildIDForQuadrant s q = Inr t \<Longrightarrow> descends s t"
| step: "descends s t \<Longrightarrow> ChildIDForQuadrant t q = Inr u \<Longrightarrow> descends s u"

lemma descends_strict_prefix:
  "descends s t \<Longrightarrow> \<exists>p r. ParseCellPathID s = Inr p \<and> ParseCellPathID t = Inr r \<and>
     strict_prefix p r \<and> t = path_id r"
proof (induction rule: descends.induct)
  case (child s q t)
  then obtain p where "ParseCellPathID s = Inr p" "t = path_id (p @ [q])" "valid_path (p @ [q])"
    by (auto simp: ChildIDForQuadrant_iff ParseCellPathID_iff)
  then show ?case
    by (intro exI[of _ p] exI[of _ "p @ [q]"]) (simp add: ParseCellPathID_path_id strict_prefix_def)
next
  case (step s t q u)
  then obtain p r where pr: "ParseCellPathID s = Inr p" "strict_prefix p r" "ParseCellPathID t = Inr r"
      "u = path_id (r @ [q])" "0 \<le> q" "q \<le> 3"
    by (auto simp: ChildIDForQuadrant_iff)
  then have "valid_path (r @ [q])"
    by (simp add: ParseCellPathID_iff)
  with pr show ?case
    by (intro exI[of _ p] exI[of _ "r @ [q]"])
      (auto simp: ParseCellPathID_path_id strict_prefix_def prefix_def)
qed

lemma prefix_descends:
  "ParseCellPathID s = Inr p \<Longrightarrow> valid_path r \<Longrightarrow> r \<noteq> [] \<Longrightarrow> descends s (path_id (p @ r))"
proof (induction r rule: rev_induct)
  case (snoc q r)
  show ?case
  proof (cases "r = []")
    case True
    with snoc show ?thesis
      by (intro descends.child[of s q]) (auto simp: ChildIDForQuadrant_iff)
  next
    case False
    with snoc have "descends s (path_id (p @ r))" by simp
    moreover have "valid_path (p @ r)"
      using snoc.prems by (simp add: ParseCellPathID_iff)
    then have "ChildIDForQuadrant (path_id (p @ r)) q = Inr (path_id (p @ r @ [q]))"
      using snoc.prems by (simp add: ChildIDForQuadrant_iff ParseCellPathID_path_id)
    ultimately show ?thesis by (rule descends.step)
  qed
qed simp

text \<open>
  \<open>IsDescendantPath\<close> is the ancestor relation of the quadtree: it holds exactly when the second
  name is reached from the first by one or more \<open>ChildIDForQuadrant\<close> steps (up to surrounding
  white space of the names).
\<close>

theorem IsDescendantPath_descends:
  "IsDescendantPath parentID childID \<longleftrightarrow> descends parentID (TrimSpace childID)"
proof
  assume "IsDescendantPath parentID childID"
  then obtain p r where pr: "ParseCellPathID parentID = Inr p" "ParseCellPathID childID = Inr r"
      "strict_prefix p r"
    by (auto simp: IsDescendantPath_iff)
  then obtain a s where "r = p @ a # s"
    by (auto elim: strict_prefixE')
  then show "descends parentID (TrimSpace childID)"
    using pr prefix_descends[of parentID p "a # s"] by (auto simp: ParseCellPathID_iff)
next
  assume "descends parentID (TrimSpace childID)"
  then show "IsDescendantPath parentID childID"
    using ParseCellPathID_TrimSpace[of childID]
    by (auto simp: IsDescendantPath_iff dest!: descends_strict_prefix)
qed

lemma ValidateMergeChildren_None:
  assumes "finite_bounds b"
  shows "ValidateMergeChildren (Some b) l ocs = None \<longleftrightarrow>
    (\<exists>cs. ocs = map Some cs \<and> merge_group b l cs)"
proof
  assume ok: "ValidateMergeChildren (Some b) l ocs = None"
  then obtain used where len: "length ocs = 4"
    and v: "validate_children (to_int32 (l + 1)) (SplitFour b) [False, False, False, False] [] ocs = Inr used"
    and f: "find (\<lambda>qi. \<not> used ! qi) [0, 1, 2, 3] = None"
    by (auto simp: ValidateMergeChildren_def split: if_splits sum.splits)
  from validate_children_Inr[OF assms _ v] f show "\<exists>cs. ocs = map Some cs \<and> merge_group b l cs"
    by (force simp: unused_init unused_empty_iff merge_group_def)
next
  assume "\<exists>cs. ocs = map Some cs \<and> merge_group b l cs"
  then obtain cs where cs: "ocs = map Some cs" "merge_group b l cs" by auto
  then have len: "length cs = 4"
    by (metis length_SplitFour length_map merge_group_def mset_eq_length)
  have "\<exists>used. validate_children (to_int32 (l + 1)) (SplitFour b) [False, False, False, False] [] ocs = Inr used"
    unfolding cs(1)
    by (rule validate_children_complete[OF assms]) (use cs(2) in \<open>auto simp: merge_group_def unused_init\<close>)
  then obtain used where
    v: "validate_children (to_int32 (l + 1)) (SplitFour b) [False, False, False, False] [] ocs = Inr used" ..
  from validate_children_Inr[OF assms _ v] obtain cs' where "ocs = map Some cs'" "length used = 4"
      "mset (map Some (SplitFour b)) = mset (map cs_Bounds cs') + mset (map Some (unused used (SplitFour b)))"
    by (auto simp: unused_init)
  then have "unused used (SplitFour b) = []"
    using cs by (auto simp: merge_group_def dest: map_injective)
  then show "ValidateMergeChildren (Some b) l ocs = None"
    using v len cs(1) unused_empty_iff \<open>length used = 4\<close> by (auto simp: ValidateMergeChildren_def)
qed

text \<open>
  C2: \<open>ValidateMergeChildren\<close> accepts exactly the merge groups: four cells with distinct non-empty
  names one level below the parent whose bounds are the four quadrants of the parent.
\<close>

theorem ValidateMergeChildren_iff:
  assumes "finite_bounds b"
  shows "ValidateMergeChildren (Some b) l ocs = None \<longleftrightarrow>
    (\<exists>cs. ocs = map Some cs \<and> merge_group b l cs)"
  by (rule ValidateMergeChildren_None[OF assms])

theorem ValidateMergeChildren_iff_witness:
  "ValidateMergeChildren (Some \<lparr>XMin = Fin (-1000), XMax = Fin 1000, ZMin = Fin (-1000), ZMax = Fin 1000\<rparr>) 0
     (map (\<lambda>(i, b). Some \<lparr>cs_Id = i, cs_Level = 1, cs_Bounds = Some b, cs_GrpcEndpoint = []\<rparr>)
        (zip [''a'', ''b'', ''c'', ''d'']
           (SplitFour \<lparr>XMin = Fin (-1000), XMax = Fin 1000, ZMin = Fin (-1000), ZMax = Fin 1000\<rparr>))) = None"
proof -
  let ?b = "\<lparr>XMin = Fin (-1000), XMax = Fin 1000, ZMin = Fin (-1000), ZMax = Fin 1000\<rparr>"
  let ?cs = "map (\<lambda>(i, b). \<lparr>cs_Id = i, cs_Level = 1, cs_Bounds = Some b, cs_GrpcEndpoint = []\<rparr>)
        (zip [''a'', ''b'', ''c'', ''d''] (SplitFour ?b))"
  have "TrimSpace [c] = [c]" if "c \<in> set ''abcd''" for c
    using that by (intro TrimSpace_trimmed trimmedI) (auto simp: ascii_graph_def)
  then have "merge_group ?b 0 ?cs"
    by (simp add: merge_group_def SplitFour_eq Let_def to_int32_def)
  then show ?thesis
    using ValidateMergeChildren_iff[of ?b 0 "map Some ?cs"]
    by (auto simp: finite_bounds_def comp_def case_prod_unfold)
qed

section \<open>The catalog view of a split\<close>

text \<open>\<open>fits\<close>: the three filters of the inner loop of \<open>CatalogMergeChildren\<close>.\<close>

definition fits :: "int32 \<Rightarrow> Bounds \<Rightarrow> CellSpec \<Rightarrow> bool" where
  "fits wantLevel q c \<longleftrightarrow> cs_Bounds c \<noteq> None \<and> cs_Level c = wantLevel \<and> boundsEqual (cs_Bounds c) (Some q)"

lemma match_quadrant_sound:
  "match_quadrant qi l q om ocs = Inr (Some m) \<Longrightarrow>
     om = Some m \<or> Some m \<in> set ocs \<and> fits l q m"
  by (induction qi l q om ocs rule: match_quadrant.induct)
    (auto simp: fits_def split: if_splits option.splits)

lemma match_quadrant_Some:
  "match_quadrant qi l q om (Some c # cs) =
     (if \<not> fits l q c then match_quadrant qi l q om cs
      else case om of
             None \<Rightarrow> match_quadrant qi l q (Some c) cs
           | Some m \<Rightarrow>
               if TrimSpace (cs_Id m) \<noteq> TrimSpace (cs_Id c) then Inl (AmbiguousCatalogMatch qi)
               else match_quadrant qi l q (Some c) cs)"
  by (cases "cs_Bounds c") (auto simp: fits_def split: option.splits)

lemma match_quadrant_complete:
  "{c. Some c \<in> set ocs \<and> fits l q c} \<subseteq> {m} \<Longrightarrow> om \<in> {None, Some m} \<Longrightarrow>
     match_quadrant qi l q om ocs =
       Inr (if om = Some m \<or> Some m \<in> set ocs \<and> fits l q m then Some m else None)"
proof (induction ocs arbitrary: om)
  case Nil
  then show ?case by auto
next
  case (Cons oc ocs)
  have sub: "{c. Some c \<in> set ocs \<and> fits l q c} \<subseteq> {m}"
    using Cons.prems(1) by auto
  show ?case
  proof (cases "oc = None \<or> (\<exists>c. oc = Some c \<and> \<not> fits l q c)")
    case True
    then have "match_quadrant qi l q om (oc # ocs) = match_quadrant qi l q om ocs"
      by (auto simp: match_quadrant_Some simp del: match_quadrant.simps(3))
    moreover have "(Some m \<in> set (oc # ocs) \<and> fits l q m) = (Some m \<in> set ocs \<and> fits l q m)"
      using True by auto
    ultimately show ?thesis
      using Cons.IH[OF sub Cons.prems(2)] by simp
  next
    case False
    then have oc: "oc = Some m" "fits l q m"
      using Cons.prems(1) by auto
    have "match_quadrant qi l q om (Some m # ocs) = match_quadrant qi l q (Some m) ocs"
      using Cons.prems(2) oc(2) by (auto simp: match_quadrant_Some simp del: match_quadrant.simps(3))
    then show ?thesis
      using Cons.IH[OF sub, of "Some m"] oc by simp
  qed
qed

lemma match_quadrants_sound:
  "match_quadrants l quads ocs qis = Inr cs \<Longrightarrow>
     list_all2 (\<lambda>qi c. Some c \<in> set ocs \<and> fits l (quads ! qi) c) qis cs"
proof (induction qis arbitrary: cs)
  case (Cons qi qis)
  then show ?case
    using match_quadrant_sound[of qi l "quads ! qi" None ocs]
    by (auto split: sum.splits option.splits)
qed simp

lemma match_quadrants_complete:
  "list_all2 (\<lambda>qi c. {c. Some c \<in> set ocs \<and> fits l (quads ! qi) c} = {c}) qis cs \<Longrightarrow>
     match_quadrants l quads ocs qis = Inr cs"
proof (induction qis cs rule: list_all2_induct)
  case (Cons qi qis c cs)
  have "Some c \<in> set ocs \<and> fits l (quads ! qi) c"
    using Cons(1) by auto
  then have "match_quadrant qi l (quads ! qi) None ocs = Inr (Some c)"
    using match_quadrant_complete[OF equalityD1[OF Cons(1)], of None qi] by simp
  with Cons show ?case by simp
qed simp

lemma check_child_ids_None:
  "check_child_ids i seen cs = None \<longleftrightarrow>
     (\<forall>c \<in> set cs. TrimSpace (cs_Id c) \<noteq> [] \<and> TrimSpace (cs_Id c) \<notin> set seen) \<and>
     distinct (map (\<lambda>c. TrimSpace (cs_Id c)) cs)"
proof (induction cs arbitrary: i seen)
  case (Cons c cs)
  show ?case
    using Cons.IH[of "Suc i" "TrimSpace (cs_Id c) # seen"]
    by (simp add: Let_def image_iff) (metis)
qed simp

lemma CatalogMergeChildren_Inr:
  "CatalogMergeChildren (Some p) ocs = Inr cs \<longleftrightarrow>
     (\<exists>b. cs_Bounds p = Some b \<and>
        match_quadrants (to_int32 (cs_Level p + 1)) (SplitFour b) ocs [0, 1, 2, 3] = Inr cs \<and>
        check_child_ids 0 [] cs = None)"
  by (auto simp: CatalogMergeChildren_def split: option.splits sum.splits)

lemma list_all2_four:
  "list_all2 P [0, Suc 0, 2, 3] cs \<longleftrightarrow>
     (\<exists>a b c d. cs = [a, b, c, d] \<and> P 0 a \<and> P (Suc 0) b \<and> P 2 c \<and> P 3 d)"
  by (auto simp: list_all2_Cons1)

lemma map_four: "length xs = 4 \<Longrightarrow> map f xs = [f (xs ! 0), f (xs ! 1), f (xs ! 2), f (xs ! 3)]"
  by (auto simp: numeral_eq_Suc length_Suc_conv)

lemma catalog_children_valid:
  assumes "cs_Bounds p = Some b" "finite_bounds b" "CatalogMergeChildren (Some p) ocs = Inr cs"
  shows "ValidateMergeChildren (Some b) (cs_Level p) (map Some cs) = None \<and>
    set (map Some cs) \<subseteq> set ocs \<and> map cs_Bounds cs = map Some (SplitFour b)"
proof -
  let ?l = "to_int32 (cs_Level p + 1)"
  have m: "match_quadrants ?l (SplitFour b) ocs [0, 1, 2, 3] = Inr cs"
    and ids: "check_child_ids 0 [] cs = None"
    using assms by (auto simp: CatalogMergeChildren_Inr)
  from match_quadrants_sound[OF m] obtain c0 c1 c2 c3 where
    cs: "cs = [c0, c1, c2, c3]" "set (map Some cs) \<subseteq> set ocs"
    and fit: "fits ?l (SplitFour b ! 0) c0" "fits ?l (SplitFour b ! 1) c1"
      "fits ?l (SplitFour b ! 2) c2" "fits ?l (SplitFour b ! 3) c3"
    by (auto simp: list_all2_four)
  have bs: "map cs_Bounds cs = map Some (SplitFour b)"
    using fit quads_equal_iff[OF assms(2)]
    by (simp add: cs(1) fits_def map_four)
  have "merge_group b (cs_Level p) cs"
    unfolding merge_group_def bs using ids[unfolded check_child_ids_None] fit
    by (simp add: cs(1) fits_def)
  then have "ValidateMergeChildren (Some b) (cs_Level p) (map Some cs) = None"
    using ValidateMergeChildren_None[OF assms(2)] by blast
  with bs cs(2) show ?thesis by simp
qed

text \<open>
  What \<open>CatalogMergeChildren\<close> finds is always a valid merge: its four cells are entries of the
  catalog, in quadrant order, and \<open>ValidateMergeChildren\<close> accepts them for the same parent.
\<close>

theorem CatalogMergeChildren_valid:
  assumes "cs_Bounds p = Some b" "finite_bounds b" "CatalogMergeChildren (Some p) ocs = Inr cs"
  shows "ValidateMergeChildren (Some b) (cs_Level p) (map Some cs) = None \<and>
    set (map Some cs) \<subseteq> set ocs \<and> map cs_Bounds cs = map Some (SplitFour b)"
  using assms by (rule catalog_children_valid)

text \<open>
  The catalog entry of a planned child: the plan's name, level and bounds with the endpoint the
  child serves on.
\<close>

definition registered :: "(string \<Rightarrow> string) \<Rightarrow> PlanSplitResponseChild \<Rightarrow> CellSpec" where
  "registered ep ch =
     \<lparr>cs_Id = ch_Id ch, cs_Level = ch_Level ch, cs_Bounds = ch_Bounds ch, cs_GrpcEndpoint = ep (ch_Id ch)\<rparr>"

lemma child_specs_eq:
  assumes "ParseCellPathID s = Inr p"
  shows "\<forall>i \<in> set is. 0 \<le> i \<and> i \<le> 3 \<Longrightarrow> child_specs s bs l is =
    Inr (map (\<lambda>i. \<lparr>ch_Id = path_id (p @ [i]), ch_Bounds = Some (bs ! nat i), ch_Level = l\<rparr>) is)"
proof (induction "is")
  case (Cons i "is")
  then have "ChildIDForQuadrant s i = Inr (path_id (p @ [i]))"
    using assms by (simp add: ChildIDForQuadrant_iff)
  with Cons show ?case by simp
qed simp

lemma path_id_inject:
  "valid_path p \<Longrightarrow> valid_path r \<Longrightarrow> path_id p = path_id r \<longleftrightarrow> p = r"
  by (metis ParseCellPathID_path_id sum.inject(2))

lemma ChildSpecsForSplit_parses:
  assumes "ChildSpecsForSplit s (Some b) l = Inr plan"
  obtains p where "ParseCellPathID s = Inr p"
    "plan = map (\<lambda>i. \<lparr>ch_Id = path_id (p @ [i]), ch_Bounds = Some (SplitFour b ! nat i),
       ch_Level = to_int32 (l + 1)\<rparr>) [0, 1, 2, 3]"
proof -
  from assms obtain c where "ChildIDForQuadrant s 0 = Inr c"
    by (auto simp: ChildSpecsForSplit_def split: sum.splits)
  then obtain p where p: "ParseCellPathID s = Inr p"
    by (auto simp: ChildIDForQuadrant_iff)
  then show ?thesis
    using that[OF p] assms child_specs_eq[OF p, of "[0, 1, 2, 3]"] by (simp add: ChildSpecsForSplit_def)
qed

lemma fits_SplitFour:
  assumes "finite_bounds b" "i < 4"
  shows "fits l (SplitFour b ! i) c \<longleftrightarrow> cs_Level c = l \<and> cs_Bounds c = Some (SplitFour b ! i)"
  using quads_equal_iff[OF assms] by (auto simp: fits_def)

lemma split_then_merge:
  assumes b: "finite_bounds b" "distinct (SplitFour b)"
    and plan: "ChildSpecsForSplit s (Some b) l = Inr plan"
    and cat: "set ocs = Some ` registered ep ` set plan \<union> others"
    and oth: "\<forall>c. Some c \<in> others \<longrightarrow> cs_Level c = to_int32 (l + 1) \<longrightarrow> cs_Bounds c \<notin> Some ` set (SplitFour b)"
    and p: "cs_Bounds parent = Some b" "cs_Level parent = l"
  shows "CatalogMergeChildren (Some parent) ocs = Inr (map (registered ep) plan)"
proof -
  from ChildSpecsForSplit_parses[OF plan] obtain path where
    path: "ParseCellPathID s = Inr path"
    and pl: "plan = map (\<lambda>i. \<lparr>ch_Id = path_id (path @ [i]), ch_Bounds = Some (SplitFour b ! nat i),
       ch_Level = to_int32 (l + 1)\<rparr>) [0, 1, 2, 3]" .
  have v: "valid_path (path @ [q])" if "0 \<le> q" "q \<le> 3" for q
    using path that by (simp add: ParseCellPathID_iff)
  let ?cs = "map (registered ep) plan"
  have pj: "ch_Bounds (plan ! j) = Some (SplitFour b ! j)" "ch_Level (plan ! j) = to_int32 (l + 1)"
    if "j < 4" for j
    using that by (auto simp: pl less_four)
  have len: "length plan = 4" by (simp add: pl)
  have one: "{c. Some c \<in> set ocs \<and> fits (to_int32 (l + 1)) (SplitFour b ! i) c} = {?cs ! i}"
    if i: "i < 4" for i
  proof (intro equalityI subsetI)
    fix c
    assume "c \<in> {c. Some c \<in> set ocs \<and> fits (to_int32 (l + 1)) (SplitFour b ! i) c}"
    then have c: "Some c \<in> set ocs" "cs_Level c = to_int32 (l + 1)" "cs_Bounds c = Some (SplitFour b ! i)"
      by (simp_all add: fits_SplitFour[OF b(1) i])
    then have "Some c \<notin> others"
      using oth i by auto
    then obtain j where j: "j < 4" "c = registered ep (plan ! j)"
      using c(1) cat len by (auto simp: in_set_conv_nth)
    then have "SplitFour b ! j = SplitFour b ! i"
      using c(3) pj(1) by (simp add: registered_def)
    then show "c \<in> {?cs ! i}"
      using b(2) i j len by (simp add: nth_eq_iff_index_eq)
  next
    fix c
    assume "c \<in> {?cs ! i}"
    then have c: "c = registered ep (plan ! i)" "plan ! i \<in> set plan"
      using i len by simp_all
    then have "Some c \<in> set ocs"
      unfolding cat by blast
    then show "c \<in> {c. Some c \<in> set ocs \<and> fits (to_int32 (l + 1)) (SplitFour b ! i) c}"
      using c(1) pj[OF i] by (simp add: fits_SplitFour[OF b(1) i] registered_def)
  qed
  have "match_quadrants (to_int32 (l + 1)) (SplitFour b) ocs [0, 1, 2, 3] = Inr ?cs"
    using one[of 0] one[of 1] one[of 2] one[of 3]
    by (intro match_quadrants_complete) (simp add: pl)
  moreover have "check_child_ids 0 [] ?cs = None"
    using v TrimSpace_trimmed[OF trimmed_path_id[OF v]] path_id_inject[OF v v]
    by (simp add: check_child_ids_None pl registered_def) (simp add: path_id_def)
  ultimately show ?thesis
    using p by (simp add: CatalogMergeChildren_Inr)
qed

lemma distinct_SplitFour:
  assumes "fst (Mid (Some b)) \<noteq> XMin b" "snd (Mid (Some b)) \<noteq> ZMin b"
  shows "distinct (SplitFour b)"
  using assms by (simp add: SplitFour_eq Let_def)

text \<open>
  C3: A split can always be undone from the catalog. When the four planned children of a split are
  registered, beside any cells that are not quadrants of the parent at the children's level,
  \<open>CatalogMergeChildren\<close> recovers exactly those four cells, in quadrant order.
\<close>

theorem split_merge_round_trip:
  assumes "finite_bounds b" "distinct (SplitFour b)"
    and "ChildSpecsForSplit s (Some b) l = Inr plan"
    and "set ocs = Some ` registered ep ` set plan \<union> others"
    and "\<forall>c. Some c \<in> others \<longrightarrow> cs_Level c = to_int32 (l + 1) \<longrightarrow> cs_Bounds c \<notin> Some ` set (SplitFour b)"
    and "cs_Bounds parent = Some b" "cs_Level parent = l"
  shows "CatalogMergeChildren (Some parent) ocs = Inr (map (registered ep) plan)"
  using assms by (rule split_then_merge)

abbreviation world_bounds :: Bounds where
  "world_bounds \<equiv> \<lparr>XMin = Fin (-1000), XMax = Fin 1000, ZMin = Fin (-1000), ZMax = Fin 1000\<rparr>"

abbreviation world_plan :: "PlanSplitResponseChild list" where
  "world_plan \<equiv> map (\<lambda>i. \<lparr>ch_Id = path_id [i], ch_Bounds = Some (SplitFour world_bounds ! nat i),
     ch_Level = 1\<rparr>) [0, 1, 2, 3]"

abbreviation world_parent :: CellSpec where
  "world_parent \<equiv> \<lparr>cs_Id = ''cell_root'', cs_Level = 0, cs_Bounds = Some world_bounds, cs_GrpcEndpoint = ''a''\<rparr>"

lemma world_plan: "ChildSpecsForSplit ''cell_root'' (Some world_bounds) 0 = Inr world_plan"
proof -
  have "ParseCellPathID ''cell_root'' = Inr []" by code_simp
  from child_specs_eq[OF this, of "[0, 1, 2, 3]"] show ?thesis
    by (simp add: ChildSpecsForSplit_def to_int32_def)
qed

lemma world_distinct: "finite_bounds world_bounds" "distinct (SplitFour world_bounds)"
  by (simp_all add: finite_bounds_def distinct_SplitFour Mid_def)

theorem split_merge_round_trip_witness:
  "CatalogMergeChildren (Some world_parent) (map Some (world_parent # map (registered id) world_plan))
     = Inr (map (registered id) world_plan)"
  using world_distinct world_plan by (rule split_merge_round_trip[where others = "{Some world_parent}"])
    (simp_all add: to_int32_def)

theorem CatalogMergeChildren_valid_witness:
  "ValidateMergeChildren (Some world_bounds) 0 (map Some (map (registered id) world_plan)) = None"
proof -
  have "CatalogMergeChildren (Some world_parent) (map Some (world_parent # map (registered id) world_plan))
     = Inr (map (registered id) world_plan)"
    using world_distinct world_plan by (rule split_then_merge[where others = "{Some world_parent}"])
      (simp_all add: to_int32_def)
  from CatalogMergeChildren_valid[OF _ world_distinct(1) this] show ?thesis by simp
qed

end
