(* ===== verification/Registry.thy ===== *)
theory Registry
  imports Partition
begin

text \<open>
  Package \<open>registry\<close> (\<open>src/internal/registry/memory.go\<close>, \<open>errors.go\<close>): the in-memory registry of
  cells. The map from names to specs is a partial function; \<open>List\<close> and \<open>ResolveMostSpecific\<close> range
  over it, so they take the order in which the loop visits the names.
\<close>

datatype registry_error = errInvalidSpec | errInvalidBounds

record Memory =
  cells :: "string \<rightharpoonup> CellSpec"

definition NewMemory :: Memory where
  "NewMemory = \<lparr>cells = Map.empty\<rparr>"

text \<open>A copy of the struct and of the bounds it points to: the same value.\<close>

definition cloneSpec :: "CellSpec option \<Rightarrow> CellSpec option" where
  "cloneSpec os =
     (case os of
        None \<Rightarrow> None
      | Some s \<Rightarrow>
          Some \<lparr>cs_Id = cs_Id s, cs_Level = cs_Level s,
                cs_Bounds = (case cs_Bounds s of
                               None \<Rightarrow> None
                             | Some b \<Rightarrow> Some \<lparr>XMin = XMin b, XMax = XMax b, ZMin = ZMin b, ZMax = ZMax b\<rparr>),
                cs_GrpcEndpoint = cs_GrpcEndpoint s\<rparr>)"

lemma cloneSpec_id [simp]: "cloneSpec os = os"
  by (auto simp: cloneSpec_def split: option.splits)

definition Register :: "Memory \<Rightarrow> CellSpec option \<Rightarrow> registry_error + Memory" where
  "Register m ospec =
     (case ospec of
        None \<Rightarrow> Inl errInvalidSpec
      | Some spec \<Rightarrow>
          (if cs_Id spec = [] then Inl errInvalidSpec
           else case cs_Bounds spec of
                  None \<Rightarrow> Inl errInvalidSpec
                | Some b \<Rightarrow>
                    (if fle (XMax b) (XMin b) \<or> fle (ZMax b) (ZMin b) then Inl errInvalidBounds
                     else Inr (m\<lparr>cells := (cells m)(cs_Id spec := cloneSpec (Some spec))\<rparr>))))"

definition List :: "string list \<Rightarrow> Memory \<Rightarrow> CellSpec option list" where
  "List order m = map (\<lambda>i. cloneSpec (cells m i)) order"

fun resolve_loop :: "f64 \<Rightarrow> f64 \<Rightarrow> CellSpec option \<Rightarrow> CellSpec list \<Rightarrow> CellSpec option" where
  "resolve_loop x z best [] = best"
| "resolve_loop x z best (c # cs) =
     (if \<not> Contains (cs_Bounds c) x z then resolve_loop x z best cs
      else case best of
             None \<Rightarrow> resolve_loop x z (Some c) cs
           | Some b \<Rightarrow>
               if cs_Level c > cs_Level b then resolve_loop x z (Some c) cs
               else resolve_loop x z best cs)"

definition ResolveMostSpecific :: "string list \<Rightarrow> Memory \<Rightarrow> f64 \<Rightarrow> f64 \<Rightarrow> CellSpec option \<times> bool" where
  "ResolveMostSpecific order m x z =
     (case resolve_loop x z None (map (\<lambda>i. the (cells m i)) order) of
        None \<Rightarrow> (None, False)
      | Some best \<Rightarrow> (cloneSpec (Some best), True))"

definition Deregister :: "Memory \<Rightarrow> string \<Rightarrow> registry_error + Memory" where
  "Deregister m i =
     (if i = [] then Inl errInvalidSpec else Inr (m\<lparr>cells := (cells m)(i := None)\<rparr>))"

section \<open>The invariant\<close>

text \<open>
  Every entry is stored under its own non-empty name and carries bounds that passed the check
  of \<open>Register\<close>; the table is finite.
\<close>

definition proper_bounds :: "Bounds \<Rightarrow> bool" where
  "proper_bounds b \<longleftrightarrow> \<not> fle (XMax b) (XMin b) \<and> \<not> fle (ZMax b) (ZMin b)"

definition proper_spec :: "CellSpec \<Rightarrow> bool" where
  "proper_spec c \<longleftrightarrow> cs_Id c \<noteq> [] \<and> (\<exists>b. cs_Bounds c = Some b \<and> proper_bounds b)"

definition registry_inv :: "Memory \<Rightarrow> bool" where
  "registry_inv m \<longleftrightarrow>
     finite (dom (cells m)) \<and> (\<forall>i c. cells m i = Some c \<longrightarrow> cs_Id c = i \<and> proper_spec c)"

lemma registry_inv_New: "registry_inv NewMemory"
  by (simp add: registry_inv_def NewMemory_def)

lemma Register_Inr:
  "Register m os = Inr m' \<longleftrightarrow>
     (\<exists>c. os = Some c \<and> proper_spec c \<and> m' = m\<lparr>cells := (cells m)(cs_Id c \<mapsto> c)\<rparr>)"
  by (cases os) (auto simp: Register_def proper_spec_def proper_bounds_def split: option.splits)

lemma Deregister_Inr:
  "Deregister m i = Inr m' \<longleftrightarrow> i \<noteq> [] \<and> m' = m\<lparr>cells := (cells m)(i := None)\<rparr>"
  by (auto simp: Deregister_def)

lemma registry_inv_Register: "registry_inv m \<Longrightarrow> Register m os = Inr m' \<Longrightarrow> registry_inv m'"
  by (auto simp: registry_inv_def Register_Inr split: if_splits)

lemma registry_inv_Deregister: "registry_inv m \<Longrightarrow> Deregister m i = Inr m' \<Longrightarrow> registry_inv m'"
  by (auto simp: registry_inv_def Deregister_Inr split: if_splits)

lemma registry_invD:
  "registry_inv m \<Longrightarrow> cells m i = Some c \<Longrightarrow> cs_Id c = i \<and> i \<noteq> [] \<and> cs_Bounds c \<noteq> None"
  by (auto simp: registry_inv_def proper_spec_def)

section \<open>The loop of ResolveMostSpecific\<close>

text \<open>\<open>most_specific\<close>: one of the cells that contain the point, of the greatest level.\<close>

definition most_specific :: "CellSpec set \<Rightarrow> f64 \<Rightarrow> f64 \<Rightarrow> CellSpec \<Rightarrow> bool" where
  "most_specific S x z c \<longleftrightarrow>
     c \<in> S \<and> Contains (cs_Bounds c) x z \<and>
     (\<forall>d \<in> S. Contains (cs_Bounds d) x z \<longrightarrow> cs_Level d \<le> cs_Level c)"

lemma resolve_loop_None_iff:
  "resolve_loop x z best cs = None \<longleftrightarrow> best = None \<and> (\<forall>c \<in> set cs. \<not> Contains (cs_Bounds c) x z)"
  by (induction x z best cs rule: resolve_loop.induct) (auto split: option.splits)

lemma resolve_loop_Some:
  "resolve_loop x z best cs = Some r \<Longrightarrow> best = Some r \<or> r \<in> set cs \<and> Contains (cs_Bounds r) x z"
  by (induction x z best cs rule: resolve_loop.induct) (auto split: if_splits option.splits)

lemma resolve_loop_ge_best:
  "resolve_loop x z (Some b) cs = Some r \<Longrightarrow> cs_Level b \<le> cs_Level r"
  by (induction cs arbitrary: b) (fastforce split: if_splits)+

lemma resolve_loop_ge:
  "resolve_loop x z best cs = Some r \<Longrightarrow> d \<in> set cs \<Longrightarrow> Contains (cs_Bounds d) x z \<Longrightarrow>
     cs_Level d \<le> cs_Level r"
proof (induction x z best cs rule: resolve_loop.induct)
  case (2 x z best c cs)
  show ?case
  proof (cases "d = c")
    case True
    with "2.prems" obtain b where "resolve_loop x z (Some b) cs = Some r" "cs_Level d \<le> cs_Level b"
      by (cases best) (auto split: if_splits)
    then show ?thesis
      using resolve_loop_ge_best by fastforce
  next
    case False
    with 2 show ?thesis by (auto split: if_splits option.splits)
  qed
qed simp

lemma resolve_loop_most_specific:
  "resolve_loop x z None cs = Some r \<Longrightarrow> most_specific (set cs) x z r"
  using resolve_loop_Some[of x z None cs r] resolve_loop_ge[of x z None cs r]
  by (auto simp: most_specific_def)

text \<open>
  C4: \<open>ResolveMostSpecific\<close> answers with a registered cell that contains the point and that no
  registered cell containing the point is deeper than; it answers "not found" exactly when no
  registered cell contains the point. This holds for every order in which the loop visits the map.
\<close>

theorem ResolveMostSpecific_correct:
  assumes "registry_inv m" "visits order (dom (cells m))"
  shows "case ResolveMostSpecific order m x z of
      (Some c, ok) \<Rightarrow> ok \<and> most_specific (ran (cells m)) x z c
    | (None, ok) \<Rightarrow> \<not> ok \<and> (\<forall>c \<in> ran (cells m). \<not> Contains (cs_Bounds c) x z)"
proof -
  have "set (map (\<lambda>i. the (cells m i)) order) = ran (cells m)"
    using visits_set[OF assms(2)] by (force simp: ran_def)
  then show ?thesis
    using resolve_loop_most_specific[of x z "map (\<lambda>i. the (cells m i)) order"]
      resolve_loop_None_iff[of x z None "map (\<lambda>i. the (cells m i)) order"]
    by (auto simp: ResolveMostSpecific_def split: option.splits)
qed

theorem ResolveMostSpecific_correct_witness:
  "\<exists>m. Register NewMemory (Some world_parent) = Inr m \<and>
     ResolveMostSpecific [''cell_root''] m (Fin 1) (Fin 2) = (Some world_parent, True) \<and>
     most_specific (ran (cells m)) (Fin 1) (Fin 2) world_parent"
proof -
  let ?m = "NewMemory\<lparr>cells := (cells NewMemory)(''cell_root'' \<mapsto> world_parent)\<rparr>"
  have r: "Register NewMemory (Some world_parent) = Inr ?m"
    by (simp add: Register_def)
  have "ResolveMostSpecific [''cell_root''] ?m (Fin 1) (Fin 2) = (Some world_parent, True)"
    by (simp add: ResolveMostSpecific_def Contains_iff)
  then show ?thesis
    using r ResolveMostSpecific_correct[OF registry_inv_Register[OF registry_inv_New r],
        of "[''cell_root'']" "Fin 1" "Fin 2"]
    by (simp add: visits_def NewMemory_def)
qed

end
