(* ===== verification/Discovery.thy ===== *)
theory Discovery
  imports Registry
begin

text \<open>
  Package \<open>discovery\<close>, the part that does not talk to Consul
  (\<open>src/internal/discovery/catalog.go\<close>, \<open>memory_catalog.go\<close>): lookup by name, choice of the best
  cell, the catalog over the in-memory registry, and the contract of the interface \<open>Catalog\<close> as a
  locale. What the clients of a catalog rely on is proved once from the contract.
\<close>

section \<open>Operations on lists of cells\<close>

fun find_loop :: "string \<Rightarrow> CellSpec option list \<Rightarrow> CellSpec option \<times> bool" where
  "find_loop i [] = (None, False)"
| "find_loop i (s # cs) =
     (case s of
        None \<Rightarrow> find_loop i cs
      | Some c \<Rightarrow> if cs_Id c = i then (cloneSpec s, True) else find_loop i cs)"

text \<open>\<open>listed\<close> is what \<open>c.List(ctx)\<close> returns.\<close>

definition FindCellByID :: "('e + CellSpec option list) \<Rightarrow> string \<Rightarrow> 'e + (CellSpec option \<times> bool)" where
  "FindCellByID listed i =
     (if i = [] then Inr (None, False)
      else case listed of
             Inl err \<Rightarrow> Inl err
           | Inr cs \<Rightarrow> Inr (find_loop i cs))"

fun pick_loop :: "f64 \<Rightarrow> f64 \<Rightarrow> CellSpec option \<Rightarrow> CellSpec option list \<Rightarrow> CellSpec option" where
  "pick_loop x z best [] = best"
| "pick_loop x z best (s # cs) =
     (case s of
        None \<Rightarrow> pick_loop x z best cs
      | Some c \<Rightarrow>
          if cs_Bounds c = None then pick_loop x z best cs
          else if \<not> Contains (cs_Bounds c) x z then pick_loop x z best cs
          else (case best of
                  None \<Rightarrow> pick_loop x z (Some c) cs
                | Some b \<Rightarrow>
                    if cs_Level c > cs_Level b then pick_loop x z (Some c) cs
                    else pick_loop x z best cs))"

definition PickBestCell :: "CellSpec option list \<Rightarrow> f64 \<Rightarrow> f64 \<Rightarrow> CellSpec option \<times> bool" where
  "PickBestCell cs x z =
     (case pick_loop x z None cs of
        None \<Rightarrow> (None, False)
      | Some best \<Rightarrow> (cloneSpec (Some best), True))"

text \<open>
  \<open>dereg\<close> is the method \<open>Deregister\<close> of the catalog, absent when the catalog is nil, and \<open>logical\<close>
  the method \<open>DeregisterLogicalCell\<close> when the type assertion succeeds.
\<close>

definition DeregisterLogicalCell :: "(string \<Rightarrow> 's \<Rightarrow> 'e + 's) option \<Rightarrow> (string \<Rightarrow> 's \<Rightarrow> 'e + 's) option \<Rightarrow>
    string \<Rightarrow> 's \<Rightarrow> 'e + 's" where
  "DeregisterLogicalCell dereg logical i s =
     (case dereg of
        None \<Rightarrow> Inr s
      | Some d \<Rightarrow> (case logical of Some ex \<Rightarrow> ex i s | None \<Rightarrow> d i s))"

section \<open>The catalog over the in-memory registry\<close>

definition MemoryCatalog_RegisterCell :: "Memory \<Rightarrow> CellSpec option \<Rightarrow> registry_error + Memory" where
  "MemoryCatalog_RegisterCell m spec = Register m spec"

definition MemoryCatalog_Deregister :: "string \<Rightarrow> Memory \<Rightarrow> registry_error + Memory" where
  "MemoryCatalog_Deregister serviceID m = Deregister m serviceID"

definition MemoryCatalog_DeregisterLogicalCell :: "string \<Rightarrow> Memory \<Rightarrow> registry_error + Memory" where
  "MemoryCatalog_DeregisterLogicalCell logicalCellID m = Deregister m logicalCellID"

definition MemoryCatalog_List :: "string list \<Rightarrow> Memory \<Rightarrow> registry_error + CellSpec option list" where
  "MemoryCatalog_List order m = Inr (List order m)"

definition MemoryCatalog_ResolveMostSpecific :: "string list \<Rightarrow> Memory \<Rightarrow> f64 \<Rightarrow> f64 \<Rightarrow>
    registry_error + (CellSpec option \<times> bool)" where
  "MemoryCatalog_ResolveMostSpecific order m x z =
     (let (c, ok) = ResolveMostSpecific order m x z in Inr (c, ok))"

section \<open>Facts about the loops\<close>

lemma pick_loop_resolve_loop:
  "\<forall>c \<in> set cs. cs_Bounds c \<noteq> None \<Longrightarrow> pick_loop x z best (map Some cs) = resolve_loop x z best cs"
  by (induction cs arbitrary: best) (auto split: option.splits)

lemma find_loop_found:
  assumes "distinct (map cs_Id cs)" "c \<in> set cs"
  shows "find_loop (cs_Id c) (map Some cs) = (Some c, True)"
  using assms by (induction cs) (auto simp: rev_image_eqI)

lemma find_loop_absent:
  "\<forall>c \<in> set cs. cs_Id c \<noteq> i \<Longrightarrow> find_loop i (map Some cs) = (None, False)"
  by (induction cs) auto

lemma PickBestCell_most_specific:
  assumes "\<forall>c \<in> set cs. cs_Bounds c \<noteq> None" "PickBestCell (map Some cs) x z = (Some c, ok)"
  shows "ok \<and> most_specific (set cs) x z c"
  using assms resolve_loop_most_specific[of x z cs]
  by (auto simp: PickBestCell_def pick_loop_resolve_loop split: option.splits)

lemma PickBestCell_None:
  assumes "\<forall>c \<in> set cs. cs_Bounds c \<noteq> None" "PickBestCell (map Some cs) x z = (None, ok)"
  shows "\<not> ok \<and> (\<forall>c \<in> set cs. \<not> Contains (cs_Bounds c) x z)"
  using assms resolve_loop_None_iff[of x z None cs]
  by (auto simp: PickBestCell_def pick_loop_resolve_loop split: option.splits)

lemma map_of_rev_keyed:
  "distinct (map f cs) \<Longrightarrow> c \<in> set cs \<Longrightarrow> map_of (rev (map (\<lambda>c. (f c, c)) cs)) (f c) = Some c"
  by (rule map_of_is_SomeI) (simp_all add: rev_map[symmetric] comp_def)

section \<open>The contract of a catalog\<close>

text \<open>Registering a list of cells, stopping at the first error.\<close>

fun register_all :: "('s \<Rightarrow> CellSpec option \<Rightarrow> 'e + 's) \<Rightarrow> 's \<Rightarrow> CellSpec list \<Rightarrow> 'e + 's" where
  "register_all reg s [] = Inr s"
| "register_all reg s (c # cs) =
     (case reg s (Some c) of Inl e \<Rightarrow> Inl e | Inr s' \<Rightarrow> register_all reg s' cs)"

text \<open>
  \<open>entries\<close> is the table a catalog stands for. A listing shows every entry once; resolving a point
  is choosing the best cell of a listing. \<open>ok\<close> says which visiting orders are possible.
\<close>

locale catalog =
  fixes inv :: "'s \<Rightarrow> bool"
    and entries :: "'s \<Rightarrow> string \<Rightarrow> CellSpec option"
    and ok :: "'o \<Rightarrow> 's \<Rightarrow> bool"
    and register :: "'s \<Rightarrow> CellSpec option \<Rightarrow> 'e + 's"
    and deregister :: "string \<Rightarrow> 's \<Rightarrow> 'e + 's"
    and listing :: "'o \<Rightarrow> 's \<Rightarrow> 'e + CellSpec option list"
    and resolve :: "'o \<Rightarrow> 's \<Rightarrow> f64 \<Rightarrow> f64 \<Rightarrow> 'e + (CellSpec option \<times> bool)"
  assumes inv_register: "inv s \<Longrightarrow> register s oc = Inr s' \<Longrightarrow> inv s'"
    and entries_register: "inv s \<Longrightarrow> register s (Some c) = Inr s' \<Longrightarrow>
      entries s' = (entries s)(cs_Id c \<mapsto> c)"
    and inv_deregister: "inv s \<Longrightarrow> deregister i s = Inr s' \<Longrightarrow> inv s'"
    and entries_deregister: "inv s \<Longrightarrow> deregister i s = Inr s' \<Longrightarrow> entries s' = (entries s)(i := None)"
    and keyed: "inv s \<Longrightarrow> entries s i = Some c \<Longrightarrow> cs_Id c = i \<and> i \<noteq> [] \<and> cs_Bounds c \<noteq> None"
    and listing_entries: "inv s \<Longrightarrow> ok ord s \<Longrightarrow>
      \<exists>cs. listing ord s = Inr (map Some cs) \<and> distinct (map cs_Id cs) \<and> set cs = ran (entries s)"
    and resolve_listing: "inv s \<Longrightarrow> ok ord s \<Longrightarrow> listing ord s = Inr l \<Longrightarrow>
      resolve ord s x z = Inr (PickBestCell l x z)"
begin

lemma find_entry:
  assumes "inv s" "ok ord s"
  shows "FindCellByID (listing ord s) i = Inr (entries s i, entries s i \<noteq> None)"
proof -
  from listing_entries[OF assms] obtain cs where
    cs: "listing ord s = Inr (map Some cs)" "distinct (map cs_Id cs)" "set cs = ran (entries s)"
    by blast
  show ?thesis
  proof (cases "entries s i")
    case None
    then have "\<forall>c \<in> set cs. cs_Id c \<noteq> i"
      using cs(3) keyed[OF assms(1)] by (auto simp: ran_def)
    with cs None show ?thesis by (simp add: FindCellByID_def find_loop_absent)
  next
    case (Some c)
    then have "c \<in> set cs" "cs_Id c = i" "i \<noteq> []"
      using cs(3) keyed[OF assms(1) Some] by (auto simp: ran_def)
    with cs Some show ?thesis using find_loop_found[of cs c] by (simp add: FindCellByID_def)
  qed
qed

lemma find_registered:
  assumes "inv s" "register s (Some c) = Inr s'" "ok ord s'"
  shows "FindCellByID (listing ord s') (cs_Id c) = Inr (Some c, True)"
  using find_entry[OF inv_register[OF assms(1,2)] assms(3)] entries_register[OF assms(1,2)] by simp

lemma find_deregistered:
  assumes "inv s" "deregister i s = Inr s'" "ok ord s'"
  shows "FindCellByID (listing ord s') i = Inr (None, False)"
  using find_entry[OF inv_deregister[OF assms(1,2)] assms(3)] entries_deregister[OF assms(1,2)] by simp

lemma resolve_most_specific:
  assumes "inv s" "ok ord s"
  shows "\<exists>r. resolve ord s x z = Inr r \<and>
    (case r of
       (Some c, b) \<Rightarrow> b \<and> most_specific (ran (entries s)) x z c
     | (None, b) \<Rightarrow> \<not> b \<and> (\<forall>c \<in> ran (entries s). \<not> Contains (cs_Bounds c) x z))"
proof -
  from listing_entries[OF assms] obtain cs where
    cs: "listing ord s = Inr (map Some cs)" "set cs = ran (entries s)"
    by blast
  have "\<forall>c \<in> set cs. cs_Bounds c \<noteq> None"
    using keyed[OF assms(1)] cs(2) by (auto simp: ran_def)
  then show ?thesis
    using resolve_listing[OF assms cs(1)] PickBestCell_most_specific[of cs x z] PickBestCell_None[of cs x z] cs(2)
    by (cases "PickBestCell (map Some cs) x z") (auto split: option.splits)
qed

lemma resolve_hit:
  assumes "inv s" "ok ord s" "d \<in> ran (entries s)" "Contains (cs_Bounds d) x z"
  shows "\<exists>c. resolve ord s x z = Inr (Some c, True) \<and> most_specific (ran (entries s)) x z c"
proof -
  from resolve_most_specific[OF assms(1,2), of x z] obtain r where
    r: "resolve ord s x z = Inr r"
    "case r of
       (Some c, b) \<Rightarrow> b \<and> most_specific (ran (entries s)) x z c
     | (None, b) \<Rightarrow> \<not> b \<and> (\<forall>c \<in> ran (entries s). \<not> Contains (cs_Bounds c) x z)"
    by (elim exE conjE)
  then show ?thesis
    using assms(3,4) by (cases r; cases "fst r") auto
qed

lemma register_all_entries:
  "inv s \<Longrightarrow> register_all register s cs = Inr s' \<Longrightarrow>
     inv s' \<and> entries s' = (entries s) ++ map_of (rev (map (\<lambda>c. (cs_Id c, c)) cs))"
proof (induction cs arbitrary: s)
  case (Cons c cs)
  then obtain s1 where s1: "register s (Some c) = Inr s1" "register_all register s1 cs = Inr s'"
    by (auto split: sum.splits)
  from Cons.IH[OF inv_register[OF Cons.prems(1) s1(1)] s1(2)] show ?case
    using entries_register[OF Cons.prems(1) s1(1)]
    by (simp add: map_add_def fun_eq_iff map_of_append split: option.splits)
qed simp

text \<open>
  After the children of a split are registered, a point of the parent resolves to a child, or to a
  cell that was registered before and lies deeper than the parent.
\<close>

lemma split_resolves_to_child:
  assumes s: "inv s"
    and b: "finite_bounds b" "is_int32 (l + 1)"
    and plan: "ChildSpecsForSplit pid (Some b) l = Inr plan"
    and reg: "register_all register s (map (registered ep) plan) = Inr s'"
    and ord: "ok ord s'" and pt: "Contains (Some b) x z"
  shows "\<exists>c. resolve ord s' x z = Inr (Some c, True) \<and> Contains (cs_Bounds c) x z \<and>
    ((\<exists>ch \<in> set plan. c = registered ep ch) \<or> c \<in> ran (entries s) \<and> l < cs_Level c)"
proof -
  let ?cs = "map (registered ep) plan"
  let ?q = "Quadrant x z (Some b)"
  from ChildSpecsForSplit_parses[OF plan] obtain p where p: "ParseCellPathID pid = Inr p"
    and pl: "plan = map (\<lambda>i. \<lparr>ch_Id = path_id (p @ [i]), ch_Bounds = Some (SplitFour b ! nat i),
       ch_Level = to_int32 (l + 1)\<rparr>) [0, 1, 2, 3]" .
  have inv': "inv s'" and ent: "entries s' = entries s ++ map_of (rev (map (\<lambda>c. (cs_Id c, c)) ?cs))"
    using register_all_entries[OF s reg] by auto
  have lev: "ch_Level ch = l + 1" if "ch \<in> set plan" for ch
    using that b(2) by (auto simp: pl to_int32_id)
  have v: "valid_path (p @ [i])" if "0 \<le> i" "i \<le> 3" for i
    using p that by (simp add: ParseCellPathID_iff)
  have dist: "distinct (map cs_Id ?cs)"
    using path_id_inject[OF v v] by (simp add: pl registered_def)
  have new: "registered ep ch \<in> ran (entries s')" if "ch \<in> set plan" for ch
  proof -
    have "map_of (rev (map (\<lambda>c. (cs_Id c, c)) ?cs)) (cs_Id (registered ep ch)) = Some (registered ep ch)"
      using dist that by (intro map_of_rev_keyed) auto
    then show ?thesis
      unfolding ent by (metis map_add_find_right ranI)
  qed
  have old: "(\<exists>ch \<in> set plan. c = registered ep ch) \<or> c \<in> ran (entries s)" if "c \<in> ran (entries s')" for c
    using that unfolding ent by (auto simp: ran_def map_add_Some_iff dest!: map_of_SomeD)
  have q: "?q < 4" "Contains (Some (SplitFour b ! ?q)) x z"
    using split_covers[OF b(1) pt] by auto
  define ch where "ch = plan ! ?q"
  have ch: "ch \<in> set plan" "ch_Bounds ch = Some (SplitFour b ! ?q)"
    using q(1) by (auto simp: ch_def pl less_four)
  obtain c where
    c: "resolve ord s' x z = Inr (Some c, True)" "most_specific (ran (entries s')) x z c"
    using resolve_hit[OF inv' ord new[OF ch(1)], of x z] q(2) by (auto simp: registered_def ch(2))
  then have "l + 1 \<le> cs_Level c"
    using new[OF ch(1)] q(2) ch lev by (auto simp: most_specific_def registered_def)
  with c old[of c] show ?thesis
    by (auto simp: most_specific_def)
qed

end

section \<open>The in-memory catalog meets the contract\<close>

lemma MemoryCatalog_List_entries:
  assumes "registry_inv m" "visits ord (dom (cells m))"
  shows "\<exists>cs. MemoryCatalog_List ord m = Inr (map Some cs) \<and> distinct (map cs_Id cs) \<and> set cs = ran (cells m)"
proof (intro exI conjI)
  let ?cs = "map (\<lambda>i. the (cells m i)) ord"
  show "MemoryCatalog_List ord m = Inr (map Some ?cs)"
    using visits_set[OF assms(2)] by (auto simp: MemoryCatalog_List_def List_def)
  have "map cs_Id ?cs = ord"
    using visits_set[OF assms(2)] registry_invD[OF assms(1)] by (auto intro!: map_idI)
  then show "distinct (map cs_Id ?cs)"
    using visits_distinct[OF assms(2)] by simp
  show "set ?cs = ran (cells m)"
    using visits_set[OF assms(2)] by (force simp: ran_def)
qed

interpretation mem: catalog registry_inv cells "\<lambda>ord m. visits ord (dom (cells m))"
  MemoryCatalog_RegisterCell MemoryCatalog_DeregisterLogicalCell MemoryCatalog_List
  MemoryCatalog_ResolveMostSpecific
proof (unfold_locales, goal_cases)
  case 1 then show ?case by (simp add: MemoryCatalog_RegisterCell_def registry_inv_Register)
next
  case 2 then show ?case by (auto simp: MemoryCatalog_RegisterCell_def Register_Inr)
next
  case 3 then show ?case by (simp add: MemoryCatalog_DeregisterLogicalCell_def registry_inv_Deregister)
next
  case 4 then show ?case by (auto simp: MemoryCatalog_DeregisterLogicalCell_def Deregister_Inr)
next
  case 5 then show ?case by (rule registry_invD)
next
  case 6 then show ?case by (rule MemoryCatalog_List_entries)
next
  case (7 m ord l x z)
  let ?cs = "map (\<lambda>i. the (cells m i)) ord"
  have l: "l = map Some ?cs"
    using 7 visits_set[OF 7(2)] by (auto simp: MemoryCatalog_List_def List_def)
  have "\<forall>c \<in> set ?cs. cs_Bounds c \<noteq> None"
    using visits_set[OF 7(2)] registry_invD[OF 7(1)] by auto
  then have "pick_loop x z None l = resolve_loop x z None ?cs"
    unfolding l by (rule pick_loop_resolve_loop)
  then show ?case
    by (simp add: MemoryCatalog_ResolveMostSpecific_def PickBestCell_def ResolveMostSpecific_def
        split: option.splits)
qed

section \<open>Properties of the in-memory catalog\<close>

text \<open>
  Lookups see exactly the updates. After a successful \<open>RegisterCell\<close> the name finds the new
  spec, after a successful \<open>DeregisterLogicalCell\<close> the name finds nothing, and every other name finds
  what it found before, in whatever order the listing comes.
\<close>

theorem MemoryCatalog_lookup:
  assumes "registry_inv m" "visits ord (dom (cells m'))"
  shows "(MemoryCatalog_RegisterCell m (Some c) = Inr m' \<longrightarrow>
            FindCellByID (MemoryCatalog_List ord m') i =
              Inr (if i = cs_Id c then (Some c, True) else (cells m i, cells m i \<noteq> None))) \<and>
         (DeregisterLogicalCell (Some MemoryCatalog_Deregister) (Some MemoryCatalog_DeregisterLogicalCell) j m = Inr m' \<longrightarrow>
            FindCellByID (MemoryCatalog_List ord m') i =
              Inr (if i = j then (None, False) else (cells m i, cells m i \<noteq> None)))"
proof (intro conjI impI)
  assume r: "MemoryCatalog_RegisterCell m (Some c) = Inr m'"
  show "FindCellByID (MemoryCatalog_List ord m') i =
      Inr (if i = cs_Id c then (Some c, True) else (cells m i, cells m i \<noteq> None))"
    using mem.find_entry[OF mem.inv_register[OF assms(1) r] assms(2)] mem.entries_register[OF assms(1) r]
    by simp
next
  assume "DeregisterLogicalCell (Some MemoryCatalog_Deregister) (Some MemoryCatalog_DeregisterLogicalCell) j m = Inr m'"
  then have d: "MemoryCatalog_DeregisterLogicalCell j m = Inr m'"
    by (simp add: DeregisterLogicalCell_def)
  show "FindCellByID (MemoryCatalog_List ord m') i =
      Inr (if i = j then (None, False) else (cells m i, cells m i \<noteq> None))"
    using mem.find_entry[OF mem.inv_deregister[OF assms(1) d] assms(2)] mem.entries_deregister[OF assms(1) d]
    by simp
qed

lemma world_registered:
  "MemoryCatalog_RegisterCell NewMemory (Some world_parent) = Inr \<lparr>cells = [''cell_root'' \<mapsto> world_parent]\<rparr>"
  by (simp add: MemoryCatalog_RegisterCell_def Register_def NewMemory_def)

theorem MemoryCatalog_lookup_witness:
  "FindCellByID (MemoryCatalog_List [''cell_root''] \<lparr>cells = [''cell_root'' \<mapsto> world_parent]\<rparr>) ''cell_root''
     = Inr (Some world_parent, True)"
  using MemoryCatalog_lookup[OF registry_inv_New, of "[''cell_root'']" "\<lparr>cells = [''cell_root'' \<mapsto> world_parent]\<rparr>"
      world_parent "''cell_root''" "''x''"] world_registered
  by (simp add: visits_def)

text \<open>
  C5: A split reroutes the whole cell. Once the planned children of a cell of level \<open>l\<close> are
  registered, every point of the parent is found, in a cell that contains it, and that cell is one of
  the four children or a cell deeper than level \<open>l\<close> that was registered already: in no case does the
  point go to the parent again, or to any other cell of its level or above. This holds for every
  visiting order.
\<close>

theorem split_reroutes_resolution:
  assumes "registry_inv m" "finite_bounds b" "is_int32 (l + 1)"
    and "ChildSpecsForSplit pid (Some b) l = Inr plan"
    and "register_all MemoryCatalog_RegisterCell m (map (registered ep) plan) = Inr m'"
    and "visits ord (dom (cells m'))" "Contains (Some b) x z"
  shows "\<exists>c. MemoryCatalog_ResolveMostSpecific ord m' x z = Inr (Some c, True) \<and> Contains (cs_Bounds c) x z \<and>
    ((\<exists>ch \<in> set plan. c = registered ep ch) \<or> c \<in> ran (cells m) \<and> l < cs_Level c)"
  using assms by (rule mem.split_resolves_to_child)

abbreviation world_children :: "CellSpec list" where
  "world_children \<equiv> map (registered id) world_plan"

abbreviation world_split :: Memory where
  "world_split \<equiv> \<lparr>cells = map_of (map (\<lambda>c. (cs_Id c, c)) (rev world_children @ [world_parent]))\<rparr>"

lemma world_child_names: "path_id [0] = ''cell_q0''" "path_id [1] = ''cell_q1''" "path_id [2] = ''cell_q2''"
    "path_id [3] = ''cell_q3''"
  by (simp_all add: path_id_def seg_values)

lemma world_split: "register_all MemoryCatalog_RegisterCell \<lparr>cells = [''cell_root'' \<mapsto> world_parent]\<rparr> world_children
    = Inr world_split"
  by (simp add: MemoryCatalog_RegisterCell_def Register_def registered_def world_child_names SplitFour_nth Mid_def)

lemma world_inv: "registry_inv \<lparr>cells = [''cell_root'' \<mapsto> world_parent]\<rparr>"
  using world_registered registry_inv_Register[OF registry_inv_New]
  by (auto simp: MemoryCatalog_RegisterCell_def)

theorem split_reroutes_resolution_witness:
  "\<exists>ch \<in> set world_plan.
    MemoryCatalog_ResolveMostSpecific [''cell_root'', ''cell_q0'', ''cell_q1'', ''cell_q2'', ''cell_q3''] world_split
      (Fin 3) (Fin (-4)) = Inr (Some (registered id ch), True) \<and>
    Contains (ch_Bounds ch) (Fin 3) (Fin (-4))"
proof -
  have "is_int32 (0 + 1)" by (simp add: is_int32_def)
  moreover have "visits [''cell_root'', ''cell_q0'', ''cell_q1'', ''cell_q2'', ''cell_q3''] (dom (cells world_split))"
    by (simp add: visits_def registered_def world_child_names) auto
  moreover have "Contains (Some world_bounds) (Fin 3) (Fin (-4))" by (simp add: Contains_iff)
  ultimately show ?thesis
    using split_reroutes_resolution[OF world_inv world_distinct(1) _ world_plan world_split,
        of "[''cell_root'', ''cell_q0'', ''cell_q1'', ''cell_q2'', ''cell_q3'']" "Fin 3" "Fin (-4)"]
    by (auto simp: registered_def)
qed

text \<open>
  On a seam the catalog does not follow the rule of \<open>Quadrant\<close>. After the world is split, the
  point \<open>(0, -500)\<close> belongs to quadrant 1 by \<open>Quadrant\<close>, but \<open>ResolveMostSpecific\<close> answers
  \<open>cell_q0\<close> or \<open>cell_q1\<close> depending on the order in which the loop visits the map.
\<close>

theorem seam_resolution_depends_on_order:
  "Quadrant (Fin 0) (Fin (-500)) (Some world_bounds) = 1 \<and>
   (\<exists>ord ord'. visits ord (dom (cells world_split)) \<and> visits ord' (dom (cells world_split)) \<and>
      map_option cs_Id (fst (ResolveMostSpecific ord world_split (Fin 0) (Fin (-500)))) = Some ''cell_q0'' \<and>
      map_option cs_Id (fst (ResolveMostSpecific ord' world_split (Fin 0) (Fin (-500)))) = Some ''cell_q1'')"
proof (intro conjI exI)
  let ?o = "[''cell_root'', ''cell_q0'', ''cell_q1'', ''cell_q2'', ''cell_q3'']"
  let ?o' = "[''cell_root'', ''cell_q1'', ''cell_q0'', ''cell_q2'', ''cell_q3'']"
  show "Quadrant (Fin 0) (Fin (-500)) (Some world_bounds) = 1"
    by (simp add: Quadrant_def Mid_def)
  show "visits ?o (dom (cells world_split))" "visits ?o' (dom (cells world_split))"
    by (simp add: visits_def registered_def world_child_names, auto)+
  show "map_option cs_Id (fst (ResolveMostSpecific ?o world_split (Fin 0) (Fin (-500)))) = Some ''cell_q0''"
    "map_option cs_Id (fst (ResolveMostSpecific ?o' world_split (Fin 0) (Fin (-500)))) = Some ''cell_q1''"
    by (simp_all add: ResolveMostSpecific_def registered_def world_child_names Contains_iff SplitFour_nth Mid_def)
qed

end
