(* ===== verification/Consul_Catalog.thy ===== *)
theory Consul_Catalog
  imports Discovery
begin

text \<open>
  Package \<open>discovery\<close>, the catalog over Consul (\<open>src/internal/discovery/consul_map.go\<close>,
  \<open>consul.go\<close>): the mapping between a cell and a Consul service and the catalog operations. The
  Consul client is a parameter, a record of the three calls the source makes on an agent state
  \<open>'a\<close>; \<open>FormatFloat\<close>/\<open>ParseFloat\<close> stand for \<open>strconv.FormatFloat(f, 'f', -1, 64)\<close> and
  \<open>strconv.ParseFloat(s, 64)\<close>.
\<close>

section \<open>Host and port\<close>

datatype addr_error = missingPort | tooManyColons | missingBracket | unexpectedLeftBracket | unexpectedRightBracket

definition last_colon :: "string \<Rightarrow> nat option" where
  "last_colon s = find (\<lambda>i. s ! i = CHR '':'') (rev [0..<length s])"

definition index_byte :: "string \<Rightarrow> char \<Rightarrow> nat option" where
  "index_byte s c = find (\<lambda>i. s ! i = c) [0..<length s]"

text \<open>\<open>net.SplitHostPort\<close> and \<open>net.JoinHostPort\<close>.\<close>

definition SplitHostPort :: "string \<Rightarrow> addr_error + string \<times> string" where
  "SplitHostPort hp =
     (case last_colon hp of
        None \<Rightarrow> Inl missingPort
      | Some i \<Rightarrow>
          (let finish = (\<lambda>host j k.
             if CHR ''['' \<in> set (drop j hp) then Inl unexpectedLeftBracket
             else if CHR '']'' \<in> set (drop k hp) then Inl unexpectedRightBracket
             else Inr (host, drop (i + 1) hp))
           in if hp ! 0 = CHR ''['' then
                (case index_byte hp (CHR '']'') of
                   None \<Rightarrow> Inl missingBracket
                 | Some e \<Rightarrow>
                     if e + 1 = length hp then Inl missingPort
                     else if e + 1 = i then finish (drop 1 (take e hp)) 1 (e + 1)
                     else if hp ! (e + 1) = CHR '':'' then Inl tooManyColons
                     else Inl missingPort)
              else if CHR '':'' \<in> set (take i hp) then Inl tooManyColons
              else finish (take i hp) 0 0))"

definition JoinHostPort :: "string \<Rightarrow> string \<Rightarrow> string" where
  "JoinHostPort host port =
     (if CHR '':'' \<in> set host then ''['' @ host @ '']:'' @ port else host @ '':'' @ port)"

text \<open>\<open>strconv.ParseInt(s, 10, 32)\<close>.\<close>

definition ParseInt32 :: "string \<Rightarrow> int32 option" where
  "ParseInt32 s = (case Atoi s of None \<Rightarrow> None | Some k \<Rightarrow> if is_int32 k then Some k else None)"

section \<open>The mapping\<close>

definition ServiceNameMMOCell :: string where
  "ServiceNameMMOCell = ''mmo-cell''"

abbreviation "MetaLevel \<equiv> ''level''"
abbreviation "MetaXMin \<equiv> ''x_min''"
abbreviation "MetaXMax \<equiv> ''x_max''"
abbreviation "MetaZMin \<equiv> ''z_min''"
abbreviation "MetaZMax \<equiv> ''z_max''"
abbreviation "MetaStatus \<equiv> ''status''"
abbreviation "MetaCellLogicalID \<equiv> ''mmo_cell_id''"

record AgentServiceRegistration =
  reg_ID :: string
  reg_Name :: string
  reg_Address :: string
  reg_Port :: int
  reg_Meta :: "string \<rightharpoonup> string"

record AgentService =
  svc_ID :: string
  svc_Address :: string
  svc_Port :: int
  svc_Meta :: "string \<rightharpoonup> string"

datatype consul_error =
    InvalidCellSpec
  | InvalidCellBounds
  | EndpointHostPort addr_error
  | InvalidEndpointPort
  | NilService
  | MetaMissing string
  | MetaInvalid string
  | EmptyServiceId
  | EmptyLogicalCellId
  | AgentError string
  | NilEntry

definition cellSpecToAgentRegistration :: "(f64 \<Rightarrow> string) \<Rightarrow> CellSpec option \<Rightarrow>
    consul_error + AgentServiceRegistration" where
  "cellSpecToAgentRegistration FormatFloat ospec =
     (case ospec of
        None \<Rightarrow> Inl InvalidCellSpec
      | Some spec \<Rightarrow>
          (if cs_Id spec = [] then Inl InvalidCellSpec
           else case cs_Bounds spec of
             None \<Rightarrow> Inl InvalidCellSpec
           | Some b \<Rightarrow>
               if fle (XMax b) (XMin b) \<or> fle (ZMax b) (ZMin b) then Inl InvalidCellBounds
               else (case SplitHostPort (cs_GrpcEndpoint spec) of
                  Inl e \<Rightarrow> Inl (EndpointHostPort e)
                | Inr (host, portStr) \<Rightarrow>
                    (case Atoi portStr of
                       None \<Rightarrow> Inl InvalidEndpointPort
                     | Some port \<Rightarrow>
                         if port < 1 then Inl InvalidEndpointPort
                         else Inr \<lparr>reg_ID = cs_Id spec, reg_Name = ServiceNameMMOCell,
                                   reg_Address = host, reg_Port = port,
                                   reg_Meta = [MetaCellLogicalID \<mapsto> cs_Id spec,
                                               MetaLevel \<mapsto> Itoa (cs_Level spec),
                                               MetaXMin \<mapsto> FormatFloat (XMin b),
                                               MetaXMax \<mapsto> FormatFloat (XMax b),
                                               MetaZMin \<mapsto> FormatFloat (ZMin b),
                                               MetaZMax \<mapsto> FormatFloat (ZMax b),
                                               MetaStatus \<mapsto> ''active'']\<rparr>))))"

definition metaFloat64 :: "(string \<Rightarrow> f64 option) \<Rightarrow> (string \<rightharpoonup> string) \<Rightarrow> string \<Rightarrow> consul_error + f64" where
  "metaFloat64 ParseFloat meta key =
     (case meta key of
        None \<Rightarrow> Inl (MetaMissing key)
      | Some s \<Rightarrow> (case ParseFloat s of None \<Rightarrow> Inl (MetaInvalid key) | Some v \<Rightarrow> Inr v))"

definition metaInt32 :: "(string \<rightharpoonup> string) \<Rightarrow> string \<Rightarrow> consul_error + int32" where
  "metaInt32 meta key =
     (case meta key of
        None \<Rightarrow> Inl (MetaMissing key)
      | Some s \<Rightarrow> (case ParseInt32 s of None \<Rightarrow> Inl (MetaInvalid key) | Some v \<Rightarrow> Inr v))"

definition metaToBounds :: "(string \<Rightarrow> f64 option) \<Rightarrow> (string \<rightharpoonup> string) \<Rightarrow> consul_error + Bounds" where
  "metaToBounds ParseFloat meta =
     (case metaFloat64 ParseFloat meta MetaXMin of
        Inl e \<Rightarrow> Inl e
      | Inr xmin \<Rightarrow>
     (case metaFloat64 ParseFloat meta MetaXMax of
        Inl e \<Rightarrow> Inl e
      | Inr xmax \<Rightarrow>
     (case metaFloat64 ParseFloat meta MetaZMin of
        Inl e \<Rightarrow> Inl e
      | Inr zmin \<Rightarrow>
     (case metaFloat64 ParseFloat meta MetaZMax of
        Inl e \<Rightarrow> Inl e
      | Inr zmax \<Rightarrow> Inr \<lparr>XMin = xmin, XMax = xmax, ZMin = zmin, ZMax = zmax\<rparr>))))"

text \<open>A missing key of a Go map reads as the empty string.\<close>

definition meta_get :: "(string \<rightharpoonup> string) \<Rightarrow> string \<Rightarrow> string" where
  "meta_get meta key = (case meta key of None \<Rightarrow> [] | Some s \<Rightarrow> s)"

definition agentServiceToCellSpec :: "(string \<Rightarrow> f64 option) \<Rightarrow> AgentService option \<Rightarrow>
    consul_error + CellSpec" where
  "agentServiceToCellSpec ParseFloat os =
     (case os of
        None \<Rightarrow> Inl NilService
      | Some s \<Rightarrow>
          (let endpoint = JoinHostPort (svc_Address s) (Itoa (svc_Port s))
           in case metaToBounds ParseFloat (svc_Meta s) of
                Inl e \<Rightarrow> Inl e
              | Inr bounds \<Rightarrow>
                  (case metaInt32 (svc_Meta s) MetaLevel of
                     Inl e \<Rightarrow> Inl e
                   | Inr level \<Rightarrow>
                       (let logical = TrimSpace (meta_get (svc_Meta s) MetaCellLogicalID)
                        in Inr \<lparr>cs_Id = (if logical = [] then svc_ID s else logical),
                                cs_Level = level, cs_Bounds = Some bounds,
                                cs_GrpcEndpoint = endpoint\<rparr>))))"

section \<open>The catalog\<close>

text \<open>
  The calls of the Consul client. An error is its text; a call that changes the agent returns the
  new agent state. A health row is nil or carries a service or nil.
\<close>

record 'a consul_client =
  ServiceRegister :: "AgentServiceRegistration \<Rightarrow> 'a \<Rightarrow> string option \<times> 'a"
  ServiceDeregister :: "string \<Rightarrow> 'a \<Rightarrow> string option \<times> 'a"
  HealthService :: "string \<Rightarrow> bool \<Rightarrow> 'a \<Rightarrow> string + AgentService option option list"

definition ConsulServiceInstanceID :: "string \<Rightarrow> string \<Rightarrow> string" where
  "ConsulServiceInstanceID hostname logicalCellID =
     (if logicalCellID = [] then []
      else let h = TrimSpace hostname in if h \<noteq> [] then logicalCellID @ ''-'' @ h else logicalCellID)"

definition ConsulCatalog_RegisterCell :: "(f64 \<Rightarrow> string) \<Rightarrow> string \<Rightarrow> 'a consul_client \<Rightarrow>
    CellSpec option \<Rightarrow> 'a \<Rightarrow> consul_error option \<times> 'a" where
  "ConsulCatalog_RegisterCell FormatFloat hostname client ospec a =
     (case cellSpecToAgentRegistration FormatFloat ospec of
        Inl e \<Rightarrow> (Some e, a)
      | Inr reg \<Rightarrow>
          (let (err, a') = ServiceRegister client
                 (reg\<lparr>reg_ID := ConsulServiceInstanceID hostname (cs_Id (the ospec))\<rparr>) a
           in (map_option AgentError err, a')))"

text \<open>\<open>strings.Contains(strings.ToLower(text), "unknown service id")\<close> on the bytes of the text.\<close>

definition to_lower :: "char \<Rightarrow> char" where
  "to_lower c = (let n = (of_char c :: nat) in if 65 \<le> n \<and> n \<le> 90 then char_of (n + 32) else c)"

definition isConsulUnknownServiceID :: "string option \<Rightarrow> bool" where
  "isConsulUnknownServiceID err =
     (case err of None \<Rightarrow> False | Some t \<Rightarrow> sublist ''unknown service id'' (map to_lower t))"

definition ConsulCatalog_Deregister :: "'a consul_client \<Rightarrow> string \<Rightarrow> 'a \<Rightarrow> consul_error option \<times> 'a" where
  "ConsulCatalog_Deregister client serviceID a =
     (if serviceID = [] then (Some EmptyServiceId, a)
      else let (err, a') = ServiceDeregister client serviceID a
           in if isConsulUnknownServiceID err then (None, a') else (map_option AgentError err, a'))"

definition row_matches :: "string \<Rightarrow> AgentService \<Rightarrow> bool" where
  "row_matches logicalCellID s \<longleftrightarrow>
     (let svcID = TrimSpace (svc_ID s);
          meta = TrimSpace (meta_get (svc_Meta s) MetaCellLogicalID);
          metaID = (if meta = [] then svcID else meta)
      in metaID = logicalCellID \<or> svcID = logicalCellID)"

fun deregister_rows :: "'a consul_client \<Rightarrow> string \<Rightarrow> string option \<Rightarrow> nat \<Rightarrow>
    AgentService option option list \<Rightarrow> 'a \<Rightarrow> string option \<times> nat \<times> 'a" where
  "deregister_rows client lid firstErr removed [] a = (firstErr, removed, a)"
| "deregister_rows client lid firstErr removed (row # rows) a =
     (case row of
        Some (Some s) \<Rightarrow>
          if \<not> row_matches lid s then deregister_rows client lid firstErr removed rows a
          else (case ServiceDeregister client (TrimSpace (svc_ID s)) a of
                  (None, a') \<Rightarrow> deregister_rows client lid firstErr (removed + 1) rows a'
                | (Some derr, a') \<Rightarrow>
                    if isConsulUnknownServiceID (Some derr)
                    then deregister_rows client lid firstErr (removed + 1) rows a'
                    else deregister_rows client lid
                           (if firstErr = None then Some derr else firstErr) removed rows a')
      | _ \<Rightarrow> deregister_rows client lid firstErr removed rows a)"

definition ConsulCatalog_DeregisterLogicalCell :: "'a consul_client \<Rightarrow> string \<Rightarrow> 'a \<Rightarrow>
    consul_error option \<times> 'a" where
  "ConsulCatalog_DeregisterLogicalCell client lid0 a =
     (let lid = TrimSpace lid0
      in if lid = [] then (Some EmptyLogicalCellId, a)
         else case HealthService client ServiceNameMMOCell False a of
                Inl err \<Rightarrow> (Some (AgentError err), a)
              | Inr rows \<Rightarrow>
                  (case deregister_rows client lid None 0 rows a of
                     (firstErr, removed, a') \<Rightarrow>
                       if removed = 0 \<and> firstErr = None then
                         (case ServiceDeregister client lid a' of
                            (None, a'') \<Rightarrow> (None, a'')
                          | (Some derr, a'') \<Rightarrow>
                              if isConsulUnknownServiceID (Some derr) then (None, a'')
                              else (Some (AgentError derr), a''))
                       else (map_option AgentError firstErr, a')))"

fun list_entries :: "(string \<Rightarrow> f64 option) \<Rightarrow> AgentService option option list \<Rightarrow>
    consul_error + CellSpec option list" where
  "list_entries ParseFloat [] = Inr []"
| "list_entries ParseFloat (e # es) =
     (case e of
        None \<Rightarrow> Inl NilEntry
      | Some None \<Rightarrow> list_entries ParseFloat es
      | Some (Some s) \<Rightarrow>
          (case agentServiceToCellSpec ParseFloat (Some s) of
             Inl _ \<Rightarrow> list_entries ParseFloat es
           | Inr spec \<Rightarrow>
               (case list_entries ParseFloat es of Inl p \<Rightarrow> Inl p | Inr out \<Rightarrow> Inr (Some spec # out))))"

definition ConsulCatalog_List :: "(string \<Rightarrow> f64 option) \<Rightarrow> 'a consul_client \<Rightarrow> 'a \<Rightarrow>
    consul_error + CellSpec option list" where
  "ConsulCatalog_List ParseFloat client a =
     (case HealthService client ServiceNameMMOCell True a of
        Inl err \<Rightarrow> Inl (AgentError err)
      | Inr entries \<Rightarrow> list_entries ParseFloat entries)"

definition ConsulCatalog_ResolveMostSpecific :: "(string \<Rightarrow> f64 option) \<Rightarrow> 'a consul_client \<Rightarrow> 'a \<Rightarrow>
    f64 \<Rightarrow> f64 \<Rightarrow> consul_error + (CellSpec option \<times> bool)" where
  "ConsulCatalog_ResolveMostSpecific ParseFloat client a x z =
     (case ConsulCatalog_List ParseFloat client a of
        Inl err \<Rightarrow> Inl err
      | Inr cs \<Rightarrow> Inr (PickBestCell cs x z))"

section \<open>Printing and parsing integers\<close>

lemma digits_val_append:
  "digits_val acc (xs @ ys) = (case digits_val acc xs of None \<Rightarrow> None | Some n \<Rightarrow> digits_val n ys)"
  by (induction xs arbitrary: acc) (auto split: option.splits)

lemma digits_val_itoa: "digits_val 0 (itoa_nat n) = Some n"
proof (induction n rule: itoa_nat.induct)
  case (1 n)
  show ?case
  proof (cases "n < 10")
    case True
    then show ?thesis by (simp add: itoa_nat.simps digit_val_digit_char)
  next
    case False
    then show ?thesis
      using 1 by (subst itoa_nat.simps) (simp add: digits_val_append digit_val_digit_char)
  qed
qed

lemma digit_char_neq: "d < 10 \<Longrightarrow> digit_char d \<noteq> CHR ''-'' \<and> digit_char d \<noteq> CHR ''+''"
proof -
  assume d: "d < 10"
  have "digit_val (CHR ''-'') = None" "digit_val (CHR ''+'') = None"
    by (simp_all add: digit_val_def)
  then show ?thesis
    using digit_val_digit_char[OF d] by (metis option.distinct(1))
qed

lemma itoa_nat_Cons: "\<exists>c cs. itoa_nat n = c # cs \<and> c \<noteq> CHR ''-'' \<and> c \<noteq> CHR ''+''"
proof (induction n rule: itoa_nat.induct)
  case (1 n)
  then show ?case
    using digit_char_neq[of n] by (cases "n < 10") (auto simp: itoa_nat.simps[of n])
qed

lemma Atoi_Itoa [go_simps]: "int_in_range k \<Longrightarrow> Atoi (Itoa k) = Some k"
  using itoa_nat_Cons[of "nat k"] itoa_nat_Cons[of "nat (- k)"] digits_val_itoa[of "nat k"]
    digits_val_itoa[of "nat (- k)"]
  by (auto simp: Atoi_def Itoa_def)

lemma ParseInt32_Itoa: "is_int32 k \<Longrightarrow> ParseInt32 (Itoa k) = Some k"
  by (simp add: ParseInt32_def Atoi_Itoa int_in_range_def is_int32_def)

section \<open>The mapping round trip\<close>

text \<open>What Consul serves for a registration: its fields, under the instance's identifier.\<close>

definition service_of :: "AgentServiceRegistration \<Rightarrow> AgentService" where
  "service_of reg = \<lparr>svc_ID = reg_ID reg, svc_Address = reg_Address reg, svc_Port = reg_Port reg,
     svc_Meta = reg_Meta reg\<rparr>"

lemma Atoi_in_range: "Atoi s = Some k \<Longrightarrow> int_in_range k"
  by (auto simp: Atoi_def Let_def split: if_splits option.splits prod.splits)

lemma registration_cases:
  assumes "cellSpecToAgentRegistration FormatFloat (Some spec) = Inr reg"
  obtains b host portStr port where "cs_Id spec \<noteq> []" "cs_Bounds spec = Some b" "proper_bounds b"
    "SplitHostPort (cs_GrpcEndpoint spec) = Inr (host, portStr)" "Atoi portStr = Some port" "1 \<le> port"
    "reg_ID reg = cs_Id spec" "reg_Address reg = host" "reg_Port reg = port"
    "reg_Meta reg = [MetaCellLogicalID \<mapsto> cs_Id spec, MetaLevel \<mapsto> Itoa (cs_Level spec),
       MetaXMin \<mapsto> FormatFloat (XMin b), MetaXMax \<mapsto> FormatFloat (XMax b),
       MetaZMin \<mapsto> FormatFloat (ZMin b), MetaZMax \<mapsto> FormatFloat (ZMax b), MetaStatus \<mapsto> ''active'']"
  using assms
  by (auto simp: cellSpecToAgentRegistration_def proper_bounds_def not_less
      split: option.splits sum.splits prod.splits if_splits)

text \<open>
  C6: The mapping to Consul loses nothing. A cell that \<open>cellSpecToAgentRegistration\<close> accepts comes
  back from \<open>agentServiceToCellSpec\<close> with its name (trimmed), level and bounds, and the endpoint
  re-joined from its host and numeric port, whatever instance identifier the service runs under;
  provided \<open>ParseFloat\<close> reads back what \<open>FormatFloat\<close> prints, as package \<open>strconv\<close> documents for
  precision -1.
\<close>

theorem consul_mapping_round_trip:
  assumes "cs_Bounds spec = Some b"
    and strconv: "\<And>v. v \<in> {XMin b, XMax b, ZMin b, ZMax b} \<Longrightarrow> ParseFloat (FormatFloat v) = Some v"
    and "is_int32 (cs_Level spec)" "TrimSpace (cs_Id spec) \<noteq> []"
    and "cellSpecToAgentRegistration FormatFloat (Some spec) = Inr reg"
  shows "\<exists>host portStr port. SplitHostPort (cs_GrpcEndpoint spec) = Inr (host, portStr) \<and>
    Atoi portStr = Some port \<and>
    agentServiceToCellSpec ParseFloat (Some (service_of (reg\<lparr>reg_ID := ConsulServiceInstanceID h (cs_Id spec)\<rparr>))) =
      Inr \<lparr>cs_Id = TrimSpace (cs_Id spec), cs_Level = cs_Level spec, cs_Bounds = cs_Bounds spec,
           cs_GrpcEndpoint = JoinHostPort host (Itoa port)\<rparr>"
  by (rule registration_cases[OF assms(5)])
    (use assms(1,3,4) in \<open>auto simp: agentServiceToCellSpec_def service_of_def metaToBounds_def metaFloat64_def
      metaInt32_def meta_get_def strconv ParseInt32_Itoa\<close>)

abbreviation sample_cell :: CellSpec where
  "sample_cell \<equiv> \<lparr>cs_Id = ''cell_root'', cs_Level = 0, cs_Bounds = Some world_bounds, cs_GrpcEndpoint = ''h:80''\<rparr>"

text \<open>Whole numbers, printed and read in decimal.\<close>

definition format_whole :: "f64 \<Rightarrow> string" where
  "format_whole v = (case v of Fin q \<Rightarrow> Itoa \<lfloor>q\<rfloor> | _ \<Rightarrow> ''NaN'')"

definition parse_whole :: "string \<Rightarrow> f64 option" where
  "parse_whole s = map_option (\<lambda>k. Fin (of_int k)) (Atoi s)"

lemma parse_format_whole: "int_in_range k \<Longrightarrow> parse_whole (format_whole (Fin (of_int k))) = Some (Fin (of_int k))"
  by (simp add: parse_whole_def format_whole_def Atoi_Itoa)

lemma parse_format_1000:
  "v \<in> {Fin (-1000), Fin 1000} \<Longrightarrow> parse_whole (format_whole v) = Some v"
  using parse_format_whole[of "-1000"] parse_format_whole[of 1000] by (auto simp: int_in_range_def)

theorem consul_mapping_round_trip_witness:
  "\<exists>reg. cellSpecToAgentRegistration format_whole (Some sample_cell) = Inr reg \<and>
     agentServiceToCellSpec parse_whole
       (Some (service_of (reg\<lparr>reg_ID := ConsulServiceInstanceID ''pod'' ''cell_root''\<rparr>))) = Inr sample_cell"
proof -
  have ep: "SplitHostPort ''h:80'' = Inr (''h'', ''80'')" "Atoi ''80'' = Some 80"
    "JoinHostPort ''h'' (Itoa 80) = ''h:80''"
    by (simp_all add: SplitHostPort_def last_colon_def Atoi_def digit_val_def int_in_range_def
        JoinHostPort_def Itoa_def itoa_nat.simps digit_char_def char_of_def bit_0 upt_rec)
  have t: "TrimSpace ''cell_root'' = ''cell_root''"
    using TrimSpace_trimmed[OF trimmed_path_id[of "[]"]] by (simp add: path_id_def)
  obtain reg where reg: "cellSpecToAgentRegistration format_whole (Some sample_cell) = Inr reg"
    by (simp add: cellSpecToAgentRegistration_def ep)
  have "\<exists>host portStr port. SplitHostPort (cs_GrpcEndpoint sample_cell) = Inr (host, portStr) \<and> Atoi portStr = Some port \<and>
      agentServiceToCellSpec parse_whole
        (Some (service_of (reg\<lparr>reg_ID := ConsulServiceInstanceID ''pod'' (cs_Id sample_cell)\<rparr>))) =
      Inr \<lparr>cs_Id = TrimSpace (cs_Id sample_cell), cs_Level = cs_Level sample_cell,
           cs_Bounds = cs_Bounds sample_cell, cs_GrpcEndpoint = JoinHostPort host (Itoa port)\<rparr>"
    by (rule consul_mapping_round_trip[where b = world_bounds, OF _ _ _ _ reg])
      (use parse_format_1000 in \<open>auto simp: t is_int32_def\<close>)
  then show ?thesis
    using reg by (intro exI[of _ reg] conjI) (auto simp: ep t)
qed

section \<open>Deregistering every instance of a cell\<close>

lemma deregister_rows_removes:
  assumes dereg_ok: "\<And>i a a'. ServiceDeregister client i a = (None, a') \<Longrightarrow> svcs a' = {s \<in> svcs a. svc_ID s \<noteq> i}"
    and dereg_err: "\<And>i e a a'. ServiceDeregister client i a = (Some e, a') \<Longrightarrow>
      svcs a' = svcs a \<and> (isConsulUnknownServiceID (Some e) \<longrightarrow> (\<forall>s \<in> svcs a. svc_ID s \<noteq> i))"
  shows "deregister_rows client lid fe n rows a = (None, n', a') \<Longrightarrow>
    fe = None \<and> n \<le> n' \<and> (n' = n \<longrightarrow> (\<forall>r. Some (Some r) \<in> set rows \<longrightarrow> \<not> row_matches lid r)) \<and>
    svcs a' = {s \<in> svcs a. \<forall>r. Some (Some r) \<in> set rows \<longrightarrow> row_matches lid r \<longrightarrow> svc_ID s \<noteq> TrimSpace (svc_ID r)}"
proof (induction rows arbitrary: fe n a)
  case (Cons row rows)
  show ?case
  proof (cases "\<exists>r. row = Some (Some r) \<and> row_matches lid r")
    case False
    then have "deregister_rows client lid fe n rows a = (None, n', a')"
      using Cons.prems by (auto split: option.splits)
    from Cons.IH[OF this] False show ?thesis by auto
  next
    case True
    then obtain r where r: "row = Some (Some r)" "row_matches lid r" by blast
    obtain err a1 where d: "ServiceDeregister client (TrimSpace (svc_ID r)) a = (err, a1)"
      by fastforce
    have u: "isConsulUnknownServiceID err" if "err \<noteq> None"
    proof (rule ccontr)
      assume "\<not> isConsulUnknownServiceID err"
      then have "deregister_rows client lid (if fe = None then err else fe) n rows a1 = (None, n', a')"
        using Cons.prems r d that by auto
      from Cons.IH[OF this] that show False by (simp split: if_splits)
    qed
    have go: "deregister_rows client lid fe (n + 1) rows a1 = (None, n', a')"
      using Cons.prems r d u by (cases err) auto
    have s1: "svcs a1 = {s \<in> svcs a. svc_ID s \<noteq> TrimSpace (svc_ID r)}"
      using d u dereg_ok[of _ a a1] dereg_err[of _ a _ a1] by (cases err) auto
    from Cons.IH[OF go] s1 r show ?thesis by auto
  qed
qed simp

text \<open>
  \<open>DeregisterLogicalCell\<close> removes every instance of the cell and nothing else. When it reports
  no error, the services left are exactly those that do not carry the logical name, neither in
  their metadata nor as their identifier. The hypotheses are Consul's documented behaviour: a
  deregistration removes the service with that identifier, a failed one changes nothing, "unknown
  service id" is reported only for an identifier that is not registered, the health endpoint lists
  the registered services, and identifiers are unique (and carry no surrounding space).
\<close>

theorem consul_deregister_logical_cell:
  assumes dereg_ok: "\<And>i a a'. ServiceDeregister client i a = (None, a') \<Longrightarrow> svcs a' = {s \<in> svcs a. svc_ID s \<noteq> i}"
    and dereg_err: "\<And>i e a a'. ServiceDeregister client i a = (Some e, a') \<Longrightarrow>
      svcs a' = svcs a \<and> (isConsulUnknownServiceID (Some e) \<longrightarrow> (\<forall>s \<in> svcs a. svc_ID s \<noteq> i))"
    and health: "\<And>rows. HealthService client ServiceNameMMOCell False a = Inr rows \<Longrightarrow>
      {s. Some (Some s) \<in> set rows} = svcs a"
    and ids: "inj_on svc_ID (svcs a)" "\<forall>s \<in> svcs a. trimmed (svc_ID s)"
    and run: "ConsulCatalog_DeregisterLogicalCell client lid a = (None, a')"
  shows "svcs a' = {s \<in> svcs a. \<not> row_matches (TrimSpace lid) s}"
proof -
  let ?l = "TrimSpace lid"
  from run obtain rows firstErr n a1 where h: "HealthService client ServiceNameMMOCell False a = Inr rows"
    and l: "deregister_rows client ?l None 0 rows a = (firstErr, n, a1)"
    and fin: "firstErr = None" "n \<noteq> 0 \<longrightarrow> a' = a1"
      "n = 0 \<longrightarrow> (\<exists>err. ServiceDeregister client ?l a1 = (err, a') \<and> (err \<noteq> None \<longrightarrow> isConsulUnknownServiceID err))"
    by (auto simp: ConsulCatalog_DeregisterLogicalCell_def Let_def
        split: if_splits sum.splits prod.splits option.splits)
  note L = deregister_rows_removes[where svcs = svcs, OF dereg_ok dereg_err l[unfolded fin(1)]]
  have rows: "Some (Some s) \<in> set rows \<longleftrightarrow> s \<in> svcs a" for s
    using health[OF h] by auto
  have a1: "svcs a1 = {s \<in> svcs a. \<not> row_matches ?l s}"
  proof -
    have "svc_ID s \<noteq> TrimSpace (svc_ID r)"
      if "s \<in> svcs a" "r \<in> svcs a" "row_matches ?l r" "\<not> row_matches ?l s" for r s
      using inj_onD[OF ids(1), of s r] that ids(2) by (auto simp: TrimSpace_trimmed)
    then show ?thesis
      using L ids(2) by (auto simp: rows TrimSpace_trimmed)
  qed
  show ?thesis
  proof (cases "n = 0")
    case False
    then show ?thesis using fin(2) a1 by simp
  next
    case True
    then obtain err where e: "ServiceDeregister client ?l a1 = (err, a')"
        "err \<noteq> None \<longrightarrow> isConsulUnknownServiceID err"
      using fin(3) by blast
    have "svc_ID s \<noteq> ?l" if "s \<in> svcs a" for s
      using L True that ids(2) by (auto simp: rows row_matches_def Let_def TrimSpace_trimmed)
    then show ?thesis
      using a1 e dereg_ok[of ?l a1 a'] dereg_err[of ?l a1 _ a'] by (cases err) auto
  qed
qed

text \<open>An agent whose state is the list of its services.\<close>

definition list_agent :: "AgentService list consul_client" where
  "list_agent = \<lparr>
     ServiceRegister = (\<lambda>reg a. (None, service_of reg # filter (\<lambda>s. svc_ID s \<noteq> reg_ID reg) a)),
     ServiceDeregister = (\<lambda>i a. if \<forall>s \<in> set a. svc_ID s \<noteq> i then (Some ''unknown service id'', a)
                               else (None, filter (\<lambda>s. svc_ID s \<noteq> i) a)),
     HealthService = (\<lambda>_ _ a. Inr (map (Some \<circ> Some) a))\<rparr>"

abbreviation sample_service :: "string \<Rightarrow> string \<Rightarrow> AgentService" where
  "sample_service i c \<equiv> \<lparr>svc_ID = i, svc_Address = ''h'', svc_Port = 80, svc_Meta = [MetaCellLogicalID \<mapsto> c]\<rparr>"

theorem consul_deregister_logical_cell_witness:
  "\<exists>a'. ConsulCatalog_DeregisterLogicalCell list_agent ''c''
       [sample_service ''c-1'' ''c'', sample_service ''d'' ''d''] = (None, a') \<and>
     set a' = {s \<in> set [sample_service ''c-1'' ''c'', sample_service ''d'' ''d'']. \<not> row_matches ''c'' s}"
proof -
  let ?a = "[sample_service ''c-1'' ''c'', sample_service ''d'' ''d'']"
  have t: "trimmed ''c''" "trimmed ''d''" "trimmed ''c-1''"
    by (simp_all add: trimmedI ascii_graph_def)
  have run: "ConsulCatalog_DeregisterLogicalCell list_agent ''c'' ?a = (None, [sample_service ''d'' ''d''])"
    by (simp add: ConsulCatalog_DeregisterLogicalCell_def list_agent_def row_matches_def meta_get_def
        TrimSpace_trimmed t)
  have "set [sample_service ''d'' ''d''] = {s \<in> set ?a. \<not> row_matches (TrimSpace ''c'') s}"
    by (rule consul_deregister_logical_cell[where client = list_agent and svcs = set, OF _ _ _ _ _ run])
      (auto simp: list_agent_def t split: if_splits)
  then show ?thesis
    using run unfolding TrimSpace_trimmed[OF t(1)] by blast
qed

end
