(* ===== verification/ECS_World.thy ===== *)
theory ECS_World
  imports Float64
begin

text \<open>
  Package \<open>ecs\<close>, the container of entities and components (\<open>src/internal/ecs/entity.go\<close>,
  \<open>component.go\<close>, \<open>world.go\<close>, \<open>query.go\<close>). Entities are 64-bit words, component tables are partial
  functions, and an operation that ranges over the live entities takes the order of the visit.
  The six component tables share one contract, the locale \<open>component_store\<close>.
\<close>

section \<open>Entities and components\<close>

type_synonym Entity = "64 word"

record Position =
  PX :: f64
  PY :: f64
  PZ :: f64

record Velocity =
  VX :: f64
  VY :: f64
  VZ :: f64

record Health =
  HP :: f64
  MaxHP :: f64

record Collider =
  col_HalfX :: f64
  col_HalfY :: f64
  col_HalfZ :: f64

record TriggerZone =
  zone_ID :: string
  zone_HalfX :: f64
  zone_HalfY :: f64
  zone_HalfZ :: f64

record TriggerSensor =
  sen_HalfX :: f64
  sen_HalfY :: f64
  sen_HalfZ :: f64

record World =
  nextID :: Entity
  alive :: "Entity set"
  positions :: "Entity \<rightharpoonup> Position"
  velocities :: "Entity \<rightharpoonup> Velocity"
  healths :: "Entity \<rightharpoonup> Health"
  colliders :: "Entity \<rightharpoonup> Collider"
  triggerZones :: "Entity \<rightharpoonup> TriggerZone"
  triggerSensors :: "Entity \<rightharpoonup> TriggerSensor"
  dirty :: "Entity set"

definition zero_velocity :: Velocity where
  "zero_velocity = \<lparr>VX = Fin 0, VY = Fin 0, VZ = Fin 0\<rparr>"

section \<open>Operations\<close>

definition NewWorld :: World where
  "NewWorld = \<lparr>nextID = 0, alive = {}, positions = Map.empty, velocities = Map.empty,
     healths = Map.empty, colliders = Map.empty, triggerZones = Map.empty,
     triggerSensors = Map.empty, dirty = {}\<rparr>"

definition CreateEntity :: "World \<Rightarrow> Entity \<times> World" where
  "CreateEntity w =
     (let w1 = w\<lparr>nextID := nextID w + 1\<rparr>; e = nextID w1
      in (e, w1\<lparr>alive := insert e (alive w1)\<rparr>))"

definition DestroyEntity :: "Entity \<Rightarrow> World \<Rightarrow> World" where
  "DestroyEntity e w =
     w\<lparr>alive := alive w - {e}, positions := (positions w)(e := None),
       velocities := (velocities w)(e := None), healths := (healths w)(e := None),
       colliders := (colliders w)(e := None), triggerZones := (triggerZones w)(e := None),
       triggerSensors := (triggerSensors w)(e := None), dirty := dirty w - {e}\<rparr>"

definition markDirty :: "Entity \<Rightarrow> World \<Rightarrow> World" where
  "markDirty e w = w\<lparr>dirty := insert e (dirty w)\<rparr>"

definition SetPosition :: "Entity \<Rightarrow> Position \<Rightarrow> World \<Rightarrow> World" where
  "SetPosition e p w = markDirty e (w\<lparr>positions := (positions w)(e \<mapsto> p)\<rparr>)"

definition RemovePosition :: "Entity \<Rightarrow> World \<Rightarrow> World" where
  "RemovePosition e w = w\<lparr>positions := (positions w)(e := None), dirty := dirty w - {e}\<rparr>"

definition SetVelocity :: "Entity \<Rightarrow> Velocity \<Rightarrow> World \<Rightarrow> World" where
  "SetVelocity e v w = w\<lparr>velocities := (velocities w)(e \<mapsto> v)\<rparr>"

definition RemoveVelocity :: "Entity \<Rightarrow> World \<Rightarrow> World" where
  "RemoveVelocity e w = w\<lparr>velocities := (velocities w)(e := None)\<rparr>"

definition SetHealth :: "Entity \<Rightarrow> Health \<Rightarrow> World \<Rightarrow> World" where
  "SetHealth e h w = markDirty e (w\<lparr>healths := (healths w)(e \<mapsto> h)\<rparr>)"

definition RemoveHealth :: "Entity \<Rightarrow> World \<Rightarrow> World" where
  "RemoveHealth e w = w\<lparr>healths := (healths w)(e := None), dirty := dirty w - {e}\<rparr>"

definition SetCollider :: "Entity \<Rightarrow> Collider \<Rightarrow> World \<Rightarrow> World" where
  "SetCollider e c w = w\<lparr>colliders := (colliders w)(e \<mapsto> c)\<rparr>"

definition RemoveCollider :: "Entity \<Rightarrow> World \<Rightarrow> World" where
  "RemoveCollider e w = w\<lparr>colliders := (colliders w)(e := None)\<rparr>"

definition SetTriggerZone :: "Entity \<Rightarrow> TriggerZone \<Rightarrow> World \<Rightarrow> World" where
  "SetTriggerZone e z w = w\<lparr>triggerZones := (triggerZones w)(e \<mapsto> z)\<rparr>"

definition RemoveTriggerZone :: "Entity \<Rightarrow> World \<Rightarrow> World" where
  "RemoveTriggerZone e w = w\<lparr>triggerZones := (triggerZones w)(e := None)\<rparr>"

definition SetTriggerSensor :: "Entity \<Rightarrow> TriggerSensor \<Rightarrow> World \<Rightarrow> World" where
  "SetTriggerSensor e s w = w\<lparr>triggerSensors := (triggerSensors w)(e \<mapsto> s)\<rparr>"

definition RemoveTriggerSensor :: "Entity \<Rightarrow> World \<Rightarrow> World" where
  "RemoveTriggerSensor e w = w\<lparr>triggerSensors := (triggerSensors w)(e := None)\<rparr>"

text \<open>\<open>order\<close> is the order in which the loop visits the dirty set.\<close>

definition TakeDirtyEntities :: "Entity list \<Rightarrow> World \<Rightarrow> Entity list \<times> World" where
  "TakeDirtyEntities order w = (if dirty w = {} then ([], w) else (order, w\<lparr>dirty := {}\<rparr>))"

definition EntityCount :: "World \<Rightarrow> nat" where
  "EntityCount w = card (alive w)"

definition RestorePersistEntity :: "Entity \<Rightarrow> Position \<Rightarrow> Velocity \<Rightarrow> Health \<Rightarrow> bool \<Rightarrow> World \<Rightarrow> World" where
  "RestorePersistEntity i pos vel h hasHealth w =
     (let w1 = w\<lparr>alive := insert i (alive w), positions := (positions w)(i \<mapsto> pos),
                velocities := (velocities w)(i \<mapsto> vel),
                healths := (if hasHealth then (healths w)(i \<mapsto> h) else (healths w)(i := None))\<rparr>
      in if nextID w1 \<le> i then w1\<lparr>nextID := i + 1\<rparr> else w1)"

section \<open>Visits and queries\<close>

text \<open>Each visit calls the function for the live entities with the components, in the given order.\<close>

definition visit2 :: "(World \<Rightarrow> Entity \<Rightarrow> 'a option) \<Rightarrow> (World \<Rightarrow> Entity \<Rightarrow> 'b option) \<Rightarrow>
    (Entity \<Rightarrow> 'a \<Rightarrow> 'b \<Rightarrow> World \<Rightarrow> World) \<Rightarrow> Entity list \<Rightarrow> World \<Rightarrow> World" where
  "visit2 getA getB fn order w =
     fold (\<lambda>e w. case (getA w e, getB w e) of (Some a, Some b) \<Rightarrow> fn e a b w | _ \<Rightarrow> w) order w"

definition VisitMovement :: "(Entity \<Rightarrow> Position \<Rightarrow> Velocity \<Rightarrow> World \<Rightarrow> World) \<Rightarrow> Entity list \<Rightarrow> World \<Rightarrow> World" where
  "VisitMovement = visit2 positions velocities"

definition VisitHealth :: "(Entity \<Rightarrow> Health \<Rightarrow> World \<Rightarrow> World) \<Rightarrow> Entity list \<Rightarrow> World \<Rightarrow> World" where
  "VisitHealth fn order w =
     fold (\<lambda>e w. case healths w e of Some h \<Rightarrow> fn e h w | None \<Rightarrow> w) order w"

definition VisitCollidable :: "(Entity \<Rightarrow> Position \<Rightarrow> Collider \<Rightarrow> World \<Rightarrow> World) \<Rightarrow> Entity list \<Rightarrow> World \<Rightarrow> World" where
  "VisitCollidable = visit2 positions colliders"

definition VisitTriggerZones :: "(Entity \<Rightarrow> Position \<Rightarrow> TriggerZone \<Rightarrow> World \<Rightarrow> World) \<Rightarrow> Entity list \<Rightarrow> World \<Rightarrow> World" where
  "VisitTriggerZones = visit2 positions triggerZones"

definition VisitTriggerSensors :: "(Entity \<Rightarrow> Position \<Rightarrow> TriggerSensor \<Rightarrow> World \<Rightarrow> World) \<Rightarrow> Entity list \<Rightarrow> World \<Rightarrow> World" where
  "VisitTriggerSensors = visit2 positions triggerSensors"

definition QueryMovement :: "Entity list \<Rightarrow> World \<Rightarrow> Entity list" where
  "QueryMovement order w = filter (\<lambda>e. positions w e \<noteq> None \<and> velocities w e \<noteq> None) order"

definition QueryHealth :: "Entity list \<Rightarrow> World \<Rightarrow> Entity list" where
  "QueryHealth order w = filter (\<lambda>e. healths w e \<noteq> None) order"

definition QueryCollidable :: "Entity list \<Rightarrow> World \<Rightarrow> Entity list" where
  "QueryCollidable order w = filter (\<lambda>e. positions w e \<noteq> None \<and> colliders w e \<noteq> None) order"

definition QueryTriggerZones :: "Entity list \<Rightarrow> World \<Rightarrow> Entity list" where
  "QueryTriggerZones order w = filter (\<lambda>e. positions w e \<noteq> None \<and> triggerZones w e \<noteq> None) order"

definition QueryTriggerSensors :: "Entity list \<Rightarrow> World \<Rightarrow> Entity list" where
  "QueryTriggerSensors order w = filter (\<lambda>e. positions w e \<noteq> None \<and> triggerSensors w e \<noteq> None) order"

lemmas world_defs =
  SetPosition_def RemovePosition_def SetVelocity_def RemoveVelocity_def SetHealth_def RemoveHealth_def
  SetCollider_def RemoveCollider_def SetTriggerZone_def RemoveTriggerZone_def SetTriggerSensor_def
  RemoveTriggerSensor_def markDirty_def DestroyEntity_def CreateEntity_def

section \<open>The contract of a component table\<close>

text \<open>
  A table is read with \<open>get\<close>, written with \<open>put\<close> and cleared with \<open>rem\<close>; \<open>view\<close> is the rest of the
  world, which the table's operations leave alone. A visit that rewrites each visited entry from
  its old value and the view acts on every entry independently of the order.
\<close>

locale component_store =
  fixes get :: "World \<Rightarrow> Entity \<Rightarrow> 'c option"
    and put :: "Entity \<Rightarrow> 'c \<Rightarrow> World \<Rightarrow> World"
    and rem :: "Entity \<Rightarrow> World \<Rightarrow> World"
    and view :: "World \<Rightarrow> 'v"
  assumes get_put: "get (put e c w) d = (if d = e then Some c else get w d)"
    and get_rem: "get (rem e w) d = (if d = e then None else get w d)"
    and view_put: "view (put e c w) = view w"
    and view_rem: "view (rem e w) = view w"
begin

definition rewrite :: "('v \<Rightarrow> Entity \<Rightarrow> 'c \<Rightarrow> 'c option) \<Rightarrow> Entity list \<Rightarrow> World \<Rightarrow> World" where
  "rewrite f order w =
     fold (\<lambda>e w. case get w e of
                   None \<Rightarrow> w
                 | Some c \<Rightarrow> (case f (view w) e c of None \<Rightarrow> w | Some c' \<Rightarrow> put e c' w)) order w"

lemma view_rewrite: "view (rewrite f order w) = view w"
  unfolding rewrite_def by (induction order arbitrary: w) (auto simp: view_put split: option.splits)

lemma get_rewrite:
  "distinct order \<Longrightarrow> get (rewrite f order w) d =
     (case get w d of
        None \<Rightarrow> None
      | Some c \<Rightarrow> (if d \<in> set order then (case f (view w) d c of None \<Rightarrow> Some c | Some c' \<Rightarrow> Some c') else Some c))"
  unfolding rewrite_def
  by (induction order arbitrary: w) (auto simp: get_put view_put split: option.splits)

end

interpretation pos: component_store positions SetPosition RemovePosition
  "\<lambda>w. (nextID w, alive w, velocities w, healths w, colliders w, triggerZones w, triggerSensors w)"
  by unfold_locales (simp_all add: world_defs)

interpretation vel: component_store velocities SetVelocity RemoveVelocity
  "\<lambda>w. (nextID w, alive w, positions w, healths w, colliders w, triggerZones w, triggerSensors w)"
  by unfold_locales (simp_all add: world_defs)

interpretation hp: component_store healths SetHealth RemoveHealth
  "\<lambda>w. (nextID w, alive w, positions w, velocities w, colliders w, triggerZones w, triggerSensors w)"
  by unfold_locales (simp_all add: world_defs)

interpretation col: component_store colliders SetCollider RemoveCollider
  "\<lambda>w. (nextID w, alive w, positions w, velocities w, healths w, triggerZones w, triggerSensors w)"
  by unfold_locales (simp_all add: world_defs)

interpretation zone: component_store triggerZones SetTriggerZone RemoveTriggerZone
  "\<lambda>w. (nextID w, alive w, positions w, velocities w, healths w, colliders w, triggerSensors w)"
  by unfold_locales (simp_all add: world_defs)

interpretation sensor: component_store triggerSensors SetTriggerSensor RemoveTriggerSensor
  "\<lambda>w. (nextID w, alive w, positions w, velocities w, healths w, colliders w, triggerZones w)"
  by unfold_locales (simp_all add: world_defs)

section \<open>The invariant of a world\<close>

text \<open>
  Entity 0 is never alive, no live entity is above the counter, components and dirty marks belong
  to live entities, and there are finitely many of them.
\<close>

definition owned :: "World \<Rightarrow> Entity set" where
  "owned w = dom (positions w) \<union> dom (velocities w) \<union> dom (healths w) \<union> dom (colliders w) \<union>
     dom (triggerZones w) \<union> dom (triggerSensors w) \<union> dirty w"

definition world_inv :: "World \<Rightarrow> bool" where
  "world_inv w \<longleftrightarrow>
     finite (alive w) \<and> 0 \<notin> alive w \<and> (\<forall>e \<in> alive w. e \<le> nextID w) \<and> owned w \<subseteq> alive w"

lemma owned_setters:
  "owned (SetPosition e p w) = insert e (owned w)" "owned (SetVelocity e v w) = insert e (owned w)"
  "owned (SetHealth e h w) = insert e (owned w)" "owned (SetCollider e c w) = insert e (owned w)"
  "owned (SetTriggerZone e z w) = insert e (owned w)" "owned (SetTriggerSensor e s w) = insert e (owned w)"
  by (auto simp: owned_def world_defs)

lemma owned_removers:
  "owned (RemovePosition e w) \<subseteq> owned w" "owned (RemoveVelocity e w) \<subseteq> owned w"
  "owned (RemoveHealth e w) \<subseteq> owned w" "owned (RemoveCollider e w) \<subseteq> owned w"
  "owned (RemoveTriggerZone e w) \<subseteq> owned w" "owned (RemoveTriggerSensor e w) \<subseteq> owned w"
  by (auto simp: owned_def world_defs split: if_splits)

lemma owned_Destroy: "owned (DestroyEntity e w) = owned w - {e}"
  by (auto simp: owned_def DestroyEntity_def)

lemma owned_Create: "CreateEntity w = (e, w') \<Longrightarrow> owned w' = owned w"
  by (auto simp: owned_def CreateEntity_def Let_def)

lemma owned_TakeDirty: "owned (snd (TakeDirtyEntities order w)) \<subseteq> owned w"
  by (auto simp: owned_def TakeDirtyEntities_def)

lemma owned_Restore: "owned (RestorePersistEntity i p v h b w) \<subseteq> insert i (owned w)"
  by (auto simp: owned_def RestorePersistEntity_def Let_def split: if_splits)

lemma frame_setters [world_simps]:
  "alive (SetPosition e p w) = alive w" "alive (SetVelocity e v w) = alive w"
  "alive (SetHealth e h w) = alive w" "alive (SetCollider e c w) = alive w"
  "alive (SetTriggerZone e z w) = alive w" "alive (SetTriggerSensor e s w) = alive w"
  "nextID (SetPosition e p w) = nextID w" "nextID (SetVelocity e v w) = nextID w"
  "nextID (SetHealth e h w) = nextID w" "nextID (SetCollider e c w) = nextID w"
  "nextID (SetTriggerZone e z w) = nextID w" "nextID (SetTriggerSensor e s w) = nextID w"
  by (simp_all add: SetPosition_def SetVelocity_def SetHealth_def SetCollider_def SetTriggerZone_def
      SetTriggerSensor_def markDirty_def)

lemma frame_removers [world_simps]:
  "alive (RemovePosition e w) = alive w" "alive (RemoveVelocity e w) = alive w"
  "alive (RemoveHealth e w) = alive w" "alive (RemoveCollider e w) = alive w"
  "alive (RemoveTriggerZone e w) = alive w" "alive (RemoveTriggerSensor e w) = alive w"
  "nextID (RemovePosition e w) = nextID w" "nextID (RemoveVelocity e w) = nextID w"
  "nextID (RemoveHealth e w) = nextID w" "nextID (RemoveCollider e w) = nextID w"
  "nextID (RemoveTriggerZone e w) = nextID w" "nextID (RemoveTriggerSensor e w) = nextID w"
  by (simp_all add: RemovePosition_def RemoveVelocity_def RemoveHealth_def RemoveCollider_def
      RemoveTriggerZone_def RemoveTriggerSensor_def)

lemma frame_others [world_simps]:
  "alive (DestroyEntity e w) = alive w - {e}" "nextID (DestroyEntity e w) = nextID w"
  "alive (snd (TakeDirtyEntities order w)) = alive w" "nextID (snd (TakeDirtyEntities order w)) = nextID w"
  "alive (RestorePersistEntity i p v h b w) = insert i (alive w)"
  "nextID (RestorePersistEntity i p v h b w) = (if nextID w \<le> i then i + 1 else nextID w)"
  by (simp_all add: DestroyEntity_def TakeDirtyEntities_def RestorePersistEntity_def Let_def)

lemma world_inv_New: "world_inv NewWorld"
  by (simp add: world_inv_def owned_def NewWorld_def)

text \<open>The counter can still be incremented without wrapping.\<close>

definition room :: "World \<Rightarrow> bool" where
  "room w \<longleftrightarrow> nextID w < - 1"

lemma room_Suc: "room w \<Longrightarrow> e \<le> nextID w \<Longrightarrow> e < nextID w + 1"
proof -
  assume r: "room w" and e: "e \<le> nextID w"
  have "1 + nextID w \<noteq> 0"
    using r by (metis add.inverse_inverse add_eq_0_iff less_irrefl room_def)
  then have "unat (nextID w + 1) = Suc (unat (nextID w))"
    using unatSuc[of "nextID w"] by (simp add: add.commute)
  then show ?thesis
    using e by (simp add: word_less_nat_alt word_le_nat_alt)
qed

lemma room_Suc_neq_0: "room w \<Longrightarrow> nextID w + 1 \<noteq> 0"
  using room_Suc[of w "nextID w"] by auto

lemma world_inv_Create:
  assumes "world_inv w" "room w" "CreateEntity w = (e, w')"
  shows "world_inv w'" "e \<notin> alive w" "e = nextID w + 1" "e \<noteq> 0" "alive w' = insert e (alive w)" "nextID w' = e"
proof -
  show e: "e = nextID w + 1" "alive w' = insert e (alive w)" "nextID w' = e"
    using assms(3) by (auto simp: CreateEntity_def Let_def)
  show "e \<noteq> 0" using room_Suc_neq_0[OF assms(2)] e by simp
  show "e \<notin> alive w"
    using room_Suc[OF assms(2)] assms(1) e by (auto simp: world_inv_def)
  have "d \<le> e" if "d \<in> alive w" for d
    using room_Suc[OF assms(2), of d] assms(1) that e by (simp add: world_inv_def less_imp_le)
  with \<open>e \<noteq> 0\<close> show "world_inv w'"
    using assms(1) e(2,3) owned_Create[OF assms(3)] by (auto simp: world_inv_def)
qed

lemma world_inv_Destroy: "world_inv w \<Longrightarrow> world_inv (DestroyEntity e w)"
  by (auto simp: world_inv_def owned_Destroy world_simps)

lemma world_inv_Set:
  assumes "world_inv w" "e \<in> alive w"
  shows "world_inv (SetPosition e p w)" "world_inv (SetVelocity e v w)" "world_inv (SetHealth e h w)"
    "world_inv (SetCollider e c w)" "world_inv (SetTriggerZone e z w)" "world_inv (SetTriggerSensor e s w)"
  using assms by (simp_all add: world_inv_def owned_setters world_simps)

lemma world_inv_Remove:
  assumes "world_inv w"
  shows "world_inv (RemovePosition e w)" "world_inv (RemoveVelocity e w)" "world_inv (RemoveHealth e w)"
    "world_inv (RemoveCollider e w)" "world_inv (RemoveTriggerZone e w)" "world_inv (RemoveTriggerSensor e w)"
  using assms order.trans[OF owned_removers(1)] order.trans[OF owned_removers(2)]
    order.trans[OF owned_removers(3)] order.trans[OF owned_removers(4)]
    order.trans[OF owned_removers(5)] order.trans[OF owned_removers(6)]
  by (simp_all add: world_inv_def world_simps)

lemma world_inv_TakeDirty: "world_inv w \<Longrightarrow> world_inv (snd (TakeDirtyEntities order w))"
  using order.trans[OF owned_TakeDirty] by (simp add: world_inv_def world_simps)

lemma world_inv_Restore:
  assumes "world_inv w" "i \<noteq> 0" "i < - 1"
  shows "world_inv (RestorePersistEntity i pos v h b w)"
proof -
  have i: "i < i + 1"
    using room_Suc[of "w\<lparr>nextID := i\<rparr>" i] assms(3) by (simp add: room_def)
  have "d \<le> i + 1" if "nextID w \<le> i" "d \<in> alive w" for d
    using assms(1) that i by (fastforce simp: world_inv_def)
  with assms i show ?thesis
    using owned_Restore[of i pos v h b w] by (auto simp: world_inv_def world_simps)
qed

section \<open>Runs of a world\<close>

text \<open>
  The operations on a world as steps. A label \<open>Some e\<close> is a \<open>CreateEntity\<close> that returned \<open>e\<close>.
  Setters are called for live entities, and identifiers stay below the last word.
\<close>

inductive world_step :: "World \<Rightarrow> Entity option \<Rightarrow> World \<Rightarrow> bool" where
  create: "room w \<Longrightarrow> CreateEntity w = (e, w') \<Longrightarrow> world_step w (Some e) w'"
| destroy: "world_step w None (DestroyEntity e w)"
| set_pos: "e \<in> alive w \<Longrightarrow> world_step w None (SetPosition e p w)"
| set_vel: "e \<in> alive w \<Longrightarrow> world_step w None (SetVelocity e v w)"
| set_hp: "e \<in> alive w \<Longrightarrow> world_step w None (SetHealth e h w)"
| set_col: "e \<in> alive w \<Longrightarrow> world_step w None (SetCollider e c w)"
| set_zone: "e \<in> alive w \<Longrightarrow> world_step w None (SetTriggerZone e z w)"
| set_sensor: "e \<in> alive w \<Longrightarrow> world_step w None (SetTriggerSensor e s w)"
| rem_pos: "world_step w None (RemovePosition e w)"
| rem_vel: "world_step w None (RemoveVelocity e w)"
| rem_hp: "world_step w None (RemoveHealth e w)"
| take_dirty: "world_step w None (snd (TakeDirtyEntities order w))"
| restore: "i \<noteq> 0 \<Longrightarrow> i < - 1 \<Longrightarrow> world_step w None (RestorePersistEntity i p v h b w)"

inductive world_run :: "World \<Rightarrow> Entity list \<Rightarrow> World \<Rightarrow> bool" where
  nil: "world_run w [] w"
| silent: "world_step w None w' \<Longrightarrow> world_run w' es w'' \<Longrightarrow> world_run w es w''"
| created: "world_step w (Some e) w' \<Longrightarrow> world_run w' es w'' \<Longrightarrow> world_run w (e # es) w''"

inductive_cases world_step_SomeE: "world_step w (Some e) w'"
inductive_cases world_step_NoneE: "world_step w None w'"

lemma world_step_inv: "world_step w l w' \<Longrightarrow> world_inv w \<Longrightarrow> world_inv w'"
proof (induction rule: world_step.induct)
  case (create w e w')
  then show ?case by (metis world_inv_Create(1))
qed (simp_all add: world_inv_Destroy world_inv_Set world_inv_Remove world_inv_TakeDirty world_inv_Restore)

lemma nextID_Restore: "nextID w \<le> nextID (RestorePersistEntity i p v h b w)" if "i < - 1"
  using room_Suc[of "w\<lparr>nextID := i\<rparr>" "nextID w"] that
  by (auto simp: world_simps room_def less_imp_le)

lemma world_step_None_nextID: "world_step w None w' \<Longrightarrow> nextID w \<le> nextID w'"
  by (induction w "None :: Entity option" w' rule: world_step.induct)
    (simp_all add: world_simps nextID_Restore del: frame_others(6))

lemma world_run_above:
  "world_run w es w' \<Longrightarrow> nextID w \<le> nextID w' \<and> sorted_wrt (<) es \<and> (\<forall>e \<in> set es. nextID w < e)"
proof (induction rule: world_run.induct)
  case (silent w w' es w'')
  then show ?case using world_step_None_nextID[of w w'] by fastforce
next
  case (created w e w' es w'')
  then have "e = nextID w + 1" "nextID w' = e" "nextID w < e"
    using room_Suc[of w "nextID w"] by (auto simp: CreateEntity_def Let_def elim!: world_step_SomeE)
  with created show ?case by fastforce
qed simp

lemma world_run_inv: "world_run w es w' \<Longrightarrow> world_inv w \<Longrightarrow> world_inv w'"
  by (induction rule: world_run.induct) (blast intro: world_step_inv)+

text \<open>
  Entity identifiers are never reused. In every run of world operations, destruction and
  restoring of persisted entities included, the identifiers \<open>CreateEntity\<close> returns strictly
  increase, none of them was alive at the start or is 0, and the world stays well-formed: components
  and dirty marks belong to live entities only.
\<close>

theorem world_run_fresh:
  assumes "world_inv w" "world_run w es w'"
  shows "sorted_wrt (<) es \<and> distinct es \<and> set es \<inter> insert 0 (alive w) = {} \<and> world_inv w'"
proof -
  note r = world_run_above[OF assms(2)]
  have "e \<notin> insert 0 (alive w)" if "e \<in> set es" for e
    using r that assms(1) by (fastforce simp: world_inv_def)
  then show ?thesis
    using r world_run_inv[OF assms(2,1)] strict_sorted_iff[of es] by auto
qed

lemma small_entity: "(0::Entity) < - 1" "(1::Entity) < - 1"
  by (transfer, simp add: take_bit_minus_one_eq_mask mask_eq_exp_minus_1)+

theorem world_run_fresh_witness:
  "\<exists>w'. world_run NewWorld [1, 2] w' \<and> world_inv w' \<and> alive w' = {2}"
proof -
  let ?w1 = "snd (CreateEntity NewWorld)"
  let ?w2 = "DestroyEntity 1 ?w1"
  let ?w3 = "snd (CreateEntity ?w2)"
  have c: "CreateEntity NewWorld = (1, ?w1)" "CreateEntity ?w2 = (2, ?w3)"
    by (simp_all add: CreateEntity_def NewWorld_def DestroyEntity_def Let_def)
  have "world_run NewWorld [1, 2] ?w3"
    by (rule world_run.created[OF world_step.create[OF _ c(1)] world_run.silent[OF world_step.destroy[of _ 1]
          world_run.created[OF world_step.create[OF _ c(2)] world_run.nil]]])
      (simp_all add: room_def NewWorld_def CreateEntity_def DestroyEntity_def Let_def small_entity)
  moreover have "alive ?w3 = {2}"
    by (simp add: CreateEntity_def NewWorld_def DestroyEntity_def Let_def)
  ultimately show ?thesis
    using world_run_fresh[OF world_inv_New] by blast
qed

end
