(* ===== verification/ECS_Systems.thy ===== *)
theory ECS_Systems
  imports ECS_World
begin

text \<open>
  Package \<open>ecs\<close>, the systems that advance a world by one step
  (\<open>src/internal/ecs/movement.go\<close>, \<open>health_regen.go\<close>, \<open>collision.go\<close>, \<open>trigger.go\<close>). A system
  takes the orders in which it visits the live entities. Products and sums are rounded one by
  one (no fused multiply-add).
\<close>

section \<open>Movement\<close>

definition move :: "f64 \<Rightarrow> Position \<Rightarrow> Velocity \<Rightarrow> Position" where
  "move dt p v = \<lparr>PX = fadd (PX p) (fmul (VX v) dt), PY = fadd (PY p) (fmul (VY v) dt),
                  PZ = fadd (PZ p) (fmul (VZ v) dt)\<rparr>"

definition MovementSystem_Update :: "Entity list \<Rightarrow> f64 \<Rightarrow> World \<Rightarrow> World" where
  "MovementSystem_Update order dt w =
     VisitMovement (\<lambda>e p v. SetPosition e (move dt p v)) order w"

section \<open>Health regeneration\<close>

definition regen :: "f64 \<Rightarrow> f64 \<Rightarrow> Health \<Rightarrow> Health option" where
  "regen rate dt h =
     (if fle (MaxHP h) (HP h) then None
      else let hp = fadd (HP h) (fmul rate dt)
           in Some (h\<lparr>HP := if flt (MaxHP h) hp then MaxHP h else hp\<rparr>))"

definition HealthRegenSystem_Update :: "f64 \<Rightarrow> Entity list \<Rightarrow> f64 \<Rightarrow> World \<Rightarrow> World" where
  "HealthRegenSystem_Update RegenPerSec order dt w =
     (if fle RegenPerSec (Fin 0) then w
      else VisitHealth (\<lambda>e h w. case regen RegenPerSec dt h of None \<Rightarrow> w | Some h' \<Rightarrow> SetHealth e h' w) order w)"

section \<open>Collisions\<close>

definition zeroVelocityXOnImpact :: "Entity \<Rightarrow> Entity \<Rightarrow> World \<Rightarrow> World" where
  "zeroVelocityXOnImpact a b w =
     (let va = velocities w a; vb = velocities w b;
          w1 = (case va of None \<Rightarrow> w | Some v \<Rightarrow> SetVelocity a (v\<lparr>VX := Fin 0\<rparr>) w)
      in case vb of None \<Rightarrow> w1 | Some v \<Rightarrow> SetVelocity b (v\<lparr>VX := Fin 0\<rparr>) w1)"

definition zeroVelocityZOnImpact :: "Entity \<Rightarrow> Entity \<Rightarrow> World \<Rightarrow> World" where
  "zeroVelocityZOnImpact a b w =
     (let va = velocities w a; vb = velocities w b;
          w1 = (case va of None \<Rightarrow> w | Some v \<Rightarrow> SetVelocity a (v\<lparr>VZ := Fin 0\<rparr>) w)
      in case vb of None \<Rightarrow> w1 | Some v \<Rightarrow> SetVelocity b (v\<lparr>VZ := Fin 0\<rparr>) w1)"

definition push_dir :: "f64 \<Rightarrow> Entity \<Rightarrow> Entity \<Rightarrow> f64" where
  "push_dir d a b = (if flt d (Fin 0) then Fin (-1) else if feq d (Fin 0) \<and> b < a then Fin (-1) else Fin 1)"

definition overlap :: "f64 \<Rightarrow> f64 \<Rightarrow> f64 \<Rightarrow> f64" where
  "overlap ha hb d = fsub (fadd ha hb) (fabs d)"

text \<open>One turn of the inner loop: \<open>pa\<close> is the loop's copy of the position of \<open>a\<close>.\<close>

definition collide_pair :: "Entity \<Rightarrow> Collider \<Rightarrow> Entity \<Rightarrow> Position \<times> World \<Rightarrow> Position \<times> World" where
  "collide_pair a ca b st =
     (let (pa, w) = st in
      case (positions w b, colliders w b) of
        (Some pb, Some cb) \<Rightarrow>
          (let dx = fsub (PX pb) (PX pa);
               dz = fsub (PZ pb) (PZ pa);
               overlapX = overlap (col_HalfX ca) (col_HalfX cb) dx;
               overlapZ = overlap (col_HalfZ ca) (col_HalfZ cb) dz
           in if fle overlapX (Fin 0) \<or> fle overlapZ (Fin 0) then (pa, w)
              else if fle overlapX overlapZ then
                (let dir = push_dir dx a b;
                     shift = fmul overlapX (Fin (1 / 2));
                     pa' = pa\<lparr>PX := fsub (PX pa) (fmul dir shift)\<rparr>;
                     pb' = pb\<lparr>PX := fadd (PX pb) (fmul dir shift)\<rparr>
                 in (pa', zeroVelocityXOnImpact a b (SetPosition b pb' (SetPosition a pa' w))))
              else
                (let dir = push_dir dz a b;
                     shift = fmul overlapZ (Fin (1 / 2));
                     pa' = pa\<lparr>PZ := fsub (PZ pa) (fmul dir shift)\<rparr>;
                     pb' = pb\<lparr>PZ := fadd (PZ pb) (fmul dir shift)\<rparr>
                 in (pa', zeroVelocityZOnImpact a b (SetPosition b pb' (SetPosition a pa' w)))))
      | _ \<Rightarrow> (pa, w))"

fun collide_rows :: "Entity list \<Rightarrow> World \<Rightarrow> World" where
  "collide_rows [] w = w"
| "collide_rows (a # bs) w =
     (case (positions w a, colliders w a) of
        (Some pa, Some ca) \<Rightarrow> collide_rows bs (snd (fold (collide_pair a ca) bs (pa, w)))
      | _ \<Rightarrow> collide_rows bs w)"

definition PhysicsCollisionSystem_Update :: "Entity list \<Rightarrow> World \<Rightarrow> World" where
  "PhysicsCollisionSystem_Update order w = collide_rows (QueryCollidable order w) w"

section \<open>Triggers\<close>

datatype TriggerEventType = TriggerEnter | TriggerExit

record TriggerEvent =
  ev_Type :: TriggerEventType
  ev_Zone :: Entity
  ev_ZoneID :: string
  ev_Sensor :: Entity

record TriggerSystem =
  active :: "(Entity \<times> Entity) set"
  events :: "TriggerEvent list"

definition NewTriggerSystem :: TriggerSystem where
  "NewTriggerSystem = \<lparr>active = {}, events = []\<rparr>"

definition overlapsAABB :: "Position \<Rightarrow> f64 \<Rightarrow> f64 \<Rightarrow> f64 \<Rightarrow> Position \<Rightarrow> f64 \<Rightarrow> f64 \<Rightarrow> f64 \<Rightarrow> bool" where
  "overlapsAABB aPos aHalfX aHalfY aHalfZ bPos bHalfX bHalfY bHalfZ \<longleftrightarrow>
     fle (fabs (fsub (PX aPos) (PX bPos))) (fadd aHalfX bHalfX) \<and>
     fle (fabs (fsub (PY aPos) (PY bPos))) (fadd aHalfY bHalfY) \<and>
     fle (fabs (fsub (PZ aPos) (PZ bPos))) (fadd aHalfZ bHalfZ)"

text \<open>The body of the two nested loops; the state is \<open>current\<close> and the events.\<close>

definition check_pair :: "(Entity \<times> Entity) set \<Rightarrow> World \<Rightarrow> Entity \<Rightarrow> Entity \<Rightarrow>
    (Entity \<times> Entity) set \<times> TriggerEvent list \<Rightarrow> (Entity \<times> Entity) set \<times> TriggerEvent list" where
  "check_pair was w zEnt sEnt st =
     (let (current, evs) = st in
      case (positions w zEnt, triggerZones w zEnt, positions w sEnt, triggerSensors w sEnt) of
        (Some zPos, Some z, Some sPos, Some s) \<Rightarrow>
          if overlapsAABB zPos (zone_HalfX z) (zone_HalfY z) (zone_HalfZ z)
               sPos (sen_HalfX s) (sen_HalfY s) (sen_HalfZ s)
          then (insert (zEnt, sEnt) current,
                if (zEnt, sEnt) \<notin> was
                then evs @ [\<lparr>ev_Type = TriggerEnter, ev_Zone = zEnt, ev_ZoneID = zone_ID z, ev_Sensor = sEnt\<rparr>]
                else evs)
          else (current, evs)
      | _ \<Rightarrow> (current, evs))"

definition exit_event :: "World \<Rightarrow> Entity \<times> Entity \<Rightarrow> TriggerEvent" where
  "exit_event w pair =
     \<lparr>ev_Type = TriggerExit, ev_Zone = fst pair,
      ev_ZoneID = (case triggerZones w (fst pair) of None \<Rightarrow> [] | Some z \<Rightarrow> zone_ID z),
      ev_Sensor = snd pair\<rparr>"

text \<open>
  \<open>zorder\<close> and \<open>sorder\<close> are the visits of the two queries, \<open>porder\<close> the visit of \<open>s.active\<close>.
\<close>

definition TriggerSystem_Update :: "Entity list \<Rightarrow> Entity list \<Rightarrow> (Entity \<times> Entity) list \<Rightarrow> World \<Rightarrow>
    TriggerSystem \<Rightarrow> TriggerSystem" where
  "TriggerSystem_Update zorder sorder porder w s =
     (let zones = QueryTriggerZones zorder w;
          sensors = QueryTriggerSensors sorder w;
          (current, evs) = fold (\<lambda>z. fold (check_pair (active s) w z) sensors) zones ({}, events s)
      in \<lparr>active = current,
          events = evs @ map (exit_event w) (filter (\<lambda>p. p \<notin> current) porder)\<rparr>)"

definition DrainEvents :: "TriggerSystem \<Rightarrow> TriggerEvent list \<times> TriggerSystem" where
  "DrainEvents s = (if events s = [] then ([], s) else (events s, s\<lparr>events := []\<rparr>))"

section \<open>Movement and regeneration act pointwise\<close>

lemma MovementSystem_rewrite:
  "MovementSystem_Update order dt w =
     pos.rewrite (\<lambda>(_, _, vs, _) e p. map_option (move dt p) (vs e)) order w"
  unfolding MovementSystem_Update_def VisitMovement_def visit2_def pos.rewrite_def
  by (rule fold_cong) (auto split: option.splits)

lemma HealthRegenSystem_rewrite:
  "\<not> fle r (Fin 0) \<Longrightarrow> HealthRegenSystem_Update r order dt w = hp.rewrite (\<lambda>_ _. regen r dt) order w"
  unfolding HealthRegenSystem_Update_def VisitHealth_def hp.rewrite_def
  by (auto intro!: fold_cong split: option.splits)

lemma dirty_movement:
  "dirty (pos.rewrite f order w) = dirty w \<union> {e \<in> set order. \<exists>p. positions w e = Some p \<and>
     f (nextID w, alive w, velocities w, healths w, colliders w, triggerZones w, triggerSensors w) e p \<noteq> None}"
  if "distinct order"
  using that
proof (induction order arbitrary: w)
  case (Cons e order)
  then show ?case
    unfolding pos.rewrite_def by (auto simp: world_defs split: option.splits if_splits)
qed (simp add: pos.rewrite_def)

lemma alive_owns: "world_inv w \<Longrightarrow> positions w e = Some p \<Longrightarrow> e \<in> alive w"
  by (auto simp: world_inv_def owned_def)

lemma alive_owns_hp: "world_inv w \<Longrightarrow> healths w e = Some h \<Longrightarrow> e \<in> alive w"
  by (auto simp: world_inv_def owned_def)

text \<open>
  One step of \<open>MovementSystem\<close> moves every entity that has a position and a velocity by its
  velocity times \<open>dt\<close>, each from the position it had before the step, marks exactly those dirty and
  changes nothing else, in whatever order the map is visited.
\<close>

theorem MovementSystem_pointwise:
  assumes "world_inv w" "visits order (alive w)"
  shows "MovementSystem_Update order dt w =
    w\<lparr>positions := (\<lambda>e. case (positions w e, velocities w e) of
         (Some p, Some v) \<Rightarrow> Some (move dt p v) | _ \<Rightarrow> positions w e),
      dirty := dirty w \<union> (dom (positions w) \<inter> dom (velocities w))\<rparr>"
proof -
  let ?f = "\<lambda>(_ :: Entity, _ :: Entity set, vs, _ :: (Entity \<rightharpoonup> Health) \<times> (Entity \<rightharpoonup> Collider) \<times>
    (Entity \<rightharpoonup> TriggerZone) \<times> (Entity \<rightharpoonup> TriggerSensor)) e p. map_option (move dt p) (vs e)"
  let ?w = "pos.rewrite ?f order w"
  have "positions ?w e = (case (positions w e, velocities w e) of
       (Some p, Some v) \<Rightarrow> Some (move dt p v) | _ \<Rightarrow> positions w e)" for e
    using pos.get_rewrite[OF visits_distinct[OF assms(2)], of ?f w e] visits_set[OF assms(2)]
      alive_owns[OF assms(1), of e]
    by (auto split: option.splits)
  moreover have "dirty ?w = dirty w \<union> (dom (positions w) \<inter> dom (velocities w))"
    using dirty_movement[OF visits_distinct[OF assms(2)], of ?f w] visits_set[OF assms(2)] alive_owns[OF assms(1)]
    by auto
  ultimately show ?thesis
    using pos.view_rewrite[of ?f order w]
    by (intro World.equality) (auto simp: MovementSystem_rewrite)
qed

abbreviation sample_world :: World where
  "sample_world \<equiv> NewWorld\<lparr>nextID := 2, alive := {1, 2},
     positions := [1 \<mapsto> \<lparr>PX = Fin 1, PY = Fin 0, PZ = Fin 2\<rparr>],
     velocities := [1 \<mapsto> \<lparr>VX = Fin 2, VY = Fin 0, VZ = Fin (-4)\<rparr>],
     healths := [1 \<mapsto> \<lparr>HP = Fin 10, MaxHP = Fin 100\<rparr>, 2 \<mapsto> \<lparr>HP = Fin 5, MaxHP = Fin 5\<rparr>]\<rparr>"

lemma sample_world_inv: "world_inv sample_world" "visits [2, 1] (alive sample_world)"
  by (auto simp: world_inv_def owned_def NewWorld_def visits_def word_le_nat_alt)

theorem MovementSystem_pointwise_witness:
  "positions (MovementSystem_Update [2, 1] (Fin 1) sample_world) =
     [1 \<mapsto> \<lparr>PX = Fin 3, PY = Fin 0, PZ = Fin (-2)\<rparr>]"
  unfolding MovementSystem_pointwise[OF sample_world_inv]
  by (auto simp: NewWorld_def move_def fun_eq_iff)

lemma regen_bounds:
  assumes "is_f64 (HP h)" "is_fin (HP h)" "MaxHP h \<noteq> NaN" "fle (Fin 0) (fmul r dt)" "regen r dt h = Some h'"
  shows "MaxHP h' = MaxHP h \<and> fle (HP h) (HP h') \<and> fle (HP h') (MaxHP h)"
proof -
  let ?g = "fadd (HP h) (fmul r dt)"
  have g: "fle (HP h) ?g" using fadd_nonneg assms(1,2,4) by blast
  have "flt (HP h) (MaxHP h)"
    using assms(5) not_fle[OF assms(3), of "HP h"] is_fin_not_NaN[OF assms(2)]
    by (auto simp: regen_def split: if_splits)
  then show ?thesis
    using assms(3,5) g not_fle[of ?g "MaxHP h"] fle_not_NaN[OF g]
    by (auto simp: regen_def Let_def flt_fle split: if_splits)
qed

text \<open>
  \<open>HealthRegenSystem\<close> never takes a healthy entity's points away and never lifts them above
  the maximum. After a step every entity has the same maximum; an entity at or above its maximum
  is untouched, and one below it gains (rounding included) without passing the maximum. Components
  other than health and dirty marks are unchanged.
\<close>

theorem HealthRegenSystem_bounds:
  assumes "visits order (alive w)" "healths w e = Some h"
    and "is_f64 (HP h)" "is_fin (HP h)" "MaxHP h \<noteq> NaN" "fle (Fin 0) (fmul r dt)"
  shows "\<exists>h'. healths (HealthRegenSystem_Update r order dt w) e = Some h' \<and> MaxHP h' = MaxHP h \<and>
    (fle (MaxHP h) (HP h) \<longrightarrow> h' = h) \<and>
    (\<not> fle (MaxHP h) (HP h) \<longrightarrow> fle (HP h) (HP h') \<and> fle (HP h') (MaxHP h)) \<and>
    positions (HealthRegenSystem_Update r order dt w) = positions w \<and>
    velocities (HealthRegenSystem_Update r order dt w) = velocities w \<and>
    alive (HealthRegenSystem_Update r order dt w) = alive w"
proof (cases "fle r (Fin 0)")
  case True
  have "fle (HP h) (MaxHP h)" if "\<not> fle (MaxHP h) (HP h)"
    using that not_fle[OF assms(5) is_fin_not_NaN[OF assms(4)]] by (simp add: flt_fle)
  with True assms(2,4) show ?thesis
    by (auto simp: HealthRegenSystem_Update_def is_fin_not_NaN)
next
  case False
  let ?f = "\<lambda>_ :: Entity \<times> Entity set \<times> (Entity \<rightharpoonup> Position) \<times> (Entity \<rightharpoonup> Velocity) \<times> (Entity \<rightharpoonup> Collider) \<times>
    (Entity \<rightharpoonup> TriggerZone) \<times> (Entity \<rightharpoonup> TriggerSensor). \<lambda>_ :: Entity. regen r dt"
  have hp': "healths (HealthRegenSystem_Update r order dt w) e =
      (if e \<in> set order then (case regen r dt h of None \<Rightarrow> Some h | Some h' \<Rightarrow> Some h') else Some h)"
    using hp.get_rewrite[OF visits_distinct[OF assms(1)], of ?f w e] assms(2)
    by (simp add: HealthRegenSystem_rewrite[OF False] split: option.splits)
  have fr: "positions (HealthRegenSystem_Update r order dt w) = positions w"
    "velocities (HealthRegenSystem_Update r order dt w) = velocities w"
    "alive (HealthRegenSystem_Update r order dt w) = alive w"
    using hp.view_rewrite[of ?f order w] by (simp_all add: HealthRegenSystem_rewrite[OF False])
  have lt: "fle (HP h) (MaxHP h)" if "\<not> fle (MaxHP h) (HP h)"
    using that not_fle[OF assms(5) is_fin_not_NaN[OF assms(4)]] by (simp add: flt_fle)
  show ?thesis
  proof (cases "regen r dt h")
    case None
    then have "fle (MaxHP h) (HP h)" by (auto simp: regen_def Let_def split: if_splits)
    with None show ?thesis using hp' fr by auto
  next
    case (Some h')
    then have "\<not> fle (MaxHP h) (HP h)" by (auto simp: regen_def split: if_splits)
    with Some regen_bounds[OF assms(3-6) Some] lt show ?thesis
      using hp' fr is_fin_not_NaN[OF assms(4)] by auto
  qed
qed

theorem HealthRegenSystem_bounds_witness:
  "\<exists>h'. healths (HealthRegenSystem_Update (Fin 2) [2, 1] (Fin 1) sample_world) 1 = Some h' \<and>
     fle (Fin 10) (HP h') \<and> fle (HP h') (Fin 100)"
  using HealthRegenSystem_bounds[OF sample_world_inv(2), of 1 "\<lparr>HP = Fin 10, MaxHP = Fin 100\<rparr>" "Fin 2" "Fin 1"]
  by (auto simp: NewWorld_def is_f64_def rep64_def)

section \<open>Collisions leave separated worlds alone\<close>

text \<open>Two entities overlap when both penetration depths are positive.\<close>

definition colliding :: "World \<Rightarrow> Entity \<Rightarrow> Entity \<Rightarrow> bool" where
  "colliding w a b \<longleftrightarrow>
     (case (positions w a, colliders w a, positions w b, colliders w b) of
        (Some pa, Some ca, Some pb, Some cb) \<Rightarrow>
          \<not> fle (overlap (col_HalfX ca) (col_HalfX cb) (fsub (PX pb) (PX pa))) (Fin 0) \<and>
          \<not> fle (overlap (col_HalfZ ca) (col_HalfZ cb) (fsub (PZ pb) (PZ pa))) (Fin 0)
      | _ \<Rightarrow> False)"

lemma collide_pair_noop:
  "positions w a = Some pa \<Longrightarrow> colliders w a = Some ca \<Longrightarrow> \<not> colliding w a b \<Longrightarrow>
     collide_pair a ca b (pa, w) = (pa, w)"
  by (auto simp: collide_pair_def colliding_def Let_def split: option.splits)

lemma collide_row_noop:
  "positions w a = Some pa \<Longrightarrow> colliders w a = Some ca \<Longrightarrow> \<forall>b \<in> set bs. \<not> colliding w a b \<Longrightarrow>
     fold (collide_pair a ca) bs (pa, w) = (pa, w)"
  by (induction bs) (simp_all add: collide_pair_noop)

lemma collide_rows_noop:
  "distinct es \<Longrightarrow> \<forall>a \<in> set es. \<forall>b \<in> set es. a \<noteq> b \<longrightarrow> \<not> colliding w a b \<Longrightarrow> collide_rows es w = w"
proof (induction es)
  case (Cons a es)
  then have "\<forall>b \<in> set es. \<not> colliding w a b" by auto
  with Cons show ?case
    by (auto simp: collide_row_noop split: option.splits)
qed simp

text \<open>What one pair keeps: the live set, health, the vertical axis and who has a position.\<close>

definition collision_frame :: "World \<Rightarrow> World \<Rightarrow> bool" where
  "collision_frame w w' \<longleftrightarrow>
     nextID w' = nextID w \<and> alive w' = alive w \<and> healths w' = healths w \<and> colliders w' = colliders w \<and>
     triggerZones w' = triggerZones w \<and> triggerSensors w' = triggerSensors w \<and>
     (\<forall>e. map_option PY (positions w' e) = map_option PY (positions w e)) \<and>
     (\<forall>e. map_option VY (velocities w' e) = map_option VY (velocities w e))"

lemma collision_frame_refl [simp]: "collision_frame w w"
  by (simp add: collision_frame_def)

lemma collision_frame_trans: "collision_frame w w' \<Longrightarrow> collision_frame w' w'' \<Longrightarrow> collision_frame w w''"
  by (simp add: collision_frame_def)

lemma frame_SetPosition:
  "positions w e = Some q \<Longrightarrow> PY p = PY q \<Longrightarrow> collision_frame w (SetPosition e p w)"
  by (simp add: collision_frame_def world_defs)

lemma frame_zeroX: "collision_frame w (zeroVelocityXOnImpact a b w)"
  by (auto simp: collision_frame_def zeroVelocityXOnImpact_def world_defs split: option.splits)

lemma frame_zeroZ: "collision_frame w (zeroVelocityZOnImpact a b w)"
  by (auto simp: collision_frame_def zeroVelocityZOnImpact_def world_defs split: option.splits)

lemma positions_zero [simp]:
  "positions (zeroVelocityXOnImpact a b w) = positions w" "positions (zeroVelocityZOnImpact a b w) = positions w"
  by (auto simp: zeroVelocityXOnImpact_def zeroVelocityZOnImpact_def world_defs split: option.splits)

lemma frame_push:
  assumes "positions w a = Some pa" "positions w b = Some pb" "a \<noteq> b" "PY pa' = PY pa" "PY pb' = PY pb"
  shows "collision_frame w (SetPosition b pb' (SetPosition a pa' w))"
    "positions (SetPosition b pb' (SetPosition a pa' w)) a = Some pa'"
proof -
  have "collision_frame w (SetPosition a pa' w)"
    using assms by (simp add: frame_SetPosition)
  moreover have "collision_frame (SetPosition a pa' w) (SetPosition b pb' (SetPosition a pa' w))"
    using assms by (intro frame_SetPosition[of _ _ pb]) (simp_all add: world_defs)
  ultimately show "collision_frame w (SetPosition b pb' (SetPosition a pa' w))"
    by (rule collision_frame_trans)
  show "positions (SetPosition b pb' (SetPosition a pa' w)) a = Some pa'"
    using assms(3) by (simp add: world_defs)
qed

lemma collide_pair_frame:
  assumes "positions w a = Some pa" "a \<noteq> b" "collide_pair a ca b (pa, w) = (pa', w')"
  shows "collision_frame w w' \<and> positions w' a = Some pa'"
  using assms
  by (auto simp: collide_pair_def Let_def frame_push split: option.splits if_splits
      intro!: collision_frame_trans[OF frame_push(1) frame_zeroX] collision_frame_trans[OF frame_push(1) frame_zeroZ])

lemma collide_row_frame:
  "positions w a = Some pa \<Longrightarrow> a \<notin> set bs \<Longrightarrow> collision_frame w (snd (fold (collide_pair a ca) bs (pa, w)))"
proof (induction bs arbitrary: pa w)
  case (Cons b bs)
  obtain pa' w' where c: "collide_pair a ca b (pa, w) = (pa', w')" by fastforce
  with Cons show ?case
    using collide_pair_frame[OF Cons.prems(1) _ c] by (auto intro: collision_frame_trans)
qed simp

lemma collide_rows_frame: "distinct es \<Longrightarrow> collision_frame w (collide_rows es w)"
proof (induction es arbitrary: w)
  case (Cons a es)
  then show ?case
    using collide_row_frame[of w a _ es] by (auto intro: collision_frame_trans split: option.splits)
qed simp

text \<open>
  \<open>PhysicsCollisionSystem\<close> only pushes apart what overlaps. It never changes who is alive,
  health, colliders, the vertical coordinate or the vertical speed, and no entity gains or loses a
  position; when no two collidable entities penetrate each other it changes nothing at all.
\<close>

theorem PhysicsCollisionSystem_frame:
  assumes "visits order (alive w)"
  shows "collision_frame w (PhysicsCollisionSystem_Update order w) \<and>
    ((\<forall>a b. a \<in> alive w \<longrightarrow> b \<in> alive w \<longrightarrow> a \<noteq> b \<longrightarrow> \<not> colliding w a b) \<longrightarrow>
      PhysicsCollisionSystem_Update order w = w)"
  using visits_distinct[OF assms] visits_set[OF assms]
  by (auto simp: PhysicsCollisionSystem_Update_def QueryCollidable_def collide_rows_frame collide_rows_noop)

theorem PhysicsCollisionSystem_frame_witness:
  "PhysicsCollisionSystem_Update [2, 1] sample_world = sample_world"
  using PhysicsCollisionSystem_frame[OF sample_world_inv(2)]
  by (auto simp: NewWorld_def colliding_def)

section \<open>Trigger events alternate\<close>

text \<open>The pairs that overlap in a world.\<close>

definition touching :: "World \<Rightarrow> (Entity \<times> Entity) set" where
  "touching w = {(z, s). \<exists>zp zn sp sn. positions w z = Some zp \<and> triggerZones w z = Some zn \<and>
     positions w s = Some sp \<and> triggerSensors w s = Some sn \<and>
     overlapsAABB zp (zone_HalfX zn) (zone_HalfY zn) (zone_HalfZ zn)
       sp (sen_HalfX sn) (sen_HalfY sn) (sen_HalfZ sn)}"

definition pair_of :: "TriggerEvent \<Rightarrow> Entity \<times> Entity" where
  "pair_of e = (ev_Zone e, ev_Sensor e)"

text \<open>The event types one pair has produced, in order.\<close>

definition history :: "Entity \<times> Entity \<Rightarrow> TriggerEvent list \<Rightarrow> TriggerEventType list" where
  "history p evs = map ev_Type (filter (\<lambda>e. pair_of e = p) evs)"

lemma history_append [simp]: "history p (xs @ ys) = history p xs @ history p ys"
  by (simp add: history_def)

lemma check_pair_eq:
  "check_pair was w z s (cur, evs) =
     (if (z, s) \<in> touching w
      then (insert (z, s) cur, if (z, s) \<notin> was then evs @ [\<lparr>ev_Type = TriggerEnter, ev_Zone = z,
              ev_ZoneID = zone_ID (the (triggerZones w z)), ev_Sensor = s\<rparr>] else evs)
      else (cur, evs))"
  by (auto simp: check_pair_def touching_def split: option.splits)

lemma check_row:
  "distinct ss \<Longrightarrow> fold (check_pair was w z) ss (cur, evs) = (cur', evs') \<Longrightarrow>
     cur' = cur \<union> ({z} \<times> set ss \<inter> touching w) \<and>
     history p evs' = history p evs @
       (if p \<in> {z} \<times> set ss \<inter> touching w - was then [TriggerEnter] else [])"
proof (induction ss arbitrary: cur evs)
  case (Cons s ss)
  obtain cur1 evs1 where c: "check_pair was w z s (cur, evs) = (cur1, evs1)" by fastforce
  have "cur1 = cur \<union> ({(z, s)} \<inter> touching w)"
    "history p evs1 = history p evs @ (if p \<in> {(z, s)} \<inter> touching w - was then [TriggerEnter] else [])"
    using c by (auto simp: check_pair_eq history_def pair_of_def split: if_splits)
  with Cons.IH[of cur1 evs1] Cons.prems c show ?case
    by (auto split: if_splits)
qed simp

lemma check_rows:
  "distinct zs \<Longrightarrow> distinct ss \<Longrightarrow> fold (\<lambda>z. fold (check_pair was w z) ss) zs (cur, evs) = (cur', evs') \<Longrightarrow>
     cur' = cur \<union> (set zs \<times> set ss \<inter> touching w) \<and>
     history p evs' = history p evs @
       (if p \<in> set zs \<times> set ss \<inter> touching w - was then [TriggerEnter] else [])"
proof (induction zs arbitrary: cur evs)
  case (Cons z zs)
  obtain cur1 evs1 where c: "fold (check_pair was w z) ss (cur, evs) = (cur1, evs1)" by fastforce
  from check_row[OF Cons.prems(2) c, of p] Cons.IH[of cur1 evs1] Cons.prems c show ?case
    by (auto split: if_splits)
qed simp

lemma history_exits:
  "distinct ps \<Longrightarrow> history p (map (exit_event w) ps) = (if p \<in> set ps then [TriggerExit] else [])"
  by (induction ps) (auto simp: history_def exit_event_def pair_of_def)

lemma TriggerSystem_Update_effect:
  assumes "world_inv w" "visits zo (alive w)" "visits so (alive w)" "visits po (active s)"
  shows "active (TriggerSystem_Update zo so po w s) = touching w"
    "history p (events (TriggerSystem_Update zo so po w s)) = history p (events s) @
       (if p \<in> touching w - active s then [TriggerEnter]
        else if p \<in> active s - touching w then [TriggerExit] else [])"
proof -
  let ?zs = "QueryTriggerZones zo w" and ?ss = "QueryTriggerSensors so w"
  obtain cur evs where f: "fold (\<lambda>z. fold (check_pair (active s) w z) ?ss) ?zs ({}, events s) = (cur, evs)"
    by fastforce
  have d: "distinct ?zs" "distinct ?ss"
    using visits_distinct[OF assms(2)] visits_distinct[OF assms(3)]
    by (simp_all add: QueryTriggerZones_def QueryTriggerSensors_def)
  have t: "set ?zs \<times> set ?ss \<inter> touching w = touching w"
    using visits_set[OF assms(2)] visits_set[OF assms(3)] alive_owns[OF assms(1)]
    by (auto simp: QueryTriggerZones_def QueryTriggerSensors_def touching_def)
  note c = check_rows[OF d f, unfolded t]
  show "active (TriggerSystem_Update zo so po w s) = touching w"
    using c f by (simp add: TriggerSystem_Update_def)
  have "history p (map (exit_event w) (filter (\<lambda>p. p \<notin> touching w) po)) =
      (if p \<in> active s - touching w then [TriggerExit] else [])"
    using history_exits[of "filter (\<lambda>p. p \<notin> touching w) po" p w] visits_distinct[OF assms(4)]
      visits_set[OF assms(4)] by auto
  then show "history p (events (TriggerSystem_Update zo so po w s)) = history p (events s) @
       (if p \<in> touching w - active s then [TriggerEnter]
        else if p \<in> active s - touching w then [TriggerExit] else [])"
    using c[of p] f by (auto simp: TriggerSystem_Update_def)
qed

text \<open>Enter, exit, enter, exit, and so on.\<close>

definition alternating :: "TriggerEventType list \<Rightarrow> bool" where
  "alternating h \<longleftrightarrow> (\<forall>i < length h. h ! i = (if even i then TriggerEnter else TriggerExit))"

lemma alternating_Nil [simp]: "alternating []"
  by (simp add: alternating_def)

lemma alternating_snoc [simp]:
  "alternating (h @ [x]) \<longleftrightarrow> alternating h \<and> x = (if even (length h) then TriggerEnter else TriggerExit)"
proof -
  have "(\<forall>i < length h. (h @ [x]) ! i = (if even i then TriggerEnter else TriggerExit)) \<longleftrightarrow> alternating h"
    by (auto simp: alternating_def nth_append)
  then show ?thesis
    by (auto simp: alternating_def[of "h @ [x]"] All_less_Suc)
qed

text \<open>
  Runs of a trigger system: updates against any worlds, and drains. \<open>out\<close> are the events drained
  so far.
\<close>

inductive trigger_run :: "TriggerSystem \<Rightarrow> TriggerEvent list \<Rightarrow> bool" where
  start: "trigger_run NewTriggerSystem []"
| update: "trigger_run s out \<Longrightarrow> world_inv w \<Longrightarrow> visits zo (alive w) \<Longrightarrow> visits so (alive w) \<Longrightarrow>
    visits po (active s) \<Longrightarrow> trigger_run (TriggerSystem_Update zo so po w s) out"
| drain: "trigger_run s out \<Longrightarrow> DrainEvents s = (evs, s') \<Longrightarrow> trigger_run s' (out @ evs)"

lemma trigger_run_history:
  "trigger_run s out \<Longrightarrow> alternating (history p (out @ events s)) \<and>
     (p \<in> active s \<longleftrightarrow> odd (length (history p (out @ events s))))"
proof (induction rule: trigger_run.induct)
  case start
  then show ?case by (simp add: NewTriggerSystem_def history_def)
next
  case (update s out w zo so po)
  let ?s' = "TriggerSystem_Update zo so po w s"
  define h where "h = history p (out @ events s)"
  have "history p (out @ events ?s') = h @
      (if p \<in> touching w - active s then [TriggerEnter]
       else if p \<in> active s - touching w then [TriggerExit] else [])"
    and "active ?s' = touching w"
    using TriggerSystem_Update_effect[OF update.hyps(2-5)] by (simp_all add: h_def)
  moreover have "alternating h \<and> (p \<in> active s \<longleftrightarrow> odd (length h))"
    using update.IH by (simp only: h_def)
  ultimately show ?case
    by (cases "p \<in> touching w"; cases "p \<in> active s") (simp_all del: history_append)
next
  case (drain s out evs s')
  then show ?case by (auto simp: DrainEvents_def history_def split: if_splits)
qed

text \<open>
  A zone and a sensor never see two enters or two exits in a row. In every run of updates and
  drains, against any sequence of worlds, the events of one pair, drained or still buffered, are
  enter, exit, enter, exit, and so on, and the pair is active exactly while its last event is an
  enter. In particular no event is lost by \<open>DrainEvents\<close>.
\<close>

theorem trigger_events_alternate:
  assumes "trigger_run s out"
  shows "alternating (history p (out @ events s)) \<and>
    (p \<in> active s \<longleftrightarrow> history p (out @ events s) \<noteq> [] \<and> last (history p (out @ events s)) = TriggerEnter)"
proof -
  let ?h = "history p (out @ events s)"
  have a: "alternating ?h" "p \<in> active s \<longleftrightarrow> odd (length ?h)"
    using trigger_run_history[OF assms] by auto
  moreover have "odd (length ?h) \<longleftrightarrow> ?h \<noteq> [] \<and> last ?h = TriggerEnter"
    using a(1) by (cases ?h rule: rev_cases) auto
  ultimately show ?thesis by blast
qed

theorem trigger_events_alternate_witness:
  "\<exists>s. trigger_run s [] \<and> alternating (history (1, 2) (events s)) \<and> (1, 2) \<notin> active s"
proof -
  let ?s = "TriggerSystem_Update [2, 1] [1, 2] [] sample_world NewTriggerSystem"
  have r: "trigger_run ?s []"
    by (rule trigger_run.update[OF trigger_run.start sample_world_inv(1,2)])
      (auto simp: visits_def NewTriggerSystem_def NewWorld_def)
  have "events ?s = []"
    by (simp add: TriggerSystem_Update_def QueryTriggerZones_def QueryTriggerSensors_def NewTriggerSystem_def NewWorld_def)
  then show ?thesis
    using r trigger_events_alternate[OF r, of "(1, 2)"] by (auto simp: history_def)
qed

end
