(* ===== verification/AOI_Grid.thy ===== *)
theory AOI_Grid
  imports ECS_World
begin

text \<open>
  Package \<open>aoi\<close> (\<open>src/internal/ecs/aoi/grid.go\<close>) and the interface \<open>WorldSpatialIndex\<close> of
  \<open>src/internal/ecs/network_replication.go\<close>: a uniform grid over the XZ plane. A bucket is the
  slice of entities of one grid cell; a missing bucket reads as the empty slice.
\<close>

section \<open>The grid\<close>

record SpatialGrid =
  cellSize :: f64
  buckets :: "int \<times> int \<rightharpoonup> Entity list"
  entityCell :: "Entity \<rightharpoonup> int \<times> int"

definition ReplicationDefaultCellSize :: f64 where
  "ReplicationDefaultCellSize = Fin 50"

definition NewSpatialGrid :: "f64 \<Rightarrow> SpatialGrid" where
  "NewSpatialGrid cs =
     \<lparr>cellSize = (if fle cs (Fin 0) then ReplicationDefaultCellSize else cs),
      buckets = Map.empty, entityCell = Map.empty\<rparr>"

definition key :: "SpatialGrid \<Rightarrow> f64 \<Rightarrow> f64 \<Rightarrow> int \<times> int" where
  "key g x z = (floor_int (fdiv x (cellSize g)), floor_int (fdiv z (cellSize g)))"

definition bucket :: "SpatialGrid \<Rightarrow> int \<times> int \<Rightarrow> Entity list" where
  "bucket g k = (case buckets g k of None \<Rightarrow> [] | Some es \<Rightarrow> es)"

text \<open>The swap with the last element and the truncation of \<open>RemoveEntity\<close>.\<close>

definition swap_remove :: "Entity \<Rightarrow> Entity list \<Rightarrow> Entity list option" where
  "swap_remove e sl =
     (case find (\<lambda>i. sl ! i = e) [0..<length sl] of
        None \<Rightarrow> None
      | Some i \<Rightarrow> (let lst = length sl - 1 in Some (take lst (sl[i := sl ! lst]))))"

definition RemoveEntity :: "Entity \<Rightarrow> SpatialGrid \<Rightarrow> SpatialGrid" where
  "RemoveEntity e g =
     (case entityCell g e of
        None \<Rightarrow> g
      | Some old \<Rightarrow>
          (let g1 = g\<lparr>entityCell := (entityCell g)(e := None)\<rparr>
           in case swap_remove e (bucket g old) of
                None \<Rightarrow> g1
              | Some sl \<Rightarrow> g1\<lparr>buckets := (buckets g)(old := if sl = [] then None else Some sl)\<rparr>))"

definition add_entity :: "Entity \<Rightarrow> int \<times> int \<Rightarrow> SpatialGrid \<Rightarrow> SpatialGrid" where
  "add_entity e k g =
     g\<lparr>entityCell := (entityCell g)(e \<mapsto> k), buckets := (buckets g)(k \<mapsto> bucket g k @ [e])\<rparr>"

definition UpdateEntity :: "World \<Rightarrow> Entity \<Rightarrow> SpatialGrid \<Rightarrow> SpatialGrid" where
  "UpdateEntity w e g =
     (case positions w e of
        None \<Rightarrow> RemoveEntity e g
      | Some p \<Rightarrow>
          (let k = key g (PX p) (PZ p)
           in if entityCell g e = Some k then g
              else add_entity e k (RemoveEntity e g)))"

definition RebuildFromWorld :: "Entity list \<Rightarrow> World \<Rightarrow> SpatialGrid \<Rightarrow> SpatialGrid" where
  "RebuildFromWorld order w g =
     fold (\<lambda>e g. case positions w e of
                   None \<Rightarrow> g
                 | Some p \<Rightarrow> add_entity e (key g (PX p) (PZ p)) g)
       order (g\<lparr>buckets := Map.empty, entityCell := Map.empty\<rparr>)"

definition in_circle :: "f64 \<Rightarrow> f64 \<Rightarrow> f64 \<Rightarrow> Position \<Rightarrow> bool" where
  "in_circle cx cz r p =
     (let dx = fsub (PX p) cx; dz = fsub (PZ p) cz
      in fle (fadd (fmul dx dx) (fmul dz dz)) (fmul r r))"

fun query_bucket :: "World \<Rightarrow> f64 \<Rightarrow> f64 \<Rightarrow> f64 \<Rightarrow> Entity list \<Rightarrow> Entity list \<Rightarrow> Entity list" where
  "query_bucket w cx cz r [] out = out"
| "query_bucket w cx cz r (e # es) out =
     (if e \<in> set out then query_bucket w cx cz r es out
      else case positions w e of
             None \<Rightarrow> query_bucket w cx cz r es out
           | Some p \<Rightarrow> query_bucket w cx cz r es (if in_circle cx cz r p then out @ [e] else out))"

text \<open>\<open>seen\<close> of the source holds exactly the elements of \<open>out\<close>.\<close>

definition QueryRadius :: "World \<Rightarrow> f64 \<Rightarrow> f64 \<Rightarrow> f64 \<Rightarrow> SpatialGrid \<Rightarrow> Entity list" where
  "QueryRadius w cx cz r g =
     (if flt r (Fin 0) then []
      else let minIx = floor_int (fdiv (fsub cx r) (cellSize g));
               maxIx = floor_int (fdiv (fadd cx r) (cellSize g));
               minIz = floor_int (fdiv (fsub cz r) (cellSize g));
               maxIz = floor_int (fdiv (fadd cz r) (cellSize g))
           in fold (\<lambda>ix. fold (\<lambda>iz. query_bucket w cx cz r (bucket g (ix, iz))) [minIz..maxIz])
                [minIx..maxIx] [])"

definition NeighborCellKeys :: "int \<Rightarrow> int \<Rightarrow> int \<Rightarrow> (int \<times> int) list" where
  "NeighborCellKeys ix iz ring0 =
     (let ring = (if ring0 < 0 then 0 else ring0)
      in concat (map (\<lambda>dx. map (\<lambda>dz. (ix + dx, iz + dz)) [- ring..ring]) [- ring..ring]))"

declare split_paired_All [simp del]

section \<open>The invariant\<close>

text \<open>
  Buckets and the reverse table agree, no entity is listed twice, no empty bucket is kept.
\<close>

definition grid_inv :: "SpatialGrid \<Rightarrow> bool" where
  "grid_inv g \<longleftrightarrow>
     (\<forall>e k. entityCell g e = Some k \<longleftrightarrow> e \<in> set (bucket g k)) \<and>
     (\<forall>k. distinct (bucket g k)) \<and> (\<forall>k. buckets g k \<noteq> Some [])"

lemma grid_inv_New: "grid_inv (NewSpatialGrid cs)"
  by (simp add: grid_inv_def NewSpatialGrid_def bucket_def)

lemma grid_inv_entity: "grid_inv g \<Longrightarrow> e \<in> set (bucket g k) \<longleftrightarrow> entityCell g e = Some k"
  by (simp add: grid_inv_def)

lemma swap_remove_set:
  assumes "distinct sl" "e \<in> set sl"
  obtains sl' where "swap_remove e sl = Some sl'" "set sl' = set sl - {e}" "distinct sl'"
proof -
  obtain i where f: "find (\<lambda>i. sl ! i = e) [0..<length sl] = Some i"
    using assms(2) by (cases "find (\<lambda>i. sl ! i = e) [0..<length sl]")
      (auto simp: find_None_iff in_set_conv_nth)
  then have i: "i < length sl" "sl ! i = e"
    using find_SomeD[OF f] by auto
  let ?n = "length sl - 1"
  let ?s = "take ?n (sl[i := sl ! ?n])"
  have nth: "?s ! j = (if j = i then sl ! ?n else sl ! j)" if "j < ?n" for j
    using that i by (simp add: nth_list_update)
  have inj: "sl ! j = sl ! k \<longleftrightarrow> j = k" if "j < length sl" "k < length sl" for j k
    using nth_eq_iff_index_eq[OF assms(1)] that by blast
  have "distinct ?s"
    using i inj nth by (auto simp: distinct_conv_nth split: if_splits)
  moreover have "set ?s = set sl - {e}"
  proof (intro equalityI subsetI)
    fix x assume "x \<in> set ?s"
    then obtain j where j: "j < ?n" "x = ?s ! j" by (auto simp: in_set_conv_nth)
    then show "x \<in> set sl - {e}"
      using nth[OF j(1)] i inj[of j i] inj[of ?n i] by (auto split: if_splits)
  next
    fix x assume "x \<in> set sl - {e}"
    then obtain j where j: "j < length sl" "x = sl ! j" "j \<noteq> i"
      using i by (auto simp: in_set_conv_nth)
    show "x \<in> set ?s"
    proof (cases "j = ?n")
      case True
      then have "i < ?n" using i j by linarith
      then show ?thesis using nth[of i] True j by (auto simp: in_set_conv_nth intro!: exI[of _ i])
    next
      case False
      then have "j < ?n" using j by linarith
      then show ?thesis using nth[of j] j by (auto simp: in_set_conv_nth intro!: exI[of _ j])
    qed
  qed
  ultimately show ?thesis
    using f by (intro that[of ?s]) (simp_all add: swap_remove_def Let_def)
qed

lemma RemoveEntity_spec:
  assumes "grid_inv g"
  shows "grid_inv (RemoveEntity e g)" "entityCell (RemoveEntity e g) = (entityCell g)(e := None)"
    "cellSize (RemoveEntity e g) = cellSize g"
proof -
  have "grid_inv (RemoveEntity e g) \<and> entityCell (RemoveEntity e g) = (entityCell g)(e := None) \<and>
    cellSize (RemoveEntity e g) = cellSize g"
  proof (cases "entityCell g e")
    case None
    then show ?thesis using assms by (simp add: RemoveEntity_def fun_upd_idem)
  next
    case (Some old)
    then have "e \<in> set (bucket g old)" "distinct (bucket g old)"
      using assms by (auto simp: grid_inv_def)
    then obtain sl' where sl: "swap_remove e (bucket g old) = Some sl'"
        "set sl' = set (bucket g old) - {e}" "distinct sl'"
      using swap_remove_set[of "bucket g old" e] by blast
    let ?g = "RemoveEntity e g"
    have g: "entityCell ?g = (entityCell g)(e := None)" "cellSize ?g = cellSize g"
      "buckets ?g = (buckets g)(old := if sl' = [] then None else Some sl')"
      using Some sl by (simp_all add: RemoveEntity_def Let_def)
    have b: "bucket ?g k = (if k = old then sl' else bucket g k)" for k
      using g(3) by (auto simp: bucket_def)
    have "entityCell ?g d = Some k \<longleftrightarrow> d \<in> set (bucket ?g k)" for d k
      unfolding g(1) b using sl(2) Some grid_inv_entity[OF assms, of d k]
      by (cases "k = old"; cases "d = e") auto
    moreover have "distinct (bucket ?g k)" for k
      using assms sl(3) by (simp add: b grid_inv_def)
    moreover have "buckets ?g k \<noteq> Some []" for k
      using assms by (simp add: g(3) grid_inv_def)
    ultimately have "grid_inv ?g"
      by (simp add: grid_inv_def)
    with g show ?thesis by simp
  qed
  then show "grid_inv (RemoveEntity e g)" "entityCell (RemoveEntity e g) = (entityCell g)(e := None)"
    "cellSize (RemoveEntity e g) = cellSize g" by auto
qed

lemma bucket_add: "bucket (add_entity e k g) k' = (if k' = k then bucket g k @ [e] else bucket g k')"
  by (simp add: bucket_def add_entity_def)

lemma add_entity_spec:
  assumes "grid_inv g" "entityCell g e = None"
  shows "grid_inv (add_entity e k g)" "entityCell (add_entity e k g) = (entityCell g)(e \<mapsto> k)"
    "cellSize (add_entity e k g) = cellSize g"
proof -
  have c: "entityCell (add_entity e k g) = (entityCell g)(e \<mapsto> k)"
    by (simp add: add_entity_def)
  have "e \<notin> set (bucket g k')" for k'
    using assms by (simp add: grid_inv_entity)
  then show "grid_inv (add_entity e k g)"
    using assms unfolding grid_inv_def
    by (auto simp: bucket_add c) (auto simp: add_entity_def split: if_splits)
  show "entityCell (add_entity e k g) = (entityCell g)(e \<mapsto> k)" "cellSize (add_entity e k g) = cellSize g"
    by (simp_all add: add_entity_def)
qed

text \<open>The cell an entity belongs in.\<close>

definition cell_of :: "SpatialGrid \<Rightarrow> World \<Rightarrow> Entity \<Rightarrow> (int \<times> int) option" where
  "cell_of g w e = map_option (\<lambda>p. key g (PX p) (PZ p)) (positions w e)"

lemma UpdateEntity_spec:
  assumes "grid_inv g"
  shows "grid_inv (UpdateEntity w e g)" "entityCell (UpdateEntity w e g) = (entityCell g)(e := cell_of g w e)"
    "cellSize (UpdateEntity w e g) = cellSize g"
  using RemoveEntity_spec[OF assms] add_entity_spec[of "RemoveEntity e g" e] assms
  by (auto simp: UpdateEntity_def cell_of_def Let_def split: option.splits)

lemma cell_of_cellSize: "cellSize g' = cellSize g \<Longrightarrow> cell_of g' w = cell_of g w"
  by (simp add: cell_of_def fun_eq_iff key_def)

definition rebuild_step :: "World \<Rightarrow> Entity \<Rightarrow> SpatialGrid \<Rightarrow> SpatialGrid" where
  "rebuild_step w e g =
     (case positions w e of None \<Rightarrow> g | Some p \<Rightarrow> add_entity e (key g (PX p) (PZ p)) g)"

lemma rebuild_step_spec:
  assumes "grid_inv g" "entityCell g e = None"
  shows "grid_inv (rebuild_step w e g)" "cellSize (rebuild_step w e g) = cellSize g"
    "entityCell (rebuild_step w e g) = (entityCell g)(e := cell_of g w e)"
  using assms add_entity_spec[OF assms]
  by (cases "positions w e"; simp add: rebuild_step_def cell_of_def fun_upd_idem)+

lemma Rebuild_fold:
  "grid_inv g \<Longrightarrow> distinct order \<Longrightarrow> \<forall>e \<in> set order. entityCell g e = None \<Longrightarrow>
     grid_inv (fold (rebuild_step w) order g) \<and> cellSize (fold (rebuild_step w) order g) = cellSize g \<and>
     (\<forall>e. entityCell (fold (rebuild_step w) order g) e =
        (if e \<in> set order then cell_of g w e else entityCell g e))"
proof (induction order arbitrary: g)
  case (Cons e order)
  note st = rebuild_step_spec[OF Cons.prems(1), of e w]
  have "entityCell g e = None" using Cons.prems(3) by simp
  note st = st[OF this]
  have "\<forall>d \<in> set order. entityCell (rebuild_step w e g) d = None"
    using Cons.prems(2,3) st(3) by auto
  from Cons.IH[OF st(1) _ this] show ?case
    using Cons.prems(2) st(2,3) cell_of_cellSize[OF st(2), of w] by auto
qed simp

lemma RebuildFromWorld_spec:
  assumes "world_inv w" "visits order (alive w)"
  shows "grid_inv (RebuildFromWorld order w g)" "cellSize (RebuildFromWorld order w g) = cellSize g"
    "entityCell (RebuildFromWorld order w g) = cell_of g w"
proof -
  let ?g = "g\<lparr>buckets := Map.empty, entityCell := Map.empty\<rparr>"
  have "grid_inv ?g"
    by (simp add: grid_inv_def bucket_def)
  note r = Rebuild_fold[OF this visits_distinct[OF assms(2)], of w]
  have f: "RebuildFromWorld order w g = fold (rebuild_step w) order ?g"
    by (simp add: RebuildFromWorld_def rebuild_step_def[abs_def])
  have "cell_of ?g w e = None" if "e \<notin> alive w" for e
    using assms(1) that by (auto simp: cell_of_def world_inv_def owned_def)
  moreover have "cell_of ?g w = cell_of g w"
    by (simp add: cell_of_def fun_eq_iff key_def)
  ultimately show "grid_inv (RebuildFromWorld order w g)" "cellSize (RebuildFromWorld order w g) = cellSize g"
    "entityCell (RebuildFromWorld order w g) = cell_of g w"
    using r visits_set[OF assms(2)] unfolding f by (auto simp: fun_eq_iff)
qed

section \<open>The spatial index of the replication system\<close>

text \<open>
  The contract of \<open>WorldSpatialIndex\<close>: after \<open>RebuildFromWorld\<close> the index describes the world.
  \<open>NetworkReplicationSystem\<close> keeps its index, when it has one, up to date.
\<close>

definition NetworkReplicationSystem_Update :: "(World \<Rightarrow> 'i \<Rightarrow> 'i) \<Rightarrow> World \<Rightarrow> 'i option \<Rightarrow> 'i option" where
  "NetworkReplicationSystem_Update rebuild w index =
     (case index of None \<Rightarrow> None | Some i \<Rightarrow> Some (rebuild w i))"

locale spatial_index =
  fixes rebuild :: "Entity list \<Rightarrow> World \<Rightarrow> 'i \<Rightarrow> 'i"
    and describes :: "'i \<Rightarrow> World \<Rightarrow> bool"
  assumes rebuild_describes: "world_inv w \<Longrightarrow> visits order (alive w) \<Longrightarrow> describes (rebuild order w i) w"
begin

lemma replication_describes:
  assumes "world_inv w" "visits order (alive w)" "NetworkReplicationSystem_Update (rebuild order) w index = Some i"
  shows "describes i w"
  using assms rebuild_describes by (auto simp: NetworkReplicationSystem_Update_def split: option.splits)

end

text \<open>A grid describes a world when every positioned entity is in the bucket of its position.\<close>

definition grid_describes :: "SpatialGrid \<Rightarrow> World \<Rightarrow> bool" where
  "grid_describes g w \<longleftrightarrow> grid_inv g \<and> entityCell g = cell_of g w"

interpretation grid: spatial_index RebuildFromWorld grid_describes
proof
  show "grid_describes (RebuildFromWorld order w i) w"
    if "world_inv w" "visits order (alive w)" for w order i
    using RebuildFromWorld_spec[OF that, of i] cell_of_cellSize[of "RebuildFromWorld order w i" i w]
    by (simp add: grid_describes_def)
qed

section \<open>Radius queries\<close>

definition hit :: "World \<Rightarrow> f64 \<Rightarrow> f64 \<Rightarrow> f64 \<Rightarrow> Entity \<Rightarrow> bool" where
  "hit w cx cz r e \<longleftrightarrow> (\<exists>p. positions w e = Some p \<and> in_circle cx cz r p)"

lemma query_bucket_spec:
  "distinct out \<Longrightarrow> distinct (query_bucket w cx cz r es out) \<and>
     set (query_bucket w cx cz r es out) = set out \<union> {e \<in> set es. hit w cx cz r e \<or> e \<in> set out}"
proof (induction es arbitrary: out)
  case (Cons e es)
  show ?case
  proof (cases "e \<in> set out \<or> positions w e = None")
    case True
    then show ?thesis using Cons by (auto simp: hit_def)
  next
    case False
    then obtain p where "positions w e = Some p" "e \<notin> set out" by auto
    then show ?thesis
      using Cons.IH[of "out @ [e]"] Cons.IH[of out] Cons.prems by (auto simp: hit_def)
  qed
qed simp

lemma query_row_spec:
  "distinct out \<Longrightarrow> distinct (fold (\<lambda>k. query_bucket w cx cz r (bucket g k)) ks out) \<and>
     set (fold (\<lambda>k. query_bucket w cx cz r (bucket g k)) ks out) =
       set out \<union> {e. hit w cx cz r e \<and> (\<exists>k \<in> set ks. e \<in> set (bucket g k))}"
proof (induction ks arbitrary: out)
  case (Cons k ks)
  then show ?case
    using query_bucket_spec[OF Cons.prems, of w cx cz r "bucket g k"] by auto
qed simp

lemma fold_fold: "fold (\<lambda>x. fold (f x) ys) xs s = fold (\<lambda>(x, y). f x y) (List.product xs ys) s"
proof -
  have "fold (f x) ys s = fold (\<lambda>(x, y). f x y) (map (Pair x) ys) s" for x s
    by (simp add: fold_map comp_def)
  then show ?thesis by (induction xs arbitrary: s) simp_all
qed

lemma QueryRadius_rows:
  "QueryRadius w cx cz r g = (if flt r (Fin 0) then []
     else fold (\<lambda>k. query_bucket w cx cz r (bucket g k))
       (List.product [fst (key g (fsub cx r) (fsub cz r))..fst (key g (fadd cx r) (fadd cz r))]
          [snd (key g (fsub cx r) (fsub cz r))..snd (key g (fadd cx r) (fadd cz r))]) [])"
  by (simp add: QueryRadius_def Let_def key_def fold_fold case_prod_unfold)

text \<open>A coordinate whose grid cell is an \<open>int\<close>.\<close>

definition on_grid :: "SpatialGrid \<Rightarrow> f64 \<Rightarrow> bool" where
  "on_grid g x \<longleftrightarrow> (\<exists>q c. x = Fin q \<and> fdiv x (cellSize g) = Fin c \<and> int_in_range \<lfloor>c\<rfloor>)"

lemma floor_mono_grid:
  assumes "cellSize g = Fin s" "0 < s" "on_grid g a" "on_grid g b" "fle a x" "fle x b"
  shows "floor_int (fdiv a (cellSize g)) \<le> floor_int (fdiv x (cellSize g)) \<and>
    floor_int (fdiv x (cellSize g)) \<le> floor_int (fdiv b (cellSize g))"
proof -
  obtain p pc q qc where a: "a = Fin p" "fdiv a (Fin s) = Fin pc" "int_in_range \<lfloor>pc\<rfloor>"
    and b: "b = Fin q" "fdiv b (Fin s) = Fin qc" "int_in_range \<lfloor>qc\<rfloor>"
    using assms(1,3,4) by (auto simp: on_grid_def)
  then obtain y where x: "x = Fin y" "p \<le> y" "y \<le> q"
    using assms(5,6) by (cases x) auto
  have "rnd64 (p / s) = Fin pc" "rnd64 (q / s) = Fin qc"
    using a b assms(2) by auto
  moreover have "p / s \<le> y / s" "y / s \<le> q / s"
    using x assms(2) by (simp_all add: divide_right_mono)
  ultimately have "fle (Fin pc) (rnd64 (y / s))" "fle (rnd64 (y / s)) (Fin qc)"
    using rnd64_mono[of "p / s" "y / s"] rnd64_mono[of "y / s" "q / s"] by simp_all
  then obtain c where c: "rnd64 (y / s) = Fin c" "pc \<le> c" "c \<le> qc"
    by (cases "rnd64 (y / s)") auto
  then have "\<lfloor>pc\<rfloor> \<le> \<lfloor>c\<rfloor>" "\<lfloor>c\<rfloor> \<le> \<lfloor>qc\<rfloor>"
    by (simp_all add: floor_mono)
  then show ?thesis
    using a b c x assms(1,2) by (auto simp: int_in_range_def)
qed

text \<open>
  C7: \<open>QueryRadius\<close> on an up-to-date grid finds the circle. It returns no entity twice and only
  entities whose squared distance passes the test, and it returns every entity that passes the
  test and whose position lies in the square from \<open>c - r\<close> to \<open>c + r\<close>, so walking only the grid
  cells of that square loses nobody; for a positive cell size and coordinates on the grid.
\<close>

theorem QueryRadius_correct:
  assumes "grid_describes g w" "cellSize g = Fin s" "0 < s" "\<not> flt r (Fin 0)"
    and "on_grid g (fsub cx r)" "on_grid g (fadd cx r)" "on_grid g (fsub cz r)" "on_grid g (fadd cz r)"
  shows "distinct (QueryRadius w cx cz r g) \<and>
    (\<forall>e \<in> set (QueryRadius w cx cz r g). hit w cx cz r e) \<and>
    (\<forall>e p. positions w e = Some p \<longrightarrow> in_circle cx cz r p \<longrightarrow>
       fle (fsub cx r) (PX p) \<longrightarrow> fle (PX p) (fadd cx r) \<longrightarrow>
       fle (fsub cz r) (PZ p) \<longrightarrow> fle (PZ p) (fadd cz r) \<longrightarrow> e \<in> set (QueryRadius w cx cz r g))"
proof -
  let ?ks = "List.product [fst (key g (fsub cx r) (fsub cz r))..fst (key g (fadd cx r) (fadd cz r))]
          [snd (key g (fsub cx r) (fsub cz r))..snd (key g (fadd cx r) (fadd cz r))]"
  have q: "distinct (QueryRadius w cx cz r g)"
    "set (QueryRadius w cx cz r g) = {e. hit w cx cz r e \<and> (\<exists>k \<in> set ?ks. e \<in> set (bucket g k))}"
    using query_row_spec[of "[]" w cx cz r g ?ks] assms(4) by (simp_all only: QueryRadius_rows if_False) simp_all
  have "e \<in> set (QueryRadius w cx cz r g)"
    if p: "positions w e = Some p" "in_circle cx cz r p"
      and sq: "fle (fsub cx r) (PX p)" "fle (PX p) (fadd cx r)" "fle (fsub cz r) (PZ p)" "fle (PZ p) (fadd cz r)"
    for e p
  proof -
    have "entityCell g e = Some (key g (PX p) (PZ p))"
      using assms(1) p(1) by (simp add: grid_describes_def cell_of_def)
    then have "e \<in> set (bucket g (key g (PX p) (PZ p)))"
      using assms(1) by (simp add: grid_describes_def grid_inv_entity)
    moreover have "key g (PX p) (PZ p) \<in> set ?ks"
      using floor_mono_grid[OF assms(2,3,5,6) sq(1,2)] floor_mono_grid[OF assms(2,3,7,8) sq(3,4)]
      by (simp add: key_def)
    ultimately show ?thesis
      using p unfolding q(2) hit_def by blast
  qed
  with q show ?thesis by auto
qed

text \<open>One entity at the origin of a grid of 50 metres.\<close>

abbreviation origin_world :: World where
  "origin_world \<equiv> NewWorld\<lparr>nextID := 1, alive := {1}, positions := [1 \<mapsto> \<lparr>PX = Fin 0, PY = Fin 0, PZ = Fin 0\<rparr>]\<rparr>"

lemma origin_world_inv: "world_inv origin_world" "visits [1] (alive origin_world)"
  by (auto simp: world_inv_def owned_def NewWorld_def visits_def)

lemma origin_grid: "grid_describes (RebuildFromWorld [1] origin_world (NewSpatialGrid (Fin 50))) origin_world"
  by (rule grid.rebuild_describes[OF origin_world_inv])

theorem QueryRadius_correct_witness:
  "1 \<in> set (QueryRadius origin_world (Fin 10) (Fin 10) (Fin 40)
     (RebuildFromWorld [1] origin_world (NewSpatialGrid (Fin 50))))"
proof -
  let ?g = "RebuildFromWorld [1] origin_world (NewSpatialGrid (Fin 50))"
  have c: "cellSize ?g = Fin 50"
    using RebuildFromWorld_spec(2)[OF origin_world_inv] by (simp add: NewSpatialGrid_def)
  have n: "rnd64 (-30 / 50) = fdiv (Fin (-30)) (Fin 50)" by simp
  obtain q where q: "rnd64 (- 3 / 5) = Fin q" "- 1 \<le> q" "q \<le> 0"
    using rnd64_mono[of "-1" "- 3 / 5"] rnd64_mono[of "- 3 / 5" 0] by (cases "rnd64 (- 3 / 5)") auto
  then have "int_in_range \<lfloor>q\<rfloor>"
    using floor_mono[OF q(2)] floor_mono[OF q(3)] by (simp add: int_in_range_def)
  then have "on_grid ?g (Fin (-30))" "on_grid ?g (Fin 50)"
    using q by (simp_all add: on_grid_def c int_in_range_def)
  then show ?thesis
    using QueryRadius_correct[OF origin_grid c, of "Fin 40" "Fin 10" "Fin 10"]
    by (auto simp: NewWorld_def in_circle_def fsub_def)
qed

text \<open>A grid after any sequence of its operations.\<close>

inductive grid_run :: "SpatialGrid \<Rightarrow> bool" where
  new: "grid_run (NewSpatialGrid cs)"
| rebuild: "grid_run g \<Longrightarrow> world_inv w \<Longrightarrow> visits order (alive w) \<Longrightarrow> grid_run (RebuildFromWorld order w g)"
| update: "grid_run g \<Longrightarrow> grid_run (UpdateEntity w e g)"
| remove: "grid_run g \<Longrightarrow> grid_run (RemoveEntity e g)"

lemma grid_run_inv: "grid_run g \<Longrightarrow> grid_inv g"
  by (induction rule: grid_run.induct)
    (simp_all add: grid_inv_New RebuildFromWorld_spec UpdateEntity_spec RemoveEntity_spec)

text \<open>
  The grid stays consistent. Whatever sequence of rebuilds, updates and removals it goes
  through, its buckets and its reverse table agree, no entity is listed twice and no empty bucket
  is kept; an update puts the entity in the bucket of its position, and a removal takes it out.
\<close>

theorem grid_run_consistent:
  assumes "grid_run g"
  shows "grid_inv g \<and> entityCell (UpdateEntity w e g) = (entityCell g)(e := cell_of g w e) \<and>
    entityCell (RemoveEntity e g) = (entityCell g)(e := None) \<and> (\<forall>k. e \<notin> set (bucket (RemoveEntity e g) k))"
  using grid_run_inv[OF assms] UpdateEntity_spec[of g w e] RemoveEntity_spec[of g e]
    grid_inv_entity[of "RemoveEntity e g" e] by simp

theorem grid_run_consistent_witness:
  "\<forall>k. 1 \<notin> set (bucket (RemoveEntity 1 (UpdateEntity origin_world 1 (NewSpatialGrid (Fin 50)))) k)"
  using grid_run_consistent[OF grid_run.update[OF grid_run.new]] by blast

declare split_paired_All [simp]

end
