(* ===== verification/Cell_Sim.thy ===== *)
theory Cell_Sim
  imports ECS_Systems AOI_Grid
begin

text \<open>
  The simulation of one cell: the game loop (\<open>src/internal/ecs/loop.go\<close>), the runtime that owns a
  world, its loop and its grid (\<open>src/internal/cellsim/runtime.go\<close>), and the persisted form of a
  cell (\<open>src/internal/cellsim/snapshot/snapshot.go\<close>). Durations are nanoseconds; the wall-clock
  time a step takes is an argument. A \<open>float32\<close> is the \<open>float64\<close> value it denotes.
\<close>

section \<open>The game loop\<close>

record GameLoop =
  TPS :: f64
  TickCount :: "64 word"
  LastTickDur :: int
  WorstTickDur :: int
  TotalWallDur :: int
  paused :: bool

type_synonym Sim = "World \<times> SpatialGrid"
type_synonym System = "Entity list \<Rightarrow> f64 \<Rightarrow> Sim \<Rightarrow> Sim"

definition NewGameLoop :: "f64 \<Rightarrow> GameLoop" where
  "NewGameLoop tps =
     \<lparr>TPS = (if fle tps (Fin 0) then Fin 20 else tps), TickCount = 0, LastTickDur = 0,
      WorstTickDur = 0, TotalWallDur = 0, paused = False\<rparr>"

definition FixedDT :: "GameLoop \<Rightarrow> f64" where
  "FixedDT g = fdiv (Fin 1) (TPS g)"

text \<open>Each system comes with the order in which it visits the live entities this time.\<close>

fun run_systems :: "(System \<times> Entity list) list \<Rightarrow> f64 \<Rightarrow> Sim \<Rightarrow> Sim" where
  "run_systems [] dt s = s"
| "run_systems ((sys, order) # rest) dt s = run_systems rest dt (sys order dt s)"

definition Step :: "(System \<times> Entity list) list \<Rightarrow> int \<Rightarrow> GameLoop \<times> Sim \<Rightarrow> GameLoop \<times> Sim" where
  "Step systems elapsed gs =
     (let (g, s) = gs;
          dt = FixedDT g;
          s' = run_systems systems dt s
      in (g\<lparr>TickCount := TickCount g + 1, LastTickDur := elapsed,
            WorstTickDur := (if elapsed > WorstTickDur g then elapsed else WorstTickDur g),
            TotalWallDur := TotalWallDur g + elapsed\<rparr>, s'))"

fun RunSteps :: "((System \<times> Entity list) list \<times> int) list \<Rightarrow> GameLoop \<times> Sim \<Rightarrow> GameLoop \<times> Sim" where
  "RunSteps [] gs = gs"
| "RunSteps ((systems, elapsed) # rest) gs = RunSteps rest (Step systems elapsed gs)"

definition Pause :: "GameLoop \<Rightarrow> GameLoop" where
  "Pause g = g\<lparr>paused := True\<rparr>"

definition Resume :: "GameLoop \<Rightarrow> GameLoop" where
  "Resume g = g\<lparr>paused := False\<rparr>"

definition IsPaused :: "GameLoop \<Rightarrow> bool" where
  "IsPaused g = paused g"

text \<open>
  \<open>Run\<close> reacts to the ticks of its timer until the context is cancelled: \<open>None\<close> is the cancellation,
  \<open>Some\<close> a tick, skipped while the loop is paused.
\<close>

fun GameLoop_Run :: "((System \<times> Entity list) list \<times> int) option list \<Rightarrow> GameLoop \<times> Sim \<Rightarrow> GameLoop \<times> Sim" where
  "GameLoop_Run [] gs = gs"
| "GameLoop_Run (None # evs) gs = gs"
| "GameLoop_Run (Some (systems, elapsed) # evs) gs =
     (if IsPaused (fst gs) then GameLoop_Run evs gs else GameLoop_Run evs (Step systems elapsed gs))"

section \<open>The systems of a cell\<close>

definition movement_system :: System where
  "movement_system order dt s = (MovementSystem_Update order dt (fst s), snd s)"

definition regen_system :: "f64 \<Rightarrow> System" where
  "regen_system rate order dt s = (HealthRegenSystem_Update rate order dt (fst s), snd s)"

definition replication_system :: System where
  "replication_system order dt s =
     (fst s, the (NetworkReplicationSystem_Update (RebuildFromWorld order) (fst s) (Some (snd s))))"

text \<open>
  The contract of \<open>System\<close> on which the loop relies: a step keeps the world well-formed and
  neither creates nor destroys entities.
\<close>

locale system_contract =
  fixes upd :: System
  assumes keeps_inv: "world_inv (fst s) \<Longrightarrow> visits order (alive (fst s)) \<Longrightarrow> world_inv (fst (upd order dt s))"
    and keeps_alive: "world_inv (fst s) \<Longrightarrow> visits order (alive (fst s)) \<Longrightarrow>
      alive (fst (upd order dt s)) = alive (fst s)"
begin

lemma keeps_visits:
  "world_inv (fst s) \<Longrightarrow> visits order (alive (fst s)) \<Longrightarrow> visits order' (alive (fst s)) \<Longrightarrow>
     visits order' (alive (fst (upd order dt s)))"
  by (simp add: keeps_alive)

end

lemma alive_rewrite [simp]:
  "alive (pos.rewrite f order w) = alive w" "alive (hp.rewrite f' order w) = alive w"
  using pos.view_rewrite[of f order w] hp.view_rewrite[of f' order w] by simp_all

lemma world_inv_pos_rewrite: "world_inv w \<Longrightarrow> world_inv (pos.rewrite f order w)"
proof (induction order arbitrary: w)
  case (Cons e order)
  then show ?case
    unfolding pos.rewrite_def
    by (auto simp: world_inv_Set alive_owns split: option.splits)
qed (simp add: pos.rewrite_def)

lemma world_inv_hp_rewrite: "world_inv w \<Longrightarrow> world_inv (hp.rewrite f order w)"
proof (induction order arbitrary: w)
  case (Cons e order)
  then show ?case
    unfolding hp.rewrite_def
    by (auto simp: world_inv_Set alive_owns_hp split: option.splits)
qed (simp add: hp.rewrite_def)

interpretation movement: system_contract movement_system
  by unfold_locales (simp_all add: movement_system_def MovementSystem_rewrite world_inv_pos_rewrite)

lemma regen_inv: "world_inv w \<Longrightarrow> world_inv (HealthRegenSystem_Update r order dt w)"
  by (cases "fle r (Fin 0)")
    (simp add: HealthRegenSystem_Update_def, simp add: HealthRegenSystem_rewrite world_inv_hp_rewrite)

lemma regen_alive: "alive (HealthRegenSystem_Update r order dt w) = alive w"
  by (cases "fle r (Fin 0)") (simp add: HealthRegenSystem_Update_def, simp add: HealthRegenSystem_rewrite)

interpretation regen: system_contract "regen_system r" for r
  by unfold_locales (simp_all add: regen_system_def regen_inv regen_alive)

interpretation replication: system_contract replication_system
  by unfold_locales (simp_all add: replication_system_def)

section \<open>The runtime of a cell\<close>

record Runtime =
  world :: World
  loop :: GameLoop
  AOIGrid :: SpatialGrid
  npcStarted :: bool

definition defaultTPS :: f64 where
  "defaultTPS = Fin 25"

definition NewRuntime :: Runtime where
  "NewRuntime = \<lparr>world = NewWorld, loop = NewGameLoop defaultTPS,
     AOIGrid = NewSpatialGrid ReplicationDefaultCellSize, npcStarted = False\<rparr>"

text \<open>The three systems \<open>NewRuntime\<close> installs, with their visiting orders.\<close>

definition runtime_systems :: "Entity list \<Rightarrow> Entity list \<Rightarrow> Entity list \<Rightarrow> (System \<times> Entity list) list" where
  "runtime_systems o1 o2 o3 =
     [(movement_system, o1), (regen_system (Fin 2), o2), (replication_system, o3)]"

definition Runtime_Step :: "Entity list \<Rightarrow> Entity list \<Rightarrow> Entity list \<Rightarrow> int \<Rightarrow> Runtime \<Rightarrow> Runtime" where
  "Runtime_Step o1 o2 o3 elapsed r =
     (let (g, w, grid) = Step (runtime_systems o1 o2 o3) elapsed (loop r, world r, AOIGrid r)
      in r\<lparr>world := w, loop := g, AOIGrid := grid\<rparr>)"

text \<open>The runtime's own \<open>Run\<close>: ticks with their visits and durations, until cancelled.\<close>

fun Runtime_Run :: "(Entity list \<times> Entity list \<times> Entity list \<times> int) option list \<Rightarrow> Runtime \<Rightarrow> Runtime" where
  "Runtime_Run [] r = r"
| "Runtime_Run (None # evs) r = r"
| "Runtime_Run (Some (o1, o2, o3, elapsed) # evs) r = Runtime_Run evs (Runtime_Step o1 o2 o3 elapsed r)"

definition spawn_npc :: "nat \<Rightarrow> World \<Rightarrow> World" where
  "spawn_npc i w =
     (let step = Fin 12;
          (e, w1) = CreateEntity w;
          x = fsub (fmul (of_int_f64 (int (i mod 10))) step) (fmul (Fin 5) step);
          z = fsub (fmul (of_int_f64 (int (i div 10))) step) (fmul (Fin 5) step);
          w2 = SetPosition e \<lparr>PX = x, PY = Fin 0, PZ = z\<rparr> w1;
          w3 = SetVelocity e \<lparr>VX = lit (1 / 5), VY = Fin 0, VZ = lit (- 15 / 100)\<rparr> w2
      in SetHealth e \<lparr>HP = Fin 100, MaxHP = Fin 100\<rparr> w3)"

text \<open>The nested loops over rows and ten columns visit \<open>i = 10 * row + col\<close> from 0 to \<open>n - 1\<close>.\<close>

definition SpawnDemoNPCs :: "int \<Rightarrow> Runtime \<Rightarrow> Runtime" where
  "SpawnDemoNPCs n r =
     (if n \<le> 0 then r
      else if npcStarted r then r
      else r\<lparr>npcStarted := True, world := fold spawn_npc [0..<nat n] (world r)\<rparr>)"

section \<open>A step of the runtime\<close>

lemma fst_replication: "fst (replication_system order dt s) = fst s"
  by (simp add: replication_system_def)

lemma replication_grid: "snd (replication_system order dt s) = RebuildFromWorld order (fst s) (snd s)"
  by (simp add: replication_system_def NetworkReplicationSystem_Update_def)

lemma Runtime_Step_fields:
  assumes "world_inv (world r)"
    and "visits o1 (alive (world r))" "visits o2 (alive (world r))" "visits o3 (alive (world r))"
  shows "world_inv (world (Runtime_Step o1 o2 o3 d r)) \<and>
    alive (world (Runtime_Step o1 o2 o3 d r)) = alive (world r) \<and>
    TickCount (loop (Runtime_Step o1 o2 o3 d r)) = TickCount (loop r) + 1 \<and>
    positions (world (Runtime_Step o1 o2 o3 d r)) =
      positions (MovementSystem_Update o1 (FixedDT (loop r)) (world r)) \<and>
    grid_describes (AOIGrid (Runtime_Step o1 o2 o3 d r)) (world (Runtime_Step o1 o2 o3 d r))"
proof -
  let ?dt = "FixedDT (loop r)"
  let ?s0 = "(world r, AOIGrid r)"
  let ?s1 = "movement_system o1 ?dt ?s0"
  let ?s2 = "regen_system (Fin 2) o2 ?dt ?s1"
  let ?s3 = "replication_system o3 ?dt ?s2"
  have s: "world (Runtime_Step o1 o2 o3 d r) = fst ?s3" "AOIGrid (Runtime_Step o1 o2 o3 d r) = snd ?s3"
    "TickCount (loop (Runtime_Step o1 o2 o3 d r)) = TickCount (loop r) + 1"
    by (simp_all add: Runtime_Step_def Step_def runtime_systems_def Let_def split: prod.splits)
  have i1: "world_inv (fst ?s1)" "alive (fst ?s1) = alive (world r)"
    using movement.keeps_inv[of ?s0 o1] movement.keeps_alive[of ?s0 o1] assms by simp_all
  have i2: "world_inv (fst ?s2)" "alive (fst ?s2) = alive (world r)"
    using regen.keeps_inv[of ?s1 o2] regen.keeps_alive[of ?s1 o2] assms i1 by simp_all
  have "grid_describes (snd ?s3) (fst ?s2)"
    using grid.rebuild_describes[OF i2(1), of o3] assms(4) i2(2) by (simp add: replication_grid)
  moreover have "positions (fst ?s2) = positions (MovementSystem_Update o1 ?dt (world r))"
    using hp.view_rewrite
    by (cases "fle (Fin 2) (Fin 0)") (simp_all add: regen_system_def movement_system_def HealthRegenSystem_rewrite)
  ultimately show ?thesis
    using i2 by (simp add: s fst_replication)
qed

text \<open>
  Regeneration acts pointwise as well: it raises the health of everybody who is below the maximum,
  marks exactly those dirty and changes nothing else.
\<close>

lemma dirty_regen:
  "dirty (hp.rewrite (\<lambda>_ _. f) order w) = dirty w \<union> {e \<in> set order. \<exists>h. healths w e = Some h \<and> f h \<noteq> None}"
  if "distinct order"
  using that
proof (induction order arbitrary: w)
  case (Cons e order)
  then show ?case
    unfolding hp.rewrite_def by (auto simp: world_defs split: option.splits if_splits)
qed (simp add: hp.rewrite_def)

lemma HealthRegenSystem_pointwise:
  assumes "world_inv w" "visits order (alive w)" "\<not> fle r (Fin 0)"
  shows "HealthRegenSystem_Update r order dt w =
    w\<lparr>healths := (\<lambda>e. map_option (\<lambda>h. case regen r dt h of None \<Rightarrow> h | Some h' \<Rightarrow> h') (healths w e)),
      dirty := dirty w \<union> {e. \<exists>h. healths w e = Some h \<and> regen r dt h \<noteq> None}\<rparr>"
proof -
  let ?w = "hp.rewrite (\<lambda>_ _. regen r dt) order w"
  have "healths ?w e = map_option (\<lambda>h. case regen r dt h of None \<Rightarrow> h | Some h' \<Rightarrow> h') (healths w e)" for e
    using hp.get_rewrite[OF visits_distinct[OF assms(2)], of "\<lambda>_ _. regen r dt" w e] visits_set[OF assms(2)]
      alive_owns_hp[OF assms(1), of e]
    by (auto split: option.splits)
  moreover have "dirty ?w = dirty w \<union> {e. \<exists>h. healths w e = Some h \<and> regen r dt h \<noteq> None}"
    using dirty_regen[OF visits_distinct[OF assms(2)], of "regen r dt" w] visits_set[OF assms(2)] alive_owns_hp[OF assms(1)]
    by auto
  ultimately show ?thesis
    using hp.view_rewrite[of "\<lambda>_ _. regen r dt" order w] HealthRegenSystem_rewrite[OF assms(3)]
    by (intro World.equality) auto
qed

lemma Runtime_Step_world:
  assumes "world_inv (world r)" "visits o1 (alive (world r))" "visits o2 (alive (world r))"
  shows "world (Runtime_Step o1 o2 o3 d r) =
    HealthRegenSystem_Update (Fin 2) o2 (FixedDT (loop r)) (MovementSystem_Update o1 (FixedDT (loop r)) (world r))"
  by (simp add: Runtime_Step_def Step_def runtime_systems_def Let_def movement_system_def regen_system_def
      replication_system_def split: prod.splits)

text \<open>
  C8: A tick of the cell is one tick, of \<open>dt = 1/TPS\<close> seconds. Everybody with a position and a velocity
  has moved by the velocity times \<open>dt\<close> from where he was; whoever was below his maximal health has
  gained two points a second, up to the maximum; those who moved or healed are dirty; nothing else in
  the world has changed, and the world is well-formed. One is added to the tick counter, the rate is
  kept, and the interest grid describes exactly the world that resulted, in whatever orders the three
  systems visit the entities.
\<close>

theorem Runtime_Step_correct:
  assumes "world_inv (world r)"
    and "visits o1 (alive (world r))" "visits o2 (alive (world r))" "visits o3 (alive (world r))"
  shows "let w = world r; r' = Runtime_Step o1 o2 o3 d r; dt = fdiv (Fin 1) (TPS (loop r)) in
    world r' = w\<lparr>
      positions := (\<lambda>e. case (positions w e, velocities w e) of
          (Some p, Some v) \<Rightarrow> Some \<lparr>PX = fadd (PX p) (fmul (VX v) dt), PY = fadd (PY p) (fmul (VY v) dt),
                                    PZ = fadd (PZ p) (fmul (VZ v) dt)\<rparr>
        | _ \<Rightarrow> positions w e),
      healths := (\<lambda>e. map_option (\<lambda>h.
          if fle (MaxHP h) (HP h) then h
          else h\<lparr>HP := if flt (MaxHP h) (fadd (HP h) (fmul (Fin 2) dt)) then MaxHP h
                       else fadd (HP h) (fmul (Fin 2) dt)\<rparr>) (healths w e)),
      dirty := dirty w \<union> (dom (positions w) \<inter> dom (velocities w))
                 \<union> {e. \<exists>h. healths w e = Some h \<and> \<not> fle (MaxHP h) (HP h)}\<rparr>
    \<and> world_inv (world r')
    \<and> TickCount (loop r') = TickCount (loop r) + 1 \<and> TPS (loop r') = TPS (loop r)
    \<and> grid_describes (AOIGrid r') (world r')"
proof -
  let ?dt = "fdiv (Fin 1) (TPS (loop r))" and ?w = "world r"
  let ?m = "MovementSystem_Update o1 ?dt ?w"
  note fields = Runtime_Step_fields[OF assms, of d]
  have moved: "world_inv ?m" "alive ?m = alive ?w"
    using assms(1) by (simp_all add: MovementSystem_rewrite world_inv_pos_rewrite)
  have healed: "(case regen (Fin 2) ?dt h of None \<Rightarrow> h | Some h' \<Rightarrow> h') =
      (if fle (MaxHP h) (HP h) then h
       else h\<lparr>HP := if flt (MaxHP h) (fadd (HP h) (fmul (Fin 2) ?dt)) then MaxHP h else fadd (HP h) (fmul (Fin 2) ?dt)\<rparr>)"
    "regen (Fin 2) ?dt h \<noteq> None \<longleftrightarrow> \<not> fle (MaxHP h) (HP h)" for h
    by (simp_all add: regen_def Let_def)
  have "\<not> fle (Fin 2) (Fin 0)" by code_simp
  then have "world (Runtime_Step o1 o2 o3 d r) = ?m\<lparr>
      healths := (\<lambda>e. map_option (\<lambda>h. case regen (Fin 2) ?dt h of None \<Rightarrow> h | Some h' \<Rightarrow> h') (healths ?m e)),
      dirty := dirty ?m \<union> {e. \<exists>h. healths ?m e = Some h \<and> regen (Fin 2) ?dt h \<noteq> None}\<rparr>"
    using Runtime_Step_world[OF assms(1-3)] HealthRegenSystem_pointwise[OF moved(1), of o2] assms(3) moved(2)
    by (simp add: FixedDT_def)
  moreover have "TPS (loop (Runtime_Step o1 o2 o3 d r)) = TPS (loop r)"
    by (simp add: Runtime_Step_def Step_def Let_def split: prod.splits)
  ultimately show ?thesis
    unfolding Let_def using fields
    by (simp only: healed MovementSystem_pointwise[OF assms(1,2)] move_def) simp
qed

theorem Runtime_Step_correct_witness:
  "let r = NewRuntime\<lparr>world := sample_world, loop := NewGameLoop (Fin 2)\<rparr>; r' = Runtime_Step [2, 1] [1, 2] [1, 2] 7 r in
     positions (world r') 1 = Some \<lparr>PX = Fin 2, PY = Fin 0, PZ = Fin 0\<rparr>
     \<and> healths (world r') 1 = Some \<lparr>HP = Fin 11, MaxHP = Fin 100\<rparr> \<and> dirty (world r') = {1}"
proof -
  let ?r = "NewRuntime\<lparr>world := sample_world, loop := NewGameLoop (Fin 2)\<rparr>"
  have "visits [1, 2] (alive (world ?r))" "visits [2, 1] (alive (world ?r))" "world_inv (world ?r)"
    using sample_world_inv by (auto simp: visits_def)
  note step = Runtime_Step_correct[OF this(3,2,1,1), of 7]
  have half: "rnd64 (1 / 2) = Fin (1 / 2)"
    using rnd64_dyadic[of 1 1] by simp
  show ?thesis using step
    by (simp add: Let_def NewRuntime_def NewGameLoop_def NewWorld_def half set_eq_iff)
qed

end
