(* ===== verification/Snapshot.thy ===== *)
theory Snapshot
  imports Cell_Sim
begin

text \<open>
  Package \<open>snapshot\<close> (\<open>src/internal/cellsim/snapshot/snapshot.go\<close>): the persisted form of a cell
  without its players, its encoding from a runtime and its decoding into one. A nil runtime, a nil
  world or a nil loop is \<^const>\<open>None\<close>; a runtime's loop always runs on the runtime's world, so the
  check for a mismatch never fires. \<open>float32\<close> conversions round.
\<close>

record Vec3F =
  vx :: f64
  vy :: f64
  vz :: f64

record CellPersistEntity =
  pe_EntityId :: Entity
  pe_Position :: "Vec3F option"
  pe_Velocity :: "Vec3F option"
  pe_HpCur :: f64
  pe_HpMax :: f64
  pe_Flags :: nat

record CellPersist =
  SchemaVersion :: nat
  Tick :: "64 word"
  LoopTps :: f64
  Entities :: "CellPersistEntity option list"

datatype snapshot_error = NilPersist | UnsupportedSchema nat

definition schemaVersion :: nat where
  "schemaVersion = 1"

text \<open>The generated getters: a nil message reads as zero.\<close>

definition get_position :: "Vec3F option \<Rightarrow> Position" where
  "get_position ov = (case ov of None \<Rightarrow> \<lparr>PX = Fin 0, PY = Fin 0, PZ = Fin 0\<rparr>
                               | Some v \<Rightarrow> \<lparr>PX = vx v, PY = vy v, PZ = vz v\<rparr>)"

definition get_velocity :: "Vec3F option \<Rightarrow> Velocity" where
  "get_velocity ov = (case ov of None \<Rightarrow> zero_velocity
                               | Some v \<Rightarrow> \<lparr>VX = vx v, VY = vy v, VZ = vz v\<rparr>)"

definition vec_of_position :: "Position \<Rightarrow> Vec3F" where
  "vec_of_position p = \<lparr>vx = to_f32 (PX p), vy = to_f32 (PY p), vz = to_f32 (PZ p)\<rparr>"

definition vec_of_velocity :: "Velocity \<Rightarrow> Vec3F" where
  "vec_of_velocity v = \<lparr>vx = to_f32 (VX v), vy = to_f32 (VY v), vz = to_f32 (VZ v)\<rparr>"

section \<open>Encoding and decoding\<close>

definition encode_entity :: "World \<Rightarrow> (Entity \<Rightarrow> bool) option \<Rightarrow> Entity \<Rightarrow> CellPersistEntity option" where
  "encode_entity w skipEntity e =
     (if (case skipEntity of None \<Rightarrow> False | Some f \<Rightarrow> f e) then None
      else case positions w e of
             None \<Rightarrow> None
           | Some pos \<Rightarrow>
               (let vel = (case velocities w e of None \<Rightarrow> zero_velocity | Some v \<Rightarrow> v);
                    (cur, mx) = (case healths w e of
                                   None \<Rightarrow> (Fin 0, Fin 0)
                                 | Some h \<Rightarrow> if flt (Fin 0) (MaxHP h)
                                             then (to_f32 (HP h), to_f32 (MaxHP h)) else (Fin 0, Fin 0))
                in Some \<lparr>pe_EntityId = e, pe_Position = Some (vec_of_position pos),
                         pe_Velocity = Some (vec_of_velocity vel), pe_HpCur = cur, pe_HpMax = mx,
                         pe_Flags = 0\<rparr>))"

definition Encode :: "Entity list \<Rightarrow> Runtime option \<Rightarrow> (Entity \<Rightarrow> bool) option \<Rightarrow> CellPersist" where
  "Encode order orun skipEntity =
     (case orun of
        None \<Rightarrow> \<lparr>SchemaVersion = schemaVersion, Tick = 0, LoopTps = Fin 0, Entities = []\<rparr>
      | Some r \<Rightarrow>
          \<lparr>SchemaVersion = schemaVersion, Tick = TickCount (loop r), LoopTps = to_f32 (TPS (loop r)),
           Entities = map Some (List.map_filter (encode_entity (world r) skipEntity) order)\<rparr>)"

definition decode_entity :: "CellPersistEntity option \<Rightarrow> World \<Rightarrow> World" where
  "decode_entity oent w =
     (case oent of
        None \<Rightarrow> w
      | Some ent \<Rightarrow>
          if pe_EntityId ent = 0 then w
          else (let hasHealth = flt (Fin 0) (pe_HpMax ent);
                    h = (if hasHealth then \<lparr>HP = pe_HpCur ent, MaxHP = pe_HpMax ent\<rparr>
                         else \<lparr>HP = Fin 0, MaxHP = Fin 0\<rparr>)
                in RestorePersistEntity (pe_EntityId ent) (get_position (pe_Position ent))
                     (get_velocity (pe_Velocity ent)) h hasHealth w))"

text \<open>\<open>order\<close> is the visit of the live entities that are destroyed first.\<close>

definition Decode :: "Entity list \<Rightarrow> CellPersist option \<Rightarrow> Runtime option \<Rightarrow> snapshot_error + Runtime" where
  "Decode order op orun =
     (case (op, orun) of
        (Some p, Some r) \<Rightarrow>
          if SchemaVersion p \<noteq> schemaVersion then Inl (UnsupportedSchema (SchemaVersion p))
          else (let w0 = fold DestroyEntity order (world r);
                    g0 = (if flt (Fin 0) (LoopTps p) then (loop r)\<lparr>TPS := LoopTps p\<rparr> else loop r);
                    g1 = g0\<lparr>TickCount := Tick p\<rparr>
                in Inr (r\<lparr>world := fold decode_entity (Entities p) w0, loop := g1\<rparr>))
      | _ \<Rightarrow> Inl NilPersist)"

section \<open>What is left after the destruction\<close>

lemma fold_Destroy:
  "fold DestroyEntity es w =
     w\<lparr>alive := alive w - set es, positions := (positions w) |` (- set es), velocities := (velocities w) |` (- set es),
       healths := (healths w) |` (- set es), colliders := (colliders w) |` (- set es),
       triggerZones := (triggerZones w) |` (- set es), triggerSensors := (triggerSensors w) |` (- set es),
       dirty := dirty w - set es\<rparr>"
proof (induction es arbitrary: w)
  case (Cons e es)
  have "m(e := None) |` (- set es) = m |` (- set (e # es))" for m :: "Entity \<Rightarrow> 'c option"
    by (auto simp: restrict_map_def fun_eq_iff)
  with Cons show ?case
    by (simp add: DestroyEntity_def) (auto simp: restrict_map_def fun_eq_iff intro!: World.equality)
qed (simp add: restrict_map_def)

lemma Decode_cleared:
  assumes "world_inv w" "visits order (alive w)"
  shows "fold DestroyEntity order w = NewWorld\<lparr>nextID := nextID w\<rparr>"
proof -
  have "m |` (- alive w) = Map.empty" if "dom m \<subseteq> alive w" for m :: "Entity \<Rightarrow> 'c option"
    using that by (auto simp: restrict_map_def fun_eq_iff)
  moreover have "owned w \<subseteq> alive w" using assms(1) by (simp add: world_inv_def)
  ultimately show ?thesis
    using visits_set[OF assms(2)]
    by (intro World.equality) (auto simp: fold_Destroy NewWorld_def owned_def restrict_map_def fun_eq_iff)
qed

section \<open>What is restored\<close>

abbreviation keyed :: "CellPersistEntity list \<Rightarrow> (Entity \<times> CellPersistEntity) list" where
  "keyed ents \<equiv> map (\<lambda>x. (pe_EntityId x, x)) ents"

definition persisted_health :: "CellPersistEntity \<Rightarrow> Health option" where
  "persisted_health x =
     (if flt (Fin 0) (pe_HpMax x) then Some \<lparr>HP = pe_HpCur x, MaxHP = pe_HpMax x\<rparr> else None)"

lemma decode_entity_fields:
  assumes "pe_EntityId x \<noteq> 0"
  shows "alive (decode_entity (Some x) w) = insert (pe_EntityId x) (alive w)"
    "positions (decode_entity (Some x) w) = (positions w)(pe_EntityId x \<mapsto> get_position (pe_Position x))"
    "velocities (decode_entity (Some x) w) = (velocities w)(pe_EntityId x \<mapsto> get_velocity (pe_Velocity x))"
    "healths (decode_entity (Some x) w) = (healths w)(pe_EntityId x := persisted_health x)"
    "dirty (decode_entity (Some x) w) = dirty w" "colliders (decode_entity (Some x) w) = colliders w"
    "triggerZones (decode_entity (Some x) w) = triggerZones w"
    "triggerSensors (decode_entity (Some x) w) = triggerSensors w"
  using assms by (simp_all add: decode_entity_def RestorePersistEntity_def persisted_health_def Let_def)

lemma decode_entities:
  fixes ents :: "CellPersistEntity list" and w :: World
  defines "w' \<equiv> fold decode_entity (map Some ents) w"
  assumes "distinct (map pe_EntityId ents)" "0 \<notin> pe_EntityId ` set ents"
  shows "alive w' = alive w \<union> pe_EntityId ` set ents"
    "positions w' e = (case map_of (keyed ents) e of None \<Rightarrow> positions w e | Some x \<Rightarrow> Some (get_position (pe_Position x)))"
    "velocities w' e = (case map_of (keyed ents) e of None \<Rightarrow> velocities w e | Some x \<Rightarrow> Some (get_velocity (pe_Velocity x)))"
    "healths w' e = (case map_of (keyed ents) e of None \<Rightarrow> healths w e | Some x \<Rightarrow> persisted_health x)"
    "dirty w' = dirty w" "colliders w' = colliders w" "triggerZones w' = triggerZones w"
    "triggerSensors w' = triggerSensors w"
proof -
  have "alive w' = alive w \<union> pe_EntityId ` set ents \<and>
    positions w' e = (case map_of (keyed ents) e of None \<Rightarrow> positions w e | Some x \<Rightarrow> Some (get_position (pe_Position x))) \<and>
    velocities w' e = (case map_of (keyed ents) e of None \<Rightarrow> velocities w e | Some x \<Rightarrow> Some (get_velocity (pe_Velocity x))) \<and>
    healths w' e = (case map_of (keyed ents) e of None \<Rightarrow> healths w e | Some x \<Rightarrow> persisted_health x) \<and>
    dirty w' = dirty w \<and> colliders w' = colliders w \<and> triggerZones w' = triggerZones w \<and>
    triggerSensors w' = triggerSensors w"
    using assms(2,3) unfolding w'_def
  proof (induction ents arbitrary: w)
    case (Cons x ents)
    have x0: "pe_EntityId x \<noteq> 0" using Cons.prems(2) by auto
    have none: "map_of (keyed ents) (pe_EntityId x) = None"
      using Cons.prems(1) by (auto simp: map_of_eq_None_iff)
    from Cons.IH[of "decode_entity (Some x) w"] Cons.prems none show ?case
      by (auto simp: decode_entity_fields[OF x0] split: option.splits)
  qed simp
  then show "alive w' = alive w \<union> pe_EntityId ` set ents"
    "positions w' e = (case map_of (keyed ents) e of None \<Rightarrow> positions w e | Some x \<Rightarrow> Some (get_position (pe_Position x)))"
    "velocities w' e = (case map_of (keyed ents) e of None \<Rightarrow> velocities w e | Some x \<Rightarrow> Some (get_velocity (pe_Velocity x)))"
    "healths w' e = (case map_of (keyed ents) e of None \<Rightarrow> healths w e | Some x \<Rightarrow> persisted_health x)"
    "dirty w' = dirty w" "colliders w' = colliders w" "triggerZones w' = triggerZones w"
    "triggerSensors w' = triggerSensors w"
    by blast+
qed

lemma encode_entity_id: "encode_entity w skip e = Some x \<Longrightarrow> pe_EntityId x = e"
  by (auto simp: encode_entity_def Let_def split: if_splits option.splits prod.splits)

lemma map_filter_ids:
  "pe_EntityId ` set (List.map_filter (encode_entity w skip) es) = {e \<in> set es. encode_entity w skip e \<noteq> None}"
proof (induction es)
  case (Cons e es)
  show ?case
    using Cons encode_entity_id[of w skip e]
    by (cases "encode_entity w skip e") (auto simp: List.map_filter_simps)
qed (simp add: List.map_filter_simps)

lemma map_filter_keyed:
  "distinct es \<Longrightarrow> distinct (map pe_EntityId (List.map_filter (encode_entity w skip) es)) \<and>
     map_of (keyed (List.map_filter (encode_entity w skip) es)) e =
       (if e \<in> set es then encode_entity w skip e else None)"
proof (induction es)
  case (Cons d es)
  show ?case
  proof (cases "encode_entity w skip d")
    case None
    then show ?thesis using Cons by (auto simp: List.map_filter_simps)
  next
    case (Some x)
    have "d \<notin> pe_EntityId ` set (List.map_filter (encode_entity w skip) es)"
      using Cons.prems by (simp only: map_filter_ids) auto
    then show ?thesis
      using Cons Some encode_entity_id[OF Some] by (auto simp: List.map_filter_simps)
  qed
qed (simp add: List.map_filter_simps)

text \<open>Who is saved, and what a saved component becomes in \<open>float32\<close>.\<close>

definition saved :: "World \<Rightarrow> (Entity \<Rightarrow> bool) \<Rightarrow> Entity set" where
  "saved w skip = {e \<in> alive w. \<not> skip e \<and> positions w e \<noteq> None}"

definition f32_position :: "Position \<Rightarrow> Position" where
  "f32_position p = \<lparr>PX = to_f32 (PX p), PY = to_f32 (PY p), PZ = to_f32 (PZ p)\<rparr>"

definition f32_velocity :: "Velocity \<Rightarrow> Velocity" where
  "f32_velocity v = \<lparr>VX = to_f32 (VX v), VY = to_f32 (VY v), VZ = to_f32 (VZ v)\<rparr>"

definition f32_health :: "Health option \<Rightarrow> Health option" where
  "f32_health oh =
     (case oh of
        None \<Rightarrow> None
      | Some h \<Rightarrow> if flt (Fin 0) (MaxHP h) \<and> flt (Fin 0) (to_f32 (MaxHP h))
                  then Some \<lparr>HP = to_f32 (HP h), MaxHP = to_f32 (MaxHP h)\<rparr> else None)"

lemma rnd32_0 [simp]: "rnd32 0 = Fin 0"
  by (simp add: rnd32_def round_float_def round_rat_def not_le)

lemma encode_entity_fields:
  assumes "encode_entity w (Some skip) e = Some x"
  shows "map_option f32_position (positions w e) = Some (get_position (pe_Position x))"
    "Some (get_velocity (pe_Velocity x)) = Some (case velocities w e of None \<Rightarrow> zero_velocity | Some v \<Rightarrow> f32_velocity v)"
    "persisted_health x = f32_health (healths w e)"
  using assms
  by (auto simp: encode_entity_def Let_def f32_position_def f32_velocity_def f32_health_def persisted_health_def
      get_position_def get_velocity_def vec_of_position_def vec_of_velocity_def zero_velocity_def
      split: if_splits option.splits prod.splits)

lemma encode_entity_saved: "encode_entity w (Some skip) e \<noteq> None \<longleftrightarrow> \<not> skip e \<and> positions w e \<noteq> None"
  by (auto simp: encode_entity_def Let_def split: option.splits prod.splits)

text \<open>\<open>w'\<close> holds exactly the saved entities of \<open>w\<close>, in \<open>float32\<close>.\<close>

definition image_of :: "World \<Rightarrow> (Entity \<Rightarrow> bool) \<Rightarrow> World \<Rightarrow> bool" where
  "image_of w skip w' \<longleftrightarrow>
     alive w' = saved w skip \<and> dirty w' = {} \<and>
     (\<forall>e. positions w' e = (if e \<in> saved w skip then map_option f32_position (positions w e) else None)) \<and>
     (\<forall>e. velocities w' e =
       (if e \<in> saved w skip
        then Some (case velocities w e of None \<Rightarrow> zero_velocity | Some v \<Rightarrow> f32_velocity v) else None)) \<and>
     (\<forall>e. healths w' e = (if e \<in> saved w skip then f32_health (healths w e) else None))"

lemma Decode_image:
  assumes "world_inv (world r)" "visits ord (alive (world r))"
    and "world_inv (world r0)" "visits ord0 (alive (world r0))"
  shows "\<exists>r'. Decode ord0 (Some (Encode ord (Some r) (Some skip))) (Some r0) = Inr r' \<and>
    TickCount (loop r') = TickCount (loop r) \<and>
    TPS (loop r') = (if flt (Fin 0) (to_f32 (TPS (loop r))) then to_f32 (TPS (loop r)) else TPS (loop r0)) \<and>
    image_of (world r) skip (world r')"
proof -
  let ?w = "world r"
  let ?ents = "List.map_filter (encode_entity ?w (Some skip)) ord"
  let ?blank = "NewWorld\<lparr>nextID := nextID (world r0)\<rparr>"
  let ?w' = "fold decode_entity (map Some ?ents) ?blank"
  have ids: "pe_EntityId ` set ?ents = saved ?w skip"
    unfolding map_filter_ids encode_entity_saved saved_def visits_set[OF assms(2)] ..
  have z: "0 \<notin> pe_EntityId ` set ?ents"
    using assms(1) by (simp add: ids saved_def world_inv_def)
  have d: "distinct (map pe_EntityId ?ents)"
    using map_filter_keyed[OF visits_distinct[OF assms(2)]] by blast
  have k: "map_of (keyed ?ents) e = (if e \<in> alive ?w then encode_entity ?w (Some skip) e else None)" for e
    using map_filter_keyed[OF visits_distinct[OF assms(2)]] visits_set[OF assms(2)] by simp
  have k': "map_of (keyed ?ents) e = None \<longleftrightarrow> e \<notin> saved ?w skip" for e
    using encode_entity_saved[of ?w skip e] by (auto simp: k saved_def)
  note D = decode_entities[OF d z, of ?blank]
  have fields: "positions ?w' e = (if e \<in> saved ?w skip then map_option f32_position (positions ?w e) else None) \<and>
    velocities ?w' e = (if e \<in> saved ?w skip
        then Some (case velocities ?w e of None \<Rightarrow> zero_velocity | Some v \<Rightarrow> f32_velocity v) else None) \<and>
    healths ?w' e = (if e \<in> saved ?w skip then f32_health (healths ?w e) else None)" for e
  proof (cases "map_of (keyed ?ents) e")
    case None
    then have "e \<notin> saved ?w skip" using k'[of e] by blast
    then show ?thesis using D(2,3,4)[of e] None by (simp add: NewWorld_def)
  next
    case (Some x)
    then have "e \<in> saved ?w skip" using k'[of e] by auto
    moreover have "encode_entity ?w (Some skip) e = Some x"
      using Some k[of e] by (simp split: if_splits)
    note F = encode_entity_fields[OF this]
    ultimately show ?thesis using D(2,3,4)[of e] Some F(1)[symmetric] F(2,3) by simp
  qed
  have "\<exists>r'. Decode ord0 (Some (Encode ord (Some r) (Some skip))) (Some r0) = Inr r' \<and> world r' = ?w' \<and>
      TickCount (loop r') = TickCount (loop r) \<and>
      TPS (loop r') = (if flt (Fin 0) (to_f32 (TPS (loop r))) then to_f32 (TPS (loop r)) else TPS (loop r0))"
    using Decode_cleared[OF assms(3,4)] by (simp add: Decode_def Encode_def schemaVersion_def)
  moreover have "image_of ?w skip ?w'"
    using fields D(1,5) ids by (simp add: image_of_def NewWorld_def)
  ultimately show ?thesis by auto
qed

text \<open>
  C9: Saving and restoring a cell keeps its entities. Decoding the encoding of a well-formed
  runtime, into any well-formed runtime, succeeds and yields exactly the saved entities (the
  positioned ones the filter does not skip), with their positions, velocities and health rounded to
  \<open>float32\<close>, the tick and the tick rate; nothing of the target's old world is left, and nothing is
  marked dirty.
\<close>

theorem Encode_Decode_round_trip:
  assumes "world_inv (world r)" "visits ord (alive (world r))"
    and "world_inv (world r0)" "visits ord0 (alive (world r0))" "flt (Fin 0) (to_f32 (TPS (loop r)))"
  shows "\<exists>r'. Decode ord0 (Some (Encode ord (Some r) (Some skip))) (Some r0) = Inr r' \<and>
    TickCount (loop r') = TickCount (loop r) \<and> TPS (loop r') = to_f32 (TPS (loop r)) \<and>
    alive (world r') = saved (world r) skip \<and> dirty (world r') = {} \<and>
    (\<forall>e. positions (world r') e =
       (if e \<in> saved (world r) skip then map_option f32_position (positions (world r) e) else None)) \<and>
    (\<forall>e. velocities (world r') e =
       (if e \<in> saved (world r) skip
        then Some (case velocities (world r) e of None \<Rightarrow> zero_velocity | Some v \<Rightarrow> f32_velocity v) else None)) \<and>
    (\<forall>e. healths (world r') e =
       (if e \<in> saved (world r) skip then f32_health (healths (world r) e) else None))"
  using Decode_image[OF assms(1-4), of skip] assms(5) by (auto simp: image_of_def)

theorem Encode_Decode_round_trip_witness:
  "\<exists>r'. Decode [] (Some (Encode [1, 2] (Some (NewRuntime\<lparr>world := sample_world\<rparr>)) (Some (\<lambda>_. False)))) (Some NewRuntime)
     = Inr r' \<and> alive (world r') = {1}"
proof -
  have "flt (Fin 0) (to_f32 (Fin 25))" by code_simp
  then show ?thesis
    using Encode_Decode_round_trip[of "NewRuntime\<lparr>world := sample_world\<rparr>" "[1, 2]" NewRuntime "[]" "\<lambda>_. False"]
      sample_world_inv(1) world_inv_New
    by (auto simp: NewRuntime_def NewGameLoop_def defaultTPS_def visits_def saved_def NewWorld_def)
qed

end
