(* ===== verification/Replication.thy ===== *)
theory Replication
  imports Snapshot "HOL-Library.Product_Lexorder" "HOL-Library.Multiset"
begin

text \<open>
  What a subscriber sees of a cell: the replication order and the state messages of package
  \<open>replic\<close> (\<open>src/internal/replic/priority.go\<close>, \<open>replic.go\<close>), the interest set and the send interval
  (\<open>src/internal/grpc/cellsvc/aoi_replication.go\<close>), and one turn of the loop of
  \<open>SubscribeDeltas\<close> (\<open>src/internal/grpc/cellsvc/server.go\<close>). \<open>hypot\<close> stands for \<open>math.Hypot\<close>;
  intervals are nanoseconds.
\<close>

section \<open>Replication order\<close>

definition replicationTierPlayer :: nat where "replicationTierPlayer = 0"
definition replicationTierNPC :: nat where "replicationTierNPC = 1"

definition is_player :: "(Entity \<Rightarrow> bool) option \<Rightarrow> Entity \<Rightarrow> bool" where
  "is_player isPlayer e = (case isPlayer of None \<Rightarrow> False | Some f \<Rightarrow> f e)"

definition replicationTier :: "(Entity \<Rightarrow> bool) option \<Rightarrow> Entity \<Rightarrow> nat" where
  "replicationTier isPlayer e =
     (if is_player isPlayer e then replicationTierPlayer else replicationTierNPC)"

text \<open>
  \<open>sort.SliceStable\<close> with the comparison by tier and then by entity; a stable sort by a key.
\<close>

definition SortEntitiesReplicationPriority :: "Entity list \<Rightarrow> (Entity \<Rightarrow> bool) option \<Rightarrow> Entity list" where
  "SortEntitiesReplicationPriority entities isPlayer =
     (if length entities \<le> 1 then entities
      else sort_key (\<lambda>e. (replicationTier isPlayer e, e)) entities)"

section \<open>State messages\<close>

record EntityState =
  es_EntityId :: Entity
  es_Position :: "Vec3F option"
  es_HealthPct :: f64
  es_Flags :: nat

record Snapshot =
  snap_Tick :: "64 word"
  snap_Entities :: "EntityState list"

record Delta =
  d_Tick :: "64 word"
  d_FromTick :: "64 word"
  d_Changed :: "EntityState list"
  d_RemovedEntityIds :: "Entity list"

definition FlagEntityPlayer :: nat where
  "FlagEntityPlayer = 1"

definition build_EntityState :: "World \<Rightarrow> Entity \<Rightarrow> bool \<Rightarrow> EntityState option" where
  "build_EntityState w e isPlayer =
     (case positions w e of
        None \<Rightarrow> None
      | Some p \<Rightarrow>
          Some \<lparr>es_EntityId = e, es_Position = Some (vec_of_position p),
                es_HealthPct = (case healths w e of
                                  None \<Rightarrow> Fin 0
                                | Some h \<Rightarrow> if flt (Fin 0) (MaxHP h) then to_f32 (fdiv (HP h) (MaxHP h)) else Fin 0),
                es_Flags = (if isPlayer then FlagEntityPlayer else 0)\<rparr>)"

text \<open>The common loop: sort, then emit a state for each entity that has one.\<close>

definition states :: "World \<Rightarrow> Entity list \<Rightarrow> (Entity \<Rightarrow> bool) option \<Rightarrow> EntityState list" where
  "states w es isPlayer =
     List.map_filter (\<lambda>e. build_EntityState w e (is_player isPlayer e))
       (SortEntitiesReplicationPriority es isPlayer)"

definition BuildSnapshot :: "Entity list \<Rightarrow> World \<Rightarrow> 64 word \<Rightarrow> (Entity \<Rightarrow> bool) option \<Rightarrow> Snapshot" where
  "BuildSnapshot order w tick isPlayer =
     \<lparr>snap_Tick = tick, snap_Entities = states w (filter (\<lambda>e. positions w e \<noteq> None) order) isPlayer\<rparr>"

definition BuildSnapshotEntities :: "World \<Rightarrow> 64 word \<Rightarrow> Entity list \<Rightarrow> (Entity \<Rightarrow> bool) option \<Rightarrow> Snapshot" where
  "BuildSnapshotEntities w tick entities isPlayer =
     \<lparr>snap_Tick = tick, snap_Entities = states w entities isPlayer\<rparr>"

definition BuildDelta :: "World \<Rightarrow> 64 word \<Rightarrow> 64 word \<Rightarrow> Entity list \<Rightarrow> (Entity \<Rightarrow> bool) option \<Rightarrow> Delta" where
  "BuildDelta w tick fromTick changed isPlayer =
     \<lparr>d_Tick = tick, d_FromTick = fromTick, d_Changed = states w changed isPlayer, d_RemovedEntityIds = []\<rparr>"

section \<open>Interest and interval\<close>

definition replicationAOIRadius :: f64 where "replicationAOIRadius = Fin 50"
definition adaptiveReplicationNearDistance :: f64 where "adaptiveReplicationNearDistance = Fin 15"
definition replicationIntervalNear :: int where "replicationIntervalNear = 100000000"
definition replicationIntervalDefault :: int where "replicationIntervalDefault = 200000000"
definition replicationIntervalFar :: int where "replicationIntervalFar = 300000000"

definition maxFloat64 :: f64 where
  "maxFloat64 = Fin (of_int ((2 ^ 53 - 1) * 2 ^ 971))"

text \<open>The set of the source ranged over in the order \<open>order\<close>.\<close>

definition visibleEntitiesAOI :: "Entity list \<Rightarrow> World \<Rightarrow> SpatialGrid option \<Rightarrow> Entity \<Rightarrow> f64 \<Rightarrow> Entity list" where
  "visibleEntitiesAOI order w ogrid viewer radius =
     (case ogrid of
        None \<Rightarrow> []
      | Some g \<Rightarrow>
          (case positions w viewer of
             None \<Rightarrow> []
           | Some p \<Rightarrow>
               (let seen = insert viewer (set (QueryRadius w (PX p) (PZ p) radius g))
                in filter (\<lambda>e. e \<in> seen) order)))"

fun min_distance :: "(f64 \<Rightarrow> f64 \<Rightarrow> f64) \<Rightarrow> World \<Rightarrow> Entity \<Rightarrow> Position \<Rightarrow> f64 \<Rightarrow> Entity list \<Rightarrow> f64" where
  "min_distance hypot w viewer vp m [] = m"
| "min_distance hypot w viewer vp m (e # es) =
     (if e = viewer then min_distance hypot w viewer vp m es
      else case positions w e of
             None \<Rightarrow> min_distance hypot w viewer vp m es
           | Some p \<Rightarrow>
               (let d = hypot (fsub (PX p) (PX vp)) (fsub (PZ p) (PZ vp))
                in min_distance hypot w viewer vp (if flt d m then d else m) es))"

definition pickAdaptiveReplicationInterval :: "(f64 \<Rightarrow> f64 \<Rightarrow> f64) \<Rightarrow> World \<Rightarrow> Entity \<Rightarrow> Entity list \<Rightarrow> int" where
  "pickAdaptiveReplicationInterval hypot w viewer visible =
     (case positions w viewer of
        None \<Rightarrow> replicationIntervalDefault
      | Some vp \<Rightarrow>
          (let minDist = min_distance hypot w viewer vp maxFloat64 visible
           in if feq minDist maxFloat64 then replicationIntervalFar
              else if fle minDist adaptiveReplicationNearDistance then replicationIntervalNear
              else replicationIntervalDefault))"

section \<open>One turn of SubscribeDeltas\<close>

text \<open>
  The variables of the loop. \<open>first\<close> says that no snapshot has been sent yet.
\<close>

record Subscriber =
  sub_interval :: int
  sub_viewer :: Entity
  sub_useAOI :: bool
  sub_prevVisible :: "Entity set option"
  sub_lastSendTick :: "64 word"
  sub_first :: bool

datatype WorldChunk = ChunkSnapshot Snapshot | ChunkDelta Delta

definition new_subscriber :: "Entity \<Rightarrow> Subscriber" where
  "new_subscriber viewer =
     \<lparr>sub_interval = replicationIntervalDefault, sub_viewer = viewer, sub_useAOI = (viewer \<noteq> 0),
      sub_prevVisible = None, sub_lastSendTick = 0, sub_first = True\<rparr>"

text \<open>The orders of the ranges over the live set, the dirty set, the interest set and the two sets of views.\<close>

record orders =
  o_alive :: "Entity list"
  o_dirty :: "Entity list"
  o_seen :: "Entity list"
  o_cur :: "Entity list"
  o_prev :: "Entity list"

definition first_turn :: "(f64 \<Rightarrow> f64 \<Rightarrow> f64) \<Rightarrow> (Entity \<Rightarrow> bool) \<Rightarrow> orders \<Rightarrow> 64 word \<Rightarrow> SpatialGrid option \<Rightarrow>
    World \<Rightarrow> Subscriber \<Rightarrow> WorldChunk \<times> Subscriber" where
  "first_turn hypot isPlayer ord tick grid w sub =
     (if sub_useAOI sub \<and> grid \<noteq> None then
        (let vis = visibleEntitiesAOI (o_seen ord) w grid (sub_viewer sub) replicationAOIRadius
         in (ChunkSnapshot (BuildSnapshotEntities w tick vis (Some isPlayer)),
             sub\<lparr>sub_prevVisible := Some (set vis),
                 sub_interval := pickAdaptiveReplicationInterval hypot w (sub_viewer sub) vis,
                 sub_first := False, sub_lastSendTick := tick\<rparr>))
      else (ChunkSnapshot (BuildSnapshot (o_alive ord) w tick (Some isPlayer)),
            sub\<lparr>sub_interval := replicationIntervalDefault, sub_first := False, sub_lastSendTick := tick\<rparr>))"

definition delta_turn :: "(f64 \<Rightarrow> f64 \<Rightarrow> f64) \<Rightarrow> (Entity \<Rightarrow> bool) \<Rightarrow> orders \<Rightarrow> 64 word \<Rightarrow> SpatialGrid option \<Rightarrow>
    Entity list \<Rightarrow> World \<Rightarrow> Subscriber \<Rightarrow> Delta \<times> Subscriber" where
  "delta_turn hypot isPlayer ord tick grid changedEnts w sub =
     (if sub_useAOI sub \<and> grid \<noteq> None then
        (let curSlice = visibleEntitiesAOI (o_seen ord) w grid (sub_viewer sub) replicationAOIRadius;
             cur = set curSlice;
             changed0 = filter (\<lambda>e. e \<in> cur \<or> e = sub_viewer sub) changedEnts;
             entered = (case sub_prevVisible sub of
                          None \<Rightarrow> []
                        | Some prev \<Rightarrow> filter (\<lambda>e. e \<in> cur \<and> e \<notin> prev \<and> e \<notin> set changed0) (o_cur ord));
             delta = BuildDelta w tick (sub_lastSendTick sub) (changed0 @ entered) (Some isPlayer);
             removed = (case sub_prevVisible sub of
                          None \<Rightarrow> []
                        | Some prev \<Rightarrow> filter (\<lambda>e. e \<in> prev \<and> e \<notin> cur) (o_prev ord))
         in (delta\<lparr>d_RemovedEntityIds := removed\<rparr>,
             sub\<lparr>sub_interval := pickAdaptiveReplicationInterval hypot w (sub_viewer sub) curSlice,
                 sub_prevVisible := Some cur, sub_lastSendTick := tick\<rparr>))
      else (BuildDelta w tick (sub_lastSendTick sub) changedEnts (Some isPlayer),
            sub\<lparr>sub_interval := replicationIntervalDefault, sub_lastSendTick := tick\<rparr>))"

text \<open>
  One turn after the timer fires: the chunk to send, if any, the loop variables and the world,
  whose dirty set the turn empties. A failing \<open>Send\<close> ends the stream after the turn.
\<close>

definition subscribe_turn :: "(f64 \<Rightarrow> f64 \<Rightarrow> f64) \<Rightarrow> (Entity \<Rightarrow> bool) \<Rightarrow> orders \<Rightarrow> 64 word \<Rightarrow> SpatialGrid option \<Rightarrow>
    World \<Rightarrow> Subscriber \<Rightarrow> WorldChunk option \<times> Subscriber \<times> World" where
  "subscribe_turn hypot isPlayer ord tick grid w sub =
     (let sub1 = (if sub_useAOI sub \<and> (positions w (sub_viewer sub) = None \<or> grid = None)
                  then sub\<lparr>sub_useAOI := False\<rparr> else sub)
      in if sub_first sub1 then
           (let (chunk, sub2) = first_turn hypot isPlayer ord tick grid w sub1 in (Some chunk, sub2, w))
         else
           (let (dirtied, w') = TakeDirtyEntities (o_dirty ord) w;
                (delta, sub2) = delta_turn hypot isPlayer ord tick grid dirtied w' sub1
            in (if d_Changed delta \<noteq> [] \<or> d_RemovedEntityIds delta \<noteq> [] then Some (ChunkDelta delta) else None,
                sub2, w')))"

section \<open>The order of a snapshot\<close>

lemma Sort_is_sort: "SortEntitiesReplicationPriority es ip = sort_key (\<lambda>e. (replicationTier ip e, e)) es"
  by (cases es; cases "tl es") (auto simp: SortEntitiesReplicationPriority_def)

lemma set_Sort [simp]: "set (SortEntitiesReplicationPriority es ip) = set es"
  by (simp add: Sort_is_sort)

lemma build_EntityState_id: "build_EntityState w e b = Some s \<Longrightarrow> es_EntityId s = e"
  by (auto simp: build_EntityState_def split: option.splits)

lemma build_EntityState_None: "build_EntityState w e b = None \<longleftrightarrow> positions w e = None"
  by (auto simp: build_EntityState_def split: option.splits)

lemma map_filter_states:
  "map es_EntityId (List.map_filter (\<lambda>e. build_EntityState w e (f e)) es) = filter (\<lambda>e. positions w e \<noteq> None) es"
proof (induction es)
  case (Cons e es)
  then show ?case
    using build_EntityState_id[of w e "f e"] build_EntityState_None[of w e "f e"]
    by (cases "build_EntityState w e (f e)") (auto simp: List.map_filter_simps)
qed (simp add: List.map_filter_simps)

lemma states_ids:
  "map es_EntityId (states w es ip) =
     filter (\<lambda>e. positions w e \<noteq> None) (SortEntitiesReplicationPriority es ip)"
  by (simp add: states_def map_filter_states)

text \<open>
  A snapshot shows the whole cell once, players first. Its entities are exactly the live
  entities that have a position, each once; a player never follows a non-player, and within each
  group identifiers increase; so the message does not depend on the order of the map.
\<close>

theorem BuildSnapshot_order:
  assumes "world_inv w" "visits order (alive w)"
  shows "let ids = map es_EntityId (snap_Entities (BuildSnapshot order w tick ip)) in
    distinct ids \<and> set ids = {e \<in> alive w. positions w e \<noteq> None} \<and>
    sorted_wrt (\<lambda>a b. is_player ip b \<longrightarrow> is_player ip a) ids \<and>
    sorted_wrt (\<lambda>a b. is_player ip a = is_player ip b \<longrightarrow> a < b) ids"
proof -
  let ?es = "filter (\<lambda>e. positions w e \<noteq> None) order"
  let ?k = "\<lambda>e. (replicationTier ip e, e)"
  let ?ids = "map es_EntityId (snap_Entities (BuildSnapshot order w tick ip))"
  have ids: "?ids = sort_key ?k ?es"
    by (simp add: BuildSnapshot_def states_ids Sort_is_sort filter_sort)
  have d: "distinct ?ids"
    using visits_distinct[OF assms(2)] by (simp add: ids)
  have st: "set ?ids = {e \<in> alive w. positions w e \<noteq> None}"
    using visits_set[OF assms(2)] by (auto simp: ids)
  have "sorted_wrt (\<lambda>a b. ?k a \<le> ?k b) ?ids"
    unfolding ids using sorted_sort_key[of ?k ?es] by (simp only: sorted_map)
  then have s: "sorted_wrt (\<lambda>a b. ?k a \<le> ?k b \<and> a \<noteq> b) ?ids"
    using d by (rule sorted_wrt_distinct)
  have "sorted_wrt (\<lambda>a b. is_player ip b \<longrightarrow> is_player ip a) ?ids"
    "sorted_wrt (\<lambda>a b. is_player ip a = is_player ip b \<longrightarrow> a < b) ?ids"
    by (rule sorted_wrt_mono_rel[OF _ s];
        auto simp: replicationTier_def replicationTierPlayer_def replicationTierNPC_def split: if_splits)+
  with d st show ?thesis
    by (simp add: Let_def)
qed

theorem BuildSnapshot_order_witness:
  "distinct (map es_EntityId (snap_Entities (BuildSnapshot [2, 1] sample_world 7 None)))"
  using BuildSnapshot_order[OF sample_world_inv, of 7 None] by (simp add: Let_def)

section \<open>A subscriber keeps its view\<close>

text \<open>The entities a client shows, from the chunks it has received.\<close>

fun client_apply :: "WorldChunk option \<Rightarrow> Entity set \<Rightarrow> Entity set" where
  "client_apply None shown = shown"
| "client_apply (Some (ChunkSnapshot s)) shown = set (map es_EntityId (snap_Entities s))"
| "client_apply (Some (ChunkDelta d)) shown =
     (shown \<union> set (map es_EntityId (d_Changed d))) - set (d_RemovedEntityIds d)"

text \<open>The interest set of a viewer.\<close>

definition interest :: "World \<Rightarrow> SpatialGrid \<Rightarrow> Entity \<Rightarrow> Entity set" where
  "interest w g viewer =
     (case positions w viewer of
        None \<Rightarrow> {}
      | Some p \<Rightarrow> insert viewer (set (QueryRadius w (PX p) (PZ p) replicationAOIRadius g)))"

lemma query_positions: "e \<in> set (QueryRadius w cx cz r g) \<Longrightarrow> positions w e \<noteq> None"
proof -
  let ?ks = "List.product [fst (key g (fsub cx r) (fsub cz r))..fst (key g (fadd cx r) (fadd cz r))]
          [snd (key g (fsub cx r) (fsub cz r))..snd (key g (fadd cx r) (fadd cz r))]"
  assume "e \<in> set (QueryRadius w cx cz r g)"
  then show ?thesis
    using query_row_spec[of "[]" w cx cz r g ?ks] by (auto simp: QueryRadius_rows hit_def split: if_splits)
qed

lemma interest_positions: "e \<in> interest w g viewer \<Longrightarrow> positions w e \<noteq> None"
  using query_positions by (auto simp: interest_def split: option.splits)

lemma visible_interest:
  "interest w g viewer \<subseteq> set ord \<Longrightarrow>
     set (visibleEntitiesAOI ord w (Some g) viewer replicationAOIRadius) = interest w g viewer"
  by (auto simp: visibleEntitiesAOI_def interest_def split: option.splits)

lemma QueryRadius_take_dirty [simp]:
  "QueryRadius (w\<lparr>dirty := D\<rparr>) cx cz r g = QueryRadius w cx cz r g"
proof -
  have "query_bucket (w\<lparr>dirty := D\<rparr>) cx cz r es out = query_bucket w cx cz r es out" for es out
    by (induction es arbitrary: out) (auto split: option.splits)
  then have "query_bucket (w\<lparr>dirty := D\<rparr>) cx cz r es = query_bucket w cx cz r es" for es
    by (simp add: fun_eq_iff)
  then show ?thesis by (simp add: QueryRadius_def)
qed

lemma interest_take_dirty [simp]: "interest (w\<lparr>dirty := D\<rparr>) g v = interest w g v"
  by (simp add: interest_def split: option.splits)

lemma states_set: "set (map es_EntityId (states w es ip)) = {e \<in> set es. positions w e \<noteq> None}"
  by (simp add: states_ids)

lemma states_Nil_iff: "states w es ip = [] \<longleftrightarrow> (\<forall>e \<in> set es. positions w e = None)"
  using states_ids[of w es ip] by (auto simp: filter_empty_conv dest: arg_cong[of _ _ "\<lambda>l. l = []"])


lemma viewer_interest: "positions w v \<noteq> None \<Longrightarrow> v \<in> interest w g v"
  by (auto simp: interest_def)

lemma delta_turn_view:
  fixes g :: SpatialGrid and w :: World and sub :: Subscriber
  defines "I \<equiv> interest w g (sub_viewer sub)"
  assumes "sub_useAOI sub" "positions w (sub_viewer sub) \<noteq> None" "sub_prevVisible sub = Some shown"
    and "I \<subseteq> set (o_seen ord)" "I \<subseteq> set (o_cur ord)" "shown \<subseteq> set (o_prev ord)"
    and "delta_turn hypot ip ord tick (Some g) es w sub = (d, sub')"
  shows "(shown \<union> set (map es_EntityId (d_Changed d))) - set (d_RemovedEntityIds d) = I \<and>
    sub_prevVisible sub' = Some I \<and> sub_first sub' = sub_first sub"
proof -
  have cur: "set (visibleEntitiesAOI (o_seen ord) w (Some g) (sub_viewer sub) replicationAOIRadius) = I"
    using visible_interest assms(5) by (simp add: I_def)
  have v: "sub_viewer sub \<in> I" using viewer_interest assms(3) by (simp add: I_def)
  let ?c0 = "filter (\<lambda>e. e \<in> I \<or> e = sub_viewer sub) es"
  let ?en = "filter (\<lambda>e. e \<in> I \<and> e \<notin> shown \<and> e \<notin> set ?c0) (o_cur ord)"
  have d: "d_Changed d = states w (?c0 @ ?en) (Some ip)"
    "d_RemovedEntityIds d = filter (\<lambda>e. e \<in> shown \<and> e \<notin> I) (o_prev ord)"
    "sub_prevVisible sub' = Some I" "sub_first sub' = sub_first sub"
    using assms(8) by (auto simp: delta_turn_def Let_def assms(2,4) cur BuildDelta_def)
  have "I - shown \<subseteq> set (map es_EntityId (d_Changed d))"
    using assms(6) interest_positions[of _ w g "sub_viewer sub"]
    unfolding d(1) states_set I_def by auto
  moreover have "set (map es_EntityId (d_Changed d)) \<subseteq> I"
    unfolding d(1) states_set using v by auto
  moreover have "set (d_RemovedEntityIds d) = shown - I"
    unfolding d(2) using assms(7) by auto
  ultimately show ?thesis using d(3,4) by blast
qed

text \<open>
  C10: A viewer's client shows exactly its interest set. While the viewer has a position, every turn
  of \<open>SubscribeDeltas\<close> leaves the entities shown by the client (built from the snapshot and the
  deltas received, no message for an empty delta) equal to the entities within the replication
  radius together with the viewer, which is also what the server remembers for the next turn.
\<close>

theorem subscriber_view:
  assumes "sub_useAOI sub" "positions w (sub_viewer sub) \<noteq> None"
    and "sub_first sub \<or> sub_prevVisible sub = Some shown"
    and "interest w g (sub_viewer sub) \<subseteq> set (o_seen ord)" "interest w g (sub_viewer sub) \<subseteq> set (o_cur ord)"
    and "shown \<subseteq> set (o_prev ord)"
    and "subscribe_turn hypot ip ord tick (Some g) w sub = (chunk, sub', w')"
  shows "client_apply chunk shown = interest w g (sub_viewer sub) \<and>
    sub_prevVisible sub' = Some (interest w g (sub_viewer sub)) \<and> \<not> sub_first sub'"
proof (cases "sub_first sub")
  case True
  let ?vis = "visibleEntitiesAOI (o_seen ord) w (Some g) (sub_viewer sub) replicationAOIRadius"
  have t: "chunk = Some (ChunkSnapshot (BuildSnapshotEntities w tick ?vis (Some ip)))"
    "sub_prevVisible sub' = Some (set ?vis)" "\<not> sub_first sub'"
    using assms(1,2,7) True by (auto simp: subscribe_turn_def first_turn_def Let_def)
  have "{e \<in> interest w g (sub_viewer sub). positions w e \<noteq> None} = interest w g (sub_viewer sub)"
    using interest_positions by blast
  then have "client_apply chunk shown = interest w g (sub_viewer sub)"
    unfolding t(1) client_apply.simps BuildSnapshotEntities_def
    by (simp only: Snapshot.simps states_set visible_interest[OF assms(4)])
  then show ?thesis
    using t visible_interest[OF assms(4)] by simp
next
  case False
  let ?T = "TakeDirtyEntities (o_dirty ord) w"
  have w': "snd ?T = w\<lparr>dirty := {}\<rparr>"
    by (simp add: TakeDirtyEntities_def)
  obtain d where t: "delta_turn hypot ip ord tick (Some g) (fst ?T) (snd ?T) sub = (d, sub')"
    and chunk: "chunk = (if d_Changed d \<noteq> [] \<or> d_RemovedEntityIds d \<noteq> [] then Some (ChunkDelta d) else None)"
    using assms(1,2,7) False by (auto simp: subscribe_turn_def Let_def split: prod.splits)
  have "(shown \<union> set (map es_EntityId (d_Changed d))) - set (d_RemovedEntityIds d) =
      interest (snd ?T) g (sub_viewer sub) \<and>
    sub_prevVisible sub' = Some (interest (snd ?T) g (sub_viewer sub)) \<and> sub_first sub' = sub_first sub"
    using assms False by (intro delta_turn_view[OF _ _ _ _ _ _ t]) (simp_all add: w')
  then have v: "(shown \<union> set (map es_EntityId (d_Changed d))) - set (d_RemovedEntityIds d) =
      interest w g (sub_viewer sub)"
    "sub_prevVisible sub' = Some (interest w g (sub_viewer sub))" "\<not> sub_first sub'"
    using False by (simp_all only: w' interest_take_dirty) simp_all
  show ?thesis
  proof (cases "d_Changed d \<noteq> [] \<or> d_RemovedEntityIds d \<noteq> []")
    case True
    then have "chunk = Some (ChunkDelta d)" by (simp add: chunk)
    with v show ?thesis by simp
  next
    case False
    then have "chunk = None" "d_Changed d = []" "d_RemovedEntityIds d = []" by (simp_all add: chunk)
    with v show ?thesis by simp
  qed
qed

abbreviation all_orders :: "Entity list \<Rightarrow> orders" where
  "all_orders es \<equiv> \<lparr>o_alive = es, o_dirty = es, o_seen = es, o_cur = es, o_prev = es\<rparr>"

theorem subscriber_view_witness:
  "\<exists>chunk sub' w'. subscribe_turn (\<lambda>_ _. Fin 0) (\<lambda>_. True) (all_orders [1]) 3
      (Some (NewSpatialGrid (Fin 50))) origin_world (new_subscriber 1) = (chunk, sub', w') \<and>
     client_apply chunk {} = interest origin_world (NewSpatialGrid (Fin 50)) 1"
proof -
  let ?g = "NewSpatialGrid (Fin 50)"
  have p: "positions origin_world e \<noteq> None \<longleftrightarrow> e = 1" for e
    by (simp add: NewWorld_def)
  have "interest origin_world ?g 1 \<subseteq> {1}"
    using interest_positions[of _ origin_world ?g 1] p by blast
  moreover obtain chunk sub' w' where
    "subscribe_turn (\<lambda>_ _. Fin 0) (\<lambda>_. True) (all_orders [1]) 3 (Some ?g) origin_world (new_subscriber 1)
      = (chunk, sub', w')"
    by (metis prod_cases3)
  moreover have "sub_useAOI (new_subscriber 1)" "sub_viewer (new_subscriber 1) = 1" "sub_first (new_subscriber 1)"
    by (simp_all add: new_subscriber_def)
  ultimately show ?thesis
    using subscriber_view[of "new_subscriber 1" origin_world "{}" ?g "all_orders [1]" "\<lambda>_ _. Fin 0" "\<lambda>_. True" 3] p
    by (metis orders.select_convs(3,4) list.set(1,2) empty_subsetI)
qed

section \<open>Two subscribers share one dirty set\<close>

text \<open>
  A second subscriber misses changes. The dirty set belongs to the world, and the turn that
  sends it empties it: when an entity has moved since both subscribers' last chunks, the first of
  them to wake receives the new position, and the other one receives nothing in its next turn.
\<close>

theorem subscribers_steal_changes:
  "\<exists>w sub1 sub2 d w1.
     world_inv w \<and> \<not> sub_first sub1 \<and> \<not> sub_first sub2 \<and> 1 \<in> dirty w \<and>
     fst (subscribe_turn hypot ip (all_orders [1]) 8 None w sub1) = Some (ChunkDelta d) \<and>
     map es_EntityId (d_Changed d) = [1] \<and>
     snd (snd (subscribe_turn hypot ip (all_orders [1]) 8 None w sub1)) = w1 \<and>
     fst (subscribe_turn hypot ip (all_orders [1]) 8 None w1 sub2) = None"
proof -
  let ?w = "origin_world\<lparr>dirty := {1}\<rparr>"
  let ?sub = "(new_subscriber 0)\<lparr>sub_first := False\<rparr>"
  let ?d = "BuildDelta origin_world 8 0 [1] (Some ip)"
  have inv: "world_inv ?w"
    using origin_world_inv(1) by (auto simp: world_inv_def owned_def NewWorld_def)
  have ids: "map es_EntityId (d_Changed ?d) = [1]"
    by (simp add: BuildDelta_def states_ids Sort_is_sort NewWorld_def)
  then have ne: "d_Changed ?d \<noteq> []" by auto
  have blank: "?w\<lparr>dirty := {}\<rparr> = origin_world"
    by (simp add: NewWorld_def)
  have t1: "fst (subscribe_turn hypot ip (all_orders [1]) 8 None ?w ?sub) = Some (ChunkDelta ?d)"
    "snd (snd (subscribe_turn hypot ip (all_orders [1]) 8 None ?w ?sub)) = origin_world"
    using ne blank
    by (simp_all add: subscribe_turn_def delta_turn_def TakeDirtyEntities_def new_subscriber_def)
  have "dirty origin_world = {}" by (simp add: NewWorld_def)
  then have t2: "fst (subscribe_turn hypot ip (all_orders [1]) 8 None origin_world ?sub) = None"
    by (simp add: subscribe_turn_def delta_turn_def TakeDirtyEntities_def new_subscriber_def BuildDelta_def
        states_def Sort_is_sort List.map_filter_simps)
  show ?thesis
    using inv t1 t2 ids
    by (intro exI[of _ ?w] exI[of _ ?sub] exI[of _ ?d] exI[of _ origin_world] conjI)
      (simp_all add: new_subscriber_def)
qed

end
