(* ===== verification/Cell_Server.thy ===== *)
theory Cell_Server
  imports Replication Partition
begin

text \<open>
  The gRPC server of a cell (\<open>src/internal/grpc/cellsvc/server.go\<close>, \<open>input.go\<close>): players joining
  and leaving, input, the three calls of a player handoff, the commands of \<open>Update\<close>, planning a
  split, migration candidates and the ping. A handler that takes the locks \<open>playerMu\<close> and \<open>Sim.Mu\<close>
  several times is split into its critical sections, one definition each, and the handler is
  their composition; interleavings of sections are steps of a transition system below. Maps that
  may be nil read as empty maps. \<open>Cos\<close> and \<open>Sin\<close> stand for \<open>math.Cos\<close> and \<open>math.Sin\<close>, the
  record \<open>json\<close> for package \<open>protojson\<close>, and the readings of \<open>time.Now\<close> (nanoseconds, 0 the zero
  time) are arguments.
\<close>

section \<open>Input\<close>

record ClientInput =
  ci_Seq :: nat
  ci_InputMask :: "32 word"
  ci_AimYawDeg :: f64

definition InputForward :: "32 word" where "InputForward = 1"
definition InputBack :: "32 word" where "InputBack = 2"
definition InputLeft :: "32 word" where "InputLeft = 4"
definition InputRight :: "32 word" where "InputRight = 8"

definition math_Pi :: f64 where
  "math_Pi = Fin (884279719003555 / 281474976710656)"

unbundle bit_operations_syntax

definition velocityFromClientInput :: "(f64 \<Rightarrow> f64) \<Rightarrow> (f64 \<Rightarrow> f64) \<Rightarrow> ClientInput option \<Rightarrow> Velocity" where
  "velocityFromClientInput Cos Sin oin =
     (case oin of
        None \<Rightarrow> zero_velocity
      | Some i \<Rightarrow>
          (let speed = Fin 6;
               m = ci_InputMask i;
               vz0 = (if m AND InputForward \<noteq> 0 then fadd (Fin 0) speed else Fin 0);
               vz1 = (if m AND InputBack \<noteq> 0 then fsub vz0 speed else vz0);
               vx0 = (if m AND InputLeft \<noteq> 0 then fsub (Fin 0) speed else Fin 0);
               vx1 = (if m AND InputRight \<noteq> 0 then fadd vx0 speed else vx0);
               yaw = fdiv (fmul (ci_AimYawDeg i) math_Pi) (Fin 180)
           in if \<not> feq vx1 (Fin 0) \<or> \<not> feq vz1 (Fin 0) then
                (let c = Cos yaw; s = Sin yaw
                 in \<lparr>VX = fsub (fmul vx1 c) (fmul vz1 s), VY = Fin 0, VZ = fadd (fmul vx1 s) (fmul vz1 c)\<rparr>)
              else \<lparr>VX = vx1, VY = Fin 0, VZ = vz1\<rparr>))"

section \<open>The server\<close>

record PlayerHandoffState =
  hs_PlayerId :: string
  hs_Position :: "Vec3F option"
  hs_Velocity :: "Vec3F option"
  hs_HpCur :: f64
  hs_HpMax :: f64
  hs_Tick :: "64 word"
  hs_HandoffToken :: string
  hs_SourceCellId :: string
  hs_TargetCellId :: string
  hs_SourceEntityId :: Entity

record preparedPlayerHandoff =
  pp_playerID :: string
  pp_token :: string
  pp_entityID :: Entity
  pp_finalized :: bool
  pp_createdAt :: int
  pp_payload :: "PlayerHandoffState option"

text \<open>\<open>onApplyInput\<close> says whether a hook is set, \<open>applyReports\<close> lists the calls of the hook.\<close>

record Server =
  CellID :: string
  Sim :: "Runtime option"
  srv_Bounds :: "Bounds option"
  srv_Level :: int32
  players :: "Entity set"
  playerByID :: "string \<rightharpoonup> Entity"
  frozenByID :: "string set"
  preparedByID :: "string \<rightharpoonup> string"
  preparedByTk :: "string \<rightharpoonup> preparedPlayerHandoff"
  acceptedByTk :: "string \<rightharpoonup> Entity"
  onApplyInput :: bool
  applyReports :: "bool list"
  splitDrain :: bool

definition handoffInFlightStaleTimeout :: int where
  "handoffInFlightStaleTimeout = 5000000000"

text \<open>\<open>order\<close> is the visit of \<open>preparedByID\<close>.\<close>

definition prune_one :: "int \<Rightarrow> string \<Rightarrow> Server \<Rightarrow> Server" where
  "prune_one now playerID s =
     (case preparedByID s playerID of
        None \<Rightarrow> s
      | Some token \<Rightarrow>
          if (case preparedByTk s token of
                None \<Rightarrow> True
              | Some pp \<Rightarrow> pp_finalized pp \<or> pp_createdAt pp = 0 \<or>
                           now - pp_createdAt pp > handoffInFlightStaleTimeout)
          then s\<lparr>preparedByID := (preparedByID s)(playerID := None),
                 frozenByID := frozenByID s - {playerID},
                 preparedByTk := (if token \<noteq> [] then (preparedByTk s)(token := None) else preparedByTk s)\<rparr>
          else s)"

definition pruneStalePreparedLocked :: "string list \<Rightarrow> int \<Rightarrow> Server \<Rightarrow> Server" where
  "pruneStalePreparedLocked order now s = fold (prune_one now) order s"

definition SetApplyInputHook :: "bool \<Rightarrow> Server \<Rightarrow> Server" where
  "SetApplyInputHook b s = s\<lparr>onApplyInput := b\<rparr>"

definition PlayerCount :: "Server \<Rightarrow> nat" where
  "PlayerCount s = card (dom (playerByID s))"

definition isPlayer :: "Server \<Rightarrow> Entity \<Rightarrow> bool" where
  "isPlayer s e \<longleftrightarrow> e \<in> players s"

text \<open>The first player, in the order of the visit of \<open>playerByID\<close>, whose entity it is.\<close>

definition playerIDByEntity :: "string list \<Rightarrow> Server \<Rightarrow> Entity \<Rightarrow> string" where
  "playerIDByEntity order s e =
     (case find (\<lambda>pid. playerByID s pid = Some e) order of None \<Rightarrow> [] | Some pid \<Rightarrow> pid)"

definition reportApplyInput :: "bool \<Rightarrow> Server \<Rightarrow> Server" where
  "reportApplyInput b s = (if onApplyInput s then s\<lparr>applyReports := applyReports s @ [b]\<rparr> else s)"

text \<open>Access to the world of the simulation.\<close>

definition with_world :: "(World \<Rightarrow> World) \<Rightarrow> Server \<Rightarrow> Server" where
  "with_world f s = s\<lparr>Sim := map_option (\<lambda>r. r\<lparr>world := f (world r)\<rparr>) (Sim s)\<rparr>"

section \<open>Join\<close>

record JoinResponse =
  jr_Ok :: bool
  jr_CellId :: string
  jr_Message :: string
  jr_EntityId :: Entity

text \<open>The section under \<open>playerMu\<close> that answers at once or lets the join go on.\<close>

definition join_check :: "string \<Rightarrow> Server \<Rightarrow> JoinResponse option" where
  "join_check pid s =
     (case playerByID s pid of
        Some existing \<Rightarrow> Some \<lparr>jr_Ok = True, jr_CellId = CellID s, jr_Message = ''already_joined'', jr_EntityId = existing\<rparr>
      | None \<Rightarrow>
          if splitDrain s
          then Some \<lparr>jr_Ok = False, jr_CellId = CellID s, jr_Message = ''split_drain: new joins disabled'', jr_EntityId = 0\<rparr>
          else None)"

definition origin :: Position where
  "origin = \<lparr>PX = Fin 0, PY = Fin 0, PZ = Fin 0\<rparr>"

definition full_health :: Health where
  "full_health = \<lparr>HP = Fin 100, MaxHP = Fin 100\<rparr>"

text \<open>The section under \<open>Sim.Mu\<close>.\<close>

definition spawn_player :: "World \<Rightarrow> Entity \<times> World" where
  "spawn_player w =
     (let (e, w1) = CreateEntity w
      in (e, SetHealth e full_health (SetVelocity e zero_velocity (SetPosition e origin w1))))"

definition join_spawn :: "Server \<Rightarrow> Entity \<times> Server" where
  "join_spawn s =
     (case Sim s of
        None \<Rightarrow> (0, s)
      | Some r \<Rightarrow> (let (e, w') = spawn_player (world r) in (e, s\<lparr>Sim := Some (r\<lparr>world := w'\<rparr>)\<rparr>)))"

text \<open>The last section under \<open>playerMu\<close>.\<close>

definition join_register :: "string \<Rightarrow> Entity \<Rightarrow> Server \<Rightarrow> Server" where
  "join_register pid e s = s\<lparr>playerByID := (playerByID s)(pid \<mapsto> e), players := insert e (players s)\<rparr>"

definition Server_Join :: "string \<Rightarrow> Server \<Rightarrow> JoinResponse \<times> Server" where
  "Server_Join playerId s =
     (let pid = TrimSpace playerId
      in if pid = [] then
           (\<lparr>jr_Ok = False, jr_CellId = CellID s, jr_Message = ''empty player_id'', jr_EntityId = 0\<rparr>, s)
         else if Sim s = None then
           (\<lparr>jr_Ok = True, jr_CellId = CellID s, jr_Message = ''no_sim'', jr_EntityId = 0\<rparr>, s)
         else case join_check pid s of
                Some resp \<Rightarrow> (resp, s)
              | None \<Rightarrow>
                  (let (e, s1) = join_spawn s;
                       s2 = join_register pid e s1
                   in (\<lparr>jr_Ok = True, jr_CellId = CellID s, jr_Message = ''spawned'', jr_EntityId = e\<rparr>, s2)))"

section \<open>Leave and ApplyInput\<close>

record SimpleResponse =
  sr_Ok :: bool
  sr_Message :: string

definition leave_unregister :: "string \<Rightarrow> Server \<Rightarrow> Entity option \<times> Server" where
  "leave_unregister pid s =
     (let oe = playerByID s pid;
          s1 = (case oe of
                  None \<Rightarrow> s
                | Some e \<Rightarrow> s\<lparr>playerByID := (playerByID s)(pid := None), players := players s - {e}\<rparr>);
          s2 = s1\<lparr>frozenByID := frozenByID s1 - {pid}\<rparr>;
          s3 = (case preparedByID s2 pid of
                  None \<Rightarrow> s2
                | Some tok \<Rightarrow> s2\<lparr>preparedByID := (preparedByID s2)(pid := None),
                                  preparedByTk := (preparedByTk s2)(tok := None)\<rparr>)
      in (oe, s3\<lparr>preparedByTk :=
            (\<lambda>tok. case preparedByTk s3 tok of
                     Some pp \<Rightarrow> if pp_playerID pp = pid then None else Some pp
                   | None \<Rightarrow> None)\<rparr>))"

definition Leave :: "string \<Rightarrow> Server \<Rightarrow> SimpleResponse \<times> Server" where
  "Leave playerId s =
     (let pid = TrimSpace playerId
      in if pid = [] then (\<lparr>sr_Ok = False, sr_Message = ''empty player_id''\<rparr>, s)
         else if Sim s = None then (\<lparr>sr_Ok = True, sr_Message = ''no_sim''\<rparr>, s)
         else case leave_unregister pid s of
                (None, s1) \<Rightarrow> (\<lparr>sr_Ok = True, sr_Message = ''noop''\<rparr>, s1)
              | (Some e, s1) \<Rightarrow> (\<lparr>sr_Ok = True, sr_Message = ''left''\<rparr>, with_world (DestroyEntity e) s1))"

definition ApplyInput :: "(f64 \<Rightarrow> f64) \<Rightarrow> (f64 \<Rightarrow> f64) \<Rightarrow> string \<Rightarrow> ClientInput option \<Rightarrow> Server \<Rightarrow>
    SimpleResponse \<times> Server" where
  "ApplyInput Cos Sin playerId oin s =
     (let pid = TrimSpace playerId
      in if pid = [] then (\<lparr>sr_Ok = False, sr_Message = ''empty player_id''\<rparr>, reportApplyInput False s)
         else let i = (case oin of None \<Rightarrow> \<lparr>ci_Seq = 0, ci_InputMask = 0, ci_AimYawDeg = Fin 0\<rparr> | Some i \<Rightarrow> i)
         in case Sim s of
              None \<Rightarrow> (\<lparr>sr_Ok = False, sr_Message = ''no_sim''\<rparr>, reportApplyInput False s)
            | Some r \<Rightarrow>
                (case playerByID s pid of
                   None \<Rightarrow> (\<lparr>sr_Ok = False, sr_Message = ''unknown_player''\<rparr>, reportApplyInput False s)
                 | Some e \<Rightarrow>
                     if pid \<in> frozenByID s
                     then (\<lparr>sr_Ok = False, sr_Message = ''player_handoff_frozen''\<rparr>, reportApplyInput False s)
                     else let vel = velocityFromClientInput Cos Sin (Some i)
                     in if positions (world r) e = None
                        then (\<lparr>sr_Ok = False, sr_Message = ''entity_gone''\<rparr>, reportApplyInput False s)
                        else (\<lparr>sr_Ok = True, sr_Message = ''ok''\<rparr>,
                              reportApplyInput True (with_world (SetVelocity e vel) s))))"

section \<open>The three calls of a player handoff\<close>

record PrepareResponse =
  pr_Ok :: bool
  pr_Message :: string
  pr_Payload :: "PlayerHandoffState option"

abbreviation prepare_refused :: "string \<Rightarrow> PrepareResponse" where
  "prepare_refused m \<equiv> \<lparr>pr_Ok = False, pr_Message = m, pr_Payload = None\<rparr>"

text \<open>
  First section, under \<open>playerMu\<close>: answer at once, or reserve the player under the token and
  freeze his input. \<open>now1\<close> and \<open>now2\<close> are two readings of the clock.
\<close>

definition prepare_reserve :: "string list \<Rightarrow> int \<Rightarrow> int \<Rightarrow> string \<Rightarrow> string \<Rightarrow> Server \<Rightarrow>
    (PrepareResponse + Entity) \<times> Server" where
  "prepare_reserve order now1 now2 playerID token s =
     (let s1 = pruneStalePreparedLocked order now1 s
      in case (case preparedByTk s1 token of None \<Rightarrow> None | Some pp \<Rightarrow> pp_payload pp) of
           Some payload \<Rightarrow> (Inl \<lparr>pr_Ok = True, pr_Message = ''already_prepared'', pr_Payload = Some payload\<rparr>, s1)
         | None \<Rightarrow>
             (let conflict =
                (case preparedByID s1 playerID of
                   None \<Rightarrow> Inr s1
                 | Some inFlightToken \<Rightarrow>
                     if inFlightToken = token then Inr s1
                     else if (case preparedByTk s1 inFlightToken of
                                None \<Rightarrow> True
                              | Some inFlight \<Rightarrow> pp_createdAt inFlight = 0 \<or>
                                  now2 - pp_createdAt inFlight > handoffInFlightStaleTimeout)
                     then Inr (s1\<lparr>preparedByID := (preparedByID s1)(playerID := None),
                                  frozenByID := frozenByID s1 - {playerID},
                                  preparedByTk := (preparedByTk s1)(inFlightToken := None)\<rparr>)
                     else Inl (prepare_refused ''handoff already in progress for player''))
              in case conflict of
                   Inl resp \<Rightarrow> (Inl resp, s1)
                 | Inr s2 \<Rightarrow>
                     (case playerByID s2 playerID of
                        None \<Rightarrow> (Inl (prepare_refused ''unknown_player''), s2)
                      | Some entityID \<Rightarrow>
                          (Inr entityID,
                           s2\<lparr>preparedByID := (preparedByID s2)(playerID \<mapsto> token),
                              frozenByID := insert playerID (frozenByID s2)\<rparr>))))"

text \<open>Second section, under \<open>Sim.Mu\<close>: read the entity and stop it.\<close>

definition prepare_read :: "Entity \<Rightarrow> Server \<Rightarrow>
    (Position option \<times> Velocity \<times> Health option \<times> 64 word) \<times> Server" where
  "prepare_read e s =
     (case Sim s of
        None \<Rightarrow> ((None, zero_velocity, None, 0), s)
      | Some r \<Rightarrow>
          (let w = world r;
               vel = (case velocities w e of None \<Rightarrow> zero_velocity | Some v \<Rightarrow> v)
           in ((positions w e, vel, healths w e, TickCount (loop r)),
               if positions w e \<noteq> None then with_world (SetVelocity e zero_velocity) s else s)))"

text \<open>Third section, under \<open>playerMu\<close>: undo the reservation or store the prepared handoff.\<close>

definition prepare_store :: "int \<Rightarrow> string \<Rightarrow> string \<Rightarrow> string \<Rightarrow> Entity \<Rightarrow>
    Position option \<times> Velocity \<times> Health option \<times> 64 word \<Rightarrow> Server \<Rightarrow> PrepareResponse \<times> Server" where
  "prepare_store now3 playerID targetCellID token e read s =
     (case read of
        (None, _, _, _) \<Rightarrow>
          (prepare_refused ''entity_gone'',
           s\<lparr>preparedByID := (preparedByID s)(playerID := None), frozenByID := frozenByID s - {playerID}\<rparr>)
      | (Some pos, vel, ohp, tick) \<Rightarrow>
          (let hp = (case ohp of None \<Rightarrow> full_health
                               | Some h \<Rightarrow> if fle (MaxHP h) (Fin 0) then full_health else h);
               payload = \<lparr>hs_PlayerId = playerID, hs_Position = Some (vec_of_position pos),
                          hs_Velocity = Some (vec_of_velocity vel), hs_HpCur = to_f32 (HP hp),
                          hs_HpMax = to_f32 (MaxHP hp), hs_Tick = tick, hs_HandoffToken = token,
                          hs_SourceCellId = CellID s, hs_TargetCellId = targetCellID,
                          hs_SourceEntityId = e\<rparr>
           in (\<lparr>pr_Ok = True, pr_Message = ''prepared'', pr_Payload = Some payload\<rparr>,
               s\<lparr>preparedByTk := (preparedByTk s)(token \<mapsto>
                   \<lparr>pp_playerID = playerID, pp_token = token, pp_entityID = e, pp_finalized = False,
                    pp_createdAt = now3, pp_payload = Some payload\<rparr>)\<rparr>)))"

definition PreparePlayerHandoff :: "string list \<Rightarrow> int \<Rightarrow> int \<Rightarrow> int \<Rightarrow> string \<Rightarrow> string \<Rightarrow> string \<Rightarrow> Server \<Rightarrow>
    PrepareResponse \<times> Server" where
  "PreparePlayerHandoff order now1 now2 now3 playerId0 targetCellId0 token0 s =
     (let playerID = TrimSpace playerId0;
          targetCellID = TrimSpace targetCellId0;
          token = TrimSpace token0
      in if playerID = [] \<or> targetCellID = [] \<or> token = []
         then (prepare_refused ''player_id, target_cell_id, handoff_token required'', s)
         else if Sim s = None then (prepare_refused ''no_sim'', s)
         else case prepare_reserve order now1 now2 playerID token s of
                (Inl resp, s1) \<Rightarrow> (resp, s1)
              | (Inr e, s1) \<Rightarrow>
                  (let (read, s2) = prepare_read e s1
                   in prepare_store now3 playerID targetCellID token e read s2))"

record AcceptResponse =
  ar_Ok :: bool
  ar_Message :: string
  ar_EntityId :: Entity

text \<open>The sections of \<open>AcceptPlayerHandoff\<close>: look up, create if new, write the components, register.\<close>

definition accept_lookup :: "string \<Rightarrow> string \<Rightarrow> Server \<Rightarrow> AcceptResponse + Entity option" where
  "accept_lookup playerID token s =
     (case acceptedByTk s token of
        Some e \<Rightarrow> Inl \<lparr>ar_Ok = True, ar_Message = ''already_accepted'', ar_EntityId = e\<rparr>
      | None \<Rightarrow> Inr (playerByID s playerID))"

definition accept_create :: "Server \<Rightarrow> Entity \<times> Server" where
  "accept_create s =
     (case Sim s of
        None \<Rightarrow> (0, s)
      | Some r \<Rightarrow> (let (e, w') = CreateEntity (world r) in (e, s\<lparr>Sim := Some (r\<lparr>world := w'\<rparr>)\<rparr>)))"

definition accepted_health :: "PlayerHandoffState \<Rightarrow> Health" where
  "accepted_health p =
     (let maxHP = (if fle (hs_HpMax p) (Fin 0) then Fin 100 else hs_HpMax p);
          curHP = (if fle (hs_HpCur p) (Fin 0) then maxHP else hs_HpCur p)
      in \<lparr>HP = curHP, MaxHP = maxHP\<rparr>)"

definition accept_write :: "PlayerHandoffState \<Rightarrow> Entity \<Rightarrow> Server \<Rightarrow> Server" where
  "accept_write p e s =
     with_world (\<lambda>w. SetHealth e (accepted_health p)
       (SetVelocity e (get_velocity (hs_Velocity p)) (SetPosition e (get_position (hs_Position p)) w))) s"

definition accept_register :: "string \<Rightarrow> string \<Rightarrow> Entity \<Rightarrow> Server \<Rightarrow> Server" where
  "accept_register playerID token e s =
     s\<lparr>playerByID := (playerByID s)(playerID \<mapsto> e), players := insert e (players s),
       acceptedByTk := (acceptedByTk s)(token \<mapsto> e)\<rparr>"

definition AcceptPlayerHandoff :: "PlayerHandoffState option \<Rightarrow> Server \<Rightarrow> AcceptResponse \<times> Server" where
  "AcceptPlayerHandoff opayload s =
     (case opayload of
        None \<Rightarrow> (\<lparr>ar_Ok = False, ar_Message = ''empty payload'', ar_EntityId = 0\<rparr>, s)
      | Some payload \<Rightarrow>
          (let playerID = TrimSpace (hs_PlayerId payload);
               token = TrimSpace (hs_HandoffToken payload)
           in if playerID = [] \<or> token = []
              then (\<lparr>ar_Ok = False, ar_Message = ''payload.player_id and payload.handoff_token required'', ar_EntityId = 0\<rparr>, s)
              else if Sim s = None
              then (\<lparr>ar_Ok = False, ar_Message = ''no_sim'', ar_EntityId = 0\<rparr>, s)
              else case accept_lookup playerID token s of
                     Inl resp \<Rightarrow> (resp, s)
                   | Inr oe \<Rightarrow>
                       (let (e, s1) = (case oe of Some e \<Rightarrow> (e, s) | None \<Rightarrow> accept_create s);
                            s2 = accept_write payload e s1
                        in (\<lparr>ar_Ok = True, ar_Message = ''accepted'', ar_EntityId = e\<rparr>,
                            accept_register playerID token e s2))))"

text \<open>
  The section of \<open>FinalizePlayerHandoff\<close> under \<open>playerMu\<close>: an answer, or the entity to destroy
  with whether the player was still registered.
\<close>

definition finalize_commit :: "string \<Rightarrow> string \<Rightarrow> Server \<Rightarrow> (SimpleResponse + Entity \<times> bool) \<times> Server" where
  "finalize_commit playerID token s =
     (case preparedByTk s token of
        None \<Rightarrow>
          (Inl \<lparr>sr_Ok = False, sr_Message = ''unknown handoff_token''\<rparr>,
           if preparedByID s playerID = Some token
           then s\<lparr>preparedByID := (preparedByID s)(playerID := None), frozenByID := frozenByID s - {playerID}\<rparr>
           else s)
      | Some pp \<Rightarrow>
          if pp_playerID pp \<noteq> playerID
          then (Inl \<lparr>sr_Ok = False, sr_Message = ''handoff_token does not match player_id''\<rparr>, s)
          else if pp_finalized pp
          then (Inl \<lparr>sr_Ok = True, sr_Message = ''already_finalized''\<rparr>, s)
          else (let s1 = s\<lparr>preparedByTk := (preparedByTk s)(token \<mapsto> pp\<lparr>pp_finalized := True\<rparr>),
                          preparedByID := (preparedByID s)(playerID := None),
                          frozenByID := frozenByID s - {playerID}\<rparr>
                in case playerByID s1 playerID of
                     Some cur \<Rightarrow> (Inr (cur, True),
                                  s1\<lparr>playerByID := (playerByID s1)(playerID := None), players := players s1 - {cur}\<rparr>)
                   | None \<Rightarrow> (Inr (pp_entityID pp, False), s1)))"

definition FinalizePlayerHandoff :: "string \<Rightarrow> string \<Rightarrow> Server \<Rightarrow> SimpleResponse \<times> Server" where
  "FinalizePlayerHandoff playerId0 token0 s =
     (let playerID = TrimSpace playerId0;
          token = TrimSpace token0
      in if playerID = [] \<or> token = []
         then (\<lparr>sr_Ok = False, sr_Message = ''player_id and handoff_token required''\<rparr>, s)
         else if Sim s = None then (\<lparr>sr_Ok = False, sr_Message = ''no_sim''\<rparr>, s)
         else case finalize_commit playerID token s of
                (Inl resp, s1) \<Rightarrow> (resp, s1)
              | (Inr (entityID, hasEntity), s1) \<Rightarrow>
                  (\<lparr>sr_Ok = True, sr_Message = ''finalized''\<rparr>,
                   if hasEntity \<or> entityID \<noteq> 0 then with_world (DestroyEntity entityID) s1 else s1))"

section \<open>Update\<close>

text \<open>
  The payload of an \<open>UpdateRequest\<close>; an absent inner message (a nil pointer) is \<^const>\<open>None\<close>.
  \<open>OtherPayload\<close> is the default branch of the type switch.
\<close>

datatype UpdatePayload =
    Noop
  | SetTargetTps int32
  | SplitPrepare "string option"
  | SetSplitDrain "bool option"
  | ExportNpcPersist "string option"
  | ImportNpcPersist "(string \<times> string) option"
  | MergePrepare "(string \<times> CellSpec option list) option"
  | OtherPayload

text \<open>A message is a text, or a text followed by the text of an error.\<close>

datatype msg =
    Text string
  | WithPartitionError string partition_error
  | WithSnapshotError string snapshot_error

record UpdateResponse =
  ur_Ok :: bool
  ur_Message :: msg
  ur_NpcExportJson :: string

text \<open>\<open>protojson.Marshal\<close> and \<open>protojson.Unmarshal\<close> at type \<open>CellPersist\<close>; \<^const>\<open>Inl\<close> is the error text.\<close>

record json =
  Marshal :: "CellPersist \<Rightarrow> string + string"
  Unmarshal :: "string \<Rightarrow> string + CellPersist"

abbreviation update_ok :: "string \<Rightarrow> UpdateResponse" where
  "update_ok m \<equiv> \<lparr>ur_Ok = True, ur_Message = Text m, ur_NpcExportJson = []\<rparr>"

abbreviation update_failed :: "msg \<Rightarrow> UpdateResponse" where
  "update_failed m \<equiv> \<lparr>ur_Ok = False, ur_Message = m, ur_NpcExportJson = []\<rparr>"

definition with_reason :: "string \<Rightarrow> string option \<Rightarrow> string" where
  "with_reason m oreason =
     (let reason = (case oreason of None \<Rightarrow> [] | Some r \<Rightarrow> TrimSpace r)
      in if reason \<noteq> [] then m @ '' reason='' @ reason else m)"

definition update_set_tps :: "int32 \<Rightarrow> Server \<Rightarrow> UpdateResponse \<times> Server" where
  "update_set_tps tps s =
     (if tps < 1 \<or> tps > 120 then (update_failed (Text ''target_tps out of range [1,120]''), s)
      else case Sim s of
             None \<Rightarrow> (update_failed (Text ''no_sim''), s)
           | Some r \<Rightarrow> (update_ok ''ok'', s\<lparr>Sim := Some (r\<lparr>loop := (loop r)\<lparr>TPS := of_int_f64 tps\<rparr>\<rparr>)\<rparr>))"

definition update_split_prepare :: "string option \<Rightarrow> Server \<Rightarrow> UpdateResponse" where
  "update_split_prepare oreason s =
     (case srv_Bounds s of
        None \<Rightarrow> update_failed (Text ''no bounds on cell server'')
      | Some b \<Rightarrow>
          (case ChildSpecsForSplit (CellID s) (Some b) (srv_Level s) of
             Inl err \<Rightarrow> update_failed (WithPartitionError ''split_prepare invalid parent id: '' err)
           | Inr children \<Rightarrow>
               (let entities = (case Sim s of None \<Rightarrow> 0 | Some r \<Rightarrow> EntityCount (world r));
                    m = ''split_prepare ok children='' @ Itoa (int (length children)) @
                        '' players='' @ Itoa (int (PlayerCount s)) @ '' entities='' @ Itoa (int entities)
                in update_ok (with_reason m oreason @ '' child_ids='' @ Join (map ch_Id children) '',''))))"

definition update_set_drain :: "bool option \<Rightarrow> Server \<Rightarrow> UpdateResponse \<times> Server" where
  "update_set_drain oen s =
     (let en = (case oen of None \<Rightarrow> False | Some b \<Rightarrow> b)
      in (update_ok (if en then ''split_drain enabled'' else ''split_drain disabled''), s\<lparr>splitDrain := en\<rparr>))"

definition update_export :: "json \<Rightarrow> Entity list \<Rightarrow> string option \<Rightarrow> Server \<Rightarrow> UpdateResponse" where
  "update_export j order oreason s =
     (case Sim s of
        None \<Rightarrow> update_failed (Text ''no_sim'')
      | Some r \<Rightarrow>
          (let persist = Encode order (Some r) (Some (isPlayer s))
           in case Marshal j persist of
                Inl err \<Rightarrow> update_failed (Text (''marshal: '' @ err))
              | Inr raw \<Rightarrow>
                  \<lparr>ur_Ok = True,
                   ur_Message = Text (with_reason (''export_npc_persist entities='' @ Itoa (int (length (Entities persist)))) oreason),
                   ur_NpcExportJson = raw\<rparr>))"

definition update_import :: "json \<Rightarrow> Entity list \<Rightarrow> (string \<times> string) option \<Rightarrow> Server \<Rightarrow> UpdateResponse \<times> Server" where
  "update_import j order oimp s =
     (case Sim s of
        None \<Rightarrow> (update_failed (Text ''no_sim''), s)
      | Some r \<Rightarrow>
          if PlayerCount s > 0 then (update_failed (Text ''import_npc_persist blocked: players connected''), s)
          else let raw = (case oimp of None \<Rightarrow> [] | Some (raw, _) \<Rightarrow> TrimSpace raw)
          in if raw = [] then (update_failed (Text ''empty npc_import_json''), s)
             else case Unmarshal j raw of
                    Inl err \<Rightarrow> (update_failed (Text (''json: '' @ err)), s)
                  | Inr persist \<Rightarrow>
                      (case Decode order (Some persist) (Some r) of
                         Inl err \<Rightarrow> (update_failed (WithSnapshotError ''decode: '' err), s)
                       | Inr r' \<Rightarrow>
                           (update_ok (with_reason (''import_npc_persist entities='' @ Itoa (int (length (Entities persist))))
                              (map_option snd oimp)),
                            s\<lparr>Sim := Some r'\<rparr>)))"

definition update_merge_prepare :: "(string \<times> CellSpec option list) option \<Rightarrow> Server \<Rightarrow> UpdateResponse" where
  "update_merge_prepare omp s =
     (case srv_Bounds s of
        None \<Rightarrow> update_failed (Text ''no bounds on cell server'')
      | Some b \<Rightarrow>
          (let children = (case omp of None \<Rightarrow> [] | Some (_, cs) \<Rightarrow> cs)
           in case ValidateMergeChildren (Some b) (srv_Level s) children of
                Some err \<Rightarrow> update_failed (WithPartitionError ''merge_prepare invalid: '' err)
              | None \<Rightarrow> update_ok (with_reason (''merge_prepare ok children='' @ Itoa (int (length children)))
                                  (map_option fst omp))))"

text \<open>
  The request is absent, or its payload is absent or one of the commands; \<open>order\<close> is the visit of
  the live entities.
\<close>

definition Update :: "json \<Rightarrow> Entity list \<Rightarrow> UpdatePayload option option \<Rightarrow> Server \<Rightarrow> UpdateResponse \<times> Server" where
  "Update j order req s =
     (case req of
        None \<Rightarrow> (update_failed (Text ''nil request''), s)
      | Some None \<Rightarrow> (update_ok ''noop'', s)
      | Some (Some p) \<Rightarrow>
          (case p of
             Noop \<Rightarrow> (update_ok ''noop'', s)
           | SetTargetTps tps \<Rightarrow> update_set_tps tps s
           | SplitPrepare oreason \<Rightarrow> (update_split_prepare oreason s, s)
           | SetSplitDrain oen \<Rightarrow> update_set_drain oen s
           | ExportNpcPersist oreason \<Rightarrow> (update_export j order oreason s, s)
           | ImportNpcPersist oimp \<Rightarrow> update_import j order oimp s
           | MergePrepare omp \<Rightarrow> (update_merge_prepare omp s, s)
           | OtherPayload \<Rightarrow> (update_ok ''noop'', s)))"

section \<open>Planning, listing, ping\<close>

datatype plan_error = NoBoundsOnServer | InvalidParentId partition_error

definition PlanSplit :: "Server \<Rightarrow> plan_error + PlanSplitResponseChild list" where
  "PlanSplit s =
     (case srv_Bounds s of
        None \<Rightarrow> Inl NoBoundsOnServer
      | Some b \<Rightarrow>
          (case ChildSpecsForSplit (CellID s) (Some b) (srv_Level s) of
             Inl err \<Rightarrow> Inl (InvalidParentId err)
           | Inr children \<Rightarrow> Inr children))"

record MigrationCandidate =
  mc_EntityId :: Entity
  mc_Position :: "Vec3F option"
  mc_IsPlayer :: bool
  mc_PlayerId :: string

text \<open>\<open>order\<close> visits the live entities and \<open>porder\<close> the players.\<close>

definition ListMigrationCandidates :: "Entity list \<Rightarrow> string list \<Rightarrow> Server \<Rightarrow> MigrationCandidate list" where
  "ListMigrationCandidates order porder s =
     (case Sim s of
        None \<Rightarrow> []
      | Some r \<Rightarrow>
          List.map_filter (\<lambda>e. map_option (\<lambda>p.
              \<lparr>mc_EntityId = e, mc_Position = Some (vec_of_position p), mc_IsPlayer = isPlayer s e,
               mc_PlayerId = playerIDByEntity porder s e\<rparr>) (positions (world r) e)) order)"

record PingResponse =
  ping_CellId :: string
  ping_ServerTimeUnixMs :: int
  ping_PlayerCount :: int32
  ping_EntityCount :: int32
  ping_LastTickDurationSeconds :: f64
  ping_ConfiguredTps :: f64

text \<open>\<open>Seconds\<close> of a duration: whole seconds plus the rest divided by 1e9.\<close>

definition Seconds :: "int \<Rightarrow> f64" where
  "Seconds d = fadd (of_int_f64 (sgn d * (\<bar>d\<bar> div 1000000000)))
                    (fdiv (of_int_f64 (sgn d * (\<bar>d\<bar> mod 1000000000))) (Fin 1000000000))"

definition Ping :: "int \<Rightarrow> Server \<Rightarrow> PingResponse" where
  "Ping nowMs s =
     (let resp = \<lparr>ping_CellId = CellID s, ping_ServerTimeUnixMs = nowMs,
                  ping_PlayerCount = to_int32 (int (PlayerCount s)), ping_EntityCount = 0,
                  ping_LastTickDurationSeconds = Fin 0, ping_ConfiguredTps = Fin 0\<rparr>
      in case Sim s of
           None \<Rightarrow> resp
         | Some r \<Rightarrow> resp\<lparr>ping_EntityCount := to_int32 (int (EntityCount (world r))),
                           ping_LastTickDurationSeconds := Seconds (LastTickDur (loop r)),
                           ping_ConfiguredTps := TPS (loop r)\<rparr>)"

end
