(* ===== verification/Cell_Players.thy ===== *)
theory Cell_Players
  imports Cell_Server
begin

text \<open>
  The players of a cell server over time: the invariant that ties the roster, the handoff tables
  and the world together, its preservation by every handler, and the refinement of an abstract
  roster. Two interleavings of critical sections that break the invariant are at the end.
\<close>

section \<open>The invariant\<close>

text \<open>Roster: finitely many players with proper names, no shared entity, and \<open>players\<close> is the set of their entities.\<close>

definition roster_inv :: "Server \<Rightarrow> bool" where
  "roster_inv s \<longleftrightarrow> finite (dom (playerByID s)) \<and> inj_on (playerByID s) (dom (playerByID s)) \<and>
     players s = ran (playerByID s) \<and> playerByID s [] = None"

text \<open>World: it is well-formed and every player has a live entity with a position.\<close>

definition sim_inv :: "Server \<Rightarrow> bool" where
  "sim_inv s \<longleftrightarrow> (\<exists>r. Sim s = Some r \<and> world_inv (world r) \<and> ran (playerByID s) \<subseteq> dom (positions (world r)))"

text \<open>
  Handoffs: exactly the players with a handoff in progress are frozen, they are on the roster, and
  their token leads to their own stored handoff; a stored handoff that is not finalized is the one
  in progress for its player.
\<close>

definition handoff_inv :: "Server \<Rightarrow> bool" where
  "handoff_inv s \<longleftrightarrow>
     frozenByID s = dom (preparedByID s) \<and> dom (preparedByID s) \<subseteq> dom (playerByID s) \<and>
     (\<forall>p tok. preparedByID s p = Some tok \<longrightarrow>
        (\<exists>pp. preparedByTk s tok = Some pp \<and> pp_playerID pp = p \<and> \<not> pp_finalized pp)) \<and>
     (\<forall>tok pp. preparedByTk s tok = Some pp \<longrightarrow> tok \<noteq> [] \<and> pp_payload pp \<noteq> None \<and>
        (\<not> pp_finalized pp \<longrightarrow> preparedByID s (pp_playerID pp) = Some tok))"

definition server_inv :: "Server \<Rightarrow> bool" where
  "server_inv s \<longleftrightarrow> roster_inv s \<and> sim_inv s \<and> handoff_inv s"

lemma server_invI [intro?]: "roster_inv s \<Longrightarrow> sim_inv s \<Longrightarrow> handoff_inv s \<Longrightarrow> server_inv s"
  by (simp add: server_inv_def)

lemma server_invD: "server_inv s \<Longrightarrow> roster_inv s" "server_inv s \<Longrightarrow> sim_inv s" "server_inv s \<Longrightarrow> handoff_inv s"
  by (simp_all add: server_inv_def)

lemma positioned_alive: "world_inv w \<Longrightarrow> dom (positions w) \<subseteq> alive w"
  by (auto simp: world_inv_def owned_def)

lemma position_dom:
  "dom (positions (SetPosition e q w)) = insert e (dom (positions w))"
  "dom (positions (SetVelocity e v w)) = dom (positions w)" "dom (positions (SetHealth e h w)) = dom (positions w)"
  "dom (positions (DestroyEntity e w)) = dom (positions w) - {e}"
  "dom (positions (snd (TakeDirtyEntities order w))) = dom (positions w)"
  by (auto simp: world_defs TakeDirtyEntities_def)

lemma sim_invE:
  assumes "sim_inv s"
  obtains r where "Sim s = Some r" "world_inv (world r)" "ran (playerByID s) \<subseteq> alive (world r)"
    "ran (playerByID s) \<subseteq> dom (positions (world r))"
proof -
  obtain r where r: "Sim s = Some r" "world_inv (world r)" "ran (playerByID s) \<subseteq> dom (positions (world r))"
    using assms by (auto simp: sim_inv_def)
  then show thesis using that[OF r(1,2) _ r(3)] positioned_alive[OF r(2)] by blast
qed

lemma player_position: "sim_inv s \<Longrightarrow> Sim s = Some r \<Longrightarrow> playerByID s p = Some e \<Longrightarrow> positions (world r) e \<noteq> None"
  by (auto simp: sim_inv_def ran_def)

lemma player_alive: "sim_inv s \<Longrightarrow> Sim s = Some r \<Longrightarrow> playerByID s p = Some e \<Longrightarrow> e \<in> alive (world r)"
  by (elim sim_invE) (auto simp: ran_def)

text \<open>Which fields each part reads.\<close>

lemma roster_inv_cong:
  "playerByID s' = playerByID s \<Longrightarrow> players s' = players s \<Longrightarrow> roster_inv s' = roster_inv s"
  by (simp add: roster_inv_def)

lemma handoff_inv_cong:
  "playerByID s' = playerByID s \<Longrightarrow> frozenByID s' = frozenByID s \<Longrightarrow> preparedByID s' = preparedByID s \<Longrightarrow>
   preparedByTk s' = preparedByTk s \<Longrightarrow> handoff_inv s' = handoff_inv s"
  by (simp add: handoff_inv_def)

lemma sim_inv_cong: "playerByID s' = playerByID s \<Longrightarrow> Sim s' = Sim s \<Longrightarrow> sim_inv s' = sim_inv s"
  by (simp add: sim_inv_def)

lemmas inv_cong = roster_inv_cong handoff_inv_cong sim_inv_cong

lemma with_world_fields [server_simps]:
  "playerByID (with_world f s) = playerByID s" "players (with_world f s) = players s"
  "frozenByID (with_world f s) = frozenByID s" "preparedByID (with_world f s) = preparedByID s"
  "preparedByTk (with_world f s) = preparedByTk s" "splitDrain (with_world f s) = splitDrain s"
  "acceptedByTk (with_world f s) = acceptedByTk s" "CellID (with_world f s) = CellID s"
  "Sim (with_world f s) = map_option (\<lambda>r. r\<lparr>world := f (world r)\<rparr>) (Sim s)"
  by (simp_all add: with_world_def)

lemma report_fields [server_simps]:
  "playerByID (reportApplyInput b s) = playerByID s" "players (reportApplyInput b s) = players s"
  "frozenByID (reportApplyInput b s) = frozenByID s" "preparedByID (reportApplyInput b s) = preparedByID s"
  "preparedByTk (reportApplyInput b s) = preparedByTk s" "splitDrain (reportApplyInput b s) = splitDrain s"
  "acceptedByTk (reportApplyInput b s) = acceptedByTk s"
  "Sim (reportApplyInput b s) = Sim s"
  by (simp_all add: reportApplyInput_def)

section \<open>Roster changes\<close>

text \<open>A player with a fresh entity comes in; a player goes out.\<close>

lemma roster_inv_enter:
  assumes "roster_inv s" "playerByID s p = None" "e \<notin> ran (playerByID s)" "p \<noteq> []"
    and "playerByID s' = (playerByID s)(p \<mapsto> e)" "players s' = insert e (players s)"
  shows "roster_inv s'"
proof -
  have "inj_on ((playerByID s)(p \<mapsto> e)) (dom ((playerByID s)(p \<mapsto> e)))"
    using assms(1-3) by (auto simp: roster_inv_def inj_on_def ran_def)
  then show ?thesis
    using assms by (simp add: roster_inv_def)
qed

lemma roster_inv_stay:
  assumes "roster_inv s" "playerByID s p = Some e"
    and "playerByID s' = (playerByID s)(p \<mapsto> e)" "players s' = insert e (players s)"
  shows "roster_inv s'"
proof -
  have "e \<in> players s" using assms(1,2) by (auto simp: roster_inv_def ran_def)
  with assms show ?thesis by (simp add: roster_inv_cong[of s' s] map_upd_triv insert_absorb)
qed

lemma player_entity_inj:
  "roster_inv s \<Longrightarrow> playerByID s p = Some e \<Longrightarrow> playerByID s q = Some e \<Longrightarrow> q = p"
  by (auto simp: roster_inv_def dest: inj_onD[of _ _ q p])

lemma ran_delete:
  assumes "m p = Some e" "\<And>q. m q = Some e \<Longrightarrow> q = p"
  shows "ran (m(p := None)) = ran m - {e}"
proof (intro set_eqI iffI)
  fix d assume "d \<in> ran (m(p := None))"
  then obtain q where "q \<noteq> p" "m q = Some d" by (auto simp: ran_def split: if_splits)
  then show "d \<in> ran m - {e}" using assms(2)[of q] by (auto simp: ran_def)
next
  fix d assume "d \<in> ran m - {e}"
  then obtain q where "m q = Some d" "d \<noteq> e" by (auto simp: ran_def)
  then have "(m(p := None)) q = Some d" using assms(1) by auto
  then show "d \<in> ran (m(p := None))" by (rule ranI)
qed

lemma ran_minus:
  "roster_inv s \<Longrightarrow> playerByID s p = Some e \<Longrightarrow> ran ((playerByID s)(p := None)) = ran (playerByID s) - {e}"
  by (rule ran_delete) (auto dest: player_entity_inj)

lemma roster_inv_exit:
  assumes "roster_inv s" "playerByID s p = Some e"
    and "playerByID s' = (playerByID s)(p := None)" "players s' = players s - {e}"
  shows "roster_inv s'"
proof -
  have "inj_on ((playerByID s)(p := None)) (dom ((playerByID s)(p := None)))"
    using assms(1) by (auto simp: roster_inv_def inj_on_def)
  moreover have "finite (dom ((playerByID s)(p := None)))" "players s = ran (playerByID s)"
    "((playerByID s)(p := None)) [] = None"
    using assms(1) by (simp_all add: roster_inv_def)
  ultimately show ?thesis
    using ran_minus[OF assms(1,2)] unfolding roster_inv_def assms(3,4) by simp
qed

section \<open>Handoff tables\<close>

text \<open>What \<open>pruneStalePreparedLocked\<close> and the conflict branch of a prepare do to a player.\<close>

definition drop_handoff :: "string \<Rightarrow> string \<Rightarrow> Server \<Rightarrow> Server" where
  "drop_handoff p tok s = s\<lparr>preparedByID := (preparedByID s)(p := None), frozenByID := frozenByID s - {p},
     preparedByTk := (preparedByTk s)(tok := None)\<rparr>"

lemma drop_handoff_fields [server_simps]:
  "playerByID (drop_handoff p tok s) = playerByID s" "players (drop_handoff p tok s) = players s"
  "Sim (drop_handoff p tok s) = Sim s" "splitDrain (drop_handoff p tok s) = splitDrain s"
  "preparedByID (drop_handoff p tok s) = (preparedByID s)(p := None)" "CellID (drop_handoff p tok s) = CellID s"
  "preparedByTk (drop_handoff p tok s) = (preparedByTk s)(tok := None)"
  "acceptedByTk (drop_handoff p tok s) = acceptedByTk s"
  by (simp_all add: drop_handoff_def)

lemma handoff_token: "handoff_inv s \<Longrightarrow> preparedByID s p = Some tok \<Longrightarrow>
    \<exists>pp. preparedByTk s tok = Some pp \<and> pp_playerID pp = p \<and> \<not> pp_finalized pp \<and> pp_payload pp \<noteq> None \<and> tok \<noteq> []"
  by (fastforce simp: handoff_inv_def)

lemma open_handoff: "handoff_inv s \<Longrightarrow> preparedByTk s t = Some pp \<Longrightarrow> \<not> pp_finalized pp \<Longrightarrow>
    preparedByID s (pp_playerID pp) = Some t"
  by (simp add: handoff_inv_def)

lemma handoff_inv_drop:
  assumes "handoff_inv s" "preparedByID s p = Some tok"
  shows "handoff_inv (drop_handoff p tok s)"
proof -
  have other: "q = p" if "preparedByID s q = Some tok" for q
    using handoff_token[OF assms(1) that] handoff_token[OF assms] by auto
  have "\<exists>pp. preparedByTk s t = Some pp \<and> pp_playerID pp = q \<and> \<not> pp_finalized pp"
    if "preparedByID s q = Some t" for q t
    using handoff_token[OF assms(1) that] by blast
  moreover have "preparedByID s (pp_playerID pp) = Some t \<and> pp_playerID pp \<noteq> p"
    if "preparedByTk s t = Some pp" "t \<noteq> tok" "\<not> pp_finalized pp" for t pp
    using assms that by (auto simp: handoff_inv_def)
  moreover have "frozenByID s - {p} = dom ((preparedByID s)(p := None))"
    "dom ((preparedByID s)(p := None)) \<subseteq> dom (playerByID s)"
    "\<And>t pp. preparedByTk s t = Some pp \<Longrightarrow> t \<noteq> [] \<and> pp_payload pp \<noteq> None"
    using assms(1) by (auto simp: handoff_inv_def)
  ultimately show ?thesis
    using other unfolding handoff_inv_def drop_handoff_def by simp metis
qed

inductive expires :: "Server \<Rightarrow> Server \<Rightarrow> bool" where
  refl: "expires s s"
| step: "preparedByID s p = Some tok \<Longrightarrow> expires (drop_handoff p tok s) s' \<Longrightarrow> expires s s'"

lemma expires_trans: "expires s s' \<Longrightarrow> expires s' s'' \<Longrightarrow> expires s s''"
  by (induction rule: expires.induct) (auto intro: expires.step)

lemma expires_handoff_inv: "expires s s' \<Longrightarrow> handoff_inv s \<Longrightarrow> handoff_inv s'"
  by (induction rule: expires.induct) (auto intro: handoff_inv_drop)

lemma expires_fields:
  "expires s s' \<Longrightarrow> playerByID s' = playerByID s \<and> players s' = players s \<and> Sim s' = Sim s \<and>
     splitDrain s' = splitDrain s \<and> CellID s' = CellID s \<and> acceptedByTk s' = acceptedByTk s"
  by (induction rule: expires.induct) (simp_all add: server_simps)

lemma expires_inv: "expires s s' \<Longrightarrow> server_inv s \<Longrightarrow> server_inv s'"
  using expires_fields[of s s'] expires_handoff_inv[of s s']
  by (simp add: server_inv_def inv_cong[of s' s])

lemma expires_moving: "expires s s' \<Longrightarrow> \<exists>E \<subseteq> dom (preparedByID s). preparedByID s' = preparedByID s |` (- E)"
proof (induction rule: expires.induct)
  case (refl s)
  then show ?case by (intro exI[of _ "{}"]) (simp add: restrict_map_def fun_eq_iff)
next
  case (step s p tok s')
  then obtain E where "E \<subseteq> dom ((preparedByID s)(p := None))" "preparedByID s' = (preparedByID s)(p := None) |` (- E)"
    unfolding drop_handoff_fields(5) by blast
  with step show ?case
    by (intro exI[of _ "insert p E"]) (auto simp: restrict_map_def fun_eq_iff)
qed

lemma expires_drop: "preparedByID s p = Some tok \<Longrightarrow> expires s (drop_handoff p tok s)"
  by (rule expires.step[OF _ expires.refl])

lemma prune_one_expires: "handoff_inv s \<Longrightarrow> expires s (prune_one now p s)"
proof (cases "preparedByID s p")
  case (Some tok)
  assume "handoff_inv s"
  then have "tok \<noteq> []" using handoff_token[OF _ Some] by auto
  then have "prune_one now p s \<in> {s, drop_handoff p tok s}"
    by (simp add: prune_one_def drop_handoff_def Some)
  then show ?thesis
    using expires_drop[OF Some] expires.refl[of s] by auto
qed (simp add: prune_one_def expires.refl)

lemma prune_expires: "handoff_inv s \<Longrightarrow> expires s (pruneStalePreparedLocked order now s)"
  unfolding pruneStalePreparedLocked_def
proof (induction order arbitrary: s)
  case (Cons p order)
  have 1: "expires s (prune_one now p s)" using prune_one_expires[OF Cons.prems] .
  show ?case
    using expires_trans[OF 1 Cons.IH[OF expires_handoff_inv[OF 1 Cons.prems]]] by simp
qed (simp add: expires.refl)

section \<open>Every handler keeps the invariant\<close>

definition has_room :: "Server \<Rightarrow> bool" where
  "has_room s \<longleftrightarrow> (\<forall>r. Sim s = Some r \<longrightarrow> room (world r))"

lemma spawn_player_fields:
  assumes "spawn_player w = (e, w')" "world_inv w" "room w"
  shows "world_inv w'" "e \<notin> alive w" "alive w' = insert e (alive w)"
    "positions w' e = Some origin" "healths w' e = Some full_health"
    "dom (positions w') = insert e (dom (positions w))"
proof -
  obtain w1 where c: "CreateEntity w = (e, w1)"
    and w': "w' = SetHealth e full_health (SetVelocity e zero_velocity (SetPosition e origin w1))"
    using assms(1) by (auto simp: spawn_player_def split: prod.splits)
  note i = world_inv_Create[OF assms(2,3) c]
  show "world_inv w'" "alive w' = insert e (alive w)"
    using i(1,5) by (simp_all add: w' world_inv_Set world_simps)
  show "e \<notin> alive w" by (fact i(2))
  show "positions w' e = Some origin" "healths w' e = Some full_health"
    by (simp_all add: w' world_defs)
  have "positions w1 = positions w" using c by (auto simp: CreateEntity_def Let_def)
  then show "dom (positions w') = insert e (dom (positions w))" by (simp add: w' position_dom)
qed

text \<open>The outcomes of a join.\<close>

lemma Join_outcome:
  assumes "Server_Join playerId s = (resp, s')" "Sim s = Some r"
  defines "pid \<equiv> TrimSpace playerId"
  shows "(s' = s \<and> (jr_Ok resp \<longleftrightarrow> pid \<noteq> [] \<and> pid \<in> dom (playerByID s)) \<and>
      (pid = [] \<or> pid \<in> dom (playerByID s) \<or> splitDrain s)) \<or>
    (pid \<noteq> [] \<and> playerByID s pid = None \<and> \<not> splitDrain s \<and> jr_Ok resp \<and>
      (\<exists>w'. spawn_player (world r) = (jr_EntityId resp, w') \<and>
        s' = join_register pid (jr_EntityId resp) (s\<lparr>Sim := Some (r\<lparr>world := w'\<rparr>)\<rparr>)))"
  using assms
  by (auto simp: Server_Join_def join_check_def join_spawn_def Let_def split: if_splits option.splits prod.splits)

lemma join_register_fields [server_simps]:
  "playerByID (join_register p e s) = (playerByID s)(p \<mapsto> e)" "players (join_register p e s) = insert e (players s)"
  "frozenByID (join_register p e s) = frozenByID s" "preparedByID (join_register p e s) = preparedByID s"
  "preparedByTk (join_register p e s) = preparedByTk s" "splitDrain (join_register p e s) = splitDrain s"
  "Sim (join_register p e s) = Sim s" "acceptedByTk (join_register p e s) = acceptedByTk s"
  by (simp_all add: join_register_def)

lemma handoff_inv_more_players:
  assumes "handoff_inv s" "playerByID s' = (playerByID s)(p \<mapsto> e)" "frozenByID s' = frozenByID s"
    "preparedByID s' = preparedByID s" "preparedByTk s' = preparedByTk s"
  shows "handoff_inv s'"
  using assms(1) unfolding handoff_inv_def assms(2-) by (simp add: subset_insertI2)

lemma Join_inv:
  assumes "server_inv s" "has_room s" "Server_Join playerId s = (resp, s')"
  shows "server_inv s'"
proof -
  obtain r where r: "Sim s = Some r" "world_inv (world r)" "ran (playerByID s) \<subseteq> alive (world r)"
      "ran (playerByID s) \<subseteq> dom (positions (world r))"
    using server_invD(2)[OF assms(1)] by (rule sim_invE)
  have room: "room (world r)" using assms(2) r(1) by (simp add: has_room_def)
  from Join_outcome[OF assms(3) r(1)] show ?thesis
  proof (elim disjE conjE exE)
    fix w' assume new: "playerByID s (TrimSpace playerId) = None" and p: "TrimSpace playerId \<noteq> []"
      and w': "spawn_player (world r) = (jr_EntityId resp, w')"
      and s': "s' = join_register (TrimSpace playerId) (jr_EntityId resp) (s\<lparr>Sim := Some (r\<lparr>world := w'\<rparr>)\<rparr>)"
    note sp = spawn_player_fields[OF w' r(2) room]
    have fresh: "jr_EntityId resp \<notin> ran (playerByID s)" using sp(2) r(3) by blast
    show ?thesis
    proof
      show "roster_inv s'"
        using roster_inv_enter[OF server_invD(1)[OF assms(1)] new fresh p] by (simp add: s' server_simps)
      show "sim_inv s'"
        using r(4) sp(1,6) new by (auto simp: sim_inv_def s' server_simps simp del: dom_eq_empty_conv)
      show "handoff_inv s'"
        by (rule handoff_inv_more_players[OF server_invD(3)[OF assms(1)]]) (simp_all add: s' server_simps)
    qed
  qed (use assms(1) in simp_all)
qed

text \<open>Leaving: the roster loses the player, the handoff tables everything about him.\<close>

lemma leave_unregister_fields:
  assumes "handoff_inv s" "leave_unregister p s = (oe, s')"
  shows "oe = playerByID s p" "playerByID s' = (playerByID s)(p := None)" "Sim s' = Sim s"
    "players s' = (case oe of None \<Rightarrow> players s | Some e \<Rightarrow> players s - {e})"
    "frozenByID s' = frozenByID s - {p}" "preparedByID s' = (preparedByID s)(p := None)"
    "preparedByTk s' tok = (case preparedByTk s tok of
        Some pp \<Rightarrow> if pp_playerID pp = p then None else Some pp | None \<Rightarrow> None)"
    "splitDrain s' = splitDrain s" "acceptedByTk s' = acceptedByTk s"
proof -
  have "pp_playerID pp = p" if "preparedByID s p = Some tok" "preparedByTk s tok = Some pp" for tok pp
    using handoff_token[OF assms(1) that(1)] that(2) by auto
  with assms(2) show "preparedByTk s' tok = (case preparedByTk s tok of
        Some pp \<Rightarrow> if pp_playerID pp = p then None else Some pp | None \<Rightarrow> None)"
    by (auto simp: leave_unregister_def Let_def split: option.splits)
  show "oe = playerByID s p" "playerByID s' = (playerByID s)(p := None)" "Sim s' = Sim s"
    "players s' = (case oe of None \<Rightarrow> players s | Some e \<Rightarrow> players s - {e})"
    "frozenByID s' = frozenByID s - {p}" "preparedByID s' = (preparedByID s)(p := None)"
    "splitDrain s' = splitDrain s" "acceptedByTk s' = acceptedByTk s"
    using assms(2) by (auto simp: leave_unregister_def Let_def fun_eq_iff split: option.splits)
qed

lemma handoff_inv_exit:
  assumes "handoff_inv s"
    and maps: "playerByID s' = (playerByID s)(p := None)" "frozenByID s' = frozenByID s - {p}"
      "preparedByID s' = (preparedByID s)(p := None)"
    and open_handoffs: "\<And>t pp. \<not> pp_finalized pp \<Longrightarrow>
      preparedByTk s' t = Some pp \<longleftrightarrow> preparedByTk s t = Some pp \<and> pp_playerID pp \<noteq> p"
    and stored: "\<And>t pp. preparedByTk s' t = Some pp \<Longrightarrow> t \<noteq> [] \<and> pp_payload pp \<noteq> None"
  shows "handoff_inv s'"
proof -
  have "frozenByID s' = dom (preparedByID s')" "dom (preparedByID s') \<subseteq> dom (playerByID s')"
    using assms(1) by (auto simp: handoff_inv_def maps)
  moreover have "\<exists>pp. preparedByTk s' tok = Some pp \<and> pp_playerID pp = q \<and> \<not> pp_finalized pp"
    if q: "preparedByID s' q = Some tok" for q tok
  proof -
    have "q \<noteq> p" "preparedByID s q = Some tok" using q by (auto simp: maps split: if_splits)
    then show ?thesis using handoff_token[OF assms(1), of q tok] open_handoffs by metis
  qed
  moreover have "preparedByID s' (pp_playerID pp) = Some tok"
    if "preparedByTk s' tok = Some pp" "\<not> pp_finalized pp" for tok pp
  proof -
    have "preparedByTk s tok = Some pp" "pp_playerID pp \<noteq> p" using that open_handoffs by blast+
    then show ?thesis using assms(1) that(2) by (simp add: handoff_inv_def maps)
  qed
  ultimately show ?thesis
    using stored unfolding handoff_inv_def by blast
qed

lemma sim_inv_destroy:
  assumes "sim_inv s" "roster_inv s" "playerByID s p = Some e"
    and "playerByID s' = (playerByID s)(p := None)"
    and "Sim s' = map_option (\<lambda>r. r\<lparr>world := DestroyEntity e (world r)\<rparr>) (Sim s)"
  shows "sim_inv s'"
  using assms(1) ran_minus[OF assms(2,3)]
  by (auto simp: sim_inv_def assms(4,5) world_inv_Destroy position_dom)

lemma Leave_outcome:
  assumes "Leave playerId s = (resp, s')" "Sim s = Some r"
  defines "p \<equiv> TrimSpace playerId"
  shows "(p = [] \<and> s' = s \<and> \<not> sr_Ok resp) \<or>
    (p \<noteq> [] \<and> sr_Ok resp \<and> (\<exists>s1. leave_unregister p s = (playerByID s p, s1) \<and>
       s' = (case playerByID s p of None \<Rightarrow> s1 | Some e \<Rightarrow> with_world (DestroyEntity e) s1)))"
proof -
  have "fst (leave_unregister p s) = playerByID s p" by (simp add: leave_unregister_def Let_def)
  then show ?thesis
    using assms by (auto simp: Leave_def Let_def split: if_splits option.splits prod.splits)
qed

lemma Leave_inv:
  assumes "server_inv s" "Leave playerId s = (resp, s')"
  shows "server_inv s'"
proof -
  let ?p = "TrimSpace playerId"
  note inv = server_invD[OF assms(1)]
  obtain r where r: "Sim s = Some r" using inv(2) by (rule sim_invE)
  from Leave_outcome[OF assms(2) r] show ?thesis
  proof (elim disjE conjE exE)
    fix s1 assume s1: "leave_unregister ?p s = (playerByID s ?p, s1)"
      and s': "s' = (case playerByID s ?p of None \<Rightarrow> s1 | Some e \<Rightarrow> with_world (DestroyEntity e) s1)"
    note f = leave_unregister_fields(2-)[OF inv(3) s1]
    have f': "playerByID s' = (playerByID s)(?p := None)" "frozenByID s' = frozenByID s - {?p}"
      "preparedByID s' = (preparedByID s)(?p := None)" "preparedByTk s' = preparedByTk s1" "players s' = players s1"
      by (cases "playerByID s ?p"; simp add: s' f(1-5) server_simps)+
    have "handoff_inv s'"
    proof (rule handoff_inv_exit[OF inv(3) f'(1-3)])
      fix t pp
      show "\<not> pp_finalized pp \<Longrightarrow>
          preparedByTk s' t = Some pp \<longleftrightarrow> preparedByTk s t = Some pp \<and> pp_playerID pp \<noteq> ?p"
        by (auto simp: f'(4) f(6) split: option.splits if_splits)
      show "preparedByTk s' t = Some pp \<Longrightarrow> t \<noteq> [] \<and> pp_payload pp \<noteq> None"
        using inv(3) by (auto simp: f'(4) f(6) handoff_inv_def split: option.splits if_splits)
    qed
    moreover have "roster_inv s' \<and> sim_inv s'"
    proof (cases "playerByID s ?p")
      case None
      then have "playerByID s' = playerByID s" "players s' = players s" "Sim s' = Sim s"
        using f by (auto simp: s' fun_eq_iff)
      then show ?thesis using inv by (simp add: inv_cong[of s' s])
    next
      case (Some e)
      then have "players s' = players s - {e}" by (simp add: s' f server_simps)
      moreover have "Sim s' = map_option (\<lambda>r. r\<lparr>world := DestroyEntity e (world r)\<rparr>) (Sim s)"
        by (simp add: s' f Some server_simps)
      ultimately show ?thesis
        using roster_inv_exit[OF inv(1) Some f'(1)] sim_inv_destroy[OF inv(2,1) Some f'(1)] by simp
    qed
    ultimately show ?thesis by (simp add: server_inv_def)
  qed (use assms(1) in simp)
qed

abbreviation empty_input :: ClientInput where
  "empty_input \<equiv> \<lparr>ci_Seq = 0, ci_InputMask = 0, ci_AimYawDeg = Fin 0\<rparr>"

lemma ApplyInput_outcome:
  assumes "ApplyInput Cos Sin playerId oin s = (resp, s')" "Sim s = Some r"
  defines "p \<equiv> TrimSpace playerId"
  shows "(\<not> sr_Ok resp \<and> s' = reportApplyInput False s \<and>
      (p = [] \<or> playerByID s p = None \<or> p \<in> frozenByID s \<or> positions (world r) (the (playerByID s p)) = None)) \<or>
    (sr_Ok resp \<and> p \<noteq> [] \<and> p \<notin> frozenByID s \<and>
      (\<exists>e. playerByID s p = Some e \<and> positions (world r) e \<noteq> None \<and>
        s' = reportApplyInput True (with_world (SetVelocity e
          (velocityFromClientInput Cos Sin (Some (case oin of None \<Rightarrow> empty_input | Some i \<Rightarrow> i)))) s)))"
proof (cases "playerByID s p")
  case None
  then show ?thesis using assms(1) unfolding p_def
    by (simp add: ApplyInput_def Let_def assms(2) split: if_splits) clarsimp+
next
  case (Some e)
  then show ?thesis using assms(1) unfolding p_def
    by (simp add: ApplyInput_def Let_def assms(2) split: if_splits) clarsimp+
qed

lemma ApplyInput_inv:
  assumes "server_inv s" "ApplyInput Cos Sin playerId oin s = (resp, s')"
  shows "server_inv s'"
proof -
  let ?p = "TrimSpace playerId"
  note inv = server_invD[OF assms(1)]
  obtain r where r: "Sim s = Some r" "world_inv (world r)" "ran (playerByID s) \<subseteq> alive (world r)"
      "ran (playerByID s) \<subseteq> dom (positions (world r))"
    using inv(2) by (rule sim_invE)
  have report: "server_inv (reportApplyInput b s0)" if "server_inv s0" for b s0
    using that by (simp add: server_inv_def inv_cong[of "reportApplyInput b s0" s0] server_simps)
  have move: "server_inv (with_world (SetVelocity e v) s)" if "playerByID s ?p = Some e" for e v
    using inv r that player_alive[OF inv(2) r(1) that]
    by (auto simp: server_inv_def sim_inv_def server_simps position_dom world_inv_Set
        roster_inv_cong[of "with_world (SetVelocity e v) s" s] handoff_inv_cong[of "with_world (SetVelocity e v) s" s])
  from ApplyInput_outcome[OF assms(2) r(1)] show ?thesis
    using report[OF assms(1)] report[OF move] by (elim disjE conjE exE) simp_all
qed

section \<open>The calls of a handoff\<close>

lemma handoff_name: "roster_inv s \<Longrightarrow> handoff_inv s \<Longrightarrow> preparedByID s p = Some tok \<Longrightarrow> p \<noteq> []"
  by (auto simp: roster_inv_def handoff_inv_def)

lemma Finalize_outcome:
  assumes "roster_inv s" "handoff_inv s" "Sim s = Some r" "FinalizePlayerHandoff playerId token s = (resp, s')"
  defines "p \<equiv> TrimSpace playerId" and "tok \<equiv> TrimSpace token"
  shows "(s' = s \<and> preparedByID s p \<noteq> Some tok \<and> (sr_Ok resp \<longrightarrow> sr_Message resp = ''already_finalized'')) \<or>
    (sr_Ok resp \<and> preparedByID s p = Some tok \<and>
      (\<exists>e pp. playerByID s p = Some e \<and> preparedByTk s tok = Some pp \<and> pp_playerID pp = p \<and>
        s' = with_world (DestroyEntity e)
          (s\<lparr>preparedByTk := (preparedByTk s)(tok \<mapsto> pp\<lparr>pp_finalized := True\<rparr>),
             preparedByID := (preparedByID s)(p := None), frozenByID := frozenByID s - {p},
             playerByID := (playerByID s)(p := None), players := players s - {e}\<rparr>)))"
proof (cases "preparedByID s p = Some tok")
  case True
  obtain pp where pp: "preparedByTk s tok = Some pp" "pp_playerID pp = p" "\<not> pp_finalized pp" "tok \<noteq> []"
    using handoff_token[OF assms(2) True] by auto
  obtain e where e: "playerByID s p = Some e" using assms(2) True by (auto simp: handoff_inv_def)
  have "p \<noteq> []" using handoff_name[OF assms(1,2) True] .
  then have "sr_Ok resp \<and> s' = with_world (DestroyEntity e)
          (s\<lparr>preparedByTk := (preparedByTk s)(tok \<mapsto> pp\<lparr>pp_finalized := True\<rparr>),
             preparedByID := (preparedByID s)(p := None), frozenByID := frozenByID s - {p},
             playerByID := (playerByID s)(p := None), players := players s - {e}\<rparr>)"
    using assms(4) pp e
    by (simp add: FinalizePlayerHandoff_def finalize_commit_def Let_def assms(3) flip: p_def tok_def) auto
  then show ?thesis using True e pp by blast
next
  case False
  have "pp_finalized pp" if "preparedByTk s tok = Some pp" "pp_playerID pp = p" for pp
    using assms(2) False that by (auto simp: handoff_inv_def)
  then have "s' = s \<and> (sr_Ok resp \<longrightarrow> sr_Message resp = ''already_finalized'')"
    using assms(4) False
    by (cases "preparedByTk s tok")
      (simp_all add: FinalizePlayerHandoff_def finalize_commit_def Let_def assms(3) flip: p_def tok_def
        split: if_splits, auto)
  with False show ?thesis by simp
qed

lemma Finalize_inv:
  assumes "server_inv s" "FinalizePlayerHandoff playerId token s = (resp, s')"
  shows "server_inv s'"
proof -
  let ?p = "TrimSpace playerId" and ?tok = "TrimSpace token"
  note inv = server_invD[OF assms(1)]
  obtain r where r: "Sim s = Some r" using inv(2) by (rule sim_invE)
  from Finalize_outcome[OF inv(1,3) r assms(2)] show ?thesis
  proof (elim disjE conjE exE)
    fix e pp assume *: "preparedByID s ?p = Some ?tok" and e: "playerByID s ?p = Some e"
      and pp: "preparedByTk s ?tok = Some pp" "pp_playerID pp = ?p"
      and s': "s' = with_world (DestroyEntity e)
          (s\<lparr>preparedByTk := (preparedByTk s)(?tok \<mapsto> pp\<lparr>pp_finalized := True\<rparr>),
             preparedByID := (preparedByID s)(?p := None), frozenByID := frozenByID s - {?p},
             playerByID := (playerByID s)(?p := None), players := players s - {e}\<rparr>)"
    have same: "t = ?tok" if "preparedByTk s t = Some pp'" "pp_playerID pp' = ?p" "\<not> pp_finalized pp'" for t pp'
      using open_handoff[OF inv(3) that(1,3)] that(2) * by simp
    show ?thesis
    proof
      show "roster_inv s'" by (rule roster_inv_exit[OF inv(1) e]) (simp_all add: s' server_simps)
      show "sim_inv s'" by (rule sim_inv_destroy[OF inv(2,1) e]) (simp_all add: s' server_simps)
      show "handoff_inv s'"
      proof (rule handoff_inv_exit[OF inv(3)])
        fix t pp'
        show "preparedByTk s' t = Some pp' \<longleftrightarrow> preparedByTk s t = Some pp' \<and> pp_playerID pp' \<noteq> ?p"
          if "\<not> pp_finalized pp'"
          using same[of t pp'] pp that by (auto simp: s' server_simps)
        show "preparedByTk s' t = Some pp' \<Longrightarrow> t \<noteq> [] \<and> pp_payload pp' \<noteq> None"
          using inv(3) pp by (auto simp: s' server_simps handoff_inv_def split: if_splits)
      qed (simp_all add: s' server_simps)
    qed
  qed (use assms(1) in simp)
qed

lemma Accept_outcome:
  assumes "AcceptPlayerHandoff opayload s = (resp, s')" "Sim s = Some r"
  shows "(s' = s \<and> (ar_Ok resp \<longrightarrow> ar_Message resp = ''already_accepted'')) \<or>
    (ar_Ok resp \<and> (\<exists>payload p tok s1. opayload = Some payload \<and> p = TrimSpace (hs_PlayerId payload) \<and>
       tok = TrimSpace (hs_HandoffToken payload) \<and> p \<noteq> [] \<and> tok \<noteq> [] \<and> acceptedByTk s tok = None \<and>
       (case playerByID s p of Some e \<Rightarrow> (ar_EntityId resp, s1) = (e, s) | None \<Rightarrow> accept_create s = (ar_EntityId resp, s1)) \<and>
       s' = accept_register p tok (ar_EntityId resp) (accept_write payload (ar_EntityId resp) s1)))"
proof (cases opayload)
  case None
  then show ?thesis using assms(1) by (auto simp: AcceptPlayerHandoff_def)
next
  case (Some payload)
  let ?p = "TrimSpace (hs_PlayerId payload)" and ?tok = "TrimSpace (hs_HandoffToken payload)"
  consider "?p = [] \<or> ?tok = []" | e where "acceptedByTk s ?tok = Some e"
    | "?p \<noteq> []" "?tok \<noteq> []" "acceptedByTk s ?tok = None" by (cases "acceptedByTk s ?tok") auto
  then show ?thesis
  proof cases
    case 3
    obtain e s1 where c: "accept_create s = (e, s1)" by fastforce
    show ?thesis using 3 c assms(1)
      by (cases "playerByID s ?p")
        (auto simp: AcceptPlayerHandoff_def accept_lookup_def Let_def assms(2) Some)
  qed (use assms in \<open>auto simp: AcceptPlayerHandoff_def accept_lookup_def Let_def Some split: if_splits\<close>)
qed

lemma ran_upd_subset: "ran (m(a \<mapsto> b)) \<subseteq> insert b (ran m)"
  by (auto simp: ran_def)

lemma accept_fields [server_simps]:
  "playerByID (accept_register p tok e s) = (playerByID s)(p \<mapsto> e)"
  "players (accept_register p tok e s) = insert e (players s)" "Sim (accept_register p tok e s) = Sim s"
  "frozenByID (accept_register p tok e s) = frozenByID s" "preparedByID (accept_register p tok e s) = preparedByID s"
  "preparedByTk (accept_register p tok e s) = preparedByTk s" "splitDrain (accept_register p tok e s) = splitDrain s"
  "acceptedByTk (accept_register p tok e s) = (acceptedByTk s)(tok \<mapsto> e)"
  by (simp_all add: accept_register_def)

lemma accept_create_outcome:
  assumes "accept_create s = (e, s1)" "Sim s = Some r"
  obtains w' where "CreateEntity (world r) = (e, w')" "s1 = s\<lparr>Sim := Some (r\<lparr>world := w'\<rparr>)\<rparr>"
  using assms by (auto simp: accept_create_def split: prod.splits)

lemma world_inv_write:
  assumes "world_inv w" "e \<in> alive w"
  shows "world_inv (SetHealth e h (SetVelocity e v (SetPosition e q w)))"
    "alive (SetHealth e h (SetVelocity e v (SetPosition e q w))) = alive w"
    "dom (positions (SetHealth e h (SetVelocity e v (SetPosition e q w)))) = insert e (dom (positions w))"
  using assms by (simp_all add: world_inv_Set world_simps position_dom)

lemma Accept_inv:
  assumes "server_inv s" "has_room s" "AcceptPlayerHandoff opayload s = (resp, s')"
  shows "server_inv s'"
proof -
  note inv = server_invD[OF assms(1)]
  obtain r where r: "Sim s = Some r" "world_inv (world r)" "ran (playerByID s) \<subseteq> alive (world r)"
      "ran (playerByID s) \<subseteq> dom (positions (world r))"
    using inv(2) by (rule sim_invE)
  from Accept_outcome[OF assms(3) r(1)] show ?thesis
  proof (elim disjE conjE exE)
    fix payload p tok s1
    let ?e = "ar_EntityId resp"
    assume p: "p \<noteq> []" and src: "case playerByID s p of Some e \<Rightarrow> (?e, s1) = (e, s) | None \<Rightarrow> accept_create s = (?e, s1)"
      and s': "s' = accept_register p tok ?e (accept_write payload ?e s1)"
    have "roster_inv s' \<and> (\<exists>r1. Sim s1 = Some r1 \<and> world_inv (world r1) \<and> ?e \<in> alive (world r1) \<and>
          positions (world r1) = positions (world r)) \<and>
        playerByID s1 = playerByID s \<and> frozenByID s1 = frozenByID s \<and> preparedByID s1 = preparedByID s \<and>
        preparedByTk s1 = preparedByTk s"
    proof (cases "playerByID s p")
      case None
      with src have "accept_create s = (?e, s1)" by simp
      then obtain w' where w': "CreateEntity (world r) = (?e, w')" and s1: "s1 = s\<lparr>Sim := Some (r\<lparr>world := w'\<rparr>)\<rparr>"
        using r(1) by (rule accept_create_outcome)
      note c = world_inv_Create[OF r(2) _ w'] 
      have room: "room (world r)" using assms(2) r(1) by (simp add: has_room_def)
      have "?e \<notin> ran (playerByID s)" using c(2)[OF room] r(3) by blast
      then have "roster_inv s'"
        by (rule roster_inv_enter[OF inv(1) None _ p]) (simp_all add: s' s1 accept_write_def server_simps)
      moreover have "positions w' = positions (world r)" using w' by (auto simp: CreateEntity_def Let_def)
      ultimately show ?thesis using c(1,5)[OF room] by (simp add: s1)
    next
      case (Some e)
      with src have e: "?e = e" "s1 = s" by simp_all
      have "roster_inv s'"
        by (rule roster_inv_stay[OF inv(1) Some]) (simp_all add: s' e accept_write_def server_simps)
      then show ?thesis
        using r player_alive[OF inv(2) r(1) Some] by (auto simp: e)
    qed
    then obtain r1 where r1: "roster_inv s'" "Sim s1 = Some r1" "world_inv (world r1)"
        "?e \<in> alive (world r1)" "positions (world r1) = positions (world r)"
      and same: "playerByID s1 = playerByID s" "frozenByID s1 = frozenByID s" "preparedByID s1 = preparedByID s"
        "preparedByTk s1 = preparedByTk s" by blast
    have "sim_inv s'"
      using world_inv_write[OF r1(3,4)] r1(2,5) r(4) ran_upd_subset[of "playerByID s" p ?e]
      by (simp add: sim_inv_def s' accept_write_def server_simps same) blast
    moreover have "handoff_inv s'"
      by (rule handoff_inv_more_players[OF inv(3)]) (simp_all add: s' accept_write_def server_simps same)
    ultimately show ?thesis using r1(1) by (simp add: server_inv_def)
  qed (use assms(1) in simp)
qed

lemma reserve_outcome:
  assumes "handoff_inv s" "prepare_reserve order now1 now2 p tok s = (x, s1)"
  shows "\<exists>s2. expires (pruneStalePreparedLocked order now1 s) s2 \<and> (case x of
      Inl resp \<Rightarrow> s1 = s2 \<and> (if pr_Ok resp then preparedByTk s2 tok \<noteq> None
        else preparedByTk s2 tok = None \<and> (playerByID s2 p = None \<or> (\<exists>t. preparedByID s2 p = Some t \<and> t \<noteq> tok)))
    | Inr e \<Rightarrow> preparedByID s2 p = None \<and> preparedByTk s2 tok = None \<and> playerByID s2 p = Some e \<and>
        s1 = s2\<lparr>preparedByID := (preparedByID s2)(p \<mapsto> tok), frozenByID := insert p (frozenByID s2)\<rparr>)"
proof -
  let ?s = "pruneStalePreparedLocked order now1 s"
  have inv: "handoff_inv ?s" using expires_handoff_inv[OF prune_expires assms(1)] assms(1) .
  have ex: "expires ?s ?s" by (rule expires.refl)
  show ?thesis
  proof (cases "preparedByTk ?s tok")
    case (Some pp)
    then have "\<exists>payload. pp_payload pp = Some payload" using inv by (auto simp: handoff_inv_def)
    with Some assms(2) have "\<exists>resp. x = Inl resp \<and> pr_Ok resp \<and> s1 = ?s"
      by (auto simp: prepare_reserve_def Let_def)
    with ex Some show ?thesis by (intro exI[of _ ?s]) auto
  next
    case fresh: None
    show ?thesis
    proof (cases "preparedByID ?s p")
      case None
      with fresh ex assms(2) show ?thesis
        by (intro exI[of _ ?s]) (auto simp: prepare_reserve_def Let_def split: option.splits)
    next
      case (Some t)
      obtain pp where pp: "preparedByTk ?s t = Some pp" using handoff_token[OF inv Some] by blast
      with fresh have "t \<noteq> tok" by auto
      let ?d = "drop_handoff p t ?s"
      have ex2: "expires ?s ?d" using expires_drop[OF Some] .
      have "preparedByTk ?d tok = None" using fresh by (simp add: drop_handoff_def)
      then show ?thesis
        using fresh Some pp \<open>t \<noteq> tok\<close> ex ex2 assms(2)
        by (cases "pp_createdAt pp = 0 \<or> now2 - pp_createdAt pp > handoffInFlightStaleTimeout")
          (intro exI[of _ ?d] exI[of _ ?s],
           auto simp: prepare_reserve_def Let_def drop_handoff_def split: option.splits)
    qed
  qed
qed

text \<open>The state a successful prepare leaves: the player's handoff is stored and his entity stands still.\<close>

definition prepared_state :: "string \<Rightarrow> string \<Rightarrow> preparedPlayerHandoff \<Rightarrow> Entity \<Rightarrow> Server \<Rightarrow> Server" where
  "prepared_state p tok pp e s =
     (with_world (SetVelocity e zero_velocity) s)
       \<lparr>preparedByID := (preparedByID s)(p \<mapsto> tok), frozenByID := insert p (frozenByID s),
        preparedByTk := (preparedByTk s)(tok \<mapsto> pp)\<rparr>"

lemma prepared_state_fields [server_simps]:
  "playerByID (prepared_state p tok pp e s) = playerByID s" "players (prepared_state p tok pp e s) = players s"
  "frozenByID (prepared_state p tok pp e s) = insert p (frozenByID s)"
  "preparedByID (prepared_state p tok pp e s) = (preparedByID s)(p \<mapsto> tok)"
  "preparedByTk (prepared_state p tok pp e s) = (preparedByTk s)(tok \<mapsto> pp)"
  "splitDrain (prepared_state p tok pp e s) = splitDrain s" "acceptedByTk (prepared_state p tok pp e s) = acceptedByTk s"
  "Sim (prepared_state p tok pp e s) = map_option (\<lambda>r. r\<lparr>world := SetVelocity e zero_velocity (world r)\<rparr>) (Sim s)"
  by (simp_all add: prepared_state_def server_simps)

text \<open>What a prepare sends to the target for the entity \<open>e\<close> at position \<open>pos\<close>.\<close>

definition handoff_payload :: "Runtime \<Rightarrow> Entity \<Rightarrow> Position \<Rightarrow> string \<Rightarrow> string \<Rightarrow> string \<Rightarrow> string \<Rightarrow> PlayerHandoffState" where
  "handoff_payload r e pos cellID p target tok =
     (let w = world r;
          vel = (case velocities w e of None \<Rightarrow> zero_velocity | Some v \<Rightarrow> v);
          hp = (case healths w e of None \<Rightarrow> full_health | Some h \<Rightarrow> if fle (MaxHP h) (Fin 0) then full_health else h)
      in \<lparr>hs_PlayerId = p, hs_Position = Some (vec_of_position pos), hs_Velocity = Some (vec_of_velocity vel),
          hs_HpCur = to_f32 (HP hp), hs_HpMax = to_f32 (MaxHP hp), hs_Tick = TickCount (loop r),
          hs_HandoffToken = tok, hs_SourceCellId = cellID, hs_TargetCellId = target, hs_SourceEntityId = e\<rparr>)"

lemma Prepare_outcome:
  assumes "handoff_inv s" "Sim s = Some r"
    and "PreparePlayerHandoff order now1 now2 now3 playerId targetCellId token s = (resp, s')"
  defines "p \<equiv> TrimSpace playerId" and "tok \<equiv> TrimSpace token"
  shows "\<exists>s2. expires s s2 \<and>
    (p \<noteq> [] \<and> TrimSpace targetCellId \<noteq> [] \<and> tok \<noteq> [] \<longrightarrow> expires (pruneStalePreparedLocked order now1 s) s2) \<and>
    (s' = s2 \<and> (pr_Ok resp \<longrightarrow> preparedByTk s2 tok \<noteq> None) \<or>
     pr_Ok resp \<and> p \<noteq> [] \<and> tok \<noteq> [] \<and> preparedByID s2 p = None \<and> preparedByTk s2 tok = None \<and>
       (\<exists>e pos payload. playerByID s2 p = Some e \<and> positions (world r) e = Some pos \<and> pr_Payload resp = Some payload \<and>
         payload = handoff_payload r e pos (CellID s) p (TrimSpace targetCellId) tok \<and>
         s' = prepared_state p tok \<lparr>pp_playerID = p, pp_token = tok, pp_entityID = e, pp_finalized = False,
           pp_createdAt = now3, pp_payload = Some payload\<rparr> e s2))"
proof (cases "p = [] \<or> TrimSpace targetCellId = [] \<or> tok = []")
  case True
  then have "s' = s \<and> \<not> pr_Ok resp"
    using assms(3) by (auto simp: PreparePlayerHandoff_def Let_def p_def tok_def)
  then show ?thesis using True by (intro exI[of _ s]) (auto simp: expires.refl)
next
  case False
  obtain x s1 where res: "prepare_reserve order now1 now2 p tok s = (x, s1)" by fastforce
  obtain s2 where ps2: "expires (pruneStalePreparedLocked order now1 s) s2" and x: "case x of
      Inl resp \<Rightarrow> s1 = s2 \<and> (pr_Ok resp \<longrightarrow> preparedByTk s2 tok \<noteq> None)
    | Inr e \<Rightarrow> preparedByID s2 p = None \<and> preparedByTk s2 tok = None \<and> playerByID s2 p = Some e \<and>
        s1 = s2\<lparr>preparedByID := (preparedByID s2)(p \<mapsto> tok), frozenByID := insert p (frozenByID s2)\<rparr>"
    using reserve_outcome[OF assms(1) res] by (cases x) (auto split: if_splits)
  have s2: "expires s s2" using expires_trans[OF prune_expires[OF assms(1)] ps2] .
  have call: "(resp, s') = (case x of Inl resp \<Rightarrow> (resp, s1)
      | Inr e \<Rightarrow> (let (read, s2) = prepare_read e s1
                  in prepare_store now3 p (TrimSpace targetCellId) tok e read s2))"
    using assms(2,3) False res
    by (simp add: PreparePlayerHandoff_def Let_def p_def tok_def split: sum.splits)
  show ?thesis
  proof (cases x)
    case (Inl resp')
    with call x s2 ps2 show ?thesis by (intro exI[of _ s2]) auto
  next
    case (Inr e)
    have sim: "Sim s2 = Some r" "Sim s1 = Some r" using expires_fields[OF s2] x assms(2) Inr by simp_all
    show ?thesis
    proof (cases "positions (world r) e")
      case None
      have inv2: "handoff_inv s2" using expires_handoff_inv[OF s2 assms(1)] .
      with x Inr have "p \<notin> frozenByID s2" by (auto simp: handoff_inv_def)
      then have "s' = s2 \<and> \<not> pr_Ok resp"
        using call x Inr None
        by (auto simp: prepare_read_def prepare_store_def sim Let_def fun_upd_idem)
      with s2 ps2 show ?thesis by blast
    next
      case (Some pos)
      show ?thesis
        using s2 ps2 call x Inr Some False
        by (intro exI[of _ s2])
          (auto simp: prepare_read_def prepare_store_def sim Let_def prepared_state_def with_world_def
            handoff_payload_def expires_fields[OF s2])
    qed
  qed
qed

text \<open>The answers of a prepare, on a server whose players all have a position.\<close>

lemma Prepare_answer:
  assumes "handoff_inv s" "sim_inv s" "Sim s = Some r"
    and "PreparePlayerHandoff order now1 now2 now3 playerId targetCellId token s = (resp, s')"
  defines "p \<equiv> TrimSpace playerId" and "tok \<equiv> TrimSpace token"
  shows "if p = [] \<or> TrimSpace targetCellId = [] \<or> tok = [] then s' = s \<and> \<not> pr_Ok resp
    else \<not> pr_Ok resp \<longrightarrow> preparedByTk s' tok = None \<and>
      (playerByID s' p = None \<or> (\<exists>t. preparedByID s' p = Some t \<and> t \<noteq> tok))"
proof (cases "p = [] \<or> TrimSpace targetCellId = [] \<or> tok = []")
  case True
  then show ?thesis
    using assms(4) by (auto simp: PreparePlayerHandoff_def Let_def p_def tok_def)
next
  case False
  obtain x s1 where res: "prepare_reserve order now1 now2 p tok s = (x, s1)" by fastforce
  have call: "(resp, s') = (case x of Inl resp \<Rightarrow> (resp, s1)
      | Inr e \<Rightarrow> (let (read, s2) = prepare_read e s1
                  in prepare_store now3 p (TrimSpace targetCellId) tok e read s2))"
    using assms(3,4) False res
    by (simp add: PreparePlayerHandoff_def Let_def p_def tok_def split: sum.splits)
  obtain s2 where s2: "expires (pruneStalePreparedLocked order now1 s) s2" and x: "case x of
      Inl resp \<Rightarrow> s1 = s2 \<and> (if pr_Ok resp then preparedByTk s2 tok \<noteq> None
        else preparedByTk s2 tok = None \<and> (playerByID s2 p = None \<or> (\<exists>t. preparedByID s2 p = Some t \<and> t \<noteq> tok)))
    | Inr e \<Rightarrow> preparedByID s2 p = None \<and> preparedByTk s2 tok = None \<and> playerByID s2 p = Some e \<and>
        s1 = s2\<lparr>preparedByID := (preparedByID s2)(p \<mapsto> tok), frozenByID := insert p (frozenByID s2)\<rparr>"
    using reserve_outcome[OF assms(1) res] by blast
  have same: "Sim s2 = Some r" "playerByID s2 = playerByID s"
    using expires_fields[OF expires_trans[OF prune_expires[OF assms(1)] s2]] assms(3) by simp_all
  show ?thesis
  proof (cases x)
    case (Inl resp')
    then show ?thesis using call x False by auto
  next
    case (Inr e)
    have "positions (world r) e \<noteq> None"
      using player_position[OF assms(2,3), of p e] x same Inr by simp
    then have "pr_Ok resp"
      using call x Inr by (auto simp: prepare_read_def prepare_store_def same Let_def)
    then show ?thesis using False by simp
  qed
qed

lemma handoff_inv_prepare:
  assumes "handoff_inv s" "tok \<noteq> []" "preparedByID s p = None" "preparedByTk s tok = None"
    and e: "playerByID s p = Some e"
    and pp: "pp_playerID pp = p" "\<not> pp_finalized pp" "pp_payload pp \<noteq> None"
    and s': "playerByID s' = playerByID s" "frozenByID s' = insert p (frozenByID s)"
      "preparedByID s' = (preparedByID s)(p \<mapsto> tok)" "preparedByTk s' = (preparedByTk s)(tok \<mapsto> pp)"
  shows "handoff_inv s'"
proof -
  have other: "pp_playerID pp' \<noteq> p" if "preparedByTk s t = Some pp'" "\<not> pp_finalized pp'" for t pp'
    using open_handoff[OF assms(1) that] assms(3) by auto
  have "\<exists>pp. preparedByTk s' t = Some pp \<and> pp_playerID pp = q \<and> \<not> pp_finalized pp"
    if "preparedByID s' q = Some t" for q t
  proof (cases "q = p")
    case False
    then have q: "preparedByID s q = Some t" using that by (simp add: s')
    then have "t \<noteq> tok" using handoff_token[OF assms(1) q] assms(4) by auto
    then show ?thesis using handoff_token[OF assms(1) q] by (auto simp: s')
  qed (use that pp in \<open>simp add: s'\<close>)
  moreover have "t \<noteq> [] \<and> pp_payload pp' \<noteq> None \<and> (\<not> pp_finalized pp' \<longrightarrow> preparedByID s' (pp_playerID pp') = Some t)"
    if "preparedByTk s' t = Some pp'" for t pp'
    using that assms(1,2) pp other[of t pp'] by (auto simp: s' handoff_inv_def split: if_splits)
  moreover have "frozenByID s' = dom (preparedByID s')" "dom (preparedByID s') \<subseteq> dom (playerByID s')"
    using assms(1) e by (auto simp: s' handoff_inv_def)
  ultimately show ?thesis unfolding handoff_inv_def by blast
qed

lemma Prepare_inv:
  assumes "server_inv s"
    and "PreparePlayerHandoff order now1 now2 now3 playerId targetCellId token s = (resp, s')"
  shows "server_inv s'"
proof -
  let ?p = "TrimSpace playerId" and ?tok = "TrimSpace token"
  obtain r where r: "Sim s = Some r" using server_invD(2)[OF assms(1)] by (rule sim_invE)
  obtain s2 where s2: "expires s s2" and o: "s' = s2 \<or>
       ?tok \<noteq> [] \<and> preparedByID s2 ?p = None \<and> preparedByTk s2 ?tok = None \<and>
       (\<exists>e payload. playerByID s2 ?p = Some e \<and>
         s' = prepared_state ?p ?tok \<lparr>pp_playerID = ?p, pp_token = ?tok, pp_entityID = e, pp_finalized = False,
           pp_createdAt = now3, pp_payload = Some payload\<rparr> e s2)"
    using Prepare_outcome[OF server_invD(3)[OF assms(1)] r assms(2)] by blast
  have inv2: "server_inv s2" using expires_inv[OF s2 assms(1)] .
  note i = server_invD[OF inv2]
  have r2: "Sim s2 = Some r" using expires_fields[OF s2] r by simp
  from o show ?thesis
  proof (elim disjE conjE exE)
    fix e payload
    let ?pp = "\<lparr>pp_playerID = ?p, pp_token = ?tok, pp_entityID = e, pp_finalized = False,
           pp_createdAt = now3, pp_payload = Some payload\<rparr>"
    assume tok: "?tok \<noteq> []" "preparedByID s2 ?p = None" "preparedByTk s2 ?tok = None"
      and e: "playerByID s2 ?p = Some e" and s': "s' = prepared_state ?p ?tok ?pp e s2"
    show ?thesis
    proof
      show "roster_inv s'" using i(1) roster_inv_cong[of s' s2] by (simp add: s' server_simps)
      show "sim_inv s'"
        using i(2) player_alive[OF i(2) r2 e] r2 unfolding sim_inv_def s' server_simps
        by (simp add: position_dom world_inv_Set)
      show "handoff_inv s'"
        by (rule handoff_inv_prepare[OF i(3) tok e]) (simp_all add: s' server_simps)
    qed
  qed (use inv2 in simp)
qed

section \<open>Commands, ticks, subscriptions\<close>

text \<open>Every entity an import brings has an identifier below the last word.\<close>

definition importable :: "json \<Rightarrow> UpdatePayload option option \<Rightarrow> bool" where
  "importable j req \<longleftrightarrow>
     (\<forall>raw reason persist x. req = Some (Some (ImportNpcPersist (Some (raw, reason)))) \<longrightarrow>
        Unmarshal j (TrimSpace raw) = Inr persist \<longrightarrow> Some x \<in> set (Entities persist) \<longrightarrow> pe_EntityId x < - 1)"

lemma world_inv_decode:
  "world_inv w \<Longrightarrow> (\<And>x. Some x \<in> set xs \<Longrightarrow> pe_EntityId x < - 1) \<Longrightarrow> world_inv (fold decode_entity xs w)"
proof (induction xs arbitrary: w)
  case (Cons x xs)
  have "world_inv (decode_entity x w)"
    using Cons.prems(1) Cons.prems(2)[of "the x"]
    by (cases x) (auto simp: decode_entity_def Let_def intro!: world_inv_Restore)
  then show ?case using Cons by simp
qed simp

lemma world_inv_cleared: "world_inv (NewWorld\<lparr>nextID := n\<rparr>)"
  by (simp add: world_inv_def owned_def NewWorld_def)

lemma Decode_inv:
  assumes "world_inv (world r)" "visits order (alive (world r))" "Decode order (Some persist) (Some r) = Inr r'"
    and "\<And>x. Some x \<in> set (Entities persist) \<Longrightarrow> pe_EntityId x < - 1"
  shows "world_inv (world r')"
  using assms(3) world_inv_decode[OF world_inv_cleared assms(4)] Decode_cleared[OF assms(1,2)]
  by (auto simp: Decode_def Let_def split: if_splits)

lemma import_outcome:
  assumes "update_import j order oimp s = (resp, s')" "Sim s = Some r"
  shows "(s' = s \<and> \<not> ur_Ok resp) \<or>
    (ur_Ok resp \<and> PlayerCount s = 0 \<and> (\<exists>raw reason persist r'. oimp = Some (raw, reason) \<and>
      Unmarshal j (TrimSpace raw) = Inr persist \<and> Decode order (Some persist) (Some r) = Inr r' \<and> s' = s\<lparr>Sim := Some r'\<rparr>))"
proof (cases oimp)
  case None
  then show ?thesis using assms by (auto simp: update_import_def split: if_splits)
next
  case (Some p)
  obtain raw reason where p: "p = (raw, reason)" by fastforce
  show ?thesis
    using assms by (auto simp: update_import_def Some p Let_def split: if_splits sum.splits)
qed

text \<open>What \<open>Update\<close> changes: the rate, the drain flag, or the whole world by an import.\<close>

definition drain_after :: "UpdatePayload option option \<Rightarrow> bool \<Rightarrow> bool" where
  "drain_after req b = (case req of Some (Some (SetSplitDrain oen)) \<Rightarrow> oen = Some True | _ \<Rightarrow> b)"

lemma set_tps_fields:
  assumes "update_set_tps tps s = (resp, s')" "Sim s = Some r"
  shows "s' = s \<or> s' = s\<lparr>Sim := Some (r\<lparr>loop := (loop r)\<lparr>TPS := of_int_f64 tps\<rparr>\<rparr>)\<rparr>"
  using assms by (auto simp: update_set_tps_def split: if_splits)

lemma Update_outcome:
  assumes "Update j order req s = (resp, s')" "Sim s = Some r"
  obtains (kept) r' where "world r' = world r" "s' = s\<lparr>Sim := Some r', splitDrain := drain_after req (splitDrain s)\<rparr>"
  | (imported) raw reason persist r' where "req = Some (Some (ImportNpcPersist (Some (raw, reason))))" "PlayerCount s = 0"
      "Unmarshal j (TrimSpace raw) = Inr persist" "Decode order (Some persist) (Some r) = Inr r'" "s' = s\<lparr>Sim := Some r'\<rparr>"
proof -
  have same: thesis if "s' = s" "drain_after req (splitDrain s) = splitDrain s"
    using that assms(2) kept[of r] by simp
  show thesis
  proof (cases "\<exists>p. req = Some (Some p)")
    case False
    then have "req = None \<or> req = Some None" by (cases req) auto
    with assms(1) show thesis by (intro same) (auto simp: Update_def drain_after_def)
  next
    case True
    then obtain p where req: "req = Some (Some p)" ..
    show thesis
    proof (cases p)
      case (SetTargetTps tps)
      then have "update_set_tps tps s = (resp, s')" using assms(1) by (simp add: Update_def req)
      from set_tps_fields[OF this assms(2)] show thesis
        using same kept[of "r\<lparr>loop := (loop r)\<lparr>TPS := of_int_f64 tps\<rparr>\<rparr>"] by (auto simp: drain_after_def req SetTargetTps)
    next
      case (SetSplitDrain oen)
      then have "s' = s\<lparr>splitDrain := (oen = Some True)\<rparr>"
        using assms(1) by (auto simp: Update_def req update_set_drain_def Let_def split: option.splits)
      then show thesis using kept[of r] assms(2) by (simp add: drain_after_def req SetSplitDrain)
    next
      case (ImportNpcPersist oimp)
      then have "update_import j order oimp s = (resp, s')" using assms(1) by (simp add: Update_def req)
      from import_outcome[OF this assms(2)] show thesis
        using same imported by (auto simp: drain_after_def req ImportNpcPersist)
    qed (use assms(1) same in \<open>simp_all add: Update_def req drain_after_def\<close>)
  qed
qed

lemma Update_inv:
  assumes "server_inv s" "importable j req" "Update j order req s = (resp, s')"
    and "\<And>r. Sim s = Some r \<Longrightarrow> visits order (alive (world r))"
  shows "server_inv s'"
proof -
  note inv = server_invD[OF assms(1)]
  obtain r where r: "Sim s = Some r" "world_inv (world r)" "ran (playerByID s) \<subseteq> alive (world r)"
      "ran (playerByID s) \<subseteq> dom (positions (world r))"
    using inv(2) by (rule sim_invE)
  show ?thesis
    using assms(3) r(1)
  proof (cases rule: Update_outcome)
    case (kept r')
    then show ?thesis
      using inv r by (simp add: server_inv_def roster_inv_def handoff_inv_def sim_inv_def)
  next
    case (imported raw reason persist r')
    have "playerByID s = Map.empty"
      using imported(2) inv(1) by (simp add: PlayerCount_def roster_inv_def)
    moreover have "world_inv (world r')"
      using Decode_inv[OF r(2) assms(4)[OF r(1)] imported(4)] assms(2) imported(1,3)
      by (auto simp: importable_def)
    ultimately have "sim_inv s'" by (simp add: sim_inv_def imported(5))
    then show ?thesis
      using inv by (simp add: server_inv_def imported(5) roster_inv_def handoff_inv_def)
  qed
qed

section \<open>The server as a transition system\<close>

text \<open>
  A step is one call of a handler, run without interleaving, a tick of the simulation or the turn
  of a subscription. The event names the call by its trimmed arguments and says whether it
  succeeded. Calls that create an entity need room in the identifier space.
\<close>

datatype event =
    Joined string bool
  | Left string bool
  | Applied string bool
  | Prepared string string string bool
  | Accepted "(string \<times> string) option" bool
  | Finalized string string bool
  | Updated "UpdatePayload option option"
  | Ticked
  | Streamed

definition payload_names :: "PlayerHandoffState option \<Rightarrow> (string \<times> string) option" where
  "payload_names = map_option (\<lambda>p. (TrimSpace (hs_PlayerId p), TrimSpace (hs_HandoffToken p)))"

inductive server_step :: "Server \<Rightarrow> event \<Rightarrow> Server \<Rightarrow> bool" where
  join: "has_room s \<Longrightarrow> Server_Join pid s = (jresp, s') \<Longrightarrow>
    server_step s (Joined (TrimSpace pid) (jr_Ok jresp)) s'"
| leave: "Leave pid s = (resp, s') \<Longrightarrow> server_step s (Left (TrimSpace pid) (sr_Ok resp)) s'"
| input: "ApplyInput Cos Sin pid oin s = (resp, s') \<Longrightarrow> server_step s (Applied (TrimSpace pid) (sr_Ok resp)) s'"
| prepare: "PreparePlayerHandoff order now1 now2 now3 pid target tok s = (presp, s') \<Longrightarrow>
    server_step s (Prepared (TrimSpace pid) (TrimSpace target) (TrimSpace tok) (pr_Ok presp)) s'"
| accept: "has_room s \<Longrightarrow> AcceptPlayerHandoff opayload s = (aresp, s') \<Longrightarrow>
    server_step s (Accepted (payload_names opayload) (ar_Ok aresp)) s'"
| finalize: "FinalizePlayerHandoff pid tok s = (resp, s') \<Longrightarrow>
    server_step s (Finalized (TrimSpace pid) (TrimSpace tok) (sr_Ok resp)) s'"
| update: "importable j req \<Longrightarrow> (\<And>r. Sim s = Some r \<Longrightarrow> visits eorder (alive (world r))) \<Longrightarrow>
    Update j eorder req s = (uresp, s') \<Longrightarrow> server_step s (Updated req) s'"
| tick: "Sim s = Some r \<Longrightarrow> visits o1 (alive (world r)) \<Longrightarrow> visits o2 (alive (world r)) \<Longrightarrow>
    visits o3 (alive (world r)) \<Longrightarrow> server_step s Ticked (s\<lparr>Sim := Some (Runtime_Step o1 o2 o3 d r)\<rparr>)"
| stream: "server_step s Streamed (with_world (\<lambda>w. snd (TakeDirtyEntities dorder w)) s)"

inductive server_run :: "Server \<Rightarrow> event list \<Rightarrow> Server \<Rightarrow> bool" where
  nil: "server_run s [] s"
| cons: "server_step s e s' \<Longrightarrow> server_run s' es s'' \<Longrightarrow> server_run s (e # es) s''"

lemma dom_movement: "distinct order \<Longrightarrow> dom (positions (MovementSystem_Update order dt w)) = dom (positions w)"
  by (auto simp: MovementSystem_rewrite pos.get_rewrite dom_def split: option.splits)

lemma server_step_inv: "server_step s e s' \<Longrightarrow> server_inv s \<Longrightarrow> server_inv s'"
proof (induction rule: server_step.induct)
  case (tick s r o1 o2 o3 d)
  then have "world_inv (world r)" "ran (playerByID s) \<subseteq> dom (positions (world r))"
    by (auto simp: server_inv_def sim_inv_def)
  with tick show ?case
    using Runtime_Step_fields[of r o1 o2 o3 d] dom_movement[OF visits_distinct, of o1]
    by (simp add: server_inv_def sim_inv_def roster_inv_def handoff_inv_def)
next
  case (stream s dorder)
  let ?s' = "with_world (\<lambda>w. snd (TakeDirtyEntities dorder w)) s"
  have "sim_inv ?s'" using stream
    by (auto simp: server_inv_def sim_inv_def server_simps world_inv_TakeDirty position_dom)
  with stream show ?case
    using inv_cong(1,2)[of ?s' s] by (simp add: server_inv_def server_simps)
qed (blast intro: Join_inv Leave_inv ApplyInput_inv Prepare_inv Accept_inv Finalize_inv Update_inv)+

lemma server_run_inv: "server_run s es s' \<Longrightarrow> server_inv s \<Longrightarrow> server_inv s'"
  by (induction rule: server_run.induct) (blast intro: server_step_inv)+

text \<open>A server as the cell node starts it.\<close>

definition new_server :: "string \<Rightarrow> Bounds option \<Rightarrow> int32 \<Rightarrow> Runtime \<Rightarrow> Server" where
  "new_server cellID b lvl r =
     \<lparr>CellID = cellID, Sim = Some r, srv_Bounds = b, srv_Level = lvl, players = {}, playerByID = Map.empty,
      frozenByID = {}, preparedByID = Map.empty, preparedByTk = Map.empty, acceptedByTk = Map.empty,
      onApplyInput = False, applyReports = [], splitDrain = False\<rparr>"

lemma server_inv_new: "world_inv (world r) \<Longrightarrow> server_inv (new_server c b l r)"
  by (simp add: server_inv_def roster_inv_def sim_inv_def handoff_inv_def new_server_def)

text \<open>
  C11: The tables of a cell server never contradict each other. Whatever sequence of joins, leaves,
  inputs, handoff calls, commands, ticks and subscription turns a fresh server executes, each call
  uninterrupted, afterwards every player on the roster has a live entity of his own, \<open>players\<close>
  lists exactly those entities, exactly the players with a handoff in progress are frozen, each
  such handoff is stored under its token and belongs to him, and the world is well-formed.
\<close>

theorem server_tables_consistent:
  assumes "world_inv (world r)" "server_run (new_server c b l r) es s"
  shows "server_inv s"
  using server_run_inv[OF assms(2) server_inv_new[OF assms(1)]] .

text \<open>A concrete run for the witnesses: a player joins and a handoff is prepared for him.\<close>

definition demo_server :: Server where
  "demo_server = new_server ''root'' None 0 NewRuntime"

definition demo_joined :: Server where
  "demo_joined = snd (Server_Join ''ann'' demo_server)"

definition demo_prepared :: Server where
  "demo_prepared = snd (PreparePlayerHandoff [] 1 2 3 ''ann'' ''cell_1_0_0'' ''tok'' demo_joined)"

lemma demo_names [simp]: "TrimSpace ''ann'' = ''ann''" "TrimSpace ''tok'' = ''tok''" "TrimSpace ''cell_1_0_0'' = ''cell_1_0_0''"
  by (simp_all add: TrimSpace_trimmed trimmedI ascii_graph_def)

lemma world_inv_NewRuntime: "world_inv (world NewRuntime)"
  by (simp add: NewRuntime_def world_inv_New)

lemma room_NewRuntime: "room (world NewRuntime)"
  by (simp add: NewRuntime_def NewWorld_def room_def small_entity)

lemma demo_join:
  "Server_Join ''ann'' demo_server = (\<lparr>jr_Ok = True, jr_CellId = ''root'', jr_Message = ''spawned'', jr_EntityId = 1\<rparr>, demo_joined)"
  by (simp add: demo_joined_def demo_server_def new_server_def Server_Join_def join_check_def join_spawn_def
      spawn_player_def NewRuntime_def NewWorld_def CreateEntity_def Let_def)

lemma demo_joined_simps [simp]:
  "playerByID demo_joined = [''ann'' \<mapsto> 1]" "preparedByID demo_joined = Map.empty" "frozenByID demo_joined = {}"
  "preparedByTk demo_joined = Map.empty" "splitDrain demo_joined = False" "players demo_joined = {1}"
  by (simp_all add: demo_joined_def demo_server_def new_server_def Server_Join_def join_check_def join_spawn_def
      spawn_player_def NewRuntime_def NewWorld_def CreateEntity_def Let_def join_register_def)

lemma demo_joined_sim:
  obtains r where "Sim demo_joined = Some r" "positions (world r) = [1 \<mapsto> origin]" "alive (world r) = {1}"
  by (simp add: demo_joined_def demo_server_def new_server_def Server_Join_def join_check_def join_spawn_def
      spawn_player_def NewRuntime_def NewWorld_def CreateEntity_def Let_def join_register_def world_defs)

lemma demo_prepare:
  "pr_Ok (fst (PreparePlayerHandoff [] 1 2 3 ''ann'' ''cell_1_0_0'' ''tok'' demo_joined))"
  "frozenByID demo_prepared = {''ann''}" "preparedByID demo_prepared = [''ann'' \<mapsto> ''tok'']"
  "playerByID demo_prepared = [''ann'' \<mapsto> 1]"
proof -
  obtain r where r: "Sim demo_joined = Some r" "positions (world r) = [1 \<mapsto> origin]"
    by (rule demo_joined_sim)
  have sim: "Sim (demo_joined\<lparr>preparedByID := m, frozenByID := f\<rparr>) = Some r" for m f by (simp add: r)
  show "pr_Ok (fst (PreparePlayerHandoff [] 1 2 3 ''ann'' ''cell_1_0_0'' ''tok'' demo_joined))"
    "frozenByID demo_prepared = {''ann''}" "preparedByID demo_prepared = [''ann'' \<mapsto> ''tok'']"
    "playerByID demo_prepared = [''ann'' \<mapsto> 1]"
    by (simp_all add: demo_prepared_def PreparePlayerHandoff_def prepare_reserve_def pruneStalePreparedLocked_def
        prepare_read_def prepare_store_def r sim with_world_def Let_def)
qed

lemma demo_run:
  "server_run demo_server [Joined ''ann'' True, Prepared ''ann'' ''cell_1_0_0'' ''tok'' True] demo_prepared"
proof -
  have "has_room demo_server"
    using room_NewRuntime by (simp add: has_room_def demo_server_def new_server_def)
  from server_step.join[OF this demo_join]
  have 1: "server_step demo_server (Joined ''ann'' True) demo_joined" by simp
  obtain presp where p: "PreparePlayerHandoff [] 1 2 3 ''ann'' ''cell_1_0_0'' ''tok'' demo_joined = (presp, demo_prepared)" "pr_Ok presp"
    using demo_prepare(1) by (cases "PreparePlayerHandoff [] 1 2 3 ''ann'' ''cell_1_0_0'' ''tok'' demo_joined")
      (simp add: demo_prepared_def)
  from server_step.prepare[OF p(1)] p(2)
  have "server_step demo_joined (Prepared ''ann'' ''cell_1_0_0'' ''tok'' True) demo_prepared" by simp
  with 1 show ?thesis by (blast intro: server_run.intros)
qed

theorem server_tables_consistent_witness:
  "server_inv demo_prepared \<and> frozenByID demo_prepared = {''ann''}"
  using server_tables_consistent[OF world_inv_NewRuntime demo_run[unfolded demo_server_def]] demo_prepare(2)
  by blast

section \<open>Refinement of an abstract roster\<close>

text \<open>
  What the players of the cluster may rely on: who is present, whose handoff is in progress under
  which token, which player a stored handoff is of and whether it is finalized, which tokens were
  accepted, and whether joins are closed. Time is left out: a prepare may first let the handoffs of any
  players in progress expire.
\<close>

record Roster =
  present :: "string set"
  moving :: "string \<rightharpoonup> string"
  stored :: "string \<rightharpoonup> string \<times> bool"
  taken :: "string set"
  closed :: bool

definition roster_of :: "Server \<Rightarrow> Roster" where
  "roster_of s = \<lparr>present = dom (playerByID s), moving = preparedByID s,
     stored = (\<lambda>t. map_option (\<lambda>pp. (pp_playerID pp, pp_finalized pp)) (preparedByTk s t)),
     taken = dom (acceptedByTk s), closed = splitDrain s\<rparr>"

definition expire :: "string set \<Rightarrow> Roster \<Rightarrow> Roster" where
  "expire E R = R\<lparr>moving := moving R |` (- E), stored := stored R |` (- {t. \<exists>p \<in> E. moving R p = Some t})\<rparr>"

text \<open>The handoffs of a player are forgotten.\<close>

definition forget :: "string \<Rightarrow> Roster \<Rightarrow> Roster" where
  "forget p R = R\<lparr>moving := (moving R)(p := None),
     stored := (\<lambda>t. case stored R t of Some (q, b) \<Rightarrow> if q = p then None else Some (q, b) | None \<Rightarrow> None)\<rparr>"

inductive roster_step :: "Roster \<Rightarrow> event \<Rightarrow> Roster \<Rightarrow> bool" where
  join_new: "p \<noteq> [] \<Longrightarrow> \<not> closed R \<Longrightarrow> p \<notin> present R \<Longrightarrow>
    roster_step R (Joined p True) (R\<lparr>present := insert p (present R)\<rparr>)"
| join_again: "p \<in> present R \<Longrightarrow> roster_step R (Joined p True) R"
| join_refused: "p = [] \<or> closed R \<and> p \<notin> present R \<Longrightarrow> roster_step R (Joined p False) R"
| leave: "p \<noteq> [] \<Longrightarrow> roster_step R (Left p True) ((forget p R)\<lparr>present := present R - {p}\<rparr>)"
| leave_refused: "roster_step R (Left [] False) R"
| applied: "p \<in> present R \<Longrightarrow> moving R p = None \<Longrightarrow> roster_step R (Applied p True) R"
| not_applied: "p \<notin> present R \<or> moving R p \<noteq> None \<Longrightarrow> roster_step R (Applied p False) R"
| prepare_invalid: "p = [] \<or> target = [] \<or> tok = [] \<Longrightarrow> roster_step R (Prepared p target tok False) R"
| prepare_new: "E \<subseteq> dom (moving R) \<Longrightarrow> R1 = expire E R \<Longrightarrow> p \<noteq> [] \<and> target \<noteq> [] \<and> tok \<noteq> [] \<Longrightarrow>
    stored R1 tok = None \<Longrightarrow> p \<in> present R \<Longrightarrow> moving R1 p = None \<Longrightarrow>
    roster_step R (Prepared p target tok True)
      (R1\<lparr>moving := (moving R1)(p \<mapsto> tok), stored := (stored R1)(tok \<mapsto> (p, False))\<rparr>)"
| prepare_again: "E \<subseteq> dom (moving R) \<Longrightarrow> R1 = expire E R \<Longrightarrow> p \<noteq> [] \<and> target \<noteq> [] \<and> tok \<noteq> [] \<Longrightarrow>
    stored R1 tok \<noteq> None \<Longrightarrow> roster_step R (Prepared p target tok True) R1"
| prepare_refused: "E \<subseteq> dom (moving R) \<Longrightarrow> R1 = expire E R \<Longrightarrow> p \<noteq> [] \<and> target \<noteq> [] \<and> tok \<noteq> [] \<Longrightarrow>
    stored R1 tok = None \<Longrightarrow> p \<notin> present R \<or> (\<exists>t. moving R1 p = Some t \<and> t \<noteq> tok) \<Longrightarrow>
    roster_step R (Prepared p target tok False) R1"
| accept_invalid: "names = None \<or> names = Some (p, tok) \<and> (p = [] \<or> tok = []) \<Longrightarrow> roster_step R (Accepted names False) R"
| accept_new: "p \<noteq> [] \<Longrightarrow> tok \<noteq> [] \<Longrightarrow> tok \<notin> taken R \<Longrightarrow>
    roster_step R (Accepted (Some (p, tok)) True) (R\<lparr>present := insert p (present R), taken := insert tok (taken R)\<rparr>)"
| accept_again: "p \<noteq> [] \<Longrightarrow> tok \<noteq> [] \<Longrightarrow> tok \<in> taken R \<Longrightarrow> roster_step R (Accepted (Some (p, tok)) True) R"
| finalize: "p \<noteq> [] \<Longrightarrow> tok \<noteq> [] \<Longrightarrow> stored R tok = Some (p, False) \<Longrightarrow>
    roster_step R (Finalized p tok True) (R\<lparr>present := present R - {p}, moving := (moving R)(p := None),
      stored := (stored R)(tok \<mapsto> (p, True))\<rparr>)"
| finalize_again: "p \<noteq> [] \<Longrightarrow> tok \<noteq> [] \<Longrightarrow> stored R tok = Some (p, True) \<Longrightarrow> roster_step R (Finalized p tok True) R"
| finalize_refused: "p = [] \<or> tok = [] \<or> (\<forall>b. stored R tok \<noteq> Some (p, b)) \<Longrightarrow> roster_step R (Finalized p tok False) R"
| update: "roster_step R (Updated req) (R\<lparr>closed := drain_after req (closed R)\<rparr>)"
| tick: "roster_step R Ticked R"
| stream: "roster_step R Streamed R"

inductive roster_run :: "Roster \<Rightarrow> event list \<Rightarrow> Roster \<Rightarrow> bool" where
  nil: "roster_run R [] R"
| cons: "roster_step R e R' \<Longrightarrow> roster_run R' es R'' \<Longrightarrow> roster_run R (e # es) R''"

inductive_simps roster_step_Joined: "roster_step R (Joined p b) R'"
inductive_simps roster_step_Left: "roster_step R (Left p b) R'"
inductive_simps roster_step_Applied: "roster_step R (Applied p b) R'"

lemma roster_of_simps [simp]:
  "present (roster_of s) = dom (playerByID s)" "moving (roster_of s) = preparedByID s" "closed (roster_of s) = splitDrain s"
  "taken (roster_of s) = dom (acceptedByTk s)"
  "stored (roster_of s) t = map_option (\<lambda>pp. (pp_playerID pp, pp_finalized pp)) (preparedByTk s t)"
  by (simp_all add: roster_of_def)

lemma roster_of_with_world [server_simps]: "roster_of (with_world f s) = roster_of s"
  by (simp add: roster_of_def server_simps)

lemma roster_of_report [server_simps]: "roster_of (reportApplyInput b s) = roster_of s"
  by (simp add: roster_of_def server_simps)

lemma Join_refines:
  assumes "server_inv s" "Server_Join pid s = (resp, s')"
  shows "roster_step (roster_of s) (Joined (TrimSpace pid) (jr_Ok resp)) (roster_of s')"
proof -
  obtain r where r: "Sim s = Some r" using server_invD(2)[OF assms(1)] by (rule sim_invE)
  have "playerByID s [] = None" using assms(1) by (simp add: server_inv_def roster_inv_def)
  then show ?thesis
    using Join_outcome[OF assms(2) r] unfolding roster_step_Joined
    by (elim disjE conjE exE) (auto simp: roster_of_def server_simps)
qed

lemma Leave_refines:
  assumes "server_inv s" "Leave pid s = (resp, s')"
  shows "roster_step (roster_of s) (Left (TrimSpace pid) (sr_Ok resp)) (roster_of s')"
proof -
  obtain r where r: "Sim s = Some r" using server_invD(2)[OF assms(1)] by (rule sim_invE)
  from Leave_outcome[OF assms(2) r] show ?thesis
  proof (elim disjE conjE exE)
    fix s1 assume p: "TrimSpace pid \<noteq> []" "sr_Ok resp"
      and s1: "leave_unregister (TrimSpace pid) s = (playerByID s (TrimSpace pid), s1)"
      and s': "s' = (case playerByID s (TrimSpace pid) of None \<Rightarrow> s1 | Some e \<Rightarrow> with_world (DestroyEntity e) s1)"
    note f = leave_unregister_fields(2-)[OF server_invD(3)[OF assms(1)] s1]
    have "roster_of s' = roster_of s1" by (simp add: s' server_simps split: option.split)
    also have "\<dots> = (forget (TrimSpace pid) (roster_of s))\<lparr>present := dom (playerByID s) - {TrimSpace pid}\<rparr>"
      by (simp add: roster_of_def forget_def fun_eq_iff f(1,5,6,7,8) split: option.split)
    finally show ?thesis using p by (simp add: roster_step_Left)
  qed (simp add: roster_step_Left)
qed

lemma ApplyInput_effect:
  assumes "server_inv s" "Sim s = Some r" "ApplyInput Cos Sin pid oin s = (resp, s')"
  defines "p \<equiv> TrimSpace pid"
  shows "(sr_Ok resp \<longleftrightarrow> p \<in> dom (playerByID s) \<and> p \<notin> frozenByID s) \<and>
    (\<not> sr_Ok resp \<longrightarrow> s' = reportApplyInput False s) \<and>
    (sr_Ok resp \<longrightarrow> (\<exists>e v. playerByID s p = Some e \<and>
       v = velocityFromClientInput Cos Sin (Some (case oin of None \<Rightarrow> empty_input | Some i \<Rightarrow> i)) \<and>
       s' = reportApplyInput True (s\<lparr>Sim := Some (r\<lparr>world := (world r)\<lparr>velocities := (velocities (world r))(e \<mapsto> v)\<rparr>\<rparr>)\<rparr>)))"
proof -
  have "playerByID s [] = None" using assms(1) by (simp add: server_inv_def roster_inv_def)
  moreover have "playerByID s p = None \<or> positions (world r) (the (playerByID s p)) \<noteq> None"
    using player_position[OF server_invD(2)[OF assms(1)] assms(2)] by (cases "playerByID s p") auto
  ultimately show ?thesis
    using ApplyInput_outcome[OF assms(3,2)] unfolding p_def
    by (elim disjE conjE exE) (auto simp: with_world_def assms(2) SetVelocity_def)
qed

lemma ApplyInput_refines:
  assumes "server_inv s" "ApplyInput Cos Sin pid oin s = (resp, s')"
  shows "roster_step (roster_of s) (Applied (TrimSpace pid) (sr_Ok resp)) (roster_of s')"
proof -
  obtain r where r: "Sim s = Some r" using server_invD(2)[OF assms(1)] by (rule sim_invE)
  have "frozenByID s = dom (preparedByID s)" using assms(1) by (simp add: server_inv_def handoff_inv_def)
  moreover have "roster_of s' = roster_of s"
    using ApplyInput_outcome[OF assms(2) r] by (elim disjE conjE exE) (simp_all add: server_simps)
  ultimately show ?thesis
    using ApplyInput_effect[OF assms(1) r assms(2)] unfolding roster_step_Applied by auto
qed

text \<open>Handoffs that expire on the server are handoffs that expire on the roster.\<close>

lemma roster_drop:
  assumes "handoff_inv s" "preparedByID s p = Some tok"
  shows "roster_of (drop_handoff p tok s) = expire {p} (roster_of s)"
  using assms(2) by (auto simp: roster_of_def expire_def restrict_map_def fun_eq_iff server_simps)

lemma expire_expire:
  assumes "p \<notin> E"
  shows "expire E (expire {p} R) = expire (insert p E) R"
proof -
  have "moving (expire E (expire {p} R)) = moving (expire (insert p E) R)"
    by (auto simp: expire_def restrict_map_def fun_eq_iff)
  moreover have "stored (expire E (expire {p} R)) = stored (expire (insert p E) R)"
    using assms by (auto simp: expire_def restrict_map_def fun_eq_iff)
  ultimately show ?thesis by (simp add: expire_def)
qed

lemma expires_roster:
  "expires s s' \<Longrightarrow> handoff_inv s \<Longrightarrow> \<exists>E \<subseteq> dom (preparedByID s). roster_of s' = expire E (roster_of s)"
proof (induction rule: expires.induct)
  case (refl s)
  then show ?case by (intro exI[of _ "{}"]) (simp add: expire_def roster_of_def restrict_map_def)
next
  case (step s p tok s')
  obtain E where E: "E \<subseteq> dom ((preparedByID s)(p := None))" "roster_of s' = expire E (roster_of (drop_handoff p tok s))"
    using step.IH[OF handoff_inv_drop[OF step.prems step.hyps(1)]] unfolding drop_handoff_fields(5) by blast
  then have "p \<notin> E" by auto
  with E(2) have "roster_of s' = expire (insert p E) (roster_of s)"
    by (simp add: roster_drop[OF step.prems step.hyps(1)] expire_expire)
  with E(1) step.hyps(1) show ?case by (intro exI[of _ "insert p E"]) auto
qed

lemma Prepare_refines:
  assumes "server_inv s" "PreparePlayerHandoff order now1 now2 now3 pid target tok s = (resp, s')"
  shows "roster_step (roster_of s) (Prepared (TrimSpace pid) (TrimSpace target) (TrimSpace tok) (pr_Ok resp)) (roster_of s')"
proof -
  let ?p = "TrimSpace pid" and ?tok = "TrimSpace tok" and ?R = "roster_of s"
  note inv = server_invD[OF assms(1)]
  obtain r where r: "Sim s = Some r" using inv(2) by (rule sim_invE)
  note ans = Prepare_answer[OF inv(3,2) r assms(2)]
  obtain s2 where s2: "expires s s2" and o': "s' = s2 \<and> (pr_Ok resp \<longrightarrow> preparedByTk s2 ?tok \<noteq> None) \<or>
     pr_Ok resp \<and> ?p \<noteq> [] \<and> ?tok \<noteq> [] \<and> preparedByID s2 ?p = None \<and> preparedByTk s2 ?tok = None \<and>
       (\<exists>e pos payload. playerByID s2 ?p = Some e \<and> positions (world r) e = Some pos \<and> pr_Payload resp = Some payload \<and>
         payload = handoff_payload r e pos (CellID s) ?p (TrimSpace target) ?tok \<and>
         s' = prepared_state ?p ?tok \<lparr>pp_playerID = ?p, pp_token = ?tok, pp_entityID = e, pp_finalized = False,
           pp_createdAt = now3, pp_payload = Some payload\<rparr> e s2)"
    using Prepare_outcome[OF inv(3) r assms(2)] by blast
  have o: "s' = s2 \<and> (pr_Ok resp \<longrightarrow> preparedByTk s2 ?tok \<noteq> None) \<or>
      pr_Ok resp \<and> preparedByID s2 ?p = None \<and> preparedByTk s2 ?tok = None \<and>
      (\<exists>e pp. playerByID s2 ?p = Some e \<and> pp_playerID pp = ?p \<and> \<not> pp_finalized pp \<and> s' = prepared_state ?p ?tok pp e s2)"
    using o'
  proof (elim disjE conjE exE, goal_cases)
    case (2 e pos payload)
    then show ?case
      by (intro disjI2 conjI exI[of _ e] exI[of _ "\<lparr>pp_playerID = ?p, pp_token = ?tok, pp_entityID = e,
        pp_finalized = False, pp_createdAt = now3, pp_payload = Some payload\<rparr>"]) simp_all
  qed blast
  obtain E where E: "E \<subseteq> dom (preparedByID s)" "roster_of s2 = expire E ?R"
    using expires_roster[OF s2 inv(3)] by blast
  have same: "playerByID s2 = playerByID s" using expires_fields[OF s2] by simp
  show ?thesis
  proof (cases "?p = [] \<or> TrimSpace target = [] \<or> ?tok = []")
    case True
    then show ?thesis using ans roster_step.prepare_invalid by simp
  next
    case False
    then have named: "?p \<noteq> [] \<and> TrimSpace target \<noteq> [] \<and> ?tok \<noteq> []" by simp
    have E': "E \<subseteq> dom (moving ?R)" "roster_of s2 = expire E ?R" using E by simp_all
    have look: "stored (expire E ?R) ?tok = None \<longleftrightarrow> preparedByTk s2 ?tok = None"
        "moving (expire E ?R) = preparedByID s2"
      by (simp_all flip: E(2))
    consider "s' = s2" "pr_Ok resp" "preparedByTk s2 ?tok \<noteq> None" | "s' = s2" "\<not> pr_Ok resp"
      | e pp where "pr_Ok resp" "preparedByID s2 ?p = None" "preparedByTk s2 ?tok = None" "playerByID s2 ?p = Some e"
          "pp_playerID pp = ?p" "\<not> pp_finalized pp" "s' = prepared_state ?p ?tok pp e s2"
      using o by blast
    then show ?thesis
    proof cases
      case 1
      then show ?thesis
        using roster_step.prepare_again[OF E' named] look by (simp add: E(2))
    next
      case 2
      then have "preparedByTk s2 ?tok = None" "?p \<notin> dom (playerByID s) \<or> (\<exists>t. preparedByID s2 ?p = Some t \<and> t \<noteq> ?tok)"
        using ans named by (auto simp: same)
      then show ?thesis
        using roster_step.prepare_refused[OF E' named] look 2 by (simp add: E(2))
    next
      case 3
      have "roster_of s' = (roster_of s2)\<lparr>moving := (moving (roster_of s2))(?p \<mapsto> ?tok),
          stored := (stored (roster_of s2))(?tok \<mapsto> (?p, False))\<rparr>"
        using 3 by (auto simp: roster_of_def server_simps fun_eq_iff)
      then show ?thesis
        using roster_step.prepare_new[OF E' named] look 3 same by (auto simp: E(2))
    qed
  qed
qed

lemma Accept_answer:
  assumes "AcceptPlayerHandoff opayload s = (resp, s')" "Sim s = Some r"
  shows "case payload_names opayload of None \<Rightarrow> \<not> ar_Ok resp \<and> s' = s
    | Some (p, tok) \<Rightarrow> if p = [] \<or> tok = [] then \<not> ar_Ok resp \<and> s' = s
        else ar_Ok resp \<and> (acceptedByTk s tok \<noteq> None \<longrightarrow> s' = s)"
  using assms
  by (auto simp: AcceptPlayerHandoff_def accept_lookup_def payload_names_def Let_def split: option.splits prod.splits if_splits)

lemma Accept_refines:
  assumes "server_inv s" "AcceptPlayerHandoff opayload s = (resp, s')"
  shows "roster_step (roster_of s) (Accepted (payload_names opayload) (ar_Ok resp)) (roster_of s')"
proof -
  obtain r where r: "Sim s = Some r" using server_invD(2)[OF assms(1)] by (rule sim_invE)
  note ans = Accept_answer[OF assms(2) r]
  show ?thesis
  proof (cases "payload_names opayload")
    case None
    then show ?thesis using ans roster_step.accept_invalid[of None] by simp
  next
    case (Some n)
    obtain p tok where n: "n = (p, tok)" by fastforce
    show ?thesis
    proof (cases "p = [] \<or> tok = []")
      case True
      then show ?thesis
        using ans Some n roster_step.accept_invalid[of "Some (p, tok)" p tok] by auto
    next
      case False
      then have ok: "ar_Ok resp" using ans Some n by simp
      show ?thesis
      proof (cases "acceptedByTk s tok")
        case None
        then obtain payload s1 where s1: "opayload = Some payload"
            "case playerByID s p of Some e \<Rightarrow> (ar_EntityId resp, s1) = (e, s) | None \<Rightarrow> accept_create s = (ar_EntityId resp, s1)"
            "s' = accept_register p tok (ar_EntityId resp) (accept_write payload (ar_EntityId resp) s1)"
          using assms(2) False Some n
          by (auto simp: AcceptPlayerHandoff_def accept_lookup_def payload_names_def Let_def r split: option.splits prod.splits if_splits)
        have "roster_of s1 = roster_of s"
          using s1(2) r by (auto simp: accept_create_def roster_of_def split: option.splits prod.splits)
        then have "roster_of s' = (roster_of s)\<lparr>present := insert p (dom (playerByID s)), taken := insert tok (dom (acceptedByTk s))\<rparr>"
          by (simp add: s1(3) roster_of_def accept_write_def server_simps)
        then show ?thesis
          using roster_step.accept_new[of p tok "roster_of s"] None False ok Some n by auto
      next
        case accepted: (Some e)
        then show ?thesis
          using ans False Some n roster_step.accept_again[of p tok "roster_of s"] by auto
      qed
    qed
  qed
qed

lemma Finalize_answer:
  assumes "handoff_inv s" "Sim s = Some r" "FinalizePlayerHandoff playerId token s = (resp, s')"
  defines "p \<equiv> TrimSpace playerId" and "tok \<equiv> TrimSpace token"
  shows "(sr_Ok resp \<longleftrightarrow> p \<noteq> [] \<and> tok \<noteq> [] \<and> (\<exists>pp. preparedByTk s tok = Some pp \<and> pp_playerID pp = p)) \<and>
    (\<forall>pp. preparedByTk s tok = Some pp \<longrightarrow> pp_playerID pp = p \<longrightarrow> (pp_finalized pp \<longleftrightarrow> preparedByID s p \<noteq> Some tok))"
proof
  show "\<forall>pp. preparedByTk s tok = Some pp \<longrightarrow> pp_playerID pp = p \<longrightarrow> (pp_finalized pp \<longleftrightarrow> preparedByID s p \<noteq> Some tok)"
    using assms(1) handoff_token[OF assms(1), of p tok] by (auto simp: handoff_inv_def)
  show "sr_Ok resp \<longleftrightarrow> p \<noteq> [] \<and> tok \<noteq> [] \<and> (\<exists>pp. preparedByTk s tok = Some pp \<and> pp_playerID pp = p)"
    using assms(2,3)
    by (auto simp: FinalizePlayerHandoff_def finalize_commit_def Let_def p_def tok_def split: if_splits option.splits)
qed

lemma Finalize_refines:
  assumes "server_inv s" "FinalizePlayerHandoff pid tok s = (resp, s')"
  shows "roster_step (roster_of s) (Finalized (TrimSpace pid) (TrimSpace tok) (sr_Ok resp)) (roster_of s')"
proof -
  let ?p = "TrimSpace pid" and ?tok = "TrimSpace tok"
  note inv = server_invD[OF assms(1)]
  obtain r where r: "Sim s = Some r" using inv(2) by (rule sim_invE)
  note ans = Finalize_answer[OF inv(3) r assms(2)] and out = Finalize_outcome[OF inv(1,3) r assms(2)]
  have own: "?p \<noteq> [] \<and> ?tok \<noteq> []" if "preparedByID s ?p = Some ?tok"
    using handoff_name[OF inv(1,3) that] handoff_token[OF inv(3) that] by auto
  show ?thesis
  proof (cases "preparedByID s ?p = Some ?tok")
    case True
    then obtain e pp where pp: "preparedByTk s ?tok = Some pp" "pp_playerID pp = ?p" "sr_Ok resp"
        "roster_of s' = (roster_of s)\<lparr>present := dom (playerByID s) - {?p}, moving := (preparedByID s)(?p := None),
           stored := (stored (roster_of s))(?tok \<mapsto> (?p, True))\<rparr>"
      using out by (auto simp: roster_of_def server_simps fun_eq_iff)
    moreover have "\<not> pp_finalized pp" using ans pp(1,2) True by blast
    ultimately show ?thesis
      using roster_step.finalize[of ?p ?tok "roster_of s"] own[OF True] by simp
  next
    case False
    then have "s' = s" using out by blast
    then show ?thesis
      using ans False roster_step.finalize_again[of ?p ?tok "roster_of s"] roster_step.finalize_refused[of ?p ?tok "roster_of s"]
      by (cases "sr_Ok resp") auto
  qed
qed

lemma Update_refines:
  assumes "server_inv s" "Update j order req s = (resp, s')"
  shows "roster_step (roster_of s) (Updated req) (roster_of s')"
proof -
  obtain r where r: "Sim s = Some r" using server_invD(2)[OF assms(1)] by (rule sim_invE)
  have "roster_of s' = (roster_of s)\<lparr>closed := drain_after req (splitDrain s)\<rparr>"
    using assms(2) r by (cases rule: Update_outcome) (simp_all add: roster_of_def drain_after_def)
  then show ?thesis using roster_step.update[of "roster_of s" req] by simp
qed

lemmas handler_refines = Join_refines Leave_refines ApplyInput_refines Prepare_refines Accept_refines
  Finalize_refines Update_refines

lemma server_step_refines: "server_step s e s' \<Longrightarrow> server_inv s \<Longrightarrow> roster_step (roster_of s) e (roster_of s')"
proof (induction rule: server_step.induct)
  case (tick s r o1 o2 o3 d)
  have "roster_of (s\<lparr>Sim := Some (Runtime_Step o1 o2 o3 d r)\<rparr>) = roster_of s" by (simp add: roster_of_def)
  then show ?case by (simp only: roster_step.tick)
qed (simp_all add: handler_refines roster_of_with_world roster_step.stream)

lemma server_run_refines: "server_run s es s' \<Longrightarrow> server_inv s \<Longrightarrow> roster_run (roster_of s) es (roster_of s')"
  by (induction rule: server_run.induct) (blast intro: roster_run.intros server_step_refines server_step_inv)+

lemma demo_roster: "roster_of demo_prepared =
   \<lparr>present = {''ann''}, moving = [''ann'' \<mapsto> ''tok''], stored = [''tok'' \<mapsto> (''ann'', False)], taken = {}, closed = False\<rparr>"
proof -
  obtain r where r: "Sim demo_joined = Some r" "positions (world r) = [1 \<mapsto> origin]" by (rule demo_joined_sim)
  have sim: "Sim (demo_joined\<lparr>preparedByID := m, frozenByID := f\<rparr>) = Some r" for m f by (simp add: r)
  have "acceptedByTk demo_joined = Map.empty"
    by (simp add: demo_joined_def demo_server_def new_server_def Server_Join_def join_check_def join_spawn_def
        spawn_player_def NewRuntime_def NewWorld_def CreateEntity_def Let_def join_register_def)
  then show ?thesis
    by (simp add: roster_of_def demo_prepared_def PreparePlayerHandoff_def prepare_reserve_def
        pruneStalePreparedLocked_def prepare_read_def prepare_store_def r sim with_world_def Let_def fun_eq_iff)
qed

text \<open>
  C12: A cell server refines the abstract roster. Every run of the server is a run of the roster
  with the same events and answers, and the roster leaves no call a choice but which handoffs in
  progress have expired when a prepare begins. A join is refused exactly when the name is empty or the
  drain is on for a newcomer, and enters him otherwise; input is applied exactly for a present player
  without a handoff in progress; a leave takes the player out and forgets his handoffs. A prepare with
  proper names fails exactly when no handoff is stored under the token and the player is absent or has
  one in progress under another token, changes nothing when one is stored, and stores and starts one
  otherwise. An accept with proper names enters the player the first time its token comes and does
  nothing later. A finalize takes the player out when his handoff of that token is open, repeats its
  answer when it is finalized, and is refused when the token is unknown or of another player.
\<close>

theorem server_refines_roster:
  assumes "server_inv s" "server_run s es s'"
  shows "roster_run (roster_of s) es (roster_of s')"
  using assms(2,1) by (rule server_run_refines)

theorem server_refines_roster_witness:
  "roster_run (roster_of demo_server) [Joined ''ann'' True, Prepared ''ann'' ''cell_1_0_0'' ''tok'' True]
     \<lparr>present = {''ann''}, moving = [''ann'' \<mapsto> ''tok''], stored = [''tok'' \<mapsto> (''ann'', False)], taken = {}, closed = False\<rparr>"
  using server_refines_roster[OF server_inv_new[OF world_inv_NewRuntime] demo_run[unfolded demo_server_def]]
  by (simp add: demo_roster demo_server_def)

section \<open>Input and handoffs over time\<close>

text \<open>
  Input is refused exactly for players who are absent or in a handoff, and does one thing. On a
  consistent server a refused input changes nothing but the report to the hook, whatever the reason;
  an accepted one sets the velocity of the player's own entity to the one computed from the input and
  leaves every other entity, component and table as it was.
\<close>

theorem ApplyInput_exact:
  assumes "server_inv s" "Sim s = Some r" "ApplyInput Cos Sin pid oin s = (resp, s')"
  shows "(sr_Ok resp \<longleftrightarrow> TrimSpace pid \<in> dom (playerByID s) \<and> TrimSpace pid \<notin> frozenByID s) \<and>
    (\<not> sr_Ok resp \<longrightarrow> s' = reportApplyInput False s) \<and>
    (sr_Ok resp \<longrightarrow> (\<exists>e v. playerByID s (TrimSpace pid) = Some e \<and>
       v = velocityFromClientInput Cos Sin (Some (case oin of None \<Rightarrow> empty_input | Some i \<Rightarrow> i)) \<and>
       s' = reportApplyInput True (s\<lparr>Sim := Some (r\<lparr>world := (world r)\<lparr>velocities := (velocities (world r))(e \<mapsto> v)\<rparr>\<rparr>)\<rparr>)))"
  using ApplyInput_effect[OF assms] .

lemma demo_inv: "server_inv demo_joined" "server_inv demo_prepared"
proof -
  have "has_room demo_server" using room_NewRuntime by (simp add: has_room_def demo_server_def new_server_def)
  then show "server_inv demo_joined"
    using Join_inv[OF _ _ demo_join] server_inv_new[OF world_inv_NewRuntime] by (simp add: demo_server_def)
  show "server_inv demo_prepared"
    using server_run_inv[OF demo_run] server_inv_new[OF world_inv_NewRuntime] by (simp add: demo_server_def)
qed

theorem ApplyInput_exact_witness:
  "sr_Ok (fst (ApplyInput id id '' ann'' None demo_joined)) \<and>
   \<not> sr_Ok (fst (ApplyInput id id ''ann'' None demo_prepared))"
proof -
  have t: "TrimSpace '' ann'' = ''ann''" by code_simp
  obtain r where r: "Sim demo_joined = Some r" by (rule demo_joined_sim)
  obtain r' where r': "Sim demo_prepared = Some r'" using server_invD(2)[OF demo_inv(2)] by (rule sim_invE)
  show ?thesis
    using ApplyInput_exact[OF demo_inv(1) r surjective_pairing, of id id "'' ann''" None]
      ApplyInput_exact[OF demo_inv(2) r' surjective_pairing, of id id "''ann''" None] demo_prepare(2)
    by (simp add: t)
qed

text \<open>The events that can end the handoff of a player.\<close>

fun releases :: "string \<Rightarrow> event \<Rightarrow> bool" where
  "releases p (Left q b) = (q = p)"
| "releases p (Prepared q target t b) = True"
| "releases p (Finalized q t b) = (q = p)"
| "releases p ev = False"

lemma roster_stuck:
  "roster_step R ev R' \<Longrightarrow> moving R p = Some tok \<Longrightarrow> \<not> releases p ev \<Longrightarrow> moving R' p = Some tok \<and> ev \<noteq> Applied p True"
  by (induction rule: roster_step.induct) (auto simp: forget_def)

lemma roster_run_stuck:
  "roster_run R es R' \<Longrightarrow> moving R p = Some tok \<Longrightarrow> list_all (\<lambda>ev. \<not> releases p ev) es \<Longrightarrow>
     moving R' p = Some tok \<and> Applied p True \<notin> set es"
proof (induction rule: roster_run.induct)
  case (cons R e R' es R'')
  then show ?case using roster_stuck[of R e R' p tok] by auto
qed simp

text \<open>
  C13: Nothing but a call about the player, or somebody's next prepare, ends a handoff. Once a
  handoff is prepared the player stays frozen and every input of his is refused through any number
  of ticks, inputs, joins, commands and subscription turns, however much time passes: the timeout of
  five seconds is only looked at inside the next \<open>PreparePlayerHandoff\<close>.
\<close>

theorem prepared_player_stuck:
  assumes "server_inv s" "preparedByID s p = Some tok" "server_run s es s'"
    and "list_all (\<lambda>ev. \<not> releases p ev) es"
  shows "p \<in> frozenByID s' \<and> preparedByID s' p = Some tok \<and> Applied p True \<notin> set es"
proof -
  have "moving (roster_of s') p = Some tok \<and> Applied p True \<notin> set es"
    using roster_run_stuck[OF server_run_refines[OF assms(3,1)]] assms(2,4) by simp
  moreover have "frozenByID s' = dom (preparedByID s')"
    using server_run_inv[OF assms(3,1)] by (simp add: server_inv_def handoff_inv_def)
  ultimately show ?thesis by auto
qed

theorem prepared_player_stuck_witness:
  "\<exists>s'. server_run demo_prepared [Applied ''ann'' False, Streamed] s' \<and> ''ann'' \<in> frozenByID s'"
proof -
  obtain r where r: "Sim demo_prepared = Some r" using server_invD(2)[OF demo_inv(2)] by (rule sim_invE)
  obtain resp s1 where a: "ApplyInput id id ''ann'' None demo_prepared = (resp, s1)" by fastforce
  have "\<not> sr_Ok resp" using ApplyInput_effect[OF demo_inv(2) r a] demo_prepare(2) by simp
  then have "server_step demo_prepared (Applied ''ann'' False) s1" using server_step.input[OF a] by simp
  then have run: "server_run demo_prepared [Applied ''ann'' False, Streamed] (with_world (\<lambda>w. snd (TakeDirtyEntities [] w)) s1)"
    by (blast intro: server_run.intros server_step.stream)
  then show ?thesis
    using prepared_player_stuck[OF demo_inv(2) _ run, of "''ann''" "''tok''"] demo_prepare(3) by auto
qed

lemma expires_gone: "expires s s' \<Longrightarrow> preparedByID s p = None \<Longrightarrow> preparedByID s' p = None"
  by (induction rule: expires.induct) (auto simp: server_simps)

lemma prune_one_gone: "preparedByID s p = None \<Longrightarrow> preparedByID (prune_one now q s) p = None"
  by (simp add: prune_one_def split: option.split)

lemma prune_one_keeps: "q \<noteq> p \<Longrightarrow> preparedByID (prune_one now q s) p = preparedByID s p"
  by (simp add: prune_one_def split: option.split)

lemma prune_one_keeps_token:
  assumes "handoff_inv s" "q \<noteq> p" "preparedByID s p = Some tok"
  shows "preparedByTk (prune_one now q s) tok = preparedByTk s tok"
proof (cases "preparedByID s q")
  case (Some t)
  have "t \<noteq> tok" using handoff_token[OF assms(1) Some] handoff_token[OF assms(1,3)] assms(2) by auto
  then show ?thesis using Some by (simp add: prune_one_def)
qed (simp add: prune_one_def)

lemma prune_releases_stale:
  assumes "handoff_inv s" "p \<in> set order" "preparedByID s p = Some tok" "preparedByTk s tok = Some pp"
    and "now - pp_createdAt pp > handoffInFlightStaleTimeout"
  shows "preparedByID (pruneStalePreparedLocked order now s) p = None"
  using assms unfolding pruneStalePreparedLocked_def
proof (induction order arbitrary: s)
  case (Cons q order)
  show ?case
  proof (cases "q = p")
    case True
    then have "preparedByID (prune_one now q s) p = None"
      using Cons.prems by (simp add: prune_one_def)
    moreover have "preparedByID (fold (prune_one now) qs s0) p = None" if "preparedByID s0 p = None" for qs s0
      using that by (induction qs arbitrary: s0) (simp_all add: prune_one_gone)
    ultimately show ?thesis by simp
  next
    case False
    have "handoff_inv (prune_one now q s)"
      using expires_handoff_inv[OF prune_one_expires[OF Cons.prems(1)] Cons.prems(1)] .
    with Cons False show ?thesis
      by (simp add: prune_one_keeps prune_one_keeps_token)
  qed
qed simp

text \<open>
  C15: A forgotten handoff is released by the next prepare of anybody. If the handoff of \<open>p\<close> was
  prepared more than five seconds ago, a complete \<open>PreparePlayerHandoff\<close> call for any other player,
  known or not, successful or not, leaves \<open>p\<close> on the roster and no longer frozen, for every order in
  which the map of handoffs is visited.
\<close>

theorem next_prepare_releases_stale:
  assumes "server_inv s" "visits order (dom (preparedByID s))"
    and "preparedByID s p = Some tok" "preparedByTk s tok = Some pp"
    and "now1 - pp_createdAt pp > handoffInFlightStaleTimeout"
    and "PreparePlayerHandoff order now1 now2 now3 q target tok' s = (resp, s')"
    and "TrimSpace q \<noteq> []" "TrimSpace target \<noteq> []" "TrimSpace tok' \<noteq> []" "TrimSpace q \<noteq> p"
  shows "p \<in> dom (playerByID s') \<and> p \<notin> frozenByID s'"
proof -
  note inv = server_invD[OF assms(1)]
  obtain r where r: "Sim s = Some r" using inv(2) by (rule sim_invE)
  obtain s2 where ex: "expires s s2" "expires (pruneStalePreparedLocked order now1 s) s2"
    and o: "s' = s2 \<or> (\<exists>e pp. s' = prepared_state (TrimSpace q) (TrimSpace tok') pp e s2)"
    using Prepare_outcome[OF inv(3) r assms(6)] assms(7-9) by blast
  have "p \<in> set order" using visits_set[OF assms(2)] assms(3) by auto
  then have "preparedByID s2 p = None"
    using expires_gone[OF ex(2) prune_releases_stale[OF inv(3) _ assms(3-5)]] by simp
  moreover have "frozenByID s2 = dom (preparedByID s2)"
    using expires_handoff_inv[OF ex(1) inv(3)] by (simp add: handoff_inv_def)
  moreover have "p \<in> dom (playerByID s2)"
    using expires_fields[OF ex(1)] inv(3) assms(3) by (auto simp: handoff_inv_def)
  ultimately show ?thesis using o assms(10) by (auto simp: server_simps)
qed

theorem next_prepare_releases_stale_witness:
  "''ann'' \<notin> frozenByID (snd (PreparePlayerHandoff [''ann''] 6000000000 6000000001 6000000002
     ''tok'' ''cell_1_0_0'' ''tok'' demo_prepared))"
proof -
  obtain pp where "preparedByTk demo_prepared ''tok'' = Some pp" "pp_createdAt pp = 3"
  proof -
    obtain r where r: "Sim demo_joined = Some r" "positions (world r) = [1 \<mapsto> origin]" by (rule demo_joined_sim)
    have sim: "Sim (demo_joined\<lparr>preparedByID := m, frozenByID := f\<rparr>) = Some r" for m f by (simp add: r)
    show thesis using that
      by (simp add: demo_prepared_def PreparePlayerHandoff_def prepare_reserve_def pruneStalePreparedLocked_def
          prepare_read_def prepare_store_def r sim with_world_def Let_def)
  qed
  then show ?thesis
    using next_prepare_releases_stale[OF demo_inv(2), of "[''ann'']" "''ann''" "''tok''" pp 6000000000 6000000001
        6000000002 "''tok''" "''cell_1_0_0''" "''tok''", OF _ _ _ _ surjective_pairing] demo_prepare(3)
    by (simp add: visits_def handoffInFlightStaleTimeout_def)
qed

end
