(* ===== verification/Cell_Races.thy ===== *)
theory Cell_Races
  imports Cell_Players
begin

text \<open>
  Interleavings of the critical sections of the cell server. \<open>Join\<close> and \<open>PreparePlayerHandoff\<close>
  release \<open>playerMu\<close> between their sections; the theorems give schedules of two concurrent calls
  after which the guarantees of uninterrupted calls are lost.
\<close>

text \<open>
  Two joins of the same player: both pass the check, both spawn, both register. The entities the two
  calls answer and the server they leave; nothing when the check stops them.
\<close>

definition two_joins :: "string \<Rightarrow> Server \<Rightarrow> ((Entity \<times> Entity) \<times> Server) option" where
  "two_joins p s =
     (case join_check p s of
        Some resp \<Rightarrow> None
      | None \<Rightarrow> (let (e1, s1) = join_spawn s; (e2, s2) = join_spawn s1
                 in Some ((e1, e2), join_register p e2 (join_register p e1 s2))))"

lemma join_spawn_outcome:
  assumes "join_spawn s = (e, s')" "Sim s = Some r" "world_inv (world r)" "room (world r)"
  obtains w' where "s' = s\<lparr>Sim := Some (r\<lparr>world := w'\<rparr>)\<rparr>" "world_inv w'" "e \<notin> alive (world r)"
    "alive w' = insert e (alive (world r))" "nextID w' = nextID (world r) + 1"
    "dom (positions w') = insert e (dom (positions (world r)))"
proof -
  obtain w' where w': "spawn_player (world r) = (e, w')" and s': "s' = s\<lparr>Sim := Some (r\<lparr>world := w'\<rparr>)\<rparr>"
    using assms(1,2) by (auto simp: join_spawn_def split: prod.splits)
  have "nextID w' = nextID (world r) + 1"
    using w' by (auto simp: spawn_player_def CreateEntity_def Let_def world_simps)
  with spawn_player_fields[OF w' assms(3,4)] s' show thesis by (intro that)
qed

text \<open>
  An entity is marked as a player although no player has it. No handler looks at the marks before it
  acts, so a server with such a mark does what the server without it does.
\<close>

definition marked :: "Entity \<Rightarrow> Server \<Rightarrow> Server" where
  "marked e s = s\<lparr>players := insert e (players s)\<rparr>"

lemma marked_fields [simp]:
  "playerByID (marked e s) = playerByID s" "players (marked e s) = insert e (players s)"
  "frozenByID (marked e s) = frozenByID s" "preparedByID (marked e s) = preparedByID s"
  "preparedByTk (marked e s) = preparedByTk s" "acceptedByTk (marked e s) = acceptedByTk s"
  "splitDrain (marked e s) = splitDrain s" "Sim (marked e s) = Sim s" "CellID (marked e s) = CellID s"
  "srv_Bounds (marked e s) = srv_Bounds s" "srv_Level (marked e s) = srv_Level s"
  "onApplyInput (marked e s) = onApplyInput s" "applyReports (marked e s) = applyReports s"
  by (simp_all add: marked_def)

lemma marked_updates:
  "(marked e s)\<lparr>preparedByID := m\<rparr> = marked e (s\<lparr>preparedByID := m\<rparr>)"
  "(marked e s)\<lparr>preparedByTk := k\<rparr> = marked e (s\<lparr>preparedByTk := k\<rparr>)"
  "(marked e s)\<lparr>frozenByID := f\<rparr> = marked e (s\<lparr>frozenByID := f\<rparr>)"
  "(marked e s)\<lparr>Sim := r\<rparr> = marked e (s\<lparr>Sim := r\<rparr>)"
  "(marked e s)\<lparr>splitDrain := b\<rparr> = marked e (s\<lparr>splitDrain := b\<rparr>)"
  "(marked e s)\<lparr>playerByID := n\<rparr> = marked e (s\<lparr>playerByID := n\<rparr>)"
  "(marked e s)\<lparr>acceptedByTk := a\<rparr> = marked e (s\<lparr>acceptedByTk := a\<rparr>)"
  "(marked e s)\<lparr>applyReports := l\<rparr> = marked e (s\<lparr>applyReports := l\<rparr>)"
  "with_world g (marked e s) = marked e (with_world g s)"
  "reportApplyInput c (marked e s) = marked e (reportApplyInput c s)"
  "d \<noteq> e \<Longrightarrow> (marked e s)\<lparr>players := insert e P - {d}\<rparr> = marked e (s\<lparr>players := P - {d}\<rparr>)"
  "(marked e s)\<lparr>players := insert d (insert e P)\<rparr> = marked e (s\<lparr>players := insert d P\<rparr>)"
  by (auto simp: marked_def with_world_def reportApplyInput_def insert_Diff_if insert_commute)

lemma prune_marked: "pruneStalePreparedLocked order now (marked e s) = marked e (pruneStalePreparedLocked order now s)"
proof -
  have one: "prune_one now q (marked e s) = marked e (prune_one now q s)" for q s
    by (auto simp: prune_one_def marked_updates split: option.split)
  show ?thesis
    unfolding pruneStalePreparedLocked_def by (induction order arbitrary: s) (simp_all add: one)
qed

lemma Join_marked: "Server_Join p (marked e s) = map_prod id (marked e) (Server_Join p s)"
  by (auto simp: Server_Join_def join_check_def join_spawn_def join_register_def Let_def marked_updates
      split: option.split prod.split)

lemma Leave_marked:
  assumes "e \<notin> ran (playerByID s)"
  shows "Leave p (marked e s) = map_prod id (marked e) (Leave p s)"
proof -
  have "playerByID s q = Some d \<Longrightarrow> d \<noteq> e" for q d using assms by (auto simp: ran_def)
  then show ?thesis
    by (auto simp: Leave_def leave_unregister_def Let_def marked_updates split: option.split)
qed

lemma ApplyInput_marked: "ApplyInput Cos Sin p oin (marked e s) = map_prod id (marked e) (ApplyInput Cos Sin p oin s)"
  by (auto simp: ApplyInput_def Let_def marked_updates split: option.split)

lemma Prepare_marked:
  "PreparePlayerHandoff order now1 now2 now3 p target tok (marked e s) =
     map_prod id (marked e) (PreparePlayerHandoff order now1 now2 now3 p target tok s)"
proof -
  have "prepare_reserve order now1 now2 q t (marked e s) = map_prod id (marked e) (prepare_reserve order now1 now2 q t s)" for q t
    by (auto simp: prepare_reserve_def prune_marked Let_def marked_updates split: option.split)
  moreover have "prepare_read d (marked e s1) = map_prod id (marked e) (prepare_read d s1)" for d s1
    by (auto simp: prepare_read_def Let_def marked_updates split: option.split)
  moreover have "prepare_store now3 q g t d read (marked e s1) = map_prod id (marked e) (prepare_store now3 q g t d read s1)"
    for q g t d read s1
    by (auto simp: prepare_store_def Let_def marked_updates split: option.split prod.split)
  ultimately show ?thesis
    by (auto simp: PreparePlayerHandoff_def Let_def split: option.split prod.split sum.split)
qed

lemma Accept_marked: "AcceptPlayerHandoff oload (marked e s) = map_prod id (marked e) (AcceptPlayerHandoff oload s)"
  by (auto simp: AcceptPlayerHandoff_def accept_lookup_def accept_create_def accept_write_def accept_register_def
      Let_def marked_updates split: option.split prod.split)

lemma Finalize_marked:
  assumes "e \<notin> ran (playerByID s)"
  shows "FinalizePlayerHandoff p tok (marked e s) = map_prod id (marked e) (FinalizePlayerHandoff p tok s)"
proof -
  have "playerByID s q = Some d \<Longrightarrow> d \<noteq> e" for q d using assms by (auto simp: ran_def)
  then show ?thesis
    by (auto simp: FinalizePlayerHandoff_def finalize_commit_def Let_def marked_updates split: option.split)
qed

lemma Update_marked: "snd (Update j order req (marked e s)) = marked e (snd (Update j order req s))"
  by (auto simp: Update_def update_set_tps_def update_set_drain_def update_import_def PlayerCount_def Let_def
      marked_updates split: option.split UpdatePayload.split sum.split)

lemma map_prod_id_eq: "map_prod id f x = (u, y) \<longleftrightarrow> (\<exists>z. x = (u, z) \<and> y = f z)"
  by (cases x) auto

lemma step_marked:
  assumes "server_step s ev s'" "s = marked e t" "e \<notin> ran (playerByID t)"
  shows "\<exists>t'. server_step t ev t' \<and> s' = marked e t'"
  using assms
proof (induction rule: server_step.induct)
  case (update j req s eorder uresp s')
  obtain u t' where t': "Update j eorder req t = (u, t')" by fastforce
  have "s' = marked e t'" using Update_marked[of j eorder req e t] t' update by simp
  moreover have "server_step t (Updated req) t'"
    by (rule server_step.update[OF update(1) _ t']) (use update in simp)
  ultimately show ?case by blast
next
  case (tick s r o1 o2 o3 d)
  then show ?case
    using server_step.tick[of t r o1 o2 o3 d] by (auto simp: marked_updates)
next
  case (stream s dorder)
  then show ?case
    using server_step.stream[of t dorder] by (auto simp: marked_updates)
qed (simp_all add: Join_marked Leave_marked ApplyInput_marked Prepare_marked Accept_marked Finalize_marked
    has_room_def map_prod_id_eq, (blast intro: server_step.intros[unfolded has_room_def])+)

text \<open>An import replaces the world; every other call spares the live entities that no player has.\<close>

fun replaces_world :: "event \<Rightarrow> bool" where
  "replaces_world (Updated (Some (Some (ImportNpcPersist oimp)))) = True"
| "replaces_world ev = False"

lemma CreateEntity_alive: "CreateEntity w = (d, w') \<Longrightarrow> alive w' = insert d (alive w)"
  by (auto simp: CreateEntity_def Let_def)

lemma orphan_accept:
  assumes "server_inv t" "has_room t" "Sim t = Some r" "AcceptPlayerHandoff oload t = (resp, t')"
    and e: "e \<in> alive (world r)" "e \<notin> ran (playerByID t)"
  shows "(\<exists>r'. Sim t' = Some r' \<and> e \<in> alive (world r')) \<and> e \<notin> ran (playerByID t')"
  using Accept_outcome[OF assms(4,3)]
proof (elim disjE conjE exE)
  fix payload p tok t1
  let ?d = "ar_EntityId resp"
  assume src: "case playerByID t p of Some d \<Rightarrow> (?d, t1) = (d, t) | None \<Rightarrow> accept_create t = (?d, t1)"
    and t': "t' = accept_register p tok ?d (accept_write payload ?d t1)"
  have w: "world_inv (world r)" using server_invD(2)[OF assms(1)] assms(3) by (simp add: sim_inv_def)
  have room: "room (world r)" using assms(2,3) by (simp add: has_room_def)
  have "?d \<noteq> e \<and> playerByID t1 = playerByID t \<and> (\<exists>r1. Sim t1 = Some r1 \<and> e \<in> alive (world r1))"
  proof (cases "playerByID t p")
    case None
    with src have "accept_create t = (?d, t1)" by simp
    then obtain w' where w': "CreateEntity (world r) = (?d, w')" and t1: "t1 = t\<lparr>Sim := Some (r\<lparr>world := w'\<rparr>)\<rparr>"
      using assms(3) by (rule accept_create_outcome)
    show ?thesis
      using world_inv_Create(2)[OF w room w'] CreateEntity_alive[OF w'] e(1) by (auto simp: t1)
  next
    case (Some d)
    then show ?thesis using src assms(3) e by (auto simp: ran_def)
  qed
  then show ?thesis
    using e(2) by (auto simp: t' accept_write_def server_simps world_simps ran_def split: if_splits)
qed (use assms in auto)

lemma orphan_step:
  assumes "server_step t ev t'" "server_inv t" "\<not> replaces_world ev" "Sim t = Some r"
    and e: "e \<in> alive (world r)" "e \<notin> ran (playerByID t)"
  shows "(\<exists>r'. Sim t' = Some r' \<and> e \<in> alive (world r')) \<and> e \<notin> ran (playerByID t')"
proof -
  note inv = server_invD[OF assms(2)]
  have w: "world_inv (world r)" using inv(2) assms(4) by (simp add: sim_inv_def)
  have owner: "playerByID t q = Some d \<Longrightarrow> d \<noteq> e" for q d using e(2) by (auto simp: ran_def)
  have fewer: "e \<notin> ran ((playerByID t)(q := None))" for q using e(2) by (auto simp: ran_def)
  from assms(1) show ?thesis
  proof cases
    case (join pid jresp)
    have room: "room (world r)" using join(2) assms(4) by (simp add: has_room_def)
    from Join_outcome[OF join(3) assms(4)] show ?thesis
    proof (elim disjE conjE exE)
      fix w' assume w': "spawn_player (world r) = (jr_EntityId jresp, w')"
        and t': "t' = join_register (TrimSpace pid) (jr_EntityId jresp) (t\<lparr>Sim := Some (r\<lparr>world := w'\<rparr>)\<rparr>)"
      show ?thesis
        using spawn_player_fields(2,3)[OF w' w room] e by (auto simp: t' server_simps ran_def split: if_splits)
    qed (use assms(4) e in auto)
  next
    case (leave pid resp)
    from Leave_outcome[OF leave(2) assms(4)] show ?thesis
    proof (elim disjE conjE exE)
      fix s1 assume s1: "leave_unregister (TrimSpace pid) t = (playerByID t (TrimSpace pid), s1)"
        and t': "t' = (case playerByID t (TrimSpace pid) of None \<Rightarrow> s1 | Some d \<Rightarrow> with_world (DestroyEntity d) s1)"
      note f = leave_unregister_fields(2,3)[OF inv(3) s1]
      show ?thesis
        using f fewer owner[of "TrimSpace pid"] assms(4) e(1)
        by (auto simp: t' server_simps world_simps split: option.split)
    qed (use assms(4) e in auto)
  next
    case (input Cos Sin pid oin resp)
    from ApplyInput_outcome[OF input(2) assms(4)] show ?thesis
      by (elim disjE conjE exE) (use assms(4) e in \<open>auto simp: server_simps world_simps\<close>)
  next
    case (prepare order now1 now2 now3 pid target tok presp)
    from Prepare_outcome[OF inv(3) assms(4) prepare(2)] show ?thesis
      by (elim exE conjE disjE; use assms(4) e in \<open>force simp: server_simps world_simps dest: expires_fields\<close>)
  next
    case (accept oload aresp)
    then show ?thesis using orphan_accept[OF assms(2) accept(2) assms(4) accept(3) e] by simp
  next
    case (finalize pid tok resp)
    from Finalize_outcome[OF inv(1,3) assms(4) finalize(2)] show ?thesis
      by (elim disjE conjE exE) (use assms(4) e fewer owner in \<open>auto simp: server_simps world_simps\<close>)
  next
    case (update j req eorder uresp)
    have "\<not> (\<exists>x. req = Some (Some (ImportNpcPersist x)))" using assms(3) update(1) by auto
    with update(4) assms(4) show ?thesis
      by (cases rule: Update_outcome) (use e in auto)
  next
    case (tick r0 o1 o2 o3 d)
    then show ?thesis
      using Runtime_Step_fields[of r o1 o2 o3 d] w assms(4) e by simp
  next
    case (stream dorder)
    then show ?thesis using assms(4) e by (auto simp: server_simps TakeDirtyEntities_def)
  qed
qed

lemma orphan_run:
  assumes "server_run s es s'" "s = marked e t" "server_inv t" "list_all (\<lambda>ev. \<not> replaces_world ev) es"
    and "\<exists>r. Sim t = Some r \<and> e \<in> alive (world r)" "e \<notin> ran (playerByID t)"
  shows "e \<in> players s' \<and> (\<exists>r'. Sim s' = Some r' \<and> e \<in> alive (world r')) \<and> e \<notin> ran (playerByID s')"
  using assms
proof (induction arbitrary: t rule: server_run.induct)
  case (cons s ev s1 es s2)
  obtain t1 where t1: "server_step t ev t1" "s1 = marked e t1"
    using step_marked[OF cons.hyps(1) cons.prems(1,5)] by blast
  obtain r where "Sim t = Some r" "e \<in> alive (world r)" using cons.prems(4) by blast
  then have "(\<exists>r'. Sim t1 = Some r' \<and> e \<in> alive (world r')) \<and> e \<notin> ran (playerByID t1)"
    using orphan_step[OF t1(1) cons.prems(2)] cons.prems(3,5) by simp
  then show ?case
    using cons.IH[OF t1(2) server_step_inv[OF t1(1) cons.prems(2)]] cons.prems(3) by simp
qed simp

text \<open>
  C14: Two concurrent joins of one player leave an entity that nobody can remove without replacing the
  world. If both calls pass the check before either registers, they answer different entities and the
  roster keeps the second. Whatever the server is asked afterwards, in any sequence of complete calls,
  ticks and subscription turns - the leave, the finalize and the repeated join of that player
  included - the first entity stays alive and marked as a player, and no player ever has it. The only
  call left out is the import of NPCs, which a cell without players answers by replacing the whole world.
\<close>

theorem concurrent_joins_orphan:
  assumes "server_inv s" "Sim s = Some r" "p \<noteq> []"
    and "room (world r)" "nextID (world r) + 1 < - 1"
    and "two_joins p s = Some ((e1, e2), s1)"
    and "server_run s1 es s'" "list_all (\<lambda>ev. \<not> replaces_world ev) es"
  shows "e1 \<noteq> e2 \<and> playerByID s1 p = Some e2 \<and> isPlayer s' e1 \<and>
    (\<exists>r'. Sim s' = Some r' \<and> e1 \<in> alive (world r')) \<and> e1 \<notin> ran (playerByID s') \<and> \<not> server_inv s'"
proof -
  note inv = server_invD[OF assms(1)]
  have w: "world_inv (world r)" using inv(2) assms(2) by (simp add: sim_inv_def)
  obtain sa sb where a: "join_spawn s = (e1, sa)" and b: "join_spawn sa = (e2, sb)"
    and s1: "s1 = join_register p e2 (join_register p e1 sb)" and new: "playerByID s p = None"
    using assms(6) by (auto simp: two_joins_def join_check_def split: prod.splits option.splits)
  obtain w1 where w1: "sa = s\<lparr>Sim := Some (r\<lparr>world := w1\<rparr>)\<rparr>" "world_inv w1" "e1 \<notin> alive (world r)"
      "alive w1 = insert e1 (alive (world r))" "nextID w1 = nextID (world r) + 1"
      "dom (positions w1) = insert e1 (dom (positions (world r)))"
    using a assms(2) w assms(4) by (rule join_spawn_outcome)
  have "room w1" using assms(5) w1(5) by (simp add: room_def)
  then obtain w2 where w2: "sb = sa\<lparr>Sim := Some (r\<lparr>world := w2\<rparr>)\<rparr>" "world_inv w2" "e2 \<notin> alive w1"
      "alive w2 = insert e2 (alive w1)" "dom (positions w2) = insert e2 (dom (positions w1))"
    using b w1(1,2) join_spawn_outcome[of sa e2 sb "r\<lparr>world := w1\<rparr>"] by auto
  have ne: "e1 \<noteq> e2" using w1(4) w2(3) by auto
  let ?t = "join_register p e2 (s\<lparr>Sim := Some (r\<lparr>world := w2\<rparr>)\<rparr>)"
  have s1': "s1 = marked e1 ?t"
    by (simp add: s1 w2(1) w1(1) join_register_def marked_def insert_commute)
  have old: "ran (playerByID s) \<subseteq> alive (world r)" "ran (playerByID s) \<subseteq> dom (positions (world r))"
    using player_alive[OF inv(2) assms(2)] player_position[OF inv(2) assms(2)] by (auto simp: ran_def)
  have fresh: "e2 \<notin> ran (playerByID s)" using old(1) w2(3) w1(4) by blast
  have "roster_inv ?t"
    by (rule roster_inv_enter[OF inv(1) new fresh assms(3)]) (simp_all add: server_simps)
  moreover have "sim_inv ?t"
    using old(2) w2(2,5) w1(6) ran_upd_subset[of "playerByID s" p e2] by (auto simp: sim_inv_def server_simps)
  moreover have "handoff_inv ?t"
    by (rule handoff_inv_more_players[OF inv(3)]) (simp_all add: server_simps)
  moreover have "e1 \<notin> ran (playerByID ?t)"
    using old(1) w1(3) ne ran_upd_subset[of "playerByID s" p e2] by (auto simp: server_simps)
  ultimately have run: "e1 \<in> players s' \<and> (\<exists>r'. Sim s' = Some r' \<and> e1 \<in> alive (world r')) \<and> e1 \<notin> ran (playerByID s')"
    using orphan_run[OF assms(7) s1' _ assms(8)] w2(4) w1(4) by (simp add: server_inv_def server_simps)
  then have "\<not> server_inv s'" by (auto simp: server_inv_def roster_inv_def)
  with run ne show ?thesis by (simp add: s1 join_register_def isPlayer_def)
qed

theorem concurrent_joins_orphan_witness:
  "\<exists>e1 e2 s1 s'. two_joins ''ann'' demo_server = Some ((e1, e2), s1) \<and>
     server_run s1 [Left ''ann'' True, Streamed] s' \<and> e1 \<noteq> e2 \<and> isPlayer s' e1"
proof -
  have "playerByID demo_server ''ann'' = None" "splitDrain demo_server = False"
    by (simp_all add: demo_server_def new_server_def)
  moreover obtain e1 sa where a: "join_spawn demo_server = (e1, sa)" by fastforce
  moreover obtain e2 sb where "join_spawn sa = (e2, sb)" by fastforce
  ultimately obtain s1 where t: "two_joins ''ann'' demo_server = Some ((e1, e2), s1)"
    by (simp add: two_joins_def join_check_def)
  have sim: "Sim demo_server = Some NewRuntime" "server_inv demo_server" "nextID (world NewRuntime) + 1 < - 1"
    using small_entity server_inv_new[OF world_inv_NewRuntime]
    by (simp_all add: NewRuntime_def NewWorld_def demo_server_def new_server_def)
  obtain resp s2 where l: "Leave ''ann'' s1 = (resp, s2)" by fastforce
  have "Sim s1 \<noteq> None"
    using t sim(1) by (auto simp: two_joins_def join_spawn_def join_register_def split: option.splits prod.splits)
  then have "sr_Ok resp"
    using l by (auto simp: Leave_def split: option.splits prod.splits)
  then have "server_step s1 (Left ''ann'' True) s2"
    using server_step.leave[OF l] by simp
  then have run: "server_run s1 [Left ''ann'' True, Streamed] (with_world (\<lambda>w. snd (TakeDirtyEntities [] w)) s2)"
    by (blast intro: server_run.intros server_step.stream)
  then show ?thesis
    using concurrent_joins_orphan[OF sim(2,1) _ room_NewRuntime sim(3) t run] t by auto
qed

text \<open>
  A prepare for \<open>p\<close> interrupted after its first section by a complete prepare for somebody else.
\<close>

definition interrupted_prepare :: "string \<Rightarrow> string \<Rightarrow> string \<Rightarrow> string list \<Rightarrow> string \<Rightarrow> int \<Rightarrow> Server \<Rightarrow>
    PrepareResponse \<times> Server" where
  "interrupted_prepare p target tok order q now s =
     (case prepare_reserve [] now now p tok s of
        (Inl resp, s1) \<Rightarrow> (resp, s1)
      | (Inr e, s1) \<Rightarrow>
          (let s2 = snd (PreparePlayerHandoff order (now + 1) (now + 1) (now + 1) q target ''other'' s1);
               (read, s3) = prepare_read e s2
           in prepare_store (now + 2) p target tok e read s3))"

text \<open>
  A concurrent prepare thaws a player in the middle of his own handoff. Between the reservation
  and the storing of a handoff its token is not in \<open>preparedByTk\<close>, which the pruning at the start of
  every prepare takes for a stale entry. If a prepare for any other name runs in between, the first
  one still answers \<open>prepared\<close>, but the player is not frozen and his next input is applied.
\<close>

theorem concurrent_prepare_thaws:
  "let (resp, s) = interrupted_prepare ''ann'' ''cell_1_0_0'' ''tok'' [''ann''] ''bob'' 1 demo_joined;
       (iresp, s') = ApplyInput id id ''ann'' (Some \<lparr>ci_Seq = 1, ci_InputMask = 1, ci_AimYawDeg = Fin 0\<rparr>) s
   in pr_Ok resp \<and> pr_Message resp = ''prepared'' \<and> preparedByTk s ''tok'' \<noteq> None \<and>
      ''ann'' \<notin> frozenByID s \<and> sr_Ok iresp"
proof -
  obtain r where r: "Sim demo_joined = Some r" "positions (world r) = [1 \<mapsto> origin]" by (rule demo_joined_sim)
  have sim: "Sim (demo_joined\<lparr>preparedByID := m, frozenByID := f, preparedByTk := t\<rparr>) = Some r" for m f t
    by (simp add: r)
  have names: "TrimSpace ''bob'' = ''bob''" "TrimSpace ''other'' = ''other''"
    by (simp_all add: TrimSpace_trimmed trimmedI ascii_graph_def)
  show ?thesis
    by (simp add: names interrupted_prepare_def prepare_reserve_def pruneStalePreparedLocked_def prune_one_def
        PreparePlayerHandoff_def prepare_read_def prepare_store_def with_world_def r sim Let_def
        ApplyInput_def reportApplyInput_def world_defs)
qed

end
