(* ===== verification/Grid_Calls.thy ===== *)
theory Grid_Calls
  imports Cell_Players Discovery
begin

text \<open>
  The grid manager's side of a call to a cell: the catalog behind its interface, the servers of the
  cells by endpoint, the fate of each remote call and what others do in the meantime
  (\<open>src/internal/grpc/registrysvc/forward_cell.go\<close>, the helpers \<open>dialCellClient\<close> and
  \<open>doForwardCellUpdate\<close>). A workflow is a function from the grid to a result or an error and the
  grid it leaves.
\<close>

section \<open>The grid\<close>

text \<open>
  The interface \<open>discovery.Catalog\<close> with its type assertion \<open>LogicalCellDeregisterer\<close> resolved;
  \<^const>\<open>Inl\<close> carries the text of an error. \<open>'c\<close> is the state of the catalog.
\<close>

record 'c Catalog =
  RegisterCell :: "CellSpec option \<Rightarrow> 'c \<Rightarrow> string + 'c"
  DeregisterLogical :: "string \<Rightarrow> 'c \<Rightarrow> string option \<times> 'c"
  ListAll :: "'c \<Rightarrow> string + CellSpec option list"
  Resolve :: "f64 \<Rightarrow> f64 \<Rightarrow> 'c \<Rightarrow> string + CellSpec option \<times> bool"

text \<open>The in-memory catalog behind the interface; \<open>order\<close> is the order in which its map is visited.\<close>

fun error_text :: "registry_error \<Rightarrow> string" where
  "error_text errInvalidSpec = ''invalid cell spec''"
| "error_text errInvalidBounds = ''invalid bounds: min must be less than max''"

definition MemoryCatalog :: "(Memory \<Rightarrow> string list) \<Rightarrow> Memory Catalog" where
  "MemoryCatalog order =
     \<lparr>RegisterCell = (\<lambda>spec m. map_sum error_text id (MemoryCatalog_RegisterCell m spec)),
      DeregisterLogical = (\<lambda>i m. case MemoryCatalog_DeregisterLogicalCell i m of
        Inl err \<Rightarrow> (Some (error_text err), m) | Inr m' \<Rightarrow> (None, m')),
      ListAll = (\<lambda>m. map_sum error_text id (MemoryCatalog_List (order m) m)),
      Resolve = (\<lambda>x z m. map_sum error_text id (MemoryCatalog_ResolveMostSpecific (order m) m x z))\<rparr>"

text \<open>
  A remote call is delivered and answered, lost before it reaches the server, or executed with the
  answer lost (a connection failure or the deadline). A turn says what happens to one call, how much
  time passes before it and what the rest of the system does to catalog and servers meanwhile.
\<close>

datatype fate = Delivered | Dropped | ReplyLost

record 'c turn =
  t_fate :: fate
  t_elapsed :: int
  t_others :: "'c \<times> (string \<rightharpoonup> Server) \<Rightarrow> 'c \<times> (string \<rightharpoonup> Server)"

text \<open>
  \<open>servers\<close> maps endpoints to reachable cells, \<open>turns\<close> is the schedule of the calls to come (when it
  is exhausted, calls are delivered and nobody interferes), \<open>clock\<close> the time in nanoseconds.
\<close>

record 'c Grid =
  reg :: 'c
  servers :: "string \<rightharpoonup> Server"
  turns :: "'c turn list"
  clock :: int

text \<open>
  A gRPC status error with the parts of its message, the failure of the call itself, and the errors
  the workflows make with \<open>fmt.Errorf\<close>: a message, or a message in front of an error it wraps.
\<close>

datatype call_error =
    Status grpc_code "msg list"
  | CallFailed
  | Failed "msg list"
  | Wrapped "msg list" call_error

text \<open>
  What the caller is given: the catalog (nil in \<^const>\<open>None\<close>), \<open>protojson\<close>, the error of \<open>grpc.NewClient\<close>
  for a target, and the orders in which a server's maps are visited.
\<close>

record 'c env =
  catalog_of :: "'c Catalog option"
  js :: json
  dial_error :: "string \<Rightarrow> string option"
  visit_live :: "Server \<Rightarrow> Entity list"
  visit_names :: "Server \<Rightarrow> string list"
  visit_prepared :: "Server \<Rightarrow> string list"

type_synonym ('a, 'g) op = "'g \<Rightarrow> (call_error + 'a) \<times> 'g"

definition fail :: "call_error \<Rightarrow> ('a, 'g) op" where
  "fail e g = (Inl e, g)"

definition give :: "'a \<Rightarrow> ('a, 'g) op" where
  "give x g = (Inr x, g)"

text \<open>Sequencing with early return on error, the pattern \<open>if err != nil { return err }\<close>.\<close>

definition andThen :: "('a, 'g) op \<Rightarrow> ('a \<Rightarrow> ('b, 'g) op) \<Rightarrow> ('b, 'g) op" where
  "andThen m k g = (case m g of (Inl e, g') \<Rightarrow> (Inl e, g') | (Inr x, g') \<Rightarrow> k x g')"

text \<open>A call whose result is ignored.\<close>

definition ignoring :: "('a, 'g) op \<Rightarrow> ('b, 'g) op \<Rightarrow> ('b, 'g) op" where
  "ignoring m k g = k (snd (m g))"

section \<open>Remote calls\<close>

definition next_turn :: "('c, 'z) Grid_scheme \<Rightarrow> fate \<times> ('c, 'z) Grid_scheme" where
  "next_turn g =
     (case turns g of
        [] \<Rightarrow> (Delivered, g)
      | t # ts \<Rightarrow>
          (let (c, ss) = t_others t (reg g, servers g)
           in (t_fate t, g\<lparr>reg := c, servers := ss, turns := ts, clock := clock g + t_elapsed t\<rparr>)))"

definition call :: "string \<Rightarrow> (int \<Rightarrow> Server \<Rightarrow> 'r \<times> Server) \<Rightarrow> ('r, ('c, 'z) Grid_scheme) op" where
  "call ep handler g =
     (let (ft, g1) = next_turn g
      in case servers g1 ep of
           None \<Rightarrow> (Inl CallFailed, g1)
         | Some s \<Rightarrow>
             (let (r, s') = handler (clock g1) s;
                  g2 = g1\<lparr>servers := (servers g1)(ep \<mapsto> s')\<rparr>
              in case ft of
                   Delivered \<Rightarrow> (Inr r, g2)
                 | ReplyLost \<Rightarrow> (Inl CallFailed, g2)
                 | Dropped \<Rightarrow> (Inl CallFailed, g1)))"

section \<open>Dialling a cell, forwarding an update\<close>

definition dialCellClient :: "('c, 'y) env_scheme \<Rightarrow> string \<Rightarrow> (CellSpec, ('c, 'z) Grid_scheme) op" where
  "dialCellClient env cellID g =
     (case catalog_of env of
        None \<Rightarrow> fail (Status FailedPrecondition [Text ''no catalog'']) g
      | Some cat \<Rightarrow>
          (case FindCellByID (ListAll cat (reg g)) cellID of
             Inl err \<Rightarrow> fail (Status Unavailable [Text err]) g
           | Inr (Some spec, True) \<Rightarrow>
               if cs_GrpcEndpoint spec = [] then fail (Status FailedPrecondition [Text ''cell has empty grpc_endpoint'']) g
               else (case dial_error env (cs_GrpcEndpoint spec) of
                       Some err \<Rightarrow> fail (Status Unavailable [Text (''dial cell: '' @ err)]) g
                     | None \<Rightarrow> give spec g)
           | Inr _ \<Rightarrow> fail (Status NotFound [Text (''cell not found: '' @ cellID)]) g))"

definition doForwardCellUpdate :: "('c, 'y) env_scheme \<Rightarrow> string \<Rightarrow> UpdatePayload option option \<Rightarrow>
    (UpdateResponse, ('c, 'z) Grid_scheme) op" where
  "doForwardCellUpdate env cellID upd =
     (if upd = None then fail (Status InvalidArgument [Text ''nil update''])
      else if cellID = [] then fail (Status InvalidArgument [Text ''empty cell_id''])
      else andThen (dialCellClient env cellID) (\<lambda>spec.
           call (cs_GrpcEndpoint spec) (\<lambda>now s. Update (js env) (visit_live env s) upd s)))"

section \<open>Rules for operations\<close>

text \<open>What an operation does on success and on failure, given as a relation between grids.\<close>

lemma andThen_cases:
  assumes "andThen m k g = (res, g')"
  obtains (failed) e where "m g = (Inl e, g')" "res = Inl e"
  | (went_on) x g1 where "m g = (Inr x, g1)" "k x g1 = (res, g')"
  using assms by (auto simp: andThen_def split: prod.splits sum.splits)

lemma andThen_Inr: "m g = (Inr x, g1) \<Longrightarrow> andThen m k g = k x g1"
  by (simp add: andThen_def)

lemma andThen_Inl: "m g = (Inl e, g1) \<Longrightarrow> andThen m k g = (Inl e, g1)"
  by (simp add: andThen_def)

text \<open>A predicate on grids that an operation keeps, whatever it answers.\<close>

definition keeps :: "('g \<Rightarrow> bool) \<Rightarrow> ('a, 'g) op \<Rightarrow> bool" where
  "keeps I m \<longleftrightarrow> (\<forall>g. I g \<longrightarrow> I (snd (m g)))"

lemma keepsI: "(\<And>g. I g \<Longrightarrow> I (snd (m g))) \<Longrightarrow> keeps I m"
  by (simp add: keeps_def)

lemma keepsD: "keeps I m \<Longrightarrow> I g \<Longrightarrow> m g = (res, g') \<Longrightarrow> I g'"
  by (metis keeps_def snd_conv)

lemma keeps_apply: "keeps I m \<Longrightarrow> I g \<Longrightarrow> I (snd (m g))"
  by (simp add: keeps_def)

lemma keeps_fail [intro, simp]: "keeps I (fail e)"
  by (simp add: keeps_def fail_def)

lemma keeps_give [intro, simp]: "keeps I (give x)"
  by (simp add: keeps_def give_def)

lemma keeps_andThen [intro]: "keeps I m \<Longrightarrow> (\<And>x. keeps I (k x)) \<Longrightarrow> keeps I (andThen m k)"
  by (auto simp: keeps_def andThen_def split: prod.splits sum.splits)

lemma keeps_ignoring [intro]: "keeps I m \<Longrightarrow> keeps I k \<Longrightarrow> keeps I (ignoring m k)"
  by (simp add: keeps_def ignoring_def)

lemma dial_same: "snd (dialCellClient env cellID g) = g"
  by (auto simp: dialCellClient_def fail_def give_def split: option.splits sum.splits prod.splits bool.splits)

lemma keeps_dial [intro, simp]: "keeps I (dialCellClient env cellID)"
  by (simp add: keeps_def dial_same)

text \<open>A call in the absence of a schedule.\<close>

lemma call_quiet:
  assumes "turns g = []" "servers g ep = Some s" "handler (clock g) s = (r, s')"
  shows "call ep handler g = (Inr r, g\<lparr>servers := (servers g)(ep \<mapsto> s')\<rparr>)"
  using assms by (simp add: call_def next_turn_def)

text \<open>
  Every server of the grid satisfies the invariant; the others of the schedule keep it that way, and
  there is room for new entities whenever they are done.
\<close>

definition servers_ok :: "(string \<rightharpoonup> Server) \<Rightarrow> bool" where
  "servers_ok ss \<longleftrightarrow> (\<forall>ep s. ss ep = Some s \<longrightarrow> server_inv s)"

lemma servers_okD: "servers_ok ss \<Longrightarrow> ss ep = Some s \<Longrightarrow> server_inv s"
  by (simp add: servers_ok_def)

lemma servers_ok_upd: "servers_ok ss \<Longrightarrow> server_inv s \<Longrightarrow> servers_ok (ss(ep \<mapsto> s))"
  by (simp add: servers_ok_def)

end
