(* ===== verification/Registry_Server.thy ===== *)
theory Registry_Server
  imports Grid_Calls
begin

text \<open>
  The registry's gRPC server (\<open>src/internal/grpc/registrysvc/server.go\<close>, \<open>forward_cell.go\<close>,
  \<open>forward_player.go\<close>): registration, listing and resolution over the catalog, and forwarding of
  updates, NPCs and players to cells. Logs, spans and metrics are left out, and so are the checks for
  a nil response without an error, which gRPC does not return.
\<close>

section \<open>The catalog over gRPC\<close>

record RegisterResponse =
  rr_Ok :: bool
  rr_ErrorMessage :: string

text \<open>A nil request and a request without a cell are both \<^const>\<open>None\<close>.\<close>

definition Registry_Register :: "'c Catalog \<Rightarrow> CellSpec option \<Rightarrow> ('c, 'z) Grid_scheme \<Rightarrow>
    RegisterResponse \<times> ('c, 'z) Grid_scheme" where
  "Registry_Register cat ocell g =
     (case ocell of
        None \<Rightarrow> (\<lparr>rr_Ok = False, rr_ErrorMessage = ''empty request''\<rparr>, g)
      | Some cell \<Rightarrow>
          (case RegisterCell cat (Some cell) (reg g) of
             Inl err \<Rightarrow> (\<lparr>rr_Ok = False, rr_ErrorMessage = err\<rparr>, g)
           | Inr c \<Rightarrow> (\<lparr>rr_Ok = True, rr_ErrorMessage = []\<rparr>, g\<lparr>reg := c\<rparr>)))"

definition Registry_ListCells :: "'c Catalog \<Rightarrow> ('c, 'z) Grid_scheme \<Rightarrow> call_error + CellSpec option list" where
  "Registry_ListCells cat g =
     (case ListAll cat (reg g) of Inl err \<Rightarrow> Inl (Status Unavailable [Text err]) | Inr listed \<Rightarrow> Inr listed)"

text \<open>The answer is the cell found, if any.\<close>

definition Registry_ResolvePosition :: "'c Catalog \<Rightarrow> (f64 \<times> f64) option \<Rightarrow> ('c, 'z) Grid_scheme \<Rightarrow>
    call_error + CellSpec option" where
  "Registry_ResolvePosition cat oreq g =
     (case oreq of
        None \<Rightarrow> Inl (Status InvalidArgument [Text ''empty request''])
      | Some (x, z) \<Rightarrow>
          (case Resolve cat x z (reg g) of
             Inl err \<Rightarrow> Inl (Status Unavailable [Text err])
           | Inr (c, ok) \<Rightarrow> if \<not> ok then Inr None else Inr c))"

definition ForwardCellUpdate :: "('c, 'y) env_scheme \<Rightarrow> (string \<times> UpdatePayload option option) option \<Rightarrow>
    (UpdateResponse, ('c, 'z) Grid_scheme) op" where
  "ForwardCellUpdate env oreq =
     (case oreq of
        None \<Rightarrow> fail (Status InvalidArgument [Text ''empty request or update''])
      | Some (cellID, upd) \<Rightarrow>
          if upd = None then fail (Status InvalidArgument [Text ''empty request or update''])
          else if cellID = [] then fail (Status InvalidArgument [Text ''empty cell_id''])
          else doForwardCellUpdate env cellID upd)"

section \<open>Forwarding the NPCs of a cell\<close>

record NpcHandoffRequest =
  nh_ParentCellId :: string
  nh_ChildCellId :: string
  nh_Reason :: string

record NpcHandoffResponse =
  nr_Message :: "msg list"
  nr_NpcEntityCount :: int32

definition ForwardNpcHandoff :: "('c, 'y) env_scheme \<Rightarrow> NpcHandoffRequest option \<Rightarrow>
    (NpcHandoffResponse, ('c, 'z) Grid_scheme) op" where
  "ForwardNpcHandoff env oreq =
     (case oreq of
        None \<Rightarrow> fail (Status InvalidArgument [Text ''empty request''])
      | Some req \<Rightarrow>
          (let parent = nh_ParentCellId req;
               child = nh_ChildCellId req;
               reason = (if nh_Reason req = [] then ''ForwardNpcHandoff'' else nh_Reason req)
           in if parent = [] \<or> child = []
              then fail (Status InvalidArgument [Text ''parent_cell_id and child_cell_id required''])
              else if parent = child
              then fail (Status InvalidArgument [Text ''parent_cell_id must differ from child_cell_id''])
              else andThen (doForwardCellUpdate env parent (Some (Some (ExportNpcPersist (Some reason))))) (\<lambda>expResp.
                if \<not> ur_Ok expResp
                then fail (Status FailedPrecondition [Text ''parent export failed: '', ur_Message expResp])
                else if ur_NpcExportJson expResp = []
                then fail (Status FailedPrecondition [Text ''empty npc_export_json from parent''])
                else (case Unmarshal (js env) (ur_NpcExportJson expResp) of
                        Inl err \<Rightarrow> fail (Status Internal [Text (''parent export json: '' @ err)])
                      | Inr p \<Rightarrow>
                          andThen (doForwardCellUpdate env child
                            (Some (Some (ImportNpcPersist (Some (ur_NpcExportJson expResp, reason @ ''/import'')))))) (\<lambda>impResp.
                            if \<not> ur_Ok impResp
                            then fail (Status FailedPrecondition [Text ''child import failed: '', ur_Message impResp])
                            else give \<lparr>nr_Message = [Text ''handoff: parent export ok; child import ok ('',
                                   ur_Message expResp, Text '' -> '', ur_Message impResp, Text '')''],
                                 nr_NpcEntityCount = to_int32 (int (length (Entities p)))\<rparr>)))))"

section \<open>Forwarding a player\<close>

record PlayerHandoffRequest =
  ph_ParentCellId :: string
  ph_ChildCellId :: string
  ph_PlayerId :: string
  ph_HandoffToken :: string
  ph_Reason :: string

record PlayerHandoffResponse =
  phr_Message :: string
  phr_ChildEntityId :: Entity

text \<open>
  The three calls between two dialled cells. Within one handler of a cell the clock stands still. The
  reason of the request is only logged.
\<close>

definition player_handoff_calls :: "('c, 'y) env_scheme \<Rightarrow> CellSpec \<Rightarrow> CellSpec \<Rightarrow> string \<Rightarrow> string \<Rightarrow> string \<Rightarrow>
    (PlayerHandoffResponse, ('c, 'z) Grid_scheme) op" where
  "player_handoff_calls env parentSpec childSpec childID playerID token =
     andThen (call (cs_GrpcEndpoint parentSpec)
       (\<lambda>now s. PreparePlayerHandoff (visit_prepared env s) now now now playerID childID token s)) (\<lambda>prep.
       if \<not> pr_Ok prep \<or> pr_Payload prep = None
       then fail (Status FailedPrecondition [Text (''prepare failed: '' @ pr_Message prep)])
       else (let payload = (the (pr_Payload prep))\<lparr>hs_SourceCellId := cs_Id parentSpec,
                   hs_TargetCellId := cs_Id childSpec, hs_HandoffToken := token\<rparr>
             in andThen (call (cs_GrpcEndpoint childSpec) (\<lambda>now s. AcceptPlayerHandoff (Some payload) s)) (\<lambda>acc.
                  if \<not> ar_Ok acc \<or> ar_EntityId acc = 0
                  then fail (Status FailedPrecondition [Text (''accept failed: '' @ ar_Message acc)])
                  else andThen (call (cs_GrpcEndpoint parentSpec)
                    (\<lambda>now s. FinalizePlayerHandoff playerID token s)) (\<lambda>fin.
                    if \<not> sr_Ok fin
                    then fail (Status FailedPrecondition [Text (''finalize failed: '' @ sr_Message fin)])
                    else give \<lparr>phr_Message = ''player handoff completed'', phr_ChildEntityId = ar_EntityId acc\<rparr>))))"

definition ForwardPlayerHandoff :: "('c, 'y) env_scheme \<Rightarrow> PlayerHandoffRequest option \<Rightarrow>
    (PlayerHandoffResponse, ('c, 'z) Grid_scheme) op" where
  "ForwardPlayerHandoff env oreq =
     (case oreq of
        None \<Rightarrow> fail (Status InvalidArgument [Text ''empty request''])
      | Some req \<Rightarrow>
          (let parentID = TrimSpace (ph_ParentCellId req);
               childID = TrimSpace (ph_ChildCellId req);
               playerID = TrimSpace (ph_PlayerId req);
               token = TrimSpace (ph_HandoffToken req)
           in if parentID = [] \<or> childID = [] \<or> playerID = [] \<or> token = []
              then fail (Status InvalidArgument [Text ''parent_cell_id, child_cell_id, player_id, handoff_token required''])
              else if parentID = childID
              then fail (Status InvalidArgument [Text ''parent_cell_id must differ from child_cell_id''])
              else andThen (dialCellClient env parentID) (\<lambda>parentSpec.
                   andThen (dialCellClient env childID) (\<lambda>childSpec.
                   player_handoff_calls env parentSpec childSpec childID playerID token))))"

section \<open>A player's way from cell to cell\<close>

lemma FindCellByID_same: "reg g' = reg g \<Longrightarrow> fst (dialCellClient env i g') = fst (dialCellClient env i g)"
  by (auto simp: dialCellClient_def fail_def give_def split: option.splits sum.splits prod.splits bool.splits)

lemma dialled: "fst (dialCellClient env i g) = Inr spec \<Longrightarrow> dialCellClient env i g = (Inr spec, g)"
  by (metis dial_same prod.collapse)

text \<open>A prepare of a present, resting player under a fresh token succeeds.\<close>

lemma Prepare_success:
  assumes "server_inv s" "Sim s = Some r" "playerByID s p = Some e" "positions (world r) e = Some pos"
    and "preparedByID s p = None" "preparedByTk s tok = None"
    and "TrimSpace p = p" "TrimSpace tok = tok" "TrimSpace target = target" "p \<noteq> []" "tok \<noteq> []" "target \<noteq> []"
  obtains resp s2 where "s2 = pruneStalePreparedLocked order now1 s"
    "PreparePlayerHandoff order now1 now2 now3 p target tok s =
       (resp, prepared_state p tok \<lparr>pp_playerID = p, pp_token = tok, pp_entityID = e, pp_finalized = False,
          pp_createdAt = now3, pp_payload = pr_Payload resp\<rparr> e s2)"
    "pr_Ok resp" "pr_Payload resp = Some (handoff_payload r e pos (CellID s) p target tok)"
proof -
  note inv = server_invD[OF assms(1)]
  let ?s = "pruneStalePreparedLocked order now1 s"
  have ex: "expires s ?s" using prune_expires[OF inv(3)] .
  have tk: "preparedByTk ?s tok = None"
    using ex assms(6) by (induction rule: expires.induct) (auto simp: drop_handoff_def)
  have id: "preparedByID ?s p = None" using expires_gone[OF ex assms(5)] .
  note f = expires_fields[OF ex]
  have pl: "playerByID ?s p = Some e" "Sim ?s = Some r" "CellID ?s = CellID s" using f assms(2,3) by simp_all
  show thesis
  proof (rule that[OF HOL.refl])
    let ?resp = "fst (PreparePlayerHandoff order now1 now2 now3 p target tok s)"
    show "PreparePlayerHandoff order now1 now2 now3 p target tok s =
       (?resp, prepared_state p tok \<lparr>pp_playerID = p, pp_token = tok, pp_entityID = e, pp_finalized = False,
          pp_createdAt = now3, pp_payload = pr_Payload ?resp\<rparr> e ?s)"
      "pr_Ok ?resp" "pr_Payload ?resp = Some (handoff_payload r e pos (CellID s) p target tok)"
      using assms(2,4,7-12) tk id pl
      by (simp_all add: PreparePlayerHandoff_def prepare_reserve_def prepare_read_def prepare_store_def Let_def
          prepared_state_def with_world_def handoff_payload_def)
  qed
qed

text \<open>What a cell knows of a player: the components of his entity.\<close>

definition player_at :: "Server \<Rightarrow> string \<Rightarrow> (Position option \<times> Velocity option \<times> Health option) option" where
  "player_at s p =
     (case (Sim s, playerByID s p) of
        (Some r, Some e) \<Rightarrow> Some (positions (world r) e, velocities (world r) e, healths (world r) e)
      | _ \<Rightarrow> None)"

text \<open>Health after a handoff: rounded, and full when there was none left or no maximum.\<close>

definition moved_health :: "Health option \<Rightarrow> Health" where
  "moved_health oh =
     (let h = (case oh of None \<Rightarrow> full_health | Some h \<Rightarrow> if fle (MaxHP h) (Fin 0) then full_health else h);
          m = (if fle (to_f32 (MaxHP h)) (Fin 0) then Fin 100 else to_f32 (MaxHP h))
      in \<lparr>HP = (if fle (to_f32 (HP h)) (Fin 0) then m else to_f32 (HP h)), MaxHP = m\<rparr>)"

text \<open>
  A cell after a player came with a new entity, and after he went with his: nothing else in the world,
  and no other table, is different.
\<close>

definition arrived :: "string \<Rightarrow> string \<Rightarrow> Entity \<Rightarrow> Position \<Rightarrow> Velocity \<Rightarrow> Health \<Rightarrow> Server \<Rightarrow> Server" where
  "arrived p tok e pos v h s =
     s\<lparr>Sim := map_option (\<lambda>r. r\<lparr>world := (world r)\<lparr>nextID := e, alive := insert e (alive (world r)),
           positions := (positions (world r))(e \<mapsto> pos), velocities := (velocities (world r))(e \<mapsto> v),
           healths := (healths (world r))(e \<mapsto> h), dirty := insert e (dirty (world r))\<rparr>\<rparr>) (Sim s),
       playerByID := (playerByID s)(p \<mapsto> e), players := insert e (players s),
       acceptedByTk := (acceptedByTk s)(tok \<mapsto> e)\<rparr>"

definition departed :: "string \<Rightarrow> Entity \<Rightarrow> Server \<Rightarrow> Server" where
  "departed p e s =
     s\<lparr>Sim := map_option (\<lambda>r. r\<lparr>world := (world r)\<lparr>alive := alive (world r) - {e},
           positions := (positions (world r))(e := None), velocities := (velocities (world r))(e := None),
           healths := (healths (world r))(e := None), colliders := (colliders (world r))(e := None),
           triggerZones := (triggerZones (world r))(e := None), triggerSensors := (triggerSensors (world r))(e := None),
           dirty := dirty (world r) - {e}\<rparr>\<rparr>) (Sim s),
       playerByID := (playerByID s)(p := None), players := players s - {e}\<rparr>"

text \<open>\<open>s\<close> with the handoff tables of \<open>t\<close>.\<close>

definition with_handoffs_of :: "Server \<Rightarrow> Server \<Rightarrow> Server" where
  "with_handoffs_of t s = s\<lparr>preparedByID := preparedByID t, frozenByID := frozenByID t, preparedByTk := preparedByTk t\<rparr>"

lemma expires_frame: "expires s s' \<Longrightarrow> s' = with_handoffs_of s' s"
  by (induction rule: expires.induct) (simp_all add: with_handoffs_of_def drop_handoff_def)

text \<open>A handoff in progress that is neither finalized nor stale.\<close>

definition fresh_handoff :: "int \<Rightarrow> Server \<Rightarrow> string \<Rightarrow> string \<Rightarrow> preparedPlayerHandoff \<Rightarrow> bool" where
  "fresh_handoff now s q t pp \<longleftrightarrow> preparedByID s q = Some t \<and> preparedByTk s t = Some pp \<and> \<not> pp_finalized pp \<and>
     pp_createdAt pp \<noteq> 0 \<and> now - pp_createdAt pp \<le> handoffInFlightStaleTimeout"

lemma prune_keeps_fresh:
  assumes "handoff_inv s" "fresh_handoff now s q t pp"
  shows "fresh_handoff now (pruneStalePreparedLocked order now s) q t pp"
  using assms unfolding pruneStalePreparedLocked_def
proof (induction order arbitrary: s)
  case (Cons p order)
  have "fresh_handoff now (prune_one now p s) q t pp"
  proof (cases "p = q")
    case True
    then show ?thesis using Cons.prems(2) by (simp add: prune_one_def fresh_handoff_def)
  next
    case False
    then show ?thesis
      using Cons.prems prune_one_keeps[of p q now s] prune_one_keeps_token[of s p q t now]
      by (simp add: fresh_handoff_def)
  qed
  moreover have "handoff_inv (prune_one now p s)"
    using expires_handoff_inv[OF prune_one_expires[OF Cons.prems(1)] Cons.prems(1)] .
  ultimately show ?case using Cons.IH by simp
qed simp

lemma Accept_success:
  assumes "server_inv s" "has_room s" "Sim s = Some r" "playerByID s p = None" "acceptedByTk s tok = None"
    and "TrimSpace (hs_PlayerId payload) = p" "TrimSpace (hs_HandoffToken payload) = tok" "p \<noteq> []" "tok \<noteq> []"
  obtains e s' where "AcceptPlayerHandoff (Some payload) s = (\<lparr>ar_Ok = True, ar_Message = ''accepted'', ar_EntityId = e\<rparr>, s')"
    "e \<noteq> 0" "playerByID s' = (playerByID s)(p \<mapsto> e)"
    "player_at s' p = Some (Some (get_position (hs_Position payload)), Some (get_velocity (hs_Velocity payload)),
       Some (accepted_health payload))"
    "\<And>q. q \<noteq> p \<Longrightarrow> player_at s' q = player_at s q"
    "s' = arrived p tok e (get_position (hs_Position payload)) (get_velocity (hs_Velocity payload))
       (accepted_health payload) s" "e \<notin> alive (world r)"
proof -
  note inv = server_invD[OF assms(1)]
  have w: "world_inv (world r)" "ran (playerByID s) \<subseteq> alive (world r)"
    using inv(2) assms(3) player_alive[OF inv(2) assms(3)] by (auto simp: sim_inv_def ran_def)
  have room: "room (world r)" using assms(2,3) by (simp add: has_room_def)
  obtain e w' where c: "CreateEntity (world r) = (e, w')" by fastforce
  note i = world_inv_Create[OF w(1) room c]
  have w': "positions w' = positions (world r)" "velocities w' = velocities (world r)" "healths w' = healths (world r)"
    using c by (auto simp: CreateEntity_def Let_def)
  let ?s1 = "s\<lparr>Sim := Some (r\<lparr>world := w'\<rparr>)\<rparr>"
  let ?s' = "accept_register p tok e (accept_write payload e ?s1)"
  have other: "d \<noteq> e" if "playerByID s q = Some d" for q d
    using that i(2) w(2) by (auto simp: ran_def)
  show thesis
  proof (rule that)
    show "AcceptPlayerHandoff (Some payload) s = (\<lparr>ar_Ok = True, ar_Message = ''accepted'', ar_EntityId = e\<rparr>, ?s')"
      using assms(3-9) c by (simp add: AcceptPlayerHandoff_def accept_lookup_def accept_create_def Let_def)
    show "e \<noteq> 0" "e \<notin> alive (world r)" by (fact i(4) i(2))+
    have "w' = (world r)\<lparr>nextID := e, alive := insert e (alive (world r))\<rparr>"
      using c by (auto simp: CreateEntity_def Let_def)
    then show "?s' = arrived p tok e (get_position (hs_Position payload)) (get_velocity (hs_Velocity payload))
       (accepted_health payload) s"
      using assms(3) by (simp add: arrived_def accept_register_def accept_write_def with_world_def world_defs)
    show "playerByID ?s' = (playerByID s)(p \<mapsto> e)" by (simp add: accept_write_def server_simps)
    show "player_at ?s' p = Some (Some (get_position (hs_Position payload)), Some (get_velocity (hs_Velocity payload)),
       Some (accepted_health payload))"
      by (simp add: player_at_def accept_write_def server_simps world_defs)
    show "player_at ?s' q = player_at s q" if "q \<noteq> p" for q
      using that other[of q] assms(3)
      by (auto simp: player_at_def accept_write_def server_simps world_defs w' split: option.splits)
  qed
qed

lemma Finalize_success:
  assumes "server_inv s" "preparedByID s p = Some tok" "TrimSpace p = p" "TrimSpace tok = tok"
  obtains resp s' where "FinalizePlayerHandoff p tok s = (resp, s')" "sr_Ok resp"
    "playerByID s' = (playerByID s)(p := None)" "preparedByID s' = (preparedByID s)(p := None)"
    "frozenByID s' = frozenByID s - {p}"
    "\<And>q. q \<noteq> p \<Longrightarrow> player_at s' q = player_at s q"
    "\<And>e. playerByID s p = Some e \<Longrightarrow> s' = with_handoffs_of s' (departed p e s)"
    "\<And>t. t \<noteq> tok \<Longrightarrow> preparedByTk s' t = preparedByTk s t"
proof -
  note inv = server_invD[OF assms(1)]
  obtain r where r: "Sim s = Some r" using inv(2) by (rule sim_invE)
  obtain resp s' where f: "FinalizePlayerHandoff p tok s = (resp, s')" by fastforce
  obtain e pp where o: "sr_Ok resp" "playerByID s p = Some e"
    "s' = with_world (DestroyEntity e)
          (s\<lparr>preparedByTk := (preparedByTk s)(tok \<mapsto> pp\<lparr>pp_finalized := True\<rparr>),
             preparedByID := (preparedByID s)(p := None), frozenByID := frozenByID s - {p},
             playerByID := (playerByID s)(p := None), players := players s - {e}\<rparr>)"
    using Finalize_outcome[OF inv(1,3) r f] assms(2-4) by auto
  have "d \<noteq> e" if "playerByID s q = Some d" "q \<noteq> p" for q d
    using player_entity_inj[OF inv(1) o(2), of q] that by auto
  then have "player_at s' q = player_at s q" if "q \<noteq> p" for q
    using that r by (auto simp: player_at_def o(3) server_simps world_defs split: option.splits)
  moreover have "s' = with_handoffs_of s' (departed p d s)" if "playerByID s p = Some d" for d
    using that o(2) by (simp add: o(3) with_handoffs_of_def departed_def with_world_def DestroyEntity_def)
  ultimately show thesis by (intro that[OF f o(1)]) (simp_all add: o(2,3) server_simps)
qed

text \<open>The situation before a handoff: \<open>p\<close> is at \<open>sp\<close>, not at \<open>sc\<close>, and the token is new to both.\<close>

definition handoff_ready :: "('c, 'z) Grid_scheme \<Rightarrow> string \<Rightarrow> Server \<Rightarrow> string \<Rightarrow> Server \<Rightarrow> string \<Rightarrow> string \<Rightarrow> bool" where
  "handoff_ready g ep sp ec sc p tok \<longleftrightarrow>
     servers g ep = Some sp \<and> servers g ec = Some sc \<and> ep \<noteq> ec \<and> server_inv sp \<and> server_inv sc \<and> has_room sc \<and>
     p \<in> dom (playerByID sp) \<and> preparedByID sp p = None \<and> preparedByTk sp tok = None \<and>
     playerByID sc p = None \<and> acceptedByTk sc tok = None"

text \<open>The states of the two cells after prepare, accept and finalize.\<close>

lemma handoff_calls:
  assumes "handoff_ready g ep sp ec sc p tok"
    and names: "TrimSpace p = p" "TrimSpace tok = tok" "TrimSpace target = target" "p \<noteq> []" "tok \<noteq> []" "target \<noteq> []"
    and payload': "\<And>pl. payload' pl = pl\<lparr>hs_SourceCellId := src, hs_TargetCellId := tgt, hs_HandoffToken := tok\<rparr>"
  obtains prep sp1 acc sc1 fin sp2 pos ov oh where
    "PreparePlayerHandoff order now1 now2 now3 p target tok sp = (prep, sp1)" "pr_Ok prep" "pr_Payload prep \<noteq> None"
    "AcceptPlayerHandoff (Some (payload' (the (pr_Payload prep)))) sc = (acc, sc1)" "ar_Ok acc" "ar_EntityId acc \<noteq> 0"
    "FinalizePlayerHandoff p tok sp1 = (fin, sp2)" "sr_Ok fin"
    "playerByID sp1 = playerByID sp" "p \<in> frozenByID sp1" "server_inv sp1" "server_inv sc1" "server_inv sp2"
    "playerByID sp2 = (playerByID sp)(p := None)" "\<And>q. q \<noteq> p \<Longrightarrow> q \<in> dom (playerByID sc1) \<longleftrightarrow> q \<in> dom (playerByID sc)"
    "player_at sp p = Some (Some pos, ov, oh)"
    "player_at sc1 p = Some (Some (f32_position pos),
       Some (f32_velocity (case ov of None \<Rightarrow> zero_velocity | Some v \<Rightarrow> v)), Some (moved_health oh))"
    "\<And>q. q \<noteq> p \<Longrightarrow> player_at sp2 q = player_at sp q" "\<And>q. q \<noteq> p \<Longrightarrow> player_at sc1 q = player_at sc q"
    "sp2 = with_handoffs_of sp2 (departed p (the (playerByID sp p)) sp)"
    "\<And>q t pp. q \<noteq> p \<Longrightarrow> fresh_handoff now1 sp q t pp \<Longrightarrow> fresh_handoff now1 sp2 q t pp"
    "sc1 = arrived p tok (ar_EntityId acc) (f32_position pos)
       (f32_velocity (case ov of None \<Rightarrow> zero_velocity | Some v \<Rightarrow> v)) (moved_health oh) sc"
    "\<And>rc. Sim sc = Some rc \<Longrightarrow> ar_EntityId acc \<notin> alive (world rc)"
proof -
  have h: "server_inv sp" "server_inv sc" "has_room sc" "preparedByID sp p = None" "preparedByTk sp tok = None"
      "playerByID sc p = None" "acceptedByTk sc tok = None"
    using assms(1) by (simp_all add: handoff_ready_def)
  obtain e where e: "playerByID sp p = Some e" using assms(1) by (auto simp: handoff_ready_def)
  obtain r where r: "Sim sp = Some r" using server_invD(2)[OF h(1)] by (rule sim_invE)
  obtain rc where rc: "Sim sc = Some rc" using server_invD(2)[OF h(2)] by (rule sim_invE)
  obtain pos where pos: "positions (world r) e = Some pos"
    using player_position[OF server_invD(2)[OF h(1)] r e] by auto
  have at: "player_at sp p = Some (Some pos, velocities (world r) e, healths (world r) e)"
    by (simp add: player_at_def r e pos)
  obtain prep s2 where prune: "s2 = pruneStalePreparedLocked order now1 sp" and
    prep: "PreparePlayerHandoff order now1 now2 now3 p target tok sp =
       (prep, prepared_state p tok \<lparr>pp_playerID = p, pp_token = tok, pp_entityID = e, pp_finalized = False,
          pp_createdAt = now3, pp_payload = pr_Payload prep\<rparr> e s2)"
    "pr_Ok prep" "pr_Payload prep = Some (handoff_payload r e pos (CellID sp) p target tok)"
    by (rule Prepare_success[OF h(1) r e pos h(4,5) names])
  let ?pp = "\<lparr>pp_playerID = p, pp_token = tok, pp_entityID = e, pp_finalized = False,
          pp_createdAt = now3, pp_payload = pr_Payload prep\<rparr>"
  let ?sp1 = "prepared_state p tok ?pp e s2"
  let ?pl = "payload' (the (pr_Payload prep))"
  have s2: "expires sp s2" using prune_expires[OF server_invD(3)[OF h(1)]] by (simp add: prune)
  note f = expires_fields[OF s2]
  have inv1: "server_inv ?sp1" using Prepare_inv[OF h(1) prep(1)] .
  have pl: "hs_PlayerId ?pl = p" "hs_HandoffToken ?pl = tok" "hs_Position ?pl = Some (vec_of_position pos)"
      "hs_Velocity ?pl = Some (vec_of_velocity (case velocities (world r) e of None \<Rightarrow> zero_velocity | Some v \<Rightarrow> v))"
      "accepted_health ?pl = moved_health (healths (world r) e)"
    by (simp_all add: payload' prep(3) handoff_payload_def accepted_health_def moved_health_def Let_def)
  obtain en sc1 where a: "AcceptPlayerHandoff (Some ?pl) sc = (\<lparr>ar_Ok = True, ar_Message = ''accepted'', ar_EntityId = en\<rparr>, sc1)"
    "en \<noteq> 0" "playerByID sc1 = (playerByID sc)(p \<mapsto> en)"
    "player_at sc1 p = Some (Some (get_position (hs_Position ?pl)), Some (get_velocity (hs_Velocity ?pl)),
       Some (accepted_health ?pl))"
    "\<And>q. q \<noteq> p \<Longrightarrow> player_at sc1 q = player_at sc q"
    "sc1 = arrived p tok en (get_position (hs_Position ?pl)) (get_velocity (hs_Velocity ?pl)) (accepted_health ?pl) sc"
    "en \<notin> alive (world rc)"
    by (rule Accept_success[OF h(2,3) rc h(6,7), of ?pl]) (use names pl in simp_all)
  have moving: "preparedByID ?sp1 p = Some tok" by (simp add: server_simps)
  obtain fin sp2 where fin: "FinalizePlayerHandoff p tok ?sp1 = (fin, sp2)" "sr_Ok fin"
    "playerByID sp2 = (playerByID ?sp1)(p := None)" "preparedByID sp2 = (preparedByID ?sp1)(p := None)"
    "frozenByID sp2 = frozenByID ?sp1 - {p}" "\<And>q. q \<noteq> p \<Longrightarrow> player_at sp2 q = player_at ?sp1 q"
    "\<And>d. playerByID ?sp1 p = Some d \<Longrightarrow> sp2 = with_handoffs_of sp2 (departed p d ?sp1)"
    "\<And>t. t \<noteq> tok \<Longrightarrow> preparedByTk sp2 t = preparedByTk ?sp1 t"
    by (rule Finalize_success[OF inv1 moving names(1,2)]) blast
  have other: "player_at ?sp1 q = player_at sp q" if "q \<noteq> p" for q
  proof -
    have "d \<noteq> e" if "playerByID sp q = Some d" for d
      using player_entity_inj[OF server_invD(1)[OF h(1)] e, of q] that \<open>q \<noteq> p\<close> by auto
    then show ?thesis
      using f r by (auto simp: player_at_def server_simps SetVelocity_def split: option.splits)
  qed
  show thesis
  proof (rule that[OF prep(1,2) _ a(1) _ _ fin(1,2) _ _ inv1 _ _ _ _ at])
    show "server_inv sc1" using Accept_inv[OF h(2,3) a(1)] .
    show "server_inv sp2" using Finalize_inv[OF inv1 fin(1)] .
    show "player_at sc1 p = Some (Some (f32_position pos),
       Some (f32_velocity (case velocities (world r) e of None \<Rightarrow> zero_velocity | Some v \<Rightarrow> v)),
       Some (moved_health (healths (world r) e)))"
      using a(4) by (simp add: pl(3-5) get_position_def get_velocity_def vec_of_position_def vec_of_velocity_def
          f32_position_def f32_velocity_def)
    have "s2 = with_handoffs_of s2 sp" by (rule expires_frame[OF s2])
    then have "with_handoffs_of sp2 (departed p e ?sp1) = with_handoffs_of sp2 (departed p e sp)"
      using r f by (cases s2; cases sp)
        (simp add: with_handoffs_of_def departed_def prepared_state_def with_world_def SetVelocity_def)
    then show "sp2 = with_handoffs_of sp2 (departed p (the (playerByID sp p)) sp)"
      using fin(7)[of e] e f by (simp add: server_simps)
    show "fresh_handoff now1 sp2 q t pp" if q: "q \<noteq> p" "fresh_handoff now1 sp q t pp" for q t pp
    proof -
      have *: "fresh_handoff now1 s2 q t pp"
        using prune_keeps_fresh[OF server_invD(3)[OF h(1)] q(2)] by (simp add: prune)
      moreover have "t \<noteq> tok" using q(2) h(5) by (auto simp: fresh_handoff_def)
      ultimately show ?thesis
        using q(1) fin(4) fin(8)[of t] by (simp add: fresh_handoff_def server_simps)
    qed
    show "sc1 = arrived p tok (ar_EntityId \<lparr>ar_Ok = True, ar_Message = ''accepted'', ar_EntityId = en\<rparr>) (f32_position pos)
       (f32_velocity (case velocities (world r) e of None \<Rightarrow> zero_velocity | Some v \<Rightarrow> v))
       (moved_health (healths (world r) e)) sc"
      using a(6) by (simp add: pl(3-5) get_position_def get_velocity_def vec_of_position_def vec_of_velocity_def
          f32_position_def f32_velocity_def)
    show "ar_EntityId \<lparr>ar_Ok = True, ar_Message = ''accepted'', ar_EntityId = en\<rparr> \<notin> alive (world rc')"
      if "Sim sc = Some rc'" for rc' using that a(7) rc by simp
    show "player_at sp2 q = player_at sp q" if "q \<noteq> p" for q using fin(6)[OF that] other[OF that] by simp
    show "player_at sc1 q = player_at sc q" if "q \<noteq> p" for q using a(5)[OF that] .
  qed (use a prep(3) fin f in \<open>simp_all add: server_simps\<close>)
qed

text \<open>A turn in which nobody else does anything.\<close>

definition still :: "fate \<Rightarrow> 'c turn" where
  "still f = \<lparr>t_fate = f, t_elapsed = 0, t_others = id\<rparr>"

lemma call_still:
  assumes "turns g = still f # ts" "servers g ep = Some s" "handler (clock g) s = (r, s')"
  shows "call ep handler g = (case f of
      Delivered \<Rightarrow> (Inr r, g\<lparr>turns := ts, servers := (servers g)(ep \<mapsto> s')\<rparr>)
    | ReplyLost \<Rightarrow> (Inl CallFailed, g\<lparr>turns := ts, servers := (servers g)(ep \<mapsto> s')\<rparr>)
    | Dropped \<Rightarrow> (Inl CallFailed, g\<lparr>turns := ts\<rparr>))"
  using assms by (cases f) (simp_all add: call_def next_turn_def still_def)

text \<open>The requests the theorems are about: names given without surrounding spaces.\<close>

definition proper_request :: "PlayerHandoffRequest \<Rightarrow> bool" where
  "proper_request req \<longleftrightarrow>
     (\<forall>f \<in> {ph_ParentCellId, ph_ChildCellId, ph_PlayerId, ph_HandoffToken}. trimmed (f req) \<and> f req \<noteq> []) \<and>
     ph_ParentCellId req \<noteq> ph_ChildCellId req"

lemma proper_requestD:
  assumes "proper_request req"
  shows "TrimSpace (ph_ParentCellId req) = ph_ParentCellId req" "TrimSpace (ph_ChildCellId req) = ph_ChildCellId req"
    "TrimSpace (ph_PlayerId req) = ph_PlayerId req" "TrimSpace (ph_HandoffToken req) = ph_HandoffToken req"
    "ph_ParentCellId req \<noteq> []" "ph_ChildCellId req \<noteq> []" "ph_PlayerId req \<noteq> []" "ph_HandoffToken req \<noteq> []"
    "ph_ParentCellId req \<noteq> ph_ChildCellId req"
  using assms by (simp_all add: proper_request_def TrimSpace_trimmed)

lemma ForwardPlayerHandoff_dialled:
  assumes "proper_request req" "fst (dialCellClient env (ph_ParentCellId req) g) = Inr ps"
    "fst (dialCellClient env (ph_ChildCellId req) g) = Inr cs"
  shows "ForwardPlayerHandoff env (Some req) g =
    player_handoff_calls env ps cs (ph_ChildCellId req) (ph_PlayerId req) (ph_HandoffToken req) g"
  using proper_requestD[OF assms(1)] dialled[OF assms(2)] dialled[OF assms(3)]
  by (simp add: ForwardPlayerHandoff_def Let_def andThen_def)

lemma accept_entity:
  assumes "AcceptPlayerHandoff opayload s = (acc, s')" "server_inv s" "playerByID s p = None"
    and "playerByID s' p \<noteq> None"
  shows "playerByID s' p = Some (ar_EntityId acc)"
proof -
  obtain r where "Sim s = Some r" using server_invD(2)[OF assms(2)] by (rule sim_invE)
  from Accept_outcome[OF assms(1) this] assms(3,4) show ?thesis
    by (auto simp: accept_write_def accept_create_def server_simps split: option.splits prod.splits if_splits)
qed

lemma forward_player_success:
  assumes "proper_request req" "fst (dialCellClient env (ph_ParentCellId req) g) = Inr ps"
    and "fst (dialCellClient env (ph_ChildCellId req) g) = Inr cs"
    and "handoff_ready g (cs_GrpcEndpoint ps) sp (cs_GrpcEndpoint cs) sc (ph_PlayerId req) (ph_HandoffToken req)"
    and "turns g = []" "p = ph_PlayerId req"
  obtains resp sp' sc' pos ov oh where
    "ForwardPlayerHandoff env (Some req) g = (Inr resp, g\<lparr>servers := (servers g)(cs_GrpcEndpoint ps \<mapsto> sp', cs_GrpcEndpoint cs \<mapsto> sc')\<rparr>)"
    "p \<notin> dom (playerByID sp')" "player_at sp p = Some (Some pos, ov, oh)"
    "player_at sc' p = Some (Some (f32_position pos),
      Some (f32_velocity (case ov of None \<Rightarrow> zero_velocity | Some v \<Rightarrow> v)), Some (moved_health oh))"
    "\<And>q. q \<noteq> p \<Longrightarrow> player_at sp' q = player_at sp q \<and> player_at sc' q = player_at sc q"
    "server_inv sp'" "server_inv sc'" "phr_ChildEntityId resp \<noteq> 0"
    "playerByID sc' p = Some (phr_ChildEntityId resp)"
    "sp' = with_handoffs_of sp' (departed p (the (playerByID sp p)) sp)" "preparedByID sp' p = None"
    "\<And>q t pp. q \<noteq> p \<Longrightarrow> fresh_handoff (clock g) sp q t pp \<Longrightarrow> fresh_handoff (clock g) sp' q t pp"
    "sc' = arrived p (ph_HandoffToken req) (phr_ChildEntityId resp) (f32_position pos)
       (f32_velocity (case ov of None \<Rightarrow> zero_velocity | Some v \<Rightarrow> v)) (moved_health oh) sc"
    "\<And>rc. Sim sc = Some rc \<Longrightarrow> phr_ChildEntityId resp \<notin> alive (world rc)"
proof -
  note n = proper_requestD[OF assms(1), folded assms(6)] and r4 = assms(4)[folded assms(6)]
  have ready: "servers g (cs_GrpcEndpoint ps) = Some sp" "servers g (cs_GrpcEndpoint cs) = Some sc"
      "cs_GrpcEndpoint ps \<noteq> cs_GrpcEndpoint cs" "server_inv sc" "playerByID sc p = None"
    using r4 by (simp_all add: handoff_ready_def)
  let ?tok = "ph_HandoffToken req" and ?child = "ph_ChildCellId req"
  let ?now = "clock g" and ?order = "visit_prepared env sp"
  show thesis
  proof (rule handoff_calls[OF r4 n(3,4,2) n(7,8,6), of "\<lambda>pl. pl\<lparr>hs_SourceCellId := cs_Id ps,
      hs_TargetCellId := cs_Id cs, hs_HandoffToken := ?tok\<rparr>" "cs_Id cs" "cs_Id ps" ?order ?now ?now ?now], goal_cases)
    case (2 prep sp1 acc sc1 fin sp2 pos ov oh)
    note c = this
    obtain pl where pl: "pr_Payload prep = Some pl" using c(3) by auto
    have "player_handoff_calls env ps cs ?child p ?tok g =
        (Inr \<lparr>phr_Message = ''player handoff completed'', phr_ChildEntityId = ar_EntityId acc\<rparr>,
         g\<lparr>servers := (servers g)(cs_GrpcEndpoint ps \<mapsto> sp2, cs_GrpcEndpoint cs \<mapsto> sc1)\<rparr>)"
      using ready c(1,2,4-8) assms(5) pl
      by (simp add: player_handoff_calls_def andThen_def Let_def call_quiet give_def fun_upd_twist)
    then have run: "ForwardPlayerHandoff env (Some req) g =
        (Inr \<lparr>phr_Message = ''player handoff completed'', phr_ChildEntityId = ar_EntityId acc\<rparr>,
         g\<lparr>servers := (servers g)(cs_GrpcEndpoint ps \<mapsto> sp2, cs_GrpcEndpoint cs \<mapsto> sc1)\<rparr>)"
      using ForwardPlayerHandoff_dialled[OF assms(1-3)] assms(6) by simp
    have entity: "playerByID sc1 p = Some (ar_EntityId acc)"
      using accept_entity[OF c(4) ready(4,5)] c(17) by (auto simp: player_at_def split: option.splits)
    show ?thesis
    proof (rule that[OF run _ c(16)])
      have "handoff_inv sp2" "p \<notin> dom (playerByID sp2)" using server_invD(3)[OF c(13)] c(14) by auto
      then show "preparedByID sp2 p = None" unfolding handoff_inv_def by blast
    qed (use c entity in simp_all)
  qed simp
qed


text \<open>Two cells of one catalog for the witnesses; a player is at the first.\<close>

definition demo_cell :: "string \<Rightarrow> CellSpec" where
  "demo_cell i = \<lparr>cs_Id = i, cs_Level = 0, cs_Bounds = Some world_bounds, cs_GrpcEndpoint = i\<rparr>"

definition demo_persist :: CellPersist where
  "demo_persist = \<lparr>SchemaVersion = 1, Tick = 0, LoopTps = to_f32 (Fin 25), Entities = []\<rparr>"

definition demo_json :: json where
  "demo_json = \<lparr>Marshal = (\<lambda>p. if p = demo_persist then Inr ''{}'' else Inl ''unsupported''),
     Unmarshal = (\<lambda>t. if t = ''{}'' then Inr demo_persist else Inl ''invalid'')\<rparr>"

definition demo_env :: "Memory env" where
  "demo_env = \<lparr>catalog_of = Some (MemoryCatalog (\<lambda>m. [''root'', ''cell_1_0_0''])), js = demo_json, dial_error = (\<lambda>ep. None),
     visit_live = (\<lambda>s. if isPlayer s 1 then [1] else []), visit_names = (\<lambda>s. []), visit_prepared = (\<lambda>s. [])\<rparr>"

definition demo_grid :: "Memory turn list \<Rightarrow> Memory Grid" where
  "demo_grid ts = \<lparr>reg = \<lparr>cells = [''root'' \<mapsto> demo_cell ''root'', ''cell_1_0_0'' \<mapsto> demo_cell ''cell_1_0_0'']\<rparr>,
     servers = [''root'' \<mapsto> demo_joined, ''cell_1_0_0'' \<mapsto> new_server ''cell_1_0_0'' None 1 NewRuntime],
     turns = ts, clock = 0\<rparr>"

definition demo_request :: PlayerHandoffRequest where
  "demo_request = \<lparr>ph_ParentCellId = ''root'', ph_ChildCellId = ''cell_1_0_0'', ph_PlayerId = ''ann'',
     ph_HandoffToken = ''tok'', ph_Reason = []\<rparr>"

lemma demo_request: "proper_request demo_request" "ph_PlayerId demo_request = ''ann''"
    "ph_HandoffToken demo_request = ''tok''" "ph_ParentCellId demo_request = ''root''"
    "ph_ChildCellId demo_request = ''cell_1_0_0''"
  by (simp_all add: proper_request_def demo_request_def trimmedI ascii_graph_def)

lemma demo_dial:
  "i \<in> {''root'', ''cell_1_0_0''} \<Longrightarrow> fst (dialCellClient demo_env i (demo_grid ts)) = Inr (demo_cell i)"
  by (auto simp: dialCellClient_def demo_env_def demo_grid_def MemoryCatalog_def MemoryCatalog_List_def List_def
      FindCellByID_def demo_cell_def give_def)

lemma demo_joined_inv: "server_inv demo_joined"
  using Join_inv[OF server_inv_new[OF world_inv_NewRuntime] _ demo_join[unfolded demo_server_def]] room_NewRuntime
  by (simp add: has_room_def new_server_def)

lemma demo_ready:
  "handoff_ready (demo_grid ts) ''root'' demo_joined ''cell_1_0_0'' (new_server ''cell_1_0_0'' None 1 NewRuntime)
     ''ann'' ''tok''"
  using demo_joined_inv server_inv_new[OF world_inv_NewRuntime] room_NewRuntime
  by (simp add: handoff_ready_def demo_grid_def has_room_def) (simp add: new_server_def)

abbreviation demo_child :: Server where
  "demo_child \<equiv> new_server ''cell_1_0_0'' None 1 NewRuntime"

lemma demo_handoff:
  "fst (dialCellClient demo_env (ph_ParentCellId demo_request) (demo_grid ts)) = Inr (demo_cell ''root'')"
  "fst (dialCellClient demo_env (ph_ChildCellId demo_request) (demo_grid ts)) = Inr (demo_cell ''cell_1_0_0'')"
  "handoff_ready (demo_grid ts) (cs_GrpcEndpoint (demo_cell ''root'')) demo_joined
      (cs_GrpcEndpoint (demo_cell ''cell_1_0_0'')) demo_child (ph_PlayerId demo_request) (ph_HandoffToken demo_request)"
  "turns (demo_grid ts) = ts" "cs_GrpcEndpoint (demo_cell i) = i"
proof -
  have ep: "cs_GrpcEndpoint (demo_cell i) = i" for i by (simp add: demo_cell_def)
  show "fst (dialCellClient demo_env (ph_ParentCellId demo_request) (demo_grid ts)) = Inr (demo_cell ''root'')"
      "fst (dialCellClient demo_env (ph_ChildCellId demo_request) (demo_grid ts)) = Inr (demo_cell ''cell_1_0_0'')"
    using demo_dial by (simp_all only: demo_request insert_iff simp_thms)
  show "handoff_ready (demo_grid ts) (cs_GrpcEndpoint (demo_cell ''root'')) demo_joined
      (cs_GrpcEndpoint (demo_cell ''cell_1_0_0'')) demo_child (ph_PlayerId demo_request) (ph_HandoffToken demo_request)"
    using demo_ready by (simp only: demo_request ep)
  show "turns (demo_grid ts) = ts" by (simp add: demo_grid_def)
  show "cs_GrpcEndpoint (demo_cell i) = i" by (rule ep)
qed


text \<open>
  C17: What a lost call does to a handoff. Of the three calls (prepare, accept, finalize) any may be
  lost or executed without an answer. In every case the player is at one of the cells; he is at the
  first cell unless finalize was executed, at the second once accept was executed. So a lost answer
  of accept or a lost finalize leaves him at both cells, frozen at the first; nothing undoes the
  accept.
\<close>

theorem ForwardPlayerHandoff_fates:
  assumes "proper_request req" "fst (dialCellClient env (ph_ParentCellId req) g) = Inr ps"
    and "fst (dialCellClient env (ph_ChildCellId req) g) = Inr cs"
    and "handoff_ready g (cs_GrpcEndpoint ps) sp (cs_GrpcEndpoint cs) sc (ph_PlayerId req) (ph_HandoffToken req)"
    and "turns g = [still prepare, still accept, still finalize]" "p = ph_PlayerId req"
    and "ForwardPlayerHandoff env (Some req) g = (res, g')"
  shows "\<exists>sp' sc'. servers g' = (servers g)(cs_GrpcEndpoint ps \<mapsto> sp', cs_GrpcEndpoint cs \<mapsto> sc') \<and>
    (p \<in> dom (playerByID sp') \<longleftrightarrow> \<not> (prepare = Delivered \<and> accept = Delivered \<and> finalize \<noteq> Dropped)) \<and>
    (p \<in> dom (playerByID sc') \<longleftrightarrow> prepare = Delivered \<and> accept \<noteq> Dropped) \<and>
    (p \<in> dom (playerByID sp') \<and> prepare \<noteq> Dropped \<longrightarrow> p \<in> frozenByID sp') \<and>
    ((\<exists>resp. res = Inr resp) \<longleftrightarrow> prepare = Delivered \<and> accept = Delivered \<and> finalize = Delivered) \<and>
    server_inv sp' \<and> server_inv sc'"
proof -
  note n = proper_requestD[OF assms(1), folded assms(6)] and r4 = assms(4)[folded assms(6)]
  have ready: "servers g (cs_GrpcEndpoint ps) = Some sp" "servers g (cs_GrpcEndpoint cs) = Some sc"
      "cs_GrpcEndpoint ps \<noteq> cs_GrpcEndpoint cs" "p \<in> dom (playerByID sp)" "playerByID sc p = None"
      "server_inv sp" "server_inv sc"
    using r4 by (simp_all add: handoff_ready_def)
  let ?tok = "ph_HandoffToken req" and ?child = "ph_ChildCellId req"
  let ?now = "clock g" and ?order = "visit_prepared env sp"
  show ?thesis
  proof (rule handoff_calls[OF r4 n(3,4,2) n(7,8,6), of "\<lambda>pl. pl\<lparr>hs_SourceCellId := cs_Id ps,
      hs_TargetCellId := cs_Id cs, hs_HandoffToken := ?tok\<rparr>" "cs_Id cs" "cs_Id ps" ?order ?now ?now ?now], goal_cases)
    case (2 prep sp1 acc sc1 fin sp2 pos ov oh)
    note c = this
    obtain pl where pl: "pr_Payload prep = Some pl" using c(3) by auto
    have at: "p \<in> dom (playerByID sc1)" using c(17) by (auto simp: player_at_def split: option.splits)
    define calls where "calls = player_handoff_calls env ps cs ?child p ?tok g"
    have res: "calls = (res, g')"
      using assms(7) ForwardPlayerHandoff_dialled[OF assms(1-3)] by (simp add: calls_def assms(6))
    let ?sp = "if prepare = Dropped then sp else if prepare = ReplyLost \<or> accept \<noteq> Delivered \<or> finalize = Dropped then sp1 else sp2"
    let ?sc = "if prepare = Delivered \<and> accept \<noteq> Dropped then sc1 else sc"
    have "servers (snd calls) = (servers g)(cs_GrpcEndpoint ps \<mapsto> ?sp, cs_GrpcEndpoint cs \<mapsto> ?sc) \<and>
      ((\<exists>resp. fst calls = Inr resp) \<longleftrightarrow> prepare = Delivered \<and> accept = Delivered \<and> finalize = Delivered)"
      using ready c(1,2,4-8) assms(5) pl unfolding calls_def
      by (cases prepare; cases accept; cases finalize)
        (simp_all add: player_handoff_calls_def andThen_def Let_def call_still give_def fun_upd_twist fun_upd_idem)
    moreover have "p \<in> dom (playerByID sp1)" "p \<notin> dom (playerByID sp2)" "p \<notin> dom (playerByID sc)"
      using c(9,14) ready(4,5) by (simp_all add: domIff)
    ultimately show ?thesis
      unfolding res using c(10-13) ready(4,6,7) at
      by (intro exI[of _ ?sp] exI[of _ ?sc] conjI; cases prepare; cases accept; cases finalize) simp_all
  qed simp
qed

theorem ForwardPlayerHandoff_fates_witness:
  "\<exists>sp' sc'. servers (snd (ForwardPlayerHandoff demo_env (Some demo_request)
      (demo_grid [still Delivered, still Delivered, still Dropped]))) =
    (servers (demo_grid [still Delivered, still Delivered, still Dropped]))(''root'' \<mapsto> sp', ''cell_1_0_0'' \<mapsto> sc') \<and>
    ''ann'' \<in> dom (playerByID sp') \<and> ''ann'' \<in> dom (playerByID sc')"
  using ForwardPlayerHandoff_fates[where prepare = Delivered and accept = Delivered and finalize = Dropped,
      OF demo_request(1) demo_handoff(1-4) demo_request(2)[symmetric] prod.collapse[symmetric]]
  unfolding demo_handoff(5) by (elim exE conjE) (intro exI conjI, assumption, simp_all)

section \<open>NPCs are copied\<close>

text \<open>A call that leaves the server as it is, and a forwarded update, without a schedule.\<close>

lemma forward_quiet:
  assumes "fst (dialCellClient env i g) = Inr spec" "i \<noteq> []" "turns g = []" "servers g (cs_GrpcEndpoint spec) = Some s"
    and "Update (js env) (visit_live env s) (Some upd) s = (r, s')"
  shows "doForwardCellUpdate env i (Some upd) g = (Inr r, g\<lparr>servers := (servers g)(cs_GrpcEndpoint spec \<mapsto> s')\<rparr>)"
  using dialled[OF assms(1)] assms(2-5) by (simp add: doForwardCellUpdate_def andThen_def call_quiet)

lemma forward_quiet_same:
  assumes "fst (dialCellClient env i g) = Inr spec" "i \<noteq> []" "turns g = []" "servers g (cs_GrpcEndpoint spec) = Some s"
    and "Update (js env) (visit_live env s) (Some upd) s = (r, s)"
  shows "doForwardCellUpdate env i (Some upd) g = (Inr r, g)"
  using forward_quiet[OF assms] assms(4) by (simp add: fun_upd_idem)

lemma saved_count:
  assumes "visits ord (alive (world r))"
  shows "length (Entities (Encode ord (Some r) (Some skip))) = card (saved (world r) skip)"
proof -
  let ?ents = "List.map_filter (encode_entity (world r) (Some skip)) ord"
  have "pe_EntityId ` set ?ents = saved (world r) skip"
    unfolding map_filter_ids encode_entity_saved saved_def visits_set[OF assms] ..
  moreover have "distinct (map pe_EntityId ?ents)"
    using map_filter_keyed[OF visits_distinct[OF assms]] by blast
  ultimately show ?thesis
    using distinct_card[of "map pe_EntityId ?ents"] by (simp add: Encode_def)
qed

text \<open>
  Forwarding NPCs copies them, and only into a cell without players. The parent keeps its world.
  With a player at the child the import is refused and no cell changes; otherwise the child's old
  world is replaced by the \<open>float32\<close> image of the parent's entities that are not players'. The texts
  the two cells exchange are assumed to survive \<open>protojson\<close>.
\<close>

theorem ForwardNpcHandoff_copies:
  assumes "nh_ParentCellId req \<noteq> []" "nh_ChildCellId req \<noteq> []" "nh_ParentCellId req \<noteq> nh_ChildCellId req"
    and "fst (dialCellClient env (nh_ParentCellId req) g) = Inr ps" "fst (dialCellClient env (nh_ChildCellId req) g) = Inr cs"
    and "cs_GrpcEndpoint ps \<noteq> cs_GrpcEndpoint cs" "turns g = []"
    and "servers g (cs_GrpcEndpoint ps) = Some sp" "servers g (cs_GrpcEndpoint cs) = Some sc"
    and "Sim sp = Some r" "world_inv (world r)" "visits (visit_live env sp) (alive (world r))"
    and "Sim sc = Some rc" "world_inv (world rc)" "visits (visit_live env sc) (alive (world rc))"
    and "persist = Encode (visit_live env sp) (Some r) (Some (isPlayer sp))"
    and "Marshal (js env) persist = Inr raw" "raw \<noteq> []" "TrimSpace raw = raw" "Unmarshal (js env) raw = Inr persist"
    and "ForwardNpcHandoff env (Some req) g = (res, g')"
  shows "if PlayerCount sc > 0
    then (\<exists>m. res = Inl (Status FailedPrecondition m)) \<and> servers g' = servers g
    else (\<exists>resp rc'. res = Inr resp \<and> nr_NpcEntityCount resp = to_int32 (int (card (saved (world r) (isPlayer sp)))) \<and>
      servers g' = (servers g)(cs_GrpcEndpoint cs \<mapsto> sc\<lparr>Sim := Some rc'\<rparr>) \<and>
      image_of (world r) (isPlayer sp) (world rc'))"
proof -
  let ?reason = "if nh_Reason req = [] then ''ForwardNpcHandoff'' else nh_Reason req"
  obtain expResp where exp: "Update (js env) (visit_live env sp) (Some (Some (ExportNpcPersist (Some ?reason)))) sp = (expResp, sp)"
      "ur_Ok expResp" "ur_NpcExportJson expResp = raw"
    using assms(10,16,17) by (simp add: Update_def update_export_def)
  have parent: "doForwardCellUpdate env (nh_ParentCellId req) (Some (Some (ExportNpcPersist (Some ?reason)))) g = (Inr expResp, g)"
    using forward_quiet_same[OF assms(4,1,7,8)] exp(1) by blast
  let ?imp = "Some (ImportNpcPersist (Some (raw, ?reason @ ''/import'')))"
  obtain rc' where rc': "Decode (visit_live env sc) (Some persist) (Some rc) = Inr rc'" "image_of (world r) (isPlayer sp) (world rc')"
    using Decode_image[OF assms(11,12,14,15), of "isPlayer sp"] assms(16) by auto
  show ?thesis
  proof (cases "PlayerCount sc > 0")
    case True
    obtain m where "Update (js env) (visit_live env sc) (Some ?imp) sc = (update_failed m, sc)"
      using True assms(13) by (simp add: Update_def update_import_def)
    from forward_quiet_same[OF assms(5,2,7,9) this] True assms(1-3,18,20,21) parent exp(2,3) show ?thesis
      by (auto simp: ForwardNpcHandoff_def andThen_def fail_def Let_def)
  next
    case False
    obtain m where "Update (js env) (visit_live env sc) (Some ?imp) sc = (update_ok m, sc\<lparr>Sim := Some rc'\<rparr>)"
      using False assms(13,18-20) rc'(1) by (simp add: Update_def update_import_def)
    from forward_quiet[OF assms(5,2,7,9) this] False assms(1-3,18,20,21) parent exp(2,3) rc'(2)
    show ?thesis
      using saved_count[OF assms(12), of "isPlayer sp"]
      by (auto simp: ForwardNpcHandoff_def andThen_def give_def Let_def assms(16))
  qed
qed

theorem ForwardNpcHandoff_copies_witness:
  "\<exists>resp. fst (ForwardNpcHandoff demo_env (Some \<lparr>nh_ParentCellId = ''root'', nh_ChildCellId = ''cell_1_0_0'', nh_Reason = []\<rparr>)
      (demo_grid [])) = Inr resp \<and> nr_NpcEntityCount resp = 0"
proof -
  let ?req = "\<lparr>nh_ParentCellId = ''root'', nh_ChildCellId = ''cell_1_0_0'', nh_Reason = []\<rparr>"
  obtain r where r: "Sim demo_joined = Some r" "alive (world r) = {1}" "loop r = loop NewRuntime"
    by (simp add: demo_joined_def demo_server_def new_server_def Server_Join_def join_check_def join_spawn_def
      spawn_player_def NewRuntime_def NewWorld_def CreateEntity_def Let_def join_register_def world_defs)
  have pl: "isPlayer demo_joined 1" "\<not> isPlayer demo_child 1" "PlayerCount demo_child = 0"
    by (simp_all add: isPlayer_def new_server_def PlayerCount_def)
  have d: "fst (dialCellClient demo_env (nh_ParentCellId ?req) (demo_grid [])) = Inr (demo_cell ''root'')"
    "fst (dialCellClient demo_env (nh_ChildCellId ?req) (demo_grid [])) = Inr (demo_cell ''cell_1_0_0'')"
    using demo_handoff(1,2) by (simp_all add: demo_request)
  have s: "servers (demo_grid []) (cs_GrpcEndpoint (demo_cell ''root'')) = Some demo_joined"
    "servers (demo_grid []) (cs_GrpcEndpoint (demo_cell ''cell_1_0_0'')) = Some demo_child"
    using demo_ready[of "[]"] by (simp_all add: handoff_ready_def demo_cell_def)
  have w: "world_inv (world r)" using server_invD(2)[OF demo_joined_inv] r(1) by (simp add: sim_inv_def)
  have saved: "saved (world r) (isPlayer demo_joined) = {}" using pl(1) r(2) by (auto simp: saved_def)
  have persist: "demo_persist = Encode (visit_live demo_env demo_joined) (Some r) (Some (isPlayer demo_joined))"
    using pl(1) r(3) by (simp add: Encode_def demo_env_def demo_persist_def schemaVersion_def encode_entity_def
        List.map_filter_simps NewRuntime_def NewGameLoop_def defaultTPS_def)
  have js: "Marshal (js demo_env) demo_persist = Inr ''{}''" "''{}'' \<noteq> []" "TrimSpace ''{}'' = ''{}''"
      "Unmarshal (js demo_env) ''{}'' = Inr demo_persist"
    by (simp_all add: demo_env_def demo_json_def TrimSpace_trimmed trimmedI ascii_graph_def)
  have v: "visits (visit_live demo_env demo_joined) (alive (world r))"
      "visits (visit_live demo_env demo_child) (alive (world NewRuntime))" "Sim demo_child = Some NewRuntime"
    using pl r(2) by (simp_all add: demo_env_def visits_def NewRuntime_def NewWorld_def) (simp add: new_server_def)
  have n: "nh_ParentCellId ?req \<noteq> []" "nh_ChildCellId ?req \<noteq> []" "nh_ParentCellId ?req \<noteq> nh_ChildCellId ?req"
      "cs_GrpcEndpoint (demo_cell ''root'') \<noteq> cs_GrpcEndpoint (demo_cell ''cell_1_0_0'')"
    by (simp_all add: demo_cell_def)
  note copies = ForwardNpcHandoff_copies[OF n(1-3) d n(4) demo_handoff(4) s r(1) w v(1,3) world_inv_NewRuntime v(2)
      persist js prod.collapse[symmetric]]
  then show ?thesis unfolding pl(3) saved by (auto simp: to_int32_id is_int32_def)
qed

section \<open>Registration through the server\<close>

text \<open>
  What is registered can be dialled. After \<open>Registry.Register\<close> has answered \<open>ok\<close> over the
  in-memory catalog, forwarding to the cell's name reaches exactly the registered endpoint, every
  other name is dialled as before, and a refused registration changes nothing.
\<close>

theorem Register_then_dial:
  assumes "registry_inv (reg g)" "catalog_of env = Some (MemoryCatalog order)"
    and "Registry_Register (MemoryCatalog order) ocell g = (resp, g')"
    and "visits (order (reg g)) (dom (cells (reg g)))" "visits (order (reg g')) (dom (cells (reg g')))"
  shows "registry_inv (reg g') \<and> (\<not> rr_Ok resp \<longrightarrow> g' = g) \<and>
    (rr_Ok resp \<longrightarrow> (\<exists>c. ocell = Some c \<and>
      (cs_GrpcEndpoint c \<noteq> [] \<and> dial_error env (cs_GrpcEndpoint c) = None \<longrightarrow> fst (dialCellClient env (cs_Id c) g') = Inr c) \<and>
      (\<forall>i. i \<noteq> cs_Id c \<longrightarrow> fst (dialCellClient env i g') = fst (dialCellClient env i g))))"
proof (cases "rr_Ok resp")
  case False
  with assms(1,3) show ?thesis
    by (auto simp: Registry_Register_def split: option.splits sum.splits)
next
  case True
  then obtain c where oc: "ocell = Some c" using assms(3) by (cases ocell) (auto simp: Registry_Register_def)
  then obtain m where c: "MemoryCatalog_RegisterCell (reg g) (Some c) = Inr m" "g' = g\<lparr>reg := m\<rparr>"
    using assms(3) True
    by (cases "MemoryCatalog_RegisterCell (reg g) (Some c)") (auto simp: Registry_Register_def MemoryCatalog_def)
  have inv: "registry_inv m" using mem.inv_register[OF assms(1) c(1)] .
  have ent: "cells m = (cells (reg g))(cs_Id c \<mapsto> c)" using mem.entries_register[OF assms(1) c(1)] .
  have old: "FindCellByID (MemoryCatalog_List (order (reg g)) (reg g)) i = Inr (cells (reg g) i, cells (reg g) i \<noteq> None)" for i
    using mem.find_entry[OF assms(1,4)] .
  have new: "FindCellByID (MemoryCatalog_List (order m) m) i = Inr (cells m i, cells m i \<noteq> None)" for i
    using mem.find_entry[OF inv] assms(5) c(2) by simp
  have find: "FindCellByID (ListAll (MemoryCatalog order) m') i =
      map_sum error_text id (FindCellByID (MemoryCatalog_List (order m') m') i)" for m' i
    by (auto simp: MemoryCatalog_def FindCellByID_def split: sum.splits)
  show ?thesis
    using True oc inv by (auto simp: c(2) dialCellClient_def assms(2) find old new ent fail_def give_def split: option.splits)
qed

theorem Register_then_dial_witness:
  "fst (dialCellClient demo_env ''root'' (snd (Registry_Register (MemoryCatalog (\<lambda>m. [''root'', ''cell_1_0_0'']))
     (Some (demo_cell ''root'')) (demo_grid [])))) = Inr (demo_cell ''root'')"
proof -
  have "visits [''root'', ''cell_1_0_0''] {''root'', ''cell_1_0_0''}" by (simp add: visits_def)
  moreover have "registry_inv (reg (demo_grid []))"
    by (simp add: demo_grid_def registry_inv_def proper_spec_def proper_bounds_def demo_cell_def)
  moreover have "Registry_Register (MemoryCatalog (\<lambda>m. [''root'', ''cell_1_0_0''])) (Some (demo_cell ''root'')) (demo_grid []) =
     (\<lparr>rr_Ok = True, rr_ErrorMessage = []\<rparr>, demo_grid [])"
    by (simp add: Registry_Register_def MemoryCatalog_def MemoryCatalog_RegisterCell_def Register_def demo_grid_def
        demo_cell_def fun_upd_idem fun_upd_twist)
  moreover have "dom (cells (reg (demo_grid []))) = {''root'', ''cell_1_0_0''}" by (auto simp: demo_grid_def)
  ultimately show ?thesis
    using Register_then_dial[of "demo_grid []" demo_env "\<lambda>m. [''root'', ''cell_1_0_0'']" "Some (demo_cell ''root'')"]
    by (simp add: demo_env_def demo_cell_def)
qed

section \<open>What remote calls keep, workflows keep\<close>

text \<open>
  The interface between the transport and the workflows: \<open>I\<close> is a predicate on grids that is kept
  by a turn of the schedule and by whatever a handler makes of one server. Every operation built
  from remote calls keeps it too.
\<close>

locale kept =
  fixes I :: "('c, 'z) Grid_scheme \<Rightarrow> bool"
  assumes kept_turn: "I g \<Longrightarrow> I (snd (next_turn g))"
    and kept_server: "I g \<Longrightarrow> servers g ep = Some s \<Longrightarrow> I (g\<lparr>servers := (servers g)(ep \<mapsto> s')\<rparr>)"
begin

lemma kept_call: "keeps I (call ep handler)"
proof (rule keepsI)
  fix g assume "I g"
  obtain ft g1 where g1: "next_turn g = (ft, g1)" by fastforce
  have "I g1" using kept_turn[OF \<open>I g\<close>] g1 by simp
  then show "I (snd (call ep handler g))"
    using kept_server[of g1 ep] g1
    by (auto simp: call_def Let_def split: option.splits prod.splits fate.splits)
qed

lemma kept_update: "keeps I (doForwardCellUpdate env cellID upd)"
  by (auto simp: doForwardCellUpdate_def intro!: keeps_andThen kept_call)

lemma kept_npc: "keeps I (ForwardNpcHandoff env oreq)"
  by (auto simp: ForwardNpcHandoff_def Let_def intro!: keeps_andThen kept_update split: option.splits sum.splits)

lemma kept_player: "keeps I (ForwardPlayerHandoff env oreq)"
  by (auto simp: ForwardPlayerHandoff_def player_handoff_calls_def Let_def intro!: keeps_andThen kept_call split: option.splits)

lemmas kept_ops = kept_call kept_update kept_npc kept_player

end

text \<open>
  While nobody else acts, the catalog stays as it is. A schedule once exhausted stays exhausted, and
  no reachable cell disappears.
\<close>

definition undisturbed :: "'c \<Rightarrow> ('c, 'z) Grid_scheme \<Rightarrow> bool" where
  "undisturbed c g \<longleftrightarrow> reg g = c \<and> (\<forall>t \<in> set (turns g). t_others t = id)"

interpretation calm: kept "undisturbed c" for c :: 'c
  by unfold_locales (auto simp: undisturbed_def next_turn_def Let_def split: list.splits prod.splits)

definition quiet :: "'c \<Rightarrow> string set \<Rightarrow> ('c, 'z) Grid_scheme \<Rightarrow> bool" where
  "quiet c up g \<longleftrightarrow> reg g = c \<and> turns g = [] \<and> dom (servers g) = up"

interpretation quiet: kept "quiet c up" for c :: 'c and up
  by unfold_locales (auto simp: quiet_def next_turn_def Let_def split: list.splits prod.splits)

end
