(* ===== verification/Merge_Handoff.thy ===== *)
theory Merge_Handoff
  imports Registry_Server
begin

text \<open>
  Merging four children into their parent (\<open>src/internal/grpc/registrysvc/forward_merge.go\<close> and the
  merge lock of \<open>server.go\<close>). The grid is extended by the merges in flight, the events published
  and the automation state kept in Redis.
\<close>

section \<open>The grid of a merge\<close>

text \<open>\<open>Said\<close> is a composed message, \<open>ErrorText\<close> the text of an error.\<close>

datatype event_message = Said "msg list" | ErrorText call_error

record MergeEvent =
  me_ParentCellID :: string
  me_Stage :: string
  me_Message :: event_message
  me_ChildCellID :: string
  me_AtUnixMs :: int
  me_Successful :: bool

text \<open>The map \<open>state\<close> that \<open>saveMergeAutomationState\<close> writes.\<close>

record MergeState =
  ms_phase :: string
  ms_parent_cell_id :: string
  ms_removed_children :: "string list"
  ms_topology_switched :: bool
  ms_runtime_teardown_queued :: bool
  ms_player_handoff_enabled :: bool
  ms_player_handoff_count :: int
  ms_at_unix_ms :: int

record 'c MergeGrid = "'c Grid" +
  mergeInFlight :: "string set"
  mergeEvents :: "MergeEvent list"
  mergeStates :: "string \<rightharpoonup> MergeState"

text \<open>
  The process environment, whether a NATS client is connected, and Redis: what \<open>SET\<close> of a key does
  to the store and the error it answers.
\<close>

record 'c merge_env = "'c env" +
  getenv :: "string \<Rightarrow> string"
  natsConnected :: bool
  redisSet :: "string \<Rightarrow> MergeState \<Rightarrow> (string \<rightharpoonup> MergeState) \<Rightarrow> string option \<times> (string \<rightharpoonup> MergeState)"

definition unix_ms :: "int \<Rightarrow> int" where
  "unix_ms ns = ns div 1000000"

definition publishMergeWorkflowEvent :: "('c, 'y) merge_env_scheme \<Rightarrow> MergeEvent \<Rightarrow>
    ('c, 'z) MergeGrid_scheme \<Rightarrow> ('c, 'z) MergeGrid_scheme" where
  "publishMergeWorkflowEvent env evt g =
     (if \<not> natsConnected env then g else g\<lparr>mergeEvents := mergeEvents g @ [evt]\<rparr>)"

text \<open>An event stamped with the time it is published.\<close>

definition merge_event :: "('c, 'y) merge_env_scheme \<Rightarrow> string \<Rightarrow> string \<Rightarrow> string \<Rightarrow> event_message \<Rightarrow> bool \<Rightarrow>
    ('c, 'z) MergeGrid_scheme \<Rightarrow> ('c, 'z) MergeGrid_scheme" where
  "merge_event env parentID child stage m successful g =
     publishMergeWorkflowEvent env \<lparr>me_ParentCellID = parentID, me_Stage = stage, me_Message = m,
       me_ChildCellID = child, me_AtUnixMs = unix_ms (clock g), me_Successful = successful\<rparr> g"

text \<open>Returning an error after publishing it as \<open>failed\<close> or another stage.\<close>

definition fail_event :: "('c, 'y) merge_env_scheme \<Rightarrow> string \<Rightarrow> string \<Rightarrow> string \<Rightarrow> call_error \<Rightarrow>
    ('a, ('c, 'z) MergeGrid_scheme) op" where
  "fail_event env parentID child stage e g = fail e (merge_event env parentID child stage (ErrorText e) False g)"

text \<open>An operation whose error is published before it is returned.\<close>

definition reporting :: "('c, 'y) merge_env_scheme \<Rightarrow> string \<Rightarrow> string \<Rightarrow> ('a, ('c, 'z) MergeGrid_scheme) op \<Rightarrow>
    ('a, ('c, 'z) MergeGrid_scheme) op" where
  "reporting env parentID child m g =
     (case m g of (Inl e, g') \<Rightarrow> fail_event env parentID child ''failed'' e g' | (Inr x, g') \<Rightarrow> (Inr x, g'))"

text \<open>A statement between two calls, and a deferred one: it runs after the operation, whatever its result.\<close>

definition doing :: "('g \<Rightarrow> 'g) \<Rightarrow> ('a, 'g) op \<Rightarrow> ('a, 'g) op" where
  "doing f m g = m (f g)"

definition deferring :: "('g \<Rightarrow> 'g) \<Rightarrow> ('a, 'g) op \<Rightarrow> ('a, 'g) op" where
  "deferring f m g = (case m g of (res, g') \<Rightarrow> (res, f g'))"

section \<open>The merge lock\<close>

definition tryAcquireMerge :: "string \<Rightarrow> string set \<Rightarrow> bool \<times> string set" where
  "tryAcquireMerge parentCellID flight =
     (let p = TrimSpace parentCellID
      in if p = [] then (False, flight)
         else if p \<in> flight then (False, flight)
         else (True, insert p flight))"

definition releaseMerge :: "string \<Rightarrow> string set \<Rightarrow> string set" where
  "releaseMerge parentCellID flight =
     (let p = TrimSpace parentCellID in if p = [] then flight else flight - {p})"

section \<open>Names and settings\<close>

fun unique_ids :: "string list \<Rightarrow> string set \<Rightarrow> string list" where
  "unique_ids [] seen = []"
| "unique_ids (raw # rest) seen =
     (let i = TrimSpace raw
      in if i = [] then unique_ids rest seen
         else if i \<in> seen then unique_ids rest seen
         else i # unique_ids rest (insert i seen))"

definition uniqueCellIDs :: "string list \<Rightarrow> string list" where
  "uniqueCellIDs ids = unique_ids ids {}"

text \<open>
  \<open>strings.EqualFold\<close> against a lower-case ASCII word without the letter k: besides the capitals,
  only U+017F folds to one of its letters, the s.
\<close>

fun EqualFold :: "string \<Rightarrow> string \<Rightarrow> bool" where
  "EqualFold [] t = (t = [])"
| "EqualFold (c # s) [] = False"
| "EqualFold (c # s) (d # t) =
     (if c = d \<or> (of_char c :: nat) + 32 = of_char d \<and> 97 \<le> (of_char d :: nat) \<and> (of_char d :: nat) \<le> 122 then EqualFold s t
      else if d = CHR ''s'' \<and> c = CHR 0xC5 \<and> s \<noteq> [] \<and> hd s = CHR 0xBF then EqualFold (tl s) t
      else False)"

text \<open>\<open>mergePlayerHandoffEnabled\<close>, and \<open>envBool\<close> of the grid manager with the same body.\<close>

definition envBool :: "(string \<Rightarrow> string) \<Rightarrow> string \<Rightarrow> bool" where
  "envBool lookup name =
     (let s = TrimSpace (lookup name) in EqualFold s ''1'' \<or> EqualFold s ''true'' \<or> EqualFold s ''yes'')"

definition mergePlayerHandoffEnabled :: "(string \<Rightarrow> string) \<Rightarrow> bool" where
  "mergePlayerHandoffEnabled lookup =
     (let raw = TrimSpace (lookup ''MMO_GRID_MERGE_PLAYER_HANDOFF'')
      in EqualFold raw ''1'' \<or> EqualFold raw ''true'' \<or> EqualFold raw ''yes'')"

definition mergePlayerHandoffMaxPlayers :: "(string \<Rightarrow> string) \<Rightarrow> int" where
  "mergePlayerHandoffMaxPlayers lookup =
     (let raw = TrimSpace (lookup ''MMO_GRID_MERGE_PLAYER_HANDOFF_MAX_PLAYERS'')
      in if raw = [] then 32
         else (case Atoi raw of None \<Rightarrow> 32 | Some n \<Rightarrow> if n \<le> 0 then 32 else n))"

section \<open>Asking the cells\<close>

definition pingPlayerCount :: "('c, 'y) env_scheme \<Rightarrow> 'c Catalog \<Rightarrow> string \<Rightarrow> (int32, ('c, 'z) Grid_scheme) op" where
  "pingPlayerCount env cat cellID g =
     (case FindCellByID (ListAll cat (reg g)) cellID of
        Inl err \<Rightarrow> fail (Status Unavailable [Text err]) g
      | Inr (Some spec, True) \<Rightarrow>
          if TrimSpace (cs_GrpcEndpoint spec) = []
          then fail (Status NotFound [Text (''cell not found or endpoint empty: '' @ cellID)]) g
          else (case dial_error env (cs_GrpcEndpoint spec) of
                  Some err \<Rightarrow> fail (Status Unavailable [Text (''dial '' @ cellID @ '': '' @ err)]) g
                | None \<Rightarrow> andThen (call (cs_GrpcEndpoint spec) (\<lambda>now s. (Ping (unix_ms now) s, s)))
                    (\<lambda>res. give (ping_PlayerCount res)) g)
      | Inr _ \<Rightarrow> fail (Status NotFound [Text (''cell not found or endpoint empty: '' @ cellID)]) g)"

text \<open>A candidate is the name of a player with the name of the child he is at.\<close>

definition player_candidates :: "string \<Rightarrow> MigrationCandidate list \<Rightarrow> (string \<times> string) list" where
  "player_candidates childID listed =
     List.map_filter (\<lambda>c. if \<not> mc_IsPlayer c then None
       else let pid = TrimSpace (mc_PlayerId c) in if pid = [] then None else Some (childID, pid)) listed"

definition listMergePlayerCandidates :: "('c, 'y) env_scheme \<Rightarrow> string \<Rightarrow>
    ((string \<times> string) list, ('c, 'z) Grid_scheme) op" where
  "listMergePlayerCandidates env childID =
     andThen (dialCellClient env childID) (\<lambda>spec.
     andThen (call (cs_GrpcEndpoint spec) (\<lambda>now s. (ListMigrationCandidates (visit_live env s) (visit_names env s) s, s)))
       (\<lambda>resp. give (player_candidates childID resp)))"

fun collect_candidates :: "('c, 'y) env_scheme \<Rightarrow> string list \<Rightarrow> ((string \<times> string) list, ('c, 'z) Grid_scheme) op" where
  "collect_candidates env [] = give []"
| "collect_candidates env (childID # rest) =
     andThen (listMergePlayerCandidates env childID) (\<lambda>cands.
     andThen (collect_candidates env rest) (\<lambda>more. give (cands @ more)))"

definition merge_request :: "string \<Rightarrow> string \<Rightarrow> string \<times> string \<Rightarrow> int \<Rightarrow> PlayerHandoffRequest" where
  "merge_request parentID reason c now =
     \<lparr>ph_ParentCellId = fst c, ph_ChildCellId = parentID, ph_PlayerId = snd c,
      ph_HandoffToken = ''merge:'' @ fst c @ '':'' @ snd c @ '':'' @ Itoa now,
      ph_Reason = reason @ ''/player_handoff/'' @ fst c\<rparr>"

fun hand_off_players :: "('c, 'y) merge_env_scheme \<Rightarrow> string \<Rightarrow> string \<Rightarrow> (string \<times> string) list \<Rightarrow>
    (unit, ('c, 'z) MergeGrid_scheme) op" where
  "hand_off_players env parentID reason [] g = give () g"
| "hand_off_players env parentID reason (c # cs) g =
     (case ForwardPlayerHandoff env (Some (merge_request parentID reason c (clock g))) g of
        (Inl e, g') \<Rightarrow> fail_event env parentID (fst c) ''player_handoff_failed'' e g'
      | (Inr _, g') \<Rightarrow> hand_off_players env parentID reason cs g')"

definition runMergePlayerHandoffs :: "('c, 'y) merge_env_scheme \<Rightarrow> string \<Rightarrow> string list \<Rightarrow> string \<Rightarrow>
    (int, ('c, 'z) MergeGrid_scheme) op" where
  "runMergePlayerHandoffs env parentID childIDs reason =
     andThen (collect_candidates env childIDs) (\<lambda>candidates.
       if candidates = [] then give 0
       else (let n = int (length candidates)
             in doing (merge_event env parentID [] ''player_handoffs_running''
                  (Said [Text (''player handoffs started: '' @ Itoa n)]) False)
                (andThen (hand_off_players env parentID reason candidates) (\<lambda>_.
                  doing (merge_event env parentID [] ''player_handoffs_done''
                    (Said [Text (''player handoffs completed: '' @ Itoa n)]) True) (give n)))))"

definition saveMergeAutomationState :: "('c, 'y) merge_env_scheme \<Rightarrow> string \<Rightarrow> string list \<Rightarrow> int \<Rightarrow> bool \<Rightarrow>
    (unit, ('c, 'z) MergeGrid_scheme) op" where
  "saveMergeAutomationState env parentID childIDs movedPlayers handoffEnabled g =
     (if TrimSpace (getenv env ''REDIS_ADDR'') = [] then give () g
      else (let st = \<lparr>ms_phase = ''automation_complete'', ms_parent_cell_id = parentID,
                  ms_removed_children = childIDs, ms_topology_switched = True, ms_runtime_teardown_queued = True,
                  ms_player_handoff_enabled = handoffEnabled, ms_player_handoff_count = movedPlayers,
                  ms_at_unix_ms = unix_ms (clock g)\<rparr>;
                (err, store) = redisSet env (''mmo:grid:merge:state:'' @ TrimSpace parentID) st (mergeStates g);
                g' = g\<lparr>mergeStates := store\<rparr>
            in case err of
                 Some e \<Rightarrow> fail (Status Unavailable [Text (''redis merge state: '' @ e)]) g'
               | None \<Rightarrow> give () g'))"

section \<open>The merge\<close>

record MergeHandoffRequest =
  mh_ParentCellId :: string
  mh_ChildCellIds :: "string list"
  mh_Reason :: string

record MergeHandoffResponse =
  mhr_Message :: string
  mhr_ChildCount :: int32
  mhr_NpcEntityCount :: int32

text \<open>Pings the children in turn and adds up their players.\<close>

fun ping_children :: "('c, 'y) env_scheme \<Rightarrow> 'c Catalog \<Rightarrow> bool \<Rightarrow> int \<Rightarrow> string list \<Rightarrow> (int, ('c, 'z) Grid_scheme) op" where
  "ping_children env cat handoff headcount [] = give headcount"
| "ping_children env cat handoff headcount (cid # cids) =
     andThen (pingPlayerCount env cat cid) (\<lambda>players.
       if \<not> handoff \<and> players > 0
       then fail (Status FailedPrecondition
              [Text (''merge blocked: child '' @ cid @ '' has active players='' @ Itoa players)])
       else ping_children env cat handoff (headcount + players) cids)"

text \<open>
  From the settings to the last guard; the result is the names of the children in quadrant order and
  the number of their players.
\<close>

definition merge_guards :: "('c, 'y) merge_env_scheme \<Rightarrow> 'c Catalog \<Rightarrow> string \<Rightarrow> string list \<Rightarrow>
    (string list \<times> int, ('c, 'z) Grid_scheme) op" where
  "merge_guards env cat parentID childIDs g =
     (case FindCellByID (ListAll cat (reg g)) parentID of
        Inl err \<Rightarrow> fail (Status Unavailable [Text err]) g
      | Inr (Some parentSpec, True) \<Rightarrow>
          if cs_Bounds parentSpec = None
          then fail (Status NotFound [Text (''parent not found or has no bounds: '' @ parentID)]) g
          else (case ListAll cat (reg g) of
             Inl err \<Rightarrow> fail (Status Unavailable [Text err]) g
           | Inr allCells \<Rightarrow>
               (case CatalogMergeChildren (Some parentSpec) allCells of
                  Inl err \<Rightarrow> fail (Status FailedPrecondition [WithPartitionError ''merge children resolve: '' err]) g
                | Inr children \<Rightarrow>
                    (let ordered = map (\<lambda>ch. TrimSpace (cs_Id ch)) children;
                         handoff = mergePlayerHandoffEnabled (getenv env);
                         most = mergePlayerHandoffMaxPlayers (getenv env)
                     in case find (\<lambda>i. i \<notin> set ordered) childIDs of
                          Some i \<Rightarrow> fail (Status InvalidArgument
                            [Text (''child_cell_ids mismatch catalog merge quadrants: '' @ i)]) g
                        | None \<Rightarrow>
                            (case ValidateMergeChildren (cs_Bounds parentSpec) (cs_Level parentSpec) (map Some children) of
                               Some err \<Rightarrow> fail (Status FailedPrecondition [WithPartitionError ''merge geometry invalid: '' err]) g
                             | None \<Rightarrow>
                                 andThen (pingPlayerCount env cat parentID) (\<lambda>parentPlayers.
                                   if parentPlayers > 0
                                   then fail (Status FailedPrecondition
                                     [Text (''merge blocked: parent has active players='' @ Itoa parentPlayers)])
                                   else andThen (ping_children env cat handoff 0 ordered) (\<lambda>headcount.
                                     if handoff \<and> most > 0 \<and> headcount > most
                                     then fail (Status FailedPrecondition [Text (''merge player handoff blocked: active players='' @
                                            Itoa headcount @ '' > max='' @ Itoa most)])
                                     else give (ordered, headcount))) g))))
      | Inr _ \<Rightarrow> fail (Status NotFound [Text (''parent not found or has no bounds: '' @ parentID)]) g)"

text \<open>Switching the drain of one cell; the answer is not looked at.\<close>

definition set_drain :: "('c, 'y) env_scheme \<Rightarrow> bool \<Rightarrow> string \<Rightarrow> ('c, 'z) Grid_scheme \<Rightarrow> ('c, 'z) Grid_scheme" where
  "set_drain env on cid g = snd (doForwardCellUpdate env cid (Some (Some (SetSplitDrain (Some on)))) g)"

definition drain_child :: "('c, 'y) merge_env_scheme \<Rightarrow> string \<Rightarrow> string \<Rightarrow>
    ('c, 'z) MergeGrid_scheme \<Rightarrow> ('c, 'z) MergeGrid_scheme" where
  "drain_child env parentID cid g =
     merge_event env parentID cid ''child_drain_enabled'' (Said [Text ''split_drain enabled'']) False (set_drain env True cid g)"

text \<open>The loop over the children's exports collects their entities.\<close>

fun export_children :: "('c, 'y) merge_env_scheme \<Rightarrow> string \<Rightarrow> string \<Rightarrow> CellPersistEntity option list \<Rightarrow> string list \<Rightarrow>
    (CellPersistEntity option list, ('c, 'z) MergeGrid_scheme) op" where
  "export_children env parentID reason merged [] = give merged"
| "export_children env parentID reason merged (cid # cids) =
     andThen (reporting env parentID cid
       (doForwardCellUpdate env cid (Some (Some (ExportNpcPersist (Some (reason @ ''/export/'' @ cid))))))) (\<lambda>exp.
     if \<not> ur_Ok exp \<or> TrimSpace (ur_NpcExportJson exp) = []
     then fail_event env parentID cid ''failed'' (Status FailedPrecondition
            [Text (''child export failed: '' @ cid @ '' (''), ur_Message exp, Text '')''])
     else (case Unmarshal (js env) (ur_NpcExportJson exp) of
             Inl err \<Rightarrow> fail (Status Internal [Text (''child export json decode '' @ cid @ '': '' @ err)])
           | Inr p \<Rightarrow>
               doing (merge_event env parentID cid ''child_exported'' (Said [Text ''child export ok'']) False)
                 (export_children env parentID reason (merged @ Entities p) cids)))"

text \<open>From the exports to the answer; the merged persist has no tick and no tick rate.\<close>

definition merge_transfer :: "('c, 'y) merge_env_scheme \<Rightarrow> string \<Rightarrow> string \<Rightarrow> string list \<Rightarrow> int \<Rightarrow>
    (MergeHandoffResponse, ('c, 'z) MergeGrid_scheme) op" where
  "merge_transfer env parentID reason ordered headcount =
     andThen (export_children env parentID reason [] ordered) (\<lambda>ents.
     (let merged = \<lparr>SchemaVersion = schemaVersion, Tick = 0, LoopTps = Fin 0, Entities = ents\<rparr>;
          handoff = mergePlayerHandoffEnabled (getenv env)
      in case Marshal (js env) merged of
           Inl err \<Rightarrow> fail (Status Internal [Text (''merge marshal: '' @ err)])
         | Inr raw \<Rightarrow>
             andThen (reporting env parentID [] (doForwardCellUpdate env parentID
               (Some (Some (ImportNpcPersist (Some (raw, reason @ ''/import_parent''))))))) (\<lambda>imp.
             if \<not> ur_Ok imp
             then fail_event env parentID [] ''failed''
                    (Status FailedPrecondition [Text ''parent import failed: '', ur_Message imp])
             else andThen (if handoff \<and> headcount > 0
                           then reporting env parentID [] (runMergePlayerHandoffs env parentID ordered reason)
                           else give 0) (\<lambda>moved.
                  andThen (reporting env parentID [] (saveMergeAutomationState env parentID ordered moved handoff)) (\<lambda>_.
                  doing (merge_event env parentID [] ''done'' (Said [Text ''merge handoff completed'']) True)
                    (give \<lparr>mhr_Message = ''merge handoff ok: children exported/imported, moved_players='' @ Itoa moved,
                           mhr_ChildCount = to_int32 (int (length ordered)),
                           mhr_NpcEntityCount = to_int32 (int (length ents))\<rparr>))))))"

text \<open>Everything under the lock; deferred calls run in reverse order of their statements.\<close>

definition merge_locked :: "('c, 'y) merge_env_scheme \<Rightarrow> string \<Rightarrow> string list \<Rightarrow> string \<Rightarrow>
    (MergeHandoffResponse, ('c, 'z) MergeGrid_scheme) op" where
  "merge_locked env parentID childIDs reason =
     (if length childIDs \<noteq> 4
      then fail_event env parentID [] ''failed'' (Status InvalidArgument
             [Text (''need exactly 4 unique child_cell_ids, got '' @ Itoa (int (length childIDs)))])
      else case catalog_of env of
             None \<Rightarrow> fail_event env parentID [] ''failed'' (Status FailedPrecondition [Text ''no catalog''])
           | Some cat \<Rightarrow>
               andThen (merge_guards env cat parentID childIDs) (\<lambda>(ordered, headcount).
                 doing (set_drain env True parentID)
                   (deferring (set_drain env False parentID)
                     (doing (fold (drain_child env parentID) ordered)
                       (deferring (fold (set_drain env False) ordered)
                         (merge_transfer env parentID reason ordered headcount))))))"

definition ForwardMergeHandoff :: "('c, 'y) merge_env_scheme \<Rightarrow> MergeHandoffRequest option \<Rightarrow>
    (MergeHandoffResponse, ('c, 'z) MergeGrid_scheme) op" where
  "ForwardMergeHandoff env oreq g0 =
     (case oreq of
        None \<Rightarrow> fail (Status InvalidArgument [Text ''empty request'']) g0
      | Some req \<Rightarrow>
          (let parentID = TrimSpace (mh_ParentCellId req);
               childIDs = uniqueCellIDs (mh_ChildCellIds req);
               reason = (if TrimSpace (mh_Reason req) = [] then ''ForwardMergeHandoff'' else TrimSpace (mh_Reason req));
               g = merge_event env parentID [] ''detected'' (Said [Text ''merge workflow detected'']) False g0
           in if parentID = []
              then fail_event env parentID [] ''failed'' (Status InvalidArgument [Text ''parent_cell_id required'']) g
              else (let (ok, flight) = tryAcquireMerge parentID (mergeInFlight g);
                        g1 = g\<lparr>mergeInFlight := flight\<rparr>
                    in if \<not> ok
                       then fail_event env parentID [] ''skipped_reentry'' (Status FailedPrecondition
                              [Text (''merge already in progress for parent: '' @ parentID)]) g1
                       else deferring (\<lambda>h. h\<lparr>mergeInFlight := releaseMerge parentID (mergeInFlight h)\<rparr>)
                              (merge_locked env parentID childIDs reason) g1)))"

section \<open>What a merge keeps\<close>

lemma keeps_doing [intro]: "(\<And>g. I g \<Longrightarrow> I (f g)) \<Longrightarrow> keeps I m \<Longrightarrow> keeps I (doing f m)"
  by (simp add: keeps_def doing_def)

lemma keeps_deferring [intro]: "(\<And>g. I g \<Longrightarrow> I (f g)) \<Longrightarrow> keeps I m \<Longrightarrow> keeps I (deferring f m)"
  by (auto simp: keeps_def deferring_def split: prod.splits)

lemma fold_keeps: "(\<And>x g. I g \<Longrightarrow> I (f x g)) \<Longrightarrow> I g \<Longrightarrow> I (fold f xs g)"
  by (induction xs arbitrary: g) auto

context kept begin

lemma kept_ping: "keeps I (pingPlayerCount env cat cellID)"
  by (rule keepsI) (auto simp: pingPlayerCount_def intro!: keeps_apply[of I] keeps_andThen kept_call
      split: option.splits sum.splits prod.splits bool.splits)

lemma kept_ping_children: "keeps I (ping_children env cat handoff n cids)"
  by (induction cids arbitrary: n) (auto intro!: keeps_andThen kept_ping)

lemma kept_guards: "keeps I (merge_guards env cat parentID childIDs)"
  by (rule keepsI) (auto simp: merge_guards_def Let_def intro!: keeps_apply[of I] keeps_andThen kept_ping kept_ping_children
      split: option.splits sum.splits prod.splits bool.splits)

lemma kept_drain: "I g \<Longrightarrow> I (set_drain env on cid g)"
  using kept_update by (auto simp: set_drain_def keeps_def)

lemma kept_collect: "keeps I (collect_candidates env cids)"
  by (induction cids) (auto simp: listMergePlayerCandidates_def intro!: keeps_andThen kept_call)

end

text \<open>A predicate that is kept by remote calls and does not look at the events.\<close>

locale merge_kept = kept I for I :: "('c, 'z) MergeGrid_scheme \<Rightarrow> bool" +
  assumes kept_events: "I g \<Longrightarrow> I (g\<lparr>mergeEvents := evs\<rparr>)"
begin

lemma kept_event: "I g \<Longrightarrow> I (merge_event env p child stage m ok g)"
  by (simp add: merge_event_def publishMergeWorkflowEvent_def kept_events)

lemma kept_fail_event: "keeps I (fail_event env p child stage e)"
  by (rule keepsI) (simp add: fail_event_def fail_def kept_event)

lemma kept_reporting: "keeps I m \<Longrightarrow> keeps I (reporting env p child m)"
  by (rule keepsI) (auto simp: reporting_def fail_event_def fail_def intro!: kept_event dest: keepsD split: prod.splits sum.splits)

lemma kept_drain_child: "I g \<Longrightarrow> I (drain_child env p cid g)"
  by (simp add: drain_child_def kept_event kept_drain)

lemma kept_export: "keeps I (export_children env p reason merged cids)"
  by (induction cids arbitrary: merged)
    (auto intro!: keeps_andThen keeps_doing kept_reporting kept_update kept_fail_event kept_event split: sum.splits)

lemma kept_hand_off: "keeps I (hand_off_players env p reason cs)"
proof (induction cs)
  case (Cons c cs)
  show ?case
  proof (rule keepsI)
    fix g assume "I g"
    obtain res g1 where r: "ForwardPlayerHandoff env (Some (merge_request p reason c (clock g))) g = (res, g1)" by fastforce
    then have "I g1" using keepsD[OF kept_player \<open>I g\<close>] by blast
    then show "I (snd (hand_off_players env p reason (c # cs) g))"
      using r keeps_apply[OF Cons] keeps_apply[OF kept_fail_event] by (auto split: sum.splits)
  qed
qed simp

lemma kept_run: "keeps I (runMergePlayerHandoffs env p cids reason)"
  by (auto simp: runMergePlayerHandoffs_def Let_def intro!: keeps_andThen keeps_doing kept_collect kept_hand_off kept_event)

end

text \<open>If Redis is kept out of the predicate too, the whole merge keeps it.\<close>

locale merge_kept_all = merge_kept I for I :: "('c, 'z) MergeGrid_scheme \<Rightarrow> bool" +
  assumes kept_states: "I g \<Longrightarrow> I (g\<lparr>mergeStates := sts\<rparr>)"
begin

lemma kept_save: "keeps I (saveMergeAutomationState env p cids moved handoff)"
  by (rule keepsI) (auto simp: saveMergeAutomationState_def Let_def fail_def give_def kept_states split: prod.splits option.splits)

lemma kept_transfer: "keeps I (merge_transfer env p reason ordered n)"
  by (auto simp: merge_transfer_def Let_def split: sum.splits
      intro!: keeps_andThen keeps_doing kept_export kept_reporting kept_update kept_fail_event kept_run kept_save kept_event)

lemma kept_locked: "keeps I (merge_locked env p cids reason)"
  by (auto simp: merge_locked_def split: option.splits
      intro!: keeps_andThen keeps_doing keeps_deferring kept_guards kept_fail_event kept_transfer kept_drain
        fold_keeps[of I] kept_drain_child)

end

interpretation lock: merge_kept_all "\<lambda>g. mergeInFlight g = flight" for flight
  by unfold_locales (auto simp: next_turn_def Let_def split: list.splits prod.splits)

interpretation calm_merge: merge_kept_all "undisturbed c" for c :: 'c
  by unfold_locales (auto simp: undisturbed_def)

interpretation quiet_merge: merge_kept_all "quiet c up" for c :: 'c and up
  by unfold_locales (auto simp: quiet_def)

interpretation unsaved: merge_kept "\<lambda>g. mergeStates g = sts" for sts
  by unfold_locales (auto simp: next_turn_def Let_def split: list.splits prod.splits)

section \<open>Mutual exclusion\<close>

lemma event_fields [simp]:
  "mergeInFlight (merge_event env p child stage m ok g) = mergeInFlight g"
  "servers (merge_event env p child stage m ok g) = servers g"
  "reg (merge_event env p child stage m ok g) = reg g" "turns (merge_event env p child stage m ok g) = turns g"
  "clock (merge_event env p child stage m ok g) = clock g"
  "mergeStates (merge_event env p child stage m ok g) = mergeStates g"
  by (simp_all add: merge_event_def publishMergeWorkflowEvent_def)

text \<open>A request is refused at the lock or runs under it.\<close>

lemma ForwardMergeHandoff_cases:
  fixes req :: MergeHandoffRequest
  defines "p \<equiv> TrimSpace (mh_ParentCellId req)"
  assumes "ForwardMergeHandoff env (Some req) g = (res, g')"
  obtains (refused) m where "res = Inl m" "p = [] \<or> p \<in> mergeInFlight g" "servers g' = servers g" "reg g' = reg g"
      "mergeInFlight g' = mergeInFlight g" "mergeStates g' = mergeStates g"
  | (locked) reason h where "p \<noteq> []" "p \<notin> mergeInFlight g"
      "merge_locked env p (uniqueCellIDs (mh_ChildCellIds req)) reason
         ((merge_event env p [] ''detected'' (Said [Text ''merge workflow detected'']) False g)
            \<lparr>mergeInFlight := insert p (mergeInFlight g)\<rparr>) = (res, h)"
      "g' = h\<lparr>mergeInFlight := mergeInFlight h - {p}\<rparr>"
proof (cases "p = [] \<or> p \<in> mergeInFlight g")
  case True
  then have "(\<exists>m. res = Inl m) \<and> servers g' = servers g \<and> reg g' = reg g \<and> mergeInFlight g' = mergeInFlight g \<and> mergeStates g' = mergeStates g"
    using assms(2) by (cases "p = []")
      (auto simp: p_def ForwardMergeHandoff_def tryAcquireMerge_def fail_event_def fail_def Let_def TrimSpace_idem)
  with True refused show thesis by blast
next
  case False
  define reason where "reason = (if TrimSpace (mh_Reason req) = [] then ''ForwardMergeHandoff'' else TrimSpace (mh_Reason req))"
  define start where "start = (merge_event env p [] ''detected'' (Said [Text ''merge workflow detected'']) False g)
            \<lparr>mergeInFlight := insert p (mergeInFlight g)\<rparr>"
  obtain res' h where ml: "merge_locked env p (uniqueCellIDs (mh_ChildCellIds req)) reason start = (res', h)" by fastforce
  have "tryAcquireMerge p (mergeInFlight g) = (True, insert p (mergeInFlight g))" "releaseMerge p (mergeInFlight h) = mergeInFlight h - {p}"
    using False by (simp_all add: p_def tryAcquireMerge_def releaseMerge_def TrimSpace_idem)
  with False assms(2) ml have "res' = res" "g' = h\<lparr>mergeInFlight := mergeInFlight h - {p}\<rparr>"
    by (simp_all add: ForwardMergeHandoff_def deferring_def Let_def reason_def[symmetric] p_def[symmetric] start_def[symmetric])
  with False ml show thesis by (intro locked) (simp_all add: start_def)
qed

text \<open>
  One merge per parent at a time, and no lock is left behind. While a merge of a parent is in
  flight, a second request for it (under any spelling of its name) is refused and touches neither a
  cell nor the catalog nor Redis. Whatever happens to the calls of a merge, on every path out of it
  the set of merges in flight is what it was before.
\<close>

theorem ForwardMergeHandoff_lock:
  assumes "ForwardMergeHandoff env oreq g = (res, g')"
  shows "mergeInFlight g' = mergeInFlight g \<and>
    (\<forall>req. oreq = Some req \<and> TrimSpace (mh_ParentCellId req) \<in> mergeInFlight g \<longrightarrow>
      (\<exists>m. res = Inl m) \<and> servers g' = servers g \<and> reg g' = reg g \<and> mergeStates g' = mergeStates g)"
proof (cases oreq)
  case None
  with assms show ?thesis by (auto simp: ForwardMergeHandoff_def fail_def)
next
  case (Some req)
  from assms[unfolded Some] show ?thesis
  proof (cases rule: ForwardMergeHandoff_cases)
    case (locked reason h)
    let ?p = "TrimSpace (mh_ParentCellId req)"
    have "mergeInFlight h = insert ?p (mergeInFlight g)"
      by (rule keepsD[OF lock.kept_locked _ locked(3)]) simp
    with locked(2,4) Some show ?thesis by auto
  qed auto
qed

section \<open>No cell is left draining\<close>

text \<open>The endpoint a name is dialled at; it depends on the catalog alone.\<close>

definition address :: "('c, 'y) env_scheme \<Rightarrow> 'c \<Rightarrow> string \<Rightarrow> string option" where
  "address env c i =
     (case catalog_of env of
        None \<Rightarrow> None
      | Some cat \<Rightarrow>
          (case FindCellByID (ListAll cat c) i of
             Inr (Some spec, True) \<Rightarrow>
               if cs_GrpcEndpoint spec = [] \<or> dial_error env (cs_GrpcEndpoint spec) \<noteq> None then None
               else Some (cs_GrpcEndpoint spec)
           | _ \<Rightarrow> None))"

lemma dial_address:
  "address env (reg g) i = Some ep \<longleftrightarrow> (\<exists>spec. dialCellClient env i g = (Inr spec, g) \<and> cs_GrpcEndpoint spec = ep)"
  by (auto simp: address_def dialCellClient_def fail_def give_def split: option.splits sum.splits prod.splits bool.splits if_splits)

lemma address_name: "address env c i = Some ep \<Longrightarrow> i \<noteq> []"
  by (auto simp: address_def FindCellByID_def split: option.splits if_splits)

text \<open>The cell a name leads to.\<close>

definition cell_at :: "('c, 'y) env_scheme \<Rightarrow> ('c, 'z) Grid_scheme \<Rightarrow> string \<Rightarrow> Server option" where
  "cell_at env g i = (case address env (reg g) i of None \<Rightarrow> None | Some ep \<Rightarrow> servers g ep)"

lemma cell_atE:
  assumes "cell_at env g i = Some s"
  obtains ep where "address env (reg g) i = Some ep" "servers g ep = Some s"
  using assms by (auto simp: cell_at_def split: option.splits)

lemma cell_at_cong: "reg g1 = reg g \<Longrightarrow> servers g1 = servers g \<Longrightarrow> cell_at env g1 = cell_at env g"
  by (intro ext) (simp add: cell_at_def split: option.split)

text \<open>A forwarded update and a ping of a cell that is there, without a schedule.\<close>

lemma update_quiet:
  assumes "turns g = []" "address env (reg g) i = Some ep" "servers g ep = Some s"
    and "Update (js env) (visit_live env s) (Some upd) s = (r, s')"
  shows "doForwardCellUpdate env i (Some upd) g = (Inr r, g\<lparr>servers := (servers g)(ep \<mapsto> s')\<rparr>)"
  using assms address_name[OF assms(2)] by (auto simp: dial_address doForwardCellUpdate_def andThen_def call_quiet)

lemma set_drain_quiet:
  assumes "turns g = []" "address env (reg g) i = Some ep" "servers g ep = Some s"
  shows "set_drain env on i g = g\<lparr>servers := (servers g)(ep \<mapsto> s\<lparr>splitDrain := on\<rparr>)\<rparr>"
  using update_quiet[OF assms] by (simp add: set_drain_def Update_def update_set_drain_def)

text \<open>Nothing scheduled, and the cells and the catalog as given; reading calls keep it.\<close>

definition idle :: "'c \<Rightarrow> (string \<rightharpoonup> Server) \<Rightarrow> ('c, 'z) Grid_scheme \<Rightarrow> bool" where
  "idle c ss g \<longleftrightarrow> turns g = [] \<and> reg g = c \<and> servers g = ss"

lemma keeps_read:
  fixes c :: 'c
  assumes "\<And>now s. snd (handler now s) = s"
  shows "keeps (idle c ss) (call ep handler)"
proof (rule keepsI)
  fix g :: "('c, 'z) Grid_scheme" assume g: "idle c ss g"
  show "idle c ss (snd (call ep handler g))"
  proof (cases "ss ep")
    case None
    then show ?thesis using g by (simp add: idle_def call_def next_turn_def)
  next
    case (Some s)
    obtain r where "handler (clock g) s = (r, s)" using assms[of "clock g" s] by (metis prod.collapse)
    with g Some show ?thesis by (simp add: idle_def call_def next_turn_def fun_upd_idem)
  qed
qed

lemma ping_reads: "keeps (idle c ss) (pingPlayerCount env cat cellID)"
  by (rule keepsI) (auto simp: pingPlayerCount_def intro!: keeps_apply[of "idle c ss"] keeps_andThen keeps_read
      split: option.splits sum.splits prod.splits bool.splits)

lemma ping_children_reads: "keeps (idle c ss) (ping_children env cat handoff n cids)"
  by (induction cids arbitrary: n) (auto intro!: keeps_andThen ping_reads)

lemma guards_read: "keeps (idle c ss) (merge_guards env cat parentID childIDs)"
  by (rule keepsI) (auto simp: merge_guards_def Let_def intro!: keeps_apply[of "idle c ss"] keeps_andThen ping_reads ping_children_reads
      split: option.splits sum.splits prod.splits bool.splits)

text \<open>A successful ping has reached its cell.\<close>

lemma ping_reached:
  assumes "pingPlayerCount env cat i g = (Inr n, g')" "idle c ss g" "catalog_of env = Some cat"
  shows "\<exists>s. cell_at env g i = Some s \<and> n = to_int32 (int (PlayerCount s))"
proof -
  obtain spec where spec: "FindCellByID (ListAll cat (reg g)) i = Inr (Some spec, True)"
    "TrimSpace (cs_GrpcEndpoint spec) \<noteq> []" "dial_error env (cs_GrpcEndpoint spec) = None"
    and ping: "andThen (call (cs_GrpcEndpoint spec) (\<lambda>now s. (Ping (unix_ms now) s, s))) (\<lambda>res. give (ping_PlayerCount res)) g = (Inr n, g')"
    using assms(1) by (auto simp: pingPlayerCount_def fail_def split: option.splits sum.splits prod.splits bool.splits if_splits)
  have "address env (reg g) i = Some (cs_GrpcEndpoint spec)"
    using spec assms(3) by (auto simp: address_def)
  moreover obtain s where "servers g (cs_GrpcEndpoint spec) = Some s" "n = to_int32 (int (PlayerCount s))"
    using ping assms(2) by (auto simp: idle_def andThen_def call_def next_turn_def give_def Ping_def Let_def split: option.splits)
  ultimately show ?thesis by (simp add: cell_at_def)
qed

lemma ping_children_reached:
  assumes "ping_children env cat handoff n ids g = (Inr m, g')" "idle c ss g" "catalog_of env = Some cat" "i \<in> set ids"
  shows "\<exists>s. cell_at env g i = Some s"
  using assms
proof (induction ids arbitrary: n g)
  case (Cons cid cids)
  from Cons.prems(1) obtain k g1 where p: "pingPlayerCount env cat cid g = (Inr k, g1)" and
    rest: "ping_children env cat handoff (n + k) cids g1 = (Inr m, g')"
    by (auto simp: andThen_def fail_def split: prod.splits sum.splits if_splits)
  have "idle c ss g1" using keepsD[OF ping_reads Cons.prems(2) p] .
  then have same: "cell_at env g1 = cell_at env g" using Cons.prems(2) by (intro cell_at_cong) (simp_all add: idle_def)
  show ?case
    using ping_reached[OF p Cons.prems(2,3)] Cons.IH[OF rest \<open>idle c ss g1\<close> Cons.prems(3)] Cons.prems(4) same by auto
qed simp

lemma merge_guards_Inr:
  assumes "merge_guards env cat parentID childIDs g = (Inr (ordered, n), g')"
  obtains p children allCells k g1 handoff where "CatalogMergeChildren (Some p) allCells = Inr children"
    "FindCellByID (ListAll cat (reg g)) parentID = Inr (Some p, True)" "ListAll cat (reg g) = Inr allCells"
    "ordered = map (\<lambda>ch. TrimSpace (cs_Id ch)) children" "set childIDs \<subseteq> set ordered"
    "pingPlayerCount env cat parentID g = (Inr k, g1)" "k \<le> 0" "ping_children env cat handoff 0 ordered g1 = (Inr n, g')"
proof -
  obtain p allCells children where f: "FindCellByID (ListAll cat (reg g)) parentID = Inr (Some p, True)"
    "ListAll cat (reg g) = Inr allCells" "CatalogMergeChildren (Some p) allCells = Inr children"
    "find (\<lambda>i. i \<notin> set (map (\<lambda>ch. TrimSpace (cs_Id ch)) children)) childIDs = None"
    using assms by (auto simp: merge_guards_def Let_def fail_def split: option.splits sum.splits prod.splits bool.splits if_splits)
  let ?ordered = "map (\<lambda>ch. TrimSpace (cs_Id ch)) children"
  let ?handoff = "mergePlayerHandoffEnabled (getenv env)" and ?most = "mergePlayerHandoffMaxPlayers (getenv env)"
  have "andThen (pingPlayerCount env cat parentID) (\<lambda>k. if k > 0
        then fail (Status FailedPrecondition [Text (''merge blocked: parent has active players='' @ Itoa k)])
        else andThen (ping_children env cat ?handoff 0 ?ordered) (\<lambda>headcount.
          if ?handoff \<and> ?most > 0 \<and> headcount > ?most
          then fail (Status FailedPrecondition [Text (''merge player handoff blocked: active players='' @
                 Itoa headcount @ '' > max='' @ Itoa ?most)])
          else give (?ordered, headcount))) g = (Inr (ordered, n), g')"
    using assms f by (auto simp: merge_guards_def Let_def fail_def split: option.splits if_splits)
  then obtain k g1 where k: "pingPlayerCount env cat parentID g = (Inr k, g1)" "k \<le> 0"
    and rest: "ping_children env cat ?handoff 0 ?ordered g1 = (Inr n, g')" "ordered = ?ordered"
    by (auto simp: andThen_def fail_def give_def split: prod.splits sum.splits if_splits)
  have "set childIDs \<subseteq> set ?ordered" using find_NoneD[OF f(4)] by blast
  with f(1-3) k rest show thesis by (intro that) simp_all
qed

lemma guards_reached:
  assumes "merge_guards env cat parentID childIDs g = (Inr (ordered, n), g')" "idle c ss g" "catalog_of env = Some cat"
    and "distinct childIDs" "length childIDs = 4"
  shows "set ordered = set childIDs \<and> length ordered = 4 \<and> (\<forall>i \<in> set (parentID # ordered). \<exists>s. cell_at env g i = Some s)"
proof -
  obtain p children allCells k g1 handoff where g: "CatalogMergeChildren (Some p) allCells = Inr children"
    "ordered = map (\<lambda>ch. TrimSpace (cs_Id ch)) children" "set childIDs \<subseteq> set ordered"
    "pingPlayerCount env cat parentID g = (Inr k, g1)" "ping_children env cat handoff 0 ordered g1 = (Inr n, g')"
    using assms(1) by (rule merge_guards_Inr)
  obtain b where "match_quadrants (to_int32 (cs_Level p + 1)) (SplitFour b) allCells [0, 1, 2, 3] = Inr children"
    using g(1) unfolding CatalogMergeChildren_Inr by blast
  then have len: "length ordered = 4"
    using list_all2_lengthD[OF match_quadrants_sound] by (fastforce simp: g(2))
  moreover have "set ordered = set childIDs"
    using g(3) assms(4,5) len by (metis card_length card_seteq distinct_card List.finite_set)
  moreover have g1: "idle c ss g1" using keepsD[OF ping_reads assms(2) g(4)] .
  have "cell_at env g1 = cell_at env g" using assms(2) g1 by (intro cell_at_cong) (simp_all add: idle_def)
  then have "\<forall>i \<in> set (parentID # ordered). \<exists>s. cell_at env g i = Some s"
    using ping_reached[OF g(4) assms(2,3)] ping_children_reached[OF g(5) g1 assms(3)] by auto
  ultimately show ?thesis by blast
qed

text \<open>What the deferred resets do.\<close>

definition undrained_at :: "('c, 'y) env_scheme \<Rightarrow> ('c, 'z) Grid_scheme \<Rightarrow> string \<Rightarrow> bool" where
  "undrained_at env g i \<longleftrightarrow> (\<exists>s. cell_at env g i = Some s \<and> \<not> splitDrain s)"

lemma undrain_quiet:
  assumes "quiet c up g" "address env c i = Some ep" "ep \<in> up"
  shows "undrained_at env (set_drain env False i g) i"
    and "undrained_at env g j \<Longrightarrow> undrained_at env (set_drain env False i g) j"
proof -
  obtain s where s: "servers g ep = Some s" using assms by (auto simp: quiet_def)
  have d: "set_drain env False i g = g\<lparr>servers := (servers g)(ep \<mapsto> s\<lparr>splitDrain := False\<rparr>)\<rparr>"
    using assms(1,2) by (intro set_drain_quiet) (simp_all add: quiet_def s)
  show "undrained_at env (set_drain env False i g) i"
    using assms(1,2) by (simp add: undrained_at_def d cell_at_def quiet_def)
  show "undrained_at env (set_drain env False i g) j" if "undrained_at env g j"
    using that s by (auto simp: undrained_at_def d cell_at_def split: option.splits)
qed

lemma undrain_all:
  assumes "quiet c up g" "\<forall>i \<in> set ids. \<exists>ep \<in> up. address env c i = Some ep"
  shows "\<forall>i. i \<in> set ids \<or> undrained_at env g i \<longrightarrow> undrained_at env (fold (set_drain env False) ids g) i"
  using assms
proof (induction ids arbitrary: g)
  case (Cons k ids)
  obtain ep where ep: "address env c k = Some ep" "ep \<in> up" using Cons.prems(2) by auto
  have q: "quiet c up (set_drain env False k g)" using Cons.prems(1) by (rule quiet.kept_drain)
  from Cons.IH[OF q] Cons.prems(2) undrain_quiet[OF Cons.prems(1) ep] show ?case by auto
qed simp

lemma unique_ids_distinct: "distinct (unique_ids ids seen) \<and> set (unique_ids ids seen) \<inter> seen = {}"
  by (induction ids seen rule: unique_ids.induct) (auto simp: Let_def)

lemma merge_locked_undrains:
  assumes "merge_locked env p ids reason g = (res, h)" "turns g = []" "distinct ids"
  shows "((\<exists>e. res = Inl e) \<and> servers h = servers g) \<or>
    (length ids = 4 \<and> (\<forall>i \<in> set (p # ids). undrained_at env h i))"
proof -
  have idle: "idle (reg g) (servers g) g" using assms(2) by (simp add: idle_def)
  consider (refused) "length ids \<noteq> 4 \<or> catalog_of env = None"
    | (guards) cat e g1 where "length ids = 4" "catalog_of env = Some cat" "merge_guards env cat p ids g = (Inl e, g1)"
    | (moved) cat ordered n g1 where "length ids = 4" "catalog_of env = Some cat" "merge_guards env cat p ids g = (Inr (ordered, n), g1)"
    by (metis option.exhaust prod.collapse sum.exhaust)
  then show ?thesis
  proof cases
    case refused
    then show ?thesis
      using assms(1) by (cases "length ids = 4") (auto simp: merge_locked_def fail_event_def fail_def)
  next
    case guards
    then have "idle (reg g) (servers g) h" "\<exists>e. res = Inl e"
      using assms(1) keepsD[OF guards_read idle guards(3)] by (auto simp: merge_locked_def andThen_def)
    then show ?thesis by (simp add: idle_def)
  next
    case moved
    have r: "set ordered = set ids" "\<forall>i \<in> set (p # ordered). \<exists>s. cell_at env g i = Some s"
      using guards_reached[OF moved(3) idle moved(2) assms(3) moved(1)] by auto
    have "idle (reg g) (servers g) g1" using keepsD[OF guards_read idle moved(3)] .
    then have q1: "quiet (reg g) (dom (servers g)) g1" by (auto simp: idle_def quiet_def)
    let ?g2 = "fold (drain_child env p) ordered (set_drain env True p g1)"
    obtain g3 where t: "merge_transfer env p reason ordered n ?g2 = (res, g3)"
      and h: "h = fold (set_drain env False) (ordered @ [p]) g3"
      using assms(1) moved by (auto simp: merge_locked_def andThen_def doing_def deferring_def split: prod.splits)
    have "quiet (reg g) (dom (servers g)) ?g2"
      by (intro fold_keeps[of "quiet (reg g) (dom (servers g))"] quiet_merge.kept_drain_child quiet.kept_drain q1)
    then have q3: "quiet (reg g) (dom (servers g)) g3" using keepsD[OF quiet_merge.kept_transfer _ t] by blast
    have "\<forall>i \<in> set (ordered @ [p]). \<exists>ep \<in> dom (servers g). address env (reg g) i = Some ep"
      using r(2) by (auto elim!: cell_atE)
    from undrain_all[OF q3 this] show ?thesis using r(1) moved(1) h by auto
  qed
qed

text \<open>
  C18: A merge leaves no cell draining. When no call is lost and nobody interferes, \<open>ForwardMergeHandoff\<close>
  either fails before it has changed a cell, or ends (with whatever result) with the drain off at
  the parent and at all four children; if it succeeds, these are the four children of the request.
\<close>

theorem ForwardMergeHandoff_undrains:
  assumes "turns g = []" "ForwardMergeHandoff env (Some req) g = (res, g')"
  shows "((\<exists>e. res = Inl e) \<and> servers g' = servers g) \<or>
    (length (uniqueCellIDs (mh_ChildCellIds req)) = 4 \<and>
     (\<forall>i \<in> set (TrimSpace (mh_ParentCellId req) # uniqueCellIDs (mh_ChildCellIds req)). undrained_at env g' i))"
proof -
  let ?ids = "uniqueCellIDs (mh_ChildCellIds req)"
  have ids: "distinct ?ids" using unique_ids_distinct by (simp add: uniqueCellIDs_def)
  from assms(2) show ?thesis
  proof (cases rule: ForwardMergeHandoff_cases)
    case (locked reason h)
    have "cell_at env g' = cell_at env h" by (intro cell_at_cong) (simp_all add: locked(4))
    with merge_locked_undrains[OF locked(3) _ ids] assms(1) locked(4) show ?thesis
      by (simp add: undrained_at_def)
  qed simp
qed

end
