(* ===== verification/Merge_Result.thy ===== *)
theory Merge_Result
  imports Merge_Handoff
begin

text \<open>
  What a merge does to the cells: the drained grid, the exports, the entities of the parent
  afterwards, and the automation state it leaves behind.
\<close>

section \<open>The entities of a world\<close>

type_synonym body = "Position option \<times> Velocity option \<times> Health option"

definition contents :: "World \<Rightarrow> Entity \<rightharpoonup> body" where
  "contents w e = (if e \<in> alive w then Some (positions w e, velocities w e, healths w e) else None)"

text \<open>The entities a cell exports, as they arrive.\<close>

definition npc_image :: "Server \<Rightarrow> Entity \<rightharpoonup> body" where
  "npc_image s e =
     (case Sim s of
        None \<Rightarrow> None
      | Some r \<Rightarrow>
          if e \<in> saved (world r) (isPlayer s)
          then Some (map_option f32_position (positions (world r) e),
                     Some (case velocities (world r) e of None \<Rightarrow> zero_velocity | Some v \<Rightarrow> f32_velocity v),
                     f32_health (healths (world r) e))
          else None)"

definition body_of :: "CellPersistEntity \<Rightarrow> body" where
  "body_of x = (Some (get_position (pe_Position x)), Some (get_velocity (pe_Velocity x)), persisted_health x)"

abbreviation bodies :: "CellPersistEntity list \<Rightarrow> (Entity \<times> body) list" where
  "bodies ents \<equiv> map (\<lambda>x. (pe_EntityId x, body_of x)) ents"

lemma contents_decode:
  assumes "0 \<notin> pe_EntityId ` set ents"
  shows "contents (fold decode_entity (map Some ents) w) = contents w ++ map_of (rev (bodies ents))"
  using assms
proof (induction ents arbitrary: w)
  case (Cons x ents)
  have "contents (decode_entity (Some x) w) = (contents w)(pe_EntityId x \<mapsto> body_of x)"
    using decode_entity_fields[of x w] Cons.prems by (auto simp: contents_def body_of_def fun_eq_iff)
  with Cons show ?case by (simp add: map_add_def fun_eq_iff map_of_append split: option.split)
qed (simp add: fun_eq_iff)

lemma map_of_bodies: "map_of (bodies ents) e = map_option body_of (map_of (keyed ents) e)"
  by (induction ents) auto

lemma bodies_saved:
  assumes "distinct order" "set order = alive (world r)" "Sim s = Some r"
  shows "map_of (rev (bodies (List.map_filter (encode_entity (world r) (Some (isPlayer s))) order))) = npc_image s"
proof
  fix e
  let ?ents = "List.map_filter (encode_entity (world r) (Some (isPlayer s))) order"
  have d: "distinct (map pe_EntityId ?ents)" and
    k: "map_of (keyed ?ents) e = (if e \<in> alive (world r) then encode_entity (world r) (Some (isPlayer s)) e else None)"
    using map_filter_keyed[OF assms(1)] by (auto simp: assms(2))
  have same: "map_of (rev (bodies ?ents)) = map_of (bodies ?ents)"
    using d by (subst map_of_inject_set) (simp_all add: o_def rev_map[symmetric])
  have "map_of (rev (bodies ?ents)) e = map_option body_of (map_of (keyed ?ents) e)"
    unfolding same by (rule map_of_bodies)
  also have "\<dots> = npc_image s e"
    unfolding k npc_image_def assms(3) saved_def
    using encode_entity_fields[of "world r" "isPlayer s" e] encode_entity_saved[of "world r" "isPlayer s" e]
    by (auto simp: body_of_def)
  finally show "map_of (rev (bodies ?ents)) e = npc_image s e" .
qed

section \<open>The drained grid\<close>

definition drained :: "bool \<Rightarrow> string set \<Rightarrow> (string \<rightharpoonup> Server) \<Rightarrow> string \<rightharpoonup> Server" where
  "drained on eps ss ep = (if ep \<in> eps then map_option (\<lambda>s. s\<lparr>splitDrain := on\<rparr>) (ss ep) else ss ep)"

definition endpoints :: "('c, 'y) env_scheme \<Rightarrow> 'c \<Rightarrow> string set \<Rightarrow> string set" where
  "endpoints env c ids = {ep. \<exists>i \<in> ids. address env c i = Some ep}"

lemma drained_Cons:
  "address env c i = Some ep \<Longrightarrow> ss ep = Some s \<Longrightarrow>
     drained on (endpoints env c (set is)) (ss(ep \<mapsto> s\<lparr>splitDrain := on\<rparr>)) = drained on (endpoints env c (set (i # is))) ss"
  by (auto simp: drained_def endpoints_def fun_eq_iff)

lemma drains_quiet:
  assumes f: "\<And>i g. servers (f i g) = servers (set_drain env on i g) \<and> reg (f i g) = reg (set_drain env on i g) \<and>
      turns (f i g) = turns (set_drain env on i g)"
    and "turns g = []" "\<forall>i \<in> set ids. \<exists>s. cell_at env g i = Some s"
  shows "servers (fold f ids g) = drained on (endpoints env (reg g) (set ids)) (servers g) \<and>
    reg (fold f ids g) = reg g \<and> turns (fold f ids g) = []"
  using assms(2,3)
proof (induction ids arbitrary: g)
  case (Cons i ids)
  from Cons.prems(2) obtain ep s where ep: "address env (reg g) i = Some ep" "servers g ep = Some s"
    by (auto elim: cell_atE)
  have g1: "servers (f i g) = (servers g)(ep \<mapsto> s\<lparr>splitDrain := on\<rparr>)" "reg (f i g) = reg g" "turns (f i g) = []"
    using Cons.prems(1) f[of i g] by (simp_all add: set_drain_quiet[OF Cons.prems(1) ep])
  have "\<forall>j \<in> set ids. \<exists>s. cell_at env (f i g) j = Some s"
    using Cons.prems(2) g1 by (auto simp: cell_at_def split: option.splits)
  note IH = Cons.IH[OF g1(3) this]
  have "drained on (endpoints env (reg g) (set ids)) (servers (f i g)) = drained on (endpoints env (reg g) (set (i # ids))) (servers g)"
    unfolding g1(1) using drained_Cons[of env "reg g" i ep "servers g" s on ids] ep by simp
  then show ?case using IH g1(2) by simp
qed (simp add: drained_def endpoints_def fun_eq_iff)

lemma drain_child_fields:
  "servers (drain_child env p i g) = servers (set_drain env True i g) \<and>
   reg (drain_child env p i g) = reg (set_drain env True i g) \<and> turns (drain_child env p i g) = turns (set_drain env True i g)"
  by (simp add: drain_child_def)

section \<open>Exports and import\<close>

text \<open>
  What \<open>protojson\<close> and the loops over the live entities are relied on for: a text that was produced
  is read back, with or without surrounding spaces, and a visit is a visit.
\<close>

definition sound_env :: "('c, 'y) env_scheme \<Rightarrow> bool" where
  "sound_env env \<longleftrightarrow>
     (\<forall>p raw. Marshal (js env) p = Inr raw \<longrightarrow> Unmarshal (js env) raw = Inr p \<and> Unmarshal (js env) (TrimSpace raw) = Inr p) \<and>
     (\<forall>s r. Sim s = Some r \<and> finite (alive (world r)) \<longrightarrow> visits (visit_live env s) (alive (world r)))"

lemma Update_export:
  assumes "sound_env env" "Sim s = Some r" "world_inv (world r)"
    and "Update (js env) (visit_live env s) (Some (Some (ExportNpcPersist reason))) s = (resp, s')" "ur_Ok resp"
    and "Unmarshal (js env) (ur_NpcExportJson resp) = Inr p"
  shows "s' = s \<and> (\<exists>ents. Entities p = map Some ents \<and> 0 \<notin> pe_EntityId ` set ents \<and> map_of (rev (bodies ents)) = npc_image s)"
proof -
  let ?p = "Encode (visit_live env s) (Some r) (Some (isPlayer s))"
  let ?ents = "List.map_filter (encode_entity (world r) (Some (isPlayer s))) (visit_live env s)"
  have v: "visits (visit_live env s) (alive (world r))"
    using assms(1-3) by (auto simp: sound_env_def world_inv_def)
  obtain raw where raw: "Marshal (js env) ?p = Inr raw"
    using assms(2,4,5) by (cases "Marshal (js env) ?p") (auto simp: Update_def update_export_def Let_def)
  have "s' = s" "ur_NpcExportJson resp = raw"
    using assms(2,4) raw by (auto simp: Update_def update_export_def Let_def)
  moreover from this have "p = ?p" using assms(1,6) raw by (auto simp: sound_env_def)
  moreover have "Entities ?p = map Some ?ents" by (simp add: Encode_def)
  moreover have "0 \<notin> pe_EntityId ` set ?ents"
    using assms(3) visits_set[OF v] by (simp add: map_filter_ids world_inv_def)
  ultimately show ?thesis
    using bodies_saved[OF visits_distinct[OF v] visits_set[OF v] assms(2)] by blast
qed

text \<open>Maps laid over one another, the later ones on top.\<close>

definition overlay :: "('k \<rightharpoonup> 'v) list \<Rightarrow> 'k \<rightharpoonup> 'v" where
  "overlay ms = foldl (++) Map.empty ms"

lemma overlay_simps [simp]: "overlay [] = Map.empty" "overlay (m # ms) = m ++ overlay ms"
proof -
  have "foldl (++) m ms = m ++ foldl (++) Map.empty ms" for m :: "'k \<rightharpoonup> 'v" and ms
    by (induction ms arbitrary: m) (simp, metis empty_map_add foldl_Cons map_add_assoc)
  then show "overlay [] = Map.empty" "overlay (m # ms) = m ++ overlay ms"
    by (simp_all add: overlay_def)
qed

lemma exports_quiet:
  assumes "sound_env env" "turns g = []"
    and "\<forall>i \<in> set ids. \<exists>s r. cell_at env g i = Some s \<and> Sim s = Some r \<and> world_inv (world r)"
    and "export_children env p reason merged ids g = (Inr out, g')"
  shows "servers g' = servers g \<and> reg g' = reg g \<and> turns g' = [] \<and>
    (\<exists>ents. out = merged @ map Some ents \<and> 0 \<notin> pe_EntityId ` set ents \<and>
      map_of (rev (bodies ents)) = overlay (map (\<lambda>i. npc_image (the (cell_at env g i))) ids))"
  using assms(2-4)
proof (induction ids arbitrary: g merged)
  case Nil
  then show ?case by (simp add: give_def)
next
  case (Cons i ids)
  from Cons.prems(2) obtain s r where s: "cell_at env g i = Some s" "Sim s = Some r" "world_inv (world r)" by auto
  from s(1) obtain ep where ep: "address env (reg g) i = Some ep" "servers g ep = Some s" by (rule cell_atE)
  obtain resp s' where u: "Update (js env) (visit_live env s) (Some (Some (ExportNpcPersist (Some (reason @ ''/export/'' @ i))))) s = (resp, s')"
    by fastforce
  have call: "doForwardCellUpdate env i (Some (Some (ExportNpcPersist (Some (reason @ ''/export/'' @ i))))) g =
      (Inr resp, g\<lparr>servers := (servers g)(ep \<mapsto> s')\<rparr>)"
    by (rule update_quiet[OF Cons.prems(1) ep u])
  let ?g = "merge_event env p i ''child_exported'' (Said [Text ''child export ok'']) False (g\<lparr>servers := (servers g)(ep \<mapsto> s')\<rparr>)"
  obtain persist where ok: "ur_Ok resp" "Unmarshal (js env) (ur_NpcExportJson resp) = Inr persist"
    and rest: "export_children env p reason (merged @ Entities persist) ids ?g = (Inr out, g')"
    using Cons.prems(3) call
    by (auto simp: andThen_def reporting_def fail_event_def fail_def doing_def split: sum.splits if_splits)
  from Update_export[OF assms(1) s(2,3) u ok] obtain ents where same: "s' = s" and
    ents: "Entities persist = map Some ents" "0 \<notin> pe_EntityId ` set ents" "map_of (rev (bodies ents)) = npc_image s" by auto
  have g: "servers ?g = servers g" "reg ?g = reg g" "turns ?g = []" using Cons.prems(1) ep by (simp_all add: same fun_upd_idem)
  have c: "cell_at env ?g = cell_at env g" using g by (intro cell_at_cong)
  from Cons.IH[OF g(3) _ rest] Cons.prems(2) obtain more where more: "servers g' = servers g" "reg g' = reg g" "turns g' = []"
    "out = (merged @ Entities persist) @ map Some more" "0 \<notin> pe_EntityId ` set more"
    "map_of (rev (bodies more)) = overlay (map (\<lambda>i. npc_image (the (cell_at env g i))) ids)"
    unfolding g(1,2) c by auto
  then show ?case
    using ents s(1) by (intro conjI exI[of _ "ents @ more"]) (auto simp: map_of_append)
qed

lemma Update_import:
  assumes "sound_env env" "Sim s = Some r" "world_inv (world r)" "0 \<notin> pe_EntityId ` set ents"
    and "Marshal (js env) \<lparr>SchemaVersion = schemaVersion, Tick = t, LoopTps = tps, Entities = map Some ents\<rparr> = Inr raw"
    and "Update (js env) (visit_live env s) (Some (Some (ImportNpcPersist (Some (raw, reason))))) s = (resp, s')" "ur_Ok resp"
  shows "\<exists>r'. s' = s\<lparr>Sim := Some r'\<rparr> \<and> contents (world r') = map_of (rev (bodies ents))"
proof -
  let ?p = "\<lparr>SchemaVersion = schemaVersion, Tick = t, LoopTps = tps, Entities = map Some ents\<rparr>"
  have v: "visits (visit_live env s) (alive (world r))" "Unmarshal (js env) (TrimSpace raw) = Inr ?p"
    using assms(1-3,5) by (auto simp: sound_env_def world_inv_def)
  obtain r' where r': "Decode (visit_live env s) (Some ?p) (Some r) = Inr r'"
    "world r' = fold decode_entity (map Some ents) (NewWorld\<lparr>nextID := nextID (world r)\<rparr>)"
    using Decode_cleared[OF assms(3) v(1)] by (simp add: Decode_def)
  have "s' = s\<lparr>Sim := Some r'\<rparr>"
    using assms(2,6,7) v(2) r'(1) by (auto simp: Update_def update_import_def Let_def split: if_splits)
  moreover have "contents (NewWorld\<lparr>nextID := nextID (world r)\<rparr>) = Map.empty"
    by (simp add: contents_def NewWorld_def fun_eq_iff)
  ultimately show ?thesis using contents_decode[OF assms(4)] r'(2) by auto
qed

section \<open>The steps of a successful merge\<close>

lemma merge_locked_Inr:
  assumes "merge_locked env p ids reason g = (Inr resp, h)"
  obtains cat ordered n g1 g3 where "catalog_of env = Some cat" "length ids = 4"
    "merge_guards env cat p ids g = (Inr (ordered, n), g1)"
    "merge_transfer env p reason ordered n (fold (drain_child env p) ordered (set_drain env True p g1)) = (Inr resp, g3)"
    "h = fold (set_drain env False) (ordered @ [p]) g3"
proof -
  have len: "length ids = 4"
    using assms by (cases "length ids = 4") (auto simp: merge_locked_def fail_event_def fail_def)
  then obtain cat where cat: "catalog_of env = Some cat"
    using assms by (cases "catalog_of env") (auto simp: merge_locked_def fail_event_def fail_def)
  obtain x g1 where x: "merge_guards env cat p ids g = (Inr x, g1)"
    using assms len cat by (cases "merge_guards env cat p ids g"; cases "fst (merge_guards env cat p ids g)")
      (auto simp: merge_locked_def andThen_def)
  obtain ordered n where [simp]: "x = (ordered, n)" by fastforce
  show thesis
    by (rule that[OF cat len x[simplified], of "snd (merge_transfer env p reason ordered n
          (fold (drain_child env p) ordered (set_drain env True p g1)))"])
      (use assms len cat x in \<open>auto simp: merge_locked_def andThen_def doing_def deferring_def split: prod.splits\<close>)
qed

lemma merge_transfer_Inr:
  assumes "merge_transfer env p reason ordered n g = (Inr resp, g')"
  obtains ents ga raw imp gb moved gc gd where
    "export_children env p reason [] ordered g = (Inr ents, ga)"
    "Marshal (js env) \<lparr>SchemaVersion = schemaVersion, Tick = 0, LoopTps = Fin 0, Entities = ents\<rparr> = Inr raw"
    "doForwardCellUpdate env p (Some (Some (ImportNpcPersist (Some (raw, reason @ ''/import_parent''))))) ga = (Inr imp, gb)"
    "ur_Ok imp" "\<not> mergePlayerHandoffEnabled (getenv env) \<Longrightarrow> gc = gb"
    "saveMergeAutomationState env p ordered moved (mergePlayerHandoffEnabled (getenv env)) gc = (Inr (), gd)"
    "g' = merge_event env p [] ''done'' (Said [Text ''merge handoff completed'']) True gd"
    "mhr_NpcEntityCount resp = to_int32 (int (length ents))"
proof -
  obtain ents ga where e: "export_children env p reason [] ordered g = (Inr ents, ga)"
    using assms by (auto simp: merge_transfer_def andThen_def split: prod.splits sum.splits)
  let ?merged = "\<lparr>SchemaVersion = schemaVersion, Tick = 0, LoopTps = Fin 0, Entities = ents\<rparr>"
  obtain raw where raw: "Marshal (js env) ?merged = Inr raw"
    using assms e by (cases "Marshal (js env) ?merged") (auto simp: merge_transfer_def andThen_def fail_def Let_def)
  let ?imp = "doForwardCellUpdate env p (Some (Some (ImportNpcPersist (Some (raw, reason @ ''/import_parent''))))) ga"
  let ?handoff = "mergePlayerHandoffEnabled (getenv env)"
  obtain imp gb where imp: "?imp = (Inr imp, gb)"
    using assms e raw by (cases ?imp; cases "fst ?imp")
      (auto simp: merge_transfer_def andThen_def reporting_def fail_event_def fail_def Let_def)
  have ok: "ur_Ok imp"
    using assms e raw imp
    by (auto simp: merge_transfer_def andThen_def reporting_def fail_event_def fail_def Let_def split: if_splits)
  let ?move = "if ?handoff \<and> n > 0 then reporting env p [] (runMergePlayerHandoffs env p ordered reason) else give 0"
  obtain moved gc where move: "?move gb = (Inr moved, gc)"
    using assms e raw imp ok by (cases "?move gb"; cases "fst (?move gb)")
      (simp_all add: merge_transfer_def andThen_def reporting_def[of _ _ _ "doForwardCellUpdate env p x" for x] Let_def)
  let ?save = "saveMergeAutomationState env p ordered moved ?handoff gc"
  obtain gd where save: "?save = (Inr (), gd)"
    using assms e raw imp ok move by (cases ?save; cases "fst ?save")
      (simp_all add: merge_transfer_def andThen_def reporting_def fail_event_def fail_def Let_def split: if_splits)
  show thesis
    by (rule that[OF e raw imp ok _ save])
      (use assms e raw imp ok move save in \<open>auto simp: merge_transfer_def andThen_def reporting_def fail_event_def fail_def
         doing_def give_def Let_def split: if_splits\<close>)
qed

section \<open>The parent afterwards\<close>

lemma npc_image_drain [simp]: "npc_image (s\<lparr>splitDrain := b\<rparr>) = npc_image s"
proof -
  have "isPlayer (s\<lparr>splitDrain := b\<rparr>) = isPlayer s" by (intro ext) (simp add: isPlayer_def)
  then show ?thesis by (intro ext) (simp add: npc_image_def split: option.split)
qed

lemma save_fields:
  assumes "saveMergeAutomationState env p ids moved handoff g = (res, g')"
  shows "servers g' = servers g \<and> reg g' = reg g \<and> turns g' = turns g"
  using assms by (auto simp: saveMergeAutomationState_def Let_def give_def fail_def split: if_splits prod.splits option.splits)

lemma cell_at_drained:
  assumes "i \<in> ids" "cell_at env g i = Some s" "reg h = reg g" "servers h = drained on (endpoints env (reg g) ids) (servers g)"
  shows "cell_at env h i = Some (s\<lparr>splitDrain := on\<rparr>)"
  using assms by (auto simp: drained_def endpoints_def cell_at_def split: option.splits)

lemma drained_twice: "drained on A (drained on B ss) = drained on (A \<union> B) ss"
  by (intro ext) (auto simp: drained_def map_option.compositionality o_def)

lemma endpoints_insert: "endpoints env c A \<union> endpoints env c {i} = endpoints env c (insert i A)"
  by (auto simp: endpoints_def)

text \<open>The transfer, between the drain and its reset.\<close>

lemma transfer_quiet:
  assumes "sound_env env" "turns g = []" "\<not> mergePlayerHandoffEnabled (getenv env)"
    and "\<forall>i \<in> set (p # ordered). \<exists>s r. cell_at env g i = Some s \<and> Sim s = Some r \<and> world_inv (world r)"
    and "merge_transfer env p reason ordered n g = (Inr resp, g')" "address env (reg g) p = Some ep" "servers g ep = Some sp"
  shows "\<exists>r'. servers g' = (servers g)(ep \<mapsto> sp\<lparr>Sim := Some r'\<rparr>) \<and> reg g' = reg g \<and> turns g' = [] \<and>
    contents (world r') = overlay (map (\<lambda>i. npc_image (the (cell_at env g i))) ordered)"
proof -
  obtain es ga raw imp gb moved gc gd where t: "export_children env p reason [] ordered g = (Inr es, ga)"
    "Marshal (js env) \<lparr>SchemaVersion = schemaVersion, Tick = 0, LoopTps = Fin 0, Entities = es\<rparr> = Inr raw"
    "doForwardCellUpdate env p (Some (Some (ImportNpcPersist (Some (raw, reason @ ''/import_parent''))))) ga = (Inr imp, gb)"
    "ur_Ok imp" "gc = gb" "saveMergeAutomationState env p ordered moved (mergePlayerHandoffEnabled (getenv env)) gc = (Inr (), gd)"
    "g' = merge_event env p [] ''done'' (Said [Text ''merge handoff completed'']) True gd"
    using merge_transfer_Inr[OF assms(5)] assms(3) by metis
  from exports_quiet[OF assms(1,2) _ t(1)] assms(4) obtain ents where
    ga: "servers ga = servers g" "reg ga = reg g" "turns ga = []" and
    ents: "es = map Some ents" "0 \<notin> pe_EntityId ` set ents"
      "map_of (rev (bodies ents)) = overlay (map (\<lambda>i. npc_image (the (cell_at env g i))) ordered)" by auto
  obtain r where r: "Sim sp = Some r" "world_inv (world r)" using assms(4,6,7) by (auto simp: cell_at_def)
  obtain resp' sp' where u: "Update (js env) (visit_live env sp) (Some (Some (ImportNpcPersist (Some (raw, reason @ ''/import_parent''))))) sp = (resp', sp')"
    by fastforce
  have "doForwardCellUpdate env p (Some (Some (ImportNpcPersist (Some (raw, reason @ ''/import_parent''))))) ga =
      (Inr resp', ga\<lparr>servers := (servers ga)(ep \<mapsto> sp')\<rparr>)"
    by (rule update_quiet[OF ga(3) _ _ u]) (simp_all add: ga assms(6,7))
  with t(3) have imp: "resp' = imp" "gb = ga\<lparr>servers := (servers ga)(ep \<mapsto> sp')\<rparr>" by simp_all
  obtain r' where "sp' = sp\<lparr>Sim := Some r'\<rparr>" "contents (world r') = map_of (rev (bodies ents))"
    using Update_import[OF assms(1) r ents(2) t(2)[unfolded ents(1)] u] t(4) imp(1) by auto
  with save_fields[OF t(6)] imp(2) ga ents(3) show ?thesis by (intro exI[of _ r']) (simp add: t(5,7))
qed

text \<open>The drain of parent and children, and its reset after the import.\<close>

lemma drain_stage:
  assumes "turns g = []" "\<forall>i \<in> set (p # ids). \<exists>s. cell_at env g i = Some s"
  defines "h \<equiv> fold (drain_child env p) ids (set_drain env True p g)"
  shows "servers h = drained True (endpoints env (reg g) (set (p # ids))) (servers g) \<and> reg h = reg g \<and> turns h = []"
proof -
  let ?g = "set_drain env True p g"
  have A: "servers ?g = drained True (endpoints env (reg g) {p}) (servers g)" "reg ?g = reg g" "turns ?g = []"
    using drains_quiet[of "set_drain env True" env True g "[p]"] assms(1,2) by simp_all
  have "\<forall>i \<in> set ids. \<exists>s. cell_at env ?g i = Some s"
    using assms(2) by (auto simp: cell_at_def A drained_def split: option.splits)
  from drains_quiet[of "drain_child env p", OF drain_child_fields A(3) this] show ?thesis
    by (simp add: h_def A drained_twice endpoints_insert)
qed

lemma reset_stage:
  assumes "turns g = []" "servers g = (drained True (endpoints env (reg g) (set (p # ids))) ss)(ep \<mapsto> sp\<lparr>splitDrain := True\<rparr>)"
    and "address env (reg g) p = Some ep" "\<forall>i \<in> set ids. \<exists>ei s. address env (reg g) i = Some ei \<and> ss ei = Some s \<and> ei \<noteq> ep"
  defines "h \<equiv> fold (set_drain env False) (ids @ [p]) g"
  shows "reg h = reg g \<and> cell_at env h p = Some (sp\<lparr>splitDrain := False\<rparr>) \<and>
    (\<forall>i \<in> set ids. \<exists>ei s. address env (reg g) i = Some ei \<and> ss ei = Some s \<and> cell_at env h i = Some (s\<lparr>splitDrain := False\<rparr>)) \<and>
    (\<forall>e. e \<notin> endpoints env (reg g) (set (p # ids)) \<longrightarrow> servers h e = ss e)"
proof -
  let ?E = "endpoints env (reg g) (set (p # ids))"
  have "\<forall>i \<in> set (ids @ [p]). \<exists>s. cell_at env g i = Some s"
    using assms(3,4) by (force simp: cell_at_def assms(2) drained_def)
  then have h: "servers h = drained False ?E (servers g)" "reg h = reg g"
    using drains_quiet[of "set_drain env False" env False g "ids @ [p]"] assms(1) by (auto simp: h_def)
  have "servers h ep = Some (sp\<lparr>splitDrain := False\<rparr>)"
    using assms(3) by (auto simp: h(1) assms(2) drained_def endpoints_def)
  moreover have "servers h ei = Some (s\<lparr>splitDrain := False\<rparr>)"
    if "i \<in> set ids" "address env (reg g) i = Some ei" "ss ei = Some s" "ei \<noteq> ep" for i ei s
    using that by (auto simp: h(1) assms(2) drained_def endpoints_def)
  moreover have "servers h e = ss e" if "e \<notin> ?E" for e
    using that assms(3) by (auto simp: h(1) assms(2) drained_def endpoints_def)
  ultimately show ?thesis
    using assms(3,4) h(2) by (simp add: cell_at_def) (metis option.simps(5))
qed

text \<open>The order in which the guards list the children: as the catalog has them, by quadrant.\<close>

definition catalog_order :: "('c, 'y) env_scheme \<Rightarrow> 'c \<Rightarrow> string \<Rightarrow> string list \<Rightarrow> bool" where
  "catalog_order env c p ordered \<longleftrightarrow> (\<exists>cat allCells parent children. catalog_of env = Some cat \<and>
     ListAll cat c = Inr allCells \<and> FindCellByID (ListAll cat c) p = Inr (Some parent, True) \<and>
     CatalogMergeChildren (Some parent) allCells = Inr children \<and> ordered = map (\<lambda>ch. TrimSpace (cs_Id ch)) children)"

lemma guards_order:
  assumes "merge_guards env cat p ids g = (Inr (ordered, n), g')" "catalog_of env = Some cat"
  shows "catalog_order env (reg g) p ordered"
  using assms(1) by (rule merge_guards_Inr) (use assms(2) in \<open>auto simp: catalog_order_def\<close>)

text \<open>
  C19: The parent of a merge ends with exactly the children's NPCs. Suppose the handoff of players is
  disabled (\<open>MMO_GRID_MERGE_PLAYER_HANDOFF\<close> unset or off), no call is lost and the five cells have
  different addresses. Then a successful merge replaces the parent's whole world by the \<open>float32\<close>
  images of the children's NPCs, laid over one another in the quadrant order of the catalog: where two
  children have an entity of the same number, only the later one survives, and nothing is left of the
  parent's own NPCs. The children keep theirs; no other cell and no registration is touched.
\<close>

theorem ForwardMergeHandoff_unites:
  assumes "turns g = []" "ForwardMergeHandoff env (Some req) g = (Inr resp, g')"
    and "sound_env env" "\<not> mergePlayerHandoffEnabled (getenv env)" "servers_ok (servers g)"
    and "p = TrimSpace (mh_ParentCellId req)" "ids = uniqueCellIDs (mh_ChildCellIds req)"
    and "distinct (map (address env (reg g)) (p # ids))"
  shows "\<exists>ordered sp' r'. catalog_order env (reg g) p ordered \<and> distinct ordered \<and> set ordered = set ids \<and>
      cell_at env g' p = Some sp' \<and> Sim sp' = Some r' \<and>
      contents (world r') = overlay (map (\<lambda>i. npc_image (the (cell_at env g i))) ordered) \<and>
      (\<forall>i \<in> set ids. \<exists>s. cell_at env g i = Some s \<and> cell_at env g' i = Some (s\<lparr>splitDrain := False\<rparr>)) \<and>
      (\<forall>ep. ep \<notin> endpoints env (reg g) (set (p # ids)) \<longrightarrow> servers g' ep = servers g ep) \<and> reg g' = reg g"
  using assms(2)
proof (cases rule: ForwardMergeHandoff_cases)
  case (locked reason h)
  let ?c = "reg g"
  let ?g0 = "(merge_event env p [] ''detected'' (Said [Text ''merge workflow detected'']) False g)
      \<lparr>mergeInFlight := insert p (mergeInFlight g)\<rparr>"
  have locked: "merge_locked env p ids reason ?g0 = (Inr resp, h)" "servers g' = servers h" "reg g' = reg h"
    using locked(3,4) assms(6,7) by simp_all
  have dist: "distinct ids" using unique_ids_distinct by (simp add: assms(7) uniqueCellIDs_def)
  have idle0: "idle ?c (servers g) ?g0" using assms(1) by (simp add: idle_def)
  have c0: "cell_at env ?g0 = cell_at env g" by (intro cell_at_cong) simp_all
  obtain cat ordered n g1 g3 where m: "catalog_of env = Some cat" "length ids = 4"
    "merge_guards env cat p ids ?g0 = (Inr (ordered, n), g1)"
    "merge_transfer env p reason ordered n (fold (drain_child env p) ordered (set_drain env True p g1)) = (Inr resp, g3)"
    "h = fold (set_drain env False) (ordered @ [p]) g3"
    using locked(1) by (rule merge_locked_Inr)
  have ord: "set ordered = set ids" "length ordered = 4" and up: "\<forall>i \<in> set (p # ids). \<exists>s. cell_at env g i = Some s"
    using guards_reached[OF m(3) idle0 m(1) dist m(2)] c0 by auto
  have dord: "distinct ordered" using ord dist m(2) by (metis card_distinct distinct_card)
  have g1: "turns g1 = []" "reg g1 = ?c" "servers g1 = servers g"
    using keepsD[OF guards_read idle0 m(3)] by (simp_all add: idle_def)
  have c1: "cell_at env g1 = cell_at env g" using g1 by (intro cell_at_cong)
  let ?g2 = "fold (drain_child env p) ordered (set_drain env True p g1)"
  have B: "servers ?g2 = drained True (endpoints env ?c (set (p # ids))) (servers g)" "reg ?g2 = ?c" "turns ?g2 = []"
    using drain_stage[OF g1(1), of p ordered env] g1 up c1 ord(1) by simp_all
  have cells: "cell_at env ?g2 i = Some (s\<lparr>splitDrain := True\<rparr>)" if "i \<in> set (p # ids)" "cell_at env g i = Some s" for i s
    using cell_at_drained[OF that B(2,1)] .
  obtain ep sp where sp: "address env ?c p = Some ep" "servers g ep = Some sp" using up by (meson cell_atE list.set_intros(1))
  have sp2: "servers ?g2 ep = Some (sp\<lparr>splitDrain := True\<rparr>)" "address env (reg ?g2) p = Some ep"
    using cells[of p sp] sp B(2) by (simp_all add: cell_at_def)
  have ready: "\<exists>s r. cell_at env ?g2 i = Some s \<and> Sim s = Some r \<and> world_inv (world r)" if i: "i \<in> set (p # ids)" for i
  proof -
    obtain s where s: "cell_at env g i = Some s" using up i by blast
    from s obtain ei where "servers g ei = Some s" by (rule cell_atE)
    from server_invD(2)[OF servers_okD[OF assms(5) this]] obtain r where "Sim s = Some r" "world_inv (world r)"
      unfolding sim_inv_def by blast
    with cells[OF i s] show ?thesis by simp
  qed
  have "npc_image (the (cell_at env ?g2 i)) = npc_image (the (cell_at env g i))" if "i \<in> set ids" for i
    using up cells[of i] that by auto
  then have images: "map (\<lambda>i. npc_image (the (cell_at env ?g2 i))) ordered = map (\<lambda>i. npc_image (the (cell_at env g i))) ordered"
    using ord(1) by simp
  have comm: "sp\<lparr>splitDrain := True, Sim := x\<rparr> = sp\<lparr>Sim := x, splitDrain := True\<rparr>" for x by simp
  obtain r' where C: "servers g3 = (servers ?g2)(ep \<mapsto> sp\<lparr>Sim := Some r', splitDrain := True\<rparr>)" "reg g3 = ?c" "turns g3 = []"
    "contents (world r') = overlay (map (\<lambda>i. npc_image (the (cell_at env g i))) ordered)"
    using transfer_quiet[OF assms(3) B(3) assms(4) _ m(4) sp2(2,1)] ready ord(1) unfolding B(2) images comm by auto
  have "\<forall>i \<in> set ids. \<exists>ei s. address env ?c i = Some ei \<and> servers g ei = Some s \<and> ei \<noteq> ep"
  proof
    fix i assume i: "i \<in> set ids"
    obtain ei s where "address env ?c i = Some ei" "servers g ei = Some s" using up i by (meson cell_atE list.set_intros(2))
    moreover from this have "ei \<noteq> ep"
      using assms(8) i sp(1) by (metis distinct.simps(2) image_eqI list.simps(9) set_map)
    ultimately show "\<exists>ei s. address env ?c i = Some ei \<and> servers g ei = Some s \<and> ei \<noteq> ep" by blast
  qed
  then have h: "cell_at env h p = Some (sp\<lparr>Sim := Some r', splitDrain := False\<rparr>)" "reg h = ?c"
    "\<forall>i \<in> set ids. \<exists>ei s. address env ?c i = Some ei \<and> servers g ei = Some s \<and> cell_at env h i = Some (s\<lparr>splitDrain := False\<rparr>)"
    "\<forall>e. e \<notin> endpoints env ?c (set (p # ids)) \<longrightarrow> servers h e = servers g e"
    using reset_stage[OF C(3), of env p ordered "servers g" ep "sp\<lparr>Sim := Some r'\<rparr>"] C(1,2) B(1) sp(1) ord(1) m(5) by simp_all
  have c: "cell_at env g' = cell_at env h" using locked(2,3) by (intro cell_at_cong)
  show ?thesis
    using guards_order[OF m(3,1)] dord ord(1) C(4) h locked(2,3) unfolding c
    by (intro exI[of _ ordered] exI[of _ "sp\<lparr>Sim := Some r', splitDrain := False\<rparr>"] exI[of _ r']) (auto simp: cell_at_def)
qed simp

section \<open>What the automation state says\<close>

text \<open>
  C20: A merge records more than it has done. Whatever happens to its calls, as long as nobody else
  changes the catalog, a successful \<open>ForwardMergeHandoff\<close> leaves every registration in place; yet with
  Redis configured it has stored for the parent that the topology is switched and the removal of the
  children is queued.
\<close>

theorem ForwardMergeHandoff_claims_switch:
  assumes "ForwardMergeHandoff env (Some req) g = (Inr resp, g')" "\<forall>t \<in> set (turns g). t_others t = id"
    and "TrimSpace (getenv env ''REDIS_ADDR'') \<noteq> []"
    and "\<And>k st store. fst (redisSet env k st store) = None \<Longrightarrow> snd (redisSet env k st store) = store(k \<mapsto> st)"
  shows "reg g' = reg g \<and>
    (\<exists>st. mergeStates g' (''mmo:grid:merge:state:'' @ TrimSpace (mh_ParentCellId req)) = Some st \<and>
      ms_topology_switched st \<and> ms_runtime_teardown_queued st \<and> ms_phase st = ''automation_complete'')"
  using assms(1)
proof (cases rule: ForwardMergeHandoff_cases)
  case (locked reason h)
  let ?p = "TrimSpace (mh_ParentCellId req)"
  have "undisturbed (reg g) h"
    by (rule keepsD[OF calm_merge.kept_locked _ locked(3)]) (use assms(2) in \<open>simp add: undisturbed_def\<close>)
  moreover obtain cat ordered n g1 g3 where m: "merge_transfer env ?p reason ordered n
      (fold (drain_child env ?p) ordered (set_drain env True ?p g1)) = (Inr resp, g3)"
    "h = fold (set_drain env False) (ordered @ [?p]) g3"
    using merge_locked_Inr[OF locked(3)] by metis
  obtain ents moved gc gd where save: "saveMergeAutomationState env ?p ordered moved (mergePlayerHandoffEnabled (getenv env)) gc = (Inr (), gd)"
    and g3: "g3 = merge_event env ?p [] ''done'' (Said [Text ''merge handoff completed'']) True gd"
    using merge_transfer_Inr[OF m(1)] by metis
  have "mergeStates h = mergeStates g3"
    unfolding m(2) by (rule fold_keeps[of "\<lambda>g. mergeStates g = mergeStates g3"]) (simp_all add: unsaved.kept_drain)
  then have "mergeStates h = mergeStates gd" by (simp add: g3)
  moreover have "\<exists>st. mergeStates gd (''mmo:grid:merge:state:'' @ ?p) = Some st \<and> ms_topology_switched st \<and>
      ms_runtime_teardown_queued st \<and> ms_phase st = ''automation_complete''"
  proof -
    let ?key = "''mmo:grid:merge:state:'' @ ?p"
    let ?st = "\<lparr>ms_phase = ''automation_complete'', ms_parent_cell_id = ?p, ms_removed_children = ordered, ms_topology_switched = True,
        ms_runtime_teardown_queued = True, ms_player_handoff_enabled = mergePlayerHandoffEnabled (getenv env),
        ms_player_handoff_count = moved, ms_at_unix_ms = unix_ms (clock gc)\<rparr>"
    obtain err store where r: "redisSet env ?key ?st (mergeStates gc) = (err, store)" by fastforce
    with save assms(3) have saved: "err = None" "gd = gc\<lparr>mergeStates := store\<rparr>"
      by (auto simp: saveMergeAutomationState_def TrimSpace_idem fail_def give_def Let_def split: option.splits)
    have "store = (mergeStates gc)(?key \<mapsto> ?st)" using assms(4)[of ?key ?st "mergeStates gc"] r saved(1) by simp
    then show ?thesis by (simp add: saved(2))
  qed
  ultimately show ?thesis by (simp add: locked(4) undisturbed_def)
qed simp

end
