(* ===== verification/Merge_Demo.thy ===== *)
theory Merge_Demo
  imports Merge_Result
begin

text \<open>
  A world of one parent and its four children: a merge that succeeds, all cells being empty (for a
  merge of cells with colliding NPCs see the theory \<open>Merge_Collision\<close>). The texts of the persists that
  occur are given by a table.
\<close>

definition merge_names :: "string list" where
  "merge_names = [''cell_q0'', ''cell_q1'', ''cell_q2'', ''cell_q3'']"

definition merged_persist :: CellPersist where
  "merged_persist = \<lparr>SchemaVersion = 1, Tick = 0, LoopTps = Fin 0, Entities = []\<rparr>"

text \<open>A cell with one NPC, at \<open>(x, 0, 0)\<close>, and what it exports; two such exports merged.\<close>

definition npc_runtime :: "rat \<Rightarrow> Runtime" where
  "npc_runtime x = NewRuntime\<lparr>world := NewWorld\<lparr>nextID := 1, alive := {1},
     positions := [1 \<mapsto> \<lparr>PX = Fin x, PY = Fin 0, PZ = Fin 0\<rparr>]\<rparr>\<rparr>"

definition npc_persist :: "rat \<Rightarrow> CellPersist" where
  "npc_persist x = Encode [1] (Some (npc_runtime x)) (Some (\<lambda>e. False))"

definition collided_persist :: CellPersist where
  "collided_persist = \<lparr>SchemaVersion = 1, Tick = 0, LoopTps = Fin 0, Entities = Entities (npc_persist 3) @ Entities (npc_persist 5)\<rparr>"

definition merge_json :: json where
  "merge_json = \<lparr>Marshal = (\<lambda>p. if p = demo_persist then Inr ''{tps}'' else if p = merged_persist then Inr ''{}''
       else if p = npc_persist 3 then Inr ''{3}'' else if p = npc_persist 5 then Inr ''{5}''
       else if p = collided_persist then Inr ''{3,5}'' else Inl ''unsupported''),
     Unmarshal = (\<lambda>t. if t = ''{tps}'' then Inr demo_persist else if t = ''{}'' then Inr merged_persist
       else if t = ''{3}'' then Inr (npc_persist 3) else if t = ''{5}'' then Inr (npc_persist 5)
       else if t = ''{3,5}'' then Inr collided_persist else Inl ''invalid'')\<rparr>"

text \<open>The listing visits the five names as far as they are registered.\<close>

definition merge_order :: "Memory \<Rightarrow> string list" where
  "merge_order m = filter (\<lambda>i. cells m i \<noteq> None) (''cell_root'' # merge_names)"

definition merge_demo_env :: "'y \<Rightarrow> (Memory, 'y) merge_env_scheme" where
  "merge_demo_env mx =
     \<lparr>catalog_of = Some (MemoryCatalog merge_order), js = merge_json, dial_error = (\<lambda>ep. None),
      visit_live = (\<lambda>s. case Sim s of None \<Rightarrow> [] | Some r \<Rightarrow> sorted_list_of_set (alive (world r))),
      visit_names = (\<lambda>s. []), visit_prepared = (\<lambda>s. []),
      getenv = (\<lambda>name. if name = ''REDIS_ADDR'' then ''redis'' else []), natsConnected = True,
      redisSet = (\<lambda>k st store. (None, store(k \<mapsto> st))), \<dots> = mx\<rparr>"

definition merge_demo_servers :: "string \<rightharpoonup> Server" where
  "merge_demo_servers =
     map_of ((''a'', new_server ''cell_root'' None 0 NewRuntime) # map (\<lambda>i. (i, new_server i None 1 NewRuntime)) merge_names)"

definition merge_world :: Memory where
  "merge_world = world_split"

definition merge_listing :: "CellSpec option list" where
  "merge_listing = map Some (world_parent # world_children)"

definition merge_children :: "CellSpec list" where
  "merge_children = world_children"

definition merge_demo_grid :: "Memory MergeGrid" where
  "merge_demo_grid = \<lparr>reg = merge_world, servers = merge_demo_servers, turns = [], clock = 0, mergeInFlight = {},
     mergeEvents = [], mergeStates = Map.empty\<rparr>"

definition merge_demo_request :: MergeHandoffRequest where
  "merge_demo_request = \<lparr>mh_ParentCellId = ''cell_root'', mh_ChildCellIds = merge_names, mh_Reason = []\<rparr>"

lemma merge_names_trimmed: "TrimSpace ''cell_root'' = ''cell_root''" "\<forall>i \<in> set merge_names. TrimSpace i = i"
  by (simp_all add: merge_names_def TrimSpace_trimmed trimmedI ascii_graph_def)

lemma merge_demo_ids: "uniqueCellIDs (mh_ChildCellIds merge_demo_request) = merge_names"
  using merge_names_trimmed(2) by (simp add: merge_demo_request_def uniqueCellIDs_def merge_names_def Let_def)

lemma merge_order_world: "merge_order merge_world = ''cell_root'' # merge_names"
  by (simp add: merge_order_def merge_names_def registered_def world_child_names merge_world_def)

lemma merge_demo_listing: "MemoryCatalog_List (merge_order merge_world) merge_world = Inr merge_listing"
  unfolding merge_order_world
  by (simp add: MemoryCatalog_List_def List_def merge_names_def registered_def world_child_names merge_world_def merge_listing_def)

lemma merge_demo_children: "CatalogMergeChildren (Some world_parent) merge_listing = Inr merge_children"
  unfolding merge_listing_def merge_children_def
  using world_distinct world_plan by (rule split_then_merge[where others = "{Some world_parent}"]) (simp_all add: to_int32_def)

lemma merge_demo_valid: "ValidateMergeChildren (Some world_bounds) 0 (map Some merge_children) = None"
  using catalog_children_valid[OF _ world_distinct(1) merge_demo_children] by simp

abbreviation merge_catalog :: "Memory Catalog" where
  "merge_catalog \<equiv> MemoryCatalog merge_order"

lemma merge_demo_sel [simp]:
  "catalog_of (merge_demo_env mx) = Some merge_catalog" "js (merge_demo_env mx) = merge_json"
  "dial_error (merge_demo_env mx) = (\<lambda>ep. None)" "natsConnected (merge_demo_env mx)"
  "getenv (merge_demo_env mx) = (\<lambda>name. if name = ''REDIS_ADDR'' then ''redis'' else [])"
  "visit_live (merge_demo_env mx) s = (case Sim s of None \<Rightarrow> [] | Some r \<Rightarrow> sorted_list_of_set (alive (world r)))"
  "redisSet (merge_demo_env mx) = (\<lambda>k st store. (None, store(k \<mapsto> st)))"
  by (simp_all add: merge_demo_env_def)

lemma merge_demo_list: "ListAll merge_catalog merge_world = Inr merge_listing"
  by (simp add: MemoryCatalog_def merge_demo_listing)

lemma merge_demo_find:
  "FindCellByID (Inr merge_listing :: string + CellSpec option list) ''cell_root'' = Inr (Some world_parent, True)"
  "i \<in> set merge_names \<Longrightarrow> \<exists>c. FindCellByID (Inr merge_listing :: string + CellSpec option list) i = Inr (Some c, True) \<and> cs_GrpcEndpoint c = i"
  by (auto simp: FindCellByID_def merge_names_def registered_def world_child_names merge_listing_def)

lemma merge_demo_address:
  "address (merge_demo_env mx) merge_world ''cell_root'' = Some ''a''"
  "i \<in> set merge_names \<Longrightarrow> address (merge_demo_env mx) merge_world i = Some i"
proof -
  show "address (merge_demo_env mx) merge_world ''cell_root'' = Some ''a''"
    by (simp add: address_def merge_demo_list merge_demo_find(1))
  assume i: "i \<in> set merge_names"
  then have "i \<noteq> []" by (auto simp: merge_names_def)
  with merge_demo_find(2)[OF i] show "address (merge_demo_env mx) merge_world i = Some i"
    by (auto simp: address_def merge_demo_list)
qed

text \<open>The guards pass on every idle grid of this world.\<close>

lemma merge_demo_server:
  "merge_demo_servers ''a'' = Some (new_server ''cell_root'' None 0 NewRuntime)"
  "i \<in> set merge_names \<Longrightarrow> merge_demo_servers i = Some (new_server i None 1 NewRuntime)"
  by (auto simp: merge_demo_servers_def merge_names_def)

lemma ping_idle:
  assumes "idle c ss g" "address env c i = Some ep" "ss ep = Some s" "TrimSpace ep \<noteq> []" "catalog_of env = Some cat"
  shows "pingPlayerCount env cat i g = (Inr (to_int32 (int (PlayerCount s))), g)"
proof -
  have "call ep (\<lambda>now s. (Ping (unix_ms now) s, s)) g = (Inr (Ping (unix_ms (clock g)) s), g)"
    using assms(1,3) by (simp add: idle_def call_def next_turn_def fun_upd_idem)
  moreover have "ping_PlayerCount (Ping t s) = to_int32 (int (PlayerCount s))" for t
    by (simp add: Ping_def Let_def split: option.split)
  ultimately show ?thesis
    using assms(1,2,4,5)
    by (auto simp: pingPlayerCount_def address_def idle_def andThen_def give_def split: option.splits sum.splits prod.splits bool.splits if_splits)
qed

definition empty_cells :: "(string \<rightharpoonup> Server) \<Rightarrow> bool" where
  "empty_cells ss \<longleftrightarrow> (\<forall>i \<in> set (''a'' # merge_names). \<exists>s. ss i = Some s \<and> Sim s = Some NewRuntime \<and> PlayerCount s = 0)"

definition quiet_cells :: "(string \<rightharpoonup> Server) \<Rightarrow> bool" where
  "quiet_cells ss \<longleftrightarrow> (\<forall>i \<in> set (''a'' # merge_names). \<exists>s. ss i = Some s \<and> PlayerCount s = 0)"

lemma empty_quiet: "empty_cells ss \<Longrightarrow> quiet_cells ss"
  unfolding empty_cells_def quiet_cells_def by blast

lemma merge_demo_empty: "empty_cells merge_demo_servers"
  using merge_demo_server by (simp add: empty_cells_def new_server_def PlayerCount_def)

lemma ping_empty:
  assumes "idle merge_world ss g" "quiet_cells ss" "i \<in> set (''cell_root'' # merge_names)"
  shows "pingPlayerCount (merge_demo_env mx) merge_catalog i g = (Inr 0, g)"
proof -
  obtain ep where ep: "address (merge_demo_env mx) merge_world i = Some ep" "ep \<in> set (''a'' # merge_names)"
    using assms(3) merge_demo_address(1)[of mx] merge_demo_address(2)[of i mx] by (cases "i = ''cell_root''") auto
  have "TrimSpace ep \<noteq> []"
    using ep(2) merge_names_trimmed(2) by (auto simp: merge_names_def TrimSpace_trimmed trimmedI ascii_graph_def)
  moreover obtain s where "ss ep = Some s" "PlayerCount s = 0" using assms(2) ep(2) unfolding quiet_cells_def by blast
  ultimately show ?thesis using ping_idle[OF assms(1) ep(1), of s] by (simp add: to_int32_def)
qed

lemma merge_demo_guards:
  assumes "idle merge_world ss g" "quiet_cells ss"
  shows "merge_guards (merge_demo_env mx) merge_catalog ''cell_root'' merge_names g = (Inr (merge_names, 0), g)"
proof -
  have root: "pingPlayerCount (merge_demo_env mx) merge_catalog ''cell_root'' g = (Inr 0, g)"
    by (rule ping_empty[OF assms]) simp
  have child: "pingPlayerCount (merge_demo_env mx) merge_catalog i g = (Inr 0, g)" if "i \<in> set merge_names" for i
    by (rule ping_empty[OF assms]) (simp add: that)
  have g: "reg g = merge_world" using assms by (simp add: idle_def)
  have ids: "map (\<lambda>ch. TrimSpace (cs_Id ch)) merge_children = merge_names"
    using merge_names_trimmed(2) by (simp add: merge_names_def registered_def world_child_names merge_children_def)
  have off: "\<not> mergePlayerHandoffEnabled (getenv (merge_demo_env mx))" by (simp add: mergePlayerHandoffEnabled_def)
  have find: "find (\<lambda>i. i \<notin> set merge_names) merge_names = None" by (simp add: find_None_iff)
  have pings: "ping_children (merge_demo_env mx) merge_catalog False 0 merge_names g = (Inr 0, g)"
    using child by (simp add: merge_names_def andThen_def give_def)
  show ?thesis
    unfolding merge_guards_def g merge_demo_list merge_demo_find(1)
    by (simp add: merge_demo_children merge_demo_valid ids off[simplified] find root pings andThen_def give_def Let_def)
qed

text \<open>The merge itself succeeds.\<close>

lemma demo_persist_neq: "merged_persist \<noteq> demo_persist"
proof -
  have "to_f32 (Fin 25) \<noteq> Fin 0" by code_simp
  then show ?thesis by (simp add: merged_persist_def demo_persist_def)
qed

lemma merge_demo_exports:
  assumes "turns g = []" "reg g = merge_world"
    and "\<forall>i \<in> set ids. i \<in> set merge_names \<and> (\<exists>s. servers g i = Some s \<and> Sim s = Some NewRuntime)"
  shows "\<exists>g'. export_children (merge_demo_env mx) p reason [] ids g = (Inr [], g') \<and> servers g' = servers g \<and> reg g' = merge_world \<and> turns g' = []"
  using assms
proof (induction ids arbitrary: g)
  case Nil
  then show ?case by (simp add: give_def)
next
  case (Cons i ids)
  from Cons.prems(3) obtain s where i: "i \<in> set merge_names" and s: "servers g i = Some s" "Sim s = Some NewRuntime" by auto
  have persist: "Encode [] (Some NewRuntime) (Some (isPlayer s)) = demo_persist"
    by (simp add: Encode_def demo_persist_def schemaVersion_def List.map_filter_simps NewRuntime_def NewGameLoop_def defaultTPS_def)
  define r where "r = \<lparr>ur_Ok = True, ur_Message = Text (with_reason (''export_npc_persist entities='' @ Itoa 0)
      (Some (reason @ ''/export/'' @ i))), ur_NpcExportJson = ''{tps}''\<rparr>"
  have upd: "Update (js (merge_demo_env mx)) (visit_live (merge_demo_env mx) s) (Some (Some (ExportNpcPersist (Some (reason @ ''/export/'' @ i))))) s = (r, s)"
    using s(2) persist by (simp add: Update_def update_export_def r_def merge_json_def NewRuntime_def NewWorld_def demo_persist_def)
  have at: "address (merge_demo_env mx) (reg g) i = Some i" using merge_demo_address(2)[OF i, of mx] Cons.prems(2) by simp
  have call: "doForwardCellUpdate (merge_demo_env mx) i (Some (Some (ExportNpcPersist (Some (reason @ ''/export/'' @ i))))) g = (Inr r, g)"
    using update_quiet[OF Cons.prems(1) at s(1) upd] s(1) by (simp add: fun_upd_idem)
  let ?g = "merge_event (merge_demo_env mx) p i ''child_exported'' (Said [Text ''child export ok'']) False g"
  have "TrimSpace ''{tps}'' = ''{tps}''" by (simp add: TrimSpace_trimmed trimmedI ascii_graph_def)
  then have "export_children (merge_demo_env mx) p reason [] (i # ids) g = export_children (merge_demo_env mx) p reason [] ids ?g"
    using call by (simp add: andThen_def reporting_def doing_def r_def merge_json_def demo_persist_def)
  with Cons.IH[of ?g] Cons.prems show ?case by simp
qed

lemma merge_demo_import:
  assumes "turns g = []" "reg g = merge_world" "servers g ''a'' = Some s" "Sim s = Some NewRuntime" "PlayerCount s = 0"
  shows "\<exists>r g'. doForwardCellUpdate (merge_demo_env mx) ''cell_root'' (Some (Some (ImportNpcPersist (Some (''{}'', reason))))) g = (Inr r, g') \<and> ur_Ok r"
proof -
  have "TrimSpace ''{}'' = ''{}''" by (simp add: TrimSpace_trimmed trimmedI ascii_graph_def)
  moreover have "Decode [] (Some merged_persist) (Some NewRuntime) = Inr (NewRuntime\<lparr>loop := (loop NewRuntime)\<lparr>TickCount := 0\<rparr>\<rparr>)"
    by (simp add: Decode_def merged_persist_def schemaVersion_def)
  ultimately obtain r s' where upd: "Update (js (merge_demo_env mx)) (visit_live (merge_demo_env mx) s)
      (Some (Some (ImportNpcPersist (Some (''{}'', reason))))) s = (r, s')" "ur_Ok r"
    using assms(4,5) demo_persist_neq
    by (simp add: Update_def update_import_def merge_json_def) (simp add: NewRuntime_def NewWorld_def)
  have "address (merge_demo_env mx) (reg g) ''cell_root'' = Some ''a''" using merge_demo_address(1)[of mx] assms(2) by simp
  from update_quiet[OF assms(1) this assms(3) upd(1)] upd(2) show ?thesis by blast
qed

lemma merge_demo_transfer:
  assumes "turns g = []" "reg g = merge_world" "servers g ''a'' = Some s" "Sim s = Some NewRuntime" "PlayerCount s = 0"
    and "\<forall>i \<in> set merge_names. \<exists>s. servers g i = Some s \<and> Sim s = Some NewRuntime"
  shows "\<exists>resp. fst (merge_transfer (merge_demo_env mx) ''cell_root'' reason merge_names 0 g) = Inr resp"
proof -
  from merge_demo_exports[OF assms(1,2), of merge_names mx "''cell_root''" reason] assms(6) obtain ga where
    e: "export_children (merge_demo_env mx) ''cell_root'' reason [] merge_names g = (Inr [], ga)"
      "servers ga = servers g" "reg ga = merge_world" "turns ga = []" by blast
  from merge_demo_import[OF e(4,3), of s mx "reason @ ''/import_parent''"] assms(3-5) e(2) obtain r gb where
    i: "doForwardCellUpdate (merge_demo_env mx) ''cell_root'' (Some (Some (ImportNpcPersist (Some (''{}'', reason @ ''/import_parent''))))) ga
      = (Inr r, gb)" "ur_Ok r" by auto
  have m: "Marshal (js (merge_demo_env mx)) \<lparr>SchemaVersion = schemaVersion, Tick = 0, LoopTps = Fin 0, Entities = []\<rparr> = Inr ''{}''"
    using demo_persist_neq by (simp add: merge_json_def merged_persist_def schemaVersion_def)
  have redis: "TrimSpace ''redis'' = ''redis''" by (simp add: TrimSpace_trimmed trimmedI ascii_graph_def)
  obtain gd where save: "saveMergeAutomationState (merge_demo_env mx) ''cell_root'' merge_names 0 False gb = (Inr (), gd)"
    using redis by (simp add: saveMergeAutomationState_def give_def Let_def)
  have off: "\<not> mergePlayerHandoffEnabled (getenv (merge_demo_env mx))" by (simp add: mergePlayerHandoffEnabled_def)
  show ?thesis
    unfolding merge_transfer_def andThen_def e(1) Let_def
    using i m save off by (simp add: reporting_def give_def doing_def)
qed

lemma merge_demo_cells:
  assumes "reg g = merge_world" "quiet_cells (servers g)"
  shows "\<forall>i \<in> set (''cell_root'' # merge_names). \<exists>s. cell_at (merge_demo_env mx) g i = Some s"
  using assms merge_demo_address(1)[of mx] merge_demo_address(2)[of _ mx] by (auto simp: cell_at_def quiet_cells_def)

definition merge_request_for :: "string \<Rightarrow> MergeHandoffRequest" where
  "merge_request_for reason = \<lparr>mh_ParentCellId = ''cell_root'', mh_ChildCellIds = merge_names, mh_Reason = reason\<rparr>"

lemma merge_demo_success:
  fixes g :: "(Memory, 'z) MergeGrid_scheme"
  assumes "reg g = merge_world" "turns g = []" "mergeInFlight g = {}" "empty_cells (servers g)"
  shows "\<exists>resp. fst (ForwardMergeHandoff (merge_demo_env mx) (Some (merge_request_for reason)) g) = Inr resp"
proof -
  let ?env = "merge_demo_env mx"
  let ?reason = "if TrimSpace reason = [] then ''ForwardMergeHandoff'' else TrimSpace reason"
  let ?g0 = "(merge_event ?env ''cell_root'' [] ''detected'' (Said [Text ''merge workflow detected'']) False g)
      \<lparr>mergeInFlight := {''cell_root''}\<rparr>"
  let ?g2 = "fold (drain_child ?env ''cell_root'') merge_names (set_drain ?env True ''cell_root'' ?g0)"
  have g0: "reg ?g0 = merge_world" "servers ?g0 = servers g" "turns ?g0 = []" using assms by simp_all
  have "\<forall>i \<in> set (''cell_root'' # merge_names). \<exists>s. cell_at ?env ?g0 i = Some s"
    by (rule merge_demo_cells) (use g0 empty_quiet[OF assms(4)] in simp_all)
  from drain_stage[OF g0(3) this]
  have g2: "servers ?g2 = drained True (endpoints ?env merge_world (set (''cell_root'' # merge_names))) (servers g)"
    "reg ?g2 = merge_world" "turns ?g2 = []"
    by (simp_all only: g0 simp_thms)
  have at: "\<exists>s. servers ?g2 i = Some s \<and> Sim s = Some NewRuntime \<and> PlayerCount s = 0" if i: "i \<in> set (''a'' # merge_names)" for i
  proof -
    obtain s where s: "servers g i = Some s" "Sim s = Some NewRuntime" "PlayerCount s = 0"
      using bspec[OF assms(4)[unfolded empty_cells_def] i] by (elim exE conjE)
    have "\<exists>s. drained True A (servers g) i = Some s \<and> Sim s = Some NewRuntime \<and> PlayerCount s = 0" for A
      using s by (cases "i \<in> A") (simp_all add: drained_def PlayerCount_def)
    then show ?thesis unfolding g2(1) .
  qed
  have "''a'' \<in> set (''a'' # merge_names)" by simp
  from at[OF this] obtain s where "servers ?g2 ''a'' = Some s" "Sim s = Some NewRuntime" "PlayerCount s = 0" by (elim exE conjE)
  moreover have "\<forall>i \<in> set merge_names. \<exists>s. servers ?g2 i = Some s \<and> Sim s = Some NewRuntime"
  proof
    fix i assume "i \<in> set merge_names"
    then have "i \<in> set (''a'' # merge_names)" by simp
    from at[OF this] show "\<exists>s. servers ?g2 i = Some s \<and> Sim s = Some NewRuntime" by blast
  qed
  ultimately obtain resp where "fst (merge_transfer ?env ''cell_root'' ?reason merge_names 0 ?g2) = Inr resp"
    using merge_demo_transfer[OF g2(3,2), of s mx ?reason] by blast
  then obtain g3 where t: "merge_transfer ?env ''cell_root'' ?reason merge_names 0 ?g2 = (Inr resp, g3)"
    by (metis prod.collapse)
  have guards: "merge_guards ?env merge_catalog ''cell_root'' merge_names ?g0 = (Inr (merge_names, 0), ?g0)"
    using merge_demo_guards[of "servers g" ?g0 mx] g0 empty_quiet[OF assms(4)] by (simp add: idle_def)
  have "length merge_names = 4" by (simp add: merge_names_def)
  with t guards have "fst (merge_locked ?env ''cell_root'' merge_names ?reason ?g0) = Inr resp"
    by (simp add: merge_locked_def andThen_def doing_def deferring_def split: prod.splits)
  then obtain h where "merge_locked ?env ''cell_root'' merge_names ?reason ?g0 = (Inr resp, h)"
    by (metis prod.collapse)
  moreover have "tryAcquireMerge ''cell_root'' {} = (True, {''cell_root''})"
    by (simp add: tryAcquireMerge_def merge_names_trimmed(1))
  moreover have "uniqueCellIDs merge_names = merge_names" using merge_demo_ids by (simp add: merge_demo_request_def)
  ultimately show ?thesis
    using merge_names_trimmed(1) assms(3)
    by (cases "TrimSpace reason = []") (simp_all add: ForwardMergeHandoff_def merge_request_for_def deferring_def Let_def split: prod.splits)
qed

abbreviation unit_env :: "Memory merge_env" where
  "unit_env \<equiv> merge_demo_env ()"

lemma merge_demo_grid_sel [simp]:
  "reg merge_demo_grid = merge_world" "servers merge_demo_grid = merge_demo_servers" "turns merge_demo_grid = []"
  "mergeInFlight merge_demo_grid = {}"
  by (simp_all add: merge_demo_grid_def)

lemma merge_demo_grid_success:
  "\<exists>resp. fst (ForwardMergeHandoff unit_env (Some merge_demo_request) merge_demo_grid) = Inr resp"
proof -
  have "merge_request_for [] = merge_demo_request" by (simp add: merge_request_for_def merge_demo_request_def)
  then show ?thesis using merge_demo_success[of merge_demo_grid "()" "[]"] merge_demo_empty by simp
qed

text \<open>What is left for the theorems about merges: the environment is sound, the cells are well formed.\<close>

lemma merge_demo_sound: "sound_env (merge_demo_env mx)"
proof -
  have "TrimSpace ''{}'' = ''{}''" "TrimSpace ''{tps}'' = ''{tps}''" "TrimSpace ''{3}'' = ''{3}''"
    "TrimSpace ''{5}'' = ''{5}''" "TrimSpace ''{3,5}'' = ''{3,5}''" by (simp_all add: TrimSpace_trimmed trimmedI ascii_graph_def)
  then show ?thesis
    by (auto simp: sound_env_def merge_json_def visits_def split: if_splits)
qed

lemma merge_demo_servers_ok: "servers_ok (servers merge_demo_grid)"
proof -
  have "server_inv (new_server i b l NewRuntime)" for i b l by (rule server_inv_new[OF world_inv_NewRuntime])
  then show ?thesis
    by (auto simp: servers_ok_def merge_demo_grid_def merge_demo_servers_def merge_names_def split: if_splits)
qed

lemma merge_demo_distinct: "distinct (map (address (merge_demo_env mx) (reg merge_demo_grid)) (''cell_root'' # merge_names))"
proof -
  have "map (address (merge_demo_env mx) (reg merge_demo_grid)) (''cell_root'' # merge_names) = map Some (''a'' # merge_names)"
    using merge_demo_address(1)[of mx] merge_demo_address(2)[of _ mx] by (simp add: merge_demo_grid_def)
  then show ?thesis by (simp add: distinct_map merge_names_def)
qed

section \<open>Witnesses\<close>

theorem ForwardMergeHandoff_lock_witness:
  "mergeInFlight (snd (ForwardMergeHandoff unit_env (Some merge_demo_request) merge_demo_grid)) = {}"
  using ForwardMergeHandoff_lock[OF prod.collapse[symmetric], of unit_env "Some merge_demo_request" merge_demo_grid]
  by (simp add: merge_demo_grid_def)

theorem ForwardMergeHandoff_undrains_witness:
  "undrained_at unit_env (snd (ForwardMergeHandoff unit_env (Some merge_demo_request) merge_demo_grid)) ''cell_q3''"
proof -
  obtain resp where "fst (ForwardMergeHandoff unit_env (Some merge_demo_request) merge_demo_grid) = Inr resp"
    using merge_demo_grid_success by blast
  then show ?thesis
    using ForwardMergeHandoff_undrains[OF _ prod.collapse[symmetric], of merge_demo_grid unit_env merge_demo_request]
      merge_demo_ids by (auto simp: merge_demo_grid_def merge_names_def)
qed

theorem ForwardMergeHandoff_claims_switch_witness:
  "reg (snd (ForwardMergeHandoff unit_env (Some merge_demo_request) merge_demo_grid)) = merge_world \<and>
   (\<exists>st. mergeStates (snd (ForwardMergeHandoff unit_env (Some merge_demo_request) merge_demo_grid))
      ''mmo:grid:merge:state:cell_root'' = Some st \<and> ms_topology_switched st)"
proof -
  obtain resp g' where m: "ForwardMergeHandoff unit_env (Some merge_demo_request) merge_demo_grid = (Inr resp, g')"
    using merge_demo_grid_success by (metis prod.collapse)
  have redis: "TrimSpace ''redis'' \<noteq> []" by (simp add: TrimSpace_trimmed trimmedI ascii_graph_def)
  have p: "TrimSpace (mh_ParentCellId merge_demo_request) = ''cell_root''"
    by (simp add: merge_demo_request_def merge_names_trimmed(1))
  show ?thesis
    using ForwardMergeHandoff_claims_switch[OF m] redis p unfolding m by (auto simp: merge_demo_grid_def)
qed

end
