(* ===== verification/Merge_Collision.thy ===== *)
theory Merge_Collision
  imports Merge_Demo
begin

text \<open>
  A merge of cells that are not empty. First when a merge of quiet cells goes through: every export and
  the import have a text, no player is connected and the state can be stored. Then a world in which the
  parent and two of its children have an NPC of the same number.
\<close>

section \<open>A transfer that goes through\<close>

definition persist_of :: "('c, 'y) env_scheme \<Rightarrow> Server \<Rightarrow> CellPersist" where
  "persist_of env s = Encode (visit_live env s) (Sim s) (Some (isPlayer s))"

text \<open>The text of a persist that \<open>protojson\<close> produces and reads back, not blank.\<close>

definition has_text :: "json \<Rightarrow> CellPersist \<Rightarrow> bool" where
  "has_text j p \<longleftrightarrow> (\<exists>raw. Marshal j p = Inr raw \<and> TrimSpace raw \<noteq> [])"

lemma exports_succeed:
  assumes "sound_env env" "turns g = []"
    and "\<forall>i \<in> set ids. \<exists>s r. cell_at env g i = Some s \<and> Sim s = Some r \<and> has_text (js env) (persist_of env s)"
  shows "\<exists>g'. export_children env p reason merged ids g =
      (Inr (merged @ concat (map (\<lambda>i. Entities (persist_of env (the (cell_at env g i)))) ids)), g') \<and>
    servers g' = servers g \<and> reg g' = reg g \<and> turns g' = []"
  using assms(2,3)
proof (induction ids arbitrary: g merged)
  case (Cons i ids)
  from Cons.prems(2) obtain s r raw where s: "cell_at env g i = Some s" "Sim s = Some r"
    and raw: "Marshal (js env) (persist_of env s) = Inr raw" "TrimSpace raw \<noteq> []" by (auto simp: has_text_def)
  from s(1) obtain ep where ep: "address env (reg g) i = Some ep" "servers g ep = Some s" by (rule cell_atE)
  obtain m where u: "Update (js env) (visit_live env s) (Some (Some (ExportNpcPersist (Some (reason @ ''/export/'' @ i))))) s =
      (\<lparr>ur_Ok = True, ur_Message = m, ur_NpcExportJson = raw\<rparr>, s)"
    using s(2) raw(1) by (simp add: Update_def update_export_def persist_of_def Let_def)
  have call: "doForwardCellUpdate env i (Some (Some (ExportNpcPersist (Some (reason @ ''/export/'' @ i))))) g =
      (Inr \<lparr>ur_Ok = True, ur_Message = m, ur_NpcExportJson = raw\<rparr>, g)"
    using update_quiet[OF Cons.prems(1) ep u] ep(2) by (simp add: fun_upd_idem)
  have parsed: "Unmarshal (js env) raw = Inr (persist_of env s)" using assms(1) raw(1) by (simp add: sound_env_def)
  let ?g = "merge_event env p i ''child_exported'' (Said [Text ''child export ok'']) False g"
  have step: "export_children env p reason merged (i # ids) g =
      export_children env p reason (merged @ Entities (persist_of env s)) ids ?g"
    using call raw(2) parsed by (simp add: andThen_def reporting_def doing_def)
  have c: "cell_at env ?g = cell_at env g" by (intro cell_at_cong) simp_all
  have "\<exists>g'. export_children env p reason (merged @ Entities (persist_of env s)) ids ?g =
      (Inr ((merged @ Entities (persist_of env s)) @ concat (map (\<lambda>i. Entities (persist_of env (the (cell_at env ?g i)))) ids)), g') \<and>
    servers g' = servers ?g \<and> reg g' = reg ?g \<and> turns g' = []"
    by (rule Cons.IH) (use Cons.prems in \<open>simp_all add: c\<close>)
  then show ?case
    unfolding step using s(1) by (simp add: c)
qed (simp add: give_def)

lemma save_stored:
  assumes "\<And>k st store. fst (redisSet env k st store) = None"
  shows "\<exists>g'. saveMergeAutomationState env p ids n handoff g = (Inr (), g')"
  using assms by (simp add: saveMergeAutomationState_def give_def Let_def case_prod_beta)

lemma transfer_succeeds:
  assumes "sound_env env" "turns g = []" "\<not> mergePlayerHandoffEnabled (getenv env)"
    and "\<forall>i \<in> set ids. \<exists>s r. cell_at env g i = Some s \<and> Sim s = Some r \<and> has_text (js env) (persist_of env s)"
    and "cell_at env g p = Some sp" "Sim sp = Some r" "PlayerCount sp = 0"
    and "has_text (js env) \<lparr>SchemaVersion = schemaVersion, Tick = 0, LoopTps = Fin 0,
      Entities = concat (map (\<lambda>i. Entities (persist_of env (the (cell_at env g i)))) ids)\<rparr>"
    and "\<And>k st store. fst (redisSet env k st store) = None"
  shows "\<exists>resp g'. merge_transfer env p reason ids n g = (Inr resp, g')"
proof -
  let ?ents = "concat (map (\<lambda>i. Entities (persist_of env (the (cell_at env g i)))) ids)"
  let ?p = "\<lparr>SchemaVersion = schemaVersion, Tick = 0, LoopTps = Fin 0, Entities = ?ents\<rparr>"
  obtain ga where e: "export_children env p reason [] ids g = (Inr ?ents, ga)" "servers ga = servers g" "reg ga = reg g" "turns ga = []"
    using exports_succeed[OF assms(1,2,4), of p reason "[]"] by auto
  obtain raw where raw: "Marshal (js env) ?p = Inr raw" "TrimSpace raw \<noteq> []" using assms(8) by (auto simp: has_text_def)
  obtain ep where ep: "address env (reg g) p = Some ep" "servers g ep = Some sp" using assms(5) by (rule cell_atE)
  have "Unmarshal (js env) (TrimSpace raw) = Inr ?p" using assms(1) raw(1) by (simp add: sound_env_def)
  moreover obtain r' where "Decode (visit_live env sp) (Some ?p) (Some r) = Inr r'" by (simp add: Decode_def)
  ultimately obtain m where u: "Update (js env) (visit_live env sp)
      (Some (Some (ImportNpcPersist (Some (raw, reason @ ''/import_parent''))))) sp =
      (\<lparr>ur_Ok = True, ur_Message = m, ur_NpcExportJson = []\<rparr>, sp\<lparr>Sim := Some r'\<rparr>)"
    using assms(6,7) raw(2) by (simp add: Update_def update_import_def Let_def)
  have at: "address env (reg ga) p = Some ep" "servers ga ep = Some sp" using ep e by simp_all
  note i = update_quiet[OF e(4) at u]
  obtain gd where save: "saveMergeAutomationState env p ids 0 False (ga\<lparr>servers := (servers ga)(ep \<mapsto> sp\<lparr>Sim := Some r'\<rparr>)\<rparr>) = (Inr (), gd)"
    using save_stored[OF assms(9)] by blast
  show ?thesis
    unfolding merge_transfer_def andThen_def e(1) Let_def
    using i raw(1) save assms(3) by (simp add: reporting_def give_def doing_def)
qed

section \<open>A collision\<close>

text \<open>The parent has an NPC at 7, the first two children one at 3 and at 5; each is entity 1 of its cell.\<close>

definition npc_server :: "string \<Rightarrow> int32 \<Rightarrow> rat \<Rightarrow> Server" where
  "npc_server i l x = new_server i None l (npc_runtime x)"

definition collision_servers :: "string \<rightharpoonup> Server" where
  "collision_servers = merge_demo_servers(''a'' \<mapsto> npc_server ''cell_root'' 0 7,
     ''cell_q0'' \<mapsto> npc_server ''cell_q0'' 1 3, ''cell_q1'' \<mapsto> npc_server ''cell_q1'' 1 5)"

definition collision_grid :: "Memory MergeGrid" where
  "collision_grid = merge_demo_grid\<lparr>servers := collision_servers\<rparr>"

lemma collision_sel [simp]:
  "reg collision_grid = merge_world" "servers collision_grid = collision_servers" "turns collision_grid = []"
  "mergeInFlight collision_grid = {}"
  by (simp_all add: collision_grid_def)

lemma npc_server_simps [simp]:
  "Sim (npc_server i l x) = Some (npc_runtime x)" "PlayerCount (npc_server i l x) = 0" "isPlayer (npc_server i l x) = (\<lambda>e. False)"
  "Sim (new_server i b l r) = Some r"
  by (auto simp: npc_server_def new_server_def PlayerCount_def isPlayer_def)

lemma world_inv_npc: "world_inv (world (npc_runtime x))"
  by (auto simp: npc_runtime_def world_inv_def owned_def NewWorld_def)

lemma collision_quiet: "quiet_cells collision_servers"
  using merge_demo_empty by (auto simp: quiet_cells_def collision_servers_def empty_cells_def merge_names_def)

lemma collision_ok: "servers_ok (servers collision_grid)"
proof -
  have "server_inv (npc_server i l x)" for i l x
    unfolding npc_server_def by (rule server_inv_new[OF world_inv_npc])
  moreover have "servers_ok merge_demo_servers" using merge_demo_servers_ok by simp
  ultimately show ?thesis by (auto simp: servers_ok_def collision_servers_def split: if_splits)
qed

lemma persist_drain [simp]: "persist_of env (s\<lparr>splitDrain := b\<rparr>) = persist_of env s"
  if "\<And>s b. visit_live env (s\<lparr>splitDrain := b\<rparr>) = visit_live env s"
proof -
  have "isPlayer (s\<lparr>splitDrain := b\<rparr>) = isPlayer s" by (intro ext) (simp add: isPlayer_def)
  then show ?thesis by (simp add: persist_of_def that)
qed

lemma persist_npc: "persist_of (merge_demo_env mx) (npc_server i l x) = npc_persist x"
  by (simp add: persist_of_def npc_persist_def npc_runtime_def)

lemma persist_empty: "persist_of (merge_demo_env mx) (new_server i None l NewRuntime) = demo_persist"
proof -
  have "isPlayer (new_server i None l NewRuntime) = (\<lambda>e. False)" by (auto simp: isPlayer_def new_server_def)
  then show ?thesis
    by (simp add: persist_of_def new_server_def Encode_def demo_persist_def schemaVersion_def List.map_filter_simps
        NewRuntime_def NewGameLoop_def defaultTPS_def NewWorld_def)
qed

lemma collision_texts: "has_text merge_json demo_persist" "has_text merge_json (npc_persist 3)"
    "has_text merge_json (npc_persist 5)" "has_text merge_json collided_persist"
  by (auto simp: has_text_def merge_json_def TrimSpace_trimmed trimmedI ascii_graph_def)

lemma collision_transfer:
  assumes "turns g = []" "reg g = merge_world"
    and "servers g = drained True (endpoints unit_env merge_world (set (''cell_root'' # merge_names))) collision_servers"
  shows "\<exists>resp g'. merge_transfer unit_env ''cell_root'' reason merge_names 0 g = (Inr resp, g')"
proof -
  let ?on = "\<lambda>s. s\<lparr>splitDrain := True\<rparr>"
  have v: "visit_live unit_env (s\<lparr>splitDrain := b\<rparr>) = visit_live unit_env s" for s b by simp
  have at: "cell_at unit_env g ''cell_root'' = Some (?on (npc_server ''cell_root'' 0 7))"
    "cell_at unit_env g ''cell_q0'' = Some (?on (npc_server ''cell_q0'' 1 3))"
    "cell_at unit_env g ''cell_q1'' = Some (?on (npc_server ''cell_q1'' 1 5))"
    "cell_at unit_env g ''cell_q2'' = Some (?on (new_server ''cell_q2'' None 1 NewRuntime))"
    "cell_at unit_env g ''cell_q3'' = Some (?on (new_server ''cell_q3'' None 1 NewRuntime))"
    using merge_demo_address(1)[of "()"] merge_demo_address(2)[of _ "()"] merge_demo_server(2)
    by (auto simp: cell_at_def assms drained_def endpoints_def collision_servers_def merge_names_def)
  have p: "persist_of unit_env (?on s) = persist_of unit_env s" for s using persist_drain[OF v] .
  have "has_text (js unit_env) (persist_of unit_env (the (cell_at unit_env g i))) \<and>
      (\<exists>s r. cell_at unit_env g i = Some s \<and> Sim s = Some r)" if "i \<in> set merge_names" for i
    using that at p collision_texts by (auto simp: merge_names_def persist_npc persist_empty)
  then have "\<forall>i \<in> set merge_names. \<exists>s r. cell_at unit_env g i = Some s \<and> Sim s = Some r \<and> has_text (js unit_env) (persist_of unit_env s)"
    by fastforce
  moreover have "concat (map (\<lambda>i. Entities (persist_of unit_env (the (cell_at unit_env g i)))) merge_names) =
      Entities (npc_persist 3) @ Entities (npc_persist 5)"
    by (simp add: merge_names_def at p persist_npc persist_empty demo_persist_def)
  then have "has_text (js unit_env) \<lparr>SchemaVersion = schemaVersion, Tick = 0, LoopTps = Fin 0,
      Entities = concat (map (\<lambda>i. Entities (persist_of unit_env (the (cell_at unit_env g i)))) merge_names)\<rparr>"
    using collision_texts(4) by (simp add: collided_persist_def schemaVersion_def)
  moreover have "\<not> mergePlayerHandoffEnabled (getenv unit_env)" by (simp add: mergePlayerHandoffEnabled_def)
  ultimately show ?thesis
    using transfer_succeeds[OF merge_demo_sound[of "()"] assms(1) _ _ at(1)] by (simp add: PlayerCount_def npc_server_def new_server_def)
qed

lemma collision_success:
  obtains resp g' where "ForwardMergeHandoff unit_env (Some merge_demo_request) collision_grid = (Inr resp, g')"
proof -
  let ?env = unit_env and ?grid = collision_grid
  let ?g0 = "(merge_event ?env ''cell_root'' [] ''detected'' (Said [Text ''merge workflow detected'']) False ?grid)
      \<lparr>mergeInFlight := {''cell_root''}\<rparr>"
  let ?g2 = "fold (drain_child ?env ''cell_root'') merge_names (set_drain ?env True ''cell_root'' ?g0)"
  have g0: "reg ?g0 = merge_world" "servers ?g0 = collision_servers" "turns ?g0 = []" by simp_all
  have "\<forall>i \<in> set (''cell_root'' # merge_names). \<exists>s. cell_at ?env ?g0 i = Some s"
    by (rule merge_demo_cells) (use collision_quiet in simp_all)
  from drain_stage[OF g0(3) this]
  have g2: "servers ?g2 = drained True (endpoints ?env merge_world (set (''cell_root'' # merge_names))) collision_servers"
    "reg ?g2 = merge_world" "turns ?g2 = []"
    by (simp_all only: g0 simp_thms)
  obtain resp g3 where t: "merge_transfer ?env ''cell_root'' ''ForwardMergeHandoff'' merge_names 0 ?g2 = (Inr resp, g3)"
    using collision_transfer[OF g2(3,2,1)] by blast
  have guards: "merge_guards ?env merge_catalog ''cell_root'' merge_names ?g0 = (Inr (merge_names, 0), ?g0)"
    using merge_demo_guards[of collision_servers ?g0 "()"] collision_quiet by (simp add: idle_def)
  have "length merge_names = 4" by (simp add: merge_names_def)
  with t guards have "fst (merge_locked ?env ''cell_root'' merge_names ''ForwardMergeHandoff'' ?g0) = Inr resp"
    by (simp add: merge_locked_def andThen_def doing_def deferring_def split: prod.splits)
  then obtain h where "merge_locked ?env ''cell_root'' merge_names ''ForwardMergeHandoff'' ?g0 = (Inr resp, h)"
    by (metis prod.collapse)
  moreover have "tryAcquireMerge ''cell_root'' {} = (True, {''cell_root''})"
    by (simp add: tryAcquireMerge_def merge_names_trimmed(1))
  ultimately have "ForwardMergeHandoff ?env (Some merge_demo_request) ?grid =
      (Inr resp, h\<lparr>mergeInFlight := releaseMerge ''cell_root'' (mergeInFlight h)\<rparr>)"
    using merge_names_trimmed(1) merge_demo_ids
    by (simp add: ForwardMergeHandoff_def merge_demo_request_def deferring_def Let_def split: prod.splits)
  then show thesis by (rule that)
qed

lemma collision_order: "catalog_order unit_env merge_world ''cell_root'' ordered \<Longrightarrow> ordered = merge_names"
proof -
  have "map (\<lambda>ch. TrimSpace (cs_Id ch)) merge_children = merge_names"
    using merge_names_trimmed(2) by (simp add: merge_names_def registered_def world_child_names merge_children_def)
  then show "catalog_order unit_env merge_world ''cell_root'' ordered \<Longrightarrow> ordered = merge_names"
    by (auto simp: catalog_order_def merge_demo_list merge_demo_find(1) merge_demo_children)
qed

lemma npc_image_npc:
  "npc_image (npc_server i l x) = [1 \<mapsto> (Some (f32_position \<lparr>PX = Fin x, PY = Fin 0, PZ = Fin 0\<rparr>), Some zero_velocity, f32_health None)]"
  by (auto simp: npc_image_def saved_def npc_runtime_def NewWorld_def fun_eq_iff)

lemma npc_image_empty: "npc_image (new_server i b l NewRuntime) = Map.empty"
  by (auto simp: npc_image_def saved_def NewRuntime_def NewWorld_def fun_eq_iff)

theorem ForwardMergeHandoff_unites_witness:
  "\<exists>sp r. cell_at unit_env (snd (ForwardMergeHandoff unit_env (Some merge_demo_request) collision_grid)) ''cell_root'' = Some sp \<and>
     Sim sp = Some r \<and> alive (world r) = {1} \<and> positions (world r) 1 = Some \<lparr>PX = Fin 5, PY = Fin 0, PZ = Fin 0\<rparr>"
proof -
  obtain resp g' where m: "ForwardMergeHandoff unit_env (Some merge_demo_request) collision_grid = (Inr resp, g')"
    by (rule collision_success)
  have p: "''cell_root'' = TrimSpace (mh_ParentCellId merge_demo_request)"
    by (simp add: merge_demo_request_def merge_names_trimmed(1))
  have off: "\<not> mergePlayerHandoffEnabled (getenv unit_env)" by (simp add: mergePlayerHandoffEnabled_def)
  have dist: "distinct (map (address unit_env (reg collision_grid)) (''cell_root'' # merge_names))"
    using merge_demo_distinct[of "()"] by simp
  have cells: "cell_at unit_env collision_grid ''cell_q0'' = Some (npc_server ''cell_q0'' 1 3)"
    "cell_at unit_env collision_grid ''cell_q1'' = Some (npc_server ''cell_q1'' 1 5)"
    "cell_at unit_env collision_grid ''cell_q2'' = Some (new_server ''cell_q2'' None 1 NewRuntime)"
    "cell_at unit_env collision_grid ''cell_q3'' = Some (new_server ''cell_q3'' None 1 NewRuntime)"
    using merge_demo_address(2)[of _ "()"] merge_demo_server(2)
    by (simp_all add: cell_at_def collision_servers_def merge_names_def)
  have "overlay (map (\<lambda>i. npc_image (the (cell_at unit_env collision_grid i))) merge_names) =
      [1 \<mapsto> (Some (f32_position \<lparr>PX = Fin 5, PY = Fin 0, PZ = Fin 0\<rparr>), Some zero_velocity, f32_health None)]"
    by (simp add: merge_names_def cells npc_image_npc npc_image_empty)
  moreover have "to_f32 (Fin 5) = Fin 5" "to_f32 (Fin 0) = Fin 0" by code_simp+
  ultimately have united: "overlay (map (\<lambda>i. npc_image (the (cell_at unit_env collision_grid i))) merge_names) =
      [1 \<mapsto> (Some \<lparr>PX = Fin 5, PY = Fin 0, PZ = Fin 0\<rparr>, Some zero_velocity, f32_health None)]"
    by (simp add: f32_position_def)
  from ForwardMergeHandoff_unites[OF collision_sel(3) m merge_demo_sound[of "()"] off collision_ok p merge_demo_ids[symmetric] dist]
  obtain sp r where "cell_at unit_env g' ''cell_root'' = Some sp" "Sim sp = Some r"
    and c: "contents (world r) = [1 \<mapsto> (Some \<lparr>PX = Fin 5, PY = Fin 0, PZ = Fin 0\<rparr>, Some zero_velocity, f32_health None)]"
    using united collision_order by fastforce
  moreover have "alive (world r) = dom (contents (world r))" by (auto simp: contents_def split: if_splits)
  moreover have "contents (world r) 1 = Some (Some \<lparr>PX = Fin 5, PY = Fin 0, PZ = Fin 0\<rparr>, Some zero_velocity, f32_health None)"
    by (simp add: c)
  then have "positions (world r) 1 = Some \<lparr>PX = Fin 5, PY = Fin 0, PZ = Fin 0\<rparr>"
    by (auto simp: contents_def split: if_splits)
  ultimately show ?thesis by (simp add: m c)
qed

end
