(* ===== verification/Policy_Config.thy ===== *)
theory Policy_Config
  imports Merge_Handoff
begin

text \<open>
  Settings of the grid manager (\<open>src/cmd/grid-manager/\<close>): the thresholds of
  \<open>cell_thresholds.go\<close>, the configurations of the load policy, the split and the merge workflow with
  their parsers, and the small helpers these use. The environment is a lookup function;
  \<open>time.ParseDuration\<close> (nanoseconds) and \<open>strconv.ParseFloat\<close> are arguments.
\<close>

record settings =
  env_lookup :: "string \<Rightarrow> string"
  ParseDuration :: "string \<Rightarrow> int option"
  ParseFloat :: "string \<Rightarrow> f64 option"

abbreviation second :: int where
  "second \<equiv> 1000000000"

abbreviation minute :: int where
  "minute \<equiv> 60000000000"

section \<open>Helpers\<close>

definition parseDurationWithDefault :: "settings \<Rightarrow> string \<Rightarrow> int \<Rightarrow> int" where
  "parseDurationWithDefault st raw fallback =
     (let raw = TrimSpace raw
      in if raw = [] then fallback
         else (case ParseDuration st raw of None \<Rightarrow> fallback | Some d \<Rightarrow> d))"

definition parseIntWithDefault :: "string \<Rightarrow> int \<Rightarrow> int" where
  "parseIntWithDefault raw fallback =
     (let raw = TrimSpace raw
      in if raw = [] then fallback else (case Atoi raw of None \<Rightarrow> fallback | Some v \<Rightarrow> v))"

definition parseFloat64WithDefault :: "settings \<Rightarrow> string \<Rightarrow> f64 \<Rightarrow> f64" where
  "parseFloat64WithDefault st raw fallback =
     (let raw = TrimSpace raw
      in if raw = [] then fallback else (case ParseFloat st raw of None \<Rightarrow> fallback | Some v \<Rightarrow> v))"

fun firstNonEmpty :: "string list \<Rightarrow> string" where
  "firstNonEmpty [] = []"
| "firstNonEmpty (v # vs) = (if TrimSpace v \<noteq> [] then TrimSpace v else firstNonEmpty vs)"

definition parseCellIDSet :: "string \<Rightarrow> string set" where
  "parseCellIDSet raw = {i. i \<noteq> [] \<and> i \<in> set (map TrimSpace (Split1 (TrimSpace raw) (CHR '','')))}"

section \<open>Thresholds\<close>

record loadThresholds =
  maxPlayers :: int
  maxEntities :: int
  maxTickSec :: f64

definition parseLoadThresholds :: "settings \<Rightarrow> loadThresholds" where
  "parseLoadThresholds st =
     (let t0 = \<lparr>maxPlayers = 200, maxEntities = 8000, maxTickSec = rnd64 (1 / 20)\<rparr>;
          s1 = TrimSpace (env_lookup st ''MMO_GRID_THRESHOLD_MAX_PLAYERS'');
          t1 = (if s1 = [] then t0 else (case Atoi s1 of None \<Rightarrow> t0 | Some n \<Rightarrow> t0\<lparr>maxPlayers := n\<rparr>));
          s2 = TrimSpace (env_lookup st ''MMO_GRID_THRESHOLD_MAX_ENTITIES'');
          t2 = (if s2 = [] then t1 else (case Atoi s2 of None \<Rightarrow> t1 | Some n \<Rightarrow> t1\<lparr>maxEntities := n\<rparr>));
          s3 = TrimSpace (env_lookup st ''MMO_GRID_THRESHOLD_MAX_TICK_SECONDS'')
      in if s3 = [] then t2 else (case ParseFloat st s3 of None \<Rightarrow> t2 | Some f \<Rightarrow> t2\<lparr>maxTickSec := f\<rparr>))"

text \<open>The map \<open>violation\<close> has four keys; an absent key reads 0.\<close>

definition cellThresholdViolationKinds :: "string list" where
  "cellThresholdViolationKinds = [''players'', ''entities'', ''tick'', ''unreachable'']"

definition evalLoadThresholds :: "bool \<Rightarrow> f64 \<Rightarrow> f64 \<Rightarrow> f64 \<Rightarrow> loadThresholds \<Rightarrow> f64 \<times> (string \<rightharpoonup> f64)" where
  "evalLoadThresholds reachable pl ents tickSec th =
     (let v0 = [''players'' \<mapsto> Fin 0, ''entities'' \<mapsto> Fin 0, ''tick'' \<mapsto> Fin 0, ''unreachable'' \<mapsto> Fin 0]
      in if \<not> reachable then (Fin 0, v0(''unreachable'' \<mapsto> Fin 1))
         else (let v1 = (if maxPlayers th > 0 \<and> flt (of_int_f64 (maxPlayers th)) pl then v0(''players'' \<mapsto> Fin 1) else v0);
                   v2 = (if maxEntities th > 0 \<and> flt (of_int_f64 (maxEntities th)) ents then v1(''entities'' \<mapsto> Fin 1) else v1);
                   v3 = (if flt (Fin 0) (maxTickSec th) \<and> flt (maxTickSec th) tickSec then v2(''tick'' \<mapsto> Fin 1) else v2)
               in if list_ex (\<lambda>k. case v3 k of None \<Rightarrow> False | Some x \<Rightarrow> flt (Fin 0) x) [''players'', ''entities'', ''tick'']
                  then (Fin 0, v3) else (Fin 1, v3)))"

definition violationKinds :: "(string \<rightharpoonup> f64) \<Rightarrow> string" where
  "violationKinds v =
     (if dom v = {} then []
      else Join (filter (\<lambda>k. case v k of None \<Rightarrow> False | Some x \<Rightarrow> flt (Fin 0) x) cellThresholdViolationKinds) '','')"

section \<open>The load policy\<close>

record loadPolicyConfig =
  minBreachDuration :: int
  cooldown :: int
  autoSplitDrain :: bool
  autoMergeWorkflow :: bool
  mergePlayerHandoff :: bool
  mergeLowLoadFor :: int
  mergeCooldown :: int
  mergeMaxPlayers :: f64
  mergeHandoffMaxPlayers :: f64
  mergeMaxEntities :: f64
  mergeMaxTickSec :: f64

text \<open>A duration that parses and is not negative replaces the default.\<close>

definition nonneg_duration :: "settings \<Rightarrow> string \<Rightarrow> int \<Rightarrow> int" where
  "nonneg_duration st name d0 =
     (let s = TrimSpace (env_lookup st name)
      in if s = [] then d0 else (case ParseDuration st s of None \<Rightarrow> d0 | Some d \<Rightarrow> if d \<ge> 0 then d else d0))"

definition parseLoadPolicyConfig :: "settings \<Rightarrow> loadPolicyConfig" where
  "parseLoadPolicyConfig st =
     \<lparr>minBreachDuration = nonneg_duration st ''MMO_GRID_LOAD_POLICY_MIN_BREACH_DURATION'' (20 * second),
      cooldown = nonneg_duration st ''MMO_GRID_LOAD_POLICY_COOLDOWN'' (2 * minute),
      autoSplitDrain = envBool (env_lookup st) ''MMO_GRID_AUTO_SPLIT_DRAIN'',
      autoMergeWorkflow = envBool (env_lookup st) ''MMO_GRID_AUTO_MERGE_WORKFLOW'',
      mergePlayerHandoff = envBool (env_lookup st) ''MMO_GRID_MERGE_PLAYER_HANDOFF'',
      mergeLowLoadFor = parseDurationWithDefault st (env_lookup st ''MMO_GRID_MERGE_MIN_LOW_LOAD_DURATION'') (3 * minute),
      mergeCooldown = parseDurationWithDefault st (env_lookup st ''MMO_GRID_MERGE_COOLDOWN'') (6 * minute),
      mergeMaxPlayers = parseFloat64WithDefault st (env_lookup st ''MMO_GRID_MERGE_THRESHOLD_MAX_PLAYERS'') (Fin 0),
      mergeHandoffMaxPlayers = parseFloat64WithDefault st (env_lookup st ''MMO_GRID_MERGE_PLAYER_HANDOFF_MAX_PLAYERS'') (Fin 32),
      mergeMaxEntities = parseFloat64WithDefault st (env_lookup st ''MMO_GRID_MERGE_THRESHOLD_MAX_ENTITIES'') (Fin 300),
      mergeMaxTickSec = parseFloat64WithDefault st (env_lookup st ''MMO_GRID_MERGE_THRESHOLD_MAX_TICK_SECONDS'') (rnd64 (1 / 100))\<rparr>"

definition cellProbeInterval :: "settings \<Rightarrow> int" where
  "cellProbeInterval st =
     (let s = TrimSpace (env_lookup st ''MMO_GRID_CELL_PROBE_INTERVAL'')
      in if s = [] then 10 * second
         else (case ParseDuration st s of None \<Rightarrow> 10 * second | Some d \<Rightarrow> if d < second then 10 * second else d))"

section \<open>The workflows\<close>

record splitWorkflowConfig =
  sw_enabled :: bool
  sw_registryAddr :: string
  sw_maxRetries :: int
  sw_initialBackoff :: int
  sw_maxBackoff :: int
  sw_waitChildren :: int
  sw_maxLevel :: int32
  sw_maxConcurrent :: int
  sw_blockedCells :: "string set"

text \<open>A parsed integer that is at least one, and a parsed duration that is positive, replace the default.\<close>

definition positive_int :: "settings \<Rightarrow> string \<Rightarrow> int \<Rightarrow> int" where
  "positive_int st name n0 = (let n = parseIntWithDefault (env_lookup st name) n0 in if n \<ge> 1 then n else n0)"

definition positive_duration :: "settings \<Rightarrow> string \<Rightarrow> int \<Rightarrow> int" where
  "positive_duration st name d0 = (let d = parseDurationWithDefault st (env_lookup st name) d0 in if d > 0 then d else d0)"

definition parseSplitWorkflowConfig :: "settings \<Rightarrow> splitWorkflowConfig" where
  "parseSplitWorkflowConfig st =
     \<lparr>sw_enabled = envBool (env_lookup st) ''MMO_GRID_AUTO_SPLIT_WORKFLOW'',
      sw_registryAddr = firstNonEmpty [TrimSpace (env_lookup st ''MMO_GRID_REGISTRY_ADDR''), ''127.0.0.1:9100''],
      sw_maxRetries = positive_int st ''MMO_GRID_SPLIT_WORKFLOW_MAX_RETRIES'' 4,
      sw_initialBackoff = positive_duration st ''MMO_GRID_SPLIT_WORKFLOW_BACKOFF'' second,
      sw_maxBackoff = positive_duration st ''MMO_GRID_SPLIT_WORKFLOW_MAX_BACKOFF'' (12 * second),
      sw_waitChildren = positive_duration st ''MMO_GRID_SPLIT_WORKFLOW_WAIT_CHILDREN'' (90 * second),
      sw_maxLevel = to_int32 (positive_int st ''MMO_GRID_SPLIT_MAX_LEVEL'' 0),
      sw_maxConcurrent = positive_int st ''MMO_GRID_SPLIT_MAX_CONCURRENT_WORKFLOWS'' 0,
      sw_blockedCells = parseCellIDSet (env_lookup st ''MMO_GRID_SPLIT_WORKFLOW_BLOCKLIST'')\<rparr>"

record mergeWorkflowConfig =
  mw_enabled :: bool
  mw_registryAddr :: string
  mw_maxRetries :: int
  mw_initialBackoff :: int
  mw_maxBackoff :: int
  mw_blockedParents :: "string set"
  mw_playerHandoff :: bool
  mw_maxPlayersMove :: int

definition parseMergeWorkflowConfig :: "settings \<Rightarrow> mergeWorkflowConfig" where
  "parseMergeWorkflowConfig st =
     \<lparr>mw_enabled = envBool (env_lookup st) ''MMO_GRID_AUTO_MERGE_WORKFLOW'',
      mw_registryAddr = firstNonEmpty [TrimSpace (env_lookup st ''MMO_GRID_REGISTRY_ADDR''), ''127.0.0.1:9100''],
      mw_maxRetries = positive_int st ''MMO_GRID_MERGE_WORKFLOW_MAX_RETRIES'' 3,
      mw_initialBackoff = positive_duration st ''MMO_GRID_MERGE_WORKFLOW_BACKOFF'' second,
      mw_maxBackoff = positive_duration st ''MMO_GRID_MERGE_WORKFLOW_MAX_BACKOFF'' (10 * second),
      mw_blockedParents = parseCellIDSet (env_lookup st ''MMO_GRID_MERGE_WORKFLOW_BLOCKLIST''),
      mw_playerHandoff = envBool (env_lookup st) ''MMO_GRID_MERGE_PLAYER_HANDOFF'',
      mw_maxPlayersMove = positive_int st ''MMO_GRID_MERGE_PLAYER_HANDOFF_MAX_PLAYERS'' 32\<rparr>"

text \<open>\<open>strings.ToLower\<close> before a comparison with ASCII words: only ASCII capitals matter.\<close>

definition lower_char :: "char \<Rightarrow> char" where
  "lower_char c = (let n = (of_char c :: nat) in if 65 \<le> n \<and> n \<le> 90 then char_of (n + 32) else c)"

definition postHandoffOrchestrationEnabled :: "(string \<Rightarrow> string) \<Rightarrow> bool" where
  "postHandoffOrchestrationEnabled lookup =
     (let v = TrimSpace (map lower_char (lookup ''MMO_GRID_AUTO_POST_HANDOFF_ORCHESTRATION''))
      in if v = [] then True else v = ''1'' \<or> v = ''true'' \<or> v = ''yes'')"

end
