(* ===== verification/Load_Policy.thy ===== *)
theory Load_Policy
  imports Policy_Config
begin

text \<open>
  The load policy of the grid manager (\<open>src/cmd/grid-manager/cell_load_policy.go\<close>,
  \<open>cell_probe.go\<close> and the \<open>maybeStart\<close> of both workflows): probing the cells of the catalog, acting on
  a lasting overload, starting a merge after a lasting calm. The grid is extended by the state of
  the policy; a zero \<open>time.Time\<close> is \<^const>\<open>None\<close>.
\<close>

section \<open>State\<close>

record cellPolicyState =
  breachSince :: "int option"
  lastAction :: "int option"

record policySample =
  ps_cellID :: string
  ps_endpoint :: string
  ps_level :: int32
  ps_reachable :: bool
  ps_players :: f64
  ps_entities :: f64
  ps_tickSec :: f64
  ps_violations :: "string \<rightharpoonup> f64"

record loadPolicyEvent =
  le_CellID :: string
  le_Action :: string
  le_Reachable :: bool
  le_Players :: f64
  le_Entities :: f64
  le_TickSeconds :: f64
  le_Violations :: "string \<rightharpoonup> f64"
  le_MinBreachDuration :: int
  le_Cooldown :: int
  le_AtUnixMs :: int

text \<open>A workflow the policy has started: \<open>go r.run(ctx, id)\<close>.\<close>

datatype workflow = Split_run string | Merge_run string

text \<open>The gauges of a probed cell, keyed by \<open>cell_id\<close> in the metrics.\<close>

record cell_gauges =
  ga_reachable :: bool
  ga_players :: f64
  ga_entities :: f64
  ga_tickSec :: f64
  ga_tps :: f64
  ga_within :: f64
  ga_violations :: "string \<rightharpoonup> f64"

text \<open>
  \<open>loadPolicyRuntime\<close> with the sets \<open>active\<close> of the two workflow runtimes, the events published on
  the policy's subject, the labels counted in \<open>load_policy_actions_total\<close> and
  \<open>merge_policy_decisions_total\<close>, the gauges, and the set \<open>tracked\<close> of the probe loop.
\<close>

record 'c PolicyGrid = "'c MergeGrid" +
  cellStates :: "string \<rightharpoonup> cellPolicyState"
  mgStates :: "string \<rightharpoonup> cellPolicyState"
  splitActive :: "string set"
  mergeActive :: "string set"
  spawned :: "workflow list"
  policyEvents :: "loadPolicyEvent list"
  counted :: "(string \<times> string \<times> string) list"
  gauges :: "string \<rightharpoonup> cell_gauges"
  tracked :: "string set"

record 'c policy_env = "'c merge_env" +
  policy_cfg :: loadPolicyConfig
  split_cfg :: "splitWorkflowConfig option"
  merge_cfg :: "mergeWorkflowConfig option"
  thresholds :: loadThresholds
  policy_nats :: bool
  bus_error :: "string \<Rightarrow> int \<Rightarrow> string option"
  policy_subject :: string

text \<open>
  \<open>split_cfg\<close> and \<open>merge_cfg\<close> are the configurations of the two runtimes, \<^const>\<open>None\<close> where the
  pointer is nil; \<open>bus_error\<close> is the error a publication on a subject meets at a time.
\<close>

abbreviation no_state :: cellPolicyState where
  "no_state \<equiv> \<lparr>breachSince = None, lastAction = None\<rparr>"

definition state_of :: "(string \<rightharpoonup> cellPolicyState) \<Rightarrow> string \<Rightarrow> cellPolicyState" where
  "state_of m i = (case m i of None \<Rightarrow> no_state | Some st \<Rightarrow> st)"

section \<open>Effects\<close>

text \<open>\<open>json.Marshal\<close> fails on a float that is not finite; then nothing is sent.\<close>

definition marshals :: "loadPolicyEvent \<Rightarrow> bool" where
  "marshals e \<longleftrightarrow> is_fin (le_Players e) \<and> is_fin (le_Entities e) \<and> is_fin (le_TickSeconds e) \<and>
     (\<forall>x \<in> ran (le_Violations e). is_fin x)"

definition policy_publish :: "('c, 'y) policy_env_scheme \<Rightarrow> loadPolicyEvent \<Rightarrow>
    ('c, 'z) PolicyGrid_scheme \<Rightarrow> ('c, 'z) PolicyGrid_scheme" where
  "policy_publish env event g =
     (if \<not> policy_nats env then g
      else if \<not> marshals event then g
      else if bus_error env (policy_subject env) (clock g) \<noteq> None then g
      else g\<lparr>policyEvents := policyEvents g @ [event]\<rparr>)"

definition setCellSplitDrain :: "('c, 'y) env_scheme \<Rightarrow> string \<Rightarrow> bool \<Rightarrow> (unit, ('c, 'z) Grid_scheme) op" where
  "setCellSplitDrain env endpoint enabled g =
     (case dial_error env endpoint of
        Some err \<Rightarrow> fail (Failed [Text err]) g
      | None \<Rightarrow> andThen (call endpoint
          (\<lambda>now s. Update (js env) (visit_live env s) (Some (Some (SetSplitDrain (Some enabled)))) s))
          (\<lambda>_. give ()) g)"

text \<open>\<open>maybeStart\<close> of the split workflow.\<close>

definition split_maybeStart :: "splitWorkflowConfig \<Rightarrow> string \<Rightarrow> ('c, 'z) PolicyGrid_scheme \<Rightarrow> ('c, 'z) PolicyGrid_scheme" where
  "split_maybeStart cfg cellID0 g =
     (let cellID = TrimSpace cellID0
      in if \<not> sw_enabled cfg \<or> cellID = [] then g
         else if cellID \<in> sw_blockedCells cfg then g
         else (let (level, ok) = CellPathLevel cellID
               in if ok \<and> sw_maxLevel cfg > 0 \<and> level \<ge> sw_maxLevel cfg then g
                  else if sw_maxConcurrent cfg > 0 \<and> int (card (splitActive g)) \<ge> sw_maxConcurrent cfg then g
                  else if cellID \<in> splitActive g then g
                  else g\<lparr>splitActive := insert cellID (splitActive g), spawned := spawned g @ [Split_run cellID]\<rparr>))"

text \<open>\<open>maybeStart\<close> of the merge workflow.\<close>

definition merge_maybeStart :: "mergeWorkflowConfig \<Rightarrow> string \<Rightarrow> ('c, 'z) PolicyGrid_scheme \<Rightarrow> ('c, 'z) PolicyGrid_scheme" where
  "merge_maybeStart cfg parentID0 g =
     (let parentID = TrimSpace parentID0
      in if \<not> mw_enabled cfg \<or> parentID = [] then g
         else if parentID \<in> mw_blockedParents cfg then g
         else if parentID \<in> mergeActive g then g
         else g\<lparr>mergeActive := insert parentID (mergeActive g), spawned := spawned g @ [Merge_run parentID]\<rparr>)"

section \<open>Acting on a lasting overload\<close>

text \<open>
  The gate of \<open>observe\<close>: whether it acts, and the state it leaves.
\<close>

definition observe_gate :: "loadPolicyConfig \<Rightarrow> int \<Rightarrow> f64 \<Rightarrow> cellPolicyState \<Rightarrow> bool \<times> cellPolicyState" where
  "observe_gate cfg now inlimits st =
     (if fle (Fin 1) inlimits then (False, st\<lparr>breachSince := None\<rparr>)
      else (case breachSince st of
              None \<Rightarrow> (False, st\<lparr>breachSince := Some now\<rparr>)
            | Some since \<Rightarrow>
                if now - since < minBreachDuration cfg then (False, st)
                else if (case lastAction st of None \<Rightarrow> False | Some l \<Rightarrow> now - l < cooldown cfg) then (False, st)
                else (True, st\<lparr>lastAction := Some now\<rparr>)))"

text \<open>The action and its result: a drain of the cell, unless the split workflow takes care of it.\<close>

definition observe_action :: "('c, 'y) policy_env_scheme \<Rightarrow> policySample \<Rightarrow> ('c, 'z) PolicyGrid_scheme \<Rightarrow>
    (string \<times> string) \<times> ('c, 'z) PolicyGrid_scheme" where
  "observe_action env sample g =
     (if autoSplitDrain (policy_cfg env) \<and> ps_reachable sample
      then (if \<not> (case split_cfg env of None \<Rightarrow> False | Some sc \<Rightarrow> sw_enabled sc)
            then (case setCellSplitDrain env (ps_endpoint sample) True g of
                    (Inl e, g') \<Rightarrow> ((''split_drain_enable'', ''error''), g')
                  | (Inr _, g') \<Rightarrow> ((''split_drain_enable'', ''ok''), g'))
            else ((''split_drain_enable'', ''ok''), g))
      else if \<not> ps_reachable sample then ((''log_only'', ''skip''), g)
      else ((''log_only'', ''ok''), g))"

definition observe :: "('c, 'y) policy_env_scheme \<Rightarrow> policySample \<Rightarrow> f64 \<Rightarrow>
    ('c, 'z) PolicyGrid_scheme \<Rightarrow> ('c, 'z) PolicyGrid_scheme" where
  "observe env sample inlimits g =
     (let now = clock g;
          (acts, st) = observe_gate (policy_cfg env) now inlimits (state_of (cellStates g) (ps_cellID sample))
      in if \<not> acts then g\<lparr>cellStates := (cellStates g)(ps_cellID sample \<mapsto> st)\<rparr>
         else (let ((action, result), g1) = observe_action env sample g;
                   g2 = (if action = ''split_drain_enable'' \<and> result = ''ok''
                         then (case split_cfg env of None \<Rightarrow> g1 | Some sc \<Rightarrow> split_maybeStart sc (ps_cellID sample) g1)
                         else g1);
                   g3 = g2\<lparr>counted := counted g2 @ [(action, ps_cellID sample, result)]\<rparr>;
                   g4 = policy_publish env
                     \<lparr>le_CellID = ps_cellID sample, le_Action = action, le_Reachable = ps_reachable sample,
                      le_Players = ps_players sample, le_Entities = ps_entities sample,
                      le_TickSeconds = ps_tickSec sample, le_Violations = ps_violations sample,
                      le_MinBreachDuration = minBreachDuration (policy_cfg env),
                      le_Cooldown = cooldown (policy_cfg env), le_AtUnixMs = unix_ms now\<rparr> g3
               in g4\<lparr>cellStates := (cellStates g4)(ps_cellID sample \<mapsto> st)\<rparr>))"

definition forget :: "string \<Rightarrow> ('c, 'z) PolicyGrid_scheme \<Rightarrow> ('c, 'z) PolicyGrid_scheme" where
  "forget cellID g = g\<lparr>cellStates := (cellStates g)(cellID := None)\<rparr>"

section \<open>Merging after a lasting calm\<close>

text \<open>
  The checks of one child; \<open>hi\<close> says that a limit that is switched on is exceeded. The result is the
  reason of the refusal.
\<close>

definition exceeds :: "f64 \<Rightarrow> f64 \<Rightarrow> bool" where
  "exceeds limit x \<longleftrightarrow> fle (Fin 0) limit \<and> flt limit x"

definition child_reason :: "loadPolicyConfig \<Rightarrow> (string \<rightharpoonup> CellSpec) \<Rightarrow> (string \<rightharpoonup> policySample) \<Rightarrow> int32 \<Rightarrow>
    string \<Rightarrow> string + policySample" where
  "child_reason cfg specByID samples childLevel i =
     (case specByID i of
        None \<Rightarrow> Inl ''child_missing''
      | Some spec \<Rightarrow>
          if cs_Bounds spec = None then Inl ''child_missing''
          else if cs_Level spec \<noteq> childLevel then Inl ''child_level_mismatch''
          else (case samples i of
                  None \<Rightarrow> Inl ''child_unreachable''
                | Some smp \<Rightarrow>
                    if \<not> ps_reachable smp then Inl ''child_unreachable''
                    else if \<not> mergePlayerHandoff cfg \<and> exceeds (mergeMaxPlayers cfg) (ps_players smp)
                    then Inl ''players_high''
                    else if mergePlayerHandoff cfg \<and> exceeds (mergeHandoffMaxPlayers cfg) (ps_players smp)
                    then Inl ''players_high_for_handoff''
                    else if exceeds (mergeMaxEntities cfg) (ps_entities smp) then Inl ''entities_high''
                    else if exceeds (mergeMaxTickSec cfg) (ps_tickSec smp) then Inl ''tick_high''
                    else Inr smp))"

fun low_children :: "loadPolicyConfig \<Rightarrow> (string \<rightharpoonup> CellSpec) \<Rightarrow> (string \<rightharpoonup> policySample) \<Rightarrow> int32 \<Rightarrow>
    CellSpec list \<Rightarrow> string list \<Rightarrow> f64 \<Rightarrow> f64 \<Rightarrow> string \<times> string list + string list \<times> f64 \<times> f64" where
  "low_children cfg specByID samples childLevel [] ids pt et = Inr (ids, pt, et)"
| "low_children cfg specByID samples childLevel (ch # rest) ids pt et =
     (let i = TrimSpace (cs_Id ch)
      in if i = [] then Inl (''child_id_empty'', [])
         else (case child_reason cfg specByID samples childLevel i of
                 Inl reason \<Rightarrow> Inl (reason, ids @ [i])
               | Inr smp \<Rightarrow> low_children cfg specByID samples childLevel rest (ids @ [i])
                     (fadd pt (ps_players smp)) (fadd et (ps_entities smp))))"

text \<open>A cell of the catalog deeper than the children that descends from one of them.\<close>

definition has_descendants :: "CellSpec option list \<Rightarrow> string list \<Rightarrow> int32 \<Rightarrow> bool" where
  "has_descendants listed ids childLevel \<longleftrightarrow>
     list_ex (\<lambda>oc. case oc of None \<Rightarrow> False | Some c \<Rightarrow>
       (let i = TrimSpace (cs_Id c); (lv, ok) = CellPathLevel i
        in ok \<and> lv > childLevel \<and>
           list_ex (\<lambda>childID. let (cl, childOK) = CellPathLevel childID
             in childOK \<and> cl = childLevel \<and> IsDescendantPath childID i) ids)) listed"

text \<open>The answer: low, the reason, the ids of the children, the total players and entities.\<close>

definition mergeGroupLowLoad :: "loadPolicyConfig \<Rightarrow> CellSpec option list \<Rightarrow> (string \<rightharpoonup> CellSpec) \<Rightarrow>
    (string \<rightharpoonup> policySample) \<Rightarrow> int32 \<Rightarrow> CellSpec list \<Rightarrow> bool \<times> string \<times> string \<times> f64 \<times> f64" where
  "mergeGroupLowLoad cfg listed specByID samples parentLevel children =
     (case low_children cfg specByID samples (to_int32 (parentLevel + 1)) children [] (Fin 0) (Fin 0) of
        Inl (reason, ids) \<Rightarrow> (False, reason, Join ids '','', Fin 0, Fin 0)
      | Inr (ids, pt, et) \<Rightarrow>
          if mergePlayerHandoff cfg \<and> exceeds (mergeHandoffMaxPlayers cfg) pt
          then (False, ''players_total_high_for_handoff'', Join ids '','', Fin 0, Fin 0)
          else if has_descendants listed ids (to_int32 (parentLevel + 1))
          then (False, ''child_has_descendants'', Join ids '','', Fin 0, Fin 0)
          else (True, ''ok'', Join ids '','', pt, et))"

text \<open>The gate of \<open>observeMergeCandidates\<close>: the decision with its reason, and the state it leaves.\<close>

definition merge_gate :: "loadPolicyConfig \<Rightarrow> int \<Rightarrow> bool \<Rightarrow> cellPolicyState \<Rightarrow> bool \<times> string \<times> string \<times> cellPolicyState" where
  "merge_gate cfg now low st =
     (if \<not> low then (False, ''skip'', [], st\<lparr>breachSince := None\<rparr>)
      else (case breachSince st of
              None \<Rightarrow> (False, ''candidate'', ''low_load_started'', st\<lparr>breachSince := Some now\<rparr>)
            | Some since \<Rightarrow>
                if now - since < mergeLowLoadFor cfg then (False, ''candidate'', ''low_load_window'', st)
                else if (case lastAction st of None \<Rightarrow> False | Some l \<Rightarrow> now - l < mergeCooldown cfg)
                then (False, ''skip'', ''cooldown'', st)
                else (True, ''start'', ''ok'', \<lparr>breachSince = None, lastAction = Some now\<rparr>)))"

definition observe_parent :: "('c, 'y) policy_env_scheme \<Rightarrow> mergeWorkflowConfig \<Rightarrow> CellSpec option list \<Rightarrow>
    (string \<rightharpoonup> CellSpec) \<Rightarrow> (string \<rightharpoonup> policySample) \<Rightarrow> int \<Rightarrow> CellSpec option \<Rightarrow>
    ('c, 'z) PolicyGrid_scheme \<Rightarrow> ('c, 'z) PolicyGrid_scheme" where
  "observe_parent env mw listed specByID samples now oparent g =
     (case oparent of None \<Rightarrow> g | Some parent \<Rightarrow>
        (let parentID = TrimSpace (cs_Id parent);
             st = state_of (mgStates g) parentID
         in if cs_Bounds parent = None \<or> parentID = [] then g
            else (case CatalogMergeChildren (Some parent) listed of
                    Inl _ \<Rightarrow> g\<lparr>mgStates := (mgStates g)(parentID \<mapsto> st\<lparr>breachSince := None\<rparr>),
                               counted := counted g @ [(''skip'', parentID, ''catalog_merge_children'')]\<rparr>
                  | Inr children \<Rightarrow>
                      (let (low, reason, csv, pt, et) =
                         mergeGroupLowLoad (policy_cfg env) listed specByID samples (cs_Level parent) children;
                           (starts, decision, why, st') = merge_gate (policy_cfg env) now low st
                       in if \<not> starts
                          then g\<lparr>mgStates := (mgStates g)(parentID \<mapsto> st'),
                                 counted := counted g @ [(decision, parentID, if low then why else reason)]\<rparr>
                          else (let g1 = merge_maybeStart mw parentID g;
                                    g2 = g1\<lparr>counted := counted g1 @ [(''start'', parentID, ''ok'')]\<rparr>;
                                    g3 = policy_publish env
                                      \<lparr>le_CellID = parentID, le_Action = ''merge_start'', le_Reachable = True,
                                       le_Players = pt, le_Entities = et, le_TickSeconds = Fin 0,
                                       le_Violations = [''unreachable'' \<mapsto> Fin 0],
                                       le_MinBreachDuration = mergeLowLoadFor (policy_cfg env),
                                       le_Cooldown = mergeCooldown (policy_cfg env), le_AtUnixMs = unix_ms now\<rparr> g2
                                in g3\<lparr>mgStates := (mgStates g3)(parentID \<mapsto> st')\<rparr>)))))"

text \<open>The later of two entries with the same trimmed id is the one looked up.\<close>

definition specs_by_id :: "CellSpec option list \<Rightarrow> string \<rightharpoonup> CellSpec" where
  "specs_by_id listed = fold (\<lambda>oc m. case oc of None \<Rightarrow> m | Some c \<Rightarrow> m(TrimSpace (cs_Id c) \<mapsto> c)) listed Map.empty"

definition seen_parents :: "CellSpec option list \<Rightarrow> string set" where
  "seen_parents listed = {TrimSpace (cs_Id c) |c. Some c \<in> set listed \<and> cs_Bounds c \<noteq> None \<and> TrimSpace (cs_Id c) \<noteq> []}"

definition observeMergeCandidates :: "('c, 'y) policy_env_scheme \<Rightarrow> CellSpec option list \<Rightarrow>
    (string \<rightharpoonup> policySample) \<Rightarrow> ('c, 'z) PolicyGrid_scheme \<Rightarrow> ('c, 'z) PolicyGrid_scheme" where
  "observeMergeCandidates env listed samples g =
     (case merge_cfg env of
        None \<Rightarrow> g
      | Some mw \<Rightarrow>
          if \<not> autoMergeWorkflow (policy_cfg env) then g
          else (let g1 = fold (observe_parent env mw listed (specs_by_id listed) samples (clock g)) listed g
                in g1\<lparr>mgStates := mgStates g1 |` seen_parents listed\<rparr>))"

section \<open>The probe\<close>

definition pingCell :: "('c, 'y) env_scheme \<Rightarrow> string \<Rightarrow> ('c, 'z) Grid_scheme \<Rightarrow>
    (bool \<times> f64 \<times> f64 \<times> f64 \<times> f64) \<times> ('c, 'z) Grid_scheme" where
  "pingCell env endpoint g =
     (if dial_error env endpoint \<noteq> None then ((False, Fin 0, Fin 0, Fin 0, Fin 0), g)
      else (case call endpoint (\<lambda>now s. (Ping (unix_ms now) s, s)) g of
              (Inl _, g') \<Rightarrow> ((False, Fin 0, Fin 0, Fin 0, Fin 0), g')
            | (Inr res, g') \<Rightarrow> ((True, of_int_f64 (ping_PlayerCount res), of_int_f64 (ping_EntityCount res),
                 ping_LastTickDurationSeconds res, ping_ConfiguredTps res), g')))"

definition deleteCellProbeLabels :: "string \<Rightarrow> ('c, 'z) PolicyGrid_scheme \<Rightarrow> ('c, 'z) PolicyGrid_scheme" where
  "deleteCellProbeLabels cellID g = g\<lparr>gauges := (gauges g)(cellID := None)\<rparr>"

text \<open>One cell of a round; the samples of the round are collected by id.\<close>

definition probe_cell :: "('c, 'y) policy_env_scheme \<Rightarrow> CellSpec option \<Rightarrow>
    (string \<rightharpoonup> policySample) \<times> ('c, 'z) PolicyGrid_scheme \<Rightarrow> (string \<rightharpoonup> policySample) \<times> ('c, 'z) PolicyGrid_scheme" where
  "probe_cell env ospec = (\<lambda>(samples, g).
     case ospec of None \<Rightarrow> (samples, g) | Some spec \<Rightarrow>
       (let i = TrimSpace (cs_Id spec); ep = TrimSpace (cs_GrpcEndpoint spec)
        in if i = [] then (samples, g)
           else if ep = [] then (samples, (deleteCellProbeLabels i g)\<lparr>tracked := tracked g - {i}\<rparr>)
           else (let ((ok, pl, ents, tick, tps), g1) = pingCell env ep g;
                     (inlimits, viol) = evalLoadThresholds ok pl ents tick (thresholds env);
                     ga = \<lparr>ga_reachable = ok, ga_players = (if ok then pl else Fin 0),
                           ga_entities = (if ok then ents else Fin 0), ga_tickSec = (if ok then tick else Fin 0),
                           ga_tps = (if ok then tps else Fin 0), ga_within = inlimits, ga_violations = viol\<rparr>;
                     smp = \<lparr>ps_cellID = i, ps_endpoint = ep, ps_level = cs_Level spec, ps_reachable = ok,
                            ps_players = pl, ps_entities = ents, ps_tickSec = tick, ps_violations = viol\<rparr>;
                     g2 = observe env smp inlimits (g1\<lparr>gauges := (gauges g1)(i \<mapsto> ga)\<rparr>)
                 in (samples(i \<mapsto> smp), g2\<lparr>tracked := insert i (tracked g2)\<rparr>))))"

text \<open>The names of the catalog that the round counts as present.\<close>

definition in_catalog :: "CellSpec option list \<Rightarrow> string set" where
  "in_catalog listed = {TrimSpace (cs_Id c) |c. Some c \<in> set listed \<and> TrimSpace (cs_Id c) \<noteq> []}"

text \<open>The last loop of a round visits a map; \<open>drop_untracked\<close> is its effect in any order.\<close>

definition drop_one :: "string \<Rightarrow> ('c, 'z) PolicyGrid_scheme \<Rightarrow> ('c, 'z) PolicyGrid_scheme" where
  "drop_one i g = (let g1 = forget i (deleteCellProbeLabels i g) in g1\<lparr>tracked := tracked g1 - {i}\<rparr>)"

definition drop_untracked :: "string set \<Rightarrow> ('c, 'z) PolicyGrid_scheme \<Rightarrow> ('c, 'z) PolicyGrid_scheme" where
  "drop_untracked inCatalog g =
     g\<lparr>gauges := gauges g |` (- (tracked g - inCatalog)),
       cellStates := cellStates g |` (- (tracked g - inCatalog)),
       tracked := tracked g \<inter> inCatalog\<rparr>"

lemma drop_untracked_fold:
  "distinct order \<Longrightarrow> set order = tracked g - inCatalog \<Longrightarrow>
     drop_untracked inCatalog g = fold drop_one order g"
proof (induction order arbitrary: g)
  case Nil
  then have "tracked g \<inter> inCatalog = tracked g" "- (tracked g - inCatalog) = UNIV" by auto
  then show ?case by (simp add: drop_untracked_def restrict_map_def)
next
  case (Cons i order)
  let ?d = "drop_one i g"
  have t: "tracked ?d = tracked g - {i}" by (simp add: drop_one_def forget_def deleteCellProbeLabels_def)
  have "drop_untracked inCatalog g = drop_untracked inCatalog ?d"
    using Cons.prems
    by (intro PolicyGrid.equality)
       (auto simp: drop_untracked_def drop_one_def forget_def deleteCellProbeLabels_def restrict_map_def fun_eq_iff)
  moreover have "set order = tracked ?d - inCatalog"
    using Cons.prems t by auto
  ultimately show ?case
    using Cons.IH[of ?d] Cons.prems by simp
qed

definition runRound :: "('c, 'y) policy_env_scheme \<Rightarrow> ('c, 'z) PolicyGrid_scheme \<Rightarrow> ('c, 'z) PolicyGrid_scheme" where
  "runRound env g =
     (case catalog_of env of
        None \<Rightarrow> g
      | Some cat \<Rightarrow>
          (case ListAll cat (reg g) of
             Inl _ \<Rightarrow> g
           | Inr listed \<Rightarrow>
               (let (samples, g1) = fold (probe_cell env) listed (Map.empty, g);
                    g2 = observeMergeCandidates env listed samples g1
                in drop_untracked (in_catalog listed) g2)))"

end
