(* ===== verification/Policy_Timing.thy ===== *)
theory Policy_Timing
  imports Load_Policy
begin

text \<open>
  When the load policy acts. Both of its gates keep the same contract, stated once as a locale: an
  action follows a trouble that has lasted for the window, and two actions on the same cell are at
  least the pause apart.
\<close>

section \<open>The contract of a gate\<close>

locale action_gate =
  fixes step :: "int \<Rightarrow> 'o \<Rightarrow> cellPolicyState \<Rightarrow> bool \<times> cellPolicyState"
    and trouble :: "'o \<Rightarrow> bool"
    and window :: int
    and pause :: int
  assumes calm: "\<not> trouble x \<Longrightarrow> step now x st = (False, st\<lparr>breachSince := None\<rparr>)"
    and acts_late: "fst (step now x st) \<Longrightarrow> \<exists>b. breachSince st = Some b \<and> window \<le> now - b"
    and acts_apart: "fst (step now x st) \<Longrightarrow> lastAction st = Some l \<Longrightarrow> pause \<le> now - l"
    and acted: "fst (step now x st) \<Longrightarrow> lastAction (snd (step now x st)) = Some now"
    and waits: "\<not> fst (step now x st) \<Longrightarrow> lastAction (snd (step now x st)) = lastAction st"
    and since: "trouble x \<Longrightarrow> breachSince (snd (step now x st)) \<in> {None, breachSince st, Some now}"
    and starts: "breachSince st = None \<Longrightarrow> breachSince (snd (step now x st)) \<in> {None, Some now}"
    and due: "trouble x \<Longrightarrow> breachSince st = Some b \<Longrightarrow> window \<le> now - b \<Longrightarrow>
      (\<And>l. lastAction st = Some l \<Longrightarrow> pause \<le> now - l) \<Longrightarrow> fst (step now x st)"
begin

text \<open>Observations carry a time and the cell they are about; every cell has its own state.\<close>

definition after :: "(int \<times> string \<times> 'o) list \<Rightarrow> (string \<Rightarrow> cellPolicyState) \<Rightarrow> string \<Rightarrow> cellPolicyState" where
  "after obs = fold (\<lambda>(t, c, x) f. f(c := snd (step t x (f c)))) obs"

definition acts :: "(int \<times> string \<times> 'o) list \<Rightarrow> (string \<Rightarrow> cellPolicyState) \<Rightarrow> nat \<Rightarrow> bool" where
  "acts obs f i \<longleftrightarrow> (case obs ! i of (t, c, x) \<Rightarrow> fst (step t x (after (take i obs) f c)))"

lemma after_Nil [simp]: "after [] f = f"
  by (simp add: after_def)

lemma after_snoc: "after (obs @ [(t, c, x)]) f = (after obs f)(c := snd (step t x (after obs f c)))"
  by (simp add: after_def)

lemma trouble_when_acting: "fst (step now x st) \<Longrightarrow> trouble x"
  by (metis calm fst_conv)

text \<open>What the state of a cell says of its past.\<close>

lemma breach_past:
  assumes "breachSince (f c) = None" "breachSince (after obs f c) = Some b"
  shows "\<exists>j < length obs. fst (obs ! j) = b \<and> fst (snd (obs ! j)) = c \<and>
    (\<forall>k. j \<le> k \<longrightarrow> k < length obs \<longrightarrow> fst (snd (obs ! k)) = c \<longrightarrow> trouble (snd (snd (obs ! k))))"
  using assms(2)
proof (induction obs arbitrary: b rule: rev_induct)
  case Nil
  then show ?case using assms(1) by simp
next
  case (snoc o1 obs)
  obtain t d x where o1: "o1 = (t, d, x)" by (cases o1) auto
  show ?case
  proof (cases "d = c")
    case False
    then have "breachSince (after obs f c) = Some b" using snoc.prems o1 by (simp add: after_snoc)
    from snoc.IH[OF this] obtain j where j: "j < length obs" "fst (obs ! j) = b" "fst (snd (obs ! j)) = c"
      "\<And>k. j \<le> k \<Longrightarrow> k < length obs \<Longrightarrow> fst (snd (obs ! k)) = c \<Longrightarrow> trouble (snd (snd (obs ! k)))"
      by auto
    show ?thesis
      using j o1 False by (intro exI[of _ j]) (auto simp: nth_append less_Suc_eq)
  next
    case True
    let ?st = "after obs f c"
    have now: "breachSince (snd (step t x ?st)) = Some b" using snoc.prems o1 True by (simp add: after_snoc)
    then have tr: "trouble x" using calm[of x t ?st] by (cases "trouble x") auto
    consider "b = t" | "breachSince ?st = Some b" using since[OF tr, of t ?st] now by auto
    then show ?thesis
    proof cases
      case 1
      then show ?thesis using o1 True tr by (intro exI[of _ "length obs"]) (auto simp: nth_append less_Suc_eq)
    next
      case 2
      from snoc.IH[OF this] obtain j where j: "j < length obs" "fst (obs ! j) = b" "fst (snd (obs ! j)) = c"
        "\<And>k. j \<le> k \<Longrightarrow> k < length obs \<Longrightarrow> fst (snd (obs ! k)) = c \<Longrightarrow> trouble (snd (snd (obs ! k)))"
        by auto
      show ?thesis
        using j o1 tr by (intro exI[of _ j]) (auto simp: nth_append less_Suc_eq)
    qed
  qed
qed

lemma action_past:
  assumes "sorted (map fst obs)" "i < length obs" "acts obs f i" "fst (snd (obs ! i)) = c"
  shows "\<exists>l. lastAction (after obs f c) = Some l \<and> fst (obs ! i) \<le> l \<and> l \<in> fst ` set obs"
  using assms
proof (induction obs rule: rev_induct)
  case Nil
  then show ?case by simp
next
  case (snoc o1 obs)
  obtain t d x where o1: "o1 = (t, d, x)" by (cases o1) auto
  have le: "\<And>s. s \<in> fst ` set obs \<Longrightarrow> s \<le> t" using snoc.prems(1) o1 by (auto simp: sorted_append)
  let ?st = "after obs f c"
  show ?case
  proof (cases "d = c \<and> fst (step t x ?st)")
    case True
    then have "lastAction (after (obs @ [o1]) f c) = Some t" using o1 acted by (simp add: after_snoc)
    moreover have "fst ((obs @ [o1]) ! i) \<le> t"
      using snoc.prems(2) le o1 by (auto simp: nth_append less_Suc_eq)
    ultimately show ?thesis using o1 by auto
  next
    case False
    have same: "lastAction (after (obs @ [o1]) f c) = lastAction ?st"
      using False o1 waits by (auto simp: after_snoc)
    have "i \<noteq> length obs" using False snoc.prems(3,4) o1 by (auto simp: acts_def)
    then have i: "i < length obs" using snoc.prems(2) by auto
    then have "acts obs f i" "fst (snd (obs ! i)) = c" "sorted (map fst obs)"
      using snoc.prems by (auto simp: acts_def nth_append sorted_append)
    from snoc.IH[OF this(3) i this(1,2)] show ?thesis using same i by (auto simp: nth_append)
  qed
qed

theorem sustained:
  assumes "breachSince (f c) = None" "i < length obs" "acts obs f i" "fst (snd (obs ! i)) = c"
  shows "\<exists>j \<le> i. fst (snd (obs ! j)) = c \<and> window \<le> fst (obs ! i) - fst (obs ! j) \<and>
    (\<forall>k. j \<le> k \<longrightarrow> k \<le> i \<longrightarrow> fst (snd (obs ! k)) = c \<longrightarrow> trouble (snd (snd (obs ! k))))"
proof -
  obtain t x where o1: "obs ! i = (t, c, x)" using assms(4) by (cases "obs ! i") auto
  have st: "fst (step t x (after (take i obs) f c))" using assms(3) o1 by (simp add: acts_def)
  then obtain b where b: "breachSince (after (take i obs) f c) = Some b" "window \<le> t - b" using acts_late by blast
  from breach_past[where f = f and c = c, OF assms(1) b(1)] assms(2)
  obtain j where j: "j < i" "fst (obs ! j) = b" "fst (snd (obs ! j)) = c"
    "\<And>k. j \<le> k \<Longrightarrow> k < i \<Longrightarrow> fst (snd (obs ! k)) = c \<Longrightarrow> trouble (snd (snd (obs ! k)))"
    by auto
  show ?thesis
    using j b(2) o1 trouble_when_acting[OF st] by (intro exI[of _ j]) (auto simp: le_less)
qed

theorem apart:
  assumes "sorted (map fst obs)" "i < j" "j < length obs" "acts obs f i" "acts obs f j"
    "fst (snd (obs ! i)) = c" "fst (snd (obs ! j)) = c"
  shows "pause \<le> fst (obs ! j) - fst (obs ! i)"
proof -
  obtain t x where o1: "obs ! j = (t, c, x)" using assms(7) by (cases "obs ! j") auto
  have srt: "sorted (map fst (take j obs))" using assms(1) by (metis sorted_wrt_take take_map)
  have "acts (take j obs) f i" using assms(2,4) by (simp add: acts_def min_def)
  from action_past[OF srt _ this, of c] assms(2,3,6)
  obtain l where l: "lastAction (after (take j obs) f c) = Some l" "fst (obs ! i) \<le> l" by auto
  have "pause \<le> t - l" using acts_apart[OF _ l(1)] assms(5) o1 by (simp add: acts_def)
  then show ?thesis using l(2) o1 by simp
qed

end

text \<open>The two gates of the policy keep the contract.\<close>

lemma observe_gate_cases:
  "observe_gate cfg now w st =
     (if fle (Fin 1) w then (False, st\<lparr>breachSince := None\<rparr>)
      else if breachSince st = None then (False, st\<lparr>breachSince := Some now\<rparr>)
      else if now - the (breachSince st) < minBreachDuration cfg \<or>
              (lastAction st \<noteq> None \<and> now - the (lastAction st) < cooldown cfg) then (False, st)
      else (True, st\<lparr>lastAction := Some now\<rparr>))"
  by (auto simp: observe_gate_def split: option.split)

interpretation load: action_gate "observe_gate cfg" "\<lambda>w. \<not> fle (Fin 1) w" "minBreachDuration cfg" "cooldown cfg"
  for cfg
  by unfold_locales (auto simp: observe_gate_cases split: if_splits)

definition merge_step :: "loadPolicyConfig \<Rightarrow> int \<Rightarrow> bool \<Rightarrow> cellPolicyState \<Rightarrow> bool \<times> cellPolicyState" where
  "merge_step cfg now low st = (case merge_gate cfg now low st of (starts, _, _, st') \<Rightarrow> (starts, st'))"

lemma merge_step_cases:
  "merge_step cfg now low st =
     (if \<not> low then (False, st\<lparr>breachSince := None\<rparr>)
      else if breachSince st = None then (False, st\<lparr>breachSince := Some now\<rparr>)
      else if now - the (breachSince st) < mergeLowLoadFor cfg \<or>
              (lastAction st \<noteq> None \<and> now - the (lastAction st) < mergeCooldown cfg) then (False, st)
      else (True, \<lparr>breachSince = None, lastAction = Some now\<rparr>))"
  by (auto simp: merge_step_def merge_gate_def split: option.split)

interpretation merge: action_gate "merge_step cfg" "\<lambda>low. low" "mergeLowLoadFor cfg" "mergeCooldown cfg"
  for cfg
  by unfold_locales (auto simp: merge_step_cases split: if_splits)

end
