(* ===== verification/Policy_Runs.thy ===== *)
theory Policy_Runs
  imports Policy_Timing
begin

text \<open>
  The policy over sequences of observations and rounds: what it acts on, which workflows run at the
  same time, what a round leaves in the gauges, and how the state of a cell can outlive the cell.
\<close>

section \<open>What an observation changes\<close>

lemma call_fields [simp]:
  "cellStates (snd (call ep h g)) = cellStates g" "mgStates (snd (call ep h g)) = mgStates g"
  "splitActive (snd (call ep h g)) = splitActive g" "mergeActive (snd (call ep h g)) = mergeActive g"
  "spawned (snd (call ep h g)) = spawned g" "counted (snd (call ep h g)) = counted g"
  "gauges (snd (call ep h g)) = gauges g" "tracked (snd (call ep h g)) = tracked g"
  by (auto simp: call_def next_turn_def Let_def split: list.split prod.split option.split fate.split)

lemma setCellSplitDrain_snd:
  "snd (setCellSplitDrain env ep en g) = (if dial_error env ep \<noteq> None then g else snd (call ep
     (\<lambda>now s. Update (js env) (visit_live env s) (Some (Some (SetSplitDrain (Some en)))) s) g))"
  by (auto simp: setCellSplitDrain_def fail_def give_def andThen_def split: option.split prod.split sum.split)

lemma setCellSplitDrain_fields [simp]:
  "cellStates (snd (setCellSplitDrain env ep en g)) = cellStates g" "mgStates (snd (setCellSplitDrain env ep en g)) = mgStates g"
  "splitActive (snd (setCellSplitDrain env ep en g)) = splitActive g" "mergeActive (snd (setCellSplitDrain env ep en g)) = mergeActive g"
  "spawned (snd (setCellSplitDrain env ep en g)) = spawned g" "counted (snd (setCellSplitDrain env ep en g)) = counted g"
  "gauges (snd (setCellSplitDrain env ep en g)) = gauges g" "tracked (snd (setCellSplitDrain env ep en g)) = tracked g"
  by (simp_all add: setCellSplitDrain_snd)

lemma observe_action_snd:
  "snd (observe_action env smp g) = g \<or>
   snd (observe_action env smp g) = snd (setCellSplitDrain env (ps_endpoint smp) True g)"
  by (auto simp: observe_action_def split: option.split prod.split sum.split)

lemma observe_action_fields [simp]:
  "cellStates (snd (observe_action env smp g)) = cellStates g" "mgStates (snd (observe_action env smp g)) = mgStates g"
  "splitActive (snd (observe_action env smp g)) = splitActive g" "mergeActive (snd (observe_action env smp g)) = mergeActive g"
  "spawned (snd (observe_action env smp g)) = spawned g" "counted (snd (observe_action env smp g)) = counted g"
  "gauges (snd (observe_action env smp g)) = gauges g" "tracked (snd (observe_action env smp g)) = tracked g"
  by (rule disjE[OF observe_action_snd[of env smp g]], simp, simp)+

lemma split_maybeStart_fields [simp]:
  "cellStates (split_maybeStart c i g) = cellStates g" "mgStates (split_maybeStart c i g) = mgStates g"
  "mergeActive (split_maybeStart c i g) = mergeActive g" "counted (split_maybeStart c i g) = counted g"
  "gauges (split_maybeStart c i g) = gauges g" "tracked (split_maybeStart c i g) = tracked g"
  by (auto simp: split_maybeStart_def Let_def split: prod.split)

lemma merge_maybeStart_fields [simp]:
  "cellStates (merge_maybeStart c i g) = cellStates g" "mgStates (merge_maybeStart c i g) = mgStates g"
  "splitActive (merge_maybeStart c i g) = splitActive g" "counted (merge_maybeStart c i g) = counted g"
  "gauges (merge_maybeStart c i g) = gauges g" "tracked (merge_maybeStart c i g) = tracked g"
  by (auto simp: merge_maybeStart_def Let_def)

lemma policy_publish_fields [simp]:
  "cellStates (policy_publish env e g) = cellStates g" "mgStates (policy_publish env e g) = mgStates g"
  "splitActive (policy_publish env e g) = splitActive g" "mergeActive (policy_publish env e g) = mergeActive g"
  "spawned (policy_publish env e g) = spawned g" "counted (policy_publish env e g) = counted g"
  "gauges (policy_publish env e g) = gauges g" "tracked (policy_publish env e g) = tracked g"
  by (auto simp: policy_publish_def)

definition gate_result :: "('c, 'y) policy_env_scheme \<Rightarrow> policySample \<Rightarrow> f64 \<Rightarrow> ('c, 'z) PolicyGrid_scheme \<Rightarrow>
    bool \<times> cellPolicyState" where
  "gate_result env smp w g = observe_gate (policy_cfg env) (clock g) w (state_of (cellStates g) (ps_cellID smp))"

text \<open>An observation that does not act only stores the state; the other one starts at most a split.\<close>

definition acted_grid :: "('c, 'y) policy_env_scheme \<Rightarrow> policySample \<Rightarrow> ('c, 'z) PolicyGrid_scheme \<Rightarrow> ('c, 'z) PolicyGrid_scheme" where
  "acted_grid env smp g =
     (let ((action, result), g1) = observe_action env smp g
      in if action = ''split_drain_enable'' \<and> result = ''ok''
         then (case split_cfg env of None \<Rightarrow> g1 | Some sc \<Rightarrow> split_maybeStart sc (ps_cellID smp) g1) else g1)"

lemma acted_grid_fields [simp]:
  "cellStates (acted_grid env smp g) = cellStates g" "mgStates (acted_grid env smp g) = mgStates g"
  "mergeActive (acted_grid env smp g) = mergeActive g" "counted (acted_grid env smp g) = counted g"
  "gauges (acted_grid env smp g) = gauges g" "tracked (acted_grid env smp g) = tracked g"
  using observe_action_fields[of env smp g]
  by (auto simp: acted_grid_def split: prod.split option.split simp del: observe_action_fields)

lemma observe_acted:
  "observe env smp w g =
     (if \<not> fst (gate_result env smp w g) then g\<lparr>cellStates := (cellStates g)(ps_cellID smp \<mapsto> snd (gate_result env smp w g))\<rparr>
      else (let ((action, result), g1) = observe_action env smp g; g2 = acted_grid env smp g;
                g3 = policy_publish env
                     \<lparr>le_CellID = ps_cellID smp, le_Action = action, le_Reachable = ps_reachable smp,
                      le_Players = ps_players smp, le_Entities = ps_entities smp,
                      le_TickSeconds = ps_tickSec smp, le_Violations = ps_violations smp,
                      le_MinBreachDuration = minBreachDuration (policy_cfg env),
                      le_Cooldown = cooldown (policy_cfg env), le_AtUnixMs = unix_ms (clock g)\<rparr>
                     (g2\<lparr>counted := counted g2 @ [(action, ps_cellID smp, result)]\<rparr>)
            in g3\<lparr>cellStates := (cellStates g3)(ps_cellID smp \<mapsto> snd (gate_result env smp w g))\<rparr>))"
  by (auto simp: observe_def gate_result_def acted_grid_def Let_def split: prod.split)

lemma observe_state:
  "state_of (cellStates (observe env smp w g)) =
     (state_of (cellStates g))(ps_cellID smp := snd (gate_result env smp w g))"
  by (auto simp: observe_acted state_of_def Let_def fun_eq_iff split: prod.split)

lemma observe_counted:
  "counted (observe env smp w g) = counted g \<longleftrightarrow> \<not> fst (gate_result env smp w g)"
  by (auto simp: observe_acted Let_def split: prod.split)

section \<open>Observations in sequence\<close>

definition watch :: "('c, 'y) policy_env_scheme \<Rightarrow> (int \<times> policySample \<times> f64) list \<Rightarrow>
    ('c, 'z) PolicyGrid_scheme \<Rightarrow> ('c, 'z) PolicyGrid_scheme" where
  "watch env obs g = fold (\<lambda>(t, smp, w) g. observe env smp w (g\<lparr>clock := t\<rparr>)) obs g"

text \<open>The observation at \<open>i\<close> acts: it counts an action.\<close>

definition acted_at :: "('c, 'y) policy_env_scheme \<Rightarrow> (int \<times> policySample \<times> f64) list \<Rightarrow>
    ('c, 'z) PolicyGrid_scheme \<Rightarrow> nat \<Rightarrow> bool" where
  "acted_at env obs g i \<longleftrightarrow> counted (watch env (take (Suc i) obs) g) \<noteq> counted (watch env (take i obs) g)"

abbreviation keyed :: "(int \<times> policySample \<times> f64) list \<Rightarrow> (int \<times> string \<times> f64) list" where
  "keyed obs \<equiv> map (\<lambda>(t, smp, w). (t, ps_cellID smp, w)) obs"

lemma watch_state:
  "state_of (cellStates (watch env obs g)) = load.after (policy_cfg env) (keyed obs) (state_of (cellStates g))"
  by (induction obs rule: rev_induct)
     (auto simp: watch_def load.after_snoc observe_state gate_result_def)

lemma acted_at_gate:
  assumes "i < length obs"
  shows "acted_at env obs g i \<longleftrightarrow> load.acts (policy_cfg env) (keyed obs) (state_of (cellStates g)) i"
proof -
  obtain t smp w where o1: "obs ! i = (t, smp, w)" by (cases "obs ! i") auto
  let ?g = "watch env (take i obs) g"
  have "watch env (take (Suc i) obs) g = observe env smp w (?g\<lparr>clock := t\<rparr>)"
    using assms o1 by (simp add: take_Suc_conv_app_nth watch_def)
  then have "acted_at env obs g i \<longleftrightarrow> fst (gate_result env smp w (?g\<lparr>clock := t\<rparr>))"
    using observe_counted[of env smp w "?g\<lparr>clock := t\<rparr>"] by (simp add: acted_at_def)
  then show ?thesis
    using assms o1 by (simp add: load.acts_def gate_result_def watch_state take_map)
qed

text \<open>
  C21: The load policy acts on a cell only while it has been outside its limits in every observation
  since one that lies the minimum duration back, and two actions on the same cell are at least the
  cooldown apart, for every sequence of observations of any cells.
\<close>

theorem load_policy_restraint:
  assumes "cellStates g = Map.empty" "sorted (map fst obs)" "j < length obs" "acted_at env obs g j"
    and "ps_cellID (fst (snd (obs ! j))) = c"
  shows "(\<exists>k \<le> j. ps_cellID (fst (snd (obs ! k))) = c \<and>
           minBreachDuration (policy_cfg env) \<le> fst (obs ! j) - fst (obs ! k) \<and>
           (\<forall>m. k \<le> m \<longrightarrow> m \<le> j \<longrightarrow> ps_cellID (fst (snd (obs ! m))) = c \<longrightarrow> \<not> fle (Fin 1) (snd (snd (obs ! m))))) \<and>
         (\<forall>i < j. acted_at env obs g i \<longrightarrow> ps_cellID (fst (snd (obs ! i))) = c \<longrightarrow>
           cooldown (policy_cfg env) \<le> fst (obs ! j) - fst (obs ! i))"
proof -
  let ?f = "state_of (cellStates g)"
  have key: "fst (keyed obs ! k) = fst (obs ! k)" "fst (snd (keyed obs ! k)) = ps_cellID (fst (snd (obs ! k)))"
    "snd (snd (keyed obs ! k)) = snd (snd (obs ! k))" if k: "k < length obs" for k
    using k by (auto split: prod.split)
  have srt: "sorted (map fst (keyed obs))" using assms(2) by (simp add: case_prod_unfold comp_def)
  have none: "breachSince (?f c) = None" using assms(1) by (simp add: state_of_def)
  have act: "load.acts (policy_cfg env) (keyed obs) ?f k" if "k < length obs" "acted_at env obs g k" for k
    using that acted_at_gate by blast
  from load.sustained[where f = ?f and c = c and obs = "keyed obs" and i = j, OF none _ act[OF assms(3,4)]] assms(3,5)
  obtain k where k: "k \<le> j" "fst (snd (keyed obs ! k)) = c"
    "minBreachDuration (policy_cfg env) \<le> fst (keyed obs ! j) - fst (keyed obs ! k)"
    "\<forall>m. k \<le> m \<longrightarrow> m \<le> j \<longrightarrow> fst (snd (keyed obs ! m)) = c \<longrightarrow> \<not> fle (Fin 1) (snd (snd (keyed obs ! m)))"
    using key(2)[OF assms(3)] by auto
  then have "\<exists>k \<le> j. ps_cellID (fst (snd (obs ! k))) = c \<and>
      minBreachDuration (policy_cfg env) \<le> fst (obs ! j) - fst (obs ! k) \<and>
      (\<forall>m. k \<le> m \<longrightarrow> m \<le> j \<longrightarrow> ps_cellID (fst (snd (obs ! m))) = c \<longrightarrow> \<not> fle (Fin 1) (snd (snd (obs ! m))))"
    using assms(3) key by (intro exI[of _ k]) auto
  moreover have "cooldown (policy_cfg env) \<le> fst (obs ! j) - fst (obs ! i)"
    if i: "i < j" "acted_at env obs g i" "ps_cellID (fst (snd (obs ! i))) = c" for i
    using load.apart[OF srt i(1) _ act act[OF assms(3,4)], of c] i assms(3,5) key by simp
  ultimately show ?thesis by blast
qed


section \<open>Workflows in flight\<close>

text \<open>\<open>run\<close> of a workflow removes its cell from \<open>active\<close> when it returns.\<close>

definition split_done :: "string \<Rightarrow> ('c, 'z) PolicyGrid_scheme \<Rightarrow> ('c, 'z) PolicyGrid_scheme" where
  "split_done i g = g\<lparr>splitActive := splitActive g - {i}, spawned := remove1 (Split_run i) (spawned g)\<rparr>"

definition merge_done :: "string \<Rightarrow> ('c, 'z) PolicyGrid_scheme \<Rightarrow> ('c, 'z) PolicyGrid_scheme" where
  "merge_done i g = g\<lparr>mergeActive := mergeActive g - {i}, spawned := remove1 (Merge_run i) (spawned g)\<rparr>"

text \<open>
  The runs of the process: rounds of the probe, workflows returning, and anything that happens to
  the catalog, the cells and the clock in between.
\<close>

inductive policy_run :: "('c, 'y) policy_env_scheme \<Rightarrow> ('c, 'z) PolicyGrid_scheme \<Rightarrow> ('c, 'z) PolicyGrid_scheme \<Rightarrow> bool"
  for env g0 where
  start: "policy_run env g0 g0"
| round: "policy_run env g0 g \<Longrightarrow> policy_run env g0 (runRound env g)"
| split_returns: "policy_run env g0 g \<Longrightarrow> Split_run i \<in> set (spawned g) \<Longrightarrow> policy_run env g0 (split_done i g)"
| merge_returns: "policy_run env g0 g \<Longrightarrow> Merge_run i \<in> set (spawned g) \<Longrightarrow> policy_run env g0 (merge_done i g)"
| others: "policy_run env g0 g \<Longrightarrow> policy_run env g0 (g\<lparr>reg := c, servers := ss, turns := ts, clock := t\<rparr>)"

definition flows :: "('c, 'z) PolicyGrid_scheme \<Rightarrow> string set \<times> string set \<times> workflow list" where
  "flows g = (splitActive g, mergeActive g, spawned g)"

text \<open>A split the configuration allows, and the workflows in flight as the sets have them.\<close>

definition split_allowed :: "splitWorkflowConfig \<Rightarrow> string \<Rightarrow> bool" where
  "split_allowed sc i \<longleftrightarrow> sw_enabled sc \<and> i \<notin> sw_blockedCells sc \<and>
     (sw_maxLevel sc > 0 \<and> snd (CellPathLevel i) \<longrightarrow> fst (CellPathLevel i) < sw_maxLevel sc)"

definition flows_ok :: "('c, 'y) policy_env_scheme \<Rightarrow> string set \<times> string set \<times> workflow list \<Rightarrow> bool" where
  "flows_ok env = (\<lambda>(sa, ma, sp). distinct sp \<and> sa = {i. Split_run i \<in> set sp} \<and> ma = {i. Merge_run i \<in> set sp} \<and>
     finite sa \<and>
     (\<forall>i \<in> sa. \<exists>sc. split_cfg env = Some sc \<and> split_allowed sc i \<and>
        (sw_maxConcurrent sc > 0 \<longrightarrow> int (card sa) \<le> sw_maxConcurrent sc)) \<and>
     (\<forall>i \<in> ma. \<exists>mw. merge_cfg env = Some mw \<and> mw_enabled mw \<and> i \<notin> mw_blockedParents mw))"

lemma flows_ok_split_start:
  assumes "split_cfg env = Some sc" "flows_ok env (flows g)"
  shows "flows_ok env (flows (split_maybeStart sc i g))"
proof (cases "flows (split_maybeStart sc i g) = flows g")
  case False
  then have c: "TrimSpace i \<notin> splitActive g" "split_allowed sc (TrimSpace i)"
    "sw_maxConcurrent sc > 0 \<longrightarrow> int (card (splitActive g)) < sw_maxConcurrent sc"
    "flows (split_maybeStart sc i g) =
       (insert (TrimSpace i) (splitActive g), mergeActive g, spawned g @ [Split_run (TrimSpace i)])"
    by (auto simp: split_maybeStart_def flows_def split_allowed_def Let_def split: prod.splits if_splits)
  have card: "card (insert (TrimSpace i) (splitActive g)) = Suc (card (splitActive g))"
    using assms(2) unfolding flows_ok_def flows_def prod.case by (meson c(1) card_insert_disjoint)
  show ?thesis
    unfolding c(4) using c(1-3) assms card by (simp add: flows_ok_def flows_def) auto
qed (use assms in simp)

lemma flows_ok_merge_start:
  assumes "merge_cfg env = Some mw" "flows_ok env (flows g)"
  shows "flows_ok env (flows (merge_maybeStart mw i g))"
proof (cases "flows (merge_maybeStart mw i g) = flows g")
  case False
  then have c: "TrimSpace i \<notin> mergeActive g" "mw_enabled mw" "TrimSpace i \<notin> mw_blockedParents mw"
    "flows (merge_maybeStart mw i g) =
       (splitActive g, insert (TrimSpace i) (mergeActive g), spawned g @ [Merge_run (TrimSpace i)])"
    by (auto simp: merge_maybeStart_def flows_def Let_def split: if_splits)
  show ?thesis
    unfolding c(4) using c(1-3) assms by (auto simp: flows_ok_def flows_def)
qed (use assms in simp)

lemma flows_same [simp]:
  "flows (policy_publish env e g) = flows g" "flows (g\<lparr>cellStates := x\<rparr>) = flows g"
  "flows (g\<lparr>mgStates := x\<rparr>) = flows g" "flows (g\<lparr>counted := y\<rparr>) = flows g"
  "flows (g\<lparr>gauges := u\<rparr>) = flows g" "flows (g\<lparr>tracked := v\<rparr>) = flows g"
  "flows (snd (observe_action env smp g)) = flows g" "flows (snd (call ep h g)) = flows g"
  "flows (g\<lparr>reg := c, servers := ss, turns := ts, clock := t\<rparr>) = flows g"
  by (simp_all add: flows_def)

lemma flows_ok_acted: "flows_ok env (flows g) \<Longrightarrow> flows_ok env (flows (acted_grid env smp g))"
  using flows_same(7)[of env smp g]
  by (auto simp: acted_grid_def intro!: flows_ok_split_start split: prod.split option.split simp del: flows_same(7))

lemma flows_ok_observe: "flows_ok env (flows g) \<Longrightarrow> flows_ok env (flows (observe env smp w g))"
  by (auto simp: observe_acted Let_def flows_ok_acted split: prod.split)

lemma pingCell_snd: "snd (pingCell env ep g) = g \<or> snd (pingCell env ep g) = snd (call ep (\<lambda>now s. (Ping (unix_ms now) s, s)) g)"
  by (auto simp: pingCell_def split: prod.split sum.split)

lemma flows_ping [simp]: "flows (snd (pingCell env ep g)) = flows g"
  using pingCell_snd[of env ep g] by auto

lemma flows_ok_probe: "flows_ok env (flows g) \<Longrightarrow> flows_ok env (flows (snd (probe_cell env oc (s, g))))"
proof (cases oc)
  case (Some c)
  obtain pg g1 where pg: "pingCell env (TrimSpace (cs_GrpcEndpoint c)) g = (pg, g1)" by (cases "pingCell env (TrimSpace (cs_GrpcEndpoint c)) g")
  then have "flows g1 = flows g" using flows_ping[of env "TrimSpace (cs_GrpcEndpoint c)" g] by simp
  then show "flows_ok env (flows g) \<Longrightarrow> flows_ok env (flows (snd (probe_cell env oc (s, g))))"
    using Some pg by (auto simp: probe_cell_def Let_def deleteCellProbeLabels_def intro!: flows_ok_observe split: prod.split)
qed (simp add: probe_cell_def)

lemma flows_ok_parent:
  "merge_cfg env = Some mw \<Longrightarrow> flows_ok env (flows g) \<Longrightarrow>
     flows_ok env (flows (observe_parent env mw listed specs samples now oc g))"
  by (auto simp: observe_parent_def Let_def flows_ok_merge_start split: option.split sum.split prod.split)

lemma flows_ok_parents:
  "merge_cfg env = Some mw \<Longrightarrow> flows_ok env (flows g) \<Longrightarrow>
     flows_ok env (flows (fold (observe_parent env mw listed specs samples now) cs g))"
  by (induction cs arbitrary: g) (auto intro: flows_ok_parent)

lemma flows_ok_merges:
  "flows_ok env (flows g) \<Longrightarrow> flows_ok env (flows (observeMergeCandidates env listed samples g))"
  by (auto simp: observeMergeCandidates_def Let_def flows_ok_parents split: option.split)

lemma flows_ok_probes:
  "flows_ok env (flows g) \<Longrightarrow> flows_ok env (flows (snd (fold (probe_cell env) cs (s, g))))"
proof (induction cs arbitrary: s g)
  case (Cons oc cs)
  then show ?case using flows_ok_probe[of env g oc s] by (cases "probe_cell env oc (s, g)") auto
qed simp

lemma flows_ok_round:
  assumes "flows_ok env (flows g)"
  shows "flows_ok env (flows (runRound env g))"
proof (cases "\<exists>cat listed. catalog_of env = Some cat \<and> ListAll cat (reg g) = Inr listed")
  case True
  then obtain cat listed where l: "catalog_of env = Some cat" "ListAll cat (reg g) = Inr listed" by blast
  obtain s g1 where f: "fold (probe_cell env) listed (Map.empty, g) = (s, g1)" by (cases "fold (probe_cell env) listed (Map.empty, g)")
  then have "flows_ok env (flows g1)" using flows_ok_probes[OF assms, of listed Map.empty] by simp
  then show ?thesis using l f by (simp add: runRound_def drop_untracked_def flows_ok_merges)
next
  case False
  then show ?thesis using assms by (auto simp: runRound_def split: option.split sum.split)
qed

text \<open>
  C22: Whatever the rounds observe and in whatever order workflows return, at most one split and at
  most one merge of a cell are in flight, \<open>active\<close> holds exactly the cells with one, the number of
  splits stays within the configured limit, and none is of a blocked cell or at the maximum level.
\<close>

theorem workflows_exclusive:
  assumes "policy_run env g0 g" "splitActive g0 = {}" "mergeActive g0 = {}" "spawned g0 = []"
  shows "distinct (spawned g) \<and> splitActive g = {i. Split_run i \<in> set (spawned g)} \<and>
    mergeActive g = {i. Merge_run i \<in> set (spawned g)} \<and>
    (\<forall>i \<in> splitActive g. \<exists>sc. split_cfg env = Some sc \<and> sw_enabled sc \<and> i \<notin> sw_blockedCells sc \<and>
       (sw_maxLevel sc > 0 \<and> snd (CellPathLevel i) \<longrightarrow> fst (CellPathLevel i) < sw_maxLevel sc) \<and>
       (sw_maxConcurrent sc > 0 \<longrightarrow> int (card (splitActive g)) \<le> sw_maxConcurrent sc)) \<and>
    (\<forall>i \<in> mergeActive g. \<exists>mw. merge_cfg env = Some mw \<and> mw_enabled mw \<and> i \<notin> mw_blockedParents mw)"
proof -
  have "flows_ok env (flows g)" using assms
  proof induction
    case start
    then show ?case by (simp add: flows_ok_def flows_def)
  next
    case (split_returns g i)
    then have ok: "flows_ok env (flows g)" by blast
    have "int (card (splitActive g - {i})) \<le> n" if n: "int (card (splitActive g)) \<le> n" for n
      using n card_Diff1_le[of "splitActive g" i] by linarith
    with ok show ?case by (auto simp: flows_ok_def flows_def split_done_def)
  next
    case (merge_returns g i)
    then have ok: "flows_ok env (flows g)" by blast
    then show ?case by (auto simp: flows_ok_def flows_def merge_done_def)
  qed (auto intro: flows_ok_round)
  then show ?thesis by (auto simp: flows_ok_def flows_def split_allowed_def)
qed

end
