(* ===== verification/Policy_Rounds.thy ===== *)
theory Policy_Rounds
  imports Policy_Runs
begin

text \<open>
  What a round of the probe leaves behind: the gauges of the cells it reached, the state of the policy
  for those it did not, the merge groups it finds idle; and the settings the parsers can yield.
\<close>

section \<open>Gauges\<close>

lemma observe_fields [simp]:
  "gauges (observe env smp w g) = gauges g" "tracked (observe env smp w g) = tracked g"
  "mgStates (observe env smp w g) = mgStates g"
  by (auto simp: observe_acted Let_def split: prod.split)

lemma ping_fields [simp]:
  "gauges (snd (pingCell env ep g)) = gauges g" "tracked (snd (pingCell env ep g)) = tracked g"
  "cellStates (snd (pingCell env ep g)) = cellStates g"
  by (rule disjE[OF pingCell_snd[of env ep g]], simp, simp)+

lemma observe_parent_fields [simp]:
  "gauges (observe_parent env mw listed specs samples now oc g) = gauges g"
  "tracked (observe_parent env mw listed specs samples now oc g) = tracked g"
  "cellStates (observe_parent env mw listed specs samples now oc g) = cellStates g"
  by (auto simp: observe_parent_def Let_def split: option.split sum.split prod.split)

lemma observe_parents_fields [simp]:
  "gauges (fold (observe_parent env mw listed specs samples now) cs g) = gauges g"
  "tracked (fold (observe_parent env mw listed specs samples now) cs g) = tracked g"
  "cellStates (fold (observe_parent env mw listed specs samples now) cs g) = cellStates g"
  by (induction cs arbitrary: g) simp_all

lemma observeMergeCandidates_fields [simp]:
  "gauges (observeMergeCandidates env listed samples g) = gauges g"
  "tracked (observeMergeCandidates env listed samples g) = tracked g"
  "cellStates (observeMergeCandidates env listed samples g) = cellStates g"
  by (auto simp: observeMergeCandidates_def Let_def split: option.split)

text \<open>How one cell of the listing bears on a name.\<close>

definition names :: "CellSpec option \<Rightarrow> string \<Rightarrow> bool" where
  "names oc i \<longleftrightarrow> (\<exists>c. oc = Some c \<and> TrimSpace (cs_Id c) = i \<and> i \<noteq> [])"

definition has_endpoint :: "CellSpec option \<Rightarrow> bool" where
  "has_endpoint oc \<longleftrightarrow> (\<exists>c. oc = Some c \<and> TrimSpace (cs_GrpcEndpoint c) \<noteq> [])"

lemma observe_elsewhere: "i \<noteq> ps_cellID smp \<Longrightarrow> cellStates (observe env smp w g) i = cellStates g i"
  by (auto simp: observe_acted Let_def split: prod.split)

lemma probe_cell_cases:
  obtains (skipped) "\<forall>i. \<not> names oc i" "snd (probe_cell env oc (s, g)) = g"
  | (unaddressed) i where "names oc i" "\<not> has_endpoint oc"
      "snd (probe_cell env oc (s, g)) = (deleteCellProbeLabels i g)\<lparr>tracked := tracked g - {i}\<rparr>"
  | (probed) i smp w ga g1 where "names oc i" "has_endpoint oc" "ps_cellID smp = i"
      "gauges g1 = gauges g" "tracked g1 = tracked g" "cellStates g1 = cellStates g"
      "snd (probe_cell env oc (s, g)) =
        (observe env smp w (g1\<lparr>gauges := (gauges g1)(i \<mapsto> ga)\<rparr>))\<lparr>tracked := insert i (tracked g1)\<rparr>"
proof (cases oc)
  case None
  then show thesis using skipped by (simp add: names_def probe_cell_def)
next
  case (Some c)
  let ?i = "TrimSpace (cs_Id c)" and ?ep = "TrimSpace (cs_GrpcEndpoint c)"
  show thesis
  proof (cases "?i = []")
    case True
    then show thesis using skipped Some by (simp add: names_def probe_cell_def)
  next
    case i: False
    show thesis
    proof (cases "?ep = []")
      case True
      then show thesis using unaddressed[of ?i] Some i by (simp add: names_def has_endpoint_def probe_cell_def Let_def)
    next
      case False
      obtain ok pl ents tick tps g1 where pg: "pingCell env ?ep g = ((ok, pl, ents, tick, tps), g1)"
        by (metis prod.collapse)
      obtain w viol where ev: "evalLoadThresholds ok pl ents tick (thresholds env) = (w, viol)"
        by (cases "evalLoadThresholds ok pl ents tick (thresholds env)")
      have "gauges g1 = gauges g" "tracked g1 = tracked g" "cellStates g1 = cellStates g"
        using ping_fields[of env ?ep g] pg by simp_all
      moreover have "names oc ?i" "has_endpoint oc" using Some i False by (simp_all add: names_def has_endpoint_def)
      ultimately show thesis
        using Some i False pg ev
        by (intro probed[where i = ?i and w = w and ?g1.0 = g1 and
              smp = "\<lparr>ps_cellID = ?i, ps_endpoint = ?ep, ps_level = cs_Level c, ps_reachable = ok,
                ps_players = pl, ps_entities = ents, ps_tickSec = tick, ps_violations = viol\<rparr>" and
              ga = "\<lparr>ga_reachable = ok, ga_players = (if ok then pl else Fin 0),
                ga_entities = (if ok then ents else Fin 0), ga_tickSec = (if ok then tick else Fin 0),
                ga_tps = (if ok then tps else Fin 0), ga_within = w, ga_violations = viol\<rparr>"])
           (simp_all add: probe_cell_def Let_def)
    qed
  qed
qed

lemma names_unique: "names oc i \<Longrightarrow> names oc j \<longleftrightarrow> j = i"
  by (auto simp: names_def)

lemma probe_cell_at:
  "i \<in> tracked (snd (probe_cell env oc (s, g))) \<longleftrightarrow> (if names oc i then has_endpoint oc else i \<in> tracked g)"
  "i \<in> dom (gauges (snd (probe_cell env oc (s, g)))) \<longleftrightarrow> (if names oc i then has_endpoint oc else i \<in> dom (gauges g))"
  "\<not> (names oc i \<and> has_endpoint oc) \<Longrightarrow> cellStates (snd (probe_cell env oc (s, g))) i = cellStates g i"
  by (cases rule: probe_cell_cases[of oc env s g];
      auto simp: names_unique deleteCellProbeLabels_def observe_elsewhere split: if_splits)+

lemma probes_at:
  assumes "\<And>oc oc'. oc \<in> set cs \<Longrightarrow> oc' \<in> set cs \<Longrightarrow> names oc i \<Longrightarrow> names oc' i \<Longrightarrow> has_endpoint oc = has_endpoint oc'"
  shows "(i \<in> tracked (snd (fold (probe_cell env) cs (s, g))) \<longleftrightarrow>
      (\<exists>oc \<in> set cs. names oc i \<and> has_endpoint oc) \<or> i \<in> tracked g \<and> (\<forall>oc \<in> set cs. \<not> names oc i)) \<and>
    (i \<in> dom (gauges (snd (fold (probe_cell env) cs (s, g)))) \<longleftrightarrow>
      (\<exists>oc \<in> set cs. names oc i \<and> has_endpoint oc) \<or> i \<in> dom (gauges g) \<and> (\<forall>oc \<in> set cs. \<not> names oc i))"
  using assms
proof (induction cs arbitrary: s g)
  case (Cons oc cs)
  obtain s1 g1 where p: "probe_cell env oc (s, g) = (s1, g1)" by (cases "probe_cell env oc (s, g)")
  note at = probe_cell_at(1,2)[of i env oc s g, unfolded p snd_conv]
  note ih = Cons.IH[of s1 g1, OF Cons.prems[OF list.set_intros(2) list.set_intros(2)]]
  have "fold (probe_cell env) (oc # cs) (s, g) = fold (probe_cell env) cs (s1, g1)" using p by simp
  then show ?case using ih at Cons.prems by (auto split: if_splits)
qed auto

lemma probes_state:
  "(\<forall>oc \<in> set cs. \<not> (names oc i \<and> has_endpoint oc)) \<Longrightarrow>
     cellStates (snd (fold (probe_cell env) cs (s, g))) i = cellStates g i"
proof (induction cs arbitrary: s g)
  case (Cons oc cs)
  obtain s1 g1 where p: "probe_cell env oc (s, g) = (s1, g1)" by (cases "probe_cell env oc (s, g)")
  then have "cellStates g1 i = cellStates g i" using probe_cell_at(3)[of oc i env s g] Cons.prems by simp
  then show ?case using p Cons by simp
qed simp

lemma runRound_listed:
  assumes "catalog_of env = Some cat" "ListAll cat (reg g) = Inr listed"
  obtains s g1 where "fold (probe_cell env) listed (Map.empty, g) = (s, g1)"
    "runRound env g = drop_untracked (in_catalog listed) (observeMergeCandidates env listed s g1)"
  using assms by (cases "fold (probe_cell env) listed (Map.empty, g)") (simp add: runRound_def)

lemma in_catalog_names: "i \<in> in_catalog listed \<longleftrightarrow> (\<exists>oc \<in> set listed. names oc i)"
  by (auto simp: in_catalog_def names_def)

text \<open>
  After a round over a listing that gives every name one endpoint, the cells with gauges are the
  tracked ones, and these are exactly the named cells of the listing with an endpoint.
\<close>

theorem runRound_gauges:
  assumes "catalog_of env = Some cat" "ListAll cat (reg g) = Inr listed"
    and "\<And>c d. Some c \<in> set listed \<Longrightarrow> Some d \<in> set listed \<Longrightarrow> TrimSpace (cs_Id c) = TrimSpace (cs_Id d) \<Longrightarrow>
      (TrimSpace (cs_GrpcEndpoint c) = []) = (TrimSpace (cs_GrpcEndpoint d) = [])"
    and "dom (gauges g) = tracked g"
  shows "tracked (runRound env g) =
      {TrimSpace (cs_Id c) |c. Some c \<in> set listed \<and> TrimSpace (cs_Id c) \<noteq> [] \<and> TrimSpace (cs_GrpcEndpoint c) \<noteq> []} \<and>
    dom (gauges (runRound env g)) = tracked (runRound env g)"
proof -
  obtain s g1 where f: "fold (probe_cell env) listed (Map.empty, g) = (s, g1)"
    and r: "runRound env g = drop_untracked (in_catalog listed) (observeMergeCandidates env listed s g1)"
    using runRound_listed[OF assms(1,2)] by metis
  have one: "\<And>oc oc' i. oc \<in> set listed \<Longrightarrow> oc' \<in> set listed \<Longrightarrow> names oc i \<Longrightarrow> names oc' i \<Longrightarrow> has_endpoint oc = has_endpoint oc'"
    using assms(3) by (auto simp: names_def has_endpoint_def)
  have at: "(i \<in> tracked g1 \<longleftrightarrow> (\<exists>oc \<in> set listed. names oc i \<and> has_endpoint oc) \<or>
        i \<in> tracked g \<and> (\<forall>oc \<in> set listed. \<not> names oc i)) \<and>
      (i \<in> dom (gauges g1) \<longleftrightarrow> (\<exists>oc \<in> set listed. names oc i \<and> has_endpoint oc) \<or>
        i \<in> dom (gauges g) \<and> (\<forall>oc \<in> set listed. \<not> names oc i))" for i
    by (rule probes_at[of listed i env Map.empty g, unfolded f snd_conv]) (rule one)
  have t: "tracked (runRound env g) = {i. \<exists>oc \<in> set listed. names oc i \<and> has_endpoint oc}"
    using at unfolding r by (auto simp: drop_untracked_def in_catalog_names)
  have "dom (gauges (runRound env g)) = {i. \<exists>oc \<in> set listed. names oc i \<and> has_endpoint oc}"
  proof -
    have "dom (gauges (runRound env g)) = dom (gauges g1) \<inter> - (tracked g1 - in_catalog listed)"
      by (simp add: r drop_untracked_def)
    then show ?thesis unfolding set_eq_iff Int_iff Compl_iff Diff_iff in_catalog_names using at assms(4) by blast
  qed
  then show ?thesis unfolding t by (auto simp: names_def has_endpoint_def)
qed

text \<open>
  A cell that a round lists without an endpoint is no longer tracked but keeps its policy state;
  when it then leaves the catalog its state is not forgotten. If it was overloaded before, the first
  overloaded observation after its return acts at once, however short the overload.
\<close>

theorem stale_breach_acts:
  assumes "catalog_of env = Some cat" "ListAll cat (reg g) = Inr listed" "ListAll cat c2 = Inr later"
    and "names (Some c) i" "Some c \<in> set listed" "TrimSpace (cs_GrpcEndpoint c) = []"
    and "\<And>d. Some d \<in> set listed \<Longrightarrow> TrimSpace (cs_Id d) = i \<Longrightarrow> d = c"
    and "\<And>d. Some d \<in> set later \<Longrightarrow> TrimSpace (cs_Id d) \<noteq> i"
    and "cellStates g i = Some \<lparr>breachSince = Some b, lastAction = None\<rparr>"
    and "b + minBreachDuration (policy_cfg env) \<le> t2" "\<not> fle (Fin 1) w" "ps_cellID smp = i"
    and "g2 = (runRound env ((runRound env g)\<lparr>reg := c2, clock := t1\<rparr>))\<lparr>clock := t2\<rparr>"
  shows "counted (observe env smp w g2) \<noteq> counted g2"
proof -
  have keep: "cellStates (runRound env h) i = cellStates h i \<and> i \<notin> tracked (runRound env h)"
    if l: "ListAll cat (reg h) = Inr ls" and no: "\<forall>oc \<in> set ls. \<not> (names oc i \<and> has_endpoint oc)"
      and gone: "(\<exists>oc \<in> set ls. names oc i) \<or> i \<notin> tracked h" for h ls
  proof -
    obtain s g1 where f: "fold (probe_cell env) ls (Map.empty, h) = (s, g1)"
      and r: "runRound env h = drop_untracked (in_catalog ls) (observeMergeCandidates env ls s g1)"
      using runRound_listed[OF assms(1) l] by metis
    have "\<And>oc oc'. oc \<in> set ls \<Longrightarrow> oc' \<in> set ls \<Longrightarrow> names oc i \<Longrightarrow> names oc' i \<Longrightarrow> has_endpoint oc = has_endpoint oc'"
      using no by blast
    then have "i \<in> tracked (snd (fold (probe_cell env) ls (Map.empty, h))) \<longleftrightarrow>
        (\<exists>oc \<in> set ls. names oc i \<and> has_endpoint oc) \<or> i \<in> tracked h \<and> (\<forall>oc \<in> set ls. \<not> names oc i)"
      by (rule probes_at[THEN conjunct1])
    then have "i \<notin> tracked g1" using no gone f by auto
    moreover have "cellStates g1 i = cellStates h i"
      using probes_state[OF no, of env Map.empty h] f by simp
    ultimately show ?thesis by (simp add: r drop_untracked_def restrict_map_def)
  qed
  have 1: "cellStates (runRound env g) i = cellStates g i \<and> i \<notin> tracked (runRound env g)"
  proof (rule keep[OF assms(2)])
    show "\<forall>oc \<in> set listed. \<not> (names oc i \<and> has_endpoint oc)"
      using assms(6,7) unfolding names_def has_endpoint_def by (metis option.inject)
    show "(\<exists>oc \<in> set listed. names oc i) \<or> i \<notin> tracked g" using assms(4,5) by blast
  qed
  have "cellStates g2 i = cellStates g i"
  proof -
    have "\<forall>oc \<in> set later. \<not> names oc i" using assms(8) unfolding names_def by blast
    then show ?thesis
      using keep[of "(runRound env g)\<lparr>reg := c2, clock := t1\<rparr>" later] 1 assms(3) unfolding assms(13) by simp
  qed
  then have "fst (gate_result env smp w g2)"
    using assms(9-13) by (simp add: gate_result_def state_of_def observe_gate_cases)
  then show ?thesis using observe_counted by blast
qed


section \<open>Merge groups\<close>

text \<open>What the policy asks of one child, and of the children together.\<close>

definition calm_sample :: "loadPolicyConfig \<Rightarrow> policySample \<Rightarrow> bool" where
  "calm_sample cfg smp \<longleftrightarrow> ps_reachable smp \<and>
     \<not> exceeds (if mergePlayerHandoff cfg then mergeHandoffMaxPlayers cfg else mergeMaxPlayers cfg) (ps_players smp) \<and>
     \<not> exceeds (mergeMaxEntities cfg) (ps_entities smp) \<and> \<not> exceeds (mergeMaxTickSec cfg) (ps_tickSec smp)"

definition calm_child :: "loadPolicyConfig \<Rightarrow> (string \<rightharpoonup> CellSpec) \<Rightarrow> (string \<rightharpoonup> policySample) \<Rightarrow> int32 \<Rightarrow> CellSpec \<Rightarrow> bool" where
  "calm_child cfg specs samples level ch \<longleftrightarrow> TrimSpace (cs_Id ch) \<noteq> [] \<and>
     (\<exists>spec smp. specs (TrimSpace (cs_Id ch)) = Some spec \<and> cs_Bounds spec \<noteq> None \<and> cs_Level spec = level \<and>
        samples (TrimSpace (cs_Id ch)) = Some smp \<and> calm_sample cfg smp)"

definition child_players :: "(string \<rightharpoonup> policySample) \<Rightarrow> CellSpec \<Rightarrow> f64" where
  "child_players samples ch = ps_players (the (samples (TrimSpace (cs_Id ch))))"

lemma child_reason_calm:
  "(\<exists>smp. child_reason cfg specs samples level i = Inr smp) \<longleftrightarrow>
     (\<exists>spec smp. specs i = Some spec \<and> cs_Bounds spec \<noteq> None \<and> cs_Level spec = level \<and> samples i = Some smp \<and> calm_sample cfg smp)"
  "child_reason cfg specs samples level i = Inr smp \<Longrightarrow> samples i = Some smp"
  by (auto simp: child_reason_def calm_sample_def split: option.splits if_splits)

lemma low_children_calm:
  "(\<exists>r. low_children cfg specs samples level chs ids pt et = Inr r) \<longleftrightarrow> (\<forall>ch \<in> set chs. calm_child cfg specs samples level ch)"
proof (induction chs arbitrary: ids pt et)
  case (Cons ch chs)
  show ?case
    using child_reason_calm(1)[of cfg specs samples level "TrimSpace (cs_Id ch)"] Cons.IH
    by (cases "child_reason cfg specs samples level (TrimSpace (cs_Id ch))") (auto simp: calm_child_def Let_def)
qed simp

lemma low_children_result:
  "low_children cfg specs samples level chs ids pt et = Inr (ids', pt', et') \<Longrightarrow>
     ids' = ids @ map (TrimSpace \<circ> cs_Id) chs \<and> pt' = foldl fadd pt (map (child_players samples) chs)"
proof (induction chs arbitrary: ids pt et)
  case (Cons ch chs)
  let ?i = "TrimSpace (cs_Id ch)"
  obtain smp where smp: "child_reason cfg specs samples level ?i = Inr smp" and
    rest: "low_children cfg specs samples level chs (ids @ [?i]) (fadd pt (ps_players smp)) (fadd et (ps_entities smp)) = Inr (ids', pt', et')"
    using Cons.prems by (auto simp: Let_def split: sum.splits if_splits)
  show ?case
    using Cons.IH[OF rest] child_reason_calm(2)[OF smp] by (simp add: child_players_def)
qed simp

lemma mergeGroupLowLoad_calm:
  "fst (mergeGroupLowLoad cfg listed specs samples parentLevel children) \<longleftrightarrow>
     (\<forall>ch \<in> set children. calm_child cfg specs samples (to_int32 (parentLevel + 1)) ch) \<and>
     \<not> (mergePlayerHandoff cfg \<and> exceeds (mergeHandoffMaxPlayers cfg) (foldl fadd (Fin 0) (map (child_players samples) children))) \<and>
     \<not> has_descendants listed (map (TrimSpace \<circ> cs_Id) children) (to_int32 (parentLevel + 1))"
proof (cases "low_children cfg specs samples (to_int32 (parentLevel + 1)) children [] (Fin 0) (Fin 0)")
  case (Inl e)
  then show ?thesis
    using low_children_calm[of cfg specs samples "to_int32 (parentLevel + 1)" children "[]" "Fin 0" "Fin 0"]
    by (cases e) (auto simp: mergeGroupLowLoad_def)
next
  case (Inr r)
  obtain ids pt et where r: "r = (ids, pt, et)" by (cases r)
  show ?thesis
    using low_children_calm[of cfg specs samples "to_int32 (parentLevel + 1)" children "[]" "Fin 0" "Fin 0"]
      low_children_result[of cfg specs samples "to_int32 (parentLevel + 1)" children "[]" "Fin 0" "Fin 0" ids pt et] Inr r
    by (auto simp: mergeGroupLowLoad_def)
qed

text \<open>
  A group of children counts as idle exactly if every child is named, in the catalog at the level
  below the parent, was reached in this round and is within the limits for a merge, the players
  together do not exceed the limit for moving them, and no deeper cell descends from a child.
\<close>

theorem mergeGroupLowLoad_iff:
  "fst (mergeGroupLowLoad cfg listed specs samples parentLevel children) \<longleftrightarrow>
     list_all (calm_child cfg specs samples (to_int32 (parentLevel + 1))) children \<and>
     \<not> (mergePlayerHandoff cfg \<and> exceeds (mergeHandoffMaxPlayers cfg) (foldl fadd (Fin 0) (map (child_players samples) children))) \<and>
     \<not> has_descendants listed (map (TrimSpace \<circ> cs_Id) children) (to_int32 (parentLevel + 1))"
  by (simp add: mergeGroupLowLoad_calm list_all_iff)

text \<open>When a merge is started.\<close>

definition merge_due :: "('c, 'y) policy_env_scheme \<Rightarrow> mergeWorkflowConfig \<Rightarrow> CellSpec option list \<Rightarrow>
    (string \<rightharpoonup> policySample) \<Rightarrow> int \<Rightarrow> (string \<rightharpoonup> cellPolicyState) \<Rightarrow> string \<Rightarrow> bool" where
  "merge_due env mw listed samples now m p \<longleftrightarrow>
     (\<exists>parent children b. Some parent \<in> set listed \<and> TrimSpace (cs_Id parent) = p \<and>
        CatalogMergeChildren (Some parent) listed = Inr children \<and>
        fst (mergeGroupLowLoad (policy_cfg env) listed (specs_by_id listed) samples (cs_Level parent) children) \<and>
        breachSince (state_of m p) = Some b \<and> mergeLowLoadFor (policy_cfg env) \<le> now - b \<and> p \<notin> mw_blockedParents mw)"

lemma merge_gate_starts:
  "merge_gate cfg now low st = (True, d, w, st') \<Longrightarrow>
     low \<and> (\<exists>b. breachSince st = Some b \<and> mergeLowLoadFor cfg \<le> now - b) \<and> breachSince st' = None"
  by (auto simp: merge_gate_def split: if_splits option.splits)

lemma merge_gate_since:
  "merge_gate cfg now low st = (a, d, w, st') \<Longrightarrow> breachSince st' \<in> {None, breachSince st, Some now}"
  by (auto simp: merge_gate_def split: if_splits option.splits)

lemma trim_idem: "TrimSpace (TrimSpace s) = TrimSpace s"
  by (rule TrimSpace_trimmed) (simp add: trimmed_TrimSpace)

lemma state_of_upd: "state_of (m(i \<mapsto> st)) = (state_of m)(i := st)"
  by (simp add: state_of_def fun_eq_iff)

lemma observe_parent_step:
  assumes "oparent \<in> set listed" "mergeLowLoadFor (policy_cfg env) > 0"
    and "\<And>p. breachSince (state_of (mgStates g) p) \<in> {None, breachSince (state_of m p), Some now}"
    and "g' = observe_parent env mw listed (specs_by_id listed) samples now oparent g"
  shows "breachSince (state_of (mgStates g') p) \<in> {None, breachSince (state_of m p), Some now}"
    and "Merge_run p \<in> set (spawned g') \<Longrightarrow> Merge_run p \<notin> set (spawned g) \<Longrightarrow> merge_due env mw listed samples now m p"
proof -
  consider (same) "mgStates g' = mgStates g" "spawned g' = spawned g"
    | (out) parent where "oparent = Some parent" "spawned g' = spawned g"
        "mgStates g' = (mgStates g)(TrimSpace (cs_Id parent) \<mapsto> (state_of (mgStates g) (TrimSpace (cs_Id parent)))\<lparr>breachSince := None\<rparr>)"
    | (quiet) parent low starts d w st' where "oparent = Some parent" "spawned g' = spawned g"
        "merge_gate (policy_cfg env) now low (state_of (mgStates g) (TrimSpace (cs_Id parent))) = (starts, d, w, st')"
        "mgStates g' = (mgStates g)(TrimSpace (cs_Id parent) \<mapsto> st')"
    | (start) parent children d w st' low where "oparent = Some parent" "CatalogMergeChildren (Some parent) listed = Inr children"
        "low = fst (mergeGroupLowLoad (policy_cfg env) listed (specs_by_id listed) samples (cs_Level parent) children)"
        "merge_gate (policy_cfg env) now low (state_of (mgStates g) (TrimSpace (cs_Id parent))) = (True, d, w, st')"
        "spawned g' = spawned (merge_maybeStart mw (TrimSpace (cs_Id parent)) g)"
        "mgStates g' = (mgStates g)(TrimSpace (cs_Id parent) \<mapsto> st')"
    using assms(4) by (auto simp: observe_parent_def Let_def split: option.splits sum.splits prod.splits if_splits)
  note cs = this
  show "breachSince (state_of (mgStates g') p) \<in> {None, breachSince (state_of m p), Some now}"
    using cs
  proof cases
    case quiet
    then show ?thesis using merge_gate_since[OF quiet(3)] assms(3)[of "TrimSpace (cs_Id parent)"] assms(3)[of p] unfolding quiet(4) state_of_upd
      by (cases "p = TrimSpace (cs_Id parent)") auto
  next
    case start
    then show ?thesis using merge_gate_since[OF start(4)] assms(3)[of "TrimSpace (cs_Id parent)"] assms(3)[of p] unfolding start(6) state_of_upd
      by (cases "p = TrimSpace (cs_Id parent)") auto
  next
    case out
    then show ?thesis using assms(3)[of p] by (simp add: state_of_upd)
  qed (use assms(3) in simp)
  assume new: "Merge_run p \<in> set (spawned g')" "Merge_run p \<notin> set (spawned g)"
  from cs show "merge_due env mw listed samples now m p"
  proof cases
    case start
    have p: "p = TrimSpace (cs_Id parent)" "p \<notin> mw_blockedParents mw"
      using new start(5) by (auto simp: merge_maybeStart_def Let_def trim_idem split: if_splits)
    obtain b where b: "low" "breachSince (state_of (mgStates g) p) = Some b" "mergeLowLoadFor (policy_cfg env) \<le> now - b"
      using merge_gate_starts[OF start(4)] p(1) by auto
    have "breachSince (state_of m p) = Some b" using assms(3)[of p] b(2,3) assms(2) by auto
    then show ?thesis unfolding merge_due_def using start assms(1) p b by blast
  qed (use new in auto)
qed

text \<open>
  A round starts the merge of a parent only if its four children are idle now, have been counted
  as idle since a round that lies the minimum duration back, and the parent is not blocked.
\<close>

theorem observeMergeCandidates_starts:
  assumes "merge_cfg env = Some mw" "mergeLowLoadFor (policy_cfg env) > 0"
    and "Merge_run p \<in> set (spawned (observeMergeCandidates env listed samples g))" "Merge_run p \<notin> set (spawned g)"
  shows "merge_due env mw listed samples (clock g) (mgStates g) p"
proof -
  have "Merge_run p \<in> set (spawned (fold (observe_parent env mw listed (specs_by_id listed) samples (clock g)) cs h)) \<Longrightarrow>
      Merge_run p \<notin> set (spawned h) \<Longrightarrow> set cs \<subseteq> set listed \<Longrightarrow>
      (\<And>p. breachSince (state_of (mgStates h) p) \<in> {None, breachSince (state_of (mgStates g) p), Some (clock g)}) \<Longrightarrow>
      merge_due env mw listed samples (clock g) (mgStates g) p" for cs and h :: "('a, 'c) PolicyGrid_scheme"
  proof (induction cs arbitrary: h)
    case (Cons oc cs)
    let ?h = "observe_parent env mw listed (specs_by_id listed) samples (clock g) oc h"
    note st = observe_parent_step[where m = "mgStates g" and g' = ?h and p = p, OF _ assms(2) Cons.prems(4) HOL.refl]
    note st1 = observe_parent_step(1)[where m = "mgStates g" and g' = ?h, OF _ assms(2) Cons.prems(4) HOL.refl]
    show ?case
    proof (cases "Merge_run p \<in> set (spawned ?h)")
      case True
      then show ?thesis using st(2) Cons.prems(2,3) by simp
    next
      case False
      show ?thesis
        using Cons.prems False st1 by (intro Cons.IH[of ?h]) auto
    qed
  qed simp
  from this[of listed g] show ?thesis
    using assms by (auto simp: observeMergeCandidates_def Let_def split: if_splits)
qed

end
