(* ===== verification/Split_Workflow.thy ===== *)
theory Split_Workflow
  imports Policy_Rounds
begin

text \<open>
  The automatic split of a cell (\<open>src/cmd/grid-manager/split_workflow.go\<close>): planning the children,
  asking the controller to create them, waiting until they answer, handing over players and NPCs, the
  checks after the handoffs, and the retries around all this. The grid is extended by the messages
  published and by what the workflow keeps in Redis.
\<close>

section \<open>The grid of the workflows\<close>

text \<open>\<open>splitcontrol.ChildCellSpec\<close>, and the commands sent to the cell controller.\<close>

record ChildCellSpec =
  cc_ID :: string
  cc_Level :: int32
  cc_XMin :: f64
  cc_XMax :: f64
  cc_ZMin :: f64
  cc_ZMax :: f64

datatype control_command =
    Create_child string string ChildCellSpec
  | Delete_child string string

text \<open>
  \<open>Create_child\<close> carries the parent, the request id and the child, \<open>Delete_child\<close> the cell and the
  reason.
\<close>

record splitWorkflowEvent =
  se_CellID :: string
  se_Stage :: string
  se_Attempt :: int
  se_Message :: event_message
  se_ChildCell :: string
  se_Attrs :: "string \<rightharpoonup> string"
  se_AtUnixMs :: int
  se_Successful :: bool

text \<open>
  The map behind the key \<open>mmo:grid:split:retire_state\<close> of a parent. Its texts for the operator
  (\<open>next_step\<close>, \<open>optional_env\<close>) are left out.
\<close>

datatype json_value = JString string | JNumber int | JBool bool | JStrings "string list"

type_synonym retire_state = "string \<rightharpoonup> json_value"

record mergeWorkflowEvent =
  mw_ParentCellID :: string
  mw_Stage :: string
  mw_Attempt :: int
  mw_Message :: event_message
  mw_Children :: string
  mw_Attrs :: "string \<rightharpoonup> string"
  mw_AtUnixMs :: int
  mw_Successful :: bool

record 'c WorkflowGrid = "'c PolicyGrid" +
  splitEvents :: "splitWorkflowEvent list"
  mergeWfEvents :: "mergeWorkflowEvent list"
  control :: "control_command list"
  splitStore :: "string \<rightharpoonup> splitWorkflowEvent"
  retireStates :: "string \<rightharpoonup> retire_state"

text \<open>
  \<open>wf_catalog\<close> is the catalog of the runtimes; \<open>split_nats\<close>, \<open>merge_nats\<close>, \<open>split_redis\<close>, \<open>merge_redis\<close>
  say which clients are connected; \<open>flush_error\<close> and \<open>redis_error\<close> are the errors the bus and Redis
  answer at a time; \<open>ctx_ends\<close> is the time at which the process is told to stop.
\<close>

record 'c workflow_env = "'c policy_env" +
  wf_catalog :: "'c Catalog"
  split_nats :: bool
  merge_nats :: bool
  split_redis :: bool
  merge_redis :: bool
  flush_error :: "int \<Rightarrow> string option"
  redis_error :: "int \<Rightarrow> string option"
  ctx_ends :: "int option"

section \<open>Operations with wrapped errors\<close>

text \<open>\<open>fmt.Errorf\<close> with \<open>%w\<close>, and an operation whose error is reported before it is returned.\<close>

definition wrapping :: "msg list \<Rightarrow> ('a, 'g) op \<Rightarrow> ('a, 'g) op" where
  "wrapping ms m g = (case m g of (Inl e, g') \<Rightarrow> (Inl (Wrapped ms e), g') | (Inr x, g') \<Rightarrow> (Inr x, g'))"

definition on_error :: "(call_error \<Rightarrow> 'g \<Rightarrow> 'g) \<Rightarrow> ('a, 'g) op \<Rightarrow> ('a, 'g) op" where
  "on_error f m g = (case m g of (Inl e, g') \<Rightarrow> (Inl e, f e g') | (Inr x, g') \<Rightarrow> (Inr x, g'))"

text \<open>
  \<open>grpc.NewClient\<close> to an endpoint and one call. A call of the registry runs its handler, which may
  itself call cells.
\<close>

definition dialled_call :: "('c, 'y) env_scheme \<Rightarrow> string \<Rightarrow> (int \<Rightarrow> Server \<Rightarrow> 'r \<times> Server) \<Rightarrow> ('r, ('c, 'z) Grid_scheme) op" where
  "dialled_call env ep handler g =
     (case dial_error env ep of Some err \<Rightarrow> fail (Failed [Text err]) g | None \<Rightarrow> call ep handler g)"

definition registry_call :: "('c, 'y) env_scheme \<Rightarrow> string \<Rightarrow> ('r, ('c, 'z) Grid_scheme) op \<Rightarrow> ('r, ('c, 'z) Grid_scheme) op" where
  "registry_call env addr m g =
     (case dial_error env addr of
        Some err \<Rightarrow> fail (Failed [Text err]) g
      | None \<Rightarrow>
          (let (ft, g1) = next_turn g
           in case ft of
                Delivered \<Rightarrow> m g1
              | ReplyLost \<Rightarrow> (Inl CallFailed, snd (m g1))
              | Dropped \<Rightarrow> (Inl CallFailed, g1)))"

text \<open>\<open>select\<close> between \<open>ctx.Done()\<close> and \<open>time.After(d)\<close>: whether the wait was completed.\<close>

definition sleep :: "('c, 'y) workflow_env_scheme \<Rightarrow> int \<Rightarrow> ('c, 'z) Grid_scheme \<Rightarrow> bool \<times> ('c, 'z) Grid_scheme" where
  "sleep env d g =
     (let g1 = snd (next_turn g); wake = clock g1 + max d 0
      in case ctx_ends env of
           Some e \<Rightarrow> if e \<le> wake then (False, g1\<lparr>clock := max (clock g1) e\<rparr>) else (True, g1\<lparr>clock := wake\<rparr>)
         | None \<Rightarrow> (True, g1\<lparr>clock := wake\<rparr>))"

section \<open>Publishing\<close>

definition split_publish :: "('c, 'y) workflow_env_scheme \<Rightarrow> splitWorkflowEvent \<Rightarrow>
    ('c, 'z) WorkflowGrid_scheme \<Rightarrow> ('c, 'z) WorkflowGrid_scheme" where
  "split_publish env e g =
     (if \<not> split_nats env then g
      else if bus_error env ''grid.split.workflow'' (clock g) \<noteq> None then g
      else g\<lparr>splitEvents := splitEvents g @ [e]\<rparr>)"

definition split_event :: "('c, 'y) workflow_env_scheme \<Rightarrow> string \<Rightarrow> string \<Rightarrow> int \<Rightarrow> event_message \<Rightarrow> string \<Rightarrow>
    (string \<rightharpoonup> string) \<Rightarrow> bool \<Rightarrow> ('c, 'z) WorkflowGrid_scheme \<Rightarrow> ('c, 'z) WorkflowGrid_scheme" where
  "split_event env parent stage attempt m child attrs successful g =
     split_publish env \<lparr>se_CellID = parent, se_Stage = stage, se_Attempt = attempt, se_Message = m, se_ChildCell = child,
       se_Attrs = attrs, se_AtUnixMs = unix_ms (clock g), se_Successful = successful\<rparr> g"

definition control_publish :: "('c, 'y) workflow_env_scheme \<Rightarrow> string \<Rightarrow> control_command \<Rightarrow> (unit, ('c, 'z) WorkflowGrid_scheme) op" where
  "control_publish env what cmd g =
     (if \<not> split_nats env then fail (Failed [Text (''nats client is required for child '' @ what)]) g
      else (case bus_error env ''cell.control'' (clock g) of
              Some err \<Rightarrow> fail (Failed [Text err]) g
            | None \<Rightarrow>
                (let g' = g\<lparr>control := control g @ [cmd]\<rparr>
                 in case flush_error env (clock g) of
                      Some err \<Rightarrow> fail (Failed [Text err]) g'
                    | None \<Rightarrow> give () g')))"

definition requestChildDelete :: "('c, 'y) workflow_env_scheme \<Rightarrow> string \<Rightarrow> string \<Rightarrow> (unit, ('c, 'z) WorkflowGrid_scheme) op" where
  "requestChildDelete env cellID reason = control_publish env ''delete'' (Delete_child cellID reason)"

definition request_id :: "string \<Rightarrow> int \<Rightarrow> int \<Rightarrow> string" where
  "request_id parent attempt now = parent @ ''-a'' @ Itoa attempt @ ''-'' @ Itoa (unix_ms now)"

definition requestChildCreate :: "('c, 'y) workflow_env_scheme \<Rightarrow> string \<Rightarrow> ChildCellSpec \<Rightarrow> int \<Rightarrow>
    (unit, ('c, 'z) WorkflowGrid_scheme) op" where
  "requestChildCreate env parent ch attempt g =
     control_publish env ''create request'' (Create_child parent (request_id parent attempt (clock g)) ch) g"

section \<open>The catalog, the plan\<close>

definition find_parent :: "('c, 'y) workflow_env_scheme \<Rightarrow> string \<Rightarrow> (CellSpec, ('c, 'z) Grid_scheme) op" where
  "find_parent env i g =
     (case FindCellByID (ListAll (wf_catalog env) (reg g)) i of
        Inl err \<Rightarrow> fail (Failed [Text err]) g
      | Inr (Some p, True) \<Rightarrow> give p g
      | Inr _ \<Rightarrow> fail (Failed [Text (''parent cell not found: '' @ i)]) g)"

definition planned_child :: "PlanSplitResponseChild \<Rightarrow> ChildCellSpec option" where
  "planned_child ch =
     (case ch_Bounds ch of
        None \<Rightarrow> None
      | Some b \<Rightarrow>
          if TrimSpace (ch_Id ch) = [] then None
          else Some \<lparr>cc_ID = TrimSpace (ch_Id ch), cc_Level = ch_Level ch,
                     cc_XMin = XMin b, cc_XMax = XMax b, cc_ZMin = ZMin b, cc_ZMax = ZMax b\<rparr>)"

fun plan_error_of :: "plan_error \<Rightarrow> call_error" where
  "plan_error_of NoBoundsOnServer = Status FailedPrecondition [Text ''no bounds on cell server'']"
| "plan_error_of (InvalidParentId err) = Status FailedPrecondition [WithPartitionError ''invalid parent id: '' err]"

definition planSplit :: "('c, 'y) env_scheme \<Rightarrow> string \<Rightarrow> (ChildCellSpec list, ('c, 'z) Grid_scheme) op" where
  "planSplit env endpoint =
     andThen (dialled_call env endpoint (\<lambda>now s. (PlanSplit s, s))) (\<lambda>resp.
       case resp of
         Inl err \<Rightarrow> fail (plan_error_of err)
       | Inr children \<Rightarrow> give (List.map_filter planned_child children))"

definition planSplitChildren :: "('c, 'y) workflow_env_scheme \<Rightarrow> string \<Rightarrow> (ChildCellSpec list, ('c, 'z) Grid_scheme) op" where
  "planSplitChildren env parent =
     andThen (find_parent env parent) (\<lambda>p.
     andThen (planSplit env (cs_GrpcEndpoint p)) (\<lambda>children.
       if children = [] then fail (Failed [Text (''PlanSplit returned no children for '' @ parent)])
       else give children))"

section \<open>Waiting for the children\<close>

definition isCellReachable :: "('c, 'y) env_scheme \<Rightarrow> string \<Rightarrow> ('c, 'z) Grid_scheme \<Rightarrow> bool \<times> ('c, 'z) Grid_scheme" where
  "isCellReachable env endpoint g =
     (case dialled_call env endpoint (\<lambda>now s. (Ping (unix_ms now) s, s)) g of
        (Inl _, g') \<Rightarrow> (False, g') | (Inr _, g') \<Rightarrow> (True, g'))"

text \<open>One look at the catalog: the wanted cells that answer, in the order of the listing.\<close>

fun ready_children :: "('c, 'y) env_scheme \<Rightarrow> string set \<Rightarrow> CellSpec option list \<Rightarrow> ('c, 'z) Grid_scheme \<Rightarrow>
    string list \<times> ('c, 'z) Grid_scheme" where
  "ready_children env want [] g = ([], g)"
| "ready_children env want (None # cs) g = ready_children env want cs g"
| "ready_children env want (Some c # cs) g =
     (if cs_Id c \<notin> want \<or> TrimSpace (cs_GrpcEndpoint c) = [] then ready_children env want cs g
      else (let (ok, g1) = isCellReachable env (TrimSpace (cs_GrpcEndpoint c)) g;
                (ready, g2) = ready_children env want cs g1
            in (if ok then cs_Id c # ready else ready, g2)))"

text \<open>What a call does to the schedule and the clock.\<close>

lemma next_turn_shrinks:
  "length (turns (snd (next_turn g))) \<le> length (turns g)"
  "turns g \<noteq> [] \<Longrightarrow> length (turns (snd (next_turn g))) < length (turns g)"
  "turns g = [] \<Longrightarrow> snd (next_turn g) = g"
  by (auto simp: next_turn_def Let_def split: list.split prod.split)

lemma dialled_call_shrinks:
  "length (turns (snd (dialled_call env ep h g))) \<le> length (turns g)"
  "turns g = [] \<Longrightarrow> turns (snd (dialled_call env ep h g)) = [] \<and> clock (snd (dialled_call env ep h g)) = clock g"
  using next_turn_shrinks[of g]
  by (auto simp: dialled_call_def call_def fail_def Let_def split: option.split prod.split fate.split)

lemma isCellReachable_snd:
  "snd (isCellReachable env ep g) = snd (dialled_call env ep (\<lambda>now s. (Ping (unix_ms now) s, s)) g)"
  by (auto simp: isCellReachable_def split: prod.split sum.split)

lemma ready_children_shrinks:
  "length (turns (snd (ready_children env want cs g))) \<le> length (turns g) \<and>
   (turns g = [] \<longrightarrow> turns (snd (ready_children env want cs g)) = [] \<and> clock (snd (ready_children env want cs g)) = clock g)"
proof (induction env want cs g rule: ready_children.induct)
  case (3 env want c cs g)
  let ?ep = "TrimSpace (cs_GrpcEndpoint c)"
  show ?case
  proof (cases "cs_Id c \<notin> want \<or> ?ep = []")
    case True
    then show ?thesis using 3(1) by auto
  next
    case False
    obtain ok g1 where p: "isCellReachable env ?ep g = (ok, g1)" by (cases "isCellReachable env ?ep g")
    have "length (turns g1) \<le> length (turns g)" "turns g = [] \<Longrightarrow> turns g1 = [] \<and> clock g1 = clock g"
      using dialled_call_shrinks[where env = env and ep = ?ep and g = g and h = "\<lambda>now s. (Ping (unix_ms now) s, s)"]
        isCellReachable_snd[of env ?ep g] p by auto
    then show ?thesis
      using False p 3(2)[OF False p[symmetric]] by (auto split: prod.splits)
  qed
qed auto

text \<open>
  Every round either uses up a part of the schedule or, when it is exhausted, moves the clock on by
  two seconds towards the deadline.
\<close>

lemma sleep_progress:
  assumes "sleep env (2 * second) g1 = (True, g2)"
  shows "length (turns g2) \<le> length (turns g1)" "turns g1 \<noteq> [] \<Longrightarrow> length (turns g2) < length (turns g1)"
    "turns g1 = [] \<Longrightarrow> clock g2 = clock g1 + 2 * second"
  using assms next_turn_shrinks[of g1] by (auto simp: sleep_def Let_def split: option.splits if_splits)

function wait_loop :: "('c, 'y) workflow_env_scheme \<Rightarrow> string set \<Rightarrow> nat \<Rightarrow> int \<Rightarrow> (string list, ('c, 'z) Grid_scheme) op" where
  "wait_loop env want n deadline g =
     (case ListAll (wf_catalog env) (reg g) of
        Inl err \<Rightarrow> fail (Failed [Text err]) g
      | Inr listed \<Rightarrow>
          (case ready_children env want listed g of (ready, g1) \<Rightarrow>
             if length ready = n then give ready g1
             else if clock g1 > deadline
             then fail (Failed [Text (''children not ready in time: have='' @ Itoa (int (length ready)) @ '' want='' @ Itoa (int n))]) g1
             else (case sleep env (2 * second) g1 of
                     (False, g2) \<Rightarrow> fail (Failed [Text ''context canceled'']) g2
                   | (True, g2) \<Rightarrow> wait_loop env want n deadline g2)))"
  by pat_completeness auto

termination
proof (relation "measures [\<lambda>(env, want, n, deadline, g). length (turns g), \<lambda>(env, want, n, deadline, g). nat (deadline + 1 - clock g)]", goal_cases)
  case (2 env want n deadline g listed ready g1 waited g2)
  then have r: "ready_children env want listed g = (ready, g1)" and s: "sleep env (2 * second) g1 = (True, g2)"
    and d: "clock g1 \<le> deadline" by auto
  have "length (turns g1) \<le> length (turns g)" "turns g = [] \<Longrightarrow> turns g1 = [] \<and> clock g1 = clock g"
    using ready_children_shrinks[of env want listed g] r by auto
  then show ?case using sleep_progress[OF s] d by (cases "turns g1 = []"; cases "turns g = []") auto
qed simp

declare wait_loop.simps [simp del]

definition waitChildrenReady :: "('c, 'y) workflow_env_scheme \<Rightarrow> splitWorkflowConfig \<Rightarrow> ChildCellSpec list \<Rightarrow>
    (string list, ('c, 'z) Grid_scheme) op" where
  "waitChildrenReady env cfg children g =
     wait_loop env (set (map cc_ID children)) (length children) (clock g + sw_waitChildren cfg) g"


section \<open>Moving the players\<close>

definition runMigrationDryRun :: "('c, 'y) workflow_env_scheme \<Rightarrow> splitWorkflowConfig \<Rightarrow> string \<Rightarrow> (unit, ('c, 'z) Grid_scheme) op" where
  "runMigrationDryRun env cfg parent =
     andThen (registry_call env (sw_registryAddr cfg)
       (ForwardCellUpdate env (Some (parent, Some (Some (ExportNpcPersist (Some ''grid-auto-split-dry-run'')))))))
       (\<lambda>_. give ())"

definition is_candidate :: "MigrationCandidate \<Rightarrow> bool" where
  "is_candidate c \<longleftrightarrow> mc_IsPlayer c \<and> mc_Position c \<noteq> None \<and> TrimSpace (mc_PlayerId c) \<noteq> []"

definition listPlayerCandidates :: "('c, 'y) workflow_env_scheme \<Rightarrow> string \<Rightarrow> (MigrationCandidate list, ('c, 'z) Grid_scheme) op" where
  "listPlayerCandidates env parent =
     andThen (find_parent env parent) (\<lambda>p.
     andThen (dialled_call env (cs_GrpcEndpoint p)
       (\<lambda>now s. (ListMigrationCandidates (visit_live env s) (visit_names env s) s, s))) (\<lambda>resp.
       give (filter is_candidate resp)))"

definition pingCellStats :: "('c, 'y) env_scheme \<Rightarrow> string \<Rightarrow> (int \<times> int, ('c, 'z) Grid_scheme) op" where
  "pingCellStats env endpoint =
     andThen (dialled_call env endpoint (\<lambda>now s. (Ping (unix_ms now) s, s))) (\<lambda>resp.
       give (ping_PlayerCount resp, ping_EntityCount resp))"

definition pingParentStats :: "('c, 'y) workflow_env_scheme \<Rightarrow> string \<Rightarrow> (int \<times> int, ('c, 'z) Grid_scheme) op" where
  "pingParentStats env parent =
     andThen (find_parent env parent) (\<lambda>p.
       if TrimSpace (cs_GrpcEndpoint p) = []
       then fail (Failed [Text (''parent cell has empty grpc endpoint: '' @ parent)])
       else pingCellStats env (TrimSpace (cs_GrpcEndpoint p)))"

definition uniquePlayerCandidatesCount :: "MigrationCandidate list \<Rightarrow> int" where
  "uniquePlayerCandidatesCount cands = int (card (set (map (TrimSpace \<circ> mc_PlayerId) cands) - {[]}))"

definition validateParentPlayerHandoffReadiness :: "int \<Rightarrow> int \<Rightarrow> call_error option" where
  "validateParentPlayerHandoffReadiness np cands =
     (if np \<le> 0 then None
      else if cands \<le> 0
      then Some (Failed [Text (''parent has active players='' @ Itoa np @ '' but no player migration candidates'')])
      else if cands < np
      then Some (Failed [Text (''parent has active players='' @ Itoa np @ '' but only '' @ Itoa cands @ '' player migration candidates'')])
      else None)"

text \<open>The coordinates in the message of the first error are left out.\<close>

definition resolveTargetChildForPlayer :: "('c, 'y) workflow_env_scheme \<Rightarrow> f64 \<Rightarrow> f64 \<Rightarrow> string set \<Rightarrow>
    (string, ('c, 'z) Grid_scheme) op" where
  "resolveTargetChildForPlayer env x z ready g =
     (case Resolve (wf_catalog env) x z (reg g) of
        Inl err \<Rightarrow> fail (Failed [Text err]) g
      | Inr (Some cell, True) \<Rightarrow>
          if TrimSpace (cs_Id cell) \<notin> ready
          then fail (Failed [Text (''resolved cell '' @ TrimSpace (cs_Id cell) @ '' is not one of ready split children'')]) g
          else give (TrimSpace (cs_Id cell)) g
      | Inr _ \<Rightarrow> fail (Failed [Text ''no resolved cell'']) g)"

definition forwardHandoff :: "('c, 'y) workflow_env_scheme \<Rightarrow> splitWorkflowConfig \<Rightarrow> string \<Rightarrow> string \<Rightarrow> string \<Rightarrow>
    (unit, ('c, 'z) Grid_scheme) op" where
  "forwardHandoff env cfg parent child reason =
     andThen (registry_call env (sw_registryAddr cfg)
       (ForwardNpcHandoff env (Some \<lparr>nh_ParentCellId = parent, nh_ChildCellId = child, nh_Reason = reason\<rparr>)))
       (\<lambda>_. give ())"

definition split_player_request :: "string \<Rightarrow> string \<Rightarrow> string \<Rightarrow> string \<Rightarrow> int \<Rightarrow> PlayerHandoffRequest" where
  "split_player_request parent child playerID reason now =
     \<lparr>ph_ParentCellId = parent, ph_ChildCellId = child, ph_PlayerId = playerID,
      ph_HandoffToken = parent @ '':'' @ playerID @ '':'' @ Itoa now, ph_Reason = reason\<rparr>"

definition forwardPlayerHandoff :: "('c, 'y) workflow_env_scheme \<Rightarrow> splitWorkflowConfig \<Rightarrow> string \<Rightarrow> string \<Rightarrow> string \<Rightarrow> string \<Rightarrow>
    (unit, ('c, 'z) Grid_scheme) op" where
  "forwardPlayerHandoff env cfg parent child playerID reason g =
     andThen (registry_call env (sw_registryAddr cfg)
       (ForwardPlayerHandoff env (Some (split_player_request parent child playerID reason (clock g)))))
       (\<lambda>_. give ()) g"

definition setSplitDrain :: "('c, 'y) env_scheme \<Rightarrow> string \<Rightarrow> string \<Rightarrow> bool \<Rightarrow> (unit, ('c, 'z) Grid_scheme) op" where
  "setSplitDrain env addr cellID enabled =
     andThen (registry_call env addr (ForwardCellUpdate env (Some (cellID, Some (Some (SetSplitDrain (Some enabled)))))))
       (\<lambda>_. give ())"

text \<open>One candidate: found a child for, announced, and handed over.\<close>

definition hand_over :: "('c, 'y) workflow_env_scheme \<Rightarrow> splitWorkflowConfig \<Rightarrow> string \<Rightarrow> int \<Rightarrow> string set \<Rightarrow>
    MigrationCandidate \<Rightarrow> (unit, ('c, 'z) WorkflowGrid_scheme) op" where
  "hand_over env cfg parent attempt ready cand =
     (let playerID = TrimSpace (mc_PlayerId cand)
      in case mc_Position cand of
           None \<Rightarrow> give ()
         | Some pos \<Rightarrow>
             if playerID = [] then give ()
             else andThen (wrapping [Text (''resolve target child for player '' @ playerID)]
                 (resolveTargetChildForPlayer env (vx pos) (vz pos) ready)) (\<lambda>target.
               doing (split_event env parent ''player_handoff_running'' attempt (Said [Text ''forward player handoff'']) target
                   [''player_id'' \<mapsto> playerID] False)
                 (wrapping [Text (''player handoff failed for player '' @ playerID @ '' -> child '' @ target)]
                   (on_error (\<lambda>e. split_event env parent ''player_handoff_failed'' attempt (ErrorText e) target
                       [''player_id'' \<mapsto> playerID] False)
                     (forwardPlayerHandoff env cfg parent target playerID
                       (''auto-split-player-attempt-'' @ Itoa attempt))))))"

fun hand_over_all :: "('c, 'y) workflow_env_scheme \<Rightarrow> splitWorkflowConfig \<Rightarrow> string \<Rightarrow> int \<Rightarrow> string set \<Rightarrow>
    MigrationCandidate list \<Rightarrow> (unit, ('c, 'z) WorkflowGrid_scheme) op" where
  "hand_over_all env cfg parent attempt ready [] = give ()"
| "hand_over_all env cfg parent attempt ready (c # cs) =
     andThen (hand_over env cfg parent attempt ready c) (\<lambda>_. hand_over_all env cfg parent attempt ready cs)"

section \<open>Moving the NPCs\<close>

fun npc_handoffs :: "('c, 'y) workflow_env_scheme \<Rightarrow> splitWorkflowConfig \<Rightarrow> string \<Rightarrow> int \<Rightarrow> string list \<Rightarrow>
    (unit, ('c, 'z) WorkflowGrid_scheme) op" where
  "npc_handoffs env cfg parent attempt [] = give ()"
| "npc_handoffs env cfg parent attempt (child # rest) =
     doing (split_event env parent ''handoff_running'' attempt (Said [Text ''forward npc handoff'']) child Map.empty False)
       (andThen (wrapping [Text (''handoff failed for child '' @ child)]
          (on_error (\<lambda>e. split_event env parent ''handoff_failed'' attempt (ErrorText e) child Map.empty False)
             (forwardHandoff env cfg parent child (''auto-split-attempt-'' @ Itoa attempt))))
          (\<lambda>_. npc_handoffs env cfg parent attempt rest))"

section \<open>The store\<close>

text \<open>\<open>save\<close> and \<open>setRetireStateMap\<close> write with a lifetime of a week, which is not modelled.\<close>

definition store_save :: "('c, 'y) workflow_env_scheme \<Rightarrow> string \<Rightarrow> splitWorkflowEvent \<Rightarrow> (unit, ('c, 'z) WorkflowGrid_scheme) op" where
  "store_save env cellID e g =
     (if \<not> split_redis env then give () g
      else (case redis_error env (clock g) of
              Some err \<Rightarrow> fail (Failed [Text err]) g
            | None \<Rightarrow> give () (g\<lparr>splitStore := (splitStore g)(''mmo:grid:split:'' @ cellID \<mapsto> e)\<rparr>)))"

definition retireStateRedisKey :: "string \<Rightarrow> string" where
  "retireStateRedisKey parent = ''mmo:grid:split:retire_state:'' @ TrimSpace parent"

definition getRetireStateMap :: "('c, 'y) workflow_env_scheme \<Rightarrow> string \<Rightarrow> (retire_state option, ('c, 'z) WorkflowGrid_scheme) op" where
  "getRetireStateMap env parent g =
     (if \<not> split_redis env then give None g
      else (case redis_error env (clock g) of
              Some err \<Rightarrow> fail (Failed [Text err]) g
            | None \<Rightarrow> give (retireStates g (retireStateRedisKey parent)) g))"

definition setRetireStateMap :: "('c, 'y) workflow_env_scheme \<Rightarrow> string \<Rightarrow> retire_state \<Rightarrow> (unit, ('c, 'z) WorkflowGrid_scheme) op" where
  "setRetireStateMap env parent m g =
     (if \<not> split_redis env then give () g
      else (case redis_error env (clock g) of
              Some err \<Rightarrow> fail (Failed [Text err]) g
            | None \<Rightarrow> give () (g\<lparr>retireStates := (retireStates g)(retireStateRedisKey parent \<mapsto> m)\<rparr>)))"

definition saveRetireReady :: "('c, 'y) workflow_env_scheme \<Rightarrow> string \<Rightarrow> string list \<Rightarrow> (unit, ('c, 'z) WorkflowGrid_scheme) op" where
  "saveRetireReady env parent children g =
     (if \<not> split_redis env then give () g
      else setRetireStateMap env parent
        [''phase'' \<mapsto> JString ''retire_ready'', ''parent_cell_id'' \<mapsto> JString parent,
         ''handoff_children'' \<mapsto> JStrings children, ''at_unix_ms'' \<mapsto> JNumber (unix_ms (clock g)),
         ''next_action'' \<mapsto> JString ''operator_final_retire''] g)"

section \<open>The checks after the handoffs\<close>

definition pointInForeignDeeperCell :: "f64 \<Rightarrow> f64 \<Rightarrow> string \<Rightarrow> int32 \<Rightarrow> CellSpec option list \<Rightarrow> bool" where
  "pointInForeignDeeperCell cx cz selfID selfLevel listed \<longleftrightarrow>
     list_ex (\<lambda>oc. case oc of None \<Rightarrow> False | Some c \<Rightarrow>
       cs_Bounds c \<noteq> None \<and> cs_Id c \<noteq> selfID \<and> cs_Level c > selfLevel \<and>
       \<not> IsDescendantPath selfID (cs_Id c) \<and> Contains (cs_Bounds c) cx cz) listed"

definition probe_fractions :: "f64 list" where
  "probe_fractions = [rnd64 (12/100), rnd64 (28/100), rnd64 (44/100), rnd64 (58/100), rnd64 (72/100), rnd64 (88/100)]"

definition probe_points :: "ChildCellSpec \<Rightarrow> (f64 \<times> f64) list" where
  "probe_points sp =
     (let xw = fsub (cc_XMax sp) (cc_XMin sp); zw = fsub (cc_ZMax sp) (cc_ZMin sp)
      in List.product (map (\<lambda>fx. fadd (cc_XMin sp) (fmul xw fx)) probe_fractions)
                      (map (\<lambda>fz. fadd (cc_ZMin sp) (fmul zw fz)) probe_fractions))"

definition spec_bounds :: "ChildCellSpec \<Rightarrow> Bounds" where
  "spec_bounds sp = \<lparr>XMin = cc_XMin sp, XMax = cc_XMax sp, ZMin = cc_ZMin sp, ZMax = cc_ZMax sp\<rparr>"

definition pickResolveProbe :: "ChildCellSpec \<Rightarrow> CellSpec option list \<Rightarrow> (f64 \<times> f64) option" where
  "pickResolveProbe sp listed =
     (let i = TrimSpace (cc_ID sp)
      in if fle (fsub (cc_XMax sp) (cc_XMin sp)) (Fin 0) \<or> fle (fsub (cc_ZMax sp) (cc_ZMin sp)) (Fin 0) \<or> i = [] then None
         else List.find (\<lambda>(cx, cz). Contains (Some (spec_bounds sp)) cx cz \<and>
           \<not> pointInForeignDeeperCell cx cz i (cc_Level sp) listed) (probe_points sp))"

text \<open>The reason a child gives, if any.\<close>

definition resolve_reason :: "('c, 'y) workflow_env_scheme \<Rightarrow> 'c \<Rightarrow> CellSpec option list \<Rightarrow> ChildCellSpec \<Rightarrow> string option" where
  "resolve_reason env c listed sp =
     (let i = TrimSpace (cc_ID sp)
      in if i = [] then None
         else (case pickResolveProbe sp listed of
                 None \<Rightarrow> Some (''resolve_'' @ i @ '':no_probe_point'')
               | Some (cx, cz) \<Rightarrow>
                   (case Resolve (wf_catalog env) cx cz c of
                      Inl err \<Rightarrow> Some (''resolve_'' @ i @ '':'' @ err)
                    | Inr (Some got, True) \<Rightarrow>
                        if cs_Id got = i then None
                        else (let (gotLevel, gok) = CellPathLevel (cs_Id got)
                              in if gok \<and> gotLevel > cc_Level sp \<and> IsDescendantPath i (cs_Id got) then None
                                 else Some (''resolve_'' @ i @ '':want_got_'' @ cs_Id got))
                    | Inr _ \<Rightarrow> Some (''resolve_'' @ i @ '':no_match''))))"

definition resolveChildProbeReasons :: "('c, 'y) workflow_env_scheme \<Rightarrow> ChildCellSpec list \<Rightarrow> CellSpec option list \<Rightarrow>
    'c \<Rightarrow> string list" where
  "resolveChildProbeReasons env specs listed c = List.map_filter (resolve_reason env c listed) specs"

fun dedupe :: "string list \<Rightarrow> string set \<Rightarrow> string list" where
  "dedupe [] seen = []"
| "dedupe (s # ss) seen =
     (let t = TrimSpace s in if t = [] \<or> t \<in> seen then dedupe ss seen else t # dedupe ss (insert t seen))"

definition dedupeReasons :: "string list \<Rightarrow> string list" where
  "dedupeReasons ss = dedupe ss {}"

text \<open>Whether a cell of the catalog has an endpoint and answers.\<close>

definition answers :: "('c, 'y) env_scheme \<Rightarrow> CellSpec \<Rightarrow> ('c, 'z) Grid_scheme \<Rightarrow> bool \<times> ('c, 'z) Grid_scheme" where
  "answers env spec g =
     (if TrimSpace (cs_GrpcEndpoint spec) = [] then (False, g) else isCellReachable env (TrimSpace (cs_GrpcEndpoint spec)) g)"

fun child_reasons :: "('c, 'y) workflow_env_scheme \<Rightarrow> string list \<Rightarrow> ('c, 'z) Grid_scheme \<Rightarrow> string list \<times> ('c, 'z) Grid_scheme" where
  "child_reasons env [] g = ([], g)"
| "child_reasons env (i # ids) g =
     (let (r, g1) = (case FindCellByID (ListAll (wf_catalog env) (reg g)) i of
                       Inl err \<Rightarrow> ([''child_'' @ i @ ''_catalog:'' @ err], g)
                     | Inr (Some cs, True) \<Rightarrow>
                         (case answers env cs g of (ok, g') \<Rightarrow> (if ok then [] else [''child_'' @ i @ ''_unreachable''], g'))
                     | Inr _ \<Rightarrow> ([''child_'' @ i @ ''_missing_in_catalog''], g));
          (rs, g2) = child_reasons env ids g1
      in (r @ rs, g2))"

definition postRetirePreflightReasons :: "('c, 'y) workflow_env_scheme \<Rightarrow> string \<Rightarrow> string list \<Rightarrow> ChildCellSpec list \<Rightarrow>
    ('c, 'z) Grid_scheme \<Rightarrow> string list \<times> ('c, 'z) Grid_scheme" where
  "postRetirePreflightReasons env parent childIDs specs g =
     (if childIDs = [] then ([''no_handoff_children''], g)
      else (case FindCellByID (ListAll (wf_catalog env) (reg g)) parent of
              Inl err \<Rightarrow> ([''catalog_parent:'' @ err], g)
            | Inr found \<Rightarrow>
                (let (r0, g1) = (case found of
                       (Some p, True) \<Rightarrow> (case answers env p g of (ok, g') \<Rightarrow> (if ok then [] else [''parent_unreachable''], g'))
                     | _ \<Rightarrow> ([''parent_missing_in_catalog''], g));
                     (r1, g2) = child_reasons env childIDs g1
                 in case ListAll (wf_catalog env) (reg g2) of
                      Inl err \<Rightarrow> (dedupeReasons (r0 @ r1 @ [''catalog_list:'' @ err]), g2)
                    | Inr listed \<Rightarrow>
                        (dedupeReasons (r0 @ r1 @ resolveChildProbeReasons env specs listed (reg g2)), g2))))"


section \<open>After the handoffs\<close>

definition runPostHandoffOrchestration :: "('c, 'y) workflow_env_scheme \<Rightarrow> string \<Rightarrow> int \<Rightarrow> string list \<Rightarrow>
    ChildCellSpec list \<Rightarrow> (unit, ('c, 'z) WorkflowGrid_scheme) op" where
  "runPostHandoffOrchestration env parent attempt ready specs =
     (if \<not> postHandoffOrchestrationEnabled (getenv env) \<or> \<not> split_redis env then give ()
      else andThen (wrapping [Text ''post-handoff: read retire state''] (getRetireStateMap env parent)) (\<lambda>st.
        if (case st of None \<Rightarrow> False | Some m \<Rightarrow> m ''phase'' = Some (JString ''automation_complete''))
        then doing (split_event env parent ''automation_complete'' attempt
               (Said [Text ''idempotent skip: retire_state already automation_complete'']) [] Map.empty True) (give ())
        else (\<lambda>g.
          (let (blocked, g1) = postRetirePreflightReasons env parent ready specs g;
               m0 = (case st of None \<Rightarrow> Map.empty | Some m \<Rightarrow> m);
               opID = request_id parent attempt (clock g1)
           in if blocked \<noteq> []
              then andThen (wrapping [Text ''post-handoff: save preflight_blocked''] (setRetireStateMap env parent
                     (m0(''phase'' \<mapsto> JString ''preflight_blocked'', ''preflight_blocked_reasons'' \<mapsto> JStrings blocked,
                         ''preflight_at_unix_ms'' \<mapsto> JNumber (unix_ms (clock g1))))))
                   (\<lambda>_. doing (split_event env parent ''post_handoff_preflight_failed'' attempt
                      (Said [Text (''preflight blocked: '' @ Join blocked ''; '')]) []
                      [''blocked_count'' \<mapsto> Itoa (int (length blocked))] False) (give ())) g1
              else andThen (wrapping [Text ''post-handoff: save automation_complete''] (setRetireStateMap env parent
                     (m0(''phase'' \<mapsto> JString ''automation_complete'', ''parent_cell_id'' \<mapsto> JString parent,
                         ''handoff_children'' \<mapsto> JStrings ready, ''operation_id'' \<mapsto> JString opID,
                         ''preflight_ok'' \<mapsto> JBool True,
                         ''preflight_gates'' \<mapsto> JStrings [''parent_catalog_ping'', ''children_catalog_ping'', ''resolve_child_centers''],
                         ''next_action'' \<mapsto> JString ''operator_final_retire'',
                         ''at_unix_ms_automation_complete'' \<mapsto> JNumber (unix_ms (clock g1))))))
                   (\<lambda>_. doing (split_event env parent ''automation_complete'' attempt
                      (Said [Text (''post_handoff preflight ok; automation_complete; next: operator_final_retire ('' @ [CHR 0xC2, CHR 0xA7] @ ''5)'')]) []
                      [''operation_id'' \<mapsto> opID, ''handoff_children'' \<mapsto> Join ready '',''] True)
                     (\<lambda>g2. ignoring (store_save env parent
                         \<lparr>se_CellID = parent, se_Stage = ''automation_complete'', se_Attempt = attempt,
                          se_Message = Said [Text ''automation_complete''], se_ChildCell = [],
                          se_Attrs = [''operation_id'' \<mapsto> opID], se_AtUnixMs = unix_ms (clock g2), se_Successful = True\<rparr>)
                       (give ()) g2)) g1))))"

section \<open>One attempt\<close>

fun create_children :: "('c, 'y) workflow_env_scheme \<Rightarrow> string \<Rightarrow> int \<Rightarrow> ChildCellSpec list \<Rightarrow>
    (unit, ('c, 'z) WorkflowGrid_scheme) op" where
  "create_children env parent attempt [] = give ()"
| "create_children env parent attempt (ch # chs) =
     andThen (requestChildCreate env parent ch attempt) (\<lambda>_. create_children env parent attempt chs)"

text \<open>Up to the drain of the parent: the children as planned, and the ready ones as listed.\<close>

definition split_prepare :: "('c, 'y) workflow_env_scheme \<Rightarrow> splitWorkflowConfig \<Rightarrow> string \<Rightarrow> int \<Rightarrow>
    (ChildCellSpec list \<times> string list, ('c, 'z) WorkflowGrid_scheme) op" where
  "split_prepare env cfg parent attempt =
     andThen (planSplitChildren env parent) (\<lambda>children.
       if children = [] then fail (Failed [Text (''no child cells found for parent '' @ parent)])
       else doing (split_event env parent ''children_creating'' attempt
              (Said [Text (''request create children='' @ Itoa (int (length children)))]) [] Map.empty False)
         (andThen (create_children env parent attempt children) (\<lambda>_.
          andThen (waitChildrenReady env cfg children) (\<lambda>ready.
          doing (split_event env parent ''children_wait_ready'' attempt
              (Said [Text (''children ready='' @ Itoa (int (length ready)))]) [] [''children'' \<mapsto> Join ready '',''] False)
         (doing (split_event env parent ''draining'' attempt
              (Said [Text ''ensure split_drain=true after children_wait_ready'']) [] Map.empty False)
         (andThen (wrapping [Text ''set split_drain true after children ready''] (setSplitDrain env (sw_registryAddr cfg) parent True))
            (\<lambda>_. give (children, ready))))))))"

text \<open>The players, then the NPCs.\<close>

definition split_players :: "('c, 'y) workflow_env_scheme \<Rightarrow> splitWorkflowConfig \<Rightarrow> string \<Rightarrow> int \<Rightarrow> string list \<Rightarrow>
    (unit, ('c, 'z) WorkflowGrid_scheme) op" where
  "split_players env cfg parent attempt ready =
     andThen (runMigrationDryRun env cfg parent) (\<lambda>_.
     andThen (wrapping [Text ''list player migration candidates''] (listPlayerCandidates env parent)) (\<lambda>cands.
     andThen (wrapping [Text ''ping parent before player handoff''] (pingParentStats env parent)) (\<lambda>before.
       case validateParentPlayerHandoffReadiness (fst before) (uniquePlayerCandidatesCount cands) of
         Some e \<Rightarrow> doing (split_event env parent ''player_handoff_preflight_failed'' attempt (ErrorText e) []
             [''parent_player_count'' \<mapsto> Itoa (fst before),
              ''player_candidate_count'' \<mapsto> Itoa (uniquePlayerCandidatesCount cands)] False) (fail e)
       | None \<Rightarrow>
           if cands = [] then give ()
           else doing (split_event env parent ''player_handoffs_running'' attempt
               (Said [Text (''player candidates='' @ Itoa (int (length cands)))]) [] Map.empty False)
             (hand_over_all env cfg parent attempt (set ready) cands))))"

definition split_move :: "('c, 'y) workflow_env_scheme \<Rightarrow> splitWorkflowConfig \<Rightarrow> string \<Rightarrow> int \<Rightarrow> string list \<Rightarrow>
    (unit, ('c, 'z) WorkflowGrid_scheme) op" where
  "split_move env cfg parent attempt ready =
     andThen (split_players env cfg parent attempt ready) (\<lambda>_.
     andThen (wrapping [Text ''ping parent after player handoff''] (pingParentStats env parent)) (\<lambda>stats.
       if fst stats > 0
       then (let e = Failed [Text (''parent still has active players after player handoff: '' @ Itoa (fst stats))]
             in doing (split_event env parent ''player_handoff_verify_failed'' attempt (ErrorText e) []
                  [''parent_player_count'' \<mapsto> Itoa (fst stats)] False) (fail e))
       else npc_handoffs env cfg parent attempt ready))"

definition ordered_specs :: "ChildCellSpec list \<Rightarrow> string list \<Rightarrow> ChildCellSpec list" where
  "ordered_specs children ready = List.map_filter (map_of (rev (map (\<lambda>ch. (cc_ID ch, ch)) children))) ready"

fun teardown_children :: "('c, 'y) workflow_env_scheme \<Rightarrow> string \<Rightarrow> string list \<Rightarrow> (unit, ('c, 'z) WorkflowGrid_scheme) op" where
  "teardown_children env reason [] = give ()"
| "teardown_children env reason (i # ids) = ignoring (requestChildDelete env i reason) (teardown_children env reason ids)"

definition split_finish :: "('c, 'y) workflow_env_scheme \<Rightarrow> splitWorkflowConfig \<Rightarrow> string \<Rightarrow> int \<Rightarrow> ChildCellSpec list \<Rightarrow> string list \<Rightarrow>
    (unit, ('c, 'z) WorkflowGrid_scheme) op" where
  "split_finish env cfg parent attempt children ready =
     andThen (wrapping [Text ''clear split_drain after handoffs''] (setSplitDrain env (sw_registryAddr cfg) parent False)) (\<lambda>_.
       doing (split_event env parent ''retire_ready'' attempt (Said [Text (''all handoffs ok; split_drain cleared; retire_ready; running post_handoff orchestration '' @
            ''(preflight + automation_complete) unless MMO_GRID_AUTO_POST_HANDOFF_ORCHESTRATION=false'')])
           [] [''handoff_children'' \<mapsto> Join ready '',''] True)
       (ignoring (saveRetireReady env parent ready)
       (andThen (runPostHandoffOrchestration env parent attempt ready (ordered_specs children ready)) (\<lambda>_.
          if envBool (getenv env) ''MMO_GRID_SPLIT_TEARDOWN_RUNTIME_CHILDREN''
          then teardown_children env (''grid-auto-split-teardown parent='' @ parent) ready
          else give ()))))"

definition split_runOnce :: "('c, 'y) workflow_env_scheme \<Rightarrow> splitWorkflowConfig \<Rightarrow> string \<Rightarrow> int \<Rightarrow>
    (unit, ('c, 'z) WorkflowGrid_scheme) op" where
  "split_runOnce env cfg parent attempt =
     andThen (split_prepare env cfg parent attempt) (\<lambda>(children, ready).
     andThen (split_move env cfg parent attempt ready) (\<lambda>_.
     split_finish env cfg parent attempt children ready))"

section \<open>The retries\<close>

datatype outcome = Completed | Cancelled | Exhausted "call_error option"

text \<open>\<open>time.Duration\<close> is an \<open>int64\<close>; doubling wraps.\<close>

definition to_int64 :: "int \<Rightarrow> int" where
  "to_int64 k = (k + 2 ^ 63) mod 2 ^ 64 - 2 ^ 63"

definition next_backoff :: "int \<Rightarrow> int \<Rightarrow> int" where
  "next_backoff limit backoff = (let b = to_int64 (2 * backoff) in if b > limit then limit else b)"

fun split_attempts :: "('c, 'y) workflow_env_scheme \<Rightarrow> splitWorkflowConfig \<Rightarrow> string \<Rightarrow> nat \<Rightarrow> int \<Rightarrow> int \<Rightarrow> call_error option \<Rightarrow>
    ('c, 'z) WorkflowGrid_scheme \<Rightarrow> outcome \<times> ('c, 'z) WorkflowGrid_scheme" where
  "split_attempts env cfg i 0 attempt backoff lastErr g = (Exhausted lastErr, g)"
| "split_attempts env cfg i (Suc n) attempt backoff lastErr g =
     (case split_runOnce env cfg i attempt g of
        (Inr _, g1) \<Rightarrow>
          (let g2 = split_event env i ''done'' attempt (Said [Text ''workflow completed'']) [] Map.empty True g1
           in (Completed, snd (store_save env i \<lparr>se_CellID = i, se_Stage = ''done'', se_Attempt = attempt,
                se_Message = Said [Text ''workflow completed''], se_ChildCell = [], se_Attrs = Map.empty,
                se_AtUnixMs = unix_ms (clock g2), se_Successful = True\<rparr> g2)))
      | (Inl e, g1) \<Rightarrow>
          (let g2 = split_event env i ''retrying'' attempt (ErrorText e) [] Map.empty False g1;
               g3 = snd (store_save env i \<lparr>se_CellID = i, se_Stage = ''retrying'', se_Attempt = attempt,
                 se_Message = ErrorText e, se_ChildCell = [], se_Attrs = Map.empty,
                 se_AtUnixMs = unix_ms (clock g2), se_Successful = False\<rparr> g2)
           in case sleep env backoff g3 of
                (False, g4) \<Rightarrow> (Cancelled, g4)
              | (True, g4) \<Rightarrow> split_attempts env cfg i n (attempt + 1) (next_backoff (sw_maxBackoff cfg) backoff) (Some e) g4))"

definition split_run :: "('c, 'y) workflow_env_scheme \<Rightarrow> splitWorkflowConfig \<Rightarrow> string \<Rightarrow>
    ('c, 'z) WorkflowGrid_scheme \<Rightarrow> outcome \<times> ('c, 'z) WorkflowGrid_scheme" where
  "split_run env cfg i g =
     (let g1 = split_event env i ''detected'' 0 (Said [Text ''workflow started'']) [] Map.empty False g;
          (out, g2) = split_attempts env cfg i (nat (sw_maxRetries cfg)) 1 (sw_initialBackoff cfg) None g1;
          g3 = (case out of
                  Exhausted (Some e) \<Rightarrow> split_event env i ''failed'' 0 (ErrorText (Wrapped [Text ''workflow failed after retries''] e)) [] Map.empty False g2
                | Exhausted None \<Rightarrow> split_event env i ''failed'' 0 (Said [Text ''workflow failed after retries: <nil>'']) [] Map.empty False g2
                | _ \<Rightarrow> g2)
      in (out, split_done i g3))"

end
