(* ===== verification/Split_Result.thy ===== *)
theory Split_Result
  imports Split_Workflow
begin

text \<open>
  What a split achieves. The wait for the children ends; the retries are bounded; with nobody
  interfering, a split of a cell with players never succeeds, because the children to which the
  players are moved first then refuse the NPCs.
\<close>

section \<open>The wait for the children\<close>

definition pending :: "('c, 'z) Grid_scheme \<Rightarrow> int" where
  "pending g = sum_list (map t_elapsed (turns g))"

definition forward_time :: "('c, 'z) Grid_scheme \<Rightarrow> bool" where
  "forward_time g \<longleftrightarrow> (\<forall>t \<in> set (turns g). 0 \<le> t_elapsed t)"

lemma pending_nonneg: "forward_time g \<Longrightarrow> 0 \<le> pending g"
  by (auto simp: pending_def forward_time_def intro!: sum_list_nonneg)

text \<open>Between two grids \<open>d\<close> of waiting has passed, besides the time of the turns used up.\<close>

definition passes :: "int \<Rightarrow> ('c, 'z) Grid_scheme \<Rightarrow> ('c, 'z) Grid_scheme \<Rightarrow> bool" where
  "passes d g g' \<longleftrightarrow> clock g' + pending g' = clock g + pending g + d \<and>
     (forward_time g \<longrightarrow> forward_time g' \<and> pending g' \<le> pending g)"

lemma passes_refl [simp]: "passes 0 g g"
  by (simp add: passes_def)

lemma passes_trans: "passes d g1 g2 \<Longrightarrow> passes d' g2 g3 \<Longrightarrow> passes (d + d') g1 g3"
  by (auto simp: passes_def)

lemma next_turn_passes: "passes 0 g (snd (next_turn g))"
  by (auto simp: passes_def next_turn_def pending_def forward_time_def Let_def split: list.split prod.split)

lemma dialled_call_passes: "passes 0 g (snd (dialled_call env ep h g))"
  using next_turn_passes[of g]
  by (auto simp: dialled_call_def call_def fail_def Let_def passes_def pending_def forward_time_def split: option.split prod.split fate.split)

lemma ready_children_passes:
  assumes "ready_children env want cs g = (ready, g')"
  shows "passes 0 g g' \<and> set ready \<subseteq> want"
  using assms
proof (induction env want cs g arbitrary: ready g' rule: ready_children.induct)
  case (3 env want c cs g)
  let ?ep = "TrimSpace (cs_GrpcEndpoint c)"
  show ?case
  proof (cases "cs_Id c \<notin> want \<or> ?ep = []")
    case True
    then show ?thesis using 3(1,3) by auto
  next
    case False
    obtain ok g1 where p: "isCellReachable env ?ep g = (ok, g1)" by (cases "isCellReachable env ?ep g")
    have t: "passes 0 g g1"
      using dialled_call_passes[where env = env and ep = ?ep and g = g and h = "\<lambda>now s. (Ping (unix_ms now) s, s)"]
        isCellReachable_snd[of env ?ep g] p by auto
    obtain ready' where r: "ready_children env want cs g1 = (ready', g')" "set ready \<subseteq> insert (cs_Id c) (set ready')"
      using False p 3(3) by (auto split: prod.splits if_splits)
    show ?thesis using 3(2)[OF False p[symmetric] HOL.refl r(1)] passes_trans[OF t] r(2) False by auto
  qed
qed auto

lemma sleep_passes:
  assumes "sleep env d g = (b, g')" "d \<ge> 0"
  shows "\<exists>e \<le> d. passes e g g' \<and> (b \<longrightarrow> e = d)"
proof -
  obtain f g1 where g1: "next_turn g = (f, g1)" by (cases "next_turn g")
  have p: "passes 0 g g1" using next_turn_passes[of g] g1 by simp
  have "\<exists>e \<le> d. g' = g1\<lparr>clock := clock g1 + e\<rparr> \<and> (b \<longrightarrow> e = d)"
  proof (cases b)
    case True
    then show ?thesis using assms g1 by (auto simp: sleep_def Let_def split: option.splits if_splits)
  next
    case False
    then obtain e where "ctx_ends env = Some e" "e \<le> clock g1 + d" "g' = g1\<lparr>clock := max (clock g1) e\<rparr>"
      using assms g1 by (auto simp: sleep_def Let_def split: option.splits if_splits)
    then show ?thesis using False assms(2) by (intro exI[of _ "max (clock g1) e - clock g1"]) auto
  qed
  then show ?thesis using p by (auto simp: passes_def pending_def forward_time_def)
qed

lemma wait_loop_passes:
  assumes "wait_loop env want n deadline g = (res, g')" "forward_time g"
  shows "clock g' + pending g' \<le> max (clock g + pending g) (deadline + 2 * second + pending g) \<and> forward_time g' \<and>
    (\<forall>ready. res = Inr ready \<longrightarrow> length ready = n \<and> set ready \<subseteq> want)"
  using assms
proof (induction env want n deadline g rule: wait_loop.induct)
  case (1 env want n deadline g)
  note loop = wait_loop.simps[of env want n deadline g]
  show ?case
  proof (cases "ListAll (wf_catalog env) (reg g)")
    case (Inl err)
    then show ?thesis using 1(2,3) by (auto simp: loop fail_def)
  next
    case (Inr listed)
    obtain ready g1 where r: "ready_children env want listed g = (ready, g1)" by (cases "ready_children env want listed g")
    note rt = ready_children_passes[OF r]
    obtain b g2 where s: "sleep env (2 * second) g1 = (b, g2)" by (cases "sleep env (2 * second) g1")
    obtain e where e: "e \<le> 2 * second" "passes e g1 g2" using sleep_passes[OF s] by auto
    have t: "clock g1 + pending g1 = clock g + pending g" "forward_time g1" "pending g1 \<le> pending g"
      "clock g2 + pending g2 \<le> clock g1 + pending g1 + 2 * second" "forward_time g2" "pending g2 \<le> pending g1"
      using rt e 1(3) by (auto simp: passes_def)
    consider "length ready = n" | "length ready \<noteq> n" "clock g1 > deadline"
      | "length ready \<noteq> n" "\<not> clock g1 > deadline" "\<not> b" | "length ready \<noteq> n" "\<not> clock g1 > deadline" "b" by blast
    then show ?thesis
    proof cases
      case 1
      then show ?thesis using "1.prems" Inr r rt t by (auto simp: loop give_def)
    next
      case 2
      then show ?thesis using "1.prems" Inr r t by (auto simp: loop fail_def)
    next
      case 3
      then show ?thesis using "1.prems" Inr r s t by (auto simp: loop fail_def)
    next
      case 4
      then have "wait_loop env want n deadline g2 = (res, g')" using "1.prems" Inr r s by (simp add: loop)
      moreover have sb: "sleep env (2 * second) g1 = (True, g2)" using s 4(3) by simp
      ultimately show ?thesis
        using "1.IH"[OF Inr r[symmetric] 4(1,2) sb[symmetric] HOL.refl _ t(5)] 4(2) t by auto
    qed
  qed
qed

text \<open>
  C23: The wait for the children ends. Whatever the schedule of lost calls and of changes to the
  catalog, the poll returns (\<open>wait_loop\<close> is a total function), at the latest two seconds after its
  deadline plus the time spent in calls; a positive answer names as many ready cells as there are
  children, all of them wanted ones.
\<close>

theorem waitChildrenReady_ends:
  assumes "waitChildrenReady env cfg children g = (res, g')" "\<forall>t \<in> set (turns g). 0 \<le> t_elapsed t"
    and "sw_waitChildren cfg \<ge> 0"
  shows "clock g' \<le> clock g + sw_waitChildren cfg + 2 * second + sum_list (map t_elapsed (turns g)) \<and>
    (case res of Inr ready \<Rightarrow> length ready = length children \<and> set ready \<subseteq> cc_ID ` set children | Inl e \<Rightarrow> True)"
proof -
  have f: "forward_time g" using assms(2) by (simp add: forward_time_def)
  note w = wait_loop_passes[OF assms(1)[unfolded waitChildrenReady_def] f]
  have "0 \<le> pending g'" using w pending_nonneg by blast
  then show ?thesis using w assms(3) by (auto simp: pending_def split: sum.split)
qed


section \<open>The retries\<close>

lemma split_attempts_outcome:
  fixes g :: "('c, 'z) WorkflowGrid_scheme"
  assumes "split_attempts env cfg i n attempt backoff lst g = (out, g')"
  shows "(out = Completed \<longrightarrow> (\<exists>k < n. \<exists>(h :: ('c, 'z) WorkflowGrid_scheme) h'. split_runOnce env cfg i (attempt + int k) h = (Inr (), h'))) \<and>
    (\<forall>e. out = Exhausted (Some e) \<longrightarrow> (if n = 0 then lst = Some e
       else \<exists>(h :: ('c, 'z) WorkflowGrid_scheme) h'. split_runOnce env cfg i (attempt + int n - 1) h = (Inl e, h')))"
  using assms
proof (induction n arbitrary: attempt backoff lst g)
  case (Suc n)
  obtain r g1 where r: "split_runOnce env cfg i attempt g = (r, g1)" by (cases "split_runOnce env cfg i attempt g")
  show ?case
  proof (cases r)
    case (Inr u)
    have "\<exists>(h :: ('c, 'z) WorkflowGrid_scheme) h'. split_runOnce env cfg i (attempt + int 0) h = (Inr (), h')"
      using r Inr by (intro exI[of _ g] exI[of _ g1]) simp
    then have "\<exists>k < Suc n. \<exists>(h :: ('c, 'z) WorkflowGrid_scheme) h'. split_runOnce env cfg i (attempt + int k) h = (Inr (), h')"
      by blast
    moreover have "out = Completed" using Suc.prems r Inr by (simp add: Let_def)
    ultimately show ?thesis by simp
  next
    case (Inl e)
    define g2 where "g2 = split_event env i ''retrying'' attempt (ErrorText e) [] Map.empty False g1"
    define g3 where "g3 = snd (store_save env i \<lparr>se_CellID = i, se_Stage = ''retrying'', se_Attempt = attempt,
      se_Message = ErrorText e, se_ChildCell = [], se_Attrs = Map.empty, se_AtUnixMs = unix_ms (clock g2), se_Successful = False\<rparr> g2)"
    obtain b g4 where b: "sleep env backoff g3 = (b, g4)" by (cases "sleep env backoff g3")
    have eq: "split_attempts env cfg i (Suc n) attempt backoff lst g =
        (if b then split_attempts env cfg i n (attempt + 1) (next_backoff (sw_maxBackoff cfg) backoff) (Some e) g4 else (Cancelled, g4))"
      using r Inl b by (simp add: Let_def g2_def[symmetric] g3_def[symmetric])
    show ?thesis
    proof (cases b)
      case False
      then show ?thesis using Suc.prems eq by auto
    next
      case True
      then have go: "split_attempts env cfg i n (attempt + 1) (next_backoff (sw_maxBackoff cfg) backoff) (Some e) g4 = (out, g')"
        using Suc.prems eq by simp
      note ih = Suc.IH[OF go]
      have 1: "\<exists>k < Suc n. \<exists>(h :: ('c, 'z) WorkflowGrid_scheme) h'. split_runOnce env cfg i (attempt + int k) h = (Inr (), h')" if c: "out = Completed"
      proof -
        obtain k and h h' :: "('c, 'z) WorkflowGrid_scheme" where "k < n" and "split_runOnce env cfg i (attempt + 1 + int k) h = (Inr (), h')" using ih c by blast
        then show ?thesis by (intro exI[of _ "Suc k"]) (auto simp: algebra_simps)
      qed
      have 2: "\<exists>(h :: ('c, 'z) WorkflowGrid_scheme) h'. split_runOnce env cfg i (attempt + int n) h = (Inl e', h')" if c: "out = Exhausted (Some e')" for e'
        using ih c r Inl by (cases "n = 0") (auto simp: algebra_simps)
      show ?thesis using 1 2 by auto
    qed
  qed
qed auto

text \<open>
  A split workflow makes at most the configured number of attempts and returns: it is completed
  only if one of them succeeded, given up with the error of the last one, or cancelled; in every case
  the cell is no longer counted as being split.
\<close>

theorem split_run_outcome:
  fixes g :: "('c, 'z) WorkflowGrid_scheme"
  assumes "split_run env cfg i g = (out, g')" "sw_maxRetries cfg \<ge> 1"
  shows "i \<notin> splitActive g' \<and>
    (case out of
       Completed \<Rightarrow> \<exists>a (h :: ('c, 'z) WorkflowGrid_scheme) h'. 1 \<le> a \<and> a \<le> sw_maxRetries cfg \<and> split_runOnce env cfg i a h = (Inr (), h')
     | Exhausted e \<Rightarrow> \<exists>err (h :: ('c, 'z) WorkflowGrid_scheme) h'. e = Some err \<and> split_runOnce env cfg i (sw_maxRetries cfg) h = (Inl err, h')
     | Cancelled \<Rightarrow> True)"
proof -
  define g1 where "g1 = split_event env i ''detected'' 0 (Said [Text ''workflow started'']) [] Map.empty False g"
  obtain o2 g2 where a: "split_attempts env cfg i (nat (sw_maxRetries cfg)) 1 (sw_initialBackoff cfg) None g1 = (o2, g2)"
    by (cases "split_attempts env cfg i (nat (sw_maxRetries cfg)) 1 (sw_initialBackoff cfg) None g1")
  then have o: "out = o2" "\<exists>h. g' = split_done i h" using assms(1) by (auto simp: split_run_def g1_def[symmetric])
  note oc = split_attempts_outcome[OF a]
  have n: "nat (sw_maxRetries cfg) \<noteq> 0" "int (nat (sw_maxRetries cfg)) = sw_maxRetries cfg" using assms(2) by auto
  have "split_attempts env cfg i m att bk l h \<noteq> (Exhausted None, h')" if "m \<noteq> 0 \<or> l \<noteq> None" for m att bk l h h'
    using that
  proof (induction m arbitrary: att bk l h)
    case (Suc m)
    then show ?case by (auto simp: Let_def split: prod.splits sum.splits bool.splits)
  qed auto
  then have some: "out \<noteq> Exhausted None" using a n(1) o(1) by blast
  have i: "i \<notin> splitActive g'" using o(2) by (auto simp: split_done_def)
  show ?thesis
  proof (cases out)
    case Completed
    then obtain k and h h' :: "('c, 'z) WorkflowGrid_scheme" where "k < nat (sw_maxRetries cfg)" "split_runOnce env cfg i (1 + int k) h = (Inr (), h')"
      using oc o(1) by blast
    then show ?thesis using i Completed n by (auto intro!: exI[of _ "1 + int k"])
  next
    case (Exhausted e)
    then obtain err where e: "e = Some err" using some by (cases e) auto
    then show ?thesis using i Exhausted oc o(1) n by auto
  qed (use i in simp)
qed

end
