(* ===== verification/Split_Players.thy ===== *)
theory Split_Players
  imports Split_Result
begin

text \<open>
  Players and NPCs in one split. What the handlers leave of a server, lifted once to the handoffs of
  the registry by a locale, and used to show that a split that has moved a player to a child can no
  longer hand the NPCs to it.
\<close>

section \<open>What the handlers leave\<close>

lemma prune_kept:
  "playerByID (pruneStalePreparedLocked order now s) = playerByID s"
  "acceptedByTk (pruneStalePreparedLocked order now s) = acceptedByTk s"
  "splitDrain (pruneStalePreparedLocked order now s) = splitDrain s"
proof -
  have "playerByID (fold (prune_one now) order s) = playerByID s \<and> acceptedByTk (fold (prune_one now) order s) = acceptedByTk s \<and>
      splitDrain (fold (prune_one now) order s) = splitDrain s"
  proof (induction order arbitrary: s)
    case (Cons i order)
    have "playerByID (prune_one now i s) = playerByID s \<and> acceptedByTk (prune_one now i s) = acceptedByTk s \<and>
        splitDrain (prune_one now i s) = splitDrain s"
      by (simp add: prune_one_def split: option.split)
    then show ?case using Cons[of "prune_one now i s"] by simp
  qed simp
  then show "playerByID (pruneStalePreparedLocked order now s) = playerByID s"
    "acceptedByTk (pruneStalePreparedLocked order now s) = acceptedByTk s"
    "splitDrain (pruneStalePreparedLocked order now s) = splitDrain s"
    by (simp_all add: pruneStalePreparedLocked_def)
qed

lemma Prepare_kept:
  "playerByID (snd (PreparePlayerHandoff order n1 n2 n3 p c t s)) = playerByID s"
  "acceptedByTk (snd (PreparePlayerHandoff order n1 n2 n3 p c t s)) = acceptedByTk s"
  "splitDrain (snd (PreparePlayerHandoff order n1 n2 n3 p c t s)) = splitDrain s"
proof -
  have r: "playerByID (snd (prepare_reserve order n1 n2 q u s)) = playerByID s \<and>
      acceptedByTk (snd (prepare_reserve order n1 n2 q u s)) = acceptedByTk s \<and>
      splitDrain (snd (prepare_reserve order n1 n2 q u s)) = splitDrain s" for q u
    by (auto simp: prepare_reserve_def Let_def prune_kept split: option.split sum.split if_split)
  have d: "playerByID (snd (prepare_read e s')) = playerByID s' \<and> acceptedByTk (snd (prepare_read e s')) = acceptedByTk s' \<and>
      splitDrain (snd (prepare_read e s')) = splitDrain s'" for e s'
    by (auto simp: prepare_read_def Let_def server_simps split: option.split)
  have t: "playerByID (snd (prepare_store n3 q c' u e rd s')) = playerByID s' \<and>
      acceptedByTk (snd (prepare_store n3 q c' u e rd s')) = acceptedByTk s' \<and>
      splitDrain (snd (prepare_store n3 q c' u e rd s')) = splitDrain s'" for q c' u e rd s'
    by (auto simp: prepare_store_def Let_def split: option.split prod.split)
  have "playerByID (snd (PreparePlayerHandoff order n1 n2 n3 p c t s)) = playerByID s \<and>
      acceptedByTk (snd (PreparePlayerHandoff order n1 n2 n3 p c t s)) = acceptedByTk s \<and>
      splitDrain (snd (PreparePlayerHandoff order n1 n2 n3 p c t s)) = splitDrain s"
  proof (cases "prepare_reserve order n1 n2 (TrimSpace p) (TrimSpace t) s")
    case (Pair x s1)
    show ?thesis
    proof (cases x)
      case (Inl resp)
      then show ?thesis using r[of "TrimSpace p" "TrimSpace t"] Pair by (auto simp: PreparePlayerHandoff_def Let_def)
    next
      case (Inr e)
      obtain rd s2 where rd: "prepare_read e s1 = (rd, s2)" by (cases "prepare_read e s1")
      show ?thesis
        using r[of "TrimSpace p" "TrimSpace t"] d[of e s1] t[of "TrimSpace p" "TrimSpace c" "TrimSpace t" e rd s2] Pair Inr rd
        by (auto simp: PreparePlayerHandoff_def Let_def)
    qed
  qed
  then show "playerByID (snd (PreparePlayerHandoff order n1 n2 n3 p c t s)) = playerByID s"
    "acceptedByTk (snd (PreparePlayerHandoff order n1 n2 n3 p c t s)) = acceptedByTk s"
    "splitDrain (snd (PreparePlayerHandoff order n1 n2 n3 p c t s)) = splitDrain s" by blast+
qed

lemma Finalize_kept:
  "dom (playerByID (snd (FinalizePlayerHandoff p t s))) \<subseteq> dom (playerByID s)"
  "splitDrain (snd (FinalizePlayerHandoff p t s)) = splitDrain s"
  by (auto simp: FinalizePlayerHandoff_def finalize_commit_def Let_def server_simps split: option.splits sum.splits if_splits prod.splits)

lemma accept_create_kept:
  "playerByID (snd (accept_create s)) = playerByID s" "splitDrain (snd (accept_create s)) = splitDrain s"
  by (auto simp: accept_create_def split: option.split prod.split)

lemma Accept_kept:
  "dom (playerByID s) \<subseteq> dom (playerByID (snd (AcceptPlayerHandoff pl s)))"
  "finite (dom (playerByID s)) \<Longrightarrow> finite (dom (playerByID (snd (AcceptPlayerHandoff pl s))))"
  "splitDrain (snd (AcceptPlayerHandoff pl s)) = splitDrain s"
  using accept_create_kept[of s]
  by (auto simp: AcceptPlayerHandoff_def accept_lookup_def accept_write_def Let_def server_simps split: option.splits sum.splits prod.splits)

lemma Accept_registers:
  assumes "AcceptPlayerHandoff (Some pl) s = (acc, s')" "ar_Ok acc" "TrimSpace (hs_HandoffToken pl) \<notin> dom (acceptedByTk s)"
  shows "TrimSpace (hs_PlayerId pl) \<in> dom (playerByID s')"
  using assms by (auto simp: AcceptPlayerHandoff_def accept_lookup_def Let_def server_simps split: option.splits sum.splits prod.splits if_splits)

lemma Update_kept:
  "playerByID (snd (Update j order (Some (Some u)) s)) = playerByID s"
  "acceptedByTk (snd (Update j order (Some (Some u)) s)) = acceptedByTk s"
  "(\<forall>b. u \<noteq> SetSplitDrain b) \<Longrightarrow> splitDrain (snd (Update j order (Some (Some u)) s)) = splitDrain s"
  by (cases u; auto simp: Update_def update_set_tps_def update_set_drain_def update_import_def Let_def
      split: option.split sum.split if_split)+

section \<open>Predicates on cells that handoffs keep\<close>

text \<open>Nothing scheduled, the catalog and the reachable endpoints as given, and every server as \<open>Q\<close> says.\<close>

definition held :: "'c \<Rightarrow> string set \<Rightarrow> (string \<Rightarrow> Server \<Rightarrow> bool) \<Rightarrow> ('c, 'z) Grid_scheme \<Rightarrow> bool" where
  "held c up Q g \<longleftrightarrow> turns g = [] \<and> reg g = c \<and> dom (servers g) = up \<and> (\<forall>ep s. servers g ep = Some s \<longrightarrow> Q ep s)"

lemma heldD: "held c up Q g \<Longrightarrow> turns g = []" "held c up Q g \<Longrightarrow> reg g = c"
  "held c up Q g \<Longrightarrow> servers g ep = Some s \<Longrightarrow> Q ep s"
  by (auto simp: held_def)

lemma held_call:
  fixes c :: 'c
  assumes "\<And>now s. Q ep s \<Longrightarrow> Q ep (snd (h now s))"
  shows "keeps (held c up Q) (call ep h)"
proof (rule keepsI)
  fix g :: "('c, 'z) Grid_scheme" assume g: "held c up Q g"
  show "held c up Q (snd (call ep h g))"
  proof (cases "servers g ep")
    case None
    then show ?thesis using g by (simp add: held_def call_def next_turn_def)
  next
    case (Some s)
    obtain r s' where h: "h (clock g) s = (r, s')" by fastforce
    then have "Q ep s'" using assms[of s "clock g"] heldD(3)[OF g Some] by simp
    then show ?thesis using g call_quiet[where handler = h, OF heldD(1)[OF g] Some h] Some by (auto simp: held_def)
  qed
qed

lemma held_dialled_call: "(\<And>now s. Q ep s \<Longrightarrow> Q ep (snd (h now s))) \<Longrightarrow> keeps (held c up Q) (dialled_call env ep h)"
  unfolding dialled_call_def using held_call[of Q ep h c up]
  by (auto simp: keeps_def fail_def split: option.split)

lemma held_registry: "keeps (held c up Q) m \<Longrightarrow> keeps (held c up Q) (registry_call env addr m)"
  by (auto simp: keeps_def registry_call_def fail_def Let_def next_turn_def held_def split: option.split)

lemma held_dial:
  fixes c :: 'c and k :: "CellSpec \<Rightarrow> ('a, ('c, 'z) Grid_scheme) op"
  assumes "\<And>spec. address env c i = Some (cs_GrpcEndpoint spec) \<Longrightarrow> keeps (held c up Q) (k spec)"
  shows "keeps (held c up Q) (andThen (dialCellClient env i) k)"
proof (rule keepsI)
  fix g :: "('c, 'z) Grid_scheme" assume g: "held c up Q g"
  show "held c up Q (snd (andThen (dialCellClient env i) k g))"
  proof (cases "fst (dialCellClient env i g)")
    case (Inl e)
    then have "dialCellClient env i g = (Inl e, g)" using dial_same[of env i g] by (metis prod.collapse)
    then show ?thesis using g by (simp add: andThen_def)
  next
    case (Inr spec)
    then have d: "dialCellClient env i g = (Inr spec, g)" by (rule dialled)
    then have "address env c i = Some (cs_GrpcEndpoint spec)" using dial_address[of env g i] heldD(2)[OF g] by auto
    then show ?thesis using assms keeps_apply g d by (fastforce simp: andThen_def)
  qed
qed

lemma held_update:
  assumes "\<And>ep s order. Q ep s \<Longrightarrow> Q ep (snd (Update (js env) order (Some u) s))"
  shows "keeps (held c up Q) (doForwardCellUpdate env i (Some u))"
  unfolding doForwardCellUpdate_def by (auto intro!: held_dial held_call assms)

locale cell_contract =
  fixes Q :: "string \<Rightarrow> Server \<Rightarrow> bool" and P :: string
  assumes export_kept: "Q ep s \<Longrightarrow> Q ep (snd (Update j order (Some (Some (ExportNpcPersist x))) s))"
    and import_kept: "Q ep s \<Longrightarrow> Q ep (snd (Update j order (Some (Some (ImportNpcPersist y))) s))"
    and prepare_kept: "Q P s \<Longrightarrow> Q P (snd (PreparePlayerHandoff vs n1 n2 n3 p i t s))"
    and finalize_kept: "Q P s \<Longrightarrow> Q P (snd (FinalizePlayerHandoff p t s))"
    and accept_kept: "ep \<noteq> P \<Longrightarrow> Q ep s \<Longrightarrow> Q ep (snd (AcceptPlayerHandoff pl s))"
begin

lemma npc_held: "keeps (held c up Q) (ForwardNpcHandoff env (Some req))"
  unfolding ForwardNpcHandoff_def Let_def
  by (auto intro!: keeps_andThen held_update export_kept import_kept split: sum.split)

lemma player_calls_held:
  assumes ps: "cs_GrpcEndpoint ps = P" and cs: "cs_GrpcEndpoint cs \<noteq> P"
  shows "keeps (held c up Q) (player_handoff_calls env ps cs i p t)"
proof -
  note parent = prepare_kept[folded ps] finalize_kept[folded ps]
  show ?thesis unfolding player_handoff_calls_def Let_def
    by (auto intro!: keeps_andThen held_call parent accept_kept[OF cs])
qed

lemma player_held:
  assumes "address env c (TrimSpace (ph_ParentCellId req)) = Some P" "address env c (TrimSpace (ph_ChildCellId req)) \<noteq> Some P"
  shows "keeps (held c up Q) (ForwardPlayerHandoff env (Some req))"
  using assms unfolding ForwardPlayerHandoff_def Let_def by (auto intro!: held_dial player_calls_held)

end

interpretation finite_players: cell_contract "\<lambda>ep s. finite (dom (playerByID s))" P for P
  by unfold_locales
     (simp_all add: Update_kept Prepare_kept Accept_kept(2) finite_subset[OF Finalize_kept(1)])

text \<open>A cell with players other than the parent keeps some, and the parent stays as drained as it is.\<close>

definition occupied :: "Server \<Rightarrow> bool" where
  "occupied s \<longleftrightarrow> finite (dom (playerByID s)) \<and> dom (playerByID s) \<noteq> {}"

lemma occupied_count: "occupied s \<longleftrightarrow> PlayerCount s > 0"
  by (simp add: occupied_def PlayerCount_def card_gt_0_iff conj_commute)

definition occupied_at :: "string \<Rightarrow> string \<Rightarrow> string \<Rightarrow> Server \<Rightarrow> bool" where
  "occupied_at P ep0 ep s \<longleftrightarrow> finite (dom (playerByID s)) \<and> (ep = ep0 \<and> ep0 \<noteq> P \<longrightarrow> occupied s)"

interpretation occupants: cell_contract "occupied_at P ep0" P for P ep0
proof
  show "ep \<noteq> P \<Longrightarrow> occupied_at P ep0 ep s \<Longrightarrow> occupied_at P ep0 ep (snd (AcceptPlayerHandoff pl s))" for ep s pl
    using Accept_kept(1,2)[of s pl] by (auto simp: occupied_at_def occupied_def)
qed (auto simp: occupied_at_def occupied_def Update_kept Prepare_kept intro: finite_subset[OF Finalize_kept(1)])

definition drained_at :: "string \<Rightarrow> string \<Rightarrow> Server \<Rightarrow> bool" where
  "drained_at P ep s \<longleftrightarrow> (ep = P \<longrightarrow> splitDrain s)"

interpretation drain: cell_contract "drained_at P" P for P
  by unfold_locales (auto simp: drained_at_def Update_kept Prepare_kept Finalize_kept Accept_kept)


section \<open>Players before NPCs\<close>

lemma held_same [simp]:
  "held c up Q (split_event env i stage a m ch attrs b g) = held c up Q g"
  "held c up Q (split_done i g) = held c up Q g"
  by (simp_all add: held_def split_event_def split_publish_def split_done_def)

lemma keeps_wrapping: "keeps I m \<Longrightarrow> keeps I (wrapping ms m)"
  by (auto simp: keeps_def wrapping_def split: prod.split sum.split)

lemma keeps_on_error: "keeps I m \<Longrightarrow> (\<And>e g. I (f e g) = I g) \<Longrightarrow> keeps I (on_error f m)"
  by (auto simp: keeps_def on_error_def split: prod.split sum.split)

text \<open>An operation that only answers under a successful one.\<close>

lemma wrapping_Inr: "wrapping ms m g = (Inr x, g') \<longleftrightarrow> m g = (Inr x, g')"
  by (auto simp: wrapping_def split: prod.split sum.split)

lemma on_error_Inr: "on_error f m g = (Inr x, g') \<longleftrightarrow> m g = (Inr x, g')"
  by (auto simp: on_error_def split: prod.split sum.split)

lemma andThen_InrE:
  assumes "andThen m k g = (Inr y, g')"
  obtains x g1 where "m g = (Inr x, g1)" "k x g1 = (Inr y, g')"
  using assms by (auto simp: andThen_def split: prod.splits sum.splits)

lemma registry_quiet: "turns g = [] \<Longrightarrow> registry_call env addr m g = (Inr x, g') \<Longrightarrow> m g = (Inr x, g')"
  by (auto simp: registry_call_def next_turn_def fail_def split: option.splits)

text \<open>The names of a split: the parent's address, distinct from those of the children.\<close>

definition apart :: "('c, 'y) env_scheme \<Rightarrow> 'c \<Rightarrow> string \<Rightarrow> string \<Rightarrow> bool" where
  "apart env c parent P \<longleftrightarrow> TrimSpace parent = parent \<and> address env c parent = Some P \<and>
     (\<forall>i. i \<noteq> parent \<longrightarrow> address env c i \<noteq> Some P)"

text \<open>No cell has yet accepted a token of a split of this parent.\<close>

definition unused :: "string \<Rightarrow> Server \<Rightarrow> bool" where
  "unused parent s \<longleftrightarrow> (\<forall>p n. TrimSpace (parent @ '':'' @ p @ '':'' @ Itoa n) \<notin> dom (acceptedByTk s))"

lemma trimmed_twice [simp]: "TrimSpace (TrimSpace s) = TrimSpace s"
  by (rule trim_idem)

lemma call_quietE:
  assumes "call ep h g = (Inr r, g')" "turns g = []"
  obtains s s' where "servers g ep = Some s" "h (clock g) s = (r, s')" "g' = g\<lparr>servers := (servers g)(ep \<mapsto> s')\<rparr>"
  using assms by (auto simp: call_def next_turn_def split: option.splits prod.splits)

text \<open>A successful handoff leaves the child with a player.\<close>

lemma player_calls_occupy:
  assumes "player_handoff_calls env ps cs i p t g = (Inr resp, g')" "turns g = []"
    and "cs_GrpcEndpoint cs \<noteq> cs_GrpcEndpoint ps" "TrimSpace t = t"
    and "\<forall>e s. servers g e = Some s \<longrightarrow> finite (dom (playerByID s)) \<and> t \<notin> dom (acceptedByTk s)"
  shows "\<exists>s. servers g' (cs_GrpcEndpoint cs) = Some s \<and> occupied s"
proof -
  let ?P = "cs_GrpcEndpoint ps" and ?C = "cs_GrpcEndpoint cs"
  obtain prep g1 where prep: "call ?P (\<lambda>now s. PreparePlayerHandoff (visit_prepared env s) now now now p i t s) g = (Inr prep, g1)"
    and rest: "(if \<not> pr_Ok prep \<or> pr_Payload prep = None
       then fail (Status FailedPrecondition [Text (''prepare failed: '' @ pr_Message prep)])
       else (let payload = (the (pr_Payload prep))\<lparr>hs_SourceCellId := cs_Id ps,
                   hs_TargetCellId := cs_Id cs, hs_HandoffToken := t\<rparr>
             in andThen (call ?C (\<lambda>now s. AcceptPlayerHandoff (Some payload) s)) (\<lambda>acc.
                  if \<not> ar_Ok acc \<or> ar_EntityId acc = 0
                  then fail (Status FailedPrecondition [Text (''accept failed: '' @ ar_Message acc)])
                  else andThen (call ?P (\<lambda>now s. FinalizePlayerHandoff p t s)) (\<lambda>fin.
                    if \<not> sr_Ok fin
                    then fail (Status FailedPrecondition [Text (''finalize failed: '' @ sr_Message fin)])
                    else give \<lparr>phr_Message = ''player handoff completed'', phr_ChildEntityId = ar_EntityId acc\<rparr>)))) g1 = (Inr resp, g')"
    using assms(1) unfolding player_handoff_calls_def by (rule andThen_InrE)
  obtain sp sp1 where g1: "g1 = g\<lparr>servers := (servers g)(?P \<mapsto> sp1)\<rparr>" "servers g ?P = Some sp"
    using call_quietE[OF prep assms(2)] by metis
  obtain y where y: "pr_Ok prep" "pr_Payload prep = Some y" using rest by (auto simp: fail_def split: if_splits)
  define payload where "payload = y\<lparr>hs_SourceCellId := cs_Id ps, hs_TargetCellId := cs_Id cs, hs_HandoffToken := t\<rparr>"
  then have pl: "hs_HandoffToken payload = t" by simp
  have "andThen (call ?C (\<lambda>now s. AcceptPlayerHandoff (Some payload) s)) (\<lambda>acc.
      if \<not> ar_Ok acc \<or> ar_EntityId acc = 0
      then fail (Status FailedPrecondition [Text (''accept failed: '' @ ar_Message acc)])
      else andThen (call ?P (\<lambda>now s. FinalizePlayerHandoff p t s)) (\<lambda>fin.
        if \<not> sr_Ok fin
        then fail (Status FailedPrecondition [Text (''finalize failed: '' @ sr_Message fin)])
        else give \<lparr>phr_Message = ''player handoff completed'', phr_ChildEntityId = ar_EntityId acc\<rparr>)) g1 = (Inr resp, g')"
    using rest y by (simp add: payload_def)
  then obtain acc g2 where acc: "call ?C (\<lambda>now s. AcceptPlayerHandoff (Some payload) s) g1 = (Inr acc, g2)"
    and rest2: "(if \<not> ar_Ok acc \<or> ar_EntityId acc = 0
      then fail (Status FailedPrecondition [Text (''accept failed: '' @ ar_Message acc)])
      else andThen (call ?P (\<lambda>now s. FinalizePlayerHandoff p t s)) (\<lambda>fin.
        if \<not> sr_Ok fin
        then fail (Status FailedPrecondition [Text (''finalize failed: '' @ sr_Message fin)])
        else give \<lparr>phr_Message = ''player handoff completed'', phr_ChildEntityId = ar_EntityId acc\<rparr>)) g2 = (Inr resp, g')"
    by (rule andThen_InrE)
  have ok: "ar_Ok acc" and fin: "\<exists>fin. call ?P (\<lambda>now s. FinalizePlayerHandoff p t s) g2 = (Inr fin, g')"
    using rest2 by (auto simp: fail_def give_def elim!: andThen_InrE split: if_splits)
  have t1: "turns g1 = []" using g1(1) assms(2) by simp
  obtain sc sc1 where sc: "servers g1 ?C = Some sc" "AcceptPlayerHandoff (Some payload) sc = (acc, sc1)"
      "g2 = g1\<lparr>servers := (servers g1)(?C \<mapsto> sc1)\<rparr>"
    using call_quietE[OF acc t1] by metis
  have c: "finite (dom (playerByID sc))" "t \<notin> dom (acceptedByTk sc)" using sc(1) g1(1) assms(3,5) by auto
  have "occupied sc1"
    using Accept_registers[OF sc(2) ok] Accept_kept(2)[OF c(1), of "Some payload"] c(2) pl assms(4) sc(2)
    by (auto simp: occupied_def)
  moreover have "servers g' ?C = Some sc1"
  proof -
    obtain f where "call ?P (\<lambda>now s. FinalizePlayerHandoff p t s) g2 = (Inr f, g')" using fin by blast
    then obtain sq sq' where "g' = g2\<lparr>servers := (servers g2)(?P \<mapsto> sq')\<rparr>"
      using call_quietE[of ?P "\<lambda>now s. FinalizePlayerHandoff p t s" g2 f g'] sc(3) t1 by auto
    then show ?thesis using sc(3) assms(3) by simp
  qed
  ultimately show ?thesis by blast
qed

lemma player_handoff_occupies:
  assumes "ForwardPlayerHandoff env (Some req) g = (Inr resp, g')" "turns g = []"
    and "address env (reg g) (TrimSpace (ph_ParentCellId req)) = Some P" "address env (reg g) (TrimSpace (ph_ChildCellId req)) \<noteq> Some P"
    and "\<forall>e s. servers g e = Some s \<longrightarrow> finite (dom (playerByID s)) \<and> TrimSpace (ph_HandoffToken req) \<notin> dom (acceptedByTk s)"
  shows "\<exists>ep s. address env (reg g) (TrimSpace (ph_ChildCellId req)) = Some ep \<and> servers g' ep = Some s \<and> occupied s"
proof -
  let ?p = "TrimSpace (ph_ParentCellId req)" and ?i = "TrimSpace (ph_ChildCellId req)"
  have d: "dialCellClient env j g = (Inr spec, h) \<Longrightarrow> h = g \<and> address env (reg g) j = Some (cs_GrpcEndpoint spec)" for j spec h
    using dial_same[of env j g] dial_address[of env g j] by auto
  have "andThen (dialCellClient env ?p) (\<lambda>ps. andThen (dialCellClient env ?i) (\<lambda>cs.
      player_handoff_calls env ps cs ?i (TrimSpace (ph_PlayerId req)) (TrimSpace (ph_HandoffToken req)))) g = (Inr resp, g')"
    using assms(1) by (auto simp: ForwardPlayerHandoff_def fail_def Let_def split: if_splits)
  then obtain ps h where p: "dialCellClient env ?p g = (Inr ps, h)" and
    r: "andThen (dialCellClient env ?i) (\<lambda>cs. player_handoff_calls env ps cs ?i (TrimSpace (ph_PlayerId req))
      (TrimSpace (ph_HandoffToken req))) h = (Inr resp, g')"
    by (rule andThen_InrE)
  have h: "h = g" using d[OF p] by blast
  obtain cs h' where cs: "dialCellClient env ?i g = (Inr cs, h')" and
    c': "player_handoff_calls env ps cs ?i (TrimSpace (ph_PlayerId req)) (TrimSpace (ph_HandoffToken req)) h' = (Inr resp, g')"
    using r unfolding h by (rule andThen_InrE)
  have c: "player_handoff_calls env ps cs ?i (TrimSpace (ph_PlayerId req)) (TrimSpace (ph_HandoffToken req)) g = (Inr resp, g')"
    using c' d[OF cs] by simp
  have "dialCellClient env ?p g = (Inr ps, g)" "dialCellClient env ?i g = (Inr cs, g)" using p cs h d[OF cs] by simp_all
  then have "cs_GrpcEndpoint ps = P" "address env (reg g) ?i = Some (cs_GrpcEndpoint cs)" using d assms(3) by auto
  moreover have "cs_GrpcEndpoint cs \<noteq> cs_GrpcEndpoint ps" using calculation assms(4) by auto
  ultimately show ?thesis using player_calls_occupy[OF c assms(2)] assms(5) by auto
qed

text \<open>NPCs are not handed to a child with players.\<close>

lemma npc_handoff_refused:
  assumes "ForwardNpcHandoff env (Some req) g = (Inr resp, g')" "held c up (occupied_at P ep) g" "ep \<noteq> P" "ep \<in> up"
    and "address env c (nh_ChildCellId req) = Some ep"
  shows False
proof -
  let ?reason = "if nh_Reason req = [] then ''ForwardNpcHandoff'' else nh_Reason req"
  let ?exp = "doForwardCellUpdate env (nh_ParentCellId req) (Some (Some (ExportNpcPersist (Some ?reason))))"
  let ?imp = "\<lambda>raw. doForwardCellUpdate env (nh_ChildCellId req) (Some (Some (ImportNpcPersist (Some (raw, ?reason @ ''/import'')))))"
  obtain k where k: "andThen ?exp k g = (Inr resp, g')" and
    k2: "\<And>x h. k x h = (Inr resp, g') \<Longrightarrow> \<exists>k'. andThen (?imp (ur_NpcExportJson x)) k' h = (Inr resp, g') \<and>
      (\<forall>y h'. k' y h' = (Inr resp, g') \<longrightarrow> ur_Ok y \<and> h' = g')"
    using assms(1) unfolding ForwardNpcHandoff_def option.case Let_def
    by (cases "nh_ParentCellId req = [] \<or> nh_ChildCellId req = [] \<or> nh_ParentCellId req = nh_ChildCellId req")
       (force simp: fail_def give_def split: if_splits sum.splits)+
  obtain expResp g1 where e: "?exp g = (Inr expResp, g1)" "k expResp g1 = (Inr resp, g')" using k by (rule andThen_InrE)
  obtain k' where k': "andThen (?imp (ur_NpcExportJson expResp)) k' g1 = (Inr resp, g')"
      "\<forall>y h'. k' y h' = (Inr resp, g') \<longrightarrow> ur_Ok y \<and> h' = g'"
    using k2[OF e(2)] by blast
  define raw where "raw = ur_NpcExportJson expResp"
  obtain impResp h' where "?imp raw g1 = (Inr impResp, h')" "k' impResp h' = (Inr resp, g')"
    using k'(1) unfolding raw_def by (rule andThen_InrE)
  then have i: "\<exists>impResp. ?imp raw g1 = (Inr impResp, g') \<and> ur_Ok impResp" using k'(2) by auto
  have "keeps (held c up (occupied_at P ep)) (doForwardCellUpdate env (nh_ParentCellId req) (Some (Some (ExportNpcPersist (Some ?reason)))))"
    by (intro held_update occupants.export_kept)
  from keeps_apply[OF this assms(2)] have h1: "held c up (occupied_at P ep) g1" using e(1) by simp
  then obtain s where s: "servers g1 ep = Some s" "occupied s" using assms(3,4) by (auto simp: held_def occupied_at_def)
  obtain impResp where imp: "doForwardCellUpdate env (nh_ChildCellId req) (Some (Some (ImportNpcPersist (Some (raw, ?reason @ ''/import''))))) g1 = (Inr impResp, g')"
    "ur_Ok impResp" using i by blast
  let ?u = "Some (Some (ImportNpcPersist (Some (raw, ?reason @ ''/import''))))"
  obtain r s' where u: "Update (js env) (visit_live env s) ?u s = (r, s')" by fastforce
  have "doForwardCellUpdate env (nh_ChildCellId req) ?u g1 = (Inr r, g1\<lparr>servers := (servers g1)(ep \<mapsto> s')\<rparr>)"
    using update_quiet[of g1 env "nh_ChildCellId req" ep s "Some (ImportNpcPersist (Some (raw, ?reason @ ''/import'')))" r s']
      heldD(1,2)[OF h1] assms(5) s(1) u by simp
  then have "ur_Ok r" using imp by simp
  then show False
    using u s(2) by (auto simp: Update_def update_import_def occupied_count split: option.splits)
qed

section \<open>A split of a cell with players\<close>

lemma resolve_same [simp]: "snd (resolveTargetChildForPlayer env x z ready g) = g"
  by (auto simp: resolveTargetChildForPlayer_def fail_def give_def split: sum.split prod.split option.split bool.split)

lemma keeps_resolve [simp]: "keeps I (resolveTargetChildForPlayer env x z ready)"
  by (simp add: keeps_def)

lemma find_parent_same [simp]: "snd (find_parent env i g) = g"
  by (auto simp: find_parent_def fail_def give_def split: sum.split prod.split option.split bool.split)

lemma keeps_find_parent [simp]: "keeps I (find_parent env i)"
  by (simp add: keeps_def)

text \<open>Calls that only read a server keep whatever holds of it.\<close>

lemma held_reads:
  "keeps (held c up Q) (pingCellStats env ep)" "keeps (held c up Q) (pingParentStats env i)"
  "keeps (held c up Q) (listPlayerCandidates env i)"
proof -
  show p: "keeps (held c up Q) (pingCellStats env ep)" for ep
    unfolding pingCellStats_def by (auto intro!: keeps_andThen held_dialled_call)
  show "keeps (held c up Q) (pingParentStats env i)"
    unfolding pingParentStats_def by (auto intro!: keeps_andThen p)
  show "keeps (held c up Q) (listPlayerCandidates env i)"
    unfolding listPlayerCandidates_def by (auto intro!: keeps_andThen held_dialled_call)
qed

context cell_contract
begin

lemma player_held_apart:
  assumes "apart env c parent P" "TrimSpace (ph_ParentCellId req) = parent"
  shows "keeps (held c up Q) (ForwardPlayerHandoff env (Some req))"
proof (cases "TrimSpace (ph_ChildCellId req) = parent")
  case True
  then show ?thesis using assms(2) by (simp add: ForwardPlayerHandoff_def Let_def)
next
  case False
  then show ?thesis using assms by (intro player_held) (auto simp: apart_def)
qed

lemma forward_player_held:
  fixes c :: 'c
  assumes "apart env c parent P"
  shows "keeps (held c up Q) (forwardPlayerHandoff env cfg parent child playerID r)"
proof (rule keepsI)
  fix g :: "('c, 'z) Grid_scheme" assume g: "held c up Q g"
  have "keeps (held c up Q) (andThen (registry_call env (sw_registryAddr cfg)
      (ForwardPlayerHandoff env (Some (split_player_request parent child playerID r (clock g))))) (\<lambda>_. give ()))"
    using assms by (auto intro!: keeps_andThen held_registry player_held_apart simp: split_player_request_def apart_def)
  then show "held c up Q (snd (forwardPlayerHandoff env cfg parent child playerID r g))"
    unfolding forwardPlayerHandoff_def using g by (rule keeps_apply)
qed

lemma hand_over_held:
  assumes "apart env c parent P"
  shows "keeps (held c up Q) (hand_over env cfg parent attempt ready cand)"
  unfolding hand_over_def Let_def
  by (auto intro!: keeps_andThen keeps_wrapping keeps_on_error keeps_doing forward_player_held[OF assms] split: option.split)

lemma hand_over_all_held:
  "apart env c parent P \<Longrightarrow> keeps (held c up Q) (hand_over_all env cfg parent attempt ready cands)"
  by (induction cands) (auto intro!: keeps_andThen hand_over_held)

lemma npc_handoffs_held: "keeps (held c up Q) (npc_handoffs env cfg parent attempt ready)"
proof (induction ready)
  case (Cons child rest)
  have "keeps (held c up Q) (forwardHandoff env cfg parent child r)" for r
    unfolding forwardHandoff_def by (auto intro!: keeps_andThen held_registry npc_held)
  then show ?case using Cons
    by (auto intro!: keeps_andThen keeps_wrapping keeps_on_error keeps_doing)
qed simp

lemma dry_run_held: "keeps (held c up Q) (runMigrationDryRun env cfg parent)"
  unfolding runMigrationDryRun_def ForwardCellUpdate_def
  by (auto intro!: keeps_andThen held_registry held_update export_kept)

lemma split_move_held:
  assumes "apart env c parent P"
  shows "keeps (held c up Q) (split_move env cfg parent attempt ready)"
proof -
  have "keeps (held c up Q) (split_players env cfg parent attempt ready)"
    unfolding split_players_def
    by (auto intro!: keeps_andThen keeps_wrapping keeps_doing dry_run_held held_reads hand_over_all_held[OF assms]
        split: option.split)
  then show ?thesis
    unfolding split_move_def Let_def
    by (auto intro!: keeps_andThen keeps_wrapping keeps_doing held_reads npc_handoffs_held)
qed

end

text \<open>The first player handed over occupies a child.\<close>

lemma forward_player_occupies:
  assumes "forwardPlayerHandoff env cfg parent child playerID r g = (Inr u, g')" "turns g = []" "apart env (reg g) parent P"
    and "TrimSpace child = child"
    and "\<forall>e s. servers g e = Some s \<longrightarrow> finite (dom (playerByID s)) \<and> unused parent s"
  shows "\<exists>ep s. address env (reg g) child = Some ep \<and> ep \<noteq> P \<and> servers g' ep = Some s \<and> occupied s"
proof -
  define req where "req = split_player_request parent child playerID r (clock g)"
  have q: "TrimSpace (ph_ParentCellId req) = parent" "TrimSpace (ph_ChildCellId req) = child"
      "ph_HandoffToken req = parent @ '':'' @ playerID @ '':'' @ Itoa (clock g)"
    using assms(3,4) by (simp_all add: req_def split_player_request_def apart_def)
  have "andThen (registry_call env (sw_registryAddr cfg) (ForwardPlayerHandoff env (Some req))) (\<lambda>_. give ()) g = (Inr u, g')"
    using assms(1) by (simp add: forwardPlayerHandoff_def req_def)
  then obtain resp g1 where r: "registry_call env (sw_registryAddr cfg) (ForwardPlayerHandoff env (Some req)) g = (Inr resp, g1)" "g1 = g'"
    by (auto simp: give_def elim!: andThen_InrE)
  then have f: "ForwardPlayerHandoff env (Some req) g = (Inr resp, g')" using registry_quiet[OF assms(2) r(1)] by simp
  have ne: "child \<noteq> parent" using f q by (auto simp: ForwardPlayerHandoff_def Let_def fail_def split: if_splits)
  have par: "address env (reg g) (TrimSpace (ph_ParentCellId req)) = Some P" using q(1) assms(3) by (simp add: apart_def)
  have chi: "address env (reg g) (TrimSpace (ph_ChildCellId req)) \<noteq> Some P" using q(2) assms(3) ne by (simp add: apart_def)
  have tok: "\<forall>e s. servers g e = Some s \<longrightarrow> finite (dom (playerByID s)) \<and> TrimSpace (ph_HandoffToken req) \<notin> dom (acceptedByTk s)"
    using assms(5) unfolding q(3) unused_def by blast
  obtain ep s where "address env (reg g) child = Some ep" "servers g' ep = Some s" "occupied s"
    using player_handoff_occupies[OF f assms(2) par chi tok] q(2) by auto
  then show ?thesis using chi q(2) by auto
qed

lemma hand_over_occupies:
  assumes "hand_over env cfg parent attempt ready cand g = (Inr u, g')" "is_candidate cand" "turns g = []"
    and "apart env (reg g) parent P" "\<forall>e s. servers g e = Some s \<longrightarrow> finite (dom (playerByID s)) \<and> unused parent s"
  shows "\<exists>child \<in> ready. \<exists>ep s. address env (reg g) child = Some ep \<and> ep \<noteq> P \<and> servers g' ep = Some s \<and> occupied s"
proof -
  let ?p = "TrimSpace (mc_PlayerId cand)"
  obtain pos where pos: "mc_Position cand = Some pos" "?p \<noteq> []" using assms(2) by (auto simp: is_candidate_def)
  let ?resolve = "resolveTargetChildForPlayer env (vx pos) (vz pos) ready"
  obtain target g1 where t: "?resolve g = (Inr target, g1)" and
    f: "doing (split_event env parent ''player_handoff_running'' attempt (Said [Text ''forward player handoff'']) target [''player_id'' \<mapsto> ?p] False)
      (forwardPlayerHandoff env cfg parent target ?p (''auto-split-player-attempt-'' @ Itoa attempt)) g1 = (Inr u, g')"
    using assms(1) pos by (auto simp: hand_over_def Let_def wrapping_Inr on_error_Inr doing_def elim!: andThen_InrE)
  have g1: "g1 = g" using resolve_same[of env "vx pos" "vz pos" ready g] t by simp
  have tt: "target \<in> ready" "TrimSpace target = target"
    using t by (auto simp: resolveTargetChildForPlayer_def fail_def give_def split: sum.splits prod.splits option.splits bool.splits if_splits)
  define g2 where "g2 = split_event env parent ''player_handoff_running'' attempt (Said [Text ''forward player handoff'']) target [''player_id'' \<mapsto> ?p] False g"
  have s2: "turns g2 = turns g" "reg g2 = reg g" "servers g2 = servers g"
    by (simp_all add: g2_def split_event_def split_publish_def)
  have f2: "forwardPlayerHandoff env cfg parent target ?p (''auto-split-player-attempt-'' @ Itoa attempt) g2 = (Inr u, g')"
    using f by (simp add: doing_def g1 g2_def)
  have "\<exists>ep s. address env (reg g2) target = Some ep \<and> ep \<noteq> P \<and> servers g' ep = Some s \<and> occupied s"
    by (rule forward_player_occupies[OF f2]) (use assms(3,4,5) s2 tt in simp_all)
  then show ?thesis using tt(1) s2(2) by auto
qed

text \<open>The NPCs are not handed to it.\<close>

lemma npc_handoffs_refused:
  assumes "npc_handoffs env cfg parent attempt ready g = (Inr u, g')" "held c up (occupied_at P ep) g" "ep \<noteq> P" "ep \<in> up"
    and "child \<in> set ready" "address env c child = Some ep"
  shows False
  using assms(1,2,5)
proof (induction ready arbitrary: g)
  case (Cons i rest)
  define g1 where "g1 = split_event env parent ''handoff_running'' attempt (Said [Text ''forward npc handoff'']) i Map.empty False g"
  have h1: "held c up (occupied_at P ep) g1" using Cons.prems(2) by (simp add: g1_def)
  obtain x g2 where f: "forwardHandoff env cfg parent i (''auto-split-attempt-'' @ Itoa attempt) g1 = (Inr x, g2)"
    and r: "npc_handoffs env cfg parent attempt rest g2 = (Inr u, g')"
    using Cons.prems(1) by (auto simp: doing_def wrapping_Inr on_error_Inr g1_def elim!: andThen_InrE)
  let ?req = "\<lparr>nh_ParentCellId = parent, nh_ChildCellId = i, nh_Reason = ''auto-split-attempt-'' @ Itoa attempt\<rparr>"
  obtain resp where n: "ForwardNpcHandoff env (Some ?req) g1 = (Inr resp, g2)"
    using f registry_quiet heldD(1)[OF h1] by (fastforce simp: forwardHandoff_def give_def elim!: andThen_InrE)
  show ?case
  proof (cases "i = child")
    case True
    then show ?thesis using npc_handoff_refused[OF n h1 assms(3,4)] assms(6) by simp
  next
    case False
    have "keeps (held c up (occupied_at P ep)) (ForwardNpcHandoff env (Some ?req))" by (rule occupants.npc_held)
    from keeps_apply[OF this h1] have "held c up (occupied_at P ep) g2" using n by simp
    then show ?thesis using Cons.IH[OF r] Cons.prems(3) False by auto
  qed
qed simp

text \<open>The parent as the workflow finds it is the parent as the registry dials it.\<close>

lemma find_parent_address:
  assumes "find_parent env i g = (Inr p, g')" "catalog_of env = Some (wf_catalog env)" "address env (reg g) i = Some P"
  shows "cs_GrpcEndpoint p = P"
  using assms by (auto simp: find_parent_def address_def fail_def give_def split: sum.splits prod.splits option.splits bool.splits if_splits)

lemma ping_counts:
  assumes "pingCellStats env ep g = (Inr st, g')" "turns g = []" "servers g ep = Some s"
  shows "fst st = to_int32 (int (PlayerCount s))"
proof -
  have "\<exists>r. dialled_call env ep (\<lambda>now s. (Ping (unix_ms now) s, s)) g = (Inr r, g') \<and> fst st = ping_PlayerCount r"
    using assms(1) by (auto simp: pingCellStats_def give_def elim!: andThen_InrE)
  then have "\<exists>r. call ep (\<lambda>now s. (Ping (unix_ms now) s, s)) g = (Inr r, g') \<and> fst st = ping_PlayerCount r"
    by (auto simp: dialled_call_def fail_def split: option.splits)
  then have "fst st = ping_PlayerCount (Ping (unix_ms (clock g)) s)"
    using assms(2,3) by (auto simp: call_def next_turn_def)
  then show ?thesis by (simp add: Ping_def Let_def split: option.splits)
qed

lemma ping_parent_counts:
  assumes "pingParentStats env parent g = (Inr st, g')" "turns g = []" "servers g P = Some s" "TrimSpace P = P"
    and "catalog_of env = Some (wf_catalog env)" "address env (reg g) parent = Some P"
  shows "fst st = to_int32 (int (PlayerCount s))"
proof -
  obtain p g1 where p: "find_parent env parent g = (Inr p, g1)"
    and q: "pingCellStats env (TrimSpace (cs_GrpcEndpoint p)) g1 = (Inr st, g')"
    using assms(1) by (auto simp: pingParentStats_def fail_def elim!: andThen_InrE split: if_splits)
  have "g1 = g" using find_parent_same[of env parent g] p by simp
  then show ?thesis using ping_counts[of env P g st g' s] find_parent_address[OF p assms(5,6)] assms(2-4) q by simp
qed

text \<open>What is known of every server before the first player is moved.\<close>

definition untouched :: "string \<Rightarrow> string \<Rightarrow> nat \<Rightarrow> string \<Rightarrow> Server \<Rightarrow> bool" where
  "untouched parent P n ep s \<longleftrightarrow> finite (dom (playerByID s)) \<and> unused parent s \<and> (ep = P \<longrightarrow> PlayerCount s = n)"

lemma untouched_dry_run: "keeps (held c up (untouched parent P n)) (runMigrationDryRun env cfg i)"
  unfolding runMigrationDryRun_def ForwardCellUpdate_def
  by (auto intro!: keeps_andThen held_registry held_update simp: untouched_def unused_def PlayerCount_def Update_kept)

lemma split_players_occupies:
  assumes "split_players env cfg parent attempt ready g = (Inr u, g')" "held c up (untouched parent P n) g" "P \<in> up"
    and "apart env c parent P" "TrimSpace P = P" "catalog_of env = Some (wf_catalog env)" "0 < n" "n < 2 ^ 31"
  shows "\<exists>child \<in> set ready. \<exists>ep. address env c child = Some ep \<and> ep \<noteq> P \<and> ep \<in> up \<and> held c up (occupied_at P ep) g'"
proof -
  let ?Q = "held c up (untouched parent P n)"
  obtain g1 cands g2 before g3 where r1: "runMigrationDryRun env cfg parent g = (Inr (), g1)"
    and r2: "listPlayerCandidates env parent g1 = (Inr cands, g2)"
    and r3: "pingParentStats env parent g2 = (Inr before, g3)"
    and r4: "(case validateParentPlayerHandoffReadiness (fst before) (uniquePlayerCandidatesCount cands) of
         Some e \<Rightarrow> doing (split_event env parent ''player_handoff_preflight_failed'' attempt (ErrorText e) []
             [''parent_player_count'' \<mapsto> Itoa (fst before),
              ''player_candidate_count'' \<mapsto> Itoa (uniquePlayerCandidatesCount cands)] False) (fail e)
       | None \<Rightarrow>
           if cands = [] then give ()
           else doing (split_event env parent ''player_handoffs_running'' attempt
               (Said [Text (''player candidates='' @ Itoa (int (length cands)))]) [] Map.empty False)
             (hand_over_all env cfg parent attempt (set ready) cands)) g3 = (Inr u, g')"
    using assms(1) by (auto simp: split_players_def wrapping_Inr elim!: andThen_InrE)
  have h1: "?Q g1" using keeps_apply[OF untouched_dry_run[of c up parent P n env cfg parent] assms(2)] r1 by simp
  have h2: "?Q g2" using keeps_apply[OF held_reads(3)[of c up _ env parent] h1] r2 by simp
  have h3: "?Q g3" using keeps_apply[OF held_reads(2)[of c up _ env parent] h2] r3 by simp
  obtain s where s: "servers g2 P = Some s" using h2 assms(3) by (auto simp: held_def)
  have "PlayerCount s = n" using heldD(3)[OF h2 s] by (simp add: untouched_def)
  then have "fst before = int n"
    using ping_parent_counts[OF r3 heldD(1)[OF h2] s assms(5,6)] heldD(2)[OF h2] assms(4,8) by (simp add: apart_def to_int32_def)
  then have v: "validateParentPlayerHandoffReadiness (fst before) (uniquePlayerCandidatesCount cands) = None" "uniquePlayerCandidatesCount cands > 0"
    using r4 assms(7) by (auto simp: validateParentPlayerHandoffReadiness_def fail_def doing_def split: if_splits)
  then obtain d ds where cands: "cands = d # ds" by (cases cands) (auto simp: uniquePlayerCandidatesCount_def)
  have cand: "is_candidate d"
  proof -
    have "\<forall>x \<in> set cands. is_candidate x" using r2 by (auto simp: listPlayerCandidates_def give_def elim!: andThen_InrE)
    then show ?thesis by (simp add: cands)
  qed
  define g4 where "g4 = split_event env parent ''player_handoffs_running'' attempt
      (Said [Text (''player candidates='' @ Itoa (int (length cands)))]) [] Map.empty False g3"
  have h4: "?Q g4" using h3 by (simp add: g4_def)
  obtain g5 where o: "hand_over env cfg parent attempt (set ready) d g4 = (Inr (), g5)"
    and more: "hand_over_all env cfg parent attempt (set ready) ds g5 = (Inr u, g')"
    using r4 v(1) cands by (auto simp: g4_def doing_def elim!: andThen_InrE)
  have all: "\<forall>e s. servers g4 e = Some s \<longrightarrow> finite (dom (playerByID s)) \<and> unused parent s"
    using heldD(3)[OF h4] by (auto simp: untouched_def)
  have ap: "apart env (reg g4) parent P" using assms(4) heldD(2)[OF h4] by simp
  obtain child ep t where c: "child \<in> set ready" "address env (reg g4) child = Some ep" "ep \<noteq> P"
      "servers g5 ep = Some t" "occupied t"
    using hand_over_occupies[OF o cand heldD(1)[OF h4] ap all] by auto
  have "held c up (\<lambda>ep s. finite (dom (playerByID s))) g4" using h4 by (auto simp: held_def untouched_def)
  from keeps_apply[OF finite_players.hand_over_held[OF assms(4), of up cfg attempt "set ready" d] this]
  have "held c up (\<lambda>ep s. finite (dom (playerByID s))) g5" using o by simp
  then have h5: "held c up (occupied_at P ep) g5" "ep \<in> up" using c(4,5) by (auto simp: held_def occupied_at_def)
  from keeps_apply[OF occupants.hand_over_all_held[OF assms(4), of up ep cfg attempt "set ready" ds] h5(1)]
  have "held c up (occupied_at P ep) g'" using more by simp
  then show ?thesis using c(1,2,3) h5(2) heldD(2)[OF h4] by auto
qed

text \<open>
  C24: A split of a cell with players cannot succeed. When nobody else acts and no call is lost, if the
  parent has players, then after planning, creating and draining, moving its population to the
  children ends in an error whatever children are ready: a child that has received a player refuses
  the import of the NPCs, which comes second. The parent then stays drained.
\<close>

theorem split_move_with_players_fails:
  assumes "turns g = []" "catalog_of env = Some (wf_catalog env)"
    and "apart env (reg g) parent P" "TrimSpace P = P" "servers g P = Some s" "0 < PlayerCount s" "PlayerCount s < 2 ^ 31" "splitDrain s"
    and "\<forall>e s. servers g e = Some s \<longrightarrow> finite (dom (playerByID s)) \<and> unused parent s"
  shows "\<exists>e g' s'. split_move env cfg parent attempt ready g = (Inl e, g') \<and> servers g' P = Some s' \<and> splitDrain s'"
proof -
  obtain res g' where m: "split_move env cfg parent attempt ready g = (res, g')" by (cases "split_move env cfg parent attempt ready g")
  have "held (reg g) (dom (servers g)) (drained_at P) g" using assms(1,5,8) by (auto simp: held_def drained_at_def)
  from keeps_apply[OF drain.split_move_held[OF assms(3), of _ cfg attempt ready] this] have "held (reg g) (dom (servers g)) (drained_at P) g'" using m by simp
  then have d: "\<exists>s'. servers g' P = Some s' \<and> splitDrain s'" using assms(5) by (force simp: held_def drained_at_def)
  have "res \<noteq> Inr u" for u
  proof
    assume "res = Inr u"
    then obtain g1 stats g2 where r1: "split_players env cfg parent attempt ready g = (Inr (), g1)"
      and r2: "pingParentStats env parent g1 = (Inr stats, g2)" and r3: "npc_handoffs env cfg parent attempt ready g2 = (Inr u, g')"
      using m by (auto simp: split_move_def wrapping_Inr Let_def doing_def fail_def elim!: andThen_InrE split: if_splits)
    have h: "held (reg g) (dom (servers g)) (untouched parent P (PlayerCount s)) g"
      using assms(1,5,9) by (auto simp: held_def untouched_def)
    have P: "P \<in> dom (servers g)" using assms(5) by blast
    obtain child ep where c: "child \<in> set ready" "address env (reg g) child = Some ep" "ep \<noteq> P" "ep \<in> dom (servers g)"
        "held (reg g) (dom (servers g)) (occupied_at P ep) g1"
      using split_players_occupies[OF r1 h P assms(3,4,2,6,7)] by blast
    from keeps_apply[OF held_reads(2)[of _ _ _ env parent] c(5)] have "held (reg g) (dom (servers g)) (occupied_at P ep) g2" using r2 by simp
    then show False using npc_handoffs_refused[OF r3 _ c(3,4,1,2)] by blast
  qed
  then show ?thesis using m d by (cases res) auto
qed

end
