(* ===== verification/Policy_Demo.thy ===== *)
theory Policy_Demo
  imports Policy_Rounds Merge_Demo
begin

text \<open>
  The settings the parsers can yield, and the load policy at work: one overloaded cell, the merge
  group of \<open>Merge_Demo\<close> when it is idle.
\<close>

section \<open>Settings\<close>

lemma positive_int_pos: "n0 \<ge> 1 \<Longrightarrow> positive_int st name n0 \<ge> 1"
  by (simp add: positive_int_def Let_def)

lemma positive_int_nonneg: "positive_int st name 0 \<ge> 0"
  by (simp add: positive_int_def Let_def)

lemma positive_duration_pos: "d0 > 0 \<Longrightarrow> positive_duration st name d0 > 0"
  by (simp add: positive_duration_def Let_def)

lemma nonneg_duration_nonneg: "d0 \<ge> 0 \<Longrightarrow> nonneg_duration st name d0 \<ge> 0"
  by (simp add: nonneg_duration_def Let_def split: option.split)

lemma firstNonEmpty_last: "TrimSpace z \<noteq> [] \<Longrightarrow> firstNonEmpty [x, z] \<noteq> []"
  by simp

text \<open>
  Whatever the environment holds, the workflows retry at least once, wait positive times between
  attempts and for the children, and have an address for the registry; the limits of the load policy
  are not negative and the probe runs at most once a second.
\<close>

theorem parsed_settings:
  "sw_maxRetries (parseSplitWorkflowConfig st) \<ge> 1 \<and> sw_initialBackoff (parseSplitWorkflowConfig st) > 0 \<and>
   sw_maxBackoff (parseSplitWorkflowConfig st) > 0 \<and> sw_waitChildren (parseSplitWorkflowConfig st) > 0 \<and>
   sw_maxConcurrent (parseSplitWorkflowConfig st) \<ge> 0 \<and> is_int32 (sw_maxLevel (parseSplitWorkflowConfig st)) \<and>
   sw_registryAddr (parseSplitWorkflowConfig st) \<noteq> [] \<and> [] \<notin> sw_blockedCells (parseSplitWorkflowConfig st) \<and>
   mw_maxRetries (parseMergeWorkflowConfig st) \<ge> 1 \<and> mw_initialBackoff (parseMergeWorkflowConfig st) > 0 \<and>
   mw_maxBackoff (parseMergeWorkflowConfig st) > 0 \<and> mw_maxPlayersMove (parseMergeWorkflowConfig st) \<ge> 1 \<and>
   mw_registryAddr (parseMergeWorkflowConfig st) \<noteq> [] \<and>
   minBreachDuration (parseLoadPolicyConfig st) \<ge> 0 \<and> cooldown (parseLoadPolicyConfig st) \<ge> 0 \<and>
   cellProbeInterval st \<ge> second"
proof -
  have addr: "TrimSpace ''127.0.0.1:9100'' \<noteq> []" by (simp add: TrimSpace_trimmed trimmedI ascii_graph_def)
  have "cellProbeInterval st \<ge> second" by (simp add: cellProbeInterval_def Let_def split: option.split)
  then show ?thesis
    using addr
    by (simp add: parseSplitWorkflowConfig_def parseMergeWorkflowConfig_def parseLoadPolicyConfig_def
        positive_int_pos positive_int_nonneg positive_duration_pos nonneg_duration_nonneg parseCellIDSet_def
        del: One_nat_def)
qed

text \<open>A maximum level past the range of \<open>int32\<close> is read as a negative one, which is no limit.\<close>

lemma max_level_wraps:
  assumes "parseIntWithDefault (env_lookup st ''MMO_GRID_SPLIT_MAX_LEVEL'') 0 = 2147483648"
  shows "sw_maxLevel (parseSplitWorkflowConfig st) = - 2147483648"
  using assms by (simp add: parseSplitWorkflowConfig_def positive_int_def to_int32_def)

section \<open>An overloaded cell\<close>

definition crowd :: World where
  "crowd = NewWorld\<lparr>nextID := 2, alive := {1, 2}\<rparr>"

definition crowded :: Server where
  "crowded = new_server ''root'' None 0 (NewRuntime\<lparr>world := crowd\<rparr>)"

definition demo_policy :: loadPolicyConfig where
  "demo_policy = \<lparr>minBreachDuration = 20 * second, cooldown = 2 * minute, autoSplitDrain = True, autoMergeWorkflow = True,
     mergePlayerHandoff = False, mergeLowLoadFor = 3 * minute, mergeCooldown = 6 * minute, mergeMaxPlayers = Fin 0,
     mergeHandoffMaxPlayers = Fin 32, mergeMaxEntities = Fin 300, mergeMaxTickSec = Fin 1\<rparr>"

definition demo_split :: splitWorkflowConfig where
  "demo_split = \<lparr>sw_enabled = True, sw_registryAddr = ''registry'', sw_maxRetries = 4, sw_initialBackoff = second,
     sw_maxBackoff = 12 * second, sw_waitChildren = 90 * second, sw_maxLevel = 0, sw_maxConcurrent = 2, sw_blockedCells = {}\<rparr>"

definition demo_merge :: mergeWorkflowConfig where
  "demo_merge = \<lparr>mw_enabled = True, mw_registryAddr = ''registry'', mw_maxRetries = 3, mw_initialBackoff = second,
     mw_maxBackoff = 10 * second, mw_blockedParents = {}, mw_playerHandoff = False, mw_maxPlayersMove = 32\<rparr>"

text \<open>The catalog of the witnesses lists the one name \<open>root\<close> while it is registered.\<close>

definition root_catalog :: "Memory Catalog" where
  "root_catalog = MemoryCatalog (\<lambda>m. if cells m ''root'' = None then [] else [''root''])"

definition policy_demo_env :: "Memory policy_env" where
  "policy_demo_env = \<lparr>catalog_of = Some root_catalog, js = demo_json, dial_error = (\<lambda>ep. None),
     visit_live = (\<lambda>s. []), visit_names = (\<lambda>s. []), visit_prepared = (\<lambda>s. []),
     getenv = (\<lambda>name. []), natsConnected = False, redisSet = (\<lambda>k st store. (None, store)),
     policy_cfg = demo_policy, split_cfg = Some demo_split, merge_cfg = Some demo_merge,
     thresholds = \<lparr>maxPlayers = 200, maxEntities = 1, maxTickSec = Fin 1\<rparr>,
     policy_nats = False, bus_error = (\<lambda>subject t. None), policy_subject = ''commands''\<rparr>"

definition policy_demo_grid :: "Memory \<Rightarrow> (string \<rightharpoonup> cellPolicyState) \<Rightarrow> Memory PolicyGrid" where
  "policy_demo_grid m st = \<lparr>reg = m, servers = [''root'' \<mapsto> crowded], turns = [], clock = 0, mergeInFlight = {},
     mergeEvents = [], mergeStates = Map.empty, cellStates = st, mgStates = Map.empty, splitActive = {}, mergeActive = {},
     spawned = [], policyEvents = [], counted = [], gauges = Map.empty, tracked = {}\<rparr>"

definition root_memory :: "string \<Rightarrow> Memory" where
  "root_memory ep = \<lparr>cells = [''root'' \<mapsto> \<lparr>cs_Id = ''root'', cs_Level = 0, cs_Bounds = Some world_bounds, cs_GrpcEndpoint = ep\<rparr>]\<rparr>"

definition demo_sample :: policySample where
  "demo_sample = \<lparr>ps_cellID = ''root'', ps_endpoint = ''root'', ps_level = 0, ps_reachable = False,
     ps_players = Fin 0, ps_entities = Fin 0, ps_tickSec = Fin 0, ps_violations = Map.empty\<rparr>"

definition overload :: "(int \<times> policySample \<times> f64) list" where
  "overload = [(0, demo_sample, Fin 0), (20 * second, demo_sample, Fin 0), (140 * second, demo_sample, Fin 0)]"

lemma overload_acts:
  "acted_at policy_demo_env overload (policy_demo_grid NewMemory Map.empty) 1"
  "acted_at policy_demo_env overload (policy_demo_grid NewMemory Map.empty) 2"
  by (simp_all add: acted_at_gate overload_def load.acts_def load.after_def observe_gate_cases state_of_def
      policy_demo_grid_def policy_demo_env_def demo_policy_def demo_sample_def numeral_2_eq_2)

theorem load_policy_restraint_witness:
  "acted_at policy_demo_env overload (policy_demo_grid NewMemory Map.empty) 1 \<and>
   acted_at policy_demo_env overload (policy_demo_grid NewMemory Map.empty) 2 \<and>
   2 * minute \<le> fst (overload ! 2) - fst (overload ! 1)"
  using load_policy_restraint[of "policy_demo_grid NewMemory Map.empty" overload 2 policy_demo_env "''root''"] overload_acts
  by (simp add: policy_demo_grid_def overload_def demo_sample_def policy_demo_env_def demo_policy_def)

text \<open>A round that finds the cell overloaded since half a minute starts its split.\<close>

definition half_minute_ago :: "string \<rightharpoonup> cellPolicyState" where
  "half_minute_ago = [''root'' \<mapsto> \<lparr>breachSince = Some (- 30 * second), lastAction = None\<rparr>]"

abbreviation demo_round :: "Memory PolicyGrid" where
  "demo_round \<equiv> runRound policy_demo_env (policy_demo_grid (root_memory ''root'') half_minute_ago)"

lemma trim_root [simp]: "TrimSpace ''root'' = ''root''"
  by (simp add: TrimSpace_trimmed trimmedI ascii_graph_def)

lemma root_listing:
  "ListAll root_catalog (root_memory ep) =
     Inr [Some \<lparr>cs_Id = ''root'', cs_Level = 0, cs_Bounds = Some world_bounds, cs_GrpcEndpoint = ep\<rparr>]"
  "ListAll root_catalog NewMemory = Inr []"
  by (simp_all add: root_catalog_def MemoryCatalog_def MemoryCatalog_List_def List_def root_memory_def cloneSpec_def NewMemory_def)

lemma demo_env_sel [simp]:
  "catalog_of policy_demo_env = Some root_catalog" "dial_error policy_demo_env ep = None"
  "policy_cfg policy_demo_env = demo_policy" "split_cfg policy_demo_env = Some demo_split"
  "merge_cfg policy_demo_env = Some demo_merge" "policy_nats policy_demo_env = False"
  "thresholds policy_demo_env = \<lparr>maxPlayers = 200, maxEntities = 1, maxTickSec = Fin 1\<rparr>"
  by (simp_all add: policy_demo_env_def)

lemma demo_split_sel [simp]:
  "sw_enabled demo_split" "sw_blockedCells demo_split = {}" "sw_maxLevel demo_split = 0" "sw_maxConcurrent demo_split = 2"
  by (simp_all add: demo_split_def)

lemma demo_policy_sel [simp]:
  "minBreachDuration demo_policy = 20 * second" "cooldown demo_policy = 2 * minute" "autoSplitDrain demo_policy"
  "mergeLowLoadFor demo_policy = 3 * minute"
  by (simp_all add: demo_policy_def)

lemma demo_grid_sel [simp]:
  "reg (policy_demo_grid m st) = m" "servers (policy_demo_grid m st) = [''root'' \<mapsto> crowded]"
  "turns (policy_demo_grid m st) = []" "clock (policy_demo_grid m st) = 0" "cellStates (policy_demo_grid m st) = st"
  "splitActive (policy_demo_grid m st) = {}" "mergeActive (policy_demo_grid m st) = {}"
  "spawned (policy_demo_grid m st) = []" "gauges (policy_demo_grid m st) = Map.empty"
  "tracked (policy_demo_grid m st) = {}" "mgStates (policy_demo_grid m st) = Map.empty"
  by (simp_all add: policy_demo_grid_def)

lemma crowded_ping:
  "ping_PlayerCount (Ping t crowded) = 0" "ping_EntityCount (Ping t crowded) = 2"
  by (simp_all add: Ping_def crowded_def new_server_def crowd_def EntityCount_def PlayerCount_def to_int32_def Let_def)

lemma crowded_eval: "fst (evalLoadThresholds True (Fin 0) (Fin 2) tick \<lparr>maxPlayers = 200, maxEntities = 1, maxTickSec = Fin 1\<rparr>) = Fin 0"
  by (simp add: evalLoadThresholds_def of_int_f64_def flt_def Let_def)

lemma demo_probe:
  assumes "st ''root'' = Some \<lparr>breachSince = Some (- 30 * second), lastAction = None\<rparr>"
  shows "splitActive (snd (fold (probe_cell policy_demo_env)
      [Some \<lparr>cs_Id = ''root'', cs_Level = 0, cs_Bounds = Some world_bounds, cs_GrpcEndpoint = ''root''\<rparr>]
      (Map.empty, policy_demo_grid m st))) = {''root''}"
proof -
  let ?g = "policy_demo_grid m st"
  have "call ''root'' (\<lambda>now s. (Ping (unix_ms now) s, s)) ?g = (Inr (Ping (unix_ms 0) crowded), ?g)"
    by (subst call_quiet[where s = crowded and r = "Ping (unix_ms 0) crowded" and s' = crowded])
       (simp_all add: policy_demo_grid_def)
  then obtain tick tps where p: "pingCell policy_demo_env ''root'' ?g = ((True, Fin 0, Fin 2, tick, tps), ?g)"
    by (simp add: pingCell_def crowded_ping of_int_f64_def)
  obtain viol where ev: "evalLoadThresholds True (Fin 0) (Fin 2) tick \<lparr>maxPlayers = 200, maxEntities = 1, maxTickSec = Fin 1\<rparr> = (Fin 0, viol)"
    using crowded_eval[of tick] by (metis prod.collapse)
  show ?thesis
    using assms by (simp add: probe_cell_def p ev observe_acted gate_result_def observe_gate_cases state_of_def observe_action_def
        acted_grid_def split_maybeStart_def Let_def split: prod.split)
qed

lemma demo_round_started: "splitActive demo_round = {''root''}"
proof -
  let ?cs = "[Some \<lparr>cs_Id = ''root'', cs_Level = 0, cs_Bounds = Some world_bounds, cs_GrpcEndpoint = ''root''\<rparr>]"
  obtain s g1 where f: "fold (probe_cell policy_demo_env) ?cs (Map.empty, policy_demo_grid (root_memory ''root'') half_minute_ago) = (s, g1)"
    by (cases "fold (probe_cell policy_demo_env) ?cs (Map.empty, policy_demo_grid (root_memory ''root'') half_minute_ago)")
  have "splitActive g1 = {''root''}" using demo_probe[of half_minute_ago "root_memory ''root''"] f by (simp add: half_minute_ago_def)
  moreover have "splitActive (observeMergeCandidates policy_demo_env ?cs s g1) = splitActive g1"
    by (auto simp: observeMergeCandidates_def observe_parent_def Let_def split: sum.split prod.split)
  moreover have "demo_round = drop_untracked (in_catalog ?cs) (observeMergeCandidates policy_demo_env ?cs s g1)"
    unfolding runRound_def demo_env_sel demo_grid_sel root_listing option.case sum.case f Let_def prod.case by (rule HOL.refl)
  ultimately show ?thesis by (simp add: drop_untracked_def)
qed

theorem workflows_exclusive_witness:
  "splitActive demo_round = {''root''} \<and> splitActive demo_round = {i. Split_run i \<in> set (spawned demo_round)} \<and>
   distinct (spawned demo_round)"
  using workflows_exclusive[OF policy_run.round[OF policy_run.start], of "policy_demo_grid (root_memory ''root'') half_minute_ago"
      policy_demo_env] demo_round_started
  by simp

theorem runRound_gauges_witness: "tracked demo_round = {''root''} \<and> dom (gauges demo_round) = {''root''}"
  using runRound_gauges[OF demo_env_sel(1), of "policy_demo_grid (root_memory ''root'') half_minute_ago"] root_listing(1)[of "''root''"]
  by simp

text \<open>The cell loses its endpoint, leaves, comes back and is overloaded once.\<close>

definition late :: "(string \<rightharpoonup> cellPolicyState) \<Rightarrow> Memory PolicyGrid" where
  "late st = (runRound policy_demo_env ((runRound policy_demo_env (policy_demo_grid (root_memory []) st))
     \<lparr>reg := NewMemory, clock := minute\<rparr>))\<lparr>clock := 2 * minute\<rparr>"

theorem stale_breach_acts_witness:
  "counted (observe policy_demo_env demo_sample (Fin 0) (late half_minute_ago)) \<noteq> counted (late half_minute_ago)"
  by (rule stale_breach_acts[OF demo_env_sel(1), where i = "''root''" and later = "[]" and b = "- 30 * second" and ?c2.0 = NewMemory and
        g = "policy_demo_grid (root_memory []) half_minute_ago" and
        c = "\<lparr>cs_Id = ''root'', cs_Level = 0, cs_Bounds = Some world_bounds, cs_GrpcEndpoint = []\<rparr>"
        and ?t1.0 = minute and ?t2.0 = "2 * minute"])
     (auto simp: root_listing names_def half_minute_ago_def demo_sample_def late_def)

section \<open>An idle merge group\<close>

definition idle_sample :: policySample where
  "idle_sample = demo_sample\<lparr>ps_reachable := True\<rparr>"

definition merge_demo_policy :: "Memory PolicyGrid" where
  "merge_demo_policy = (policy_demo_grid merge_world Map.empty)
     \<lparr>clock := 3 * minute, mgStates := [''cell_root'' \<mapsto> \<lparr>breachSince = Some 0, lastAction = None\<rparr>]\<rparr>"

lemma spawned_parent: "x \<in> set (spawned g) \<Longrightarrow> x \<in> set (spawned (observe_parent env mw listed specs samples now oc g))"
  by (auto simp: observe_parent_def merge_maybeStart_def Let_def split: option.split sum.split prod.split)

lemma spawned_parents:
  "x \<in> set (spawned g) \<Longrightarrow> x \<in> set (spawned (fold (observe_parent env mw listed specs samples now) cs g))"
  by (induction cs arbitrary: g) (auto intro: spawned_parent)

lemma spawned_first:
  "cs = oc # rest \<Longrightarrow> x \<in> set (spawned (observe_parent env mw listed specs samples now oc g)) \<Longrightarrow>
     x \<in> set (spawned (fold (observe_parent env mw listed specs samples now) cs g))"
  by (simp add: spawned_parents)

lemma merge_children_simps:
  "map cs_Id merge_children = merge_names" "\<forall>c \<in> set merge_children. cs_Level c = 1 \<and> cs_Bounds c \<noteq> None"
  by (auto simp: merge_children_def registered_def world_child_names merge_names_def)

lemma merge_specs:
  "ch \<in> set merge_children \<Longrightarrow> specs_by_id merge_listing (TrimSpace (cs_Id ch)) = Some ch"
  using merge_names_trimmed
  by (auto simp: specs_by_id_def merge_listing_def merge_children_def registered_def world_child_names merge_names_def)

lemma merge_levels:
  "Some c \<in> set merge_listing \<Longrightarrow> fst (CellPathLevel (TrimSpace (cs_Id c))) \<le> 1"
proof -
  have lv: "fst (CellPathLevel (TrimSpace (path_id p))) = int (length p)" if "valid_path p" "length p \<le> 1" for p
    using that by (simp add: CellPathLevel_def ParseCellPathID_TrimSpace ParseCellPathID_path_id to_int32_def)
  assume "Some c \<in> set merge_listing"
  then have "cs_Id c \<in> path_id ` {[], [0], [1], [2], [3]}"
    by (auto simp: merge_listing_def registered_def path_id_def[of "[]"])
  then obtain p where "cs_Id c = path_id p" "p \<in> {[], [0], [1], [2], [3]}" by blast
  moreover have "valid_path p" "length p \<le> 1" using calculation(2) by (auto simp: valid_path_def)
  ultimately show ?thesis using lv by simp
qed

lemma merge_no_descendants: "\<not> has_descendants merge_listing ids 1"
proof
  assume "has_descendants merge_listing ids 1"
  then obtain c where "Some c \<in> set merge_listing" "fst (CellPathLevel (TrimSpace (cs_Id c))) > 1"
    by (auto simp: has_descendants_def list_ex_iff case_prod_unfold Let_def split: option.splits)
  then show False using merge_levels by fastforce
qed

lemma merge_group_idle:
  "fst (mergeGroupLowLoad demo_policy merge_listing (specs_by_id merge_listing) (\<lambda>i. Some idle_sample) 0 merge_children)"
proof -
  have "calm_child demo_policy (specs_by_id merge_listing) (\<lambda>i. Some idle_sample) 1 ch" if "ch \<in> set merge_children" for ch
  proof -
    have "cs_Id ch \<in> set merge_names" using that merge_children_simps(1) by (metis image_eqI list.set_map)
    then have "TrimSpace (cs_Id ch) = cs_Id ch" "cs_Id ch \<noteq> []" using merge_names_trimmed(2) by (auto simp: merge_names_def)
    moreover have "calm_sample demo_policy idle_sample"
      by (simp add: calm_sample_def idle_sample_def demo_sample_def demo_policy_def exceeds_def flt_def)
    ultimately show ?thesis using merge_specs[OF that] merge_children_simps(2) that by (simp add: calm_child_def)
  qed
  then show ?thesis by (simp add: mergeGroupLowLoad_calm merge_no_descendants to_int32_def) (simp add: demo_policy_def)
qed

theorem observeMergeCandidates_starts_witness:
  "merge_due policy_demo_env demo_merge merge_listing (\<lambda>i. Some idle_sample) (3 * minute)
     [''cell_root'' \<mapsto> \<lparr>breachSince = Some 0, lastAction = None\<rparr>] ''cell_root''"
proof -
  let ?s = "\<lambda>i. Some idle_sample" and ?sp = "specs_by_id merge_listing" and ?g = merge_demo_policy
  obtain r csv pt et where low: "mergeGroupLowLoad demo_policy merge_listing ?sp ?s 0 merge_children = (True, r, csv, pt, et)"
    using merge_group_idle by (metis prod.collapse)
  have started: "Merge_run ''cell_root'' \<in> set (spawned (observe_parent policy_demo_env demo_merge merge_listing ?sp ?s (3 * minute)
      (Some world_parent) ?g))"
    using merge_names_trimmed(1) low
    by (simp add: observe_parent_def merge_demo_children merge_gate_def state_of_def merge_demo_policy_def
        merge_maybeStart_def demo_merge_def policy_publish_def Let_def)
  have "Merge_run ''cell_root'' \<in> set (spawned (fold (observe_parent policy_demo_env demo_merge merge_listing ?sp ?s (3 * minute))
      merge_listing ?g))"
    using spawned_first[OF _ started, of merge_listing] by (simp add: merge_listing_def)
  moreover have "observeMergeCandidates policy_demo_env merge_listing ?s ?g =
      (fold (observe_parent policy_demo_env demo_merge merge_listing ?sp ?s (3 * minute)) merge_listing ?g)
        \<lparr>mgStates := mgStates (fold (observe_parent policy_demo_env demo_merge merge_listing ?sp ?s (3 * minute)) merge_listing ?g)
           |` seen_parents merge_listing\<rparr>"
    by (simp add: observeMergeCandidates_def merge_demo_policy_def demo_policy_def Let_def)
  ultimately have "Merge_run ''cell_root'' \<in> set (spawned (observeMergeCandidates policy_demo_env merge_listing ?s ?g))"
    by simp
  from observeMergeCandidates_starts[OF demo_env_sel(5) _ this] show ?thesis
    by (simp add: merge_demo_policy_def)
qed

end
