(* ===== verification/Split_Demo.thy ===== *)
theory Split_Demo
  imports Split_Players Policy_Demo
begin

text \<open>
  The workflows in the world of \<open>Merge_Demo\<close>: the four children answer, and the parent still has a
  player.
\<close>

definition wf_env :: "Memory workflow_env" where
  "wf_env =
     \<lparr>catalog_of = Some merge_catalog, js = merge_json, dial_error = (\<lambda>ep. None),
      visit_live = visit_live unit_env, visit_names = (\<lambda>s. []), visit_prepared = (\<lambda>s. []),
      getenv = getenv unit_env, natsConnected = True, redisSet = (\<lambda>k st store. (None, store(k \<mapsto> st))),
      policy_cfg = demo_policy, split_cfg = Some demo_split, merge_cfg = Some demo_merge,
      thresholds = \<lparr>maxPlayers = 200, maxEntities = 1, maxTickSec = Fin 1\<rparr>,
      policy_nats = False, bus_error = (\<lambda>subject t. None), policy_subject = [],
      wf_catalog = merge_catalog, split_nats = True, merge_nats = True, split_redis = True, merge_redis = True,
      flush_error = (\<lambda>t. None), redis_error = (\<lambda>t. None), ctx_ends = None\<rparr>"

definition wf_grid :: "(string \<rightharpoonup> Server) \<Rightarrow> Memory WorkflowGrid" where
  "wf_grid ss = \<lparr>reg = merge_world, servers = ss, turns = [], clock = 0, mergeInFlight = {},
     mergeEvents = [], mergeStates = Map.empty, cellStates = Map.empty, mgStates = Map.empty, splitActive = {''cell_root''},
     mergeActive = {}, spawned = [], policyEvents = [], counted = [], gauges = Map.empty, tracked = {},
     splitEvents = [], mergeWfEvents = [], control = [], splitStore = Map.empty, retireStates = Map.empty\<rparr>"

lemma wf_env_demo: "wf_env = merge_demo_env (merge_env.more wf_env)"
  by (simp add: wf_env_def merge_demo_env_def)

lemma wf_env_sel [simp]:
  "catalog_of wf_env = Some merge_catalog" "js wf_env = merge_json" "dial_error wf_env = (\<lambda>ep. None)"
  "wf_catalog wf_env = merge_catalog" "split_nats wf_env" "merge_nats wf_env" "ctx_ends wf_env = None"
  "bus_error wf_env subject t = None" "flush_error wf_env t = None" "redis_error wf_env t = None"
  by (simp_all add: wf_env_def)

lemma wf_grid_sel [simp]:
  "reg (wf_grid ss) = merge_world" "servers (wf_grid ss) = ss" "turns (wf_grid ss) = []" "clock (wf_grid ss) = 0"
  by (simp_all add: wf_grid_def)

definition one_child :: ChildCellSpec where
  "one_child = \<lparr>cc_ID = ''cell_q0'', cc_Level = 1, cc_XMin = Fin 0, cc_XMax = Fin 1, cc_ZMin = Fin 0, cc_ZMax = Fin 1\<rparr>"

theorem waitChildrenReady_ends_witness:
  "clock (snd (waitChildrenReady wf_env demo_split [one_child] (wf_grid merge_demo_servers))) \<le> 92 * second"
  using waitChildrenReady_ends[of wf_env demo_split "[one_child]" "wf_grid merge_demo_servers"
      "fst (waitChildrenReady wf_env demo_split [one_child] (wf_grid merge_demo_servers))"
      "snd (waitChildrenReady wf_env demo_split [one_child] (wf_grid merge_demo_servers))"]
  by (simp add: demo_split_def)

theorem split_run_outcome_witness:
  "''cell_root'' \<notin> splitActive (snd (split_run wf_env demo_split ''cell_root'' (wf_grid merge_demo_servers)))"
  using split_run_outcome[of wf_env demo_split "''cell_root''" "wf_grid merge_demo_servers"
      "fst (split_run wf_env demo_split ''cell_root'' (wf_grid merge_demo_servers))"
      "snd (split_run wf_env demo_split ''cell_root'' (wf_grid merge_demo_servers))"]
  by (simp add: demo_split_def)

section \<open>A player left on the parent\<close>

definition crowded_servers :: "string \<rightharpoonup> Server" where
  "crowded_servers = merge_demo_servers(''a'' \<mapsto>
     (new_server ''cell_root'' None 0 NewRuntime)\<lparr>playerByID := [''ann'' \<mapsto> 1], splitDrain := True\<rparr>)"

lemma merge_ids: "FindCellByID (Inr merge_listing :: string + CellSpec option list) i = Inr (Some c, True) \<Longrightarrow>
    i = ''cell_root'' \<or> (i \<in> set merge_names \<and> cs_GrpcEndpoint c = i)"
  by (auto simp: FindCellByID_def merge_names_def registered_def world_child_names merge_listing_def split: if_splits)

lemma wf_address: "address wf_env merge_world = address unit_env merge_world"
  by (rule ext) (simp add: address_def split: sum.split prod.split option.split bool.split)

lemma wf_apart: "apart wf_env merge_world ''cell_root'' ''a''"
proof -
  have "address unit_env merge_world i \<noteq> Some ''a''" if ne: "i \<noteq> ''cell_root''" for i
  proof
    assume "address unit_env merge_world i = Some ''a''"
    then obtain c where "FindCellByID (Inr merge_listing :: string + CellSpec option list) i = Inr (Some c, True)" "cs_GrpcEndpoint c = ''a''"
      by (auto simp: address_def merge_demo_list split: sum.splits prod.splits option.splits bool.splits if_splits)
    then show False using merge_ids[of i c] ne by (auto simp: merge_names_def)
  qed
  then show ?thesis using merge_names_trimmed(1) merge_demo_address(1) by (simp add: apart_def wf_address)
qed

lemma crowded_unused: "crowded_servers ep = Some s \<Longrightarrow> finite (dom (playerByID s)) \<and> unused parent s"
  by (auto simp: crowded_servers_def merge_demo_servers_def new_server_def unused_def merge_names_def split: if_splits)

theorem split_move_with_players_fails_witness:
  "\<exists>e g' s'. split_move wf_env demo_split ''cell_root'' 1 merge_names (wf_grid crowded_servers) = (Inl e, g') \<and>
     servers g' ''a'' = Some s' \<and> splitDrain s'"
proof (rule split_move_with_players_fails)
  show "servers (wf_grid crowded_servers) ''a'' = Some ((new_server ''cell_root'' None 0 NewRuntime)\<lparr>playerByID := [''ann'' \<mapsto> 1], splitDrain := True\<rparr>)"
    by (simp add: crowded_servers_def)
  show "\<forall>e s. servers (wf_grid crowded_servers) e = Some s \<longrightarrow> finite (dom (playerByID s)) \<and> unused ''cell_root'' s"
    using crowded_unused by simp
qed (use wf_apart in \<open>simp_all add: PlayerCount_def TrimSpace_trimmed trimmedI ascii_graph_def\<close>)

end
