(* ===== verification/Merge_Workflow.thy ===== *)
theory Merge_Workflow
  imports Split_Workflow
begin

text \<open>
  The automatic merge of four children into their parent (\<open>src/cmd/grid-manager/merge_workflow.go\<close>):
  the plan and the checks before it, the call of \<open>ForwardMergeHandoff\<close> under the parent's drain, the
  switch of the topology, and the retries.
\<close>

section \<open>Publishing\<close>

definition merge_wf_publish :: "('c, 'y) workflow_env_scheme \<Rightarrow> mergeWorkflowEvent \<Rightarrow>
    ('c, 'z) WorkflowGrid_scheme \<Rightarrow> ('c, 'z) WorkflowGrid_scheme" where
  "merge_wf_publish env e g =
     (if \<not> merge_nats env then g
      else if bus_error env ''grid.merge.workflow'' (clock g) \<noteq> None then g
      else g\<lparr>mergeWfEvents := mergeWfEvents g @ [e]\<rparr>)"

definition merge_wf_event :: "('c, 'y) workflow_env_scheme \<Rightarrow> string \<Rightarrow> string \<Rightarrow> int \<Rightarrow> event_message \<Rightarrow> string \<Rightarrow>
    (string \<rightharpoonup> string) \<Rightarrow> bool \<Rightarrow> ('c, 'z) WorkflowGrid_scheme \<Rightarrow> ('c, 'z) WorkflowGrid_scheme" where
  "merge_wf_event env parent stage attempt m children attrs successful g =
     merge_wf_publish env \<lparr>mw_ParentCellID = parent, mw_Stage = stage, mw_Attempt = attempt, mw_Message = m,
       mw_Children = children, mw_Attrs = attrs, mw_AtUnixMs = unix_ms (clock g), mw_Successful = successful\<rparr> g"

section \<open>Plan and preflight\<close>

definition planMergeGroup :: "('c, 'y) workflow_env_scheme \<Rightarrow> string \<Rightarrow>
    (CellSpec \<times> string list \<times> string, ('c, 'z) Grid_scheme) op" where
  "planMergeGroup env parent g =
     (case FindCellByID (ListAll (wf_catalog env) (reg g)) parent of
        Inl err \<Rightarrow> fail (Failed [Text err]) g
      | Inr (Some p, True) \<Rightarrow>
          if cs_Bounds p = None then fail (Failed [Text (''parent not found or invalid: '' @ parent)]) g
          else (case ListAll (wf_catalog env) (reg g) of
                  Inl err \<Rightarrow> fail (Failed [Text err]) g
                | Inr listed \<Rightarrow>
                    (case CatalogMergeChildren (Some p) listed of
                       Inl err \<Rightarrow> fail (Failed [WithPartitionError [] err]) g
                     | Inr resolved \<Rightarrow>
                         (let childIDs = map (\<lambda>spec. TrimSpace (cs_Id spec)) resolved
                          in give (p, childIDs, Join childIDs '','') g)))
      | Inr _ \<Rightarrow> fail (Failed [Text (''parent not found or invalid: '' @ parent)]) g)"

fun preflight_children :: "('c, 'y) workflow_env_scheme \<Rightarrow> mergeWorkflowConfig \<Rightarrow> int \<Rightarrow> string list \<Rightarrow>
    (int, ('c, 'z) Grid_scheme) op" where
  "preflight_children env cfg childPlayers [] g = give childPlayers g"
| "preflight_children env cfg childPlayers (childID # rest) g =
     (case FindCellByID (ListAll (wf_catalog env) (reg g)) childID of
        Inl err \<Rightarrow> fail (Failed [Text err]) g
      | Inr (Some spec, True) \<Rightarrow>
          andThen (wrapping [Text (''child ping failed '' @ childID)] (pingCellStats env (cs_GrpcEndpoint spec))) (\<lambda>ping.
            if \<not> mw_playerHandoff cfg \<and> fst ping > 0
            then fail (Failed [Text (''child '' @ childID @ '' has active players: '' @ Itoa (fst ping))])
            else preflight_children env cfg (childPlayers + fst ping) rest) g
      | Inr _ \<Rightarrow> fail (Failed [Text (''child missing: '' @ childID)]) g)"

definition preflightGroup :: "('c, 'y) workflow_env_scheme \<Rightarrow> mergeWorkflowConfig \<Rightarrow> CellSpec \<Rightarrow> string list \<Rightarrow>
    (int, ('c, 'z) Grid_scheme) op" where
  "preflightGroup env cfg parent childIDs =
     andThen (wrapping [Text ''parent ping failed''] (pingCellStats env (cs_GrpcEndpoint parent))) (\<lambda>parentPing.
       if fst parentPing > 0 then fail (Failed [Text (''parent has active players: '' @ Itoa (fst parentPing))])
       else andThen (preflight_children env cfg 0 childIDs) (\<lambda>childPlayers.
         if mw_playerHandoff cfg \<and> mw_maxPlayersMove cfg > 0 \<and> childPlayers > mw_maxPlayersMove cfg
         then fail (Failed [Text (''merge player handoff guard: child players '' @ Itoa childPlayers @ '' > max '' @ Itoa (mw_maxPlayersMove cfg))])
         else give childPlayers))"

section \<open>The handoff and the topology\<close>

definition forwardMerge :: "('c, 'y) workflow_env_scheme \<Rightarrow> mergeWorkflowConfig \<Rightarrow> string \<Rightarrow> string list \<Rightarrow> string \<Rightarrow>
    (MergeHandoffResponse, ('c, 'z) WorkflowGrid_scheme) op" where
  "forwardMerge env cfg parent childIDs reason =
     registry_call env (mw_registryAddr cfg)
       (ForwardMergeHandoff env (Some \<lparr>mh_ParentCellId = parent, mh_ChildCellIds = childIDs, mh_Reason = reason\<rparr>))"

fun deregister_children :: "('c, 'y) workflow_env_scheme \<Rightarrow> string list \<Rightarrow> (unit, ('c, 'z) Grid_scheme) op" where
  "deregister_children env [] g = give () g"
| "deregister_children env (childID # rest) g =
     (case DeregisterLogical (wf_catalog env) childID (reg g) of
        (Some err, c) \<Rightarrow> fail (Wrapped [Text (''deregister child '' @ childID)] (Failed [Text err])) (g\<lparr>reg := c\<rparr>)
      | (None, c) \<Rightarrow> deregister_children env rest (g\<lparr>reg := c\<rparr>))"

text \<open>Whether the catalog resolves the center of every quadrant to the parent.\<close>

definition center_of :: "PlanSplitResponseChild \<Rightarrow> f64 \<times> f64" where
  "center_of ch =
     (case ch_Bounds ch of
        None \<Rightarrow> (Fin 0, Fin 0)
      | Some b \<Rightarrow> (fdiv (fadd (XMin b) (XMax b)) (Fin 2), fdiv (fadd (ZMin b) (ZMax b)) (Fin 2)))"

fun resolve_centers :: "('c, 'y) workflow_env_scheme \<Rightarrow> string \<Rightarrow> PlanSplitResponseChild list \<Rightarrow> (unit, ('c, 'z) Grid_scheme) op" where
  "resolve_centers env parent [] g = give () g"
| "resolve_centers env parent (ch # rest) g =
     (case Resolve (wf_catalog env) (fst (center_of ch)) (snd (center_of ch)) (reg g) of
        Inl err \<Rightarrow> fail (Failed [Text err]) g
      | Inr (Some got, True) \<Rightarrow>
          if cs_Id got \<noteq> parent
          then fail (Failed [Text (''resolve mismatch at '' @ ch_Id ch @ '': got='' @ cs_Id got @ '' want='' @ parent)]) g
          else resolve_centers env parent rest g
      | Inr _ \<Rightarrow> fail (Failed [Text (''resolve miss at child center for '' @ ch_Id ch)]) g)"

definition verifyResolveToParent :: "('c, 'y) workflow_env_scheme \<Rightarrow> string \<Rightarrow> (unit, ('c, 'z) Grid_scheme) op" where
  "verifyResolveToParent env parent g =
     (case FindCellByID (ListAll (wf_catalog env) (reg g)) parent of
        Inl err \<Rightarrow> fail (Failed [Text err]) g
      | Inr (Some p, True) \<Rightarrow>
          if cs_Bounds p = None then fail (Failed [Text ''parent missing after topology switch'']) g
          else (case ChildSpecsForSplit parent (cs_Bounds p) (cs_Level p) of
                  Inl err \<Rightarrow> fail (Failed [WithPartitionError [] err]) g
                | Inr plan \<Rightarrow> resolve_centers env parent plan g)
      | Inr _ \<Rightarrow> fail (Failed [Text ''parent missing after topology switch'']) g)"

text \<open>A request to tear a child down; its error is ignored.\<close>

definition request_teardown :: "('c, 'y) workflow_env_scheme \<Rightarrow> string \<Rightarrow> ('c, 'z) WorkflowGrid_scheme \<Rightarrow> ('c, 'z) WorkflowGrid_scheme" where
  "request_teardown env childID g =
     (if bus_error env ''cell.control'' (clock g) \<noteq> None then g
      else g\<lparr>control := control g @ [Delete_child childID ''auto-merge topology switched'']\<rparr>)"

definition switchTopologyAndTeardown :: "('c, 'y) workflow_env_scheme \<Rightarrow> string \<Rightarrow> string list \<Rightarrow>
    (unit, ('c, 'z) WorkflowGrid_scheme) op" where
  "switchTopologyAndTeardown env parent childIDs =
     andThen (deregister_children env childIDs) (\<lambda>_.
     andThen (verifyResolveToParent env parent) (\<lambda>_.
       doing (\<lambda>g. if merge_nats env then fold (request_teardown env) childIDs g else g)
      (doing (merge_wf_event env parent ''topology_switched'' 0 (Said [Text ''children deregistered and teardown requested''])
          (Join childIDs '','') Map.empty True)
        (give ()))))"

definition saveAutomationState :: "('c, 'y) workflow_env_scheme \<Rightarrow> mergeWorkflowConfig \<Rightarrow> string \<Rightarrow> string list \<Rightarrow> int \<Rightarrow>
    (unit, ('c, 'z) MergeGrid_scheme) op" where
  "saveAutomationState env cfg parent childIDs movedPlayers g =
     (if \<not> merge_redis env then give () g
      else (let st = \<lparr>ms_phase = ''automation_complete'', ms_parent_cell_id = parent,
                  ms_removed_children = childIDs, ms_topology_switched = True, ms_runtime_teardown_queued = True,
                  ms_player_handoff_enabled = mw_playerHandoff cfg, ms_player_handoff_count = movedPlayers,
                  ms_at_unix_ms = unix_ms (clock g)\<rparr>;
                (err, store) = redisSet env (''mmo:grid:merge:state:'' @ TrimSpace parent) st (mergeStates g);
                g' = g\<lparr>mergeStates := store\<rparr>
            in case err of Some e \<Rightarrow> fail (Failed [Text e]) g' | None \<Rightarrow> give () g'))"

section \<open>One attempt\<close>

definition merge_body :: "('c, 'y) workflow_env_scheme \<Rightarrow> mergeWorkflowConfig \<Rightarrow> string \<Rightarrow> int \<Rightarrow> string list \<Rightarrow> string \<Rightarrow> int \<Rightarrow>
    (unit, ('c, 'z) WorkflowGrid_scheme) op" where
  "merge_body env cfg parent attempt childIDs childrenCSV childPlayers =
     andThen (forwardMerge env cfg parent childIDs (''auto-merge-attempt-'' @ Itoa attempt)) (\<lambda>resp.
       doing (\<lambda>g. if mw_playerHandoff cfg \<and> childPlayers > 0
                  then merge_wf_event env parent ''player_handoffs_done'' attempt (Said [Text ''player handoffs completed'']) childrenCSV
                    [''expected_player_count'' \<mapsto> Itoa childPlayers, ''registry_message'' \<mapsto> mhr_Message resp] True g
                  else g)
      (doing (merge_wf_event env parent ''handoff_done'' attempt (Said [Text ''children exported and imported into parent''])
          childrenCSV Map.empty True)
      (andThen (switchTopologyAndTeardown env parent childIDs) (\<lambda>_.
         saveAutomationState env cfg parent childIDs childPlayers))))"

definition merge_runOnce :: "('c, 'y) workflow_env_scheme \<Rightarrow> mergeWorkflowConfig \<Rightarrow> string \<Rightarrow> int \<Rightarrow>
    (unit, ('c, 'z) WorkflowGrid_scheme) op" where
  "merge_runOnce env cfg parent attempt =
     andThen (planMergeGroup env parent) (\<lambda>(p, childIDs, childrenCSV).
     doing (merge_wf_event env parent ''preflight'' attempt (Said [Text ''validate child readiness and player guards'']) childrenCSV Map.empty False)
    (andThen (preflightGroup env cfg p childIDs) (\<lambda>childPlayers.
     doing (\<lambda>g. if mw_playerHandoff cfg \<and> childPlayers > 0
                then merge_wf_event env parent ''player_handoffs_running'' attempt
                  (Said [Text (''player handoff enabled; expected players='' @ Itoa childPlayers)]) childrenCSV
                  [''expected_player_count'' \<mapsto> Itoa childPlayers] False g
                else g)
    (andThen (wrapping [Text ''set parent split_drain true''] (setSplitDrain env (mw_registryAddr cfg) parent True)) (\<lambda>_.
     deferring (\<lambda>g. snd (setSplitDrain env (mw_registryAddr cfg) parent False g))
       (merge_body env cfg parent attempt childIDs childrenCSV childPlayers))))))"

section \<open>The retries\<close>

fun merge_attempts :: "('c, 'y) workflow_env_scheme \<Rightarrow> mergeWorkflowConfig \<Rightarrow> string \<Rightarrow> nat \<Rightarrow> int \<Rightarrow> int \<Rightarrow> call_error option \<Rightarrow>
    ('c, 'z) WorkflowGrid_scheme \<Rightarrow> outcome \<times> ('c, 'z) WorkflowGrid_scheme" where
  "merge_attempts env cfg i 0 attempt backoff lastErr g = (Exhausted lastErr, g)"
| "merge_attempts env cfg i (Suc n) attempt backoff lastErr g =
     (case merge_runOnce env cfg i attempt g of
        (Inr _, g1) \<Rightarrow>
          (Completed, merge_wf_event env i ''automation_complete'' attempt (Said [Text ''merge workflow automation_complete'']) []
             Map.empty True g1)
      | (Inl e, g1) \<Rightarrow>
          (case sleep env backoff (merge_wf_event env i ''retrying'' attempt (ErrorText e) [] Map.empty False g1) of
             (False, g2) \<Rightarrow> (Cancelled, g2)
           | (True, g2) \<Rightarrow> merge_attempts env cfg i n (attempt + 1) (next_backoff (mw_maxBackoff cfg) backoff) (Some e) g2))"

definition merge_run :: "('c, 'y) workflow_env_scheme \<Rightarrow> mergeWorkflowConfig \<Rightarrow> string \<Rightarrow>
    ('c, 'z) WorkflowGrid_scheme \<Rightarrow> outcome \<times> ('c, 'z) WorkflowGrid_scheme" where
  "merge_run env cfg i g =
     (let g1 = merge_wf_event env i ''detected'' 0 (Said [Text ''auto merge workflow started'']) [] Map.empty False g;
          (out, g2) = merge_attempts env cfg i (nat (mw_maxRetries cfg)) 1 (mw_initialBackoff cfg) None g1;
          g3 = (case out of
                  Exhausted (Some e) \<Rightarrow> merge_wf_event env i ''failed'' 0 (ErrorText (Wrapped [Text ''workflow failed after retries''] e)) [] Map.empty False g2
                | Exhausted None \<Rightarrow> merge_wf_event env i ''failed'' 0 (Said [Text ''workflow failed after retries: <nil>'']) [] Map.empty False g2
                | _ \<Rightarrow> g2)
      in (out, merge_done i g3))"

end
