(* ===== verification/Merge_Switch.thy ===== *)
theory Merge_Switch
  imports Merge_Workflow
begin

text \<open>
  What the merge workflow makes of the catalog. A locale lifts a predicate kept by single calls to
  all of the workflow but the switch of the topology; the switch itself removes exactly the children,
  and once it has begun, an attempt that failed is never completed by a later one.
\<close>

section \<open>Everything but the switch\<close>

locale workflow_kept = merge_kept_all I for I :: "('c, 'z) WorkflowGrid_scheme \<Rightarrow> bool" +
  assumes kept_flight: "I g \<Longrightarrow> I (g\<lparr>mergeInFlight := fl\<rparr>)"
    and kept_wf_events: "I g \<Longrightarrow> I (g\<lparr>mergeWfEvents := wevs\<rparr>)"
begin

lemma kept_registry: "keeps I m \<Longrightarrow> keeps I (registry_call env addr m)"
proof (rule keepsI)
  fix g assume m: "keeps I m" and "I g"
  obtain ft g1 where g1: "next_turn g = (ft, g1)" by fastforce
  have "I g1" using kept_turn[OF \<open>I g\<close>] g1 by simp
  then show "I (snd (registry_call env addr m g))"
    using keeps_apply[OF m, of g1] g1 \<open>I g\<close> by (simp add: registry_call_def fail_def split: option.split fate.split)
qed

lemma kept_dialled: "keeps I (dialled_call env ep h)"
  using kept_call[of ep h] by (auto simp: keeps_def dialled_call_def fail_def split: option.split)

lemma kept_wrapping: "keeps I m \<Longrightarrow> keeps I (wrapping ms m)"
  by (auto simp: keeps_def wrapping_def split: prod.split sum.split)

lemma kept_stats: "keeps I (pingCellStats env ep)"
  unfolding pingCellStats_def by (intro keeps_andThen kept_dialled keeps_give)

lemma kept_preflight_children: "keeps I (preflight_children env cfg n ids)"
proof (induction ids arbitrary: n)
  case Nil
  then show ?case by (rule keepsI) (simp add: give_def)
next
  case (Cons i ids)
  have k: "keeps I (andThen (wrapping ms (pingCellStats env ep)) (\<lambda>ping. if c ping then fail e
      else preflight_children env cfg (n + fst ping) ids))" for ms ep c e
    using Cons by (auto intro!: keeps_andThen kept_wrapping kept_stats)
  have k': "keeps I (andThen (wrapping ms (pingCellStats env ep)) (\<lambda>ping. if \<not> mw_playerHandoff cfg \<and> fst ping > 0
      then fail (Failed [Text (''child '' @ i @ '' has active players: '' @ Itoa (fst ping))])
      else preflight_children env cfg (n + fst ping) ids))" for ms ep
    using Cons by (auto intro!: keeps_andThen kept_wrapping kept_stats)
  show ?case
    by (rule keepsI)
       (use keeps_apply[OF k'] in \<open>auto simp: fail_def split: sum.split prod.split option.split bool.split\<close>)
qed

lemma kept_preflight: "keeps I (preflightGroup env cfg p ids)"
  unfolding preflightGroup_def by (auto intro!: keeps_andThen kept_wrapping kept_stats kept_preflight_children)

lemma kept_wf_event: "I g \<Longrightarrow> I (merge_wf_event env p stage attempt m ch attrs b g)"
  by (simp add: merge_wf_event_def merge_wf_publish_def kept_wf_events)

lemma kept_set_split_drain: "keeps I (setSplitDrain env addr cellID on)"
  unfolding setSplitDrain_def ForwardCellUpdate_def by (auto intro!: keeps_andThen kept_registry kept_update)

lemma kept_merge: "keeps I (ForwardMergeHandoff env oreq)"
proof (cases oreq)
  case None
  then show ?thesis by (auto simp: ForwardMergeHandoff_def keeps_def fail_def)
next
  case (Some req)
  have "keeps I (deferring (\<lambda>h. h\<lparr>mergeInFlight := releaseMerge p (mergeInFlight h)\<rparr>) (merge_locked env p ids reason))" for p ids reason
    by (intro keeps_deferring kept_flight kept_locked)
  note d = this
  show ?thesis
    by (rule keepsI) (auto simp: Some ForwardMergeHandoff_def Let_def intro!: keeps_apply[OF kept_fail_event] keeps_apply[OF d]
        kept_flight kept_event split: prod.split)
qed

lemma kept_forward: "keeps I (forwardMerge env cfg p ids reason)"
  unfolding forwardMerge_def by (intro kept_registry kept_merge)

lemma kept_automation: "keeps I (saveAutomationState env cfg p ids n)"
  by (rule keepsI) (auto simp: saveAutomationState_def Let_def fail_def give_def kept_states split: prod.split option.split)

end

interpretation steady: workflow_kept "\<lambda>g. undisturbed c g \<and> control g = cmds" for c :: 'c and cmds
  by unfold_locales (auto simp: undisturbed_def next_turn_def Let_def split: list.splits prod.splits)

lemma planned:
  assumes "planMergeGroup env parent g = (Inr (p, ids, csv), g')"
  obtains listed children where "g' = g" "FindCellByID (ListAll (wf_catalog env) (reg g)) parent = Inr (Some p, True)"
    "ListAll (wf_catalog env) (reg g) = Inr listed" "CatalogMergeChildren (Some p) listed = Inr children"
    "ids = map (TrimSpace \<circ> cs_Id) children" "csv = Join ids '',''"
  using assms by (auto simp: planMergeGroup_def fail_def give_def Let_def comp_def split: sum.splits prod.splits option.splits bool.splits if_splits)

lemma plan_same: "snd (planMergeGroup env parent g) = g"
  by (auto simp: planMergeGroup_def fail_def give_def Let_def split: sum.split prod.split option.split bool.split)

text \<open>An attempt either ends before the switch, or what it does to catalog and commands is the switch.\<close>

abbreviation calm :: "'c \<Rightarrow> control_command list \<Rightarrow> ('c, 'z) WorkflowGrid_scheme \<Rightarrow> bool" where
  "calm c cmds g \<equiv> undisturbed c g \<and> control g = cmds"

section \<open>The switch\<close>

lemma deregister_turns:
  "turns (snd (deregister_children env ids g)) = turns g" "control (snd (deregister_children env ids g)) = control g"
  by (induction env ids g rule: deregister_children.induct) (simp_all add: give_def fail_def split: prod.split option.split)

lemma centers_same: "snd (resolve_centers env parent plan g) = g"
  by (induction env parent plan g rule: resolve_centers.induct)
     (auto simp: give_def fail_def split: sum.split prod.split option.split bool.split)

lemma verify_same: "snd (verifyResolveToParent env parent g) = g"
  using centers_same[of env parent _ g]
  by (simp add: verifyResolveToParent_def fail_def split: sum.split prod.split option.split bool.split)

lemma wf_event_fields [simp]:
  "turns (merge_wf_event env p stage a m ch ats b g) = turns g" "reg (merge_wf_event env p stage a m ch ats b g) = reg g"
  "control (merge_wf_event env p stage a m ch ats b g) = control g" "clock (merge_wf_event env p stage a m ch ats b g) = clock g"
  "servers (merge_wf_event env p stage a m ch ats b g) = servers g"
  by (simp_all add: merge_wf_event_def merge_wf_publish_def)

definition delete_of :: "string \<Rightarrow> control_command" where
  "delete_of i = Delete_child i ''auto-merge topology switched''"

lemma teardown_fields:
  "turns (fold (request_teardown env) ids g) = turns g" "reg (fold (request_teardown env) ids g) = reg g"
  "clock (fold (request_teardown env) ids g) = clock g"
  "control (fold (request_teardown env) ids g) =
     control g @ (if bus_error env ''cell.control'' (clock g) = None then map delete_of ids else [])"
proof -
  have "turns (fold (request_teardown env) ids g) = turns g \<and> reg (fold (request_teardown env) ids g) = reg g \<and>
      clock (fold (request_teardown env) ids g) = clock g \<and> control (fold (request_teardown env) ids g) =
        control g @ (if bus_error env ''cell.control'' (clock g) = None then map delete_of ids else [])"
    by (induction ids arbitrary: g) (auto simp: request_teardown_def delete_of_def)
  then show "turns (fold (request_teardown env) ids g) = turns g" "reg (fold (request_teardown env) ids g) = reg g"
    "clock (fold (request_teardown env) ids g) = clock g" "control (fold (request_teardown env) ids g) =
       control g @ (if bus_error env ''cell.control'' (clock g) = None then map delete_of ids else [])" by blast+
qed

text \<open>The three ways a switch ends.\<close>

lemma switch_cases:
  assumes "switchTopologyAndTeardown env parent ids g = (res, g')"
  obtains (partly) e where "res = Inl e" "deregister_children env ids g = (Inl e, g')"
  | (unresolved) e where "res = Inl e" "deregister_children env ids g = (Inr (), g')" "verifyResolveToParent env parent g' = (Inl e, g')"
  | (switched) g1 where "res = Inr ()" "deregister_children env ids g = (Inr (), g1)" "verifyResolveToParent env parent g1 = (Inr (), g1)"
      "reg g' = reg g1" "turns g' = turns g1" "control g' = control g @ (if merge_nats env \<and> bus_error env ''cell.control'' (clock g1) = None then map delete_of ids else [])"
  using assms unfolding switchTopologyAndTeardown_def
proof (rule andThen_cases, goal_cases)
  case (1 e)
  then show ?case by blast
next
  case (2 u g1)
  have c: "control g1 = control g" using deregister_turns(2)[of env ids g] 2(4) by simp
  have v: "verifyResolveToParent env parent g1 = (fst (verifyResolveToParent env parent g1), g1)"
    using verify_same[of env parent g1] by (metis prod.collapse)
  show ?case using 2(5)
  proof (rule andThen_cases)
    fix e assume "verifyResolveToParent env parent g1 = (Inl e, g')" "res = Inl e"
    then show ?thesis using 2(2,4) v by auto
  next
    fix u' g2
    assume r: "verifyResolveToParent env parent g1 = (Inr u', g2)" and
      d: "doing (\<lambda>g. if merge_nats env then fold (request_teardown env) ids g else g)
        (doing (merge_wf_event env parent ''topology_switched'' 0 (Said [Text ''children deregistered and teardown requested''])
          (Join ids '','') Map.empty True) (give ())) g2 = (res, g')"
    have "g2 = g1" using r v by simp
    then show ?thesis using 2(3,4) r d c by (auto simp: doing_def give_def teardown_fields)
  qed
qed

lemma switch_turns:
  assumes "switchTopologyAndTeardown env parent ids g = (res, g')"
  shows "turns g' = turns g"
  using assms deregister_turns(1)[of env ids g] by (cases rule: switch_cases) simp_all

section \<open>One attempt\<close>

text \<open>
  An attempt ends before the switch, or what it does to catalog and commands is the switch:
  \<open>switching\<close> relates the grid before the switch to the one at the end.
\<close>

definition switching :: "('c, 'y) workflow_env_scheme \<Rightarrow> string \<Rightarrow> string list \<Rightarrow> ('c, 'z) WorkflowGrid_scheme \<Rightarrow>
    call_error + unit \<Rightarrow> ('c, 'z) WorkflowGrid_scheme \<Rightarrow> bool" where
  "switching env parent ids g res g' \<longleftrightarrow>
     (\<exists>(g1 :: ('c, 'z) WorkflowGrid_scheme) r g2. calm (reg g) (control g) g1 \<and> switchTopologyAndTeardown env parent ids g1 = (r, g2) \<and>
        calm (reg g2) (control g2) g' \<and> (res = Inr () \<longrightarrow> r = Inr ()))"

definition unswitched :: "('c, 'z) WorkflowGrid_scheme \<Rightarrow> call_error + unit \<Rightarrow> ('c, 'z) WorkflowGrid_scheme \<Rightarrow> bool" where
  "unswitched g res g' \<longleftrightarrow> res \<noteq> Inr () \<and> calm (reg g) (control g) g'"

lemma calm_event: "undisturbed c (merge_wf_event env p stage a m ch ats b g) = undisturbed c g"
  by (simp add: undisturbed_def)

lemma body_cases:
  assumes "merge_body env cfg parent attempt ids csv n g = (res, g')" "calm (reg g0) (control g0) g"
  shows "unswitched g0 res g' \<or> switching env parent ids g0 res g'"
  using assms(1) unfolding merge_body_def
proof (rule andThen_cases)
  fix e assume e: "forwardMerge env cfg parent ids (''auto-merge-attempt-'' @ Itoa attempt) g = (Inl e, g')" "res = Inl e"
  then show ?thesis using keepsD[OF steady.kept_forward assms(2) e(1)] by (simp add: unswitched_def)
next
  fix resp f assume f: "forwardMerge env cfg parent ids (''auto-merge-attempt-'' @ Itoa attempt) g = (Inr resp, f)"
    and fk: "doing (\<lambda>g. if mw_playerHandoff cfg \<and> n > 0
          then merge_wf_event env parent ''player_handoffs_done'' attempt (Said [Text ''player handoffs completed'']) csv
            [''expected_player_count'' \<mapsto> Itoa n, ''registry_message'' \<mapsto> mhr_Message resp] True g else g)
      (doing (merge_wf_event env parent ''handoff_done'' attempt (Said [Text ''children exported and imported into parent'']) csv Map.empty True)
      (andThen (switchTopologyAndTeardown env parent ids) (\<lambda>_. saveAutomationState env cfg parent ids n))) f = (res, g')"
  have If: "calm (reg g0) (control g0) f" using keepsD[OF steady.kept_forward assms(2) f] .
  define e where "e = (if mw_playerHandoff cfg \<and> n > 0
      then merge_wf_event env parent ''player_handoffs_done'' attempt (Said [Text ''player handoffs completed'']) csv
        [''expected_player_count'' \<mapsto> Itoa n, ''registry_message'' \<mapsto> mhr_Message resp] True f else f)"
  define f' where "f' = merge_wf_event env parent ''handoff_done'' attempt (Said [Text ''children exported and imported into parent'']) csv Map.empty True e"
  have f': "calm (reg g0) (control g0) f'" "andThen (switchTopologyAndTeardown env parent ids) (\<lambda>_. saveAutomationState env cfg parent ids n) f' = (res, g')"
    using If fk by (simp_all add: f'_def e_def doing_def calm_event)
  obtain r g2 where sw: "switchTopologyAndTeardown env parent ids f' = (r, g2)" by fastforce
  have "calm (reg g2) (control g2) g2" using switch_turns[OF sw] f'(1) by (simp add: undisturbed_def)
  then have "calm (reg g2) (control g2) (snd (saveAutomationState env cfg parent ids n g2))"
    by (rule keeps_apply[OF steady.kept_automation])
  then have "calm (reg g2) (control g2) g'" "res = Inr () \<longrightarrow> r = Inr ()"
    using f'(2) sw \<open>calm (reg g2) (control g2) g2\<close> by (auto simp: andThen_def split: sum.splits)
  then show ?thesis unfolding switching_def using f'(1) sw by blast
qed

lemma deferred_drain_cases:
  assumes "deferring (\<lambda>g. snd (setSplitDrain env addr parent False g)) (merge_body env cfg parent attempt ids csv n) g = (res, g')"
    "calm (reg g0) (control g0) g"
  shows "unswitched g0 res g' \<or> switching env parent ids g0 res g'"
proof -
  obtain h where h: "merge_body env cfg parent attempt ids csv n g = (res, h)" "g' = snd (setSplitDrain env addr parent False h)"
    using assms(1) by (auto simp: deferring_def split: prod.splits)
  have k: "calm c cmds g'" if "calm c cmds h" for c cmds
    unfolding h(2) using keeps_apply[OF steady.kept_set_split_drain that] .
  show ?thesis using body_cases[OF h(1) assms(2)] k unfolding unswitched_def switching_def by blast
qed

lemma runOnce_cases:
  fixes g :: "('c, 'z) WorkflowGrid_scheme"
  assumes "merge_runOnce env cfg parent attempt g = (res, g')" "undisturbed (reg g) g"
  obtains "unswitched g res g'"
  | p ids csv where "planMergeGroup env parent g = (Inr (p, ids, csv), g)" "switching env parent ids g res g'"
proof -
  have "unswitched g res g' \<or> (\<exists>p ids csv. planMergeGroup env parent g = (Inr (p, ids, csv), g) \<and> switching env parent ids g res g')"
    using assms(1) unfolding merge_runOnce_def
  proof (rule andThen_cases)
    fix e assume "planMergeGroup env parent g = (Inl e, g')" "res = Inl e"
    then show ?thesis using plan_same[of env parent g] assms(2) by (simp add: unswitched_def)
  next
    fix x h assume pl: "planMergeGroup env parent g = (Inr x, h)" and
      k: "(case x of (p, childIDs, childrenCSV) \<Rightarrow>
        doing (merge_wf_event env parent ''preflight'' attempt (Said [Text ''validate child readiness and player guards'']) childrenCSV Map.empty False)
       (andThen (preflightGroup env cfg p childIDs) (\<lambda>childPlayers.
        doing (\<lambda>g. if mw_playerHandoff cfg \<and> childPlayers > 0
                   then merge_wf_event env parent ''player_handoffs_running'' attempt
                     (Said [Text (''player handoff enabled; expected players='' @ Itoa childPlayers)]) childrenCSV
                     [''expected_player_count'' \<mapsto> Itoa childPlayers] False g
                   else g)
       (andThen (wrapping [Text ''set parent split_drain true''] (setSplitDrain env (mw_registryAddr cfg) parent True)) (\<lambda>_.
        deferring (\<lambda>g. snd (setSplitDrain env (mw_registryAddr cfg) parent False g))
          (merge_body env cfg parent attempt childIDs childrenCSV childPlayers)))))) h = (res, g')"
    obtain p ids csv where x: "x = (p, ids, csv)" by (cases x)
    have h: "h = g" using plan_same[of env parent g] pl by simp
    let ?a = "merge_wf_event env parent ''preflight'' attempt (Said [Text ''validate child readiness and player guards'']) csv Map.empty False g"
    have Ia: "calm (reg g) (control g) ?a" using assms(2) by (simp add: calm_event)
    have "unswitched g res g' \<or> switching env parent ids g res g'"
      using k[unfolded x h prod.case doing_def]
    proof (rule andThen_cases)
      fix e assume e: "preflightGroup env cfg p ids (merge_wf_event env parent ''preflight'' attempt
          (Said [Text ''validate child readiness and player guards'']) csv Map.empty False g) = (Inl e, g')" "res = Inl e"
      then show ?thesis using keepsD[OF steady.kept_preflight Ia e(1)] by (simp add: unswitched_def)
    next
      fix n b assume b: "preflightGroup env cfg p ids (merge_wf_event env parent ''preflight'' attempt
          (Said [Text ''validate child readiness and player guards'']) csv Map.empty False g) = (Inr n, b)"
        and rest: "andThen (wrapping [Text ''set parent split_drain true''] (setSplitDrain env (mw_registryAddr cfg) parent True)) (\<lambda>_.
          deferring (\<lambda>g. snd (setSplitDrain env (mw_registryAddr cfg) parent False g)) (merge_body env cfg parent attempt ids csv n))
          (if mw_playerHandoff cfg \<and> n > 0 then merge_wf_event env parent ''player_handoffs_running'' attempt
            (Said [Text (''player handoff enabled; expected players='' @ Itoa n)]) csv [''expected_player_count'' \<mapsto> Itoa n] False b else b) = (res, g')"
      have Ib: "calm (reg g) (control g) b" using keepsD[OF steady.kept_preflight Ia b] .
      define b' where "b' = (if mw_playerHandoff cfg \<and> n > 0 then merge_wf_event env parent ''player_handoffs_running'' attempt
            (Said [Text (''player handoff enabled; expected players='' @ Itoa n)]) csv [''expected_player_count'' \<mapsto> Itoa n] False b else b)"
      have Ib': "calm (reg g) (control g) b'" using Ib by (simp add: b'_def calm_event)
      define m where "m = wrapping [Text ''set parent split_drain true''] (setSplitDrain env (mw_registryAddr cfg) parent True :: (unit, ('c, 'z) WorkflowGrid_scheme) op)"
      have km: "keeps (calm (reg g) (control g)) m" unfolding m_def by (rule steady.kept_wrapping[OF steady.kept_set_split_drain])
      note rest = rest[folded b'_def]
      show ?thesis using rest
      proof (rule andThen_cases)
        fix e assume e: "wrapping [Text ''set parent split_drain true''] (setSplitDrain env (mw_registryAddr cfg) parent True) b' = (Inl e, g')" "res = Inl e"
        then show ?thesis using keepsD[OF km Ib'] by (simp add: unswitched_def m_def)
      next
        fix u d assume d: "wrapping [Text ''set parent split_drain true''] (setSplitDrain env (mw_registryAddr cfg) parent True) b' = (Inr u, d)" and df: "deferring (\<lambda>g. snd (setSplitDrain env (mw_registryAddr cfg) parent False g))
            (merge_body env cfg parent attempt ids csv n) d = (res, g')"
        have "calm (reg g) (control g) d" using keepsD[OF km Ib'] d by (simp add: m_def)
        with df show ?thesis by (rule deferred_drain_cases)
      qed
    qed
    then show ?thesis using pl x h by auto
  qed
  then show ?thesis using that by blast
qed

section \<open>The switch of the in-memory catalog\<close>

lemma deregister_memory:
  assumes "wf_catalog env = MemoryCatalog order" "[] \<notin> set ids"
  shows "fst (deregister_children env ids g) = Inr () \<and> cells (reg (snd (deregister_children env ids g))) = cells (reg g) |` (- set ids)"
  using assms(2)
proof (induction ids arbitrary: g)
  case (Cons i ids)
  define g1 where "g1 = g\<lparr>reg := (reg g)\<lparr>cells := (cells (reg g))(i := None)\<rparr>\<rparr>"
  have "deregister_children env (i # ids) g = deregister_children env ids g1"
    using Cons.prems assms(1) by (auto simp: MemoryCatalog_def MemoryCatalog_DeregisterLogicalCell_def Deregister_def g1_def)
  moreover have "cells (reg g1) |` (- set ids) = cells (reg g) |` (- set (i # ids))"
    by (auto simp: g1_def restrict_map_def fun_eq_iff)
  ultimately show ?case using Cons.IH[of g1] Cons.prems by simp
qed (simp add: give_def restrict_map_def)

lemma plan_names:
  assumes "CatalogMergeChildren (Some p) listed = Inr children"
  shows "[] \<notin> set (map (TrimSpace \<circ> cs_Id) children)"
  using assms by (auto simp: CatalogMergeChildren_Inr check_child_ids_None)

text \<open>The cells of a catalog without those that a merge of \<open>parent\<close> removes.\<close>

definition merged :: "(Memory \<Rightarrow> string list) \<Rightarrow> string \<Rightarrow> CellSpec list \<Rightarrow> Memory \<Rightarrow> Memory \<Rightarrow> bool" where
  "merged order parent children m m' \<longleftrightarrow>
     (\<exists>p. FindCellByID (ListAll (MemoryCatalog order) m) parent = Inr (Some p, True) \<and>
        CatalogMergeChildren (Some p) (List (order m) m) = Inr children \<and>
        cells m' = cells m |` (- set (map (TrimSpace \<circ> cs_Id) children)))"

text \<open>Every center of a quadrant of the parent is resolved to the parent.\<close>

definition centers_resolved :: "'c Catalog \<Rightarrow> string \<Rightarrow> 'c \<Rightarrow> bool" where
  "centers_resolved cat parent c \<longleftrightarrow>
     (\<exists>p plan. FindCellByID (ListAll cat c) parent = Inr (Some p, True) \<and> ChildSpecsForSplit parent (cs_Bounds p) (cs_Level p) = Inr plan \<and>
        list_all (\<lambda>ch. \<exists>got. Resolve cat (fst (center_of ch)) (snd (center_of ch)) c = Inr (Some got, True) \<and> cs_Id got = parent) plan)"

lemma resolve_centers_ok:
  "resolve_centers env parent plan g = (Inr (), g') \<Longrightarrow>
     list_all (\<lambda>ch. \<exists>got. Resolve (wf_catalog env) (fst (center_of ch)) (snd (center_of ch)) (reg g) = Inr (Some got, True) \<and> cs_Id got = parent) plan"
  by (induction env parent plan g rule: resolve_centers.induct)
     (auto simp: fail_def split: sum.splits prod.splits option.splits bool.splits if_splits)

lemma verified: "verifyResolveToParent env parent g = (Inr (), g') \<Longrightarrow> centers_resolved (wf_catalog env) parent (reg g)"
  using resolve_centers_ok[of env parent]
  by (fastforce simp: verifyResolveToParent_def centers_resolved_def fail_def split: sum.splits prod.splits option.splits bool.splits if_splits)

lemma switched_memory:
  fixes g :: "(Memory, 'z) WorkflowGrid_scheme"
  assumes "planMergeGroup env parent g = (Inr (p, ids, csv), g)" "wf_catalog env = MemoryCatalog order"
    "switching env parent ids g res g'"
  shows "\<exists>children. ids = map (TrimSpace \<circ> cs_Id) children \<and> merged order parent children (reg g) (reg g') \<and>
    (\<not> centers_resolved (wf_catalog env) parent (reg g') \<longrightarrow> control g' = control g) \<and>
    (res = Inr () \<longrightarrow> centers_resolved (wf_catalog env) parent (reg g') \<and>
       ((\<forall>t. bus_error env ''cell.control'' t = None) \<longrightarrow> control g' = control g @ (if merge_nats env then map delete_of ids else [])))"
proof -
  obtain g1 g2 :: "(Memory, 'z) WorkflowGrid_scheme" and r where s: "reg g1 = reg g" "control g1 = control g" "switchTopologyAndTeardown env parent ids g1 = (r, g2)"
      "reg g' = reg g2" "control g' = control g2" "res = Inr () \<longrightarrow> r = Inr ()"
    using assms(3) unfolding switching_def undisturbed_def by blast
  obtain listed children where c: "FindCellByID (ListAll (wf_catalog env) (reg g)) parent = Inr (Some p, True)"
      "ListAll (wf_catalog env) (reg g) = Inr listed" "CatalogMergeChildren (Some p) listed = Inr children"
      "ids = map (TrimSpace \<circ> cs_Id) children"
    using planned[OF assms(1)] by metis
  have listed: "listed = List (order (reg g)) (reg g)" using c(2) assms(2) by (simp add: MemoryCatalog_def MemoryCatalog_List_def)
  have names: "[] \<notin> set ids" using plan_names[OF c(3)] c(4) by simp
  have d: "fst (deregister_children env ids g1) = Inr ()" "cells (reg (snd (deregister_children env ids g1))) = cells (reg g) |` (- set ids)"
    using deregister_memory[OF assms(2) names, of g1] s(1) by auto
  have m: "merged order parent children (reg g) (reg g2)"
    if "cells (reg g2) = cells (reg g) |` (- set ids)"
    using c that assms(2) listed unfolding merged_def by auto
  from s(3) show ?thesis
  proof (cases rule: switch_cases)
    case partly
    then show ?thesis using d by simp
  next
    case unresolved
    then have "cells (reg g2) = cells (reg g) |` (- set ids)" "control g2 = control g1" "res \<noteq> Inr ()"
      using d deregister_turns(2)[of env ids g1] s(6) by auto
    then show ?thesis using m s(2,4,5) c(4) by (intro exI[of _ children]) simp
  next
    case (switched h)
    then have "cells (reg g2) = cells (reg g) |` (- set ids)" using d by simp
    then show ?thesis using m verified[OF switched(3)] switched s c(4) by (intro exI[of _ children]) simp
  qed
qed

lemma runOnce_success:
  assumes "merge_runOnce env cfg parent attempt g = (Inr (), g')" "\<forall>t \<in> set (turns g). t_others t = id"
    and "wf_catalog env = MemoryCatalog order"
  shows "\<exists>children. merged order parent children (reg g) (reg g') \<and> centers_resolved (MemoryCatalog order) parent (reg g') \<and>
    ((\<forall>t. bus_error env ''cell.control'' t = None) \<longrightarrow>
       control g' = control g @ (if merge_nats env then map (delete_of \<circ> TrimSpace \<circ> cs_Id) children else []))"
proof -
  have "undisturbed (reg g) g" using assms(2) by (simp add: undisturbed_def)
  from assms(1) this show ?thesis
  proof (rule runOnce_cases)
    assume "unswitched g (Inr ()) g'"
    then show ?thesis by (simp add: unswitched_def)
  next
    fix p ids csv assume pl: "planMergeGroup env parent g = (Inr (p, ids, csv), g)" "switching env parent ids g (Inr ()) g'"
    from switched_memory[OF pl(1) assms(3) pl(2)] obtain children where c: "ids = map (TrimSpace \<circ> cs_Id) children"
        "merged order parent children (reg g) (reg g')" "centers_resolved (MemoryCatalog order) parent (reg g')"
        "(\<forall>t. bus_error env ''cell.control'' t = None) \<longrightarrow> control g' = control g @ (if merge_nats env then map delete_of ids else [])"
      using assms(3) by auto
    then have "(\<forall>t. bus_error env ''cell.control'' t = None) \<longrightarrow>
        control g' = control g @ (if merge_nats env then map (delete_of \<circ> TrimSpace \<circ> cs_Id) children else [])"
      by (simp add: comp_assoc)
    then show ?thesis using c(2,3) by blast
  qed
qed

text \<open>
  C25: A merge that succeeds has switched the topology. With nobody else acting (calls may be lost),
  after a successful attempt exactly the four children that the catalog had for the parent are gone
  from the registry, the center of each quadrant resolves to the parent, and exactly these children,
  in quadrant order, have been asked to be torn down when a bus is connected.
\<close>

theorem merge_success_switches:
  assumes "merge_runOnce env cfg parent attempt g = (Inr (), g')" "\<forall>t \<in> set (turns g). t_others t = id"
    and "wf_catalog env = MemoryCatalog order" "\<forall>t. bus_error env ''cell.control'' t = None"
  shows "\<exists>p children.
    FindCellByID (ListAll (MemoryCatalog order) (reg g)) parent = Inr (Some p, True) \<and>
    CatalogMergeChildren (Some p) (List (order (reg g)) (reg g)) = Inr children \<and>
    cells (reg g') = cells (reg g) |` (- set (map (TrimSpace \<circ> cs_Id) children)) \<and>
    centers_resolved (MemoryCatalog order) parent (reg g') \<and>
    control g' = control g @ (if merge_nats env then map (delete_of \<circ> TrimSpace \<circ> cs_Id) children else [])"
  using runOnce_success[OF assms(1-3)] assms(4) unfolding merged_def by auto

section \<open>A merge that stopped half-way\<close>

lemma memory_find:
  assumes "registry_inv m" "visits (order m) (dom (cells m))"
  shows "FindCellByID (ListAll (MemoryCatalog order) m) i = Inr (cells m i, cells m i \<noteq> None)"
proof -
  have "find_loop i (List (order m) m) = (cells m i, cells m i \<noteq> None)" if "i \<noteq> []"
    using mem.find_entry[OF assms, of i] that by (simp add: FindCellByID_def MemoryCatalog_List_def)
  moreover have "cells m [] = None" using registry_invD[OF assms(1), of "[]"] by (cases "cells m []") auto
  ultimately show ?thesis by (simp add: FindCellByID_def MemoryCatalog_def MemoryCatalog_List_def)
qed

lemma match_quadrant_name:
  assumes "match_quadrant qi l q om ocs = Inr (Some m)"
  shows "(\<forall>c. Some c \<in> set ocs \<and> fits l q c \<longrightarrow> TrimSpace (cs_Id c) = TrimSpace (cs_Id m)) \<and>
    (\<forall>x. om = Some x \<longrightarrow> TrimSpace (cs_Id x) = TrimSpace (cs_Id m))"
  using assms
proof (induction ocs arbitrary: om)
  case (Cons oc ocs)
  show ?case
  proof (cases oc)
    case None
    then show ?thesis using Cons by auto
  next
    case (Some c)
    then show ?thesis
      using Cons.IH[of om] Cons.IH[of "Some c"] Cons.prems
      by (auto simp: match_quadrant_Some simp del: match_quadrant.simps split: if_splits option.splits)
  qed
qed auto

text \<open>Once the children are removed, the parent has no merge group any more.\<close>

lemma merged_no_group:
  assumes "merged order parent children m m'" "registry_inv m" "\<forall>i \<in> dom (cells m). TrimSpace i = i"
    and "visits (order m) (dom (cells m))" "visits (order m') (dom (cells m'))"
    and "FindCellByID (ListAll (MemoryCatalog order) m') parent = Inr (Some p', True)"
  shows "\<exists>e. CatalogMergeChildren (Some p') (List (order m') m') = Inl e"
proof (rule ccontr)
  assume "\<nexists>e. CatalogMergeChildren (Some p') (List (order m') m') = Inl e"
  then obtain ds where ds: "CatalogMergeChildren (Some p') (List (order m') m') = Inr ds"
    by (cases "CatalogMergeChildren (Some p') (List (order m') m')") auto
  obtain p where p: "FindCellByID (ListAll (MemoryCatalog order) m) parent = Inr (Some p, True)"
      "CatalogMergeChildren (Some p) (List (order m) m) = Inr children"
      "cells m' = cells m |` (- set (map (TrimSpace \<circ> cs_Id) children))"
    using assms(1) by (auto simp: merged_def)
  have "dom (cells m') \<subseteq> dom (cells m)" by (auto simp: p(3) restrict_map_def split: if_splits)
  then have inv: "registry_inv m'"
    using assms(2) p(3) finite_subset by (auto simp: registry_inv_def restrict_map_def split: if_splits)
  have "p' = p" using memory_find[where order = order, OF assms(2,4), of parent] memory_find[where order = order, OF inv assms(5), of parent] p(1,3) assms(6)
    by (auto simp: restrict_map_def split: if_splits)
  obtain b where b: "cs_Bounds p = Some b" using p(2) by (auto simp: CatalogMergeChildren_Inr)
  let ?l = "to_int32 (cs_Level p + 1)" and ?q = "SplitFour b ! 0"
  obtain c where c: "match_quadrant 0 ?l ?q None (List (order m) m) = Inr (Some c)" "c \<in> set children"
    using p(2) b by (auto simp: CatalogMergeChildren_Inr split: sum.splits option.splits)
  obtain d where "match_quadrant 0 ?l ?q None (List (order m') m') = Inr (Some d)"
    using ds b \<open>p' = p\<close> by (auto simp: CatalogMergeChildren_Inr split: sum.splits option.splits)
  then have d: "Some d \<in> set (List (order m') m')" "fits ?l ?q d" using match_quadrant_sound by blast+
  then obtain i where i: "cells m' i = Some d" by (auto simp: List_def)
  then have di: "cells m i = Some d" "i \<notin> set (map (TrimSpace \<circ> cs_Id) children)" "cs_Id d = i"
    using p(3) registry_invD[OF inv i] by (auto simp: restrict_map_def split: if_splits)
  then have "Some d \<in> set (List (order m) m)" using assms(4) by (force simp: List_def visits_def)
  then have "TrimSpace (cs_Id d) = TrimSpace (cs_Id c)" using match_quadrant_name[OF c(1)] d(2) by blast
  moreover have "TrimSpace (cs_Id d) = i" using assms(3) di by auto
  ultimately show False using di(2) c(2) by auto
qed

text \<open>
  C26: A merge that fails after it has begun to remove children is never completed. If an attempt, with
  nobody else acting, has changed the registry, then every later attempt on this registry, in
  whatever state the rest of the grid is, fails at once and changes nothing; and if the quadrants were
  not resolved to the parent, the removed children have never been asked to be torn down.
\<close>

theorem partial_merge_is_final:
  assumes "merge_runOnce env cfg parent attempt g = (res, g1)" "\<forall>t \<in> set (turns g). t_others t = id"
    and "wf_catalog env = MemoryCatalog order" "registry_inv (reg g)" "\<forall>i \<in> dom (cells (reg g)). TrimSpace i = i"
    and "visits (order (reg g)) (dom (cells (reg g)))" "visits (order (reg g1)) (dom (cells (reg g1)))"
    and "reg g1 \<noteq> reg g" "reg h = reg g1"
  shows "(\<exists>e. merge_runOnce env cfg' parent k h = (Inl e, h)) \<and>
    (\<not> centers_resolved (MemoryCatalog order) parent (reg g1) \<longrightarrow> control g1 = control g)"
proof -
  have "undisturbed (reg g) g" using assms(2) by (simp add: undisturbed_def)
  from assms(1) this show ?thesis
  proof (rule runOnce_cases)
    assume "unswitched g res g1"
    then show ?thesis using assms(8) by (simp add: unswitched_def undisturbed_def)
  next
    fix p ids csv assume pl: "planMergeGroup env parent g = (Inr (p, ids, csv), g)" "switching env parent ids g res g1"
    obtain children where m: "merged order parent children (reg g) (reg g1)"
        "\<not> centers_resolved (MemoryCatalog order) parent (reg g1) \<longrightarrow> control g1 = control g"
      using switched_memory[OF pl(1) assms(3) pl(2)] assms(3) by auto
    have "\<exists>e. planMergeGroup env parent h = (Inl e, h)"
    proof (rule ccontr)
      assume "\<nexists>e. planMergeGroup env parent h = (Inl e, h)"
      then obtain p' ids' csv' h' where "planMergeGroup env parent h = (Inr (p', ids', csv'), h')"
        using plan_same[of env parent h] by (cases "planMergeGroup env parent h"; cases "fst (planMergeGroup env parent h)") auto
      then obtain listed children' where "FindCellByID (ListAll (MemoryCatalog order) (reg h)) parent = Inr (Some p', True)"
          "ListAll (MemoryCatalog order) (reg h) = Inr listed" "CatalogMergeChildren (Some p') listed = Inr children'"
        using planned assms(3) by metis
      then show False
        using merged_no_group[OF m(1) assms(4,5,6,7), of p'] assms(9) by (auto simp: MemoryCatalog_def MemoryCatalog_List_def)
    qed
    then show ?thesis using m(2) by (auto simp: merge_runOnce_def andThen_def)
  qed
qed

end
