(* ===== verification/Merge_Switch_Demo.thy ===== *)
theory Merge_Switch_Demo
  imports Split_Demo Merge_Switch
begin

text \<open>The merge workflow in the world of \<open>Merge_Demo\<close>: an attempt that succeeds, and the ones after it.\<close>

lemma pingStats_empty:
  assumes "idle merge_world ss g" "empty_cells ss" "ep \<in> set (''a'' # merge_names)"
  shows "\<exists>n. pingCellStats wf_env ep g = (Inr (0, n), g)"
proof -
  obtain s where s: "ss ep = Some s" "PlayerCount s = 0" using bspec[OF assms(2)[unfolded empty_cells_def] assms(3)] by (elim exE conjE)
  have "call ep (\<lambda>now s. (Ping (unix_ms now) s, s)) g = (Inr (Ping (unix_ms (clock g)) s), g)"
    using assms(1) s(1) by (simp add: idle_def call_def next_turn_def fun_upd_idem)
  moreover have "ping_PlayerCount (Ping t s) = 0" for t
    using s(2) by (simp add: Ping_def Let_def to_int32_def split: option.split)
  ultimately show ?thesis by (simp add: pingCellStats_def dialled_call_def andThen_def give_def)
qed

lemma merge_child_endpoint:
  assumes "i \<in> set merge_names"
  shows "\<exists>c. FindCellByID (ListAll merge_catalog merge_world) i = Inr (Some c, True) \<and> cs_GrpcEndpoint c = i"
  using merge_demo_find(2)[OF assms] by (simp add: merge_demo_list)

lemma preflight_empty:
  assumes "idle merge_world ss g" "empty_cells ss" "set ids \<subseteq> set merge_names"
  shows "preflight_children wf_env demo_merge 0 ids g = (Inr 0, g)"
  using assms(3)
proof (induction ids)
  case (Cons i ids)
  then have i: "i \<in> set merge_names" "i \<in> set (''a'' # merge_names)" by auto
  obtain c where c: "FindCellByID (ListAll merge_catalog merge_world) i = Inr (Some c, True)" "cs_GrpcEndpoint c = i"
    using merge_child_endpoint[OF i(1)] by blast
  obtain n where n: "pingCellStats wf_env i g = (Inr (0, n), g)" using pingStats_empty[OF assms(1,2) i(2)] by blast
  have "reg g = merge_world" using assms(1) by (simp add: idle_def)
  then show ?case using Cons c n by (simp add: andThen_def wrapping_def)
qed (simp add: give_def)

lemma demo_plan:
  assumes "reg g = merge_world"
  shows "\<exists>csv. planMergeGroup wf_env ''cell_root'' g = (Inr (world_parent, merge_names, csv), g)"
proof -
  have "map (\<lambda>c. TrimSpace (cs_Id c)) merge_children = merge_names"
    using merge_names_trimmed(2) by (simp add: merge_names_def registered_def world_child_names merge_children_def)
  then show ?thesis
    using assms merge_demo_children by (simp add: planMergeGroup_def merge_demo_list merge_demo_find(1) give_def Let_def)
qed

text \<open>Switching the drain of the parent answers, and leaves the cells empty.\<close>

lemma demo_drain:
  fixes g :: "(Memory, 'z) Grid_scheme"
  assumes "reg g = merge_world" "turns g = []" "empty_cells (servers g)"
  shows "\<exists>g'. setSplitDrain wf_env addr ''cell_root'' on g = (Inr (), g') \<and> reg g' = merge_world \<and> turns g' = [] \<and>
    empty_cells (servers g') \<and> (\<exists>ss. g' = g\<lparr>servers := ss\<rparr>)"
proof -
  have "''a'' \<in> set (''a'' # merge_names)" by simp
  from bspec[OF assms(3)[unfolded empty_cells_def] this] obtain s where
    s: "servers g ''a'' = Some s" "Sim s = Some NewRuntime" "PlayerCount s = 0" by (elim exE conjE)
  have at: "address wf_env (reg g) ''cell_root'' = Some ''a''" using assms(1) merge_demo_address(1)[of "()"] by (simp add: wf_address)
  obtain r where u: "Update (js wf_env) (visit_live wf_env s) (Some (Some (SetSplitDrain (Some on)))) s = (r, s\<lparr>splitDrain := on\<rparr>)"
    by (simp add: Update_def update_set_drain_def)
  let ?ss = "(servers g)(''a'' \<mapsto> s\<lparr>splitDrain := on\<rparr>)"
  have "doForwardCellUpdate wf_env ''cell_root'' (Some (Some (SetSplitDrain (Some on)))) g = (Inr r, g\<lparr>servers := ?ss\<rparr>)"
    by (rule update_quiet[OF assms(2) at s(1) u])
  then have "setSplitDrain wf_env addr ''cell_root'' on g = (Inr (), g\<lparr>servers := ?ss\<rparr>)"
    using assms(2) by (simp add: setSplitDrain_def registry_call_def next_turn_def ForwardCellUpdate_def andThen_def give_def)
  moreover have "empty_cells ?ss"
    using assms(3) s by (simp add: empty_cells_def PlayerCount_def)
  ultimately show ?thesis using assms by auto
qed

text \<open>After the switch only the parent is registered, and it covers the centers.\<close>

definition after_merge :: Memory where
  "after_merge = \<lparr>cells = [''cell_root'' \<mapsto> world_parent]\<rparr>"

lemma after_merge_cells: "cells merge_world |` (- set merge_names) = cells after_merge"
  by (auto simp: fun_eq_iff restrict_map_def after_merge_def merge_world_def merge_names_def registered_def world_child_names)

lemma after_merge_list: "ListAll merge_catalog after_merge = Inr [Some world_parent]"
  by (simp add: MemoryCatalog_def MemoryCatalog_List_def List_def merge_order_def after_merge_def merge_names_def)

lemma after_merge_centers:
  fixes g :: "(Memory, 'z) Grid_scheme"
  assumes "reg g = after_merge"
  shows "resolve_centers wf_env ''cell_root'' world_plan g = (Inr (), g)"
  using assms
  by (simp add: give_def center_of_def MemoryCatalog_def MemoryCatalog_ResolveMostSpecific_def ResolveMostSpecific_def
      merge_order_def after_merge_def merge_names_def SplitFour_nth Mid_def Contains_iff)

section \<open>The attempt\<close>

lemma demo_forward:
  fixes g :: "(Memory, 'z) WorkflowGrid_scheme"
  assumes "reg g = merge_world" "turns g = []" "mergeInFlight g = {}" "empty_cells (servers g)"
  shows "\<exists>resp g'. forwardMerge wf_env demo_merge ''cell_root'' merge_names reason g = (Inr resp, g') \<and> undisturbed merge_world g'"
proof -
  obtain resp where "fst (ForwardMergeHandoff wf_env (Some (merge_request_for reason)) g) = Inr resp"
    using merge_demo_success[OF assms, of "merge_env.more wf_env" reason] wf_env_demo by auto
  then have "fst (forwardMerge wf_env demo_merge ''cell_root'' merge_names reason g) = Inr resp"
    using assms(2) by (simp add: forwardMerge_def registry_call_def next_turn_def merge_request_for_def)
  then obtain g' where f: "forwardMerge wf_env demo_merge ''cell_root'' merge_names reason g = (Inr resp, g')"
    by (metis prod.collapse)
  have "calm merge_world (control g) g" using assms(1,2) by (simp add: undisturbed_def)
  from keepsD[OF steady.kept_forward this f] f show ?thesis by blast
qed

lemma demo_verify:
  fixes g :: "(Memory, 'z) Grid_scheme"
  assumes "reg g = after_merge"
  shows "verifyResolveToParent wf_env ''cell_root'' g = (Inr (), g)"
  using assms after_merge_centers[OF assms] world_plan
  by (simp add: verifyResolveToParent_def after_merge_list FindCellByID_def)

lemma demo_switch:
  fixes g :: "(Memory, 'z) WorkflowGrid_scheme"
  assumes "reg g = merge_world"
  shows "\<exists>g'. switchTopologyAndTeardown wf_env ''cell_root'' merge_names g = (Inr (), g')"
proof -
  have d: "fst (deregister_children wf_env merge_names g) = Inr () \<and>
      cells (reg (snd (deregister_children wf_env merge_names g))) = cells (reg g) |` (- set merge_names)"
    by (rule deregister_memory) (simp_all add: merge_names_def)
  obtain g1 where g1: "deregister_children wf_env merge_names g = (Inr (), g1)" using d by (metis prod.collapse)
  have "cells (reg g1) = cells after_merge" using d g1 assms after_merge_cells by simp
  then have "reg g1 = after_merge" by (cases "reg g1") (simp add: after_merge_def)
  then show ?thesis
    using g1 demo_verify[of g1] by (simp add: switchTopologyAndTeardown_def andThen_def doing_def give_def)
qed

lemma demo_body:
  fixes g :: "(Memory, 'z) WorkflowGrid_scheme"
  assumes "reg g = merge_world" "turns g = []" "mergeInFlight g = {}" "empty_cells (servers g)"
  shows "\<exists>g'. merge_body wf_env demo_merge ''cell_root'' 1 merge_names csv 0 g = (Inr (), g')"
proof -
  obtain resp g1 where f: "forwardMerge wf_env demo_merge ''cell_root'' merge_names (''auto-merge-attempt-'' @ Itoa 1) g = (Inr resp, g1)"
      "undisturbed merge_world g1"
    using demo_forward[OF assms] by blast
  let ?g1 = "merge_wf_event wf_env ''cell_root'' ''handoff_done'' 1 (Said [Text ''children exported and imported into parent'']) csv Map.empty True g1"
  obtain g2 where sw: "switchTopologyAndTeardown wf_env ''cell_root'' merge_names ?g1 = (Inr (), g2)"
    using demo_switch[of ?g1] f(2) by (auto simp: undisturbed_def)
  have redis: "redisSet wf_env = (\<lambda>k st store. (None, store(k \<mapsto> st)))" by (simp add: wf_env_def)
  have "\<exists>g'. saveAutomationState wf_env demo_merge ''cell_root'' merge_names 0 g2 = (Inr (), g')"
    by (simp add: saveAutomationState_def redis give_def Let_def)
  then show ?thesis using f(1) sw by (simp add: merge_body_def andThen_def doing_def)
qed

lemma demo_attempt:
  "\<exists>g'. merge_runOnce wf_env demo_merge ''cell_root'' 1 (wf_grid merge_demo_servers) = (Inr (), g')"
proof -
  let ?g = "wf_grid merge_demo_servers"
  obtain csv where pl: "planMergeGroup wf_env ''cell_root'' ?g = (Inr (world_parent, merge_names, csv), ?g)"
    using demo_plan[of ?g] by auto
  define g1 where "g1 = merge_wf_event wf_env ''cell_root'' ''preflight'' 1 (Said [Text ''validate child readiness and player guards'']) csv Map.empty False ?g"
  have g1: "idle merge_world merge_demo_servers g1" by (simp add: g1_def idle_def)
  obtain n where n: "pingCellStats wf_env ''a'' g1 = (Inr (0, n), g1)"
    using pingStats_empty[OF g1 merge_demo_empty, of "''a''"] by auto
  have pre: "preflightGroup wf_env demo_merge world_parent merge_names g1 = (Inr 0, g1)"
    using n preflight_empty[OF g1 merge_demo_empty, of merge_names] by (simp add: preflightGroup_def andThen_def wrapping_def give_def demo_merge_def)
  have e1: "empty_cells (servers g1)" "reg g1 = merge_world" "turns g1 = []"
    using g1 merge_demo_empty by (simp_all add: idle_def)
  obtain g2 where g2: "setSplitDrain wf_env (mw_registryAddr demo_merge) ''cell_root'' True g1 = (Inr (), g2)"
      "reg g2 = merge_world" "turns g2 = []" "empty_cells (servers g2)" "mergeInFlight g2 = mergeInFlight g1"
    using demo_drain[OF e1(2,3,1), of "mw_registryAddr demo_merge" True] by auto
  have "mergeInFlight g2 = {}" by (simp add: g2(5) g1_def merge_wf_event_def merge_wf_publish_def wf_grid_def)
  then obtain g3 where b: "merge_body wf_env demo_merge ''cell_root'' 1 merge_names csv 0 g2 = (Inr (), g3)"
    using demo_body[OF g2(2,3) _ g2(4)] by blast
  show ?thesis
    using pl pre g2(1) b by (simp add: merge_runOnce_def andThen_def doing_def deferring_def wrapping_def g1_def[symmetric])
qed

lemma merge_child_names: "set (map (TrimSpace \<circ> cs_Id) merge_children) = set merge_names"
  using merge_names_trimmed(2) by (simp add: merge_names_def registered_def world_child_names merge_children_def)

theorem merge_success_switches_witness:
  "\<exists>g'. merge_runOnce wf_env demo_merge ''cell_root'' 1 (wf_grid merge_demo_servers) = (Inr (), g') \<and>
     control g' = map delete_of merge_names \<and> centers_resolved merge_catalog ''cell_root'' (reg g')"
proof -
  obtain g' where r: "merge_runOnce wf_env demo_merge ''cell_root'' 1 (wf_grid merge_demo_servers) = (Inr (), g')"
    using demo_attempt by blast
  have p: "FindCellByID (ListAll merge_catalog merge_world) ''cell_root'' = Inr (Some world_parent, True)"
    by (simp add: merge_demo_list merge_demo_find(1))
  have l: "List (merge_order merge_world) merge_world = merge_listing"
    using merge_demo_listing by (simp add: MemoryCatalog_List_def)
  have ids: "map (delete_of \<circ> TrimSpace \<circ> cs_Id) merge_children = map delete_of merge_names"
    using merge_names_trimmed(2) by (simp add: merge_names_def registered_def world_child_names merge_children_def)
  have quiet: "\<forall>t \<in> set (turns (wf_grid merge_demo_servers)). t_others t = id" "control (wf_grid merge_demo_servers) = []"
    by (simp_all add: wf_grid_def)
  obtain p children where c: "FindCellByID (ListAll merge_catalog merge_world) ''cell_root'' = Inr (Some p, True)"
      "CatalogMergeChildren (Some p) (List (merge_order merge_world) merge_world) = Inr children"
      "centers_resolved merge_catalog ''cell_root'' (reg g')" "control g' = map (delete_of \<circ> TrimSpace \<circ> cs_Id) children"
    using merge_success_switches[OF r quiet(1) wf_env_sel(4)] quiet(2) by auto
  then have "children = merge_children" using p l merge_demo_children by simp
  then show ?thesis using r c(3,4) ids by simp
qed

lemma merge_world_sound:
  "registry_inv merge_world" "\<forall>i \<in> dom (cells merge_world). TrimSpace i = i"
  "visits (merge_order merge_world) (dom (cells merge_world))" "visits (merge_order after_merge) (dom (cells after_merge))"
proof -
  have "registry_inv world_split" using mem.register_all_entries[OF world_inv world_split] by (rule conjunct1)
  then show "registry_inv merge_world" by (simp add: merge_world_def)
  have d: "dom (cells merge_world) = set (''cell_root'' # merge_names)"
    by (auto simp: merge_world_def merge_names_def registered_def world_child_names)
  show "\<forall>i \<in> dom (cells merge_world). TrimSpace i = i" unfolding d using merge_names_trimmed by simp
  show "visits (merge_order merge_world) (dom (cells merge_world))"
    unfolding d merge_order_world by (simp add: visits_def merge_names_def)
  show "visits (merge_order after_merge) (dom (cells after_merge))"
    by (simp add: visits_def merge_order_def after_merge_def merge_names_def)
qed

theorem partial_merge_is_final_witness:
  "\<exists>g1. merge_runOnce wf_env demo_merge ''cell_root'' 1 (wf_grid merge_demo_servers) = (Inr (), g1) \<and>
     (\<exists>e. merge_runOnce wf_env demo_merge ''cell_root'' 2 g1 = (Inl e, g1))"
proof -
  obtain g1 where r: "merge_runOnce wf_env demo_merge ''cell_root'' 1 (wf_grid merge_demo_servers) = (Inr (), g1)"
    using demo_attempt by blast
  have "\<forall>t \<in> set (turns (wf_grid merge_demo_servers)). t_others t = id" by simp
  from runOnce_success[OF r this wf_env_sel(4)] obtain children where "merged merge_order ''cell_root'' children merge_world (reg g1)"
    by auto
  then have "cells (reg g1) = cells merge_world |` (- set merge_names)"
    using merge_demo_list merge_demo_find(1) merge_demo_children merge_demo_listing merge_child_names
    by (auto simp: merged_def MemoryCatalog_List_def)
  then have reg: "reg g1 = after_merge"
    unfolding after_merge_cells by (cases "reg g1") (simp add: after_merge_def)
  have "after_merge \<noteq> merge_world"
  proof
    assume "after_merge = merge_world"
    then have "cells after_merge ''cell_q0'' = cells merge_world ''cell_q0''" by simp
    then show False by (simp add: after_merge_def merge_world_def registered_def world_child_names)
  qed
  then show ?thesis
    using partial_merge_is_final[OF r _ wf_env_sel(4), of g1 demo_merge 2] merge_world_sound reg r by (auto simp: wf_grid_def)
qed

end
