(* ===== verification/Player_DB.thy ===== *)
theory Player_DB
  imports Go_Prelude Float64 "HOL-Library.AList" "HOL-Library.List_Lexorder" "HOL-Library.Char_ord"
begin

text \<open>
  Package \<open>db\<close> (\<open>src/internal/db/db.go\<close> with the schema of \<open>migrations/*.sql\<close>): what the gateway
  and the indexer keep in Postgres. A table is the list of its rows under their primary key
  (\<open>updated_at\<close> and \<open>created_at\<close> columns and the serial ids are left out: nothing reads them). An
  SQL statement of the source is a function on the tables that fails with the constraint it
  violates.

  The server is a parameter, a record of three functions: what becomes of the n-th request (served,
  never executed, or executed with the reply lost), which strings it takes as a \<open>text\<close> value, and
  the sort key of its collation. Transactions run one at a time.
\<close>

section \<open>The tables\<close>

record PlayerLastCellRecord =
  lc_CellID :: string
  lc_ResolveX :: f64
  lc_ResolveZ :: f64

record QuestDef =
  TargetProgress :: int
  RewardGold :: int
  RewardItemID :: "string option"
  RewardItemQty :: int
  prerequisite :: "string option"

record quest_row =
  quest_state :: string
  quest_progress :: int

record item_def =
  display_name :: string
  stack_max :: int

record inventorySlotJSON =
  slot_ItemID :: string
  slot_Qty :: int

record ChainEventRow =
  ev_ChainID :: int
  ev_BlockNumber :: int
  ev_BlockHash :: string
  ev_TxHash :: string
  ev_LogIndex :: int
  ev_ContractAddress :: string
  ev_EventName :: string
  ev_Payload :: string

record player_tables =
  session_issue :: "string list"
  player_last_cell :: "(string \<times> PlayerLastCellRecord) list"
  player_profile :: "(string \<times> string) list"
  player_stats :: "(string \<times> int \<times> int) list"
  player_wallet :: "(string \<times> int) list"
  player_inventory :: "(string \<times> inventorySlotJSON list) list"
  player_quest :: "((string \<times> string) \<times> quest_row) list"
  player_item :: "((string \<times> string) \<times> int) list"
  item_catalog :: "(string \<times> item_def) list"
  quest_catalog :: "(string \<times> QuestDef) list"
  chain_cursor :: "(int \<times> int \<times> string) list"
  chain_tx_event :: "((int \<times> string \<times> int) \<times> ChainEventRow) list"
  wallet_address :: "(string \<times> string \<times> int) list"

text \<open>\<open>ON CONFLICT \<dots> DO NOTHING\<close> leaves an existing row alone.\<close>

definition insert_new :: "'k \<Rightarrow> 'v \<Rightarrow> ('k \<times> 'v) list \<Rightarrow> ('k \<times> 'v) list" where
  "insert_new k v t = (if map_of t k = None then t @ [(k, v)] else t)"

named_theorems table_simps \<open>lookups in a table after a statement\<close>

lemma map_of_insert_new [table_simps]:
  "map_of (insert_new k v t) k' =
     (case map_of t k' of Some w \<Rightarrow> Some w | None \<Rightarrow> if k' = k then Some v else None)"
  by (auto simp: insert_new_def map_add_def split: option.splits)

lemma map_of_update [table_simps]: "map_of (AList.update k v t) = (map_of t)(k \<mapsto> v)"
  by (rule update_conv')

lemma map_of_delete [table_simps]: "map_of (AList.delete k t) = (map_of t)(k := None)"
  by (rule delete_conv')

lemma distinct_insert_new:
  "distinct (map fst t) \<Longrightarrow> distinct (map fst (insert_new k v t))"
  by (auto simp: insert_new_def map_of_eq_None_iff)

section \<open>The server\<close>

datatype request_fate = Served | Refused | AnswerLost

record postgres =
  reply :: "nat \<Rightarrow> request_fate"
  accepts_text :: "string \<Rightarrow> bool"
  collate :: "string \<Rightarrow> string"

datatype db_cause =
    Connection | BadText | OutOfRange | CheckViolation | ForeignKeyViolation | UniqueViolation
  | TxAborted | CommitRolledBack

datatype db_error = Postgres db_cause | Refusal string

type_synonym 'r sql = "player_tables \<Rightarrow> db_cause + 'r \<times> player_tables"

text \<open>A database as a client sees it: its tables and the number of requests made so far.\<close>

record database =
  tables :: player_tables
  requests :: nat

text \<open>\<open>pool.Exec\<close>, \<open>pool.Query\<close>, \<open>pool.QueryRow\<close>: a statement on its own.\<close>

definition pool_exec :: "postgres \<Rightarrow> string list \<Rightarrow> 'r sql \<Rightarrow> database \<Rightarrow> (db_error + 'r) \<times> database" where
  "pool_exec pg texts q d =
     (let d1 = d\<lparr>requests := Suc (requests d)\<rparr>
      in if reply pg (requests d) = Refused then (Inl (Postgres Connection), d1)
         else if \<not> list_all (accepts_text pg) texts then (Inl (Postgres BadText), d1)
         else (case q (tables d) of
                 Inl c \<Rightarrow> (Inl (Postgres c), d1)
               | Inr (r, t) \<Rightarrow>
                   (if reply pg (requests d) = AnswerLost then Inl (Postgres Connection) else Inr r,
                    d1\<lparr>tables := t\<rparr>)))"

text \<open>
  A transaction works on a copy of the tables. After a failed statement the server refuses every
  further one, and a commit is then a rollback.
\<close>

record tx =
  tx_tables :: player_tables
  tx_aborted :: bool
  tx_requests :: nat

type_synonym 'r tx_body = "tx \<Rightarrow> (db_error + 'r) \<times> tx"

definition tx_exec :: "postgres \<Rightarrow> string list \<Rightarrow> 'r sql \<Rightarrow> 'r tx_body" where
  "tx_exec pg texts q x =
     (let x1 = x\<lparr>tx_requests := Suc (tx_requests x)\<rparr>;
          fail = (\<lambda>c. (Inl (Postgres c), x1\<lparr>tx_aborted := True\<rparr>))
      in if reply pg (tx_requests x) \<noteq> Served then fail Connection
         else if tx_aborted x then fail TxAborted
         else if \<not> list_all (accepts_text pg) texts then fail BadText
         else (case q (tx_tables x) of
                 Inl c \<Rightarrow> fail c
               | Inr (r, t) \<Rightarrow> (Inr r, x1\<lparr>tx_tables := t\<rparr>)))"

definition tx_then :: "'r tx_body \<Rightarrow> ('r \<Rightarrow> 's tx_body) \<Rightarrow> 's tx_body" where
  "tx_then m k x =
     (case m x of (Inl e, x') \<Rightarrow> (Inl e, x') | (Inr r, x') \<Rightarrow> k r x')"

definition tx_give :: "'r \<Rightarrow> 'r tx_body" where
  "tx_give r x = (Inr r, x)"

definition fail_with :: "string \<Rightarrow> 'r tx_body" where
  "fail_with msg x = (Inl (Refusal msg), x)"

text \<open>
  \<open>pool.Begin\<close>, the statements, \<open>tx.Commit\<close>, with the deferred \<open>tx.Rollback\<close>. The body says whether
  it commits: a return before \<open>Commit\<close> rolls back.
\<close>

definition with_tx :: "postgres \<Rightarrow> ('r \<times> bool) tx_body \<Rightarrow> database \<Rightarrow> (db_error + 'r) \<times> database" where
  "with_tx pg body d =
     (let d1 = d\<lparr>requests := Suc (requests d)\<rparr>
      in if reply pg (requests d) \<noteq> Served then (Inl (Postgres Connection), d1)
         else (case body \<lparr>tx_tables = tables d, tx_aborted = False, tx_requests = requests d1\<rparr> of
                 (Inl e, x) \<Rightarrow> (Inl e, d1\<lparr>requests := tx_requests x\<rparr>)
               | (Inr (r, commit), x) \<Rightarrow>
                   (if \<not> commit then (Inr r, d1\<lparr>requests := tx_requests x\<rparr>)
                    else
                      (let d2 = d1\<lparr>requests := Suc (tx_requests x)\<rparr>
                       in case reply pg (tx_requests x) of
                            Refused \<Rightarrow> (Inl (Postgres Connection), d2)
                          | Served \<Rightarrow>
                              if tx_aborted x then (Inl (Postgres CommitRolledBack), d2)
                              else (Inr r, d2\<lparr>tables := tx_tables x\<rparr>)
                          | AnswerLost \<Rightarrow>
                              (Inl (Postgres Connection),
                               if tx_aborted x then d2 else d2\<lparr>tables := tx_tables x\<rparr>)))))"

section \<open>Sessions, last cell, profile\<close>

definition insert_session_issue :: "string \<Rightarrow> unit sql" where
  "insert_session_issue p T = Inr ((), T\<lparr>session_issue := session_issue T @ [p]\<rparr>)"

definition RecordSessionIssue :: "postgres \<Rightarrow> string \<Rightarrow> database \<Rightarrow> (db_error + unit) \<times> database" where
  "RecordSessionIssue pg playerID = pool_exec pg [playerID] (insert_session_issue playerID)"

definition GetPlayerLastCellRecord ::
  "postgres \<Rightarrow> string \<Rightarrow> database \<Rightarrow> (db_error + PlayerLastCellRecord option) \<times> database" where
  "GetPlayerLastCellRecord pg playerID =
     pool_exec pg [playerID] (\<lambda>T. Inr (map_of (player_last_cell T) playerID, T))"

definition GetPlayerLastCellCoords ::
  "postgres \<Rightarrow> string \<Rightarrow> database \<Rightarrow> (db_error + (f64 \<times> f64) option) \<times> database" where
  "GetPlayerLastCellCoords pg playerID =
     pool_exec pg [playerID]
       (\<lambda>T. Inr (map_option (\<lambda>r. (lc_ResolveX r, lc_ResolveZ r)) (map_of (player_last_cell T) playerID), T))"

definition upsert_last_cell :: "string \<Rightarrow> string \<Rightarrow> f64 \<Rightarrow> f64 \<Rightarrow> unit sql" where
  "upsert_last_cell p cellID x z T =
     Inr ((), T\<lparr>player_last_cell :=
       AList.update p \<lparr>lc_CellID = cellID, lc_ResolveX = x, lc_ResolveZ = z\<rparr> (player_last_cell T)\<rparr>)"

definition UpsertPlayerLastCell ::
  "postgres \<Rightarrow> string \<Rightarrow> string \<Rightarrow> f64 \<Rightarrow> f64 \<Rightarrow> database \<Rightarrow> (db_error + unit) \<times> database" where
  "UpsertPlayerLastCell pg playerID cellID resolveX resolveZ =
     pool_exec pg [playerID, cellID] (upsert_last_cell playerID cellID resolveX resolveZ)"

definition maxDisplayNameLen :: nat where
  "maxDisplayNameLen = 128"

definition upsert_profile :: "string \<Rightarrow> string \<Rightarrow> unit sql" where
  "upsert_profile p name T = Inr ((), T\<lparr>player_profile := AList.update p name (player_profile T)\<rparr>)"

definition UpsertPlayerProfile ::
  "postgres \<Rightarrow> string \<Rightarrow> string \<Rightarrow> database \<Rightarrow> (db_error + unit) \<times> database" where
  "UpsertPlayerProfile pg playerID displayName d =
     (let name = TrimSpace displayName
      in if name = [] then (Inr (), d)
         else (let cut = (if length name > maxDisplayNameLen then take maxDisplayNameLen name else name)
               in pool_exec pg [playerID, cut] (upsert_profile playerID cut) d))"

section \<open>Stats, wallet, inventory, quest rows\<close>

definition insert_stats :: "string \<Rightarrow> unit sql" where
  "insert_stats p T = Inr ((), T\<lparr>player_stats := insert_new p (1, 0) (player_stats T)\<rparr>)"

definition EnsurePlayerStats :: "postgres \<Rightarrow> string \<Rightarrow> database \<Rightarrow> (db_error + unit) \<times> database" where
  "EnsurePlayerStats pg playerID = pool_exec pg [playerID] (insert_stats playerID)"

definition GetPlayerStats ::
  "postgres \<Rightarrow> string \<Rightarrow> database \<Rightarrow> (db_error + (int \<times> int) option) \<times> database" where
  "GetPlayerStats pg playerID =
     pool_exec pg [playerID] (\<lambda>T. Inr (map_of (player_stats T) playerID, T))"

definition insert_wallet :: "string \<Rightarrow> unit sql" where
  "insert_wallet p T = Inr ((), T\<lparr>player_wallet := insert_new p 0 (player_wallet T)\<rparr>)"

definition EnsurePlayerWallet :: "postgres \<Rightarrow> string \<Rightarrow> database \<Rightarrow> (db_error + unit) \<times> database" where
  "EnsurePlayerWallet pg playerID = pool_exec pg [playerID] (insert_wallet playerID)"

definition GetPlayerWallet ::
  "postgres \<Rightarrow> string \<Rightarrow> database \<Rightarrow> (db_error + int option) \<times> database" where
  "GetPlayerWallet pg playerID =
     pool_exec pg [playerID] (\<lambda>T. Inr (map_of (player_wallet T) playerID, T))"

definition insert_inventory :: "string \<Rightarrow> unit sql" where
  "insert_inventory p T = Inr ((), T\<lparr>player_inventory := insert_new p [] (player_inventory T)\<rparr>)"

definition EnsurePlayerInventory :: "postgres \<Rightarrow> string \<Rightarrow> database \<Rightarrow> (db_error + unit) \<times> database" where
  "EnsurePlayerInventory pg playerID = pool_exec pg [playerID] (insert_inventory playerID)"

definition GetPlayerInventoryItems ::
  "postgres \<Rightarrow> string \<Rightarrow> database \<Rightarrow> (db_error + inventorySlotJSON list option) \<times> database" where
  "GetPlayerInventoryItems pg playerID =
     pool_exec pg [playerID] (\<lambda>T. Inr (map_of (player_inventory T) playerID, T))"

abbreviation "fresh_quest \<equiv> \<lparr>quest_state = ''active'', quest_progress = 0\<rparr>"

definition insert_quest_seed :: "string \<Rightarrow> unit sql" where
  "insert_quest_seed p T =
     Inr ((), T\<lparr>player_quest := insert_new (p, ''tutorial_intro'') fresh_quest (player_quest T)\<rparr>)"

definition EnsurePlayerQuestSeed :: "postgres \<Rightarrow> string \<Rightarrow> database \<Rightarrow> (db_error + unit) \<times> database" where
  "EnsurePlayerQuestSeed pg playerID = pool_exec pg [playerID] (insert_quest_seed playerID)"

text \<open>\<open>WHERE player_id = $1 \<dots> ORDER BY\<close>: the rows of a player in the order of the collation.\<close>

definition rows_of :: "postgres \<Rightarrow> string \<Rightarrow> ((string \<times> string) \<times> 'v) list \<Rightarrow> (string \<times> 'v) list" where
  "rows_of pg p t =
     sort_key (collate pg \<circ> fst) (map (\<lambda>((_, k), v). (k, v)) (filter (\<lambda>((q, _), _). q = p) t))"

definition ListPlayerQuests ::
  "postgres \<Rightarrow> string \<Rightarrow> database \<Rightarrow> (db_error + (string \<times> quest_row) list) \<times> database" where
  "ListPlayerQuests pg playerID =
     pool_exec pg [playerID] (\<lambda>T. Inr (rows_of pg playerID (player_quest T), T))"

record PlayerQuestAPIRow =
  api_QuestID :: string
  api_State :: string
  api_Progress :: int
  api_TargetProgress :: int
  api_PrerequisiteQuestID :: string

definition quest_api_row :: "player_tables \<Rightarrow> string \<times> quest_row \<Rightarrow> PlayerQuestAPIRow" where
  "quest_api_row T qr =
     (let def = map_of (quest_catalog T) (fst qr)
      in \<lparr>api_QuestID = fst qr, api_State = quest_state (snd qr), api_Progress = quest_progress (snd qr),
          api_TargetProgress = (case def of None \<Rightarrow> 0 | Some d \<Rightarrow> TargetProgress d),
          api_PrerequisiteQuestID =
            (case def of None \<Rightarrow> [] | Some d \<Rightarrow> (case prerequisite d of None \<Rightarrow> [] | Some q \<Rightarrow> q))\<rparr>)"

definition ListPlayerQuestsForAPI ::
  "postgres \<Rightarrow> string \<Rightarrow> database \<Rightarrow> (db_error + PlayerQuestAPIRow list) \<times> database" where
  "ListPlayerQuestsForAPI pg playerID =
     pool_exec pg [playerID] (\<lambda>T. Inr (map (quest_api_row T) (rows_of pg playerID (player_quest T)), T))"

text \<open>The quests of the catalog whose prerequisite the player has completed become active rows.\<close>

definition unlocked_quests :: "player_tables \<Rightarrow> string \<Rightarrow> string list" where
  "unlocked_quests T p =
     map fst (filter (\<lambda>(qid, d).
        (case prerequisite d of
           None \<Rightarrow> False
         | Some pre \<Rightarrow> (case map_of (player_quest T) (p, pre) of
                          None \<Rightarrow> False | Some r \<Rightarrow> quest_state r = ''completed''))
        \<and> map_of (player_quest T) (p, qid) = None) (quest_catalog T))"

definition insert_unlocked :: "string \<Rightarrow> string list sql" where
  "insert_unlocked p T =
     (let new = unlocked_quests T p
      in Inr (new, T\<lparr>player_quest := player_quest T @ map (\<lambda>q. ((p, q), fresh_quest)) new\<rparr>))"

definition EnsureUnlockedQuestsForPlayer ::
  "postgres \<Rightarrow> string \<Rightarrow> database \<Rightarrow> (db_error + string list) \<times> database" where
  "EnsureUnlockedQuestsForPlayer pg playerID = pool_exec pg [playerID] (insert_unlocked playerID)"

section \<open>Items\<close>

record PlayerItemRow =
  row_ItemID :: string
  row_Quantity :: int
  row_DisplayName :: string

text \<open>\<open>JOIN mmo_item_def\<close>: a row without a catalog entry is left out.\<close>

definition normalized_items :: "postgres \<Rightarrow> string \<Rightarrow> player_tables \<Rightarrow> PlayerItemRow list" where
  "normalized_items pg p T =
     List.map_filter (\<lambda>(k, q). map_option (\<lambda>d. \<lparr>row_ItemID = k, row_Quantity = q, row_DisplayName = display_name d\<rparr>)
                       (map_of (item_catalog T) k)) (rows_of pg p (player_item T))"

definition ListPlayerItemsNormalized ::
  "postgres \<Rightarrow> string \<Rightarrow> database \<Rightarrow> (db_error + PlayerItemRow list) \<times> database" where
  "ListPlayerItemsNormalized pg playerID =
     pool_exec pg [playerID] (\<lambda>T. Inr (normalized_items pg playerID T, T))"

definition listPlayerItemsNormalizedTx :: "postgres \<Rightarrow> string \<Rightarrow> PlayerItemRow list tx_body" where
  "listPlayerItemsNormalizedTx pg playerID =
     tx_exec pg [playerID] (\<lambda>T. Inr (normalized_items pg playerID T, T))"

definition slots_of :: "PlayerItemRow list \<Rightarrow> inventorySlotJSON list" where
  "slots_of rows = map (\<lambda>r. \<lparr>slot_ItemID = row_ItemID r, slot_Qty = row_Quantity r\<rparr>) rows"

text \<open>The statement returns the number of rows it has changed.\<close>

definition update_inventory :: "string \<Rightarrow> inventorySlotJSON list \<Rightarrow> nat sql" where
  "update_inventory p slots T =
     (case map_of (player_inventory T) p of
        None \<Rightarrow> Inr (0, T)
      | Some _ \<Rightarrow> Inr (1, T\<lparr>player_inventory := AList.update p slots (player_inventory T)\<rparr>))"

definition SyncPlayerInventoryJSONB :: "postgres \<Rightarrow> string \<Rightarrow> database \<Rightarrow> (db_error + unit) \<times> database" where
  "SyncPlayerInventoryJSONB pg playerID d =
     (case ListPlayerItemsNormalized pg playerID d of
        (Inl e, d1) \<Rightarrow> (Inl e, d1)
      | (Inr rows, d1) \<Rightarrow>
          (case EnsurePlayerInventory pg playerID d1 of
             (Inl e, d2) \<Rightarrow> (Inl e, d2)
           | (Inr _, d2) \<Rightarrow>
               (case pool_exec pg [playerID] (update_inventory playerID (slots_of rows)) d2 of
                  (Inl e, d3) \<Rightarrow> (Inl e, d3)
                | (Inr n, d3) \<Rightarrow>
                    if n = 0 then (Inl (Refusal ''inventory row missing after ensure''), d3)
                    else (Inr (), d3))))"

definition syncPlayerInventoryJSONBTx :: "postgres \<Rightarrow> string \<Rightarrow> unit tx_body" where
  "syncPlayerInventoryJSONBTx pg playerID =
     tx_then (listPlayerItemsNormalizedTx pg playerID) (\<lambda>rows.
     tx_then (tx_exec pg [playerID] (insert_inventory playerID)) (\<lambda>_.
     tx_then (tx_exec pg [playerID] (update_inventory playerID (slots_of rows))) (\<lambda>n.
     if n = 0 then fail_with ''inventory row missing after ensure'' else tx_give ())))"

text \<open>
  \<open>quantity = LEAST(stack_max, old + new)\<close> caps the second branch only. \<open>LEAST\<close> ignores a missing
  catalog entry, which the foreign key excludes.
\<close>

definition upsert_item :: "string \<Rightarrow> string \<Rightarrow> int \<Rightarrow> unit sql" where
  "upsert_item p item qty T =
     (if \<not> is_int32 qty then Inl OutOfRange
      else case map_of (player_item T) (p, item) of
        None \<Rightarrow>
          if qty \<le> 0 then Inl CheckViolation
          else if map_of (item_catalog T) item = None then Inl ForeignKeyViolation
          else Inr ((), T\<lparr>player_item := AList.update (p, item) qty (player_item T)\<rparr>)
      | Some cur \<Rightarrow>
          if \<not> is_int32 (cur + qty) then Inl OutOfRange
          else (let new = (case map_of (item_catalog T) item of
                             None \<Rightarrow> cur + qty | Some d \<Rightarrow> min (stack_max d) (cur + qty))
                in if qty \<le> 0 \<or> new \<le> 0 then Inl CheckViolation
                   else Inr ((), T\<lparr>player_item := AList.update (p, item) new (player_item T)\<rparr>)))"

definition addPlayerItemQuantityTx :: "postgres \<Rightarrow> string \<Rightarrow> string \<Rightarrow> int \<Rightarrow> unit tx_body" where
  "addPlayerItemQuantityTx pg playerID itemID qty =
     (if qty \<le> 0 then tx_give ()
      else tx_exec pg [playerID, itemID] (upsert_item playerID itemID qty))"

definition select_item :: "string \<Rightarrow> string \<Rightarrow> int option sql" where
  "select_item p item T = Inr (map_of (player_item T) (p, item), T)"

definition delete_item :: "string \<Rightarrow> string \<Rightarrow> unit sql" where
  "delete_item p item T = Inr ((), T\<lparr>player_item := AList.delete (p, item) (player_item T)\<rparr>)"

definition decrease_item :: "string \<Rightarrow> string \<Rightarrow> int \<Rightarrow> unit sql" where
  "decrease_item p item qty T =
     (if \<not> is_int32 qty then Inl OutOfRange
      else case map_of (player_item T) (p, item) of
        None \<Rightarrow> Inr ((), T)
      | Some cur \<Rightarrow>
          if \<not> is_int32 (cur - qty) then Inl OutOfRange
          else if cur - qty \<le> 0 then Inl CheckViolation
          else Inr ((), T\<lparr>player_item := AList.update (p, item) (cur - qty) (player_item T)\<rparr>))"

definition removePlayerItemQuantityTx :: "postgres \<Rightarrow> string \<Rightarrow> string \<Rightarrow> int \<Rightarrow> unit tx_body" where
  "removePlayerItemQuantityTx pg playerID itemID qty =
     (if qty \<le> 0 then fail_with ''quantity must be > 0''
      else tx_then (tx_exec pg [playerID, itemID] (select_item playerID itemID)) (\<lambda>found.
        case found of
          None \<Rightarrow> fail_with ''item not found''
        | Some cur \<Rightarrow>
            if cur < qty then fail_with ''insufficient quantity''
            else if cur = qty then tx_exec pg [playerID, itemID] (delete_item playerID itemID)
            else tx_exec pg [playerID, itemID] (decrease_item playerID itemID qty)))"

definition select_item_def :: "string \<Rightarrow> item_def option sql" where
  "select_item_def item T = Inr (map_of (item_catalog T) item, T)"

definition AddPlayerItemQuantity ::
  "postgres \<Rightarrow> string \<Rightarrow> string \<Rightarrow> int \<Rightarrow> database \<Rightarrow> (db_error + unit) \<times> database" where
  "AddPlayerItemQuantity pg playerID itemID0 qty d =
     (let itemID = TrimSpace itemID0
      in if qty \<le> 0 then (Inl (Refusal ''quantity must be > 0''), d)
         else if itemID = [] then (Inl (Refusal ''empty item_id''), d)
         else with_tx pg
           (tx_then (tx_exec pg [itemID] (select_item_def itemID)) (\<lambda>known.
            if known = None then fail_with ''unknown item_id''
            else tx_then (addPlayerItemQuantityTx pg playerID itemID qty) (\<lambda>_.
                 tx_then (syncPlayerInventoryJSONBTx pg playerID) (\<lambda>_. tx_give ((), True))))) d)"

definition RemovePlayerItemQuantity ::
  "postgres \<Rightarrow> string \<Rightarrow> string \<Rightarrow> int \<Rightarrow> database \<Rightarrow> (db_error + unit) \<times> database" where
  "RemovePlayerItemQuantity pg playerID itemID0 qty d =
     (let itemID = TrimSpace itemID0
      in if itemID = [] then (Inl (Refusal ''empty item_id''), d)
         else with_tx pg
           (tx_then (removePlayerItemQuantityTx pg playerID itemID qty) (\<lambda>_.
            tx_then (syncPlayerInventoryJSONBTx pg playerID) (\<lambda>_. tx_give ((), True)))) d)"

text \<open>The errors of the two \<open>INSERT\<close>s for the receiver are dropped, so the transaction goes on.\<close>

definition tx_ignoring :: "'r tx_body \<Rightarrow> unit tx_body" where
  "tx_ignoring m x = (Inr (), snd (m x))"

definition transfer_body :: "postgres \<Rightarrow> string \<Rightarrow> string \<Rightarrow> string \<Rightarrow> int \<Rightarrow> (unit \<times> bool) tx_body" where
  "transfer_body pg fromPlayer toPlayer itemID qty =
     tx_then (tx_exec pg [itemID] (select_item_def itemID)) (\<lambda>known.
     if known = None then fail_with ''unknown item_id''
     else tx_then (removePlayerItemQuantityTx pg fromPlayer itemID qty) (\<lambda>_.
          tx_then (tx_ignoring (tx_exec pg [toPlayer] (insert_wallet toPlayer))) (\<lambda>_.
          tx_then (tx_ignoring (tx_exec pg [toPlayer] (insert_inventory toPlayer))) (\<lambda>_.
          tx_then (addPlayerItemQuantityTx pg toPlayer itemID qty) (\<lambda>_.
          tx_then (syncPlayerInventoryJSONBTx pg fromPlayer) (\<lambda>_.
          tx_then (syncPlayerInventoryJSONBTx pg toPlayer) (\<lambda>_. tx_give ((), True))))))))"

definition TransferPlayerItems ::
  "postgres \<Rightarrow> string \<Rightarrow> string \<Rightarrow> string \<Rightarrow> int \<Rightarrow> database \<Rightarrow> (db_error + unit) \<times> database" where
  "TransferPlayerItems pg fromPlayer0 toPlayer0 itemID0 qty d =
     (let itemID = TrimSpace itemID0; fromPlayer = TrimSpace fromPlayer0; toPlayer = TrimSpace toPlayer0
      in if qty \<le> 0 then (Inl (Refusal ''quantity must be > 0''), d)
         else if itemID = [] then (Inl (Refusal ''empty item_id''), d)
         else if fromPlayer = [] \<or> toPlayer = [] then (Inl (Refusal ''empty player_id''), d)
         else if fromPlayer = toPlayer then (Inl (Refusal ''cannot transfer to self''), d)
         else with_tx pg (transfer_body pg fromPlayer toPlayer itemID qty) d)"

definition insert_starter :: "string \<Rightarrow> unit sql" where
  "insert_starter p T =
     (if map_of (player_item T) (p, ''tutorial_shard'') \<noteq> None then Inr ((), T)
      else if map_of (item_catalog T) ''tutorial_shard'' = None then Inl ForeignKeyViolation
      else Inr ((), T\<lparr>player_item := insert_new (p, ''tutorial_shard'') 1 (player_item T)\<rparr>))"

definition EnsureStarterPlayerItems :: "postgres \<Rightarrow> string \<Rightarrow> database \<Rightarrow> (db_error + unit) \<times> database" where
  "EnsureStarterPlayerItems pg playerID = pool_exec pg [playerID] (insert_starter playerID)"

section \<open>Quests\<close>

record QuestProgressApplyResult =
  ap_Completed :: bool
  ap_Progress :: int
  ap_TargetProgress :: int
  ap_GoldReward :: int
  ap_ItemsRewarded :: "PlayerItemRow list"
  ap_AlreadyComplete :: bool
  ap_NewlyUnlockedQuests :: "string list"

definition no_apply_result :: QuestProgressApplyResult where
  "no_apply_result = \<lparr>ap_Completed = False, ap_Progress = 0, ap_TargetProgress = 0, ap_GoldReward = 0,
     ap_ItemsRewarded = [], ap_AlreadyComplete = False, ap_NewlyUnlockedQuests = []\<rparr>"

definition loadQuestDefTx :: "postgres \<Rightarrow> string \<Rightarrow> QuestDef option tx_body" where
  "loadQuestDefTx pg questID = tx_exec pg [questID] (\<lambda>T. Inr (map_of (quest_catalog T) questID, T))"

definition add_gold :: "string \<Rightarrow> int \<Rightarrow> nat sql" where
  "add_gold p delta T =
     (case map_of (player_wallet T) p of
        None \<Rightarrow> Inr (0, T)
      | Some g \<Rightarrow>
          if \<not> int_in_range (g + delta) then Inl OutOfRange
          else if g + delta < 0 then Inl CheckViolation
          else Inr (1, T\<lparr>player_wallet := AList.update p (g + delta) (player_wallet T)\<rparr>))"

definition grantWalletGoldTx :: "postgres \<Rightarrow> string \<Rightarrow> int \<Rightarrow> unit tx_body" where
  "grantWalletGoldTx pg playerID delta =
     (if delta = 0 then tx_give ()
      else if delta < 0 then fail_with ''grant gold: negative delta''
      else tx_then (tx_exec pg [playerID] (add_gold playerID delta)) (\<lambda>n.
        if n = 0 then fail_with ''wallet row missing'' else tx_give ()))"

definition select_quest :: "string \<Rightarrow> string \<Rightarrow> quest_row option sql" where
  "select_quest p q T = Inr (map_of (player_quest T) (p, q), T)"

definition update_quest :: "string \<Rightarrow> string \<Rightarrow> (quest_row \<Rightarrow> quest_row) \<Rightarrow> int \<Rightarrow> unit sql" where
  "update_quest p q f progress T =
     (if \<not> is_int32 progress then Inl OutOfRange
      else case map_of (player_quest T) (p, q) of
        None \<Rightarrow> Inr ((), T)
      | Some r \<Rightarrow> Inr ((), T\<lparr>player_quest :=
          AList.update (p, q) (f r\<lparr>quest_progress := progress\<rparr>) (player_quest T)\<rparr>))"

definition has_item_reward :: "QuestDef \<Rightarrow> bool" where
  "has_item_reward def \<longleftrightarrow>
     (case RewardItemID def of None \<Rightarrow> False | Some item \<Rightarrow> item \<noteq> []) \<and> RewardItemQty def > 0"

definition reward_item :: "QuestDef \<Rightarrow> string" where
  "reward_item def = (case RewardItemID def of None \<Rightarrow> [] | Some item \<Rightarrow> item)"

text \<open>The statements that complete a quest, up to the synchronised inventory.\<close>

definition complete_body :: "postgres \<Rightarrow> string \<Rightarrow> string \<Rightarrow> QuestDef \<Rightarrow> unit tx_body" where
  "complete_body pg playerID questID def =
     tx_then (tx_exec pg [playerID] (insert_wallet playerID)) (\<lambda>_.
     tx_then (grantWalletGoldTx pg playerID (RewardGold def)) (\<lambda>_.
     tx_then (if has_item_reward def
              then addPlayerItemQuantityTx pg playerID (reward_item def) (RewardItemQty def)
              else tx_give ()) (\<lambda>_.
     tx_then (tx_exec pg [playerID, questID]
                (update_quest playerID questID (\<lambda>r. r\<lparr>quest_state := ''completed''\<rparr>) (TargetProgress def))) (\<lambda>_.
     syncPlayerInventoryJSONBTx pg playerID))))"

text \<open>
  The transaction of \<open>ApplyPlayerQuestProgress\<close>; the definition it returns is that of a quest
  completed by this call.
\<close>

definition apply_body :: "postgres \<Rightarrow> string \<Rightarrow> string \<Rightarrow> int \<Rightarrow>
    ((QuestProgressApplyResult \<times> QuestDef option) \<times> bool) tx_body" where
  "apply_body pg playerID questID progress =
     tx_then (tx_exec pg [playerID, questID] (select_quest playerID questID)) (\<lambda>found.
     case found of
       None \<Rightarrow> fail_with ''quest row not found''
     | Some row \<Rightarrow>
         if quest_state row = ''completed''
         then tx_give ((no_apply_result\<lparr>ap_Progress := quest_progress row, ap_AlreadyComplete := True\<rparr>, None), False)
         else tx_then (loadQuestDefTx pg questID) (\<lambda>odef.
           case odef of
             None \<Rightarrow>
               tx_then (tx_exec pg [playerID, questID] (update_quest playerID questID (\<lambda>r. r) progress)) (\<lambda>_.
               tx_give ((no_apply_result\<lparr>ap_Progress := progress\<rparr>, None), True))
           | Some def \<Rightarrow>
               if progress < TargetProgress def
               then tx_then (tx_exec pg [playerID, questID] (update_quest playerID questID (\<lambda>r. r) progress)) (\<lambda>_.
                    tx_give ((no_apply_result\<lparr>ap_TargetProgress := TargetProgress def, ap_Progress := progress\<rparr>, None), True))
               else tx_then (complete_body pg playerID questID def) (\<lambda>_.
                    tx_give ((no_apply_result\<lparr>ap_TargetProgress := TargetProgress def, ap_Completed := True,
                             ap_Progress := TargetProgress def, ap_GoldReward := RewardGold def\<rparr>, Some def), True))))"

definition items_rewarded :: "QuestDef \<Rightarrow> PlayerItemRow list \<Rightarrow> PlayerItemRow list" where
  "items_rewarded def rows =
     (case find (\<lambda>r. row_ItemID r = reward_item def) rows of
        Some r \<Rightarrow> [r]
      | None \<Rightarrow> [\<lparr>row_ItemID = reward_item def, row_Quantity = RewardItemQty def, row_DisplayName = []\<rparr>])"

definition unlock_after :: "postgres \<Rightarrow> string \<Rightarrow> QuestProgressApplyResult \<Rightarrow> database \<Rightarrow>
    (db_error + QuestProgressApplyResult) \<times> database" where
  "unlock_after pg playerID res d =
     (case EnsureUnlockedQuestsForPlayer pg playerID d of
        (Inl e, d1) \<Rightarrow> (Inl e, d1)
      | (Inr new, d1) \<Rightarrow> (Inr (res\<lparr>ap_NewlyUnlockedQuests := new\<rparr>), d1))"

definition ApplyPlayerQuestProgress :: "postgres \<Rightarrow> string \<Rightarrow> string \<Rightarrow> int \<Rightarrow> database \<Rightarrow>
    (db_error + QuestProgressApplyResult) \<times> database" where
  "ApplyPlayerQuestProgress pg playerID questID0 progress d =
     (let questID = TrimSpace questID0
      in if progress < 0 then (Inl (Refusal ''progress must be >= 0''), d)
         else if questID = [] then (Inl (Refusal ''empty quest_id''), d)
         else (case with_tx pg (apply_body pg playerID questID progress) d of
                 (Inl e, d1) \<Rightarrow> (Inl e, d1)
               | (Inr (res, None), d1) \<Rightarrow> (Inr res, d1)
               | (Inr (res, Some def), d1) \<Rightarrow>
                   if has_item_reward def
                   then (case ListPlayerItemsNormalized pg playerID d1 of
                           (Inl e, d2) \<Rightarrow> (Inr res, d2)
                         | (Inr rows, d2) \<Rightarrow>
                             unlock_after pg playerID (res\<lparr>ap_ItemsRewarded := items_rewarded def rows\<rparr>) d2)
                   else unlock_after pg playerID res d1))"

section \<open>The chain tables\<close>

definition upsert_cursor :: "int \<Rightarrow> int \<Rightarrow> string \<Rightarrow> unit sql" where
  "upsert_cursor chainID blockNumber blockHash T =
     (let new = (case map_of (chain_cursor T) chainID of
                   None \<Rightarrow> (blockNumber, blockHash)
                 | Some (n, h) \<Rightarrow>
                     (max n blockNumber, if blockNumber \<ge> n then blockHash else h))
      in Inr ((), T\<lparr>chain_cursor := AList.update chainID new (chain_cursor T)\<rparr>))"

definition UpsertChainCursor ::
  "postgres \<Rightarrow> int \<Rightarrow> int \<Rightarrow> string \<Rightarrow> database \<Rightarrow> (db_error + unit) \<times> database" where
  "UpsertChainCursor pg chainID blockNumber blockHash =
     pool_exec pg [TrimSpace blockHash] (upsert_cursor chainID blockNumber (TrimSpace blockHash))"

definition stored_event :: "ChainEventRow \<Rightarrow> ChainEventRow" where
  "stored_event ev = ev\<lparr>ev_BlockHash := TrimSpace (ev_BlockHash ev), ev_TxHash := TrimSpace (ev_TxHash ev),
     ev_ContractAddress := TrimSpace (ev_ContractAddress ev), ev_EventName := TrimSpace (ev_EventName ev),
     ev_Payload := (if ev_Payload ev = [] then ''{}'' else ev_Payload ev)\<rparr>"

definition event_key :: "ChainEventRow \<Rightarrow> int \<times> string \<times> int" where
  "event_key ev = (ev_ChainID ev, ev_TxHash ev, ev_LogIndex ev)"

definition upsert_event :: "ChainEventRow \<Rightarrow> unit sql" where
  "upsert_event ev T =
     Inr ((), T\<lparr>chain_tx_event := AList.update (event_key ev) ev (chain_tx_event T)\<rparr>)"

primrec insert_events :: "postgres \<Rightarrow> ChainEventRow list \<Rightarrow> (unit \<times> bool) tx_body" where
  "insert_events pg [] = tx_give ((), True)"
| "insert_events pg (ev # evs) =
     (let e = stored_event ev
      in tx_then (tx_exec pg [ev_BlockHash e, ev_TxHash e, ev_ContractAddress e, ev_EventName e, ev_Payload e]
                    (upsert_event e)) (\<lambda>_. insert_events pg evs))"

definition InsertChainEvents ::
  "postgres \<Rightarrow> ChainEventRow list \<Rightarrow> database \<Rightarrow> (db_error + unit) \<times> database" where
  "InsertChainEvents pg events d =
     (if events = [] then (Inr (), d) else with_tx pg (insert_events pg events) d)"

text \<open>An address of a chain belongs to one player (\<open>idx_mmo_player_wallet_address_unique\<close>).\<close>

definition upsert_address :: "string \<Rightarrow> string \<Rightarrow> int \<Rightarrow> unit sql" where
  "upsert_address p address chainID T =
     (if list_ex (\<lambda>(q, a, c). q \<noteq> p \<and> a = address \<and> c = chainID) (wallet_address T) then Inl UniqueViolation
      else Inr ((), T\<lparr>wallet_address := AList.update p (address, chainID) (wallet_address T)\<rparr>))"

definition UpsertPlayerWalletAddress ::
  "postgres \<Rightarrow> string \<Rightarrow> string \<Rightarrow> int \<Rightarrow> database \<Rightarrow> (db_error + unit) \<times> database" where
  "UpsertPlayerWalletAddress pg playerID0 walletAddress0 chainID d =
     (let playerID = TrimSpace playerID0; walletAddress = TrimSpace walletAddress0
      in if playerID = [] \<or> walletAddress = [] \<or> chainID \<le> 0 then (Inr (), d)
         else pool_exec pg [playerID, walletAddress] (upsert_address playerID walletAddress chainID) d)"

end
