(* ===== verification/Player_Ledger.thy ===== *)
theory Player_Ledger
  imports Player_DB
begin

text \<open>
  What every operation of package \<open>db\<close> keeps of the tables. \<open>when_done P m Q\<close> is a Hoare triple
  for the body of a transaction (it says nothing of a body that fails, whose transaction is rolled
  back); the locale \<open>statement_contract\<close> collects what the statements promise about an invariant
  and proves it of every operation and of every sequence of operations. It is interpreted for the
  schema's constraints and for the ledger: a player's gold is the sum of the rewards of the quests
  he has completed.
\<close>

section \<open>Triples\<close>

definition sql_keeps :: "(player_tables \<Rightarrow> bool) \<Rightarrow> 'r sql \<Rightarrow> bool" where
  "sql_keeps I q \<longleftrightarrow> (\<forall>T r T'. I T \<longrightarrow> q T = Inr (r, T') \<longrightarrow> I T')"

definition when_done :: "(player_tables \<Rightarrow> bool) \<Rightarrow> 'r tx_body \<Rightarrow> ('r \<Rightarrow> player_tables \<Rightarrow> bool) \<Rightarrow> bool" where
  "when_done P m Q \<longleftrightarrow>
     (\<forall>x r x'. P (tx_tables x) \<longrightarrow> m x = (Inr r, x') \<longrightarrow> Q r (tx_tables x'))"

lemma sql_keepsI: "(\<And>T r T'. I T \<Longrightarrow> q T = Inr (r, T') \<Longrightarrow> I T') \<Longrightarrow> sql_keeps I q"
  by (auto simp: sql_keeps_def)

lemma sql_keepsD: "sql_keeps I q \<Longrightarrow> I T \<Longrightarrow> q T = Inr (r, T') \<Longrightarrow> I T'"
  by (auto simp: sql_keeps_def)

lemma when_doneD: "when_done P m Q \<Longrightarrow> P (tx_tables x) \<Longrightarrow> m x = (Inr r, x') \<Longrightarrow> Q r (tx_tables x')"
  by (auto simp: when_done_def)

lemma when_done_exec:
  "(\<And>T r T'. P T \<Longrightarrow> q T = Inr (r, T') \<Longrightarrow> Q r T') \<Longrightarrow> when_done P (tx_exec pg texts q) Q"
  by (auto simp: when_done_def tx_exec_def Let_def split: if_splits sum.splits)

lemma when_done_then:
  assumes "when_done P m R" "\<And>r. when_done (R r) (k r) Q"
  shows "when_done P (tx_then m k) Q"
  unfolding when_done_def
proof (intro allI impI)
  fix x r x' assume P: "P (tx_tables x)" and res: "tx_then m k x = (Inr r, x')"
  from res obtain a y where m: "m x = (Inr a, y)" and k: "k a y = (Inr r, x')"
    by (auto simp: tx_then_def split: prod.splits sum.splits)
  show "Q r (tx_tables x')"
    by (rule when_doneD[OF assms(2) when_doneD[OF assms(1) P m] k])
qed

lemma when_done_give: "(\<And>T. P T \<Longrightarrow> Q r T) \<Longrightarrow> when_done P (tx_give r) Q"
  by (auto simp: when_done_def tx_give_def)

lemma when_done_fail: "when_done P (fail_with msg) Q"
  by (simp add: when_done_def fail_with_def)

lemma when_done_ignoring:
  assumes "\<And>T r T'. P T \<Longrightarrow> q T = Inr (r, T') \<Longrightarrow> Q () T'" "\<And>T. P T \<Longrightarrow> Q () T"
  shows "when_done P (tx_ignoring (tx_exec pg texts q)) Q"
  using assms
  by (fastforce simp: when_done_def tx_ignoring_def tx_exec_def Let_def split: if_splits sum.splits)

lemma when_done_if:
  "(b \<Longrightarrow> when_done P m Q) \<Longrightarrow> (\<not> b \<Longrightarrow> when_done P n Q) \<Longrightarrow> when_done P (if b then m else n) Q"
  by simp

lemma when_done_pre: "when_done P m Q \<Longrightarrow> (\<And>T. P' T \<Longrightarrow> P T) \<Longrightarrow> when_done P' m Q"
  by (auto simp: when_done_def)

lemma when_done_pure: "(b \<Longrightarrow> when_done P m Q) \<Longrightarrow> when_done (\<lambda>T. P T \<and> b) m Q"
  by (auto simp: when_done_def)

lemmas when_done_rules = when_done_then when_done_give when_done_fail when_done_if

text \<open>A transaction is all or nothing.\<close>

lemma with_tx_cases:
  assumes "with_tx pg body d = (res, d')"
  obtains (kept) "tables d' = tables d" "\<And>r. res = Inr r \<Longrightarrow>
      \<exists>x x'. tx_tables x = tables d \<and> body x = (Inr (r, False), x')"
  | (committed) r x x' where "tx_tables x = tables d" "body x = (Inr (r, True), x')"
      "tables d' = tx_tables x'" "res = Inr r \<or> res = Inl (Postgres Connection)"
proof -
  define x0 where "x0 = \<lparr>tx_tables = tables d, tx_aborted = False, tx_requests = Suc (requests d)\<rparr>"
  have x0: "tx_tables x0 = tables d"
    by (simp add: x0_def)
  have start: ?thesis if i: "reply pg (requests d) \<noteq> Served"
    using i assms by (intro kept) (auto simp: with_tx_def Let_def)
  show ?thesis
  proof (cases "reply pg (requests d) = Served")
    case served: True
    obtain out x' where body: "body x0 = (out, x')"
      by (cases "body x0")
    show ?thesis
    proof (cases out)
      case (Inl e)
      then show ?thesis
        using assms served body kept by (auto simp: with_tx_def Let_def x0_def)
    next
      case (Inr rc)
      then obtain r c where rc: "out = Inr (r, c)"
        by (cases rc) simp
      show ?thesis
      proof (cases c)
        case False
        then show ?thesis
          using assms served body rc by (intro kept exI[of _ x0] exI[of _ x'])
            (auto simp: with_tx_def Let_def x0_def)
      next
        case True
        have body': "body \<lparr>tx_tables = tables d, tx_aborted = False, tx_requests = Suc (requests d)\<rparr> =
            (Inr (r, True), x')"
          using body rc True by (simp add: x0_def)
        have res: "(res, d') = with_tx pg body d"
          using assms by simp
        show ?thesis
          by (cases "reply pg (tx_requests x')"; cases "tx_aborted x'")
             (use res served body' x0 body rc True kept committed[of x0 r x'] in
               \<open>simp_all add: with_tx_def Let_def\<close>)
      qed
    qed
  qed (rule start)
qed

lemma with_tx_keeps:
  assumes "when_done I body (\<lambda>_. I)" "I (tables d)"
  shows "I (tables (snd (with_tx pg body d)))"
proof (cases "with_tx pg body d")
  case (Pair res d')
  then show ?thesis
  proof (cases rule: with_tx_cases)
    case (committed r x x')
    then show ?thesis
      using when_doneD[OF assms(1), of x "(r, True)" x'] assms(2) Pair by simp
  qed (use assms(2) Pair in simp)
qed

lemma pool_exec_keeps:
  assumes "sql_keeps I q" "I (tables d)"
  shows "I (tables (snd (pool_exec pg texts q d)))"
  using assms(2) sql_keepsD[OF assms(1)]
  by (auto simp: pool_exec_def Let_def split: sum.splits)

lemma sql_keeps_read: "sql_keeps I (\<lambda>T. Inr (f T, T))"
  by (simp add: sql_keeps_def)

section \<open>Sequences of operations\<close>

datatype db_op =
    SessionIssue string
  | LastCellRecord string
  | LastCellCoords string
  | SaveLastCell string string f64 f64
  | Profile string string
  | EnsureStats string | GetStats string
  | EnsureWallet string | GetWallet string
  | EnsureInventory string | GetInventory string | SyncInventory string
  | QuestSeed string | ListQuests string | ListQuestsForAPI string | UnlockQuests string
  | ApplyProgress string string int
  | ListItems string | StarterItems string
  | AddItem string string int | RemoveItem string string int | TransferItems string string string int
  | ChainCursor int int string | ChainEvents "ChainEventRow list" | WalletAddress string string int

fun db_step :: "postgres \<Rightarrow> db_op \<Rightarrow> database \<Rightarrow> database" where
  "db_step pg (SessionIssue p) d = snd (RecordSessionIssue pg p d)"
| "db_step pg (LastCellRecord p) d = snd (GetPlayerLastCellRecord pg p d)"
| "db_step pg (LastCellCoords p) d = snd (GetPlayerLastCellCoords pg p d)"
| "db_step pg (SaveLastCell p c x z) d = snd (UpsertPlayerLastCell pg p c x z d)"
| "db_step pg (Profile p n) d = snd (UpsertPlayerProfile pg p n d)"
| "db_step pg (EnsureStats p) d = snd (EnsurePlayerStats pg p d)"
| "db_step pg (GetStats p) d = snd (GetPlayerStats pg p d)"
| "db_step pg (EnsureWallet p) d = snd (EnsurePlayerWallet pg p d)"
| "db_step pg (GetWallet p) d = snd (GetPlayerWallet pg p d)"
| "db_step pg (EnsureInventory p) d = snd (EnsurePlayerInventory pg p d)"
| "db_step pg (GetInventory p) d = snd (GetPlayerInventoryItems pg p d)"
| "db_step pg (SyncInventory p) d = snd (SyncPlayerInventoryJSONB pg p d)"
| "db_step pg (QuestSeed p) d = snd (EnsurePlayerQuestSeed pg p d)"
| "db_step pg (ListQuests p) d = snd (ListPlayerQuests pg p d)"
| "db_step pg (ListQuestsForAPI p) d = snd (ListPlayerQuestsForAPI pg p d)"
| "db_step pg (UnlockQuests p) d = snd (EnsureUnlockedQuestsForPlayer pg p d)"
| "db_step pg (ApplyProgress p q n) d = snd (ApplyPlayerQuestProgress pg p q n d)"
| "db_step pg (ListItems p) d = snd (ListPlayerItemsNormalized pg p d)"
| "db_step pg (StarterItems p) d = snd (EnsureStarterPlayerItems pg p d)"
| "db_step pg (AddItem p i n) d = snd (AddPlayerItemQuantity pg p i n d)"
| "db_step pg (RemoveItem p i n) d = snd (RemovePlayerItemQuantity pg p i n d)"
| "db_step pg (TransferItems p q i n) d = snd (TransferPlayerItems pg p q i n d)"
| "db_step pg (ChainCursor c n h) d = snd (UpsertChainCursor pg c n h d)"
| "db_step pg (ChainEvents es) d = snd (InsertChainEvents pg es d)"
| "db_step pg (WalletAddress p a c) d = snd (UpsertPlayerWalletAddress pg p a c d)"

definition db_run :: "postgres \<Rightarrow> db_op list \<Rightarrow> database \<Rightarrow> database" where
  "db_run pg ops d = fold (db_step pg) ops d"

text \<open>The players whose rows an operation names.\<close>

fun op_players :: "db_op \<Rightarrow> string set" where
  "op_players (TransferItems p q i n) = {TrimSpace p, TrimSpace q}"
| "op_players (WalletAddress p a c) = {TrimSpace p}"
| "op_players (ChainCursor c n h) = {}"
| "op_players (ChainEvents es) = {}"
| "op_players (SessionIssue p) = {p}"
| "op_players (LastCellRecord p) = {p}"
| "op_players (LastCellCoords p) = {p}"
| "op_players (SaveLastCell p c x z) = {p}"
| "op_players (Profile p n) = {p}"
| "op_players (EnsureStats p) = {p}"
| "op_players (GetStats p) = {p}"
| "op_players (EnsureWallet p) = {p}"
| "op_players (GetWallet p) = {p}"
| "op_players (EnsureInventory p) = {p}"
| "op_players (GetInventory p) = {p}"
| "op_players (SyncInventory p) = {p}"
| "op_players (QuestSeed p) = {p}"
| "op_players (ListQuests p) = {p}"
| "op_players (ListQuestsForAPI p) = {p}"
| "op_players (UnlockQuests p) = {p}"
| "op_players (ApplyProgress p q n) = {p}"
| "op_players (ListItems p) = {p}"
| "op_players (StarterItems p) = {p}"
| "op_players (AddItem p i n) = {p}"
| "op_players (RemoveItem p i n) = {p}"

fun op_savers :: "db_op \<Rightarrow> string set" where
  "op_savers (SaveLastCell p c x z) = {p}"
| "op_savers op = {}"

text \<open>
  What the statements promise of an invariant, when they name only the players \<open>owner\<close> admits and
  store the last cell only of those \<open>saver\<close> admits; completing a quest is one step for it.
\<close>

locale owned_contract =
  fixes I :: "player_tables \<Rightarrow> bool" and owner :: "string \<Rightarrow> bool" and saver :: "string \<Rightarrow> bool"
  assumes issue: "owner p \<Longrightarrow> sql_keeps I (insert_session_issue p)"
    and last_cell: "saver p \<Longrightarrow> sql_keeps I (upsert_last_cell p c x z)"
    and profile: "owner p \<Longrightarrow> sql_keeps I (upsert_profile p nm)"
    and stats: "owner p \<Longrightarrow> sql_keeps I (insert_stats p)"
    and wallet: "owner p \<Longrightarrow> sql_keeps I (insert_wallet p)"
    and inventory: "owner p \<Longrightarrow> sql_keeps I (insert_inventory p)"
    and new_inventory: "owner p \<Longrightarrow> sql_keeps I (update_inventory p slots)"
    and seed: "owner p \<Longrightarrow> sql_keeps I (insert_quest_seed p)"
    and unlocked: "owner p \<Longrightarrow> sql_keeps I (insert_unlocked p)"
    and item: "owner p \<Longrightarrow> sql_keeps I (upsert_item p i n)"
    and no_item: "owner p \<Longrightarrow> sql_keeps I (delete_item p i)"
    and less_item: "owner p \<Longrightarrow> sql_keeps I (decrease_item p i n)"
    and starter: "owner p \<Longrightarrow> sql_keeps I (insert_starter p)"
    and cursor: "sql_keeps I (upsert_cursor ch bn bh)"
    and event: "sql_keeps I (upsert_event ev)"
    and address: "owner p \<Longrightarrow> sql_keeps I (upsert_address p a ch)"
    and progress: "owner p \<Longrightarrow> sql_keeps I (update_quest p q (\<lambda>r. r) n)"
    and completion: "owner p \<Longrightarrow> when_done (\<lambda>T. I T \<and> map_of (quest_catalog T) q = Some def
        \<and> (\<exists>r. map_of (player_quest T) (p, q) = Some r \<and> quest_state r \<noteq> ''completed''))
      (complete_body pg p q def) (\<lambda>_. I)"
begin

lemma keep_andThen:
  "when_done I m (\<lambda>_. I) \<Longrightarrow> (\<And>r. when_done I (k r) (\<lambda>_. I)) \<Longrightarrow> when_done I (tx_then m k) (\<lambda>_. I)"
  by (rule when_done_then)

lemma keep_give: "when_done I (tx_give r) (\<lambda>_. I)"
  by (rule when_done_give)

lemmas keep_rules = keep_andThen keep_give when_done_fail when_done_if

lemmas pool_keeps = pool_exec_keeps[of I]

lemmas tx_keeps = with_tx_keeps[of I]

lemma exec_keeps: "sql_keeps I q \<Longrightarrow> when_done I (tx_exec pg texts q) (\<lambda>_. I)"
  by (rule when_done_exec) (rule sql_keepsD)

lemma sync_keeps: "owner p \<Longrightarrow> when_done I (syncPlayerInventoryJSONBTx pg p) (\<lambda>_. I)"
  unfolding syncPlayerInventoryJSONBTx_def listPlayerItemsNormalizedTx_def
  by (intro keep_rules exec_keeps sql_keeps_read inventory new_inventory)

lemma add_keeps: "owner p \<Longrightarrow> when_done I (addPlayerItemQuantityTx pg p i n) (\<lambda>_. I)"
  unfolding addPlayerItemQuantityTx_def by (intro keep_rules exec_keeps item)

lemma remove_keeps:
  assumes own: "owner p"
  shows "when_done I (removePlayerItemQuantityTx pg p i n) (\<lambda>_. I)"
  unfolding removePlayerItemQuantityTx_def select_item_def
proof (intro keep_rules)
  show "when_done I (tx_exec pg [p, i] (\<lambda>T. Inr (map_of (player_item T) (p, i), T))) (\<lambda>_. I)"
    by (intro exec_keeps sql_keeps_read)
  show "when_done I (case found of None \<Rightarrow> fail_with ''item not found''
      | Some cur \<Rightarrow> if cur < n then fail_with ''insufficient quantity''
          else if cur = n then tx_exec pg [p, i] (delete_item p i)
          else tx_exec pg [p, i] (decrease_item p i n)) (\<lambda>_. I)" for found
    by (cases found) (auto intro!: keep_rules exec_keeps no_item less_item own)
qed

lemma known_keeps: "when_done I (tx_exec pg texts (select_item_def i)) (\<lambda>_. I)"
  unfolding select_item_def_def by (intro exec_keeps sql_keeps_read)

lemma ignoring_keeps: "sql_keeps I q \<Longrightarrow> when_done I (tx_ignoring (tx_exec pg texts q)) (\<lambda>_. I)"
  by (rule when_done_ignoring) (auto dest: sql_keepsD)

lemma transfer_keeps: "owner p \<Longrightarrow> owner q \<Longrightarrow> when_done I (transfer_body pg p q i n) (\<lambda>_. I)"
  unfolding transfer_body_def
  by (intro keep_rules known_keeps remove_keeps ignoring_keeps wallet inventory add_keeps sync_keeps)

lemma apply_keeps:
  assumes own: "owner p"
  shows "when_done I (apply_body pg p q n) (\<lambda>_. I)"
  unfolding apply_body_def
proof (rule when_done_then)
  show "when_done I (tx_exec pg [p, q] (select_quest p q)) (\<lambda>found T. I T \<and> map_of (player_quest T) (p, q) = found)"
    by (rule when_done_exec) (auto simp: select_quest_def)
  fix found
  let ?row = "\<lambda>found T. I T \<and> map_of (player_quest T) (p, q) = found"
  have upd: "when_done (\<lambda>T. I T \<and> map_of (player_quest T) (p, q) = Some row \<and> map_of (quest_catalog T) q = odef)
      (tx_then (tx_exec pg [p, q] (update_quest p q (\<lambda>r. r) n)) (\<lambda>_. tx_give res)) (\<lambda>_. I)"
    for row odef and res :: "(QuestProgressApplyResult \<times> QuestDef option) \<times> bool"
    by (rule when_done_pre[OF when_done_then[OF exec_keeps[OF progress[OF own]]]]) (auto intro: when_done_give)
  have load: "when_done (?row (Some row)) (loadQuestDefTx pg q)
      (\<lambda>odef T. I T \<and> map_of (player_quest T) (p, q) = Some row \<and> map_of (quest_catalog T) q = odef)" for row
    unfolding loadQuestDefTx_def by (rule when_done_exec) auto
  have complete: "when_done (\<lambda>T. I T \<and> map_of (player_quest T) (p, q) = Some row \<and> map_of (quest_catalog T) q = Some def)
      (tx_then (complete_body pg p q def) (\<lambda>_. tx_give res)) (\<lambda>_. I)"
    if "quest_state row \<noteq> ''completed''"
    for row def and res :: "(QuestProgressApplyResult \<times> QuestDef option) \<times> bool"
    by (rule when_done_pre[OF when_done_then[OF completion[OF own]]]) (use that in \<open>auto intro: when_done_give\<close>)
  show "when_done (?row found)
     (case found of None \<Rightarrow> fail_with ''quest row not found''
      | Some row \<Rightarrow> if quest_state row = ''completed''
          then tx_give ((no_apply_result\<lparr>ap_Progress := quest_progress row, ap_AlreadyComplete := True\<rparr>, None), False)
          else tx_then (loadQuestDefTx pg q) (\<lambda>odef. case odef of
             None \<Rightarrow> tx_then (tx_exec pg [p, q] (update_quest p q (\<lambda>r. r) n))
                  (\<lambda>_. tx_give ((no_apply_result\<lparr>ap_Progress := n\<rparr>, None), True))
           | Some def \<Rightarrow> if n < TargetProgress def
               then tx_then (tx_exec pg [p, q] (update_quest p q (\<lambda>r. r) n)) (\<lambda>_.
                  tx_give ((no_apply_result\<lparr>ap_TargetProgress := TargetProgress def, ap_Progress := n\<rparr>, None), True))
               else tx_then (complete_body pg p q def) (\<lambda>_.
                  tx_give ((no_apply_result\<lparr>ap_TargetProgress := TargetProgress def, ap_Completed := True,
                     ap_Progress := TargetProgress def, ap_GoldReward := RewardGold def\<rparr>, Some def), True))))
     (\<lambda>_. I)"
    by (auto split: option.splits
        intro!: when_done_fail when_done_give when_done_then[OF load] upd complete)
qed

lemma events_keep: "when_done I (insert_events pg evs) (\<lambda>_. I)"
  by (induction evs) (auto simp: Let_def intro!: keep_rules exec_keeps event)

lemma sync_pool_keeps: "owner p \<Longrightarrow> I (tables d) \<Longrightarrow> I (tables (snd (SyncPlayerInventoryJSONB pg p d)))"
proof -
  assume own: "owner p" and d: "I (tables d)"
  from d have 1: "I (tables (snd (ListPlayerItemsNormalized pg p d)))"
    unfolding ListPlayerItemsNormalized_def by (intro pool_keeps sql_keeps_read)
  then have 2: "I (tables (snd (EnsurePlayerInventory pg p (snd (ListPlayerItemsNormalized pg p d)))))"
    unfolding EnsurePlayerInventory_def by (intro pool_keeps inventory own)
  have 3: "I (tables y)"
    if new: "pool_exec pg texts (update_inventory p slots) x = (r, y)" "I (tables x)" for texts slots x r y
    using pool_keeps[OF new_inventory[OF own] new(2), of pg texts slots] new(1) by simp
  show ?thesis
    using 1 2 by (auto dest: 3 simp: SyncPlayerInventoryJSONB_def split: prod.splits sum.splits)
qed

lemma unlock_keeps: "owner p \<Longrightarrow> I (tables d) \<Longrightarrow> I (tables (snd (EnsureUnlockedQuestsForPlayer pg p d)))"
  unfolding EnsureUnlockedQuestsForPlayer_def by (intro pool_keeps unlocked)

lemma apply_progress_keeps:
  assumes own: "owner p" and "I (tables d)"
  shows "I (tables (snd (ApplyPlayerQuestProgress pg p q n d)))"
proof -
  have tx: "I (tables (snd (with_tx pg (apply_body pg p (TrimSpace q) n) d)))"
    by (intro tx_keeps apply_keeps assms)
  have list: "I (tables d1) \<Longrightarrow> I (tables (snd (ListPlayerItemsNormalized pg p d1)))" for d1
    unfolding ListPlayerItemsNormalized_def by (intro pool_keeps sql_keeps_read)
  have after: "I (tables d1) \<Longrightarrow> I (tables (snd (unlock_after pg p res d1)))" for res d1
    using unlock_keeps[OF own, of d1 pg] by (auto simp: unlock_after_def split: prod.splits sum.splits)
  show ?thesis
  proof (cases "with_tx pg (apply_body pg p (TrimSpace q) n) d")
    case (Pair out d1)
    then have d1: "I (tables d1)"
      using tx by simp
    obtain rows d2 where l: "ListPlayerItemsNormalized pg p d1 = (rows, d2)"
      by (cases "ListPlayerItemsNormalized pg p d1")
    then have d2: "I (tables d2)"
      using list[OF d1] by simp
    show ?thesis
      using Pair assms d1 d2 after l
      by (auto simp: ApplyPlayerQuestProgress_def Let_def split: sum.splits prod.splits option.splits)
  qed
qed

lemma step_keeps:
  assumes own: "\<forall>p\<in>op_players op. owner p" "\<forall>p\<in>op_savers op. saver p"
  shows "I (tables d) \<Longrightarrow> I (tables (db_step pg op d))"
proof (cases op)
  case (SyncInventory p)
  then show "I (tables d) \<Longrightarrow> ?thesis" using own by (simp add: sync_pool_keeps)
next
  case (ApplyProgress p q n)
  then show "I (tables d) \<Longrightarrow> ?thesis" using own by (simp add: apply_progress_keeps)
next
  case (UnlockQuests p)
  then show "I (tables d) \<Longrightarrow> ?thesis" using own by (simp add: unlock_keeps)
next
  case (TransferItems p q i n)
  then show "I (tables d) \<Longrightarrow> ?thesis"
    using own by (auto simp: TransferPlayerItems_def Let_def intro!: tx_keeps transfer_keeps)
next
  case (AddItem p i n)
  have "when_done I (tx_then (tx_exec pg [TrimSpace i] (select_item_def (TrimSpace i))) (\<lambda>known.
      if known = None then fail_with ''unknown item_id''
      else tx_then (addPlayerItemQuantityTx pg p (TrimSpace i) n) (\<lambda>_.
           tx_then (syncPlayerInventoryJSONBTx pg p) (\<lambda>_. tx_give ((), True))))) (\<lambda>_. I)"
    using own AddItem by (intro keep_rules known_keeps add_keeps sync_keeps) simp_all
  from tx_keeps[OF this, of d pg] show "I (tables d) \<Longrightarrow> ?thesis"
    by (simp add: AddItem AddPlayerItemQuantity_def Let_def)
next
  case (RemoveItem p i n)
  have "when_done I (tx_then (removePlayerItemQuantityTx pg p (TrimSpace i) n) (\<lambda>_.
      tx_then (syncPlayerInventoryJSONBTx pg p) (\<lambda>_. tx_give ((), True)))) (\<lambda>_. I)"
    using own RemoveItem by (intro keep_rules remove_keeps sync_keeps) simp_all
  from tx_keeps[OF this, of d pg] show "I (tables d) \<Longrightarrow> ?thesis"
    by (simp add: RemoveItem RemovePlayerItemQuantity_def Let_def)
next
  case (ChainEvents es)
  then show "I (tables d) \<Longrightarrow> ?thesis"
    using tx_keeps[OF events_keep, of d pg pg es] by (simp add: InsertChainEvents_def)
qed (use own in \<open>auto simp: RecordSessionIssue_def GetPlayerLastCellRecord_def GetPlayerLastCellCoords_def
       UpsertPlayerLastCell_def UpsertPlayerProfile_def EnsurePlayerStats_def GetPlayerStats_def
       EnsurePlayerWallet_def GetPlayerWallet_def EnsurePlayerInventory_def GetPlayerInventoryItems_def
       EnsurePlayerQuestSeed_def ListPlayerQuests_def ListPlayerQuestsForAPI_def
       ListPlayerItemsNormalized_def EnsureStarterPlayerItems_def UpsertChainCursor_def
       UpsertPlayerWalletAddress_def Let_def
     intro!: pool_keeps sql_keeps_read issue last_cell profile stats wallet inventory seed starter
       cursor address\<close>)

lemma run_keeps:
  "\<forall>op\<in>set ops. \<forall>p\<in>op_players op. owner p \<Longrightarrow> \<forall>op\<in>set ops. \<forall>p\<in>op_savers op. saver p \<Longrightarrow>
   I (tables d) \<Longrightarrow> I (tables (db_run pg ops d))"
  unfolding db_run_def by (induction ops arbitrary: d) (simp_all add: step_keeps)

end

text \<open>The same contract for all players.\<close>

locale statement_contract =
  fixes I :: "player_tables \<Rightarrow> bool"
  assumes issue: "sql_keeps I (insert_session_issue p)"
    and last_cell: "sql_keeps I (upsert_last_cell p c x z)"
    and profile: "sql_keeps I (upsert_profile p nm)"
    and stats: "sql_keeps I (insert_stats p)"
    and wallet: "sql_keeps I (insert_wallet p)"
    and inventory: "sql_keeps I (insert_inventory p)"
    and new_inventory: "sql_keeps I (update_inventory p slots)"
    and seed: "sql_keeps I (insert_quest_seed p)"
    and unlocked: "sql_keeps I (insert_unlocked p)"
    and item: "sql_keeps I (upsert_item p i n)"
    and no_item: "sql_keeps I (delete_item p i)"
    and less_item: "sql_keeps I (decrease_item p i n)"
    and starter: "sql_keeps I (insert_starter p)"
    and cursor: "sql_keeps I (upsert_cursor ch bn bh)"
    and event: "sql_keeps I (upsert_event ev)"
    and address: "sql_keeps I (upsert_address p a ch)"
    and progress: "sql_keeps I (update_quest p q (\<lambda>r. r) n)"
    and completion: "when_done (\<lambda>T. I T \<and> map_of (quest_catalog T) q = Some def
        \<and> (\<exists>r. map_of (player_quest T) (p, q) = Some r \<and> quest_state r \<noteq> ''completed''))
      (complete_body pg p q def) (\<lambda>_. I)"
begin

sublocale everyone: owned_contract I "\<lambda>_. True" "\<lambda>_. True"
  by unfold_locales (rule issue last_cell profile stats wallet inventory new_inventory seed unlocked item
      no_item less_item starter cursor event address progress completion)+

lemma run_keeps: "I (tables d) \<Longrightarrow> I (tables (db_run pg ops d))"
  by (rule everyone.run_keeps) simp_all

end

end
