(* ===== verification/Player_Rewards.thy ===== *)
theory Player_Rewards
  imports Player_Ledger
begin

text \<open>
  The rewards of quests: over any sequence of operations, with any requests lost, a player's gold
  grows by the rewards of the quests he completes, each paid once. The contract of the statements
  is interpreted for this ledger.
\<close>

section \<open>Gold and what it was paid for\<close>

definition gold_balance :: "player_tables \<Rightarrow> string \<Rightarrow> int" where
  "gold_balance T p = (case map_of (player_wallet T) p of None \<Rightarrow> 0 | Some g \<Rightarrow> g)"

definition completed :: "player_tables \<Rightarrow> string \<Rightarrow> string \<Rightarrow> bool" where
  "completed T p q =
     (case map_of (player_quest T) (p, q) of None \<Rightarrow> False | Some r \<Rightarrow> quest_state r = ''completed'')"

definition rewards :: "(string \<times> QuestDef) list \<Rightarrow> (string \<Rightarrow> bool) \<Rightarrow> int" where
  "rewards cat P = sum_list (map (\<lambda>(q, def). if P q then RewardGold def else 0) cat)"

lemma rewards_cong: "(\<And>q. P q \<longleftrightarrow> Q q) \<Longrightarrow> rewards cat P = rewards cat Q"
  by (simp add: rewards_def)

lemma rewards_absent: "q \<notin> fst ` set cat \<Longrightarrow> rewards cat (\<lambda>k. P k \<or> k = q) = rewards cat P"
  unfolding rewards_def by (intro arg_cong[where f = sum_list] map_cong) (force split: prod.split)+

lemma rewards_gain:
  "distinct (map fst cat) \<Longrightarrow> map_of cat q = Some def \<Longrightarrow> \<not> P q \<Longrightarrow>
   rewards cat (\<lambda>k. P k \<or> k = q) = rewards cat P + RewardGold def"
proof (induction cat)
  case (Cons c cat)
  obtain k d where c: "c = (k, d)"
    by (cases c)
  show ?case
  proof (cases "k = q")
    case True
    then show ?thesis
      using Cons.prems c rewards_absent[of q cat P] by (simp add: rewards_def)
  next
    case False
    then show ?thesis
      using Cons c by (simp add: rewards_def)
  qed
qed simp

lemma rewards_diff:
  "(\<And>q. P q \<Longrightarrow> Q q) \<Longrightarrow> rewards cat Q = rewards cat P + rewards cat (\<lambda>q. Q q \<and> \<not> P q)"
  by (induction cat) (auto simp: rewards_def)

text \<open>
  \<open>ledger cat owed done\<close>: the catalog is \<open>cat\<close>, every quest of \<open>done\<close> is completed, and what a
  player has beyond the rewards of his completed quests is \<open>owed\<close>.
\<close>

definition ledger :: "(string \<times> QuestDef) list \<Rightarrow> (string \<Rightarrow> int) \<Rightarrow> (string \<Rightarrow> string \<Rightarrow> bool) \<Rightarrow>
    player_tables \<Rightarrow> bool" where
  "ledger cat owed fin T \<longleftrightarrow>
     quest_catalog T = cat \<and> (\<forall>p q. fin p q \<longrightarrow> completed T p q)
     \<and> (\<forall>p. gold_balance T p = owed p + rewards cat (completed T p))"

lemmas ledger_simps = ledger_def gold_balance_def completed_def

lemma ledger_frame:
  assumes "ledger cat owed fin T" "quest_catalog T' = quest_catalog T"
    "\<And>p. gold_balance T' p = gold_balance T p" "\<And>p q. completed T' p q = completed T p q"
  shows "ledger cat owed fin T'"
proof -
  have "completed T' = completed T"
    by (intro ext) (simp add: assms(4))
  then show ?thesis
    using assms by (simp add: ledger_def)
qed

text \<open>A statement that leaves catalog, wallets and quest states alone leaves the ledger alone.\<close>

definition same_ledger :: "'r sql \<Rightarrow> bool" where
  "same_ledger s \<longleftrightarrow> (\<forall>T r T'. s T = Inr (r, T') \<longrightarrow> quest_catalog T' = quest_catalog T
     \<and> (\<forall>p. gold_balance T' p = gold_balance T p) \<and> (\<forall>p q. completed T' p q = completed T p q))"

lemma same_ledger_keeps: "same_ledger s \<Longrightarrow> sql_keeps (ledger cat owed fin) s"
  by (rule sql_keepsI) (auto simp: same_ledger_def intro: ledger_frame)

lemma completed_new_rows:
  assumes "\<forall>kr \<in> set new. quest_state (snd kr) \<noteq> ''completed''"
  shows "completed (T\<lparr>player_quest := player_quest T @ new\<rparr>) p q = completed T p q"
proof -
  have "map_of new (p, q) = Some r \<Longrightarrow> quest_state r \<noteq> ''completed''" for r
    using assms by (force dest: map_of_SomeD)
  then show ?thesis
    by (auto simp: completed_def map_add_def split: option.splits)
qed

lemma same_ledger_statements:
  "same_ledger (insert_session_issue p)" "same_ledger (upsert_last_cell p c x z)"
  "same_ledger (upsert_profile p nm)" "same_ledger (insert_stats p)" "same_ledger (insert_wallet p)"
  "same_ledger (insert_inventory p)" "same_ledger (update_inventory p slots)"
  "same_ledger (insert_quest_seed p)" "same_ledger (upsert_item p i n)"
  "same_ledger (delete_item p i)" "same_ledger (decrease_item p i n)" "same_ledger (insert_starter p)"
  "same_ledger (upsert_cursor ch bn bh)" "same_ledger (upsert_event ev)"
  "same_ledger (upsert_address p a ch)" "same_ledger (update_quest p q (\<lambda>r. r) n)"
  by (auto simp: same_ledger_def gold_balance_def completed_def table_simps Let_def
        insert_session_issue_def upsert_last_cell_def upsert_profile_def insert_stats_def
        insert_wallet_def insert_inventory_def update_inventory_def insert_quest_seed_def
        upsert_item_def delete_item_def decrease_item_def insert_starter_def upsert_cursor_def
        upsert_event_def upsert_address_def update_quest_def split: option.splits if_splits)

lemma same_ledger_unlocked: "same_ledger (insert_unlocked p)"
  by (auto simp: same_ledger_def insert_unlocked_def Let_def gold_balance_def
      intro!: completed_new_rows)

section \<open>Completing a quest\<close>

lemma sync_done:
  assumes "\<And>T v. P T \<Longrightarrow> P (T\<lparr>player_inventory := v\<rparr>)"
  shows "when_done P (syncPlayerInventoryJSONBTx pg p) (\<lambda>_. P)"
proof -
  have list: "when_done P (listPlayerItemsNormalizedTx pg p) (\<lambda>_. P)"
    unfolding listPlayerItemsNormalizedTx_def by (rule when_done_exec) simp
  have ins: "when_done P (tx_exec pg [p] (insert_inventory p)) (\<lambda>_. P)"
    by (rule when_done_exec) (auto simp: insert_inventory_def assms)
  have upd: "when_done P (tx_exec pg [p] (update_inventory p slots)) (\<lambda>_. P)" for slots
    by (rule when_done_exec) (auto simp: update_inventory_def assms split: option.splits)
  show ?thesis
    unfolding syncPlayerInventoryJSONBTx_def
    by (rule when_done_then[OF list when_done_then[OF ins when_done_then[OF upd]]])
      (auto intro: when_done_fail when_done_give)
qed

definition quest_open :: "string \<Rightarrow> string \<Rightarrow> player_tables \<Rightarrow> bool" where
  "quest_open p q T \<longleftrightarrow> map_of (player_quest T) (p, q) \<noteq> None \<and> \<not> completed T p q"

lemma quest_open_frame: "player_quest T' = player_quest T \<Longrightarrow> quest_open p q T' = quest_open p q T"
  by (simp add: quest_open_def completed_def)

lemma ledger_paid:
  assumes "ledger cat owed fin T" "\<And>p'. gold_balance T' p' = gold_balance T p' + (if p' = p then delta else 0)"
    "quest_catalog T' = quest_catalog T" "player_quest T' = player_quest T"
  shows "ledger cat (owed(p := owed p + delta)) fin T'"
proof -
  have "completed T' = completed T"
    by (intro ext) (simp add: completed_def assms(4))
  then show ?thesis
    using assms by (simp add: ledger_def)
qed

lemma grant_done:
  "when_done (\<lambda>T. ledger cat owed fin T \<and> quest_open p q T) (grantWalletGoldTx pg p delta)
     (\<lambda>_ T. ledger cat (owed(p := owed p + delta)) fin T \<and> quest_open p q T)"
  unfolding grantWalletGoldTx_def
proof (intro when_done_if)
  let ?paid = "\<lambda>T. ledger cat (owed(p := owed p + delta)) fin T \<and> quest_open p q T"
  show "when_done (\<lambda>T. ledger cat owed fin T \<and> quest_open p q T)
     (tx_then (tx_exec pg [p] (add_gold p delta))
        (\<lambda>n. if n = 0 then fail_with ''wallet row missing'' else tx_give ())) (\<lambda>_. ?paid)"
  proof (rule when_done_then[where R = "\<lambda>n T. n \<noteq> 0 \<longrightarrow> ?paid T"])
    show "when_done (\<lambda>T. ledger cat owed fin T \<and> quest_open p q T)
        (tx_exec pg [p] (add_gold p delta)) (\<lambda>n T. n \<noteq> 0 \<longrightarrow> ?paid T)"
    proof (rule when_done_exec)
      fix T :: player_tables and n T'
      assume T: "ledger cat owed fin T \<and> quest_open p q T" and add: "add_gold p delta T = Inr (n, T')"
      show "n \<noteq> 0 \<longrightarrow> ?paid T'"
      proof
        assume "n \<noteq> 0"
        with add have pay: "gold_balance T' p' = gold_balance T p' + (if p' = p then delta else 0)"
            and frame: "quest_catalog T' = quest_catalog T" "player_quest T' = player_quest T" for p'
          by (auto simp: add_gold_def gold_balance_def table_simps split: option.splits if_splits)
        show "?paid T'"
          using T ledger_paid[OF _ pay frame] quest_open_frame[OF frame(2)] by simp
      qed
    qed
    show "when_done (\<lambda>T. n \<noteq> 0 \<longrightarrow> ?paid T)
       (if n = 0 then fail_with ''wallet row missing'' else tx_give ()) (\<lambda>_. ?paid)" for n :: nat
      by (intro when_done_if when_done_fail when_done_give) simp
  qed
qed (auto intro: when_done_fail when_done_give)

lemma mark_done:
  assumes "distinct (map fst cat)" "map_of cat q = Some def"
    and T: "ledger cat (owed(p := owed p + RewardGold def)) fin T" "quest_open p q T"
    and upd: "update_quest p q (\<lambda>r. r\<lparr>quest_state := ''completed''\<rparr>) n T = Inr (r, T')"
  shows "ledger cat owed fin T'"
proof -
  from T(2) obtain row where row: "map_of (player_quest T) (p, q) = Some row"
      and new: "\<not> completed T p q"
    by (auto simp: quest_open_def)
  let ?row = "row\<lparr>quest_state := ''completed'', quest_progress := n\<rparr>"
  have T': "T' = T\<lparr>player_quest := AList.update (p, q) ?row (player_quest T)\<rparr>"
    using upd row by (auto simp: update_quest_def split: if_splits)
  have c: "completed T' p' q' \<longleftrightarrow> completed T p' q' \<or> (p' = p \<and> q' = q)" for p' q'
    by (auto simp: T' completed_def table_simps)
  have "rewards cat (completed T' p') = rewards cat (completed T p') + (if p' = p then RewardGold def else 0)" for p'
  proof (cases "p' = p")
    case True
    then have "rewards cat (completed T' p') = rewards cat (\<lambda>k. completed T p k \<or> k = q)"
      by (intro rewards_cong) (auto simp: c)
    then show ?thesis
      using rewards_gain[OF assms(1,2), of "completed T p"] new True by simp
  next
    case False
    then show ?thesis
      by (auto simp: c intro: rewards_cong)
  qed
  moreover have "gold_balance T' p' = gold_balance T p'" "quest_catalog T' = quest_catalog T" for p'
    by (simp_all add: T' gold_balance_def)
  ultimately show ?thesis
    using T(1) by (auto simp: ledger_def c)
qed

lemma complete_done:
  assumes "distinct (map fst cat)"
  shows "when_done (\<lambda>T. ledger cat owed fin T \<and> map_of (quest_catalog T) q = Some def
      \<and> (\<exists>r. map_of (player_quest T) (p, q) = Some r \<and> quest_state r \<noteq> ''completed''))
    (complete_body pg p q def) (\<lambda>_. ledger cat owed fin)"
proof -
  let ?P = "\<lambda>T. ledger cat owed fin T \<and> quest_open p q T"
  let ?paid = "\<lambda>T. ledger cat (owed(p := owed p + RewardGold def)) fin T \<and> quest_open p q T"
  have keep: "when_done (\<lambda>T. ledger cat c fin T \<and> quest_open p q T) (tx_exec pg texts s)
      (\<lambda>_ T. ledger cat c fin T \<and> quest_open p q T)"
    if s: "same_ledger s" "\<And>T r T'. s T = Inr (r, T') \<Longrightarrow> player_quest T' = player_quest T"
    for c texts and s :: "unit sql"
    by (rule when_done_exec)
       (auto dest: sql_keepsD[OF same_ledger_keeps[OF s(1)]] s(2) quest_open_frame)
  have wallet: "when_done ?P (tx_exec pg [p] (insert_wallet p)) (\<lambda>_. ?P)"
    by (rule keep) (auto simp: same_ledger_statements insert_wallet_def)
  have add: "when_done ?paid (if has_item_reward def
      then addPlayerItemQuantityTx pg p (reward_item def) (RewardItemQty def) else tx_give ()) (\<lambda>_. ?paid)"
    unfolding addPlayerItemQuantityTx_def
    by (intro when_done_if when_done_give keep same_ledger_statements)
       (auto simp: upsert_item_def Let_def split: option.splits if_splits)
  have "when_done (\<lambda>T. ?P T \<and> map_of cat q = Some def) (complete_body pg p q def) (\<lambda>_. ledger cat owed fin)"
  proof (rule when_done_pure)
    assume def: "map_of cat q = Some def"
    have mark: "when_done ?paid (tx_exec pg [p, q]
        (update_quest p q (\<lambda>r. r\<lparr>quest_state := ''completed''\<rparr>) (TargetProgress def))) (\<lambda>_. ledger cat owed fin)"
      by (rule when_done_exec) (auto intro: mark_done[OF assms def])
    have sync: "when_done (ledger cat owed fin) (syncPlayerInventoryJSONBTx pg p) (\<lambda>_. ledger cat owed fin)"
      by (rule sync_done) (auto intro: ledger_frame simp: gold_balance_def completed_def)
    show "when_done ?P (complete_body pg p q def) (\<lambda>_. ledger cat owed fin)"
      unfolding complete_body_def
      by (rule when_done_then[OF wallet when_done_then[OF grant_done
            when_done_then[OF add when_done_then[OF mark sync]]]])
  qed
  then show ?thesis
    by (rule when_done_pre) (auto simp: ledger_def quest_open_def completed_def)
qed

lemma ledger_contract:
  assumes "distinct (map fst cat)"
  shows "statement_contract (ledger cat owed fin)"
  by unfold_locales (intro same_ledger_keeps same_ledger_statements same_ledger_unlocked
      complete_done[OF assms])+

text \<open>The catalog as the migrations fill it.\<close>

definition migrated_quests :: "(string \<times> QuestDef) list" where
  "migrated_quests =
     (let d = (\<lambda>t g i n p. \<lparr>TargetProgress = t, RewardGold = g, RewardItemID = i, RewardItemQty = n, prerequisite = p\<rparr>)
      in [(''tutorial_intro'', d 3 55 (Some ''coin_copper'') 6 None),
          (''tutorial_followup'', d 1 10 None 0 (Some ''tutorial_intro'')),
          (''branch_path_mercenary'', d 2 75 (Some ''forest_token'') 1 (Some ''tutorial_followup'')),
          (''branch_path_scholar'', d 2 100 (Some ''coin_copper'') 10 (Some ''tutorial_followup'')),
          (''mercenary_elite_contract'', d 1 150 None 0 (Some ''branch_path_mercenary'')),
          (''scholar_deep_archive'', d 1 130 (Some ''scholar_sigil'') 1 (Some ''branch_path_scholar''))])"

lemma distinct_migrated: "distinct (map fst migrated_quests)"
  by (simp add: migrated_quests_def Let_def)

interpretation shipped: statement_contract "ledger migrated_quests owed fin" for owed fin
  by (rule ledger_contract) (rule distinct_migrated)

text \<open>What the ledger says of a state reached from \<open>T\<close> by operations.\<close>

lemma ledger_start:
  assumes "quest_catalog T = migrated_quests"
  shows "ledger migrated_quests (\<lambda>p. gold_balance T p - rewards migrated_quests (completed T p)) (completed T) T"
  by (simp add: ledger_def assms)

lemma ledger_earned:
  assumes "ledger migrated_quests (\<lambda>p. gold_balance T p - rewards migrated_quests (completed T p)) (completed T) T'"
  shows "(\<forall>q. completed T p q \<longrightarrow> completed T' p q)
    \<and> gold_balance T' p = gold_balance T p
       + rewards migrated_quests (\<lambda>q. completed T' p q \<and> \<not> completed T p q)"
  using assms rewards_diff[of "completed T p" "completed T' p" migrated_quests]
  by (simp add: ledger_def)

text \<open>
  C27: whatever operations run, and whichever requests are lost, completed quests stay completed
  and a player's gold grows by exactly the rewards of the quests he has completed since: no reward
  is paid twice, none is lost, and nothing else touches the wallet.
\<close>

theorem gold_is_earned:
  assumes "quest_catalog (tables d) = migrated_quests"
  shows "(\<forall>q. completed (tables d) p q \<longrightarrow> completed (tables (db_run pg ops d)) p q)
    \<and> gold_balance (tables (db_run pg ops d)) p = gold_balance (tables d) p
       + rewards migrated_quests (\<lambda>q. completed (tables (db_run pg ops d)) p q \<and> \<not> completed (tables d) p q)"
  by (rule ledger_earned[OF shipped.run_keeps[OF ledger_start[OF assms]]])

end
