(* ===== verification/Player_Items.thy ===== *)
theory Player_Items
  imports Player_Rewards
begin

text \<open>
  Items of players: what a transfer and an addition do to the piles and to the JSON inventories,
  and where the cap of a pile destroys items.
\<close>

section \<open>Piles\<close>

definition quantity :: "player_tables \<Rightarrow> string \<Rightarrow> string \<Rightarrow> int" where
  "quantity T p item = (case map_of (player_item T) (p, item) of None \<Rightarrow> 0 | Some n \<Rightarrow> n)"

definition stacked :: "player_tables \<Rightarrow> string \<Rightarrow> string \<Rightarrow> int \<Rightarrow> int" where
  "stacked T p item qty =
     (case map_of (player_item T) (p, item) of
        None \<Rightarrow> qty
      | Some cur \<Rightarrow> (case map_of (item_catalog T) item of
                       None \<Rightarrow> cur + qty | Some d \<Rightarrow> min (stack_max d) (cur + qty)))"

text \<open>What does not fit on a pile that is there already.\<close>

definition overflow :: "player_tables \<Rightarrow> string \<Rightarrow> string \<Rightarrow> int \<Rightarrow> int" where
  "overflow T p item qty = quantity T p item + qty - stacked T p item qty"

lemma overflow_nonneg: "0 \<le> overflow T p item qty"
  by (auto simp: overflow_def quantity_def stacked_def split: option.splits)

lemma overflow_new_pile: "map_of (player_item T) (p, item) = None \<Longrightarrow> overflow T p item qty = 0"
  by (simp add: overflow_def quantity_def stacked_def)

lemma overflow_pile:
  "map_of (player_item T) (p, item) = Some cur \<Longrightarrow> map_of (item_catalog T) item = Some d \<Longrightarrow>
   overflow T p item qty = max 0 (cur + qty - stack_max d)"
  by (simp add: overflow_def quantity_def stacked_def)

section \<open>Triples with the exact tables\<close>

lemma normalized_items_frame [simp]:
  "normalized_items pg p (T\<lparr>player_inventory := v\<rparr>) = normalized_items pg p T"
  "normalized_items pg p (T\<lparr>player_wallet := w\<rparr>) = normalized_items pg p T"
  by (simp_all add: normalized_items_def)

lemma when_done_post: "when_done P m Q \<Longrightarrow> (\<And>r T. Q r T \<Longrightarrow> Q' r T) \<Longrightarrow> when_done P m Q'"
  by (force simp: when_done_def)

lemma sync_exact:
  "when_done (\<lambda>T. \<exists>v. T = B\<lparr>player_inventory := v\<rparr> \<and> R v) (syncPlayerInventoryJSONBTx pg p)
     (\<lambda>_ T. \<exists>v v0. T = B\<lparr>player_inventory := v\<rparr> \<and> R v0
        \<and> map_of v = (map_of v0)(p \<mapsto> slots_of (normalized_items pg p B)))"
proof -
  let ?P = "\<lambda>T. \<exists>v. T = B\<lparr>player_inventory := v\<rparr> \<and> R v"
  let ?P2 = "\<lambda>T. \<exists>v v0. T = B\<lparr>player_inventory := v\<rparr> \<and> R v0 \<and> map_of v p \<noteq> None
      \<and> (\<forall>k. k \<noteq> p \<longrightarrow> map_of v k = map_of v0 k)"
  let ?Q = "\<lambda>T. \<exists>v v0. T = B\<lparr>player_inventory := v\<rparr> \<and> R v0
        \<and> map_of v = (map_of v0)(p \<mapsto> slots_of (normalized_items pg p B))"
  have list: "when_done ?P (listPlayerItemsNormalizedTx pg p)
      (\<lambda>rows T. ?P T \<and> rows = normalized_items pg p B)"
    unfolding listPlayerItemsNormalizedTx_def by (rule when_done_exec) auto
  have ins: "when_done ?P (tx_exec pg [p] (insert_inventory p)) (\<lambda>_. ?P2)"
  proof (rule when_done_exec)
    fix T :: player_tables and r T'
    assume "?P T" and ins: "insert_inventory p T = Inr (r, T')"
    then obtain v where v: "T = B\<lparr>player_inventory := v\<rparr>" "R v"
      by blast
    then show "?P2 T'"
      using ins by (intro exI[of _ "insert_new p [] v"] exI[of _ v])
        (auto simp: insert_inventory_def table_simps split: option.splits)
  qed
  have upd: "when_done ?P2 (tx_exec pg [p] (update_inventory p (slots_of (normalized_items pg p B)))) (\<lambda>_. ?Q)"
  proof (rule when_done_exec)
    fix T :: player_tables and r T'
    let ?slots = "slots_of (normalized_items pg p B)"
    assume "?P2 T" and upd: "update_inventory p ?slots T = Inr (r, T')"
    then obtain v v0 where v: "T = B\<lparr>player_inventory := v\<rparr>" "R v0" "map_of v p \<noteq> None"
        and same: "\<forall>k. k \<noteq> p \<longrightarrow> map_of v k = map_of v0 k"
      by blast
    then show "?Q T'"
      using upd by (intro exI[of _ "AList.update p ?slots v"] exI[of _ v0])
        (auto simp: update_inventory_def table_simps fun_eq_iff)
  qed
  show ?thesis
    unfolding syncPlayerInventoryJSONBTx_def
  proof (rule when_done_then[OF list])
    fix rows
    show "when_done (\<lambda>T. ?P T \<and> rows = normalized_items pg p B)
        (tx_then (tx_exec pg [p] (insert_inventory p)) (\<lambda>_.
         tx_then (tx_exec pg [p] (update_inventory p (slots_of rows))) (\<lambda>n.
           if n = 0 then fail_with ''inventory row missing after ensure'' else tx_give ()))) (\<lambda>_. ?Q)"
    proof (rule when_done_pure)
      assume rows: "rows = normalized_items pg p B"
      show "when_done ?P (tx_then (tx_exec pg [p] (insert_inventory p)) (\<lambda>_.
         tx_then (tx_exec pg [p] (update_inventory p (slots_of rows))) (\<lambda>n.
           if n = 0 then fail_with ''inventory row missing after ensure'' else tx_give ()))) (\<lambda>_. ?Q)"
        unfolding rows
        by (rule when_done_then[OF ins when_done_then[OF upd]])
           (intro when_done_if when_done_fail when_done_give)
    qed
  qed
qed

lemma remove_exact:
  "when_done (\<lambda>T. T = B) (removePlayerItemQuantityTx pg p item qty)
     (\<lambda>_ T. \<exists>l cur. T = B\<lparr>player_item := l\<rparr> \<and> map_of (player_item B) (p, item) = Some cur
        \<and> 0 < qty \<and> qty \<le> cur
        \<and> map_of l = (map_of (player_item B))((p, item) := if cur = qty then None else Some (cur - qty)))"
  (is "when_done _ _ (\<lambda>_. ?Q)")
proof (cases "0 < qty")
  case True
  have sel: "when_done (\<lambda>T. T = B) (tx_exec pg [p, item] (select_item p item))
      (\<lambda>found T. T = B \<and> found = map_of (player_item B) (p, item))"
    by (rule when_done_exec) (auto simp: select_item_def)
  have del: "when_done (\<lambda>T. T = B) (tx_exec pg [p, item] (delete_item p item)) (\<lambda>_. ?Q)"
    if "map_of (player_item B) (p, item) = Some qty"
    by (rule when_done_exec) (use that True in \<open>auto simp: delete_item_def table_simps
        intro!: exI[of _ "AList.delete (p, item) (player_item B)"]\<close>)
  have dec: "when_done (\<lambda>T. T = B) (tx_exec pg [p, item] (decrease_item p item qty)) (\<lambda>_. ?Q)"
    if "map_of (player_item B) (p, item) = Some cur" "qty < cur" for cur
    by (rule when_done_exec) (use that True in \<open>auto simp: decrease_item_def table_simps
        intro!: exI[of _ "AList.update (p, item) (cur - qty) (player_item B)"] split: if_splits\<close>)
  have "when_done (\<lambda>T. T = B \<and> found = map_of (player_item B) (p, item))
     (case found of None \<Rightarrow> fail_with ''item not found''
      | Some cur \<Rightarrow> if cur < qty then fail_with ''insufficient quantity''
          else if cur = qty then tx_exec pg [p, item] (delete_item p item)
          else tx_exec pg [p, item] (decrease_item p item qty)) (\<lambda>_. ?Q)" for found
  proof (rule when_done_pure)
    assume found: "found = map_of (player_item B) (p, item)"
    show "when_done (\<lambda>T. T = B)
       (case found of None \<Rightarrow> fail_with ''item not found''
        | Some cur \<Rightarrow> if cur < qty then fail_with ''insufficient quantity''
            else if cur = qty then tx_exec pg [p, item] (delete_item p item)
            else tx_exec pg [p, item] (decrease_item p item qty)) (\<lambda>_. ?Q)"
    proof (cases found)
      case (Some cur)
      have row: "map_of (player_item B) (p, item) = Some cur"
        using found Some by simp
      have "cur = qty \<Longrightarrow> when_done (\<lambda>T. T = B) (tx_exec pg [p, item] (delete_item p item)) (\<lambda>_. ?Q)"
        using del row by blast
      moreover have "qty < cur \<Longrightarrow> when_done (\<lambda>T. T = B) (tx_exec pg [p, item] (decrease_item p item qty)) (\<lambda>_. ?Q)"
        by (rule dec[OF row])
      ultimately show ?thesis
        unfolding Some option.case by (intro when_done_if when_done_fail) linarith+
    qed (simp add: when_done_fail)
  qed
  then show ?thesis
    using True by (simp only: removePlayerItemQuantityTx_def not_le[symmetric] if_False) (rule when_done_then[OF sel])
qed (simp add: removePlayerItemQuantityTx_def when_done_fail)

lemma add_exact:
  assumes "0 < qty"
  shows "when_done (\<lambda>T. T = B) (addPlayerItemQuantityTx pg p item qty)
     (\<lambda>_ T. \<exists>l. T = B\<lparr>player_item := l\<rparr> \<and> 0 < stacked B p item qty
        \<and> map_of l = (map_of (player_item B))((p, item) \<mapsto> stacked B p item qty))"
  unfolding addPlayerItemQuantityTx_def
  by (intro when_done_if when_done_give when_done_exec)
    (use assms in \<open>auto simp: upsert_item_def stacked_def table_simps Let_def
        intro!: exI[of _ "AList.update (p, item) (stacked B p item qty) (player_item B)"]
        split: option.splits if_splits\<close>)

section \<open>A transfer\<close>

text \<open>
  The tables after a transfer that went through: one pile smaller or gone, the other stacked, both
  JSON inventories rewritten from the piles, no gold moved.
\<close>

definition transferred :: "postgres \<Rightarrow> string \<Rightarrow> string \<Rightarrow> string \<Rightarrow> int \<Rightarrow> player_tables \<Rightarrow>
    player_tables \<Rightarrow> bool" where
  "transferred pg p q item qty T T' \<longleftrightarrow>
     0 < qty \<and> qty \<le> quantity T p item
     \<and> map_of (player_item T') = (map_of (player_item T))
          ((p, item) := if quantity T p item = qty then None else Some (quantity T p item - qty),
           (q, item) \<mapsto> stacked T q item qty)
     \<and> map_of (player_inventory T') = (map_of (player_inventory T))
          (p \<mapsto> slots_of (normalized_items pg p T'), q \<mapsto> slots_of (normalized_items pg q T'))
     \<and> gold_balance T' = gold_balance T"

lemma tx_then_InrE:
  assumes "tx_then m k x = (Inr r, x')"
  obtains a y where "m x = (Inr a, y)" "k a y = (Inr r, x')"
  using assms by (auto simp: tx_then_def split: prod.splits sum.splits)

lemma sync_of:
  assumes "syncPlayerInventoryJSONBTx pg p x = (Inr r, x')"
  shows "player_item (tx_tables x') = player_item (tx_tables x)"
    "item_catalog (tx_tables x') = item_catalog (tx_tables x)"
    "player_wallet (tx_tables x') = player_wallet (tx_tables x)"
    "normalized_items pg q (tx_tables x') = normalized_items pg q (tx_tables x)"
    "map_of (player_inventory (tx_tables x')) = (map_of (player_inventory (tx_tables x)))
       (p \<mapsto> slots_of (normalized_items pg p (tx_tables x)))"
  using when_doneD[OF sync_exact[of "tx_tables x" "\<lambda>v. v = player_inventory (tx_tables x)"] _ assms]
  by auto

lemma remove_of:
  assumes "removePlayerItemQuantityTx pg p item qty x = (Inr r, x')"
  shows "0 < qty" "qty \<le> quantity (tx_tables x) p item"
    "map_of (player_item (tx_tables x')) = (map_of (player_item (tx_tables x)))((p, item) :=
       if quantity (tx_tables x) p item = qty then None else Some (quantity (tx_tables x) p item - qty))"
    "item_catalog (tx_tables x') = item_catalog (tx_tables x)"
    "player_wallet (tx_tables x') = player_wallet (tx_tables x)"
    "player_inventory (tx_tables x') = player_inventory (tx_tables x)"
  using when_doneD[OF remove_exact HOL.refl assms] by (auto simp: quantity_def)

lemma add_of:
  assumes "addPlayerItemQuantityTx pg p item qty x = (Inr r, x')" "0 < qty"
  shows "0 < stacked (tx_tables x) p item qty"
    "map_of (player_item (tx_tables x')) = (map_of (player_item (tx_tables x)))((p, item) \<mapsto> stacked (tx_tables x) p item qty)"
    "item_catalog (tx_tables x') = item_catalog (tx_tables x)"
    "player_wallet (tx_tables x') = player_wallet (tx_tables x)"
    "player_inventory (tx_tables x') = player_inventory (tx_tables x)"
  using when_doneD[OF add_exact[OF assms(2)] HOL.refl assms(1)] by auto

lemma known_of:
  assumes "tx_exec pg texts (select_item_def item) x = (Inr known, x')"
  shows "tx_tables x' = tx_tables x" "known = map_of (item_catalog (tx_tables x)) item"
  using assms by (auto simp: tx_exec_def select_item_def_def Let_def split: if_splits)

lemma wallet_of:
  assumes "tx_ignoring (tx_exec pg texts (insert_wallet q)) x = (r, x')"
  shows "gold_balance (tx_tables x') = gold_balance (tx_tables x)"
    "player_item (tx_tables x') = player_item (tx_tables x)"
    "item_catalog (tx_tables x') = item_catalog (tx_tables x)"
    "player_inventory (tx_tables x') = player_inventory (tx_tables x)"
  using assms by (auto simp: tx_ignoring_def tx_exec_def insert_wallet_def gold_balance_def Let_def fun_eq_iff
      table_simps split: if_splits option.splits)

lemma inventory_of:
  assumes "tx_ignoring (tx_exec pg texts (insert_inventory q)) x = (r, x')"
  shows "player_wallet (tx_tables x') = player_wallet (tx_tables x)"
    "player_item (tx_tables x') = player_item (tx_tables x)"
    "item_catalog (tx_tables x') = item_catalog (tx_tables x)"
    "k \<noteq> q \<Longrightarrow> map_of (player_inventory (tx_tables x')) k = map_of (player_inventory (tx_tables x)) k"
  using assms by (auto simp: tx_ignoring_def tx_exec_def insert_inventory_def Let_def table_simps
      split: if_splits option.splits)

lemma gold_wallet: "player_wallet T' = player_wallet T \<Longrightarrow> gold_balance T' = gold_balance T"
  by (simp add: fun_eq_iff gold_balance_def)

lemma transfer_of:
  assumes "transfer_body pg p q item qty x = (Inr (r, c), x')" "p \<noteq> q" "0 < qty"
  shows "transferred pg p q item qty (tx_tables x) (tx_tables x') \<and> c"
proof -
  from assms(1) obtain known x1 x2 x3 x4 x5 x6 x7 where
        known: "tx_exec pg [item] (select_item_def item) x = (Inr known, x1)"
    and remove: "removePlayerItemQuantityTx pg p item qty x1 = (Inr (), x2)"
    and wallet: "tx_ignoring (tx_exec pg [q] (insert_wallet q)) x2 = (Inr (), x3)"
    and inventory: "tx_ignoring (tx_exec pg [q] (insert_inventory q)) x3 = (Inr (), x4)"
    and add: "addPlayerItemQuantityTx pg q item qty x4 = (Inr (), x5)"
    and sync1: "syncPlayerInventoryJSONBTx pg p x5 = (Inr (), x6)"
    and sync2: "syncPlayerInventoryJSONBTx pg q x6 = (Inr (), x7)"
    and give: "tx_give ((), True) x7 = (Inr (r, c), x')"
    unfolding transfer_body_def
    by (auto elim!: tx_then_InrE split: if_splits simp: fail_with_def)
  have x': "x' = x7" "c"
    using give by (auto simp: tx_give_def)
  note facts = known_of[OF known] remove_of[OF remove] wallet_of[OF wallet] inventory_of[OF inventory]
    add_of[OF add assms(3)] sync_of[OF sync1] sync_of[OF sync2]
  have items: "player_item (tx_tables x7) = player_item (tx_tables x5)"
    and norm: "normalized_items pg k (tx_tables x7) = normalized_items pg k (tx_tables x5)" for k
    using facts by simp_all
  have cat: "item_catalog (tx_tables x4) = item_catalog (tx_tables x)"
    using known_of(1)[OF known] remove_of(4)[OF remove] wallet_of(3)[OF wallet] inventory_of(3)[OF inventory]
    by simp
  have "map_of (player_item (tx_tables x4)) (q, item) = map_of (player_item (tx_tables x)) (q, item)"
    using known_of(1)[OF known] remove_of(3)[OF remove] wallet_of(2)[OF wallet] inventory_of(2)[OF inventory] assms(2)
    by simp
  then have stack: "stacked (tx_tables x4) q item qty = stacked (tx_tables x) q item qty"
    unfolding stacked_def cat by simp
  have gold: "gold_balance (tx_tables x7) = gold_balance (tx_tables x)"
    using facts gold_wallet by metis
  have inv: "map_of (player_inventory (tx_tables x7)) = (map_of (player_inventory (tx_tables x)))
      (p \<mapsto> slots_of (normalized_items pg p (tx_tables x7)), q \<mapsto> slots_of (normalized_items pg q (tx_tables x7)))"
    using facts norm by (auto simp: fun_eq_iff)
  show ?thesis
    unfolding transferred_def x' using facts items stack gold inv x'(2) assms(3) by simp
qed

lemma transfer_cases:
  assumes "TransferPlayerItems pg p0 q0 item0 qty d = (res, d')"
  obtains (kept) "tables d' = tables d" "res \<noteq> Inr ()"
  | (moved) "transferred pg (TrimSpace p0) (TrimSpace q0) (TrimSpace item0) qty (tables d) (tables d')"
      "TrimSpace p0 \<noteq> TrimSpace q0" "res = Inr () \<or> res = Inl (Postgres Connection)"
proof (cases "0 < qty \<and> TrimSpace item0 \<noteq> [] \<and> TrimSpace p0 \<noteq> [] \<and> TrimSpace q0 \<noteq> []
    \<and> TrimSpace p0 \<noteq> TrimSpace q0")
  case True
  then have tx: "with_tx pg (transfer_body pg (TrimSpace p0) (TrimSpace q0) (TrimSpace item0) qty) d = (res, d')"
    using assms by (simp add: TransferPlayerItems_def Let_def)
  then show ?thesis
  proof (cases rule: with_tx_cases)
    case same: kept
    have "res \<noteq> Inr ()"
      using same(2) True transfer_of by fastforce
    then show ?thesis
      using same(1) by (intro kept)
  next
    case (committed r x x')
    then show ?thesis
      using transfer_of[of pg "TrimSpace p0" "TrimSpace q0" "TrimSpace item0" qty x r True x'] True
      by (intro moved) (auto simp: unit_eq)
  qed
next
  case False
  then show ?thesis
    using assms by (intro kept) (auto simp: TransferPlayerItems_def Let_def split: if_splits)
qed

lemma transferred_quantity:
  assumes "transferred pg p q item qty T T'" "p \<noteq> q"
  shows "quantity T' r item = quantity T r item + (if r = p then - qty else 0)
     + (if r = q then qty - overflow T q item qty else 0)"
  using assms by (auto simp: transferred_def quantity_def overflow_def)

lemma transferred_total:
  assumes "transferred pg p q item qty T T'" "p \<noteq> q" "finite P" "p \<in> P" "q \<in> P"
  shows "(\<Sum>r\<in>P. quantity T' r item) + overflow T q item qty = (\<Sum>r\<in>P. quantity T r item)"
  using assms(3-5) by (simp add: transferred_quantity[OF assms(1,2)] sum.distrib sum.delta)

section \<open>An addition\<close>

lemma add_success:
  assumes "AddPlayerItemQuantity pg p item0 qty d = (Inr (), d')"
  shows "0 < qty \<and> quantity (tables d') p (TrimSpace item0) = stacked (tables d) p (TrimSpace item0) qty
    \<and> map_of (player_item (tables d')) = (map_of (player_item (tables d)))
        ((p, TrimSpace item0) \<mapsto> stacked (tables d) p (TrimSpace item0) qty)
    \<and> item_catalog (tables d') = item_catalog (tables d)
    \<and> map_of (player_inventory (tables d')) p = Some (slots_of (normalized_items pg p (tables d')))"
proof -
  let ?item = "TrimSpace item0"
  let ?body = "tx_then (tx_exec pg [?item] (select_item_def ?item)) (\<lambda>known.
      if known = None then fail_with ''unknown item_id''
      else tx_then (addPlayerItemQuantityTx pg p ?item qty) (\<lambda>_.
           tx_then (syncPlayerInventoryJSONBTx pg p) (\<lambda>_. tx_give ((), True))))"
  from assms have qty: "0 < qty" and tx: "with_tx pg ?body d = (Inr (), d')"
    by (auto simp: AddPlayerItemQuantity_def Let_def split: if_splits)
  have effect: "map_of (player_item (tx_tables x')) = (map_of (player_item (tx_tables x)))
        ((p, ?item) \<mapsto> stacked (tx_tables x) p ?item qty)
      \<and> item_catalog (tx_tables x') = item_catalog (tx_tables x)
      \<and> map_of (player_inventory (tx_tables x')) p = Some (slots_of (normalized_items pg p (tx_tables x'))) \<and> c"
    if body: "?body x = (Inr ((), c), x')" for x c x'
  proof -
    from body obtain known x1 x2 x3 where
          known: "tx_exec pg [?item] (select_item_def ?item) x = (Inr known, x1)"
      and add: "addPlayerItemQuantityTx pg p ?item qty x1 = (Inr (), x2)"
      and sync: "syncPlayerInventoryJSONBTx pg p x2 = (Inr (), x3)"
      and give: "tx_give ((), True) x3 = (Inr ((), c), x')"
      by (auto elim!: tx_then_InrE split: if_splits simp: fail_with_def)
    show ?thesis
      using give known_of[OF known] add_of[OF add qty] sync_of[OF sync] by (auto simp: tx_give_def)
  qed
  from tx show ?thesis
  proof (cases rule: with_tx_cases)
    case kept
    then show ?thesis using effect by blast
  next
    case (committed r x x')
    then show ?thesis using effect[of x True x'] qty by (simp add: quantity_def)
  qed
qed

section \<open>What the operations promise\<close>

text \<open>
  C28: a transfer is all or nothing. Either the tables are as before and the caller gets an error,
  or both piles and both JSON inventories have changed as specified; the caller then gets success,
  or a connection error when the reply to the commit was lost.
\<close>

theorem TransferPlayerItems_outcome:
  assumes "TransferPlayerItems pg p q item qty d = (res, d')"
  shows "tables d' = tables d \<and> res \<noteq> Inr ()
    \<or> transferred pg (TrimSpace p) (TrimSpace q) (TrimSpace item) qty (tables d) (tables d')
      \<and> TrimSpace p \<noteq> TrimSpace q \<and> (res = Inr () \<or> res = Inl (Postgres Connection))"
  using assms by (cases rule: transfer_cases) auto

text \<open>
  C29: a transfer never creates items. Over any set of players with both parties the number of
  items of the kind drops by what does not fit on the receiver's pile (\<open>LEAST(stack_max, \<dots>)\<close>), so
  it is kept only when the receiver has no pile yet or the pile has room.
\<close>

theorem TransferPlayerItems_total:
  assumes "TransferPlayerItems pg p q item qty d = (Inr (), d')"
    and "finite P" "TrimSpace p \<in> P" "TrimSpace q \<in> P"
  shows "(\<Sum>r\<in>P. quantity (tables d') r (TrimSpace item))
     + overflow (tables d) (TrimSpace q) (TrimSpace item) qty
     = (\<Sum>r\<in>P. quantity (tables d) r (TrimSpace item))"
  using assms(1) by (cases rule: transfer_cases) (auto intro: transferred_total assms(2-4))

text \<open>
  the first addition of an item is not capped, every later one is: after a first addition
  beyond \<open>stack_max\<close> a second one leaves the player with \<open>stack_max\<close>, fewer than he had.
\<close>

theorem second_addition_shrinks:
  assumes "map_of (player_item (tables d)) (p, TrimSpace item) = None"
    and "map_of (item_catalog (tables d)) (TrimSpace item) = Some def" "stack_max def < qty"
    and "AddPlayerItemQuantity pg p item qty d = (Inr (), d1)"
    and "AddPlayerItemQuantity pg p item qty2 d1 = (Inr (), d2)"
  shows "quantity (tables d1) p (TrimSpace item) = qty
    \<and> quantity (tables d2) p (TrimSpace item) = stack_max def
    \<and> quantity (tables d2) p (TrimSpace item) < quantity (tables d1) p (TrimSpace item)"
  using add_success[OF assms(4)] add_success[OF assms(5)] assms(1-3) by (simp add: stacked_def)

end
