(* ===== verification/Player_Records.thy ===== *)
theory Player_Records
  imports Player_Items
begin

text \<open>
  The tables of the migrations, the constraints of the schema over any sequence of operations,
  display names, the chain cursor and the chain events; and the runs that witness the theorems of
  this group.
\<close>

section \<open>The migrated database\<close>

definition migrated_items :: "(string \<times> item_def) list" where
  "migrated_items =
     [(''coin_copper'', \<lparr>display_name =
         [CHR 0xD0, CHR 0x9C, CHR 0xD0, CHR 0xB5, CHR 0xD0, CHR 0xB4, CHR 0xD0, CHR 0xBD, CHR
         0xD0, CHR 0xB0, CHR 0xD1, CHR 0x8F, CHR 0x20, CHR 0xD0, CHR 0xBC, CHR 0xD0, CHR 0xBE,
         CHR 0xD0, CHR 0xBD, CHR 0xD0, CHR 0xB5, CHR 0xD1, CHR 0x82, CHR 0xD0, CHR 0xB0],
        stack_max = 99\<rparr>),
      (''tutorial_shard'', \<lparr>display_name =
         [CHR 0xD0, CHR 0x9E, CHR 0xD1, CHR 0x81, CHR 0xD0, CHR 0xBA, CHR 0xD0, CHR 0xBE, CHR
         0xD0, CHR 0xBB, CHR 0xD0, CHR 0xBE, CHR 0xD0, CHR 0xBA, CHR 0x20, CHR 0xD1, CHR 0x83,
         CHR 0xD1, CHR 0x87, CHR 0xD0, CHR 0xB5, CHR 0xD0, CHR 0xB1, CHR 0xD0, CHR 0xBD, CHR
         0xD0, CHR 0xBE, CHR 0xD0, CHR 0xB3, CHR 0xD0, CHR 0xBE, CHR 0x20, CHR 0xD0, CHR 0xBA,
         CHR 0xD0, CHR 0xB2, CHR 0xD0, CHR 0xB5, CHR 0xD1, CHR 0x81, CHR 0xD1, CHR 0x82, CHR
         0xD0, CHR 0xB0],
        stack_max = 99\<rparr>),
      (''forest_token'', \<lparr>display_name =
         [CHR 0xD0, CHR 0x96, CHR 0xD0, CHR 0xB5, CHR 0xD1, CHR 0x82, CHR 0xD0, CHR 0xBE, CHR
         0xD0, CHR 0xBD, CHR 0x20, CHR 0xD0, CHR 0xBB, CHR 0xD0, CHR 0xB5, CHR 0xD1, CHR 0x81,
         CHR 0xD0, CHR 0xBD, CHR 0xD0, CHR 0xBE, CHR 0xD0, CHR 0xB3, CHR 0xD0, CHR 0xBE, CHR
         0x20, CHR 0xD0, CHR 0xBF, CHR 0xD1, CHR 0x83, CHR 0xD1, CHR 0x82, CHR 0xD0, CHR 0xB8],
        stack_max = 99\<rparr>),
      (''scholar_sigil'', \<lparr>display_name =
         [CHR 0xD0, CHR 0xA1, CHR 0xD0, CHR 0xB8, CHR 0xD0, CHR 0xB3, CHR 0xD0, CHR 0xB8, CHR
         0xD0, CHR 0xBB, CHR 0xD1, CHR 0x8C, CHR 0x20, CHR 0xD0, CHR 0xB7, CHR 0xD0, CHR 0xBD,
         CHR 0xD0, CHR 0xB0, CHR 0xD1, CHR 0x82, CHR 0xD0, CHR 0xBE, CHR 0xD0, CHR 0xBA, CHR
         0xD0, CHR 0xB0],
        stack_max = 99\<rparr>)]"

definition migrated_tables :: player_tables where
  "migrated_tables =
     \<lparr>session_issue = [], player_last_cell = [], player_profile = [], player_stats = [],
      player_wallet = [], player_inventory = [], player_quest = [], player_item = [],
      item_catalog = migrated_items, quest_catalog = migrated_quests,
      chain_cursor = [], chain_tx_event = [], wallet_address = []\<rparr>"

definition steady_server :: postgres where
  "steady_server = \<lparr>reply = (\<lambda>_. Served), accepts_text = (\<lambda>_. True), collate = (\<lambda>s. s)\<rparr>"

abbreviation "new_database \<equiv> \<lparr>tables = migrated_tables, requests = 0\<rparr>"

section \<open>The constraints of the schema\<close>

text \<open>
  Gold and quantities in range, items in the catalog, an address owned by one player; and, what no
  constraint says, that the level and the experience of every player are still those of a new row:
  no operation changes them.
\<close>

definition wallets_ok :: "player_tables \<Rightarrow> bool" where
  "wallets_ok T \<longleftrightarrow> (\<forall>p g. map_of (player_wallet T) p = Some g \<longrightarrow> 0 \<le> g \<and> int_in_range g)"

definition items_ok :: "player_tables \<Rightarrow> bool" where
  "items_ok T \<longleftrightarrow> (\<forall>p i n. map_of (player_item T) (p, i) = Some n \<longrightarrow>
     0 < n \<and> is_int32 n \<and> map_of (item_catalog T) i \<noteq> None)"

definition addresses_ok :: "player_tables \<Rightarrow> bool" where
  "addresses_ok T \<longleftrightarrow> (\<forall>p q a. map_of (wallet_address T) p = Some a \<longrightarrow> map_of (wallet_address T) q = Some a \<longrightarrow> p = q)"

definition stats_ok :: "player_tables \<Rightarrow> bool" where
  "stats_ok T \<longleftrightarrow> (\<forall>p s. map_of (player_stats T) p = Some s \<longrightarrow> s = (1, 0))"

definition schema_ok :: "player_tables \<Rightarrow> bool" where
  "schema_ok T \<longleftrightarrow> wallets_ok T \<and> items_ok T \<and> addresses_ok T \<and> stats_ok T"

lemma sql_keeps_schema:
  assumes "sql_keeps wallets_ok q" "sql_keeps items_ok q" "sql_keeps addresses_ok q" "sql_keeps stats_ok q"
  shows "sql_keeps schema_ok q"
  using assms unfolding sql_keeps_def schema_ok_def by blast

lemma items_okD:
  "items_ok T \<Longrightarrow> map_of (player_item T) (p, i) = Some n \<Longrightarrow>
   0 < n \<and> is_int32 n \<and> (\<exists>d. map_of (item_catalog T) i = Some d)"
  unfolding items_ok_def by blast

lemma items_ok_update:
  "items_ok T \<Longrightarrow> 0 < n \<Longrightarrow> is_int32 n \<Longrightarrow> map_of (item_catalog T) i = Some d \<Longrightarrow>
   items_ok (T\<lparr>player_item := AList.update (p, i) n (player_item T)\<rparr>)"
  by (auto simp: items_ok_def table_simps)

lemmas statement_defs =
  insert_session_issue_def upsert_last_cell_def upsert_profile_def insert_stats_def insert_wallet_def
  insert_inventory_def update_inventory_def insert_quest_seed_def insert_unlocked_def upsert_item_def
  delete_item_def decrease_item_def insert_starter_def upsert_cursor_def upsert_event_def
  upsert_address_def update_quest_def add_gold_def

lemma in_range_0: "int_in_range 0" "is_int32 1"
  by (simp_all add: int_in_range_def is_int32_def)

lemma wallets_kept:
  "sql_keeps wallets_ok (insert_wallet p)" "sql_keeps wallets_ok (add_gold p n)"
  by (auto simp: sql_keeps_def wallets_ok_def statement_defs table_simps in_range_0
      split: option.splits if_splits)

lemma is_int32_min: "is_int32 a \<Longrightarrow> is_int32 b \<Longrightarrow> 0 < min c b \<Longrightarrow> is_int32 (min c b)"
  by (auto simp: is_int32_def)

lemma is_int32_less: "is_int32 a \<Longrightarrow> 0 < b \<Longrightarrow> b \<le> a \<Longrightarrow> is_int32 b"
  by (auto simp: is_int32_def)

lemma upsert_item_kept: "sql_keeps items_ok (upsert_item p i n)"
proof (rule sql_keepsI)
  fix T :: player_tables and r T'
  assume T: "items_ok T" and upd: "upsert_item p i n T = Inr (r, T')"
  have n: "is_int32 n" "0 < n"
    using upd by (auto simp: upsert_item_def Let_def split: option.splits if_splits)
  obtain m where T': "T' = T\<lparr>player_item := AList.update (p, i) m (player_item T)\<rparr>"
      and m: "0 < m" "is_int32 m" and known: "map_of (item_catalog T) i \<noteq> None"
  proof (cases "map_of (player_item T) (p, i)")
    case None
    then show ?thesis
      using upd n by (intro that[of n]) (auto simp: upsert_item_def split: if_splits)
  next
    case (Some cur)
    then obtain d where d: "map_of (item_catalog T) i = Some d"
      using items_okD[OF T] by blast
    show ?thesis
      using upd n Some d by (intro that[of "min (stack_max d) (cur + n)"])
        (auto simp: upsert_item_def Let_def is_int32_def min_def split: if_splits)
  qed
  show "items_ok T'"
    using T m known by (auto simp: T' items_ok_def table_simps)
qed

lemma items_kept:
  "sql_keeps items_ok (delete_item p i)" "sql_keeps items_ok (decrease_item p i n)"
  "sql_keeps items_ok (insert_starter p)"
proof -
  show "sql_keeps items_ok (delete_item p i)"
    by (auto simp: sql_keeps_def items_ok_def delete_item_def table_simps)
  show "sql_keeps items_ok (decrease_item p i n)"
  proof (rule sql_keepsI)
    fix T :: player_tables and r T'
    assume T: "items_ok T" and dec: "decrease_item p i n T = Inr (r, T')"
    show "items_ok T'"
    proof (cases "map_of (player_item T) (p, i)")
      case None
      then show ?thesis
        using T dec by (auto simp: decrease_item_def split: if_splits)
    next
      case (Some cur)
      then obtain d where "0 < cur" "is_int32 cur" "map_of (item_catalog T) i = Some d"
        using items_okD[OF T] by blast
      then show ?thesis
        using T dec Some by (auto simp: decrease_item_def is_int32_def split: if_splits intro!: items_ok_update)
    qed
  qed
  show "sql_keeps items_ok (insert_starter p)"
    by (auto simp: sql_keeps_def items_ok_def insert_starter_def table_simps in_range_0
        split: option.splits if_splits)
qed

lemma addresses_kept: "sql_keeps addresses_ok (upsert_address p a c)"
proof (rule sql_keepsI)
  fix T :: player_tables and r T'
  assume T: "addresses_ok T" and upd: "upsert_address p a c T = Inr (r, T')"
  from upd have T': "T' = T\<lparr>wallet_address := AList.update p (a, c) (wallet_address T)\<rparr>"
      and free: "\<not> list_ex (\<lambda>(q, a', c'). q \<noteq> p \<and> a' = a \<and> c' = c) (wallet_address T)"
    by (auto simp: upsert_address_def split: if_splits)
  have "q = p" if own: "map_of (wallet_address T) q = Some (a, c)" for q
    using free map_of_SomeD[OF own] by (fastforce simp: list_ex_iff)
  then show "addresses_ok T'"
    using T by (auto simp: T' addresses_ok_def table_simps)
qed

lemma stats_kept: "sql_keeps stats_ok (insert_stats p)"
  by (auto simp: sql_keeps_def stats_ok_def insert_stats_def table_simps split: option.splits if_splits)

text \<open>A statement that leaves a table alone keeps what is said of it.\<close>

lemma frame_kept:
  assumes "\<And>T r T'. q T = Inr (r, T') \<Longrightarrow> f T' = f T" "\<And>T T'. f T' = f T \<Longrightarrow> I T \<Longrightarrow> I T'"
  shows "sql_keeps I q"
  using assms by (blast intro: sql_keepsI)

lemma wallets_frame: "(\<And>T r T'. q T = Inr (r, T') \<Longrightarrow> player_wallet T' = player_wallet T) \<Longrightarrow> sql_keeps wallets_ok q"
  by (erule frame_kept[where f = player_wallet]) (simp add: wallets_ok_def)

lemma items_frame: "(\<And>T r T'. q T = Inr (r, T') \<Longrightarrow>
    player_item T' = player_item T \<and> item_catalog T' = item_catalog T) \<Longrightarrow> sql_keeps items_ok q"
  by (rule frame_kept[where f = "\<lambda>T. (player_item T, item_catalog T)"]) (auto simp: items_ok_def)

lemma addresses_frame: "(\<And>T r T'. q T = Inr (r, T') \<Longrightarrow> wallet_address T' = wallet_address T) \<Longrightarrow> sql_keeps addresses_ok q"
  by (erule frame_kept[where f = wallet_address]) (simp add: addresses_ok_def)

lemma stats_frame: "(\<And>T r T'. q T = Inr (r, T') \<Longrightarrow> player_stats T' = player_stats T) \<Longrightarrow> sql_keeps stats_ok q"
  by (erule frame_kept[where f = player_stats]) (simp add: stats_ok_def)

lemma schema_statements:
  "sql_keeps schema_ok (insert_session_issue p)" "sql_keeps schema_ok (upsert_last_cell p c x z)"
  "sql_keeps schema_ok (upsert_profile p nm)" "sql_keeps schema_ok (insert_stats p)"
  "sql_keeps schema_ok (insert_wallet p)" "sql_keeps schema_ok (insert_inventory p)"
  "sql_keeps schema_ok (update_inventory p slots)" "sql_keeps schema_ok (insert_quest_seed p)"
  "sql_keeps schema_ok (insert_unlocked p)" "sql_keeps schema_ok (upsert_item p i n)"
  "sql_keeps schema_ok (delete_item p i)" "sql_keeps schema_ok (decrease_item p i n)"
  "sql_keeps schema_ok (insert_starter p)" "sql_keeps schema_ok (upsert_cursor ch bn bh)"
  "sql_keeps schema_ok (upsert_event ev)" "sql_keeps schema_ok (upsert_address p a ch)"
  "sql_keeps schema_ok (update_quest p q f n)" "sql_keeps schema_ok (add_gold p n)"
  by (intro sql_keeps_schema wallets_kept items_kept upsert_item_kept addresses_kept stats_kept;
      (rule wallets_frame items_frame addresses_frame stats_frame;
       auto simp: statement_defs Let_def split: option.splits if_splits))+

text \<open>An invariant that every statement keeps is kept by the completion of a quest.\<close>

lemma completion_kept:
  assumes wallet: "sql_keeps I (insert_wallet p)" and gold: "\<And>n. sql_keeps I (add_gold p n)"
    and item: "\<And>i n. sql_keeps I (upsert_item p i n)"
    and quest: "\<And>n. sql_keeps I (update_quest p q (\<lambda>r. r\<lparr>quest_state := ''completed''\<rparr>) n)"
    and inventory: "sql_keeps I (insert_inventory p)" "\<And>slots. sql_keeps I (update_inventory p slots)"
  shows "when_done I (complete_body pg p q def) (\<lambda>_. I)"
proof -
  have ex: "sql_keeps I s \<Longrightarrow> when_done I (tx_exec pg texts s) (\<lambda>_. I)" for texts and s :: "'r sql"
    by (rule when_done_exec) (rule sql_keepsD)
  have grant: "when_done I (grantWalletGoldTx pg p n) (\<lambda>_. I)" for n
    unfolding grantWalletGoldTx_def
    by (intro when_done_if when_done_give when_done_fail when_done_then[OF ex[OF gold]]) auto
  have add: "when_done I (if has_item_reward def
      then addPlayerItemQuantityTx pg p i n else tx_give ()) (\<lambda>_. I)" for i n
    unfolding addPlayerItemQuantityTx_def
    by (intro when_done_if when_done_give ex item) auto
  have sync: "when_done I (syncPlayerInventoryJSONBTx pg p) (\<lambda>_. I)"
    unfolding syncPlayerInventoryJSONBTx_def listPlayerItemsNormalizedTx_def
    by (intro when_done_then[OF ex] when_done_if when_done_give when_done_fail sql_keeps_read inventory)
  show ?thesis
    unfolding complete_body_def
    by (rule when_done_then[OF ex[OF wallet] when_done_then[OF grant
          when_done_then[OF add when_done_then[OF ex[OF quest] sync]]]])
qed

lemma schema_completion: "when_done schema_ok (complete_body pg p q def) (\<lambda>_. schema_ok)"
  by (rule completion_kept) (auto intro: schema_statements
      simp: schema_ok_def wallets_ok_def items_ok_def addresses_ok_def stats_ok_def)

interpretation schema: statement_contract schema_ok
  by unfold_locales (intro schema_statements when_done_pre[OF schema_completion] | simp)+

text \<open>
  Over any sequence of operations, with any requests lost, the tables keep the constraints of
  the schema: gold is never negative, a pile is positive and of a catalogued item, an address
  belongs to one player, and a row of stats is an initial one.
\<close>

theorem schema_kept:
  assumes "schema_ok (tables d)"
  shows "schema_ok (tables (db_run pg ops d))"
  using assms by (rule schema.run_keeps)

section \<open>Nothing is forgotten\<close>

text \<open>What tables \<open>T\<close> still hold of earlier tables \<open>S\<close>.\<close>

definition stats_fixed :: "player_tables \<Rightarrow> player_tables \<Rightarrow> bool" where
  "stats_fixed S T \<longleftrightarrow> (\<forall>p s. map_of (player_stats S) p = Some s \<longrightarrow> map_of (player_stats T) p = Some s) \<and>
     (\<forall>p s. map_of (player_stats S) p = None \<longrightarrow> map_of (player_stats T) p = Some s \<longrightarrow> s = (1, 0))"

definition quests_fixed :: "player_tables \<Rightarrow> player_tables \<Rightarrow> bool" where
  "quests_fixed S T \<longleftrightarrow> (\<forall>k r. map_of (player_quest S) k = Some r \<longrightarrow>
     (\<exists>r'. map_of (player_quest T) k = Some r' \<and> (quest_state r = ''completed'' \<longrightarrow> quest_state r' = ''completed'')))"

definition cursors_fixed :: "player_tables \<Rightarrow> player_tables \<Rightarrow> bool" where
  "cursors_fixed S T \<longleftrightarrow> (\<forall>c n h. map_of (chain_cursor S) c = Some (n, h) \<longrightarrow>
     (\<exists>n' h'. map_of (chain_cursor T) c = Some (n', h') \<and> n \<le> n'))"

definition remembers :: "player_tables \<Rightarrow> player_tables \<Rightarrow> bool" where
  "remembers S T \<longleftrightarrow> stats_fixed S T \<and> quests_fixed S T \<and> cursors_fixed S T \<and>
     dom (map_of (player_wallet S)) \<subseteq> dom (map_of (player_wallet T)) \<and>
     dom (map_of (player_inventory S)) \<subseteq> dom (map_of (player_inventory T)) \<and>
     dom (map_of (player_profile S)) \<subseteq> dom (map_of (player_profile T)) \<and>
     dom (map_of (player_last_cell S)) \<subseteq> dom (map_of (player_last_cell T)) \<and>
     dom (map_of (wallet_address S)) \<subseteq> dom (map_of (wallet_address T)) \<and>
     dom (map_of (chain_tx_event S)) \<subseteq> dom (map_of (chain_tx_event T)) \<and>
     item_catalog T = item_catalog S \<and> quest_catalog T = quest_catalog S \<and>
     (\<exists>new. session_issue T = session_issue S @ new)"

lemma remembers_refl: "remembers T T"
  by (simp add: remembers_def stats_fixed_def quests_fixed_def cursors_fixed_def split: option.split)

lemma remembers_trans:
  assumes "remembers S T" "remembers T U"
  shows "remembers S U"
proof -
  have "stats_fixed S U"
    using assms unfolding remembers_def stats_fixed_def by (metis not_None_eq)
  moreover have "quests_fixed S U"
    using assms unfolding remembers_def quests_fixed_def by meson
  moreover have "cursors_fixed S U"
    using assms unfolding remembers_def cursors_fixed_def by (meson order_trans)
  ultimately show ?thesis
    using assms unfolding remembers_def
    by (elim conjE exE, intro conjI) (assumption | erule (1) subset_trans | simp)+
qed

lemma remembers_step: "(\<And>T r T'. q T = Inr (r, T') \<Longrightarrow> remembers T T') \<Longrightarrow> sql_keeps (remembers S) q"
  by (blast intro: sql_keepsI remembers_trans)

lemma completed_update:
  assumes "update_quest p q f n T = Inr (r, T')" "\<And>r. quest_state r = ''completed'' \<Longrightarrow> quest_state (f r) = ''completed''"
  shows "quests_fixed T T'"
  using assms by (auto simp: update_quest_def quests_fixed_def table_simps split: if_splits option.splits)

lemma unlocked_appended: "insert_unlocked p T = Inr (r, T') \<Longrightarrow> quests_fixed T T'"
  by (auto simp: insert_unlocked_def quests_fixed_def Let_def map_add_def split: option.splits)

lemma remembers_statements:
  "sql_keeps (remembers S) (insert_session_issue p)" "sql_keeps (remembers S) (upsert_last_cell p c x z)"
  "sql_keeps (remembers S) (upsert_profile p nm)" "sql_keeps (remembers S) (insert_stats p)"
  "sql_keeps (remembers S) (insert_wallet p)" "sql_keeps (remembers S) (insert_inventory p)"
  "sql_keeps (remembers S) (update_inventory p slots)" "sql_keeps (remembers S) (insert_quest_seed p)"
  "sql_keeps (remembers S) (upsert_item p i n)"
  "sql_keeps (remembers S) (delete_item p i)" "sql_keeps (remembers S) (decrease_item p i n)"
  "sql_keeps (remembers S) (insert_starter p)" "sql_keeps (remembers S) (upsert_cursor ch bn bh)"
  "sql_keeps (remembers S) (upsert_event ev)" "sql_keeps (remembers S) (upsert_address p a ch)"
  "sql_keeps (remembers S) (add_gold p n)"
  by ((rule remembers_step, auto simp: statement_defs remembers_def stats_fixed_def quests_fixed_def cursors_fixed_def
        table_simps Let_def split: option.splits if_splits)[1])+

lemma remembers_quests:
  "sql_keeps (remembers S) (insert_unlocked p)"
  "(\<And>r. quest_state r = ''completed'' \<Longrightarrow> quest_state (f r) = ''completed'') \<Longrightarrow> sql_keeps (remembers S) (update_quest p q f n)"
proof -
  show "sql_keeps (remembers S) (insert_unlocked p)"
  proof (rule remembers_step)
    fix T r T' assume u: "insert_unlocked p T = Inr (r, T')"
    then show "remembers T T'"
      using unlocked_appended[OF u]
      by (auto simp: insert_unlocked_def remembers_def stats_fixed_def cursors_fixed_def Let_def split: option.split)
  qed
  show "sql_keeps (remembers S) (update_quest p q f n)" if "\<And>r. quest_state r = ''completed'' \<Longrightarrow> quest_state (f r) = ''completed''"
  proof (rule remembers_step)
    fix T r T' assume u: "update_quest p q f n T = Inr (r, T')"
    then show "remembers T T'"
      using completed_update[OF u that]
      by (auto simp: update_quest_def remembers_def stats_fixed_def cursors_fixed_def split: option.splits if_splits)
  qed
qed

lemma remembers_completion: "when_done (remembers S) (complete_body pg p q def) (\<lambda>_. remembers S)"
  by (rule completion_kept) (auto intro: remembers_statements remembers_quests)

interpretation memory: statement_contract "remembers S" for S
  by unfold_locales (intro remembers_statements remembers_quests when_done_pre[OF remembers_completion] | simp)+

text \<open>
  C30: Nothing is forgotten. Whatever operations run on whatever tables, with whatever requests lost,
  executed without an answer or rolled back: a player who has stats keeps his level and experience
  unchanged and a newcomer gets level 1 with none; a quest of a player stays on his list and, once
  completed, completed; the cursor of a chain never goes back; no wallet, inventory, profile, last
  cell, address or stored chain event disappears; the catalogs stay as they are, and the record of issued
  sessions only gets longer.
\<close>

theorem records_never_lost: "remembers (tables d) (tables (db_run pg ops d))"
  by (rule memory.run_keeps[OF remembers_refl])

section \<open>Display names\<close>

text \<open>UTF-8, the encoding of a database (RFC 3629).\<close>

definition byte_in :: "nat \<Rightarrow> nat \<Rightarrow> char \<Rightarrow> bool" where
  "byte_in lo hi c \<longleftrightarrow> lo \<le> (of_char c :: nat) \<and> (of_char c :: nat) \<le> hi"

fun utf8 :: "string \<Rightarrow> bool" where
  "utf8 [] = True"
| "utf8 (a # s) =
     (if byte_in 0 0x7F a then utf8 s
      else if byte_in 0xC2 0xDF a then (case s of b # t \<Rightarrow> byte_in 0x80 0xBF b \<and> utf8 t | _ \<Rightarrow> False)
      else if byte_in 0xE0 0xEF a then
        (case s of b # c # t \<Rightarrow>
           byte_in (if a = CHR 0xE0 then 0xA0 else 0x80) (if a = CHR 0xED then 0x9F else 0xBF) b
           \<and> byte_in 0x80 0xBF c \<and> utf8 t
         | _ \<Rightarrow> False)
      else if byte_in 0xF0 0xF4 a then
        (case s of b # c # e # t \<Rightarrow>
           byte_in (if a = CHR 0xF0 then 0x90 else 0x80) (if a = CHR 0xF4 then 0x8F else 0xBF) b
           \<and> byte_in 0x80 0xBF c \<and> byte_in 0x80 0xBF e \<and> utf8 t
         | _ \<Rightarrow> False)
      else False)"

lemma pool_exec_refused:
  assumes "\<not> list_all (accepts_text pg) texts"
  shows "(\<exists>c. fst (pool_exec pg texts q d) = Inl (Postgres c)) \<and> tables (snd (pool_exec pg texts q d)) = tables d"
  using assms by (simp add: pool_exec_def Let_def)

text \<open>
  a display name is cut to 128 bytes, not characters. When the server takes only UTF-8 as text
  and the cut falls inside a character, the statement is refused and the name is not saved at all.
\<close>

theorem long_name_not_saved:
  assumes "\<forall>s. accepts_text pg s \<longrightarrow> utf8 s"
    and "maxDisplayNameLen < length (TrimSpace name)"
    and "\<not> utf8 (take maxDisplayNameLen (TrimSpace name))"
  shows "(\<exists>c. fst (UpsertPlayerProfile pg p name d) = Inl (Postgres c))
    \<and> tables (snd (UpsertPlayerProfile pg p name d)) = tables d"
proof -
  have "\<not> list_all (accepts_text pg) [p, take maxDisplayNameLen (TrimSpace name)]"
    using assms(1,3) by auto
  from pool_exec_refused[OF this] show ?thesis
    using assms(2) by (auto simp: UpsertPlayerProfile_def Let_def)
qed

section \<open>Runs\<close>

text \<open>
  A player gets the first quest, completes it at once and asks again: 55 gold, once, and the
  follow-up quest. A player with 99 coins is handed one more.
\<close>

definition quest_run :: "db_op list" where
  "quest_run = [QuestSeed ''p'', ApplyProgress ''p'' ''tutorial_intro'' 3, ApplyProgress ''p'' ''tutorial_intro'' 3]"

lemma quest_run_gold: "gold_balance (tables (db_run steady_server quest_run new_database)) ''p'' = 55"
  by code_simp

theorem gold_is_earned_witness:
  "(55::int) = rewards migrated_quests (completed (tables (db_run steady_server quest_run new_database)) ''p'')"
proof -
  have new: "gold_balance migrated_tables ''p'' = 0" "\<And>q. \<not> completed migrated_tables ''p'' q"
      and cat: "quest_catalog (tables new_database) = migrated_quests"
    by (simp_all add: gold_balance_def completed_def migrated_tables_def)
  show ?thesis
    using gold_is_earned[OF cat, of "''p''" steady_server quest_run] quest_run_gold by (simp add: new)
qed

abbreviation "rich_run \<equiv> [AddItem ''a'' ''coin_copper'' 5, AddItem ''b'' ''coin_copper'' 99]"

definition rich_database :: database where
  "rich_database = db_run steady_server rich_run new_database"

lemma rich_piles:
  "fst (TransferPlayerItems steady_server ''a'' ''b'' ''coin_copper'' 1 rich_database) = Inr ()"
  "overflow (tables rich_database) ''b'' ''coin_copper'' 1 = 1"
  "TrimSpace ''a'' = ''a''" "TrimSpace ''b'' = ''b''" "TrimSpace ''coin_copper'' = ''coin_copper''"
  by code_simp+

theorem TransferPlayerItems_outcome_witness:
  "transferred steady_server ''a'' ''b'' ''coin_copper'' 1 (tables rich_database)
     (tables (snd (TransferPlayerItems steady_server ''a'' ''b'' ''coin_copper'' 1 rich_database)))"
  using TransferPlayerItems_outcome[OF prod.collapse[symmetric],
      of steady_server "''a''" "''b''" "''coin_copper''" 1 rich_database] rich_piles by simp

theorem TransferPlayerItems_total_witness:
  "(\<Sum>r\<in>{''a'', ''b''}. quantity (tables (snd (TransferPlayerItems steady_server ''a'' ''b'' ''coin_copper'' 1
        rich_database))) r ''coin_copper'') + 1
   = (\<Sum>r\<in>{''a'', ''b''}. quantity (tables rich_database) r ''coin_copper'')"
  using TransferPlayerItems_total[of steady_server "''a''" "''b''" "''coin_copper''" 1 rich_database _ "{''a'', ''b''}"]
    rich_piles by (simp add: prod_eq_iff)

definition first_addition :: database where
  "first_addition = snd (AddPlayerItemQuantity steady_server ''a'' ''coin_copper'' 150 new_database)"

lemma additions:
  "AddPlayerItemQuantity steady_server ''a'' ''coin_copper'' 150 new_database = (Inr (), first_addition)"
  "fst (AddPlayerItemQuantity steady_server ''a'' ''coin_copper'' 1 first_addition) = Inr ()"
  by code_simp+

theorem second_addition_shrinks_witness:
  "quantity (tables first_addition) ''a'' ''coin_copper'' = 150
   \<and> quantity (tables (snd (AddPlayerItemQuantity steady_server ''a'' ''coin_copper'' 1 first_addition)))
       ''a'' ''coin_copper'' = 99"
  using second_addition_shrinks[OF _ _ _ additions(1), of _ 1] additions(2) rich_piles(5)
  by (simp add: migrated_tables_def migrated_items_def prod_eq_iff)

theorem schema_kept_witness:
  "schema_ok (tables (db_run steady_server (quest_run @ rich_run) new_database))"
  by (rule schema_kept)
     (simp add: schema_ok_def wallets_ok_def items_ok_def addresses_ok_def stats_ok_def migrated_tables_def)

text \<open>A name of one ASCII letter and 64 Cyrillic ones is 129 bytes long.\<close>

definition long_name :: string where
  "long_name = CHR ''x'' # concat (replicate 64 [CHR 0xD0, CHR 0xB9])"

theorem long_name_not_saved_witness:
  "tables (snd (UpsertPlayerProfile (steady_server\<lparr>accepts_text := utf8\<rparr>) ''p'' long_name new_database))
   = migrated_tables"
proof -
  have "TrimSpace long_name = long_name" "maxDisplayNameLen < length long_name"
    "\<not> utf8 (take maxDisplayNameLen long_name)"
    by code_simp+
  then show ?thesis
    using long_name_not_saved[of "steady_server\<lparr>accepts_text := utf8\<rparr>" long_name "''p''" new_database] by simp
qed

text \<open>The report of a completed quest shows the whole pile, not what was given.\<close>

lemma reward_report:
  "(case fst (ApplyPlayerQuestProgress steady_server ''p'' ''tutorial_intro'' 3
      (db_run steady_server [QuestSeed ''p'', AddItem ''p'' ''coin_copper'' 10] new_database)) of
      Inl _ \<Rightarrow> [] | Inr res \<Rightarrow> map row_Quantity (ap_ItemsRewarded res)) = [16]"
  by code_simp

end
