(* ===== verification/Web3_Indexer.thy ===== *)
theory Web3_Indexer
  imports Player_Records Consul_Catalog
begin

text \<open>
  The indexer of chain events: the check of a request's credentials
  (\<open>src/internal/web3ingest/auth.go\<close>) and the ingest handler (\<open>src/cmd/web3-indexer/main.go\<close>) over
  the tables of package \<open>db\<close>. The keyed hash and the JSON decoder are parameters.
\<close>

section \<open>Credentials\<close>

text \<open>\<open>hex.DecodeString\<close>.\<close>

definition hex_val :: "char \<Rightarrow> nat option" where
  "hex_val c = (let n = (of_char c :: nat)
     in if 48 \<le> n \<and> n \<le> 57 then Some (n - 48)
        else if 97 \<le> n \<and> n \<le> 102 then Some (n - 87)
        else if 65 \<le> n \<and> n \<le> 70 then Some (n - 55)
        else None)"

fun DecodeString :: "string \<Rightarrow> string option" where
  "DecodeString [] = Some []"
| "DecodeString [_] = None"
| "DecodeString (a # b # s) =
     (case (hex_val a, hex_val b, DecodeString s) of
        (Some x, Some y, Some t) \<Rightarrow> Some (char_of (16 * x + y) # t)
      | _ \<Rightarrow> None)"

definition MaxIngestBodyBytes :: nat where
  "MaxIngestBodyBytes = 2 ^ 20"

definition bearerToken :: "string \<Rightarrow> string" where
  "bearerToken auth0 =
     (let auth = TrimSpace auth0; p = ''Bearer ''
      in if length auth \<le> length p \<or> map to_lower (take (length p) auth) \<noteq> map to_lower p then []
         else TrimSpace (drop (length p) auth))"

definition TrimPrefix :: "string \<Rightarrow> string \<Rightarrow> string" where
  "TrimPrefix s p = (if prefix p s then drop (length p) s else s)"

definition presented_key :: "(string \<Rightarrow> string) \<Rightarrow> string" where
  "presented_key h =
     (let got = TrimSpace (h ''X-MMO-Ingest-Key'')
      in if got = [] then bearerToken (h ''Authorization'') else got)"

definition presented_signature :: "(string \<Rightarrow> string) \<Rightarrow> string" where
  "presented_signature h =
     TrimPrefix (map to_lower (TrimSpace (h ''X-MMO-Ingest-Signature''))) ''sha256=''"

text \<open>
  \<open>hmac secret body\<close> is the hash in hexadecimal, \<open>h\<close> the \<open>Get\<close> of the request's headers; an error is
  its message.
\<close>

definition CheckIngestAuth ::
  "(string \<Rightarrow> string \<Rightarrow> string) \<Rightarrow> (string \<Rightarrow> string) \<Rightarrow> string \<Rightarrow> string \<Rightarrow> string \<Rightarrow> string option" where
  "CheckIngestAuth hmac h body apiKey0 hmacSecret0 =
     (let apiKey = TrimSpace apiKey0; hmacSecret = TrimSpace hmacSecret0
      in if apiKey = [] \<and> hmacSecret = [] then None
         else if apiKey \<noteq> [] \<and> presented_key h \<noteq> apiKey then Some ''invalid or missing ingest API key''
         else if hmacSecret = [] then None
         else if TrimSpace (h ''X-MMO-Ingest-Signature'') = [] then Some ''missing X-MMO-Ingest-Signature''
         else (case DecodeString (presented_signature h) of
                 None \<Rightarrow> Some ''invalid signature encoding''
               | Some got \<Rightarrow>
                   (case DecodeString (hmac hmacSecret body) of
                      None \<Rightarrow> Some ''internal signature error''
                    | Some want \<Rightarrow> if got \<noteq> want then Some ''invalid HMAC signature'' else None)))"

section \<open>The handler\<close>

record ingestEvent =
  ie_BlockNumber :: int
  ie_BlockHash :: string
  ie_TxHash :: string
  ie_LogIndex :: int
  ie_ContractAddress :: string
  ie_EventName :: string
  ie_PlayerID :: string
  ie_WalletAddress :: string
  ie_Payload :: string

record ingestRequest =
  ir_ChainID :: int
  ir_Events :: "ingestEvent list"

text \<open>
  What the handler works with: the database, the Redis keys (\<open>None\<close> without a Redis client), and its
  settings.
\<close>

record indexer =
  store :: database
  redis_keys :: "(string \<rightharpoonup> string) option"

record indexer_config =
  defaultChainID :: int
  ingestAPIKey :: string
  ingestHMACSecret :: string

datatype ingest_response =
    HttpError nat string
  | NothingIngested int
  | Ingested nat int int

definition event_row :: "int \<Rightarrow> ingestEvent \<Rightarrow> ChainEventRow" where
  "event_row chainID ev =
     \<lparr>ev_ChainID = chainID, ev_BlockNumber = ie_BlockNumber ev, ev_BlockHash = ie_BlockHash ev,
      ev_TxHash = ie_TxHash ev, ev_LogIndex = ie_LogIndex ev, ev_ContractAddress = ie_ContractAddress ev,
      ev_EventName = ie_EventName ev, ev_Payload = ie_Payload ev\<rparr>"

text \<open>The last event of the highest block so far gives block number and hash; the start is block 0.\<close>

definition max_block :: "int \<times> string \<Rightarrow> ingestEvent \<Rightarrow> int \<times> string" where
  "max_block m ev = (if ie_BlockNumber ev \<ge> fst m then (ie_BlockNumber ev, ie_BlockHash ev) else m)"

text \<open>The wallets are saved one by one, outside any transaction.\<close>

primrec save_wallets :: "postgres \<Rightarrow> int \<Rightarrow> ingestEvent list \<Rightarrow> database \<Rightarrow> db_error option \<times> database" where
  "save_wallets pg chainID [] d = (None, d)"
| "save_wallets pg chainID (ev # evs) d =
     (case UpsertPlayerWalletAddress pg (ie_PlayerID ev) (ie_WalletAddress ev) chainID d of
        (Inl e, d1) \<Rightarrow> (Some e, d1)
      | (Inr _, d1) \<Rightarrow> save_wallets pg chainID evs d1)"

definition ingest_batch :: "postgres \<Rightarrow> bool \<Rightarrow> int \<Rightarrow> ingestEvent list \<Rightarrow> indexer \<Rightarrow>
    ingest_response \<times> indexer" where
  "ingest_batch pg redis_up chainID evs s =
     (case save_wallets pg chainID evs (store s) of
        (Some _, d1) \<Rightarrow> (HttpError 500 ''wallet upsert failed'', s\<lparr>store := d1\<rparr>)
      | (None, d1) \<Rightarrow>
          (case InsertChainEvents pg (map (event_row chainID) evs) d1 of
             (Inl _, d2) \<Rightarrow> (HttpError 500 ''event insert failed'', s\<lparr>store := d2\<rparr>)
           | (Inr _, d2) \<Rightarrow>
               (let (maxBlock, maxBlockHash) = foldl max_block (0, []) evs;
                    done = Ingested (length evs) chainID maxBlock
                in if \<not> maxBlock > 0 then (done, s\<lparr>store := d2\<rparr>)
                   else (case UpsertChainCursor pg chainID maxBlock maxBlockHash d2 of
                           (Inl _, d3) \<Rightarrow> (HttpError 500 ''cursor upsert failed'', s\<lparr>store := d3\<rparr>)
                         | (Inr _, d3) \<Rightarrow>
                             (case redis_keys s of
                                None \<Rightarrow> (done, s\<lparr>store := d3\<rparr>)
                              | Some keys \<Rightarrow>
                                  if \<not> redis_up then (HttpError 500 ''redis cursor write failed'', s\<lparr>store := d3\<rparr>)
                                  else (done, s\<lparr>store := d3, redis_keys :=
                                    Some (keys(''mmo:web3:cursor:'' @ Itoa chainID \<mapsto> Itoa maxBlock))\<rparr>))))))"

definition ingest :: "(string \<Rightarrow> string \<Rightarrow> string) \<Rightarrow> (string \<Rightarrow> ingestRequest option) \<Rightarrow> indexer_config \<Rightarrow>
    postgres \<Rightarrow> bool \<Rightarrow> string \<Rightarrow> (string \<Rightarrow> string) \<Rightarrow> string \<Rightarrow> indexer \<Rightarrow> ingest_response \<times> indexer" where
  "ingest hmac decode cfg pg redis_up method h body s =
     (if method \<noteq> ''POST'' then (HttpError 405 ''method not allowed'', s)
      else if length body > MaxIngestBodyBytes then (HttpError 413 ''body too large'', s)
      else case CheckIngestAuth hmac h body (ingestAPIKey cfg) (ingestHMACSecret cfg) of
        Some msg \<Rightarrow> (HttpError 401 msg, s)
      | None \<Rightarrow>
          (case decode body of
             None \<Rightarrow> (HttpError 400 ''invalid json'', s)
           | Some req \<Rightarrow>
               (let chainID = (if ir_ChainID req \<le> 0 then defaultChainID cfg else ir_ChainID req)
                in if chainID \<le> 0 then (HttpError 400 ''chain_id required'', s)
                   else if ir_Events req = [] then (NothingIngested chainID, s)
                   else ingest_batch pg redis_up chainID (ir_Events req) s)))"

section \<open>Who gets in\<close>

text \<open>
  A request gets in exactly when every credential that is configured matches: the key when
  there is a key, the signature of the body when there is a secret; with neither, any request.
\<close>

theorem CheckIngestAuth_iff:
  "CheckIngestAuth hmac h body apiKey secret = None \<longleftrightarrow>
     (TrimSpace apiKey = [] \<or> presented_key h = TrimSpace apiKey)
     \<and> (TrimSpace secret = []
        \<or> TrimSpace (h ''X-MMO-Ingest-Signature'') \<noteq> [] \<and> DecodeString (presented_signature h) \<noteq> None
          \<and> DecodeString (presented_signature h) = DecodeString (hmac (TrimSpace secret) body))"
  by (auto simp: CheckIngestAuth_def Let_def split: option.splits)

section \<open>The chain tables\<close>

definition cursor_from :: "int \<Rightarrow> int \<Rightarrow> player_tables \<Rightarrow> bool" where
  "cursor_from ch n T \<longleftrightarrow> (case map_of (chain_cursor T) ch of None \<Rightarrow> False | Some (m, _) \<Rightarrow> n \<le> m)"

lemma cursor_frame: "(\<And>T r T'. q T = Inr (r, T') \<Longrightarrow> chain_cursor T' = chain_cursor T) \<Longrightarrow> sql_keeps (cursor_from ch n) q"
  by (erule frame_kept[where f = chain_cursor]) (simp add: cursor_from_def)

lemma cursor_statements:
  "sql_keeps (cursor_from ch n) (insert_session_issue p)" "sql_keeps (cursor_from ch n) (upsert_last_cell p c x z)"
  "sql_keeps (cursor_from ch n) (upsert_profile p nm)" "sql_keeps (cursor_from ch n) (insert_stats p)"
  "sql_keeps (cursor_from ch n) (insert_wallet p)" "sql_keeps (cursor_from ch n) (insert_inventory p)"
  "sql_keeps (cursor_from ch n) (update_inventory p slots)" "sql_keeps (cursor_from ch n) (insert_quest_seed p)"
  "sql_keeps (cursor_from ch n) (insert_unlocked p)" "sql_keeps (cursor_from ch n) (upsert_item p i m)"
  "sql_keeps (cursor_from ch n) (delete_item p i)" "sql_keeps (cursor_from ch n) (decrease_item p i m)"
  "sql_keeps (cursor_from ch n) (insert_starter p)" "sql_keeps (cursor_from ch n) (upsert_event ev)"
  "sql_keeps (cursor_from ch n) (upsert_address p a c2)" "sql_keeps (cursor_from ch n) (update_quest p q f m)"
  "sql_keeps (cursor_from ch n) (add_gold p m)"
  by (rule cursor_frame; auto simp: statement_defs Let_def split: option.splits if_splits)+

lemma cursor_kept: "sql_keeps (cursor_from ch n) (upsert_cursor ch' m h)"
  by (auto simp: sql_keeps_def cursor_from_def upsert_cursor_def Let_def table_simps
      split: option.splits if_splits)

lemma cursor_completion: "when_done (cursor_from ch n) (complete_body pg p q def) (\<lambda>_. cursor_from ch n)"
  by (rule completion_kept) (auto intro: cursor_statements simp: cursor_from_def)

interpretation cursor: statement_contract "cursor_from ch n" for ch n
  by unfold_locales (intro cursor_statements cursor_kept when_done_pre[OF cursor_completion] | simp)+

text \<open>
  Whatever operations run, the cursor of a chain never goes back (\<open>GREATEST\<close>).
\<close>

theorem chain_cursor_monotone:
  assumes "map_of (chain_cursor (tables d)) ch = Some (n, hash)"
  shows "\<exists>n' hash'. map_of (chain_cursor (tables (db_run pg ops d))) ch = Some (n', hash') \<and> n \<le> n'"
  using cursor.run_keeps[of ch n d pg ops] assms by (auto simp: cursor_from_def split: option.splits)

theorem chain_cursor_monotone_witness:
  "\<exists>n' hash'. map_of (chain_cursor (tables (db_run steady_server [ChainCursor 1 3 ''b'']
     \<lparr>tables = migrated_tables\<lparr>chain_cursor := [(1, 7, ''a'')]\<rparr>, requests = 0\<rparr>))) 1 = Some (n', hash') \<and> 7 \<le> n'"
  by (rule chain_cursor_monotone) (simp add: migrated_tables_def)

text \<open>The rows after a batch, in their order.\<close>

definition add_events :: "ChainEventRow list \<Rightarrow> ((int \<times> string \<times> int) \<times> ChainEventRow) list \<Rightarrow>
    ((int \<times> string \<times> int) \<times> ChainEventRow) list" where
  "add_events evs t = fold (\<lambda>ev. AList.update (event_key (stored_event ev)) (stored_event ev)) evs t"

definition event_map :: "ChainEventRow list \<Rightarrow> (int \<times> string \<times> int) \<rightharpoonup> ChainEventRow" where
  "event_map evs = map_of (rev (map (\<lambda>ev. (event_key (stored_event ev), stored_event ev)) evs))"

lemma map_of_add_events: "map_of (add_events evs t) = map_of t ++ event_map evs"
proof (induction evs arbitrary: t)
  case Nil
  then show ?case by (simp add: add_events_def event_map_def)
next
  case (Cons ev evs)
  then show ?case
    by (auto simp: add_events_def event_map_def map_of_update map_add_def fun_eq_iff split: option.splits)
qed

lemma keys_add_events:
  "distinct (map fst t) \<Longrightarrow> distinct (map fst (add_events evs t))"
  "(\<lambda>ev. event_key (stored_event ev)) ` set evs \<subseteq> fst ` set t \<Longrightarrow> map fst (add_events evs t) = map fst t"
proof -
  show "distinct (map fst t) \<Longrightarrow> distinct (map fst (add_events evs t))"
    by (induction evs arbitrary: t) (simp_all add: add_events_def distinct_update)
  show "(\<lambda>ev. event_key (stored_event ev)) ` set evs \<subseteq> fst ` set t \<Longrightarrow> map fst (add_events evs t) = map fst t"
  proof (induction evs arbitrary: t)
    case Nil
    then show ?case by (simp add: add_events_def)
  next
    case (Cons ev evs)
    let ?t = "AList.update (event_key (stored_event ev)) (stored_event ev) t"
    have same: "map fst ?t = map fst t"
      using Cons.prems by (simp add: update_keys)
    then have "fst ` set ?t = fst ` set t"
      by (metis set_map)
    then show ?case
      using Cons same by (simp add: add_events_def)
  qed
qed

lemma keys_after_events: "(\<lambda>ev. event_key (stored_event ev)) ` set evs \<subseteq> fst ` set (add_events evs t)"
proof -
  have "dom (event_map evs) = (\<lambda>ev. event_key (stored_event ev)) ` set evs"
    by (simp add: event_map_def dom_map_of_conv_image_fst image_image)
  then show ?thesis
    using map_of_add_events[of evs t] by (metis Un_upper1 dom_map_add dom_map_of_conv_image_fst)
qed

lemma table_eqI:
  assumes "distinct (map fst xs)" "map fst xs = map fst ys" "map_of xs = map_of ys"
  shows "xs = ys"
proof (rule nth_equalityI)
  show len: "length xs = length ys" using assms(2) by (metis length_map)
  fix i assume i: "i < length xs"
  have key: "fst (xs ! i) = fst (ys ! i)"
    using assms(2) i len by (metis nth_map)
  have "map_of xs (fst (xs ! i)) = Some (snd (xs ! i))"
    using assms(1) i by (simp add: map_of_is_SomeI)
  moreover have "map_of ys (fst (ys ! i)) = Some (snd (ys ! i))"
    using assms(1,2) i len by (simp add: map_of_is_SomeI)
  ultimately show "xs ! i = ys ! i"
    using key assms(3) by (simp add: prod_eq_iff)
qed

lemma map_add_again: "(f ++ g) ++ g = f ++ g"
  by (auto simp: map_add_def fun_eq_iff split: option.splits)

lemma add_events_again:
  assumes "distinct (map fst t)"
  shows "add_events evs (add_events evs t) = add_events evs t"
  by (rule table_eqI)
    (simp_all add: assms keys_add_events keys_after_events map_of_add_events map_add_again)

lemma insert_events_exact:
  "when_done (\<lambda>T. T = B) (insert_events pg evs)
     (\<lambda>rc T. snd rc \<and> chain_tx_event T = add_events evs (chain_tx_event B))"
proof (induction evs arbitrary: B)
  case Nil
  then show ?case
    by (auto simp: add_events_def intro: when_done_give)
next
  case (Cons ev evs)
  let ?e = "stored_event ev"
  let ?B = "B\<lparr>chain_tx_event := AList.update (event_key ?e) ?e (chain_tx_event B)\<rparr>"
  have step: "when_done (\<lambda>T. T = B) (tx_exec pg texts (upsert_event ?e)) (\<lambda>_ T. T = ?B)" for texts
    by (rule when_done_exec) (auto simp: upsert_event_def)
  have rest: "when_done (\<lambda>T. T = ?B) (insert_events pg evs)
     (\<lambda>rc T. snd rc \<and> chain_tx_event T = add_events (ev # evs) (chain_tx_event B))"
    by (intro when_done_post[OF Cons.IH]) (auto simp: add_events_def)
  show ?case
    using when_done_then[OF step rest] by (simp add: Let_def)
qed

lemma InsertChainEvents_success:
  assumes "InsertChainEvents pg evs d = (Inr (), d')"
  shows "chain_tx_event (tables d') = add_events evs (chain_tx_event (tables d))"
proof (cases "evs = []")
  case True
  then show ?thesis
    using assms by (simp add: InsertChainEvents_def add_events_def)
next
  case False
  then have "with_tx pg (insert_events pg evs) d = (Inr (), d')"
    using assms by (simp add: InsertChainEvents_def)
  then show ?thesis
  proof (cases rule: with_tx_cases)
    case kept
    from kept(2)[of "()"] obtain x x' where "insert_events pg evs x = (Inr ((), False), x')"
      by blast
    then show ?thesis
      using when_doneD[OF insert_events_exact HOL.refl, of pg evs x] by fastforce
  next
    case (committed r x x')
    then show ?thesis
      using when_doneD[OF insert_events_exact HOL.refl committed(2)] by simp
  qed
qed

text \<open>
  C31: a batch that is delivered again changes nothing: the table has the same rows, none stored
  twice. Its rows are those of before, overwritten and extended by the last event of the batch under
  each chain, transaction and index of the log.
\<close>

theorem InsertChainEvents_replay:
  assumes "distinct (map fst (chain_tx_event (tables d)))"
    and "InsertChainEvents pg evs d = (Inr (), d1)" "InsertChainEvents pg evs d1 = (Inr (), d2)"
  shows "chain_tx_event (tables d2) = chain_tx_event (tables d1) \<and> distinct (map fst (chain_tx_event (tables d1)))
    \<and> map_of (chain_tx_event (tables d1)) = map_of (chain_tx_event (tables d)) ++ event_map evs"
  using InsertChainEvents_success[OF assms(2)] InsertChainEvents_success[OF assms(3)] assms(1)
  by (simp add: add_events_again keys_add_events map_of_add_events)

section \<open>A claimed address blocks a batch\<close>

lemma upsert_address_effect:
  assumes "UpsertPlayerWalletAddress pg p0 a0 ch d = (r, d')"
  shows "chain_tx_event (tables d') = chain_tx_event (tables d)"
    "chain_cursor (tables d') = chain_cursor (tables d)"
    "q \<noteq> TrimSpace p0 \<Longrightarrow> map_of (wallet_address (tables d')) q = map_of (wallet_address (tables d)) q"
  using assms by (auto simp: UpsertPlayerWalletAddress_def pool_exec_def upsert_address_def Let_def
      table_simps split: if_splits sum.splits)

lemma claimed_address_fails:
  assumes "map_of (wallet_address (tables d)) q = Some (TrimSpace a0, ch)" "q \<noteq> TrimSpace p0"
    "TrimSpace p0 \<noteq> []" "TrimSpace a0 \<noteq> []" "0 < ch"
  shows "\<exists>e. fst (UpsertPlayerWalletAddress pg p0 a0 ch d) = Inl e"
  using assms map_of_SomeD[OF assms(1)]
  by (fastforce simp: UpsertPlayerWalletAddress_def pool_exec_def upsert_address_def Let_def list_ex_iff
      split: if_splits sum.splits)

lemma save_wallets_blocked:
  assumes "map_of (wallet_address (tables d)) q = Some (TrimSpace (ie_WalletAddress ev), ch)" "0 < ch"
    and "\<forall>ev' \<in> set evs. TrimSpace (ie_PlayerID ev') \<noteq> q"
    and "ev \<in> set evs" "TrimSpace (ie_PlayerID ev) \<noteq> []" "TrimSpace (ie_WalletAddress ev) \<noteq> []"
  shows "\<exists>e d'. save_wallets pg ch evs d = (Some e, d')
    \<and> chain_tx_event (tables d') = chain_tx_event (tables d) \<and> chain_cursor (tables d') = chain_cursor (tables d)"
  using assms
proof (induction evs arbitrary: d)
  case (Cons ev' evs)
  obtain r d1 where u: "UpsertPlayerWalletAddress pg (ie_PlayerID ev') (ie_WalletAddress ev') ch d = (r, d1)"
    by (cases "UpsertPlayerWalletAddress pg (ie_PlayerID ev') (ie_WalletAddress ev') ch d")
  note eff = upsert_address_effect[OF u]
  show ?case
  proof (cases r)
    case (Inl e)
    then show ?thesis
      using u eff by simp
  next
    case (Inr v)
    have "ev' \<noteq> ev"
      using claimed_address_fails[of d q "ie_WalletAddress ev" ch "ie_PlayerID ev" pg] Cons.prems u Inr
      by auto
    then show ?thesis
      using Cons.IH[of d1] Cons.prems eff u Inr by auto
  qed
qed simp

text \<open>
  a batch with one event that claims, for another player, an address that is taken on the chain
  is refused as a whole: none of its events is stored and the cursor stays, at every retry.
\<close>

theorem claimed_address_blocks_batch:
  assumes "map_of (wallet_address (tables (store s))) q = Some (TrimSpace (ie_WalletAddress ev), ch)" "0 < ch"
    and "\<forall>ev' \<in> set evs. TrimSpace (ie_PlayerID ev') \<noteq> q"
    and "ev \<in> set evs" "TrimSpace (ie_PlayerID ev) \<noteq> []" "TrimSpace (ie_WalletAddress ev) \<noteq> []"
  shows "fst (ingest_batch pg redis_up ch evs s) = HttpError 500 ''wallet upsert failed''
    \<and> chain_tx_event (tables (store (snd (ingest_batch pg redis_up ch evs s)))) = chain_tx_event (tables (store s))
    \<and> chain_cursor (tables (store (snd (ingest_batch pg redis_up ch evs s)))) = chain_cursor (tables (store s))"
  using save_wallets_blocked[OF assms, of pg] by (auto simp: ingest_batch_def)

abbreviation demo_event :: "string \<Rightarrow> ingestEvent" where
  "demo_event p \<equiv> \<lparr>ie_BlockNumber = 8, ie_BlockHash = ''h'', ie_TxHash = ''t'', ie_LogIndex = 0,
     ie_ContractAddress = ''c'', ie_EventName = ''e'', ie_PlayerID = p, ie_WalletAddress = ''w'', ie_Payload = []\<rparr>"

lemma demo_trims: "TrimSpace ''w'' = ''w''" "TrimSpace ''b'' = ''b''"
  by code_simp+

theorem claimed_address_blocks_batch_witness:
  "fst (ingest_batch steady_server True 1 [demo_event ''b'']
     \<lparr>store = \<lparr>tables = migrated_tables\<lparr>wallet_address := [(''a'', ''w'', 1)]\<rparr>, requests = 0\<rparr>, redis_keys = None\<rparr>)
   = HttpError 500 ''wallet upsert failed''"
  using claimed_address_blocks_batch[of "\<lparr>store = \<lparr>tables = migrated_tables\<lparr>wallet_address := [(''a'', ''w'', 1)]\<rparr>,
      requests = 0\<rparr>, redis_keys = None\<rparr>" "''a''" "demo_event ''b''" 1 "[demo_event ''b'']" steady_server True]
  by (simp add: demo_trims)

definition event_database :: database where
  "event_database = snd (InsertChainEvents steady_server [event_row 1 (demo_event ''b'')] new_database)"

lemma event_runs:
  "InsertChainEvents steady_server [event_row 1 (demo_event ''b'')] new_database = (Inr (), event_database)"
  "fst (InsertChainEvents steady_server [event_row 1 (demo_event ''b'')] event_database) = Inr ()"
  by code_simp+

theorem InsertChainEvents_replay_witness:
  "chain_tx_event (tables (snd (InsertChainEvents steady_server [event_row 1 (demo_event ''b'')] event_database)))
   = chain_tx_event (tables event_database)"
proof -
  have "distinct (map fst (chain_tx_event (tables new_database)))" by code_simp
  from InsertChainEvents_replay[OF this event_runs(1)] event_runs(2) show ?thesis
    by (metis prod.collapse)
qed

end
