(* ===== verification/Player_Rows.thy ===== *)
theory Player_Rows
  imports Player_Records
begin

text \<open>
  Whose rows an operation can change: the locale of theory \<open>Player_Ledger\<close> interpreted for the rows
  of everybody the operations do not name.
\<close>

text \<open>All rows of a player, table by table.\<close>

definition player_rows where
  "player_rows T p =
     (filter (\<lambda>q. q = p) (session_issue T), map_of (player_last_cell T) p, map_of (player_profile T) p,
      map_of (player_stats T) p, map_of (player_wallet T) p, map_of (player_inventory T) p,
      (\<lambda>q. map_of (player_quest T) (p, q)), (\<lambda>i. map_of (player_item T) (p, i)), map_of (wallet_address T) p)"

definition others_kept :: "(string \<Rightarrow> bool) \<Rightarrow> player_tables \<Rightarrow> player_tables \<Rightarrow> bool" where
  "others_kept owner B T \<longleftrightarrow> (\<forall>q. \<not> owner q \<longrightarrow> player_rows T q = player_rows B q)"

lemma others_sql:
  assumes "owner p" "\<And>T r T' b. s T = Inr (r, T') \<Longrightarrow> b \<noteq> p \<Longrightarrow> player_rows T' b = player_rows T b"
  shows "sql_keeps (others_kept owner B) s"
  using assms unfolding sql_keeps_def others_kept_def by metis

lemma map_of_new_rows: "b \<noteq> p \<Longrightarrow> map_of (t @ map (\<lambda>q. ((p, q), v)) qs) (b, i) = map_of t (b, i)"
  by (induction qs) (auto simp: map_add_def split: option.splits dest!: map_of_SomeD)

lemma others_statements:
  assumes "owner p"
  shows
  "sql_keeps (others_kept owner B) (insert_session_issue p)" "sql_keeps (others_kept owner B) (upsert_last_cell p c x z)"
  "sql_keeps (others_kept owner B) (upsert_profile p nm)" "sql_keeps (others_kept owner B) (insert_stats p)"
  "sql_keeps (others_kept owner B) (insert_wallet p)" "sql_keeps (others_kept owner B) (insert_inventory p)"
  "sql_keeps (others_kept owner B) (update_inventory p slots)" "sql_keeps (others_kept owner B) (insert_quest_seed p)"
  "sql_keeps (others_kept owner B) (insert_unlocked p)" "sql_keeps (others_kept owner B) (upsert_item p i n)"
  "sql_keeps (others_kept owner B) (delete_item p i)" "sql_keeps (others_kept owner B) (decrease_item p i n)"
  "sql_keeps (others_kept owner B) (insert_starter p)"
  "sql_keeps (others_kept owner B) (upsert_address p a ch)" "sql_keeps (others_kept owner B) (update_quest p q f n)"
  "sql_keeps (others_kept owner B) (add_gold p n)"
  by (rule others_sql[where p = p and owner = owner, OF assms], auto simp: player_rows_def statement_defs table_simps Let_def map_of_new_rows
      simp del: map_of_append split: option.splits if_splits)+

lemma others_chain:
  "sql_keeps (others_kept owner B) (upsert_cursor ch bn bh)" "sql_keeps (others_kept owner B) (upsert_event ev)"
  by (auto simp: sql_keeps_def others_kept_def player_rows_def statement_defs Let_def split: option.splits)

lemma others_completion:
  "owner p \<Longrightarrow> when_done (others_kept owner B) (complete_body pg p q def) (\<lambda>_. others_kept owner B)"
  by (rule completion_kept) (rule others_statements; assumption)+

interpretation bystander: owned_contract "others_kept owner B" owner owner for owner B
  by unfold_locales
    (erule others_statements | rule others_chain | erule when_done_pre[OF others_completion], simp)+

text \<open>Only one statement writes the last cell of a player.\<close>

lemma seat_frame: "(\<And>T r T'. s T = Inr (r, T') \<Longrightarrow> player_last_cell T' = player_last_cell T) \<Longrightarrow>
    sql_keeps (\<lambda>T. map_of (player_last_cell T) p = rec) s"
  by (rule frame_kept[where f = player_last_cell]) auto

lemma seat_statements:
  fixes p rec defines "seat \<equiv> \<lambda>T :: player_tables. map_of (player_last_cell T) p = rec"
  shows
  "sql_keeps seat (insert_session_issue q)" "sql_keeps seat (upsert_profile q nm)" "sql_keeps seat (insert_stats q)"
  "sql_keeps seat (insert_wallet q)" "sql_keeps seat (insert_inventory q)"
  "sql_keeps seat (update_inventory q slots)" "sql_keeps seat (insert_quest_seed q)"
  "sql_keeps seat (insert_unlocked q)" "sql_keeps seat (upsert_item q i n)"
  "sql_keeps seat (delete_item q i)" "sql_keeps seat (decrease_item q i n)" "sql_keeps seat (insert_starter q)"
  "sql_keeps seat (upsert_cursor ch bn bh)" "sql_keeps seat (upsert_event ev)"
  "sql_keeps seat (upsert_address q a ch)" "sql_keeps seat (update_quest q k f n)" "sql_keeps seat (add_gold q n)"
  unfolding seat_def
  by (rule seat_frame, auto simp: statement_defs Let_def split: option.splits if_splits)+

lemma seat_saved:
  "q \<noteq> p \<Longrightarrow> sql_keeps (\<lambda>T. map_of (player_last_cell T) p = rec) (upsert_last_cell q c x z)"
  by (auto simp: sql_keeps_def upsert_last_cell_def table_simps)

lemma seat_completion:
  "when_done (\<lambda>T. map_of (player_last_cell T) p = rec) (complete_body pg q k def)
     (\<lambda>_ T. map_of (player_last_cell T) p = rec)"
  by (rule completion_kept) (rule seat_statements)+

interpretation seat: owned_contract "\<lambda>T. map_of (player_last_cell T) p = rec" "\<lambda>_. True" "\<lambda>q. q \<noteq> p" for p rec
  by unfold_locales
    (rule seat_statements | erule seat_saved | rule when_done_pre[OF seat_completion], simp)+

end
