(* ===== verification/Gateway_Session.thy ===== *)
theory Gateway_Session
  imports Consul_Catalog Split_Workflow Player_Rows Replication
begin

text \<open>
  The gateway (\<open>src/cmd/gateway/main.go\<close>): the state of one WebSocket session, the choice of the
  cell it is attached to and the ways to change it, and the loop over the client's messages. Cells
  and registry are the grid of theory \<open>Grid_Calls\<close>, so every remote call may be lost and others may
  act between two calls; \<open>db\<close> are the tables of theory \<open>Player_DB\<close>. Left out are logs, spans and
  counters, the connection objects (an endpoint stands for its client), and the framing of
  WebSocket messages.
\<close>

section \<open>The session\<close>

record gatewayDownstream =
  ds_cellID :: string
  ds_endpoint :: string
  ds_entityID :: Entity

record switchRetryState =
  attempts :: int
  nextAttemptAt :: int

text \<open>Times are nanoseconds. A map that is nil reads as an empty one.\<close>

record gatewaySession =
  gs_playerID :: string
  downstream :: "gatewayDownstream option"
  lastX :: f64
  lastZ :: f64
  hasPos :: bool
  lastPositionResolveAt :: int
  lastResolveX :: f64
  lastResolveZ :: f64
  hasResolvedPos :: bool
  switchRetryState :: "string \<rightharpoonup> switchRetryState"

definition new_session :: "string \<Rightarrow> gatewaySession" where
  "new_session p = \<lparr>gs_playerID = p, downstream = None, lastX = Fin 0, lastZ = Fin 0, hasPos = False,
     lastPositionResolveAt = 0, lastResolveX = Fin 0, lastResolveZ = Fin 0, hasResolvedPos = False,
     switchRetryState = Map.empty\<rparr>"

definition setDownstream :: "gatewayDownstream option \<Rightarrow> gatewaySession \<Rightarrow> gatewaySession" where
  "setDownstream ds s = s\<lparr>downstream := ds\<rparr>"

definition setPosition :: "f64 \<Rightarrow> f64 \<Rightarrow> gatewaySession \<Rightarrow> gatewaySession" where
  "setPosition x z s = s\<lparr>lastX := x, lastZ := z, hasPos := True\<rparr>"

definition positionOr :: "f64 \<Rightarrow> f64 \<Rightarrow> gatewaySession \<Rightarrow> f64 \<times> f64" where
  "positionOr fallbackX fallbackZ s = (if hasPos s then (lastX s, lastZ s) else (fallbackX, fallbackZ))"

text \<open>\<open>hypot\<close> stands for \<open>math.Hypot\<close>.\<close>

definition markPositionResolveAttempt :: "(f64 \<Rightarrow> f64 \<Rightarrow> f64) \<Rightarrow> int \<Rightarrow> f64 \<Rightarrow> f64 \<Rightarrow> f64 \<Rightarrow> int \<Rightarrow>
    gatewaySession \<Rightarrow> bool \<times> gatewaySession" where
  "markPositionResolveAttempt hypot now x z minMoveMeters minInterval s =
     (let marked = s\<lparr>lastResolveX := x, lastResolveZ := z, lastPositionResolveAt := now\<rparr>
      in if \<not> hasPos s then (False, s)
         else if \<not> hasResolvedPos s then (True, marked\<lparr>hasResolvedPos := True\<rparr>)
         else if now - lastPositionResolveAt s < minInterval
                 \<and> flt (hypot (fsub x (lastResolveX s)) (fsub z (lastResolveZ s))) minMoveMeters
              then (False, s)
         else (True, marked))"

definition switchRetryKey :: "string \<Rightarrow> string \<Rightarrow> string" where
  "switchRetryKey fromCellID toCellID = TrimSpace fromCellID @ ''->'' @ TrimSpace toCellID"

definition allowPositionSwitchRetry :: "int \<Rightarrow> string \<Rightarrow> string \<Rightarrow> gatewaySession \<Rightarrow> bool" where
  "allowPositionSwitchRetry now fromCellID toCellID s =
     (case switchRetryState s (switchRetryKey fromCellID toCellID) of
        None \<Rightarrow> True | Some st \<Rightarrow> \<not> now < nextAttemptAt st)"

text \<open>The loop over \<open>i\<close> from 1 to \<open>attempts - 1\<close>; the product of two durations wraps.\<close>

fun retry_backoff :: "int \<Rightarrow> nat \<Rightarrow> int \<Rightarrow> int" where
  "retry_backoff maxBackoff 0 backoff = backoff"
| "retry_backoff maxBackoff (Suc n) backoff =
     (let b = to_int64 (backoff * 2)
      in if maxBackoff > 0 \<and> b \<ge> maxBackoff then maxBackoff else retry_backoff maxBackoff n b)"

definition markPositionSwitchRetryFailure :: "int \<Rightarrow> string \<Rightarrow> string \<Rightarrow> int \<Rightarrow> int \<Rightarrow> gatewaySession \<Rightarrow>
    gatewaySession" where
  "markPositionSwitchRetryFailure now fromCellID toCellID baseBackoff maxBackoff s =
     (if baseBackoff \<le> 0 then s
      else let key = switchRetryKey fromCellID toCellID;
               st = (case switchRetryState s key of None \<Rightarrow> \<lparr>attempts = 0, nextAttemptAt = 0\<rparr> | Some st \<Rightarrow> st);
               n = (if now > nextAttemptAt st \<or> attempts st \<le> 0 then 1 else attempts st + 1);
               b = retry_backoff maxBackoff (nat (n - 1)) baseBackoff;
               b' = (if maxBackoff > 0 \<and> b > maxBackoff then maxBackoff else b)
           in s\<lparr>switchRetryState := (switchRetryState s)(key \<mapsto> \<lparr>attempts = n, nextAttemptAt = now + b'\<rparr>)\<rparr>)"

definition clearPositionSwitchRetryState :: "string \<Rightarrow> string \<Rightarrow> gatewaySession \<Rightarrow> gatewaySession" where
  "clearPositionSwitchRetryState fromCellID toCellID s =
     s\<lparr>switchRetryState := (switchRetryState s)(switchRetryKey fromCellID toCellID := None)\<rparr>"

text \<open>The first state of the viewer's own entity with a position moves the session.\<close>

definition own_position :: "Entity \<Rightarrow> EntityState list \<Rightarrow> gatewaySession \<Rightarrow> gatewaySession" where
  "own_position entityID ents s =
     (case find (\<lambda>e. es_EntityId e = entityID \<and> es_Position e \<noteq> None) ents of
        None \<Rightarrow> s
      | Some e \<Rightarrow> (let v = get_position (es_Position e) in setPosition (PX v) (PZ v) s))"

definition observeSelfPosition :: "Entity \<Rightarrow> WorldChunk option \<Rightarrow> gatewaySession \<Rightarrow> gatewaySession" where
  "observeSelfPosition entityID chunk s =
     (if entityID = 0 then s
      else case chunk of
        None \<Rightarrow> s
      | Some (ChunkSnapshot snap) \<Rightarrow> own_position entityID (snap_Entities snap) s
      | Some (ChunkDelta delta) \<Rightarrow> own_position entityID (d_Changed delta) s)"

section \<open>The gateway and its grid\<close>

record 'c GatewayGrid = "'c Grid" +
  session :: gatewaySession
  gatewayDB :: database

text \<open>
  \<open>registry_store\<close> is the catalog of the registry; \<open>lost_unavailable\<close> and \<open>lost_transport\<close> say whether
  the error of a lost call has code \<open>Unavailable\<close>, and whether it is one of the connection errors
  \<open>shouldSwitchDownstreamOnTransport\<close> looks for; its text does not contain \<open>cell not found\<close>.
\<close>

record 'c gateway_env = "'c env" +
  registryAddr :: string
  registry_store :: "'c Catalog"
  gw_db :: bool
  gw_pg :: postgres
  allowCellIDMismatch :: bool
  positionSwitchEnabled :: bool
  positionSwitchMinInterval :: int
  positionSwitchMinMoveMeters :: f64
  positionSwitchRetryBase :: int
  positionSwitchRetryMax :: int
  gw_hypot :: "f64 \<Rightarrow> f64 \<Rightarrow> f64"
  gw_cos :: "f64 \<Rightarrow> f64"
  gw_sin :: "f64 \<Rightarrow> f64"
  lost_unavailable :: bool
  lost_transport :: bool

definition with_session :: "(gatewaySession \<Rightarrow> gatewaySession) \<Rightarrow> ('c, 'z) GatewayGrid_scheme \<Rightarrow>
    ('c, 'z) GatewayGrid_scheme" where
  "with_session f g = g\<lparr>session := f (session g)\<rparr>"

section \<open>Errors\<close>

fun msg_text :: "msg \<Rightarrow> string" where
  "msg_text (Text t) = t"
| "msg_text (WithPartitionError t _) = t"
| "msg_text (WithSnapshotError t _) = t"

fun error_message :: "call_error \<Rightarrow> string" where
  "error_message (Status _ ms) = concat (map msg_text ms)"
| "error_message CallFailed = []"
| "error_message (Failed ms) = concat (map msg_text ms)"
| "error_message (Wrapped ms e) = concat (map msg_text ms) @ error_message e"

definition isParentCellMissingErr :: "call_error \<Rightarrow> bool" where
  "isParentCellMissingErr e \<longleftrightarrow> sublist ''cell not found'' (map to_lower (error_message e))"

fun isRetriablePositionSwitchErr :: "('c, 'y) gateway_env_scheme \<Rightarrow> call_error \<Rightarrow> bool" where
  "isRetriablePositionSwitchErr env (Status c _) \<longleftrightarrow> c \<in> {Unavailable, FailedPrecondition}"
| "isRetriablePositionSwitchErr env CallFailed \<longleftrightarrow> lost_unavailable env"
| "isRetriablePositionSwitchErr env (Failed _) \<longleftrightarrow> False"
| "isRetriablePositionSwitchErr env (Wrapped _ _) \<longleftrightarrow> False"

definition shouldSwitchOnApplyInputMessage :: "string \<Rightarrow> bool" where
  "shouldSwitchOnApplyInputMessage m \<longleftrightarrow>
     TrimSpace m \<in> {''unknown_player'', ''player_handoff_frozen'', ''entity_gone''}"

section \<open>Joining and leaving a cell\<close>

definition attachToCell :: "('c, 'y) gateway_env_scheme \<Rightarrow> string \<Rightarrow> string \<Rightarrow> string \<Rightarrow>
    (gatewayDownstream \<times> string, ('c, 'z) GatewayGrid_scheme) op" where
  "attachToCell env playerID cellID endpoint =
     andThen (dialled_call env endpoint (\<lambda>now s. Server_Join playerID s)) (\<lambda>jres.
       if \<not> jr_Ok jres then fail (Failed [Text (''join failed: '' @ jr_Message jres)])
       else give (\<lparr>ds_cellID = cellID, ds_endpoint = endpoint, ds_entityID = jr_EntityId jres\<rparr>,
                  TrimSpace (jr_Message jres)))"

definition leaveDownstream :: "gatewayDownstream option \<Rightarrow> string \<Rightarrow> ('c, 'z) GatewayGrid_scheme \<Rightarrow>
    ('c, 'z) GatewayGrid_scheme" where
  "leaveDownstream ods playerID g =
     (case ods of None \<Rightarrow> g
      | Some ds \<Rightarrow> snd (call (ds_endpoint ds) (\<lambda>now s. Leave playerID s) g))"

text \<open>
  A join that only asks whether the player is already there: unless the answer is
  \<open>already_joined\<close>, the player is taken out again.
\<close>

definition join_probe :: "('c, 'y) gateway_env_scheme \<Rightarrow> string \<Rightarrow> string \<Rightarrow> string \<Rightarrow>
    ('c, 'z) GatewayGrid_scheme \<Rightarrow> gatewayDownstream option \<times> ('c, 'z) GatewayGrid_scheme" where
  "join_probe env playerID cellID endpoint g =
     (case attachToCell env playerID cellID endpoint g of
        (Inl _, g1) \<Rightarrow> (None, g1)
      | (Inr (probe, joinMsg), g1) \<Rightarrow>
          if joinMsg = ''already_joined'' then (Some probe, g1)
          else (None, leaveDownstream (Some probe) playerID g1))"

fun first_joined :: "('c, 'y) gateway_env_scheme \<Rightarrow> string \<Rightarrow> string \<Rightarrow> CellSpec option list \<Rightarrow>
    ('c, 'z) GatewayGrid_scheme \<Rightarrow> gatewayDownstream option \<times> ('c, 'z) GatewayGrid_scheme" where
  "first_joined env playerID currentCellID [] g = (None, g)"
| "first_joined env playerID currentCellID (None # specs) g = first_joined env playerID currentCellID specs g"
| "first_joined env playerID currentCellID (Some spec # specs) g =
     (let i = TrimSpace (cs_Id spec); ep = TrimSpace (cs_GrpcEndpoint spec)
      in if i = [] \<or> ep = [] \<or> i = currentCellID
         then first_joined env playerID currentCellID specs g
         else (case join_probe env playerID i ep g of
                 (Some ds, g1) \<Rightarrow> (Some ds, g1)
               | (None, g1) \<Rightarrow> first_joined env playerID currentCellID specs g1))"

definition list_cells :: "('c, 'y) gateway_env_scheme \<Rightarrow> (CellSpec option list, ('c, 'z) GatewayGrid_scheme) op" where
  "list_cells env = registry_call env (registryAddr env) (\<lambda>g. (Registry_ListCells (registry_store env) g, g))"

text \<open>Descendants of the current cell first, then every cell.\<close>

definition descendants_first :: "string \<Rightarrow> CellSpec option list \<Rightarrow> CellSpec option list" where
  "descendants_first currentCellID specs =
     (if currentCellID = [] then []
      else filter (\<lambda>entry. case entry of None \<Rightarrow> False
                       | Some spec \<Rightarrow> prefix (currentCellID @ ''_'') (TrimSpace (cs_Id spec))) specs) @ specs"

definition tryAttachAlreadyJoinedFromCatalog :: "('c, 'y) gateway_env_scheme \<Rightarrow> string \<Rightarrow> string \<Rightarrow>
    (gatewayDownstream option, ('c, 'z) GatewayGrid_scheme) op" where
  "tryAttachAlreadyJoinedFromCatalog env playerID currentCellID =
     andThen (list_cells env) (\<lambda>specs g.
       (let cur = TrimSpace currentCellID;
            (ods, g1) = first_joined env playerID cur (descendants_first cur specs) g
        in give ods g1))"

section \<open>Switching the cell\<close>

definition gateway_token :: "string \<Rightarrow> int \<Rightarrow> string" where
  "gateway_token playerID now = ''gw-pos-'' @ playerID @ ''-'' @ Itoa now"

definition forwardPlayerHandoffSwitch :: "('c, 'y) gateway_env_scheme \<Rightarrow> string \<Rightarrow> string \<Rightarrow> CellSpec \<Rightarrow>
    (gatewayDownstream, ('c, 'z) GatewayGrid_scheme) op" where
  "forwardPlayerHandoffSwitch env playerID fromCellID nextCell g =
     (if TrimSpace (cs_Id nextCell) = [] \<or> TrimSpace (cs_GrpcEndpoint nextCell) = []
      then fail (Failed [Text ''forward handoff switch: invalid target cell'']) g
      else andThen (registry_call env (registryAddr env) (ForwardPlayerHandoff env (Some
             \<lparr>ph_ParentCellId = fromCellID, ph_ChildCellId = cs_Id nextCell, ph_PlayerId = playerID,
              ph_HandoffToken = gateway_token playerID (clock g), ph_Reason = ''gateway_position_switch''\<rparr>))) (\<lambda>resp.
           if phr_ChildEntityId resp = 0 then fail (Failed [Text ''forward handoff switch failed''])
           else (case dial_error env (cs_GrpcEndpoint nextCell) of
                   Some err \<Rightarrow> fail (Failed [Text (''cell dial: '' @ err)])
                 | None \<Rightarrow> give \<lparr>ds_cellID = cs_Id nextCell, ds_endpoint = cs_GrpcEndpoint nextCell,
                                 ds_entityID = phr_ChildEntityId resp\<rparr>)) g)"

definition tryRecoverFromMissingParentSwitch :: "('c, 'y) gateway_env_scheme \<Rightarrow> string \<Rightarrow> CellSpec \<Rightarrow>
    (gatewayDownstream option, ('c, 'z) GatewayGrid_scheme) op" where
  "tryRecoverFromMissingParentSwitch env playerID nextCell =
     (if TrimSpace (cs_Id nextCell) = [] \<or> TrimSpace (cs_GrpcEndpoint nextCell) = [] then give None
      else andThen (attachToCell env playerID (cs_Id nextCell) (cs_GrpcEndpoint nextCell)) (\<lambda>(ds, joinMsg).
        if joinMsg \<noteq> ''already_joined'' \<and> joinMsg \<noteq> ''spawned''
        then (\<lambda>g. give None (leaveDownstream (Some ds) playerID g))
        else give (Some ds)))"

text \<open>
  What the two switches share: the probe of the target, the handoff, and after its error \<open>e\<close> the
  recovery and the search of the catalog. The result is the new downstream, or the error of the
  handoff.
\<close>

definition recover_switch :: "('c, 'y) gateway_env_scheme \<Rightarrow> string \<Rightarrow> CellSpec \<Rightarrow> call_error \<Rightarrow>
    ('c, 'z) GatewayGrid_scheme \<Rightarrow> gatewayDownstream option \<times> ('c, 'z) GatewayGrid_scheme" where
  "recover_switch env playerID nextCell e g =
     (if isParentCellMissingErr e
      then (case tryRecoverFromMissingParentSwitch env playerID nextCell g of
              (Inl _, g1) \<Rightarrow> (None, g1) | (Inr ods, g1) \<Rightarrow> (ods, g1))
      else (None, g))"

definition catalog_fallback :: "('c, 'y) gateway_env_scheme \<Rightarrow> string \<Rightarrow> string \<Rightarrow>
    ('c, 'z) GatewayGrid_scheme \<Rightarrow> gatewayDownstream option \<times> ('c, 'z) GatewayGrid_scheme" where
  "catalog_fallback env playerID fromCellID g =
     (case tryAttachAlreadyJoinedFromCatalog env playerID fromCellID g of
        (Inl _, g1) \<Rightarrow> (None, g1) | (Inr ods, g1) \<Rightarrow> (ods, g1))"

definition resolve :: "('c, 'y) gateway_env_scheme \<Rightarrow> f64 \<Rightarrow> f64 \<Rightarrow> (CellSpec option, ('c, 'z) GatewayGrid_scheme) op" where
  "resolve env x z =
     registry_call env (registryAddr env) (\<lambda>g. (Registry_ResolvePosition (registry_store env) (Some (x, z)) g, g))"

definition trySwitchDownstream :: "('c, 'y) gateway_env_scheme \<Rightarrow> f64 \<Rightarrow> f64 \<Rightarrow>
    (gatewayDownstream option, ('c, 'z) GatewayGrid_scheme) op" where
  "trySwitchDownstream env fallbackX fallbackZ g0 =
     (case downstream (session g0) of
        None \<Rightarrow> give None g0
      | Some cur \<Rightarrow>
          (let p = gs_playerID (session g0); (px, pz) = positionOr fallbackX fallbackZ (session g0)
           in andThen (resolve env px pz) (\<lambda>found.
              case found of
                None \<Rightarrow> fail (Failed [Text ''resolve switch target not found''])
              | Some nextCell \<Rightarrow>
                  if TrimSpace (cs_GrpcEndpoint nextCell) = []
                  then fail (Failed [Text ''resolve switch target not found''])
                  else if cs_Id nextCell = ds_cellID cur
                  then tryAttachAlreadyJoinedFromCatalog env p (ds_cellID cur)
                  else (\<lambda>g.
                    case join_probe env p (cs_Id nextCell) (cs_GrpcEndpoint nextCell) g of
                      (Some probe, g1) \<Rightarrow> give (Some probe) g1
                    | (None, g1) \<Rightarrow>
                        (case forwardPlayerHandoffSwitch env p (ds_cellID cur) nextCell g1 of
                           (Inr next_ds, g2) \<Rightarrow> give (Some next_ds) g2
                         | (Inl e, g2) \<Rightarrow>
                             (case recover_switch env p nextCell e g2 of
                                (Some ds, g3) \<Rightarrow> give (Some ds) g3
                              | (None, g3) \<Rightarrow>
                                  (case catalog_fallback env p (ds_cellID cur) g3 of
                                     (Some ds, g4) \<Rightarrow> give (Some ds) g4
                                   | (None, g4) \<Rightarrow> fail e g4))))) g0))"

text \<open>The handoff by position, with the retry state of the pair of cells.\<close>

definition position_handoff :: "('c, 'y) gateway_env_scheme \<Rightarrow> string \<Rightarrow> string \<Rightarrow> CellSpec \<Rightarrow> int \<Rightarrow>
    (gatewayDownstream option, ('c, 'z) GatewayGrid_scheme) op" where
  "position_handoff env p fromCellID nextCell now g1 =
     (let clear = with_session (clearPositionSwitchRetryState fromCellID (cs_Id nextCell))
      in case forwardPlayerHandoffSwitch env p fromCellID nextCell g1 of
           (Inr next_ds, g2) \<Rightarrow> give (Some next_ds) (clear g2)
         | (Inl e, g2) \<Rightarrow>
             (case recover_switch env p nextCell e g2 of
                (Some ds, g3) \<Rightarrow> give (Some ds) g3
              | (None, g3) \<Rightarrow>
                  (case catalog_fallback env p fromCellID g3 of
                     (Some ds, g4) \<Rightarrow> give (Some ds) (clear g4)
                   | (None, g4) \<Rightarrow>
                       fail e (if isRetriablePositionSwitchErr env e
                               then with_session (markPositionSwitchRetryFailure now fromCellID (cs_Id nextCell)
                                      (positionSwitchRetryBase env) (positionSwitchRetryMax env)) g4
                               else g4))))"

definition trySwitchDownstreamByPosition :: "('c, 'y) gateway_env_scheme \<Rightarrow>
    (gatewayDownstream option, ('c, 'z) GatewayGrid_scheme) op" where
  "trySwitchDownstreamByPosition env g0 =
     (case downstream (session g0) of
        None \<Rightarrow> give None g0
      | Some cur \<Rightarrow>
          if \<not> hasPos (session g0) then give None g0
          else
            (let p = gs_playerID (session g0); px = lastX (session g0); pz = lastZ (session g0);
                 now = clock g0;
                 (due, s1) = markPositionResolveAttempt (gw_hypot env) now px pz
                   (positionSwitchMinMoveMeters env) (positionSwitchMinInterval env) (session g0);
                 g = g0\<lparr>session := s1\<rparr>
             in if \<not> due then give None g
                else andThen (resolve env px pz) (\<lambda>found.
                  case found of
                    None \<Rightarrow> fail (Failed [Text ''proactive resolve switch target not found''])
                  | Some nextCell \<Rightarrow>
                      if TrimSpace (cs_GrpcEndpoint nextCell) = []
                      then fail (Failed [Text ''proactive resolve switch target not found''])
                      else if cs_Id nextCell = ds_cellID cur
                      then tryAttachAlreadyJoinedFromCatalog env p (ds_cellID cur)
                      else (\<lambda>g.
                        if \<not> allowPositionSwitchRetry now (ds_cellID cur) (cs_Id nextCell) (session g)
                        then give None g
                        else case join_probe env p (cs_Id nextCell) (cs_GrpcEndpoint nextCell) g of
                          (Some probe, g1) \<Rightarrow> give (Some probe) g1
                        | (None, g1) \<Rightarrow> position_handoff env p (ds_cellID cur) nextCell now g1)) g))"

section \<open>The message loop\<close>

definition save_last_cell :: "('c, 'y) gateway_env_scheme \<Rightarrow> string \<Rightarrow> string \<Rightarrow> f64 \<Rightarrow> f64 \<Rightarrow>
    ('c, 'z) GatewayGrid_scheme \<Rightarrow> ('c, 'z) GatewayGrid_scheme" where
  "save_last_cell env p cellID x z g =
     (if gw_db env
      then g\<lparr>gatewayDB := snd (UpsertPlayerLastCell (gw_pg env) p cellID x z (gatewayDB g))\<rparr>
      else g)"

definition applyDownstreamSwitch :: "('c, 'y) gateway_env_scheme \<Rightarrow> gatewayDownstream option \<Rightarrow> gatewayDownstream \<Rightarrow>
    f64 \<Rightarrow> f64 \<Rightarrow> ('c, 'z) GatewayGrid_scheme \<Rightarrow> ('c, 'z) GatewayGrid_scheme" where
  "applyDownstreamSwitch env old next_ds rx rz g =
     (let p = gs_playerID (session g);
          g1 = with_session (setDownstream (Some next_ds)) (leaveDownstream old p g);
          (px, pz) = positionOr rx rz (session g1)
      in save_last_cell env p (ds_cellID next_ds) px pz g1)"

text \<open>
  One message: \<open>allowed\<close> is the answer of the rate limiter, \<open>input\<close> the decoded message if it can be
  decoded. The result says whether the loop goes on.
\<close>

definition ws_apply :: "('c, 'y) gateway_env_scheme \<Rightarrow> f64 \<Rightarrow> f64 \<Rightarrow> gatewayDownstream \<Rightarrow> ClientInput \<Rightarrow>
    ('c, 'z) GatewayGrid_scheme \<Rightarrow> ('c, 'z) GatewayGrid_scheme" where
  "ws_apply env rx rz cur input g =
     (let p = gs_playerID (session g);
          (ares, g1) = call (ds_endpoint cur) (\<lambda>now s. ApplyInput (gw_cos env) (gw_sin env) p (Some input) s) g;
          switch = (case ares of
                      Inl _ \<Rightarrow> lost_unavailable env \<or> lost_transport env
                    | Inr resp \<Rightarrow> \<not> sr_Ok resp \<and> shouldSwitchOnApplyInputMessage (sr_Message resp))
      in if \<not> switch then g1
         else (case trySwitchDownstream env rx rz g1 of
                 (Inr (Some next_ds), g2) \<Rightarrow> applyDownstreamSwitch env (Some cur) next_ds rx rz g2
               | (_, g2) \<Rightarrow> g2))"

definition ws_message :: "('c, 'y) gateway_env_scheme \<Rightarrow> f64 \<Rightarrow> f64 \<Rightarrow> bool \<Rightarrow> ClientInput option \<Rightarrow>
    ('c, 'z) GatewayGrid_scheme \<Rightarrow> bool \<times> ('c, 'z) GatewayGrid_scheme" where
  "ws_message env rx rz allowed oinput g =
     (if \<not> allowed then (True, g)
      else case oinput of
        None \<Rightarrow> (True, g)
      | Some input \<Rightarrow>
          (case downstream (session g) of
             None \<Rightarrow> (False, g)
           | Some cur \<Rightarrow>
               if positionSwitchEnabled env
               then (case trySwitchDownstreamByPosition env g of
                       (Inr (Some next_ds), g1) \<Rightarrow> (True, applyDownstreamSwitch env (Some cur) next_ds rx rz g1)
                     | (_, g1) \<Rightarrow> (True, ws_apply env rx rz cur input g1))
               else (True, ws_apply env rx rz cur input g)))"

text \<open>The end of the session: leave the cell and remember it.\<close>

definition ws_disconnect :: "('c, 'y) gateway_env_scheme \<Rightarrow> f64 \<Rightarrow> f64 \<Rightarrow> ('c, 'z) GatewayGrid_scheme \<Rightarrow>
    ('c, 'z) GatewayGrid_scheme" where
  "ws_disconnect env rx rz g =
     (case downstream (session g) of
        None \<Rightarrow> g
      | Some ds \<Rightarrow>
          (let p = gs_playerID (session g);
               g1 = leaveDownstream (Some ds) p g;
               (px, pz) = positionOr rx rz (session g1)
           in if ds_cellID ds \<noteq> [] then save_last_cell env p (ds_cellID ds) px pz g1 else g1))"

end
