(* ===== verification/Gateway_Http.thy ===== *)
theory Gateway_Http
  imports Gateway_Session
begin

text \<open>
  The HTTP handlers of the gateway (\<open>src/cmd/gateway/main.go\<close>): sessions, quests, items, the preview
  of a resolution, the last cell, and the checks in front of a WebSocket session. Parsing and
  signing of tokens are parameters; a request comes with its decoded body, and a response is its
  status with the values the JSON is made of.
\<close>

section \<open>Requests and tokens\<close>

record sessionClaims =
  Subject :: string
  MmoHasResolve :: bool
  MmoRX :: f64
  MmoRZ :: f64

text \<open>\<open>parse_token\<close> gives the claims of a token that is valid; \<open>sign_token\<close> may fail.\<close>

record tokens =
  parse_token :: "string \<Rightarrow> sessionClaims option"
  sign_token :: "sessionClaims \<Rightarrow> string option"

record http_request =
  http_method :: string
  authorization :: string
  query :: "string \<Rightarrow> string"

definition bearerOrQueryToken :: "http_request \<Rightarrow> string" where
  "bearerOrQueryToken r =
     (if prefix ''Bearer '' (authorization r) then TrimSpace (drop 7 (authorization r))
      else query r ''token'')"

definition token_subject :: "tokens \<Rightarrow> string \<Rightarrow> sessionClaims option" where
  "token_subject tk t =
     (case parse_token tk t of None \<Rightarrow> None | Some c \<Rightarrow> if Subject c = [] then None else Some c)"

definition authorized :: "tokens \<Rightarrow> http_request \<Rightarrow> string option" where
  "authorized tk r =
     (let t = bearerOrQueryToken r
      in if t = [] then None else map_option Subject (token_subject tk t))"

text \<open>The cell of a preview, as \<open>resolvedCellJSON\<close> writes it.\<close>

datatype resolved_cell = NoCell | CellAt string string "Bounds option"

definition resolvedCellJSON :: "CellSpec option \<Rightarrow> resolved_cell" where
  "resolvedCellJSON oc =
     (case oc of None \<Rightarrow> NoCell
      | Some c \<Rightarrow> if cs_GrpcEndpoint c = [] then NoCell
                  else CellAt (cs_Id c) (cs_GrpcEndpoint c) (cs_Bounds c))"

datatype http_response =
    HttpFail nat string
  | OkReply
  | QuestsReply "PlayerQuestAPIRow list"
  | ProgressReply QuestProgressApplyResult
  | LastCellReply "PlayerLastCellRecord option"
  | PreviewReply f64 f64 resolved_cell "PlayerLastCellRecord option option" bool
  | SessionReply string "(int \<times> int) option" "int option" "inventorySlotJSON list option"
      "PlayerQuestAPIRow list" "PlayerItemRow list"

text \<open>The guards every handler of the player's own data starts with.\<close>

definition guarded :: "bool \<Rightarrow> tokens \<Rightarrow> string \<Rightarrow> http_request \<Rightarrow> (string \<Rightarrow> http_response \<times> 'd) \<Rightarrow> 'd \<Rightarrow>
    http_response \<times> 'd" where
  "guarded has_db tk m r handler d =
     (if http_method r \<noteq> m then (HttpFail 405 (m @ '' only''), d)
      else if \<not> has_db then (HttpFail 503 ''service unavailable'', d)
      else case authorized tk r of
        None \<Rightarrow> (HttpFail 401 ''unauthorized'', d)
      | Some p \<Rightarrow> handler p)"

section \<open>Quests and items\<close>

definition meQuests :: "bool \<Rightarrow> postgres \<Rightarrow> tokens \<Rightarrow> http_request \<Rightarrow> database \<Rightarrow> http_response \<times> database" where
  "meQuests has_db pg tk r d =
     guarded has_db tk ''GET'' r (\<lambda>p.
       case ListPlayerQuestsForAPI pg p d of
         (Inl _, d1) \<Rightarrow> (HttpFail 500 ''internal error'', d1)
       | (Inr rows, d1) \<Rightarrow> (QuestsReply rows, d1)) d"

text \<open>The body, \<^const>\<open>None\<close> when it cannot be decoded: quest and progress.\<close>

definition questProgress :: "bool \<Rightarrow> postgres \<Rightarrow> tokens \<Rightarrow> http_request \<Rightarrow> (string \<times> int) option \<Rightarrow> database \<Rightarrow>
    http_response \<times> database" where
  "questProgress has_db pg tk r body d =
     guarded has_db tk ''POST'' r (\<lambda>p.
       case body of
         None \<Rightarrow> (HttpFail 400 ''need quest_id and progress'', d)
       | Some (quest, progress) \<Rightarrow>
           if TrimSpace quest = [] then (HttpFail 400 ''need quest_id and progress'', d)
           else (case ApplyPlayerQuestProgress pg p quest progress d of
                   (Inl _, d1) \<Rightarrow> (HttpFail 400 ''bad request'', d1)
                 | (Inr res, d1) \<Rightarrow> (ProgressReply res, d1))) d"

definition item_request :: "(string \<Rightarrow> int \<Rightarrow> database \<Rightarrow> (db_error + unit) \<times> database) \<Rightarrow>
    (string \<times> int) option \<Rightarrow> database \<Rightarrow> http_response \<times> database" where
  "item_request f body d =
     (case body of
        None \<Rightarrow> (HttpFail 400 ''need item_id and quantity'', d)
      | Some (item, qty) \<Rightarrow>
          if TrimSpace item = [] \<or> qty \<le> 0 then (HttpFail 400 ''need item_id and quantity'', d)
          else (case f item qty d of
                  (Inl _, d1) \<Rightarrow> (HttpFail 400 ''bad request'', d1)
                | (Inr _, d1) \<Rightarrow> (OkReply, d1)))"

definition itemsAdd :: "bool \<Rightarrow> postgres \<Rightarrow> tokens \<Rightarrow> http_request \<Rightarrow> (string \<times> int) option \<Rightarrow> database \<Rightarrow>
    http_response \<times> database" where
  "itemsAdd has_db pg tk r body d =
     guarded has_db tk ''POST'' r (\<lambda>p. item_request (AddPlayerItemQuantity pg p) body d) d"

definition itemsRemove :: "bool \<Rightarrow> postgres \<Rightarrow> tokens \<Rightarrow> http_request \<Rightarrow> (string \<times> int) option \<Rightarrow> database \<Rightarrow>
    http_response \<times> database" where
  "itemsRemove has_db pg tk r body d =
     guarded has_db tk ''POST'' r (\<lambda>p. item_request (RemovePlayerItemQuantity pg p) body d) d"

definition itemsTransfer :: "bool \<Rightarrow> postgres \<Rightarrow> tokens \<Rightarrow> http_request \<Rightarrow> (string \<times> string \<times> int) option \<Rightarrow> database \<Rightarrow>
    http_response \<times> database" where
  "itemsTransfer has_db pg tk r body d =
     guarded has_db tk ''POST'' r (\<lambda>p.
       case body of
         None \<Rightarrow> (HttpFail 400 ''need to_player_id, item_id and quantity'', d)
       | Some (to, item, qty) \<Rightarrow>
           if TrimSpace to = [] \<or> TrimSpace item = [] \<or> qty \<le> 0
           then (HttpFail 400 ''need to_player_id, item_id and quantity'', d)
           else (case TransferPlayerItems pg p to item qty d of
                   (Inl _, d1) \<Rightarrow> (HttpFail 400 ''bad request'', d1)
                 | (Inr _, d1) \<Rightarrow> (OkReply, d1))) d"

definition lastCell :: "bool \<Rightarrow> postgres \<Rightarrow> tokens \<Rightarrow> http_request \<Rightarrow> database \<Rightarrow> http_response \<times> database" where
  "lastCell has_db pg tk r d =
     guarded has_db tk ''GET'' r (\<lambda>p.
       case GetPlayerLastCellRecord pg p d of
         (Inl _, d1) \<Rightarrow> (HttpFail 500 ''internal error'', d1)
       | (Inr rec, d1) \<Rightarrow> (LastCellReply rec, d1)) d"

section \<open>A new session\<close>

record session_request =
  sq_PlayerID :: string
  sq_DisplayName :: string
  sq_ResolveX :: "f64 option"
  sq_ResolveZ :: "f64 option"

text \<open>The statements after a token is issued, whose errors are only logged.\<close>

definition session_writes :: "postgres \<Rightarrow> string \<Rightarrow> string \<Rightarrow> database \<Rightarrow> database" where
  "session_writes pg p name d =
     db_run pg [SessionIssue p, Profile p name, EnsureStats p, EnsureWallet p, EnsureInventory p,
                QuestSeed p, UnlockQuests p, StarterItems p, SyncInventory p] d"

text \<open>A read whose error leaves its part of the answer out.\<close>

definition optional :: "(db_error + 'r option) \<times> database \<Rightarrow> 'r option \<times> database" where
  "optional res = (case res of (Inl _, d) \<Rightarrow> (None, d) | (Inr r, d) \<Rightarrow> (r, d))"

definition optional_list :: "(db_error + 'r list) \<times> database \<Rightarrow> 'r list \<times> database" where
  "optional_list res = (case res of (Inl _, d) \<Rightarrow> ([], d) | (Inr r, d) \<Rightarrow> (r, d))"

definition session_reads :: "postgres \<Rightarrow> string \<Rightarrow> string \<Rightarrow> database \<Rightarrow> http_response \<times> database" where
  "session_reads pg p token d =
     (let (st, d1) = optional (GetPlayerStats pg p d);
          (gold, d2) = optional (GetPlayerWallet pg p d1);
          (inv, d3) = optional (GetPlayerInventoryItems pg p d2);
          (quests, d4) = optional_list (ListPlayerQuestsForAPI pg p d3);
          (items, d5) = optional_list (ListPlayerItemsNormalized pg p d4)
      in (SessionReply token st gold inv quests items, d5))"

text \<open>Where the session is resolved: the request, or the last cell, or the default of the gateway.\<close>

definition session_position :: "bool \<Rightarrow> postgres \<Rightarrow> f64 \<times> f64 \<Rightarrow> string \<Rightarrow> (f64 \<times> f64) option \<Rightarrow> database \<Rightarrow>
    (f64 \<times> f64) \<times> database" where
  "session_position has_db pg dflt p given d =
     (case given of
        Some pos \<Rightarrow> (pos, d)
      | None \<Rightarrow>
          if \<not> has_db then (dflt, d)
          else (case GetPlayerLastCellCoords pg p d of
                  (Inr (Some pos), d1) \<Rightarrow> (pos, d1)
                | (_, d1) \<Rightarrow> (dflt, d1)))"

definition new_session_request :: "bool \<Rightarrow> postgres \<Rightarrow> tokens \<Rightarrow> f64 \<times> f64 \<Rightarrow> bool \<Rightarrow> http_request \<Rightarrow>
    session_request option \<Rightarrow> database \<Rightarrow> http_response \<times> database" where
  "new_session_request has_db pg tk dflt allowed r body d =
     (if http_method r \<noteq> ''POST'' then (HttpFail 405 ''POST only'', d)
      else if \<not> allowed then (HttpFail 429 ''rate limit'', d)
      else case body of
        None \<Rightarrow> (HttpFail 400 ''need player_id'', d)
      | Some q \<Rightarrow>
          if TrimSpace (sq_PlayerID q) = [] then (HttpFail 400 ''need player_id'', d)
          else if (sq_ResolveX q = None) \<noteq> (sq_ResolveZ q = None)
          then (HttpFail 400 ''provide both resolve_x and resolve_z or omit both'', d)
          else
            (let p = sq_PlayerID q;
                 given = (case (sq_ResolveX q, sq_ResolveZ q) of (Some x, Some z) \<Rightarrow> Some (x, z) | _ \<Rightarrow> None)
             in if (case given of None \<Rightarrow> False | Some (x, z) \<Rightarrow> x = NaN \<or> z = NaN)
                then (HttpFail 400 ''resolve_x and resolve_z must be valid numbers'', d)
                else
                  (let ((x, z), d1) = session_position has_db pg dflt p given d
                   in case sign_token tk \<lparr>Subject = p, MmoHasResolve = True, MmoRX = x, MmoRZ = z\<rparr> of
                        None \<Rightarrow> (HttpFail 500 ''token'', d1)
                      | Some t \<Rightarrow>
                          if has_db then session_reads pg p t (session_writes pg p (sq_DisplayName q) d1)
                          else (SessionReply t None None None [] [], d1))))"

section \<open>The preview of a resolution\<close>

text \<open>A cell without bounds gets those of the catalog entry of its name.\<close>

definition enrichCellSpecBoundsFromRegistryList :: "('c, 'y) gateway_env_scheme \<Rightarrow> CellSpec \<Rightarrow>
    ('c, 'z) GatewayGrid_scheme \<Rightarrow> CellSpec \<times> ('c, 'z) GatewayGrid_scheme" where
  "enrichCellSpecBoundsFromRegistryList env cell g =
     (let i = TrimSpace (cs_Id cell)
      in if cs_Bounds cell \<noteq> None \<or> i = [] then (cell, g)
         else (case list_cells env g of
                 (Inl _, g1) \<Rightarrow> (cell, g1)
               | (Inr specs, g1) \<Rightarrow>
                   (case find (\<lambda>entry. case entry of None \<Rightarrow> False
                                | Some c \<Rightarrow> TrimSpace (cs_Id c) = i \<and> cs_Bounds c \<noteq> None) specs of
                      Some (Some c) \<Rightarrow> (cell\<lparr>cs_Bounds := cs_Bounds c\<rparr>, g1)
                    | _ \<Rightarrow> (cell, g1))))"

text \<open>
  In the answer of a preview the last cell is left out when it could not be read, and not found when
  the player has none.
\<close>

text \<open>A statement of the gateway's own database.\<close>

definition with_db :: "(database \<Rightarrow> 'r \<times> database) \<Rightarrow> ('c, 'z) GatewayGrid_scheme \<Rightarrow> 'r \<times> ('c, 'z) GatewayGrid_scheme" where
  "with_db f g = (let (r, d) = f (gatewayDB g) in (r, g\<lparr>gatewayDB := d\<rparr>))"

definition preview_at :: "('c, 'y) gateway_env_scheme \<Rightarrow> string \<Rightarrow> f64 \<Rightarrow> f64 \<Rightarrow> ('c, 'z) GatewayGrid_scheme \<Rightarrow>
    http_response \<times> ('c, 'z) GatewayGrid_scheme" where
  "preview_at env p x z g =
     (case resolve env x z g of
        (Inl _, g1) \<Rightarrow> (HttpFail 502 ''registry resolve failed'', g1)
      | (Inr found, g1) \<Rightarrow>
          (let (cell, g2) = (case found of None \<Rightarrow> (None, g1)
                             | Some c \<Rightarrow> map_prod Some id (enrichCellSpecBoundsFromRegistryList env c g1));
               shown = resolvedCellJSON cell
           in if \<not> gw_db env then (PreviewReply x z shown None False, g2)
              else (case with_db (GetPlayerLastCellRecord (gw_pg env) p) g2 of
                      (Inl _, g3) \<Rightarrow> (PreviewReply x z shown None False, g3)
                    | (Inr None, g3) \<Rightarrow> (PreviewReply x z shown (Some None) False, g3)
                    | (Inr (Some rec), g3) \<Rightarrow>
                        (PreviewReply x z shown (Some (Some rec))
                           (case cell of None \<Rightarrow> False
                            | Some c \<Rightarrow> cs_Id c \<noteq> [] \<and> lc_CellID rec \<noteq> [] \<and> cs_Id c \<noteq> lc_CellID rec), g3))))"

definition resolvePreview :: "('c, 'y) gateway_env_scheme \<Rightarrow> tokens \<Rightarrow> (string \<Rightarrow> f64 option) \<Rightarrow> f64 \<times> f64 \<Rightarrow>
    http_request \<Rightarrow> ('c, 'z) GatewayGrid_scheme \<Rightarrow> http_response \<times> ('c, 'z) GatewayGrid_scheme" where
  "resolvePreview env tk parse_float dflt r g =
     guarded True tk ''GET'' r (\<lambda>p.
       let qx = query r ''resolve_x''; qz = query r ''resolve_z''
       in if (qx = []) \<noteq> (qz = []) then (HttpFail 400 ''provide both resolve_x and resolve_z'', g)
          else if qx \<noteq> []
          then (case parse_float qx of
                  None \<Rightarrow> (HttpFail 400 ''invalid resolve_x'', g)
                | Some x \<Rightarrow>
                    (case parse_float qz of
                       None \<Rightarrow> (HttpFail 400 ''invalid resolve_z'', g)
                     | Some z \<Rightarrow>
                         if x = NaN \<or> z = NaN
                         then (HttpFail 400 ''resolve_x and resolve_z must be valid numbers'', g)
                         else preview_at env p x z g))
          else (let ((x, z), g1) = with_db (session_position (gw_db env) (gw_pg env) dflt p None) g
                in preview_at env p x z g1)) g"

section \<open>Opening a WebSocket session\<close>

datatype ws_result =
    WsFail nat string
  | WsConflict PlayerLastCellRecord resolved_cell f64 f64
  | WsClosed
  | WsOpen f64 f64

definition ws_token :: "http_request \<Rightarrow> string" where
  "ws_token r =
     (if query r ''token'' \<noteq> [] then query r ''token''
      else if prefix ''Bearer '' (authorization r) then TrimSpace (drop 7 (authorization r))
      else [])"

text \<open>The last cell of the player when it stands in the way of attaching him to \<open>cellID\<close>.\<close>

definition handoff_conflict :: "('c, 'y) gateway_env_scheme \<Rightarrow> string \<Rightarrow> string \<Rightarrow> ('c, 'z) GatewayGrid_scheme \<Rightarrow>
    PlayerLastCellRecord option \<times> ('c, 'z) GatewayGrid_scheme" where
  "handoff_conflict env p cellID g =
     (if \<not> gw_db env then (None, g)
      else case with_db (GetPlayerLastCellRecord (gw_pg env) p) g of
        (Inr (Some rec), g1) \<Rightarrow>
          (if cellID \<noteq> [] \<and> lc_CellID rec \<noteq> [] \<and> lc_CellID rec \<noteq> cellID \<and> \<not> allowCellIDMismatch env
           then Some rec else None, g1)
      | (_, g1) \<Rightarrow> (None, g1))"

text \<open>\<open>upgraded\<close> says whether the connection could be upgraded to a WebSocket.\<close>

definition ws_open :: "('c, 'y) gateway_env_scheme \<Rightarrow> tokens \<Rightarrow> f64 \<times> f64 \<Rightarrow> bool \<Rightarrow> http_request \<Rightarrow>
    ('c, 'z) GatewayGrid_scheme \<Rightarrow> ws_result \<times> ('c, 'z) GatewayGrid_scheme" where
  "ws_open env tk dflt upgraded r g =
     (case token_subject tk (ws_token r) of
        None \<Rightarrow> (WsFail 401 ''unauthorized'', g)
      | Some claims \<Rightarrow>
          (let p = Subject claims;
               (rx, rz) = (if MmoHasResolve claims then (MmoRX claims, MmoRZ claims) else dflt)
           in case resolve env rx rz g of
                (Inl _, g1) \<Rightarrow> (WsFail 502 ''registry resolve failed'', g1)
              | (Inr None, g1) \<Rightarrow> (WsFail 503 ''no cell for resolve position'', g1)
              | (Inr (Some found), g1) \<Rightarrow>
                  if cs_GrpcEndpoint found = [] then (WsFail 503 ''no cell for resolve position'', g1)
                  else (let (cell, g2) = enrichCellSpecBoundsFromRegistryList env found g1;
                            (conflict, g3) = handoff_conflict env p (cs_Id cell) g2
                        in case conflict of
                             Some rec \<Rightarrow> (WsConflict rec (resolvedCellJSON (Some cell)) rx rz, g3)
                           | None \<Rightarrow>
                               if \<not> upgraded then (WsClosed, g3)
                               else (case attachToCell env p (cs_Id cell) (cs_GrpcEndpoint cell) g3 of
                                       (Inl _, g4) \<Rightarrow> (WsClosed, g4)
                                     | (Inr (ds, _), g4) \<Rightarrow>
                                         (WsOpen rx rz,
                                          g4\<lparr>session := setDownstream (Some ds) (new_session p)\<rparr>)))))"

end
