(* ===== verification/Gateway_Switch.thy ===== *)
theory Gateway_Switch
  imports Gateway_Http
begin

text \<open>
  What the gateway promises: a switch of cells by position moves the player whole and leaves him at
  one cell, the one the session is attached to; and where it does not do what it means to: the
  backoff between failed switches never grows.
\<close>

section \<open>A probe leaves no trace\<close>

lemma player_at_absent: "playerByID s p = None \<Longrightarrow> player_at s p = None"
  by (simp add: player_at_def split: option.splits)

lemma leave_absent:
  assumes "server_inv s" "playerByID s p = None" "TrimSpace p = p" "p \<noteq> []" "Leave p s = (resp, s')"
  shows "server_inv s'" "playerByID s' = playerByID s" "player_at s' q = player_at s q"
proof -
  obtain r where r: "Sim s = Some r" using server_invD(2)[OF assms(1)] by (rule sim_invE)
  show "server_inv s'" by (rule Leave_inv[OF assms(1,5)])
  from Leave_outcome[OF assms(5) r] assms(2-4) have s': "leave_unregister p s = (None, s')"
    by auto
  note f = leave_unregister_fields[OF server_invD(3)[OF assms(1)] s']
  show "playerByID s' = playerByID s" using f(2) assms(2) by (simp add: fun_upd_idem)
  then show "player_at s' q = player_at s q" using f(3) by (simp add: player_at_def)
qed

lemma spawn_others:
  assumes "spawn_player w = (e, w')" "d \<noteq> e"
  shows "positions w' d = positions w d" "velocities w' d = velocities w d" "healths w' d = healths w d"
  using assms by (auto simp: spawn_player_def CreateEntity_def Let_def world_defs)

lemma spawn_next: "spawn_player w = (e, w') \<Longrightarrow> nextID w' = nextID w + 1"
  by (auto simp: spawn_player_def CreateEntity_def Let_def world_defs)

text \<open>A cell has room for two more entities.\<close>

definition room_for_two :: "Server \<Rightarrow> bool" where
  "room_for_two s \<longleftrightarrow> (\<forall>r. Sim s = Some r \<longrightarrow> nextID (world r) < - 2)"

lemma room_for_two_room:
  assumes "room_for_two s"
  shows "has_room s"
proof -
  have "x < - 2 \<Longrightarrow> x < - 1" for x :: Entity
    by (erule order.strict_trans) simp
  then show ?thesis using assms by (simp add: room_for_two_def has_room_def room_def)
qed

lemma next_room:
  assumes "x < (- 2 :: Entity)"
  shows "x + 1 < - 1"
proof -
  have x: "unat x < 2 ^ 64 - 2"
    using assms by (simp add: word_less_nat_alt)
  then have "unat (x + 1) = unat x + 1"
    by (subst unat_add_lem[THEN iffD1]) simp_all
  moreover have "unat (- 1 :: Entity) = 2 ^ 64 - 1"
    by (simp add: unsigned_minus_1_eq_mask mask_eq_exp_minus_1)
  ultimately show ?thesis
    using x by (simp add: word_less_nat_alt)
qed

lemma probe_restores:
  assumes "server_inv s" "room_for_two s" "playerByID s p = None" "TrimSpace p = p" "p \<noteq> []" "\<not> splitDrain s"
  obtains e s1 resp s2 where
    "Server_Join p s = (\<lparr>jr_Ok = True, jr_CellId = CellID s, jr_Message = ''spawned'', jr_EntityId = e\<rparr>, s1)"
    "Leave p s1 = (resp, s2)" "server_inv s2" "has_room s2" "playerByID s2 = playerByID s"
    "acceptedByTk s2 = acceptedByTk s" "\<And>q. player_at s2 q = player_at s q"
proof -
  have room: "has_room s" by (rule room_for_two_room[OF assms(2)])
  obtain r where r: "Sim s = Some r" "world_inv (world r)" "ran (playerByID s) \<subseteq> alive (world r)"
    using server_invD(2)[OF assms(1)] by (rule sim_invE)
  obtain e w' where w': "spawn_player (world r) = (e, w')" by fastforce
  let ?s1 = "join_register p e (s\<lparr>Sim := Some (r\<lparr>world := w'\<rparr>)\<rparr>)"
  have join: "Server_Join p s = (\<lparr>jr_Ok = True, jr_CellId = CellID s, jr_Message = ''spawned'', jr_EntityId = e\<rparr>, ?s1)"
    using assms(3-6) r(1) w' by (simp add: Server_Join_def join_check_def join_spawn_def Let_def)
  have inv1: "server_inv ?s1" by (rule Join_inv[OF assms(1) room join])
  have sim1: "Sim ?s1 = Some (r\<lparr>world := w'\<rparr>)" by (simp add: server_simps)
  obtain resp s2 where leave: "Leave p ?s1 = (resp, s2)" by fastforce
  obtain s' where s': "leave_unregister p ?s1 = (Some e, s')" and s2: "s2 = with_world (DestroyEntity e) s'"
    using Leave_outcome[OF leave sim1] assms(4,5) by (auto simp: server_simps)
  note f = leave_unregister_fields[OF server_invD(3)[OF inv1] s']
  have acc: "acceptedByTk s' = acceptedByTk s"
    using s' by (auto simp: leave_unregister_def join_register_def Let_def split: option.splits)
  have ids: "playerByID s2 = playerByID s"
    using f(2) assms(3) by (auto simp: s2 server_simps fun_eq_iff)
  have sim2: "Sim s2 = Some (r\<lparr>world := DestroyEntity e w'\<rparr>)"
    using f(3) by (simp add: s2 sim1 with_world_def)
  show thesis
  proof (rule that[OF join leave])
    show "server_inv s2" by (rule Leave_inv[OF inv1 leave])
    show "has_room s2"
      using assms(2) r(1) spawn_next[OF w'] next_room
      by (simp add: has_room_def room_for_two_def sim2 room_def world_defs)
    show "playerByID s2 = playerByID s" by (rule ids)
    show "acceptedByTk s2 = acceptedByTk s" by (simp add: s2 acc with_world_def)
    have fresh: "e \<notin> alive (world r)"
      using spawn_player_fields(2)[OF w' r(2)] room r(1) by (simp add: has_room_def)
    show "player_at s2 q = player_at s q" for q
    proof (cases "playerByID s q")
      case None
      then show ?thesis using ids by (simp add: player_at_absent)
    next
      case (Some d)
      then have "d \<noteq> e" using fresh r(3) by (auto simp: ran_def)
      then show ?thesis
        using Some ids spawn_others[OF w'] by (simp add: player_at_def sim2 r(1) world_defs)
    qed
  qed
qed

section \<open>Calls in a quiet grid\<close>

lemma next_turn_quiet: "turns g = [] \<Longrightarrow> next_turn g = (Delivered, g)"
  by (simp add: next_turn_def)

lemma registry_call_quiet:
  "turns g = [] \<Longrightarrow> dial_error env addr = None \<Longrightarrow> registry_call env addr m g = m g"
  by (simp add: registry_call_def next_turn_quiet)

lemma dialled_call_quiet:
  "turns g = [] \<Longrightarrow> dial_error env ep = None \<Longrightarrow> servers g ep = Some s \<Longrightarrow> handler (clock g) s = (r, s') \<Longrightarrow>
   dialled_call env ep handler g = (Inr r, g\<lparr>servers := (servers g)(ep \<mapsto> s')\<rparr>)"
  by (simp add: dialled_call_def call_quiet)

lemma attach_quiet:
  assumes "turns g = []" "dial_error env ep = None" "servers g ep = Some s" "Server_Join p s = (j, s1)" "jr_Ok j"
  shows "attachToCell env p i ep g =
    (Inr (\<lparr>ds_cellID = i, ds_endpoint = ep, ds_entityID = jr_EntityId j\<rparr>, TrimSpace (jr_Message j)),
     g\<lparr>servers := (servers g)(ep \<mapsto> s1)\<rparr>)"
  using assms by (simp add: attachToCell_def andThen_def dialled_call_quiet give_def)

lemma leave_quiet:
  assumes "turns g = []" "servers g (ds_endpoint ds) = Some s" "Leave p s = (resp, s1)"
  shows "leaveDownstream (Some ds) p g = g\<lparr>servers := (servers g)(ds_endpoint ds \<mapsto> s1)\<rparr>"
  using assms by (simp add: leaveDownstream_def call_quiet)

lemma spawned_trim: "TrimSpace ''spawned'' = ''spawned''"
  by (simp add: TrimSpace_trimmed trimmedI ascii_graph_def)

lemma probe_quiet:
  assumes "turns g = []" "dial_error env ep = None" "servers g ep = Some s"
    and "Server_Join p s = (\<lparr>jr_Ok = True, jr_CellId = c, jr_Message = ''spawned'', jr_EntityId = e\<rparr>, s1)"
    and "Leave p s1 = (resp, s2)"
  shows "join_probe env p i ep g = (None, g\<lparr>servers := (servers g)(ep \<mapsto> s2)\<rparr>)"
  using attach_quiet[OF assms(1-4)] assms(1,5)
  by (simp add: join_probe_def spawned_trim leave_quiet)

section \<open>A switch by position\<close>

text \<open>
  The situation of a switch: nobody else acts and no call is lost; the session is attached to a cell
  that has the player, a resolution is due and gives another cell of the catalog; that cell does not
  have the player, lets players in, and the token the gateway will make is new to both.
\<close>

definition switch_ready :: "('c, 'y) gateway_env_scheme \<Rightarrow> ('c, 'z) GatewayGrid_scheme \<Rightarrow> gatewayDownstream \<Rightarrow>
    CellSpec \<Rightarrow> CellSpec \<Rightarrow> Server \<Rightarrow> Server \<Rightarrow> bool" where
  "switch_ready env g cur curCell nextCell sp sc \<longleftrightarrow>
     (let p = gs_playerID (session g); tok = gateway_token p (clock g)
      in turns g = [] \<and> (\<forall>ep. dial_error env ep = None) \<and> downstream (session g) = Some cur \<and> hasPos (session g)
         \<and> fst (markPositionResolveAttempt (gw_hypot env) (clock g) (lastX (session g)) (lastZ (session g))
                 (positionSwitchMinMoveMeters env) (positionSwitchMinInterval env) (session g))
         \<and> Registry_ResolvePosition (registry_store env) (Some (lastX (session g), lastZ (session g))) g = Inr (Some nextCell)
         \<and> allowPositionSwitchRetry (clock g) (ds_cellID cur) (cs_Id nextCell) (session g)
         \<and> TrimSpace (cs_GrpcEndpoint nextCell) \<noteq> []
         \<and> proper_request \<lparr>ph_ParentCellId = ds_cellID cur, ph_ChildCellId = cs_Id nextCell, ph_PlayerId = p,
              ph_HandoffToken = tok, ph_Reason = ''gateway_position_switch''\<rparr>
         \<and> fst (dialCellClient env (ds_cellID cur) g) = Inr curCell \<and> cs_GrpcEndpoint curCell = ds_endpoint cur
         \<and> fst (dialCellClient env (cs_Id nextCell) g) = Inr nextCell
         \<and> handoff_ready g (ds_endpoint cur) sp (cs_GrpcEndpoint nextCell) sc p tok
         \<and> \<not> splitDrain sc \<and> room_for_two sc)"

lemma Resolve_same: "reg g' = reg g \<Longrightarrow> Registry_ResolvePosition cat req g' = Registry_ResolvePosition cat req g"
  by (simp add: Registry_ResolvePosition_def split: option.splits prod.splits)

lemma handoff_switch_quiet:
  assumes "turns g = []" "\<forall>ep. dial_error env ep = None"
    and req: "proper_request \<lparr>ph_ParentCellId = ds_cellID cur, ph_ChildCellId = cs_Id nextCell, ph_PlayerId = p,
              ph_HandoffToken = gateway_token p (clock g), ph_Reason = ''gateway_position_switch''\<rparr>"
    and "TrimSpace (cs_GrpcEndpoint nextCell) \<noteq> []"
    and "fst (dialCellClient env (ds_cellID cur) g) = Inr curCell" "cs_GrpcEndpoint curCell = ds_endpoint cur"
    and "fst (dialCellClient env (cs_Id nextCell) g) = Inr nextCell"
    and "handoff_ready g (ds_endpoint cur) sp (cs_GrpcEndpoint nextCell) sc p (gateway_token p (clock g))"
  obtains e sp' sc' pos ov oh where
    "forwardPlayerHandoffSwitch env p (ds_cellID cur) nextCell g =
       (Inr \<lparr>ds_cellID = cs_Id nextCell, ds_endpoint = cs_GrpcEndpoint nextCell, ds_entityID = e\<rparr>,
        g\<lparr>servers := (servers g)(ds_endpoint cur \<mapsto> sp', cs_GrpcEndpoint nextCell \<mapsto> sc')\<rparr>)"
    "p \<notin> dom (playerByID sp')" "player_at sp p = Some (Some pos, ov, oh)"
    "player_at sc' p = Some (Some (f32_position pos),
      Some (f32_velocity (case ov of None \<Rightarrow> zero_velocity | Some v \<Rightarrow> v)), Some (moved_health oh))"
    "\<And>q. q \<noteq> p \<Longrightarrow> player_at sp' q = player_at sp q \<and> player_at sc' q = player_at sc q"
    "server_inv sp'" "server_inv sc'" "playerByID sc' p = Some e"
proof -
  let ?req = "\<lparr>ph_ParentCellId = ds_cellID cur, ph_ChildCellId = cs_Id nextCell, ph_PlayerId = p,
              ph_HandoffToken = gateway_token p (clock g), ph_Reason = ''gateway_position_switch''\<rparr>"
  have ready: "handoff_ready g (cs_GrpcEndpoint curCell) sp (cs_GrpcEndpoint nextCell) sc
      (ph_PlayerId ?req) (ph_HandoffToken ?req)"
    using assms(6,8) by simp
  have par: "fst (dialCellClient env (ph_ParentCellId ?req) g) = Inr curCell"
    and chi: "fst (dialCellClient env (ph_ChildCellId ?req) g) = Inr nextCell"
    and same: "p = ph_PlayerId ?req"
    using assms(5,7) by simp_all
  have named: "TrimSpace (cs_Id nextCell) \<noteq> []"
    using proper_requestD(2,6)[OF req] by simp
  obtain resp sp' sc' pos ov oh where
    run: "ForwardPlayerHandoff env (Some ?req) g =
      (Inr resp, g\<lparr>servers := (servers g)(cs_GrpcEndpoint curCell \<mapsto> sp', cs_GrpcEndpoint nextCell \<mapsto> sc')\<rparr>)"
    and left: "p \<notin> dom (playerByID sp')" "player_at sp p = Some (Some pos, ov, oh)"
    and moved: "player_at sc' p = Some (Some (f32_position pos),
      Some (f32_velocity (case ov of None \<Rightarrow> zero_velocity | Some v \<Rightarrow> v)), Some (moved_health oh))"
    and others: "\<And>q. q \<noteq> p \<Longrightarrow> player_at sp' q = player_at sp q \<and> player_at sc' q = player_at sc q"
    and inv: "server_inv sp'" "server_inv sc'" and ne: "phr_ChildEntityId resp \<noteq> 0"
    and ent: "playerByID sc' p = Some (phr_ChildEntityId resp)"
    by (rule forward_player_success[OF req par chi ready assms(1) same]) blast
  have switch: "forwardPlayerHandoffSwitch env p (ds_cellID cur) nextCell g =
       (Inr \<lparr>ds_cellID = cs_Id nextCell, ds_endpoint = cs_GrpcEndpoint nextCell, ds_entityID = phr_ChildEntityId resp\<rparr>,
        g\<lparr>servers := (servers g)(ds_endpoint cur \<mapsto> sp', cs_GrpcEndpoint nextCell \<mapsto> sc')\<rparr>)"
    using run ne named assms(1,2,4,6)
    by (simp add: forwardPlayerHandoffSwitch_def andThen_def registry_call_quiet give_def)
  show thesis
    by (rule that[OF switch left moved others inv ent])
qed

lemma mark_keeps:
  "markPositionResolveAttempt hypot now x z mm mi s = (due, s') \<Longrightarrow>
   gs_playerID s' = gs_playerID s \<and> downstream s' = downstream s \<and> lastX s' = lastX s \<and> lastZ s' = lastZ s
   \<and> hasPos s' = hasPos s \<and> switchRetryState s' = switchRetryState s"
  by (auto simp: markPositionResolveAttempt_def Let_def split: if_splits)

lemma allow_keeps:
  "switchRetryState s' = switchRetryState s \<Longrightarrow>
   allowPositionSwitchRetry now a b s' = allowPositionSwitchRetry now a b s"
  by (simp add: allowPositionSwitchRetry_def)

lemma save_last_cell_grid:
  "servers (save_last_cell env p i x z g) = servers g" "session (save_last_cell env p i x z g) = session g"
  by (simp_all add: save_last_cell_def)

lemma apply_switch_quiet:
  assumes "turns g = []" "servers g (ds_endpoint cur) = Some s" "Leave (gs_playerID (session g)) s = (resp, s1)"
  shows "servers (applyDownstreamSwitch env (Some cur) ds rx rz g) = (servers g)(ds_endpoint cur \<mapsto> s1)"
    "session (applyDownstreamSwitch env (Some cur) ds rx rz g) = (session g)\<lparr>downstream := Some ds\<rparr>"
  using leave_quiet[OF assms(1-3)]
  by (simp_all add: applyDownstreamSwitch_def Let_def save_last_cell_grid with_session_def setDownstream_def
      split: prod.split)

lemma try_by_position_handoff:
  assumes cur: "downstream (session g) = Some cur" "hasPos (session g)"
    and mark: "markPositionResolveAttempt (gw_hypot env) (clock g) (lastX (session g)) (lastZ (session g))
       (positionSwitchMinMoveMeters env) (positionSwitchMinInterval env) (session g) = (True, s1)"
    and found: "resolve env (lastX (session g)) (lastZ (session g)) (g\<lparr>session := s1\<rparr>) = (Inr (Some nextCell), g\<lparr>session := s1\<rparr>)"
    and named: "TrimSpace (cs_GrpcEndpoint nextCell) \<noteq> []" "cs_Id nextCell \<noteq> ds_cellID cur"
    and retry: "allowPositionSwitchRetry (clock g) (ds_cellID cur) (cs_Id nextCell) s1"
    and probe: "join_probe env (gs_playerID (session g)) (cs_Id nextCell) (cs_GrpcEndpoint nextCell) (g\<lparr>session := s1\<rparr>) = (None, g1)"
    and switch: "forwardPlayerHandoffSwitch env (gs_playerID (session g)) (ds_cellID cur) nextCell g1 = (Inr ds, g2)"
  shows "trySwitchDownstreamByPosition env g =
    (Inr (Some ds), with_session (clearPositionSwitchRetryState (ds_cellID cur) (cs_Id nextCell)) g2)"
proof -
  have "position_handoff env (gs_playerID (session g)) (ds_cellID cur) nextCell (clock g) g1 =
      (Inr (Some ds), with_session (clearPositionSwitchRetryState (ds_cellID cur) (cs_Id nextCell)) g2)"
    by (simp only: position_handoff_def switch Let_def give_def prod.case sum.case)
  then show ?thesis
    using cur named retry
    by (simp add: trySwitchDownstreamByPosition_def Let_def andThen_def mark found probe give_def)
qed

text \<open>
  C32: a message of a player who has moved into the area of another cell takes him there whole.
  Whatever the message is, the probe of the new cell leaves no trace; the handoff moves position,
  velocity and health; the old cell no longer knows the player; the session is attached to the new
  cell and holds the entity the player has there; nobody else at the two cells changes; no other
  cell is called. The message itself is not applied anywhere.
\<close>

theorem position_switch_moves:
  assumes ready: "switch_ready env g cur curCell nextCell sp sc"
    and on: "positionSwitchEnabled env" and p: "p = gs_playerID (session g)"
  shows "\<exists>ds g2 sp' sc' pos ov oh.
    ws_message env rx rz True (Some input) g = (True, g2) \<and>
    downstream (session g2) = Some ds \<and> ds_cellID ds = cs_Id nextCell \<and> ds_endpoint ds = cs_GrpcEndpoint nextCell \<and>
    servers g2 = (servers g)(ds_endpoint cur \<mapsto> sp', cs_GrpcEndpoint nextCell \<mapsto> sc') \<and>
    p \<notin> dom (playerByID sp') \<and> playerByID sc' p = Some (ds_entityID ds) \<and>
    player_at sp p = Some (Some pos, ov, oh) \<and>
    player_at sc' p = Some (Some (f32_position pos),
      Some (f32_velocity (case ov of None \<Rightarrow> zero_velocity | Some v \<Rightarrow> v)), Some (moved_health oh)) \<and>
    (\<forall>q. q \<noteq> p \<longrightarrow> player_at sp' q = player_at sp q \<and> player_at sc' q = player_at sc q) \<and>
    server_inv sp' \<and> server_inv sc'"
proof -
  let ?tok = "gateway_token p (clock g)" and ?ep = "cs_GrpcEndpoint nextCell"
  have quiet: "turns g = []" and dials: "\<forall>ep. dial_error env ep = None"
    and cur: "downstream (session g) = Some cur" and pos: "hasPos (session g)"
    and due: "fst (markPositionResolveAttempt (gw_hypot env) (clock g) (lastX (session g)) (lastZ (session g))
                 (positionSwitchMinMoveMeters env) (positionSwitchMinInterval env) (session g))"
    and found: "Registry_ResolvePosition (registry_store env) (Some (lastX (session g), lastZ (session g))) g = Inr (Some nextCell)"
    and retry: "allowPositionSwitchRetry (clock g) (ds_cellID cur) (cs_Id nextCell) (session g)"
    and named: "TrimSpace ?ep \<noteq> []"
    and req: "proper_request \<lparr>ph_ParentCellId = ds_cellID cur, ph_ChildCellId = cs_Id nextCell, ph_PlayerId = p,
              ph_HandoffToken = ?tok, ph_Reason = ''gateway_position_switch''\<rparr>"
    and par: "fst (dialCellClient env (ds_cellID cur) g) = Inr curCell" "cs_GrpcEndpoint curCell = ds_endpoint cur"
    and chi: "fst (dialCellClient env (cs_Id nextCell) g) = Inr nextCell"
    and hand: "handoff_ready g (ds_endpoint cur) sp ?ep sc p ?tok"
    and drain: "\<not> splitDrain sc" "room_for_two sc"
    using ready unfolding switch_ready_def Let_def p by blast+
  obtain s1 where mark: "markPositionResolveAttempt (gw_hypot env) (clock g) (lastX (session g)) (lastZ (session g))
       (positionSwitchMinMoveMeters env) (positionSwitchMinInterval env) (session g) = (True, s1)"
    using due by (metis prod.collapse)
  note kept = mark_keeps[OF mark]
  let ?g = "g\<lparr>session := s1\<rparr>"
  have other: "cs_Id nextCell \<noteq> ds_cellID cur" and trim: "TrimSpace p = p" "p \<noteq> []"
    using proper_requestD(3,7,9)[OF req] by auto
  have hr: "servers g (ds_endpoint cur) = Some sp" "servers g ?ep = Some sc" "ds_endpoint cur \<noteq> ?ep"
      "server_inv sc" "playerByID sc p = None"
    using hand by (simp_all add: handoff_ready_def)
  obtain e t1 lr sc2 where join: "Server_Join p sc =
      (\<lparr>jr_Ok = True, jr_CellId = CellID sc, jr_Message = ''spawned'', jr_EntityId = e\<rparr>, t1)"
    and leave: "Leave p t1 = (lr, sc2)" and inv2: "server_inv sc2" "has_room sc2"
    and ids: "playerByID sc2 = playerByID sc" "acceptedByTk sc2 = acceptedByTk sc"
    and at2: "\<And>q. player_at sc2 q = player_at sc q"
    by (rule probe_restores[OF hr(4) drain(2) hr(5) trim drain(1)]) blast
  let ?g1 = "?g\<lparr>servers := (servers g)(?ep \<mapsto> sc2)\<rparr>"
  have probe: "join_probe env p (cs_Id nextCell) ?ep ?g = (None, ?g1)"
    using probe_quiet[of ?g env ?ep sc p "CellID sc" e t1 lr sc2 "cs_Id nextCell"] quiet dials hr(2) join leave by simp
  have hand1: "handoff_ready ?g1 (ds_endpoint cur) sp ?ep sc2 p (gateway_token p (clock ?g1))"
    using hand inv2 ids by (simp add: handoff_ready_def)
  have dial1: "fst (dialCellClient env i ?g1) = fst (dialCellClient env i g)" for i
    by (rule FindCellByID_same) simp
  obtain e' sp' sc' pos ov oh where
    switch: "forwardPlayerHandoffSwitch env p (ds_cellID cur) nextCell ?g1 =
       (Inr \<lparr>ds_cellID = cs_Id nextCell, ds_endpoint = ?ep, ds_entityID = e'\<rparr>,
        ?g1\<lparr>servers := (servers ?g1)(ds_endpoint cur \<mapsto> sp', ?ep \<mapsto> sc')\<rparr>)"
    and gone: "p \<notin> dom (playerByID sp')" and at: "player_at sp p = Some (Some pos, ov, oh)"
    and moved: "player_at sc' p = Some (Some (f32_position pos),
      Some (f32_velocity (case ov of None \<Rightarrow> zero_velocity | Some v \<Rightarrow> v)), Some (moved_health oh))"
    and others: "\<And>q. q \<noteq> p \<Longrightarrow> player_at sp' q = player_at sp q \<and> player_at sc' q = player_at sc2 q"
    and inv: "server_inv sp'" "server_inv sc'" and ent: "playerByID sc' p = Some e'"
    by (rule handoff_switch_quiet[of ?g1 env cur nextCell p curCell sp sc2])
       (use quiet dials req named par chi hand1 dial1 in \<open>simp_all\<close>)
  let ?ds = "\<lparr>ds_cellID = cs_Id nextCell, ds_endpoint = ?ep, ds_entityID = e'\<rparr>"
  let ?g3 = "with_session (clearPositionSwitchRetryState (ds_cellID cur) (cs_Id nextCell))
      (?g1\<lparr>servers := (servers g)(?ep \<mapsto> sc2, ds_endpoint cur \<mapsto> sp', ?ep \<mapsto> sc')\<rparr>)"
  have resolved: "Registry_ResolvePosition (registry_store env) (Some (lastX (session g), lastZ (session g))) ?g =
      Inr (Some nextCell)"
    using found Resolve_same[of ?g g] by simp
  have res: "resolve env (lastX (session g)) (lastZ (session g)) ?g = (Inr (Some nextCell), ?g)"
    using resolved quiet dials by (simp add: resolve_def registry_call_quiet)
  have retry1: "allowPositionSwitchRetry (clock g) (ds_cellID cur) (cs_Id nextCell) s1"
    using retry kept allow_keeps by metis
  have try_switch: "trySwitchDownstreamByPosition env g = (Inr (Some ?ds), ?g3)"
    using try_by_position_handoff[OF cur pos mark res named other retry1 probe[unfolded p] switch[unfolded p]] by simp
  obtain lr2 sp2 where leave2: "Leave p sp' = (lr2, sp2)" by fastforce
  note lv = leave_absent[OF inv(1) _ trim leave2]
  let ?g4 = "applyDownstreamSwitch env (Some cur) ?ds rx rz ?g3"
  have g3: "turns ?g3 = []" "servers ?g3 (ds_endpoint cur) = Some sp'" "gs_playerID (session ?g3) = p"
    using quiet hr(3) kept p by (simp_all add: with_session_def clearPositionSwitchRetryState_def)
  have g4: "servers ?g4 = (servers g)(ds_endpoint cur \<mapsto> sp2, ?ep \<mapsto> sc')" "downstream (session ?g4) = Some ?ds"
    using apply_switch_quiet[OF g3(1,2), of lr2 sp2 env ?ds rx rz] leave2 g3(3) hr(3)
    by (simp_all add: with_session_def fun_upd_twist)
  have "ws_message env rx rz True (Some input) g = (True, ?g4)"
    using cur on try_switch by (simp add: ws_message_def)
  then show ?thesis
    using g4 gone at moved others inv ent lv at2
    by (intro exI[of _ ?ds] exI[of _ ?g4] exI[of _ sp2] exI[of _ sc'] exI[of _ pos] exI[of _ ov] exI[of _ oh]) auto
qed

section \<open>The backoff\<close>

text \<open>
  a switch is only tried when the pair of cells has no failure on record or its waiting time is
  over; the failure recorded then starts a new count. So after any failed switch the pair waits
  for the base time, however often it has failed before: the exponential growth never happens.
\<close>

theorem position_retry_never_backs_off:
  assumes "0 < baseBackoff" "allowPositionSwitchRetry now a b s"
    and "\<forall>st. switchRetryState s (switchRetryKey a b) = Some st \<longrightarrow> nextAttemptAt st \<noteq> now"
  shows "switchRetryState (markPositionSwitchRetryFailure now a b baseBackoff maxBackoff s) (switchRetryKey a b) =
    Some \<lparr>attempts = 1, nextAttemptAt = now + (if maxBackoff > 0 \<and> baseBackoff > maxBackoff then maxBackoff else baseBackoff)\<rparr>"
  using assms
  by (auto simp: markPositionSwitchRetryFailure_def allowPositionSwitchRetry_def Let_def split: option.splits)

theorem position_retry_never_backs_off_witness:
  "switchRetryState (markPositionSwitchRetryFailure 5 ''a'' ''b'' 700 5000
     ((new_session ''p'')\<lparr>switchRetryState := [switchRetryKey ''a'' ''b'' \<mapsto> \<lparr>attempts = 4, nextAttemptAt = 3\<rparr>]\<rparr>))
     (switchRetryKey ''a'' ''b'') = Some \<lparr>attempts = 1, nextAttemptAt = 705\<rparr>"
  using position_retry_never_backs_off[of 700 5 "''a''" "''b''"
      "(new_session ''p'')\<lparr>switchRetryState := [switchRetryKey ''a'' ''b'' \<mapsto> \<lparr>attempts = 4, nextAttemptAt = 3\<rparr>]\<rparr>" 5000]
  by (simp add: allowPositionSwitchRetry_def)

end
