(* ===== verification/Gateway_Requests.thy ===== *)
theory Gateway_Requests
  imports Gateway_Http
begin

text \<open>
  What HTTP requests to the gateway can do to the database: they are sequences of the operations of
  theory \<open>Player_Ledger\<close>, so its contracts say whose rows change. And what they cannot do: release
  a player whose last cell is gone.
\<close>

section \<open>Requests as operations\<close>

datatype http_call =
    MeQuests http_request
  | QuestProgress http_request "(string \<times> int) option"
  | ItemsAdd http_request "(string \<times> int) option"
  | ItemsRemove http_request "(string \<times> int) option"
  | ItemsTransfer http_request "(string \<times> string \<times> int) option"
  | LastCell http_request
  | NewSession bool http_request "session_request option"

text \<open>The routes that need no registry; the flag of a new session is the answer of the rate limiter.\<close>

fun http_step :: "bool \<Rightarrow> postgres \<Rightarrow> tokens \<Rightarrow> f64 \<times> f64 \<Rightarrow> http_call \<Rightarrow> database \<Rightarrow> http_response \<times> database" where
  "http_step has_db pg tk dflt (MeQuests r) d = meQuests has_db pg tk r d"
| "http_step has_db pg tk dflt (QuestProgress r b) d = questProgress has_db pg tk r b d"
| "http_step has_db pg tk dflt (ItemsAdd r b) d = itemsAdd has_db pg tk r b d"
| "http_step has_db pg tk dflt (ItemsRemove r b) d = itemsRemove has_db pg tk r b d"
| "http_step has_db pg tk dflt (ItemsTransfer r b) d = itemsTransfer has_db pg tk r b d"
| "http_step has_db pg tk dflt (LastCell r) d = lastCell has_db pg tk r d"
| "http_step has_db pg tk dflt (NewSession ok r b) d = new_session_request has_db pg tk dflt ok r b d"

definition http_run :: "bool \<Rightarrow> postgres \<Rightarrow> tokens \<Rightarrow> f64 \<times> f64 \<Rightarrow> http_call list \<Rightarrow> database \<Rightarrow> database" where
  "http_run has_db pg tk dflt cs d = fold (\<lambda>c d. snd (http_step has_db pg tk dflt c d)) cs d"

text \<open>
  The players a request may touch: the subject of its token, for a transfer with the receiver (both
  names without surrounding spaces), and for a new session the player it names.
\<close>

fun touched :: "tokens \<Rightarrow> http_call \<Rightarrow> string set" where
  "touched tk (MeQuests r) = set_option (authorized tk r)"
| "touched tk (QuestProgress r b) = set_option (authorized tk r)"
| "touched tk (ItemsAdd r b) = set_option (authorized tk r)"
| "touched tk (ItemsRemove r b) = set_option (authorized tk r)"
| "touched tk (ItemsTransfer r b) =
     (case (authorized tk r, b) of
        (Some p, Some (to, _)) \<Rightarrow> {TrimSpace p, TrimSpace to} | _ \<Rightarrow> {})"
| "touched tk (LastCell r) = set_option (authorized tk r)"
| "touched tk (NewSession ok r b) = (case b of None \<Rightarrow> {} | Some q \<Rightarrow> {sq_PlayerID q})"

definition runs_ops :: "postgres \<Rightarrow> string set \<Rightarrow> database \<Rightarrow> database \<Rightarrow> bool" where
  "runs_ops pg P d d' \<longleftrightarrow>
     (\<exists>ops. d' = db_run pg ops d \<and> (\<forall>op\<in>set ops. op_players op \<subseteq> P \<and> op_savers op = {}))"

lemma runs_run: "\<forall>op\<in>set ops. op_players op \<subseteq> P \<and> op_savers op = {} \<Longrightarrow> runs_ops pg P d (db_run pg ops d)"
  unfolding runs_ops_def by blast

lemma runs_none: "runs_ops pg P d d"
  using runs_run[of "[]" P pg d] by (simp add: db_run_def)

lemma runs_one: "op_players op \<subseteq> P \<Longrightarrow> op_savers op = {} \<Longrightarrow> runs_ops pg P d (db_step pg op d)"
  using runs_run[of "[op]" P pg d] by (simp add: db_run_def)

text \<open>A handler that ends with a request and answers by its result.\<close>

lemma snd_reply:
  "snd (case x of (Inl a, d) \<Rightarrow> (f a, d) | (Inr b, d) \<Rightarrow> (g b, d)) = snd x"
  by (simp split: prod.split sum.split)

lemma runs_two: "runs_ops pg P d d1 \<Longrightarrow> runs_ops pg P d1 d2 \<Longrightarrow> runs_ops pg P d d2"
  unfolding runs_ops_def
proof (elim exE conjE)
  fix ops ops'
  assume "d1 = db_run pg ops d" "d2 = db_run pg ops' d1"
    and "\<forall>op\<in>set ops. op_players op \<subseteq> P \<and> op_savers op = {}" "\<forall>op\<in>set ops'. op_players op \<subseteq> P \<and> op_savers op = {}"
  then show "\<exists>ops. d2 = db_run pg ops d \<and> (\<forall>op\<in>set ops. op_players op \<subseteq> P \<and> op_savers op = {})"
    by (intro exI[of _ "ops @ ops'"]) (auto simp: db_run_def)
qed

lemma runs_guarded:
  assumes "\<And>p. authorized tk r = Some p \<Longrightarrow> runs_ops pg P d (snd (handler p))"
  shows "runs_ops pg P d (snd (guarded has_db tk m r handler d))"
  using assms runs_none by (auto simp: guarded_def split: option.split)

lemma runs_item_request:
  assumes "\<And>item qty. \<exists>op. snd (f item qty d) = db_step pg op d \<and> op_players op \<subseteq> P \<and> op_savers op = {}"
  shows "runs_ops pg P d (snd (item_request f body d))"
proof -
  have "runs_ops pg P d (snd (f item qty d))" for item qty
    using assms[of item qty] runs_one by force
  then show ?thesis
    using runs_none by (simp add: item_request_def snd_reply split: option.split prod.split)
qed

lemma runs_position:
  "runs_ops pg {p} d (snd (session_position has_db pg dflt p given d))"
proof -
  have "runs_ops pg {p} d (snd (GetPlayerLastCellCoords pg p d))"
    using runs_one[of "LastCellCoords p" "{p}" pg d] by simp
  then show ?thesis
    using runs_none
    by (auto simp: session_position_def split: option.split prod.split sum.split)
qed

lemma runs_writes: "runs_ops pg {p} d (session_writes pg p name d)"
  unfolding session_writes_def by (rule runs_run) simp

lemma optional_snd: "snd (optional res) = snd res" "snd (optional_list res') = snd res'"
  by (auto simp: optional_def optional_list_def split: prod.split sum.split)

lemma runs_reads: "runs_ops pg {p} d (snd (session_reads pg p t d))"
proof -
  have "snd (session_reads pg p t d) =
    db_run pg [GetStats p, GetWallet p, GetInventory p, ListQuestsForAPI p, ListItems p] d"
    by (simp add: session_reads_def db_run_def split_beta Let_def optional_snd)
  then show ?thesis
    by (simp only:) (rule runs_run, simp)
qed

lemma runs_session: "runs_ops pg (touched tk (NewSession ok r b)) d (snd (new_session_request has_db pg tk dflt ok r b d))"
proof (cases b)
  case None
  then show ?thesis using runs_none by (simp add: new_session_request_def)
next
  case (Some q)
  let ?p = "sq_PlayerID q"
  have "runs_ops pg {?p} d (snd (let ((x, z), d1) = session_position has_db pg dflt ?p given d
      in case sign_token tk \<lparr>Subject = ?p, MmoHasResolve = True, MmoRX = x, MmoRZ = z\<rparr> of
           None \<Rightarrow> (HttpFail 500 ''token'', d1)
         | Some t \<Rightarrow> if has_db then session_reads pg ?p t (session_writes pg ?p (sq_DisplayName q) d1)
                     else (SessionReply t None None None [] [], d1)))" for given
    using runs_position[of pg ?p d has_db dflt given] runs_two[OF runs_two[OF _ runs_writes] runs_reads]
    by (auto simp: split_beta Let_def split: option.split)
  then show ?thesis
    using Some runs_none by (simp add: new_session_request_def Let_def)
qed

lemma http_step_ops: "runs_ops pg (touched tk c) d (snd (http_step has_db pg tk dflt c d))"
proof (cases c)
  case (MeQuests r)
  have "runs_ops pg (touched tk c) d (snd (ListPlayerQuestsForAPI pg p d))" if "authorized tk r = Some p" for p
    using runs_one[of "ListQuestsForAPI p" _ pg d] that MeQuests by simp
  then show ?thesis
    unfolding MeQuests http_step.simps meQuests_def
    by (intro runs_guarded) (simp add: MeQuests snd_reply)
next
  case (QuestProgress r b)
  have "runs_ops pg (touched tk c) d (snd (ApplyPlayerQuestProgress pg p q n d))" if "authorized tk r = Some p" for p q n
    using runs_one[of "ApplyProgress p q n" _ pg d] that QuestProgress by simp
  then show ?thesis
    unfolding QuestProgress http_step.simps questProgress_def
    using runs_none
    by (intro runs_guarded) (simp add: QuestProgress snd_reply split: option.split prod.split)
next
  case (ItemsAdd r b)
  then show ?thesis
    unfolding ItemsAdd http_step.simps itemsAdd_def
    by (intro runs_guarded runs_item_request exI[of _ "AddItem _ _ _"]) auto
next
  case (ItemsRemove r b)
  then show ?thesis
    unfolding ItemsRemove http_step.simps itemsRemove_def
    by (intro runs_guarded runs_item_request exI[of _ "RemoveItem _ _ _"]) auto
next
  case (ItemsTransfer r b)
  have "runs_ops pg {TrimSpace p, TrimSpace to} d (snd (TransferPlayerItems pg p to i n d))" for p to i n
    using runs_one[of "TransferItems p to i n" _ pg d] by simp
  then show ?thesis
    unfolding ItemsTransfer http_step.simps itemsTransfer_def
    using runs_none
    by (intro runs_guarded) (simp add: snd_reply split: option.split prod.split)
next
  case (LastCell r)
  have "runs_ops pg (touched tk c) d (snd (GetPlayerLastCellRecord pg p d))" if "authorized tk r = Some p" for p
    using runs_one[of "LastCellRecord p" _ pg d] that LastCell by simp
  then show ?thesis
    unfolding LastCell http_step.simps lastCell_def
    by (intro runs_guarded) (simp add: LastCell snd_reply)
next
  case (NewSession ok r b)
  then show ?thesis using runs_session by simp
qed

text \<open>A property of the tables that the operations of the touched players keep.\<close>

lemma runs_others:
  "runs_ops pg P d d' \<Longrightarrow> q \<notin> P \<Longrightarrow> player_rows (tables d') q = player_rows (tables d) q"
  unfolding runs_ops_def
proof (elim exE conjE)
  fix ops assume d': "d' = db_run pg ops d" and q: "q \<notin> P" and ops: "\<forall>op\<in>set ops. op_players op \<subseteq> P \<and> op_savers op = {}"
  have "others_kept (\<lambda>p. p \<in> P) (tables d) (tables d')"
    unfolding d' by (rule bystander.run_keeps) (use ops in \<open>auto simp: others_kept_def\<close>)
  then show ?thesis using q by (simp add: others_kept_def)
qed

lemma runs_seat:
  "runs_ops pg P d d' \<Longrightarrow> map_of (player_last_cell (tables d')) p = map_of (player_last_cell (tables d)) p"
  unfolding runs_ops_def by (elim exE conjE, simp, rule seat.run_keeps) auto

lemma http_run_Cons: "http_run has_db pg tk dflt (c # cs) d = http_run has_db pg tk dflt cs (snd (http_step has_db pg tk dflt c d))"
  by (simp add: http_run_def)

section \<open>Whose rows a request changes\<close>

text \<open>
  C33: a sequence of HTTP requests changes no row of a player it does not touch, whatever is posted
  and whichever statements fail: a request under the token of one player cannot spend, move,
  complete or store anything of another; a request without a valid token touches nobody. A transfer
  works on the names without surrounding spaces, so a token for \<open> ann\<close> spends what \<open>ann\<close> has.
\<close>

theorem requests_touch_their_players:
  assumes "\<forall>c\<in>set cs. q \<notin> touched tk c"
  shows "player_rows (tables (http_run has_db pg tk dflt cs d)) q = player_rows (tables d) q"
  using assms
proof (induction cs arbitrary: d)
  case Nil
  then show ?case by (simp add: http_run_def)
next
  case (Cons c cs)
  then show ?case
    using runs_others[OF http_step_ops[of pg tk c d has_db dflt], of q] by (simp add: http_run_Cons)
qed

text \<open>A token is the name of its subject; the gateway of the witnesses signs nothing.\<close>

definition name_tokens :: tokens where
  "name_tokens = \<lparr>parse_token = (\<lambda>t. if t = [] then None else
       Some \<lparr>Subject = t, MmoHasResolve = False, MmoRX = Fin 0, MmoRZ = Fin 0\<rparr>),
     sign_token = (\<lambda>c. None)\<rparr>"

definition request_as :: "string \<Rightarrow> string \<Rightarrow> http_request" where
  "request_as m p = \<lparr>http_method = m, authorization = [], query = (\<lambda>k. if k = ''token'' then p else [])\<rparr>"

lemma authorized_as: "p \<noteq> [] \<Longrightarrow> authorized name_tokens (request_as m p) = Some p"
  by (simp add: authorized_def bearerOrQueryToken_def request_as_def token_subject_def name_tokens_def)

theorem requests_touch_their_players_witness:
  "player_rows (tables (http_run True steady_server name_tokens (Fin 0, Fin 0)
      [ItemsTransfer (request_as ''POST'' ''a'') (Some (''b'', ''coin_copper'', 2)),
       ItemsAdd (request_as ''POST'' ''b'') (Some (''coin_copper'', 7))] rich_database)) ''c''
   = player_rows (tables rich_database) ''c''"
  by (rule requests_touch_their_players) (simp add: authorized_as TrimSpace_trimmed trimmedI ascii_graph_def)

section \<open>A last cell that is gone\<close>

text \<open>The last cell is kept by every request: only the end of a WebSocket session or a switch stores it.\<close>

lemma http_run_seat:
  "map_of (player_last_cell (tables (http_run has_db pg tk dflt cs d))) p = map_of (player_last_cell (tables d)) p"
proof (induction cs arbitrary: d)
  case Nil
  then show ?case by (simp add: http_run_def)
next
  case (Cons c cs)
  then show ?case
    using runs_seat[OF http_step_ops[of pg tk c d has_db dflt], of p] by (simp add: http_run_Cons)
qed

lemma last_cell_read:
  assumes "\<forall>n. reply pg n = Served" "accepts_text pg p"
  shows "fst (GetPlayerLastCellRecord pg p d) = Inr (map_of (player_last_cell (tables d)) p)"
  using assms by (simp add: GetPlayerLastCellRecord_def pool_exec_def Let_def)

lemma registry_call_still:
  assumes "turns g = []" "\<And>g. snd (m g) = g"
  shows "snd (registry_call env addr m g) = g"
  using assms by (auto simp: registry_call_def next_turn_def fail_def split: option.split)

lemma list_cells_still: "turns g = [] \<Longrightarrow> snd (list_cells env g) = g"
  by (simp add: list_cells_def registry_call_still)

lemma resolve_still: "turns g = [] \<Longrightarrow> snd (resolve env x z g) = g"
  by (simp add: resolve_def registry_call_still)

lemma resolve_found:
  "turns g = [] \<Longrightarrow> resolve env x z g = (Inr (Some c), g1) \<Longrightarrow>
   Registry_ResolvePosition (registry_store env) (Some (x, z)) g = Inr (Some c)"
  by (auto simp: resolve_def registry_call_def next_turn_def fail_def split: option.splits)

lemma enrich_still:
  assumes "turns g = []" "enrichCellSpecBoundsFromRegistryList env c g = (c', g')"
  shows "g' = g" "cs_Id c' = cs_Id c"
  using assms list_cells_still[OF assms(1), of env]
  by (auto simp: enrichCellSpecBoundsFromRegistryList_def Let_def split: if_splits prod.splits sum.splits option.splits)

text \<open>
  C34: with \<open>GATEWAY_ALLOW_CELL_HANDOFF_MISMATCH\<close> unset, a player whose last cell no position resolves to
  any more (it was split, or it is a child that was merged) cannot come back: no sequence of HTTP
  requests, new sessions with any coordinates among them, changes his last cell, and with every token
  he gets the WebSocket session ends in an error or in the conflict of the last cell, before any cell
  is called.
\<close>

theorem stale_last_cell_locks_out:
  assumes "gw_db env" "\<not> allowCellIDMismatch env"
    and "\<forall>n. reply (gw_pg env) n = Served" "accepts_text (gw_pg env) p"
    and "map_of (player_last_cell (tables (gatewayDB g))) p = Some rec" "lc_CellID rec \<noteq> []"
    and "turns g = []"
    and "\<forall>x z c. Registry_ResolvePosition (registry_store env) (Some (x, z)) g = Inr (Some c) \<longrightarrow>
           cs_Id c \<noteq> [] \<and> cs_Id c \<noteq> lc_CellID rec"
    and "token_subject tk (ws_token r) = Some claims" "Subject claims = p"
    and "ws_open env tk dflt upgraded r (g\<lparr>gatewayDB := http_run has_db pg tk' dflt' cs (gatewayDB g)\<rparr>) = (res, g')"
  shows "((\<exists>code m. res = WsFail code m) \<or> (\<exists>cell x z. res = WsConflict rec cell x z))
    \<and> servers g' = servers g \<and> map_of (player_last_cell (tables (gatewayDB g'))) p = Some rec"
proof -
  let ?d = "http_run has_db pg tk' dflt' cs (gatewayDB g)"
  let ?g = "g\<lparr>gatewayDB := ?d\<rparr>"
  have seat: "map_of (player_last_cell (tables ?d)) p = Some rec"
    using assms(5) by (simp add: http_run_seat)
  have quiet: "turns ?g = []" using assms(7) by simp
  obtain rx rz where rxz: "(if MmoHasResolve claims then (MmoRX claims, MmoRZ claims) else dflt) = (rx, rz)"
    by (metis surj_pair)
  obtain found g1 where res: "resolve env rx rz ?g = (found, g1)" by fastforce
  have g1: "g1 = ?g" using resolve_still[OF quiet, of env rx rz] res by simp
  have db: "tables (snd (GetPlayerLastCellRecord (gw_pg env) p ?d)) = tables ?d"
    by (simp add: GetPlayerLastCellRecord_def pool_exec_def Let_def)
  consider (fail) code m where "res = WsFail code m" "g' = ?g"
    | (cell) c where "found = Inr (Some c)" "cs_GrpcEndpoint c \<noteq> []"
    using assms(9-11) rxz res g1
    by (auto simp: ws_open_def Let_def split: sum.splits option.splits if_splits)
  then show ?thesis
  proof cases
    case fail
    then show ?thesis using seat by simp
  next
    case cell
    obtain c' g2 where en: "enrichCellSpecBoundsFromRegistryList env c ?g = (c', g2)" by fastforce
    note still = enrich_still[OF quiet en]
    have other: "cs_Id c' \<noteq> []" "cs_Id c' \<noteq> lc_CellID rec"
      using resolve_found[OF quiet res[unfolded cell(1)]] assms(8) still(2)
      by (auto simp: Registry_ResolvePosition_def)
    have read: "fst (GetPlayerLastCellRecord (gw_pg env) p ?d) = Inr (Some rec)"
      using last_cell_read[OF assms(3,4), of ?d] seat by simp
    obtain d3 where d3: "GetPlayerLastCellRecord (gw_pg env) p ?d = (Inr (Some rec), d3)"
      using read by (metis prod.collapse)
    have conflict: "handoff_conflict env p (cs_Id c') ?g = (Some rec, ?g\<lparr>gatewayDB := d3\<rparr>)"
      using assms(1,2,6) other d3 by (simp add: handoff_conflict_def with_db_def)
    have "res = WsConflict rec (resolvedCellJSON (Some c')) rx rz \<and> g' = ?g\<lparr>gatewayDB := d3\<rparr>"
      using assms(9-11) rxz res cell g1 en still conflict by (simp add: ws_open_def)
    then show ?thesis using seat db d3 by simp
  qed
qed

end
