(* ===== verification/Gateway_Demo.thy ===== *)
theory Gateway_Demo
  imports Gateway_Switch Gateway_Requests
begin

text \<open>A gateway in front of two cells, for the witnesses of the theorems on sessions.\<close>

definition half_cell :: CellSpec where
  "half_cell = \<lparr>cs_Id = ''cell_1_0_0'', cs_Level = 1,
     cs_Bounds = Some \<lparr>XMin = Fin (-1000), XMax = Fin 0, ZMin = Fin (-1000), ZMax = Fin 0\<rparr>,
     cs_GrpcEndpoint = ''cell_1_0_0''\<rparr>"

definition gateway_demo_env :: "string list \<Rightarrow> Memory gateway_env" where
  "gateway_demo_env ids = \<lparr>catalog_of = Some (MemoryCatalog (\<lambda>m. ids)), js = demo_json, dial_error = (\<lambda>ep. None),
     visit_live = (\<lambda>s. []), visit_names = (\<lambda>s. []), visit_prepared = (\<lambda>s. []),
     registryAddr = ''grid'', registry_store = MemoryCatalog (\<lambda>m. ids), gw_db = True, gw_pg = steady_server,
     allowCellIDMismatch = False, positionSwitchEnabled = True, positionSwitchMinInterval = 0,
     positionSwitchMinMoveMeters = Fin 1, positionSwitchRetryBase = 0, positionSwitchRetryMax = 0,
     gw_hypot = (\<lambda>x z. Fin 0), gw_cos = id, gw_sin = id, lost_unavailable = True, lost_transport = True\<rparr>"

definition gateway_demo :: "Memory \<Rightarrow> gatewaySession \<Rightarrow> database \<Rightarrow> Memory GatewayGrid" where
  "gateway_demo m s d = \<lparr>reg = m,
     servers = [''root'' \<mapsto> demo_joined, ''cell_1_0_0'' \<mapsto> new_server ''cell_1_0_0'' None 1 NewRuntime],
     turns = [], clock = 0, session = s, gatewayDB = d\<rparr>"

abbreviation two_cells :: Memory where
  "two_cells \<equiv> \<lparr>cells = [''root'' \<mapsto> demo_cell ''root'', ''cell_1_0_0'' \<mapsto> half_cell]\<rparr>"

definition demo_session :: gatewaySession where
  "demo_session = (new_session ''ann'')\<lparr>downstream := Some \<lparr>ds_cellID = ''root'', ds_endpoint = ''root'', ds_entityID = 1\<rparr>,
     lastX := Fin (-500), lastZ := Fin (-500), hasPos := True\<rparr>"

section \<open>The switch\<close>

lemmas demo_catalog = MemoryCatalog_def MemoryCatalog_List_def List_def MemoryCatalog_ResolveMostSpecific_def
  ResolveMostSpecific_def FindCellByID_def demo_cell_def half_cell_def Contains_def

lemma gateway_demo_names [simp]: "TrimSpace ''root'' = ''root''" "TrimSpace ''gw-pos-ann-0'' = ''gw-pos-ann-0''"
  by (simp_all add: TrimSpace_trimmed trimmedI ascii_graph_def)

lemma demo_token: "gateway_token ''ann'' 0 = ''gw-pos-ann-0''"
  by code_simp

lemma demo_resolve:
  "Registry_ResolvePosition (MemoryCatalog (\<lambda>m. [''root'', ''cell_1_0_0''])) (Some (Fin (-500), Fin (-500)))
     (gateway_demo two_cells s d) = Inr (Some half_cell)"
  by (simp add: Registry_ResolvePosition_def gateway_demo_def demo_catalog cloneSpec_def)

lemma gateway_demo_dial:
  "fst (dialCellClient (gateway_demo_env [''root'', ''cell_1_0_0'']) ''root'' (gateway_demo two_cells s d)) = Inr (demo_cell ''root'')"
  "fst (dialCellClient (gateway_demo_env [''root'', ''cell_1_0_0'']) ''cell_1_0_0'' (gateway_demo two_cells s d)) = Inr half_cell"
  by (simp_all add: dialCellClient_def gateway_demo_env_def gateway_demo_def demo_catalog give_def)

lemma some_room: "(0 :: Entity) < - 2"
  by (simp add: word_gt_0)

lemma demo_switch_ready:
  "switch_ready (gateway_demo_env [''root'', ''cell_1_0_0'']) (gateway_demo two_cells demo_session new_database)
     \<lparr>ds_cellID = ''root'', ds_endpoint = ''root'', ds_entityID = 1\<rparr> (demo_cell ''root'') half_cell
     demo_joined demo_child"
proof -
  have child: "server_inv demo_child" "\<not> splitDrain demo_child" "playerByID demo_child = Map.empty"
      "acceptedByTk demo_child = Map.empty" "room_for_two demo_child"
    using server_inv_new[OF world_inv_NewRuntime]
    by (simp_all add: new_server_def room_for_two_def NewRuntime_def NewWorld_def some_room)
  then have "has_room demo_child" by (simp add: room_for_two_room)
  then have ready: "handoff_ready (gateway_demo two_cells demo_session new_database) ''root'' demo_joined ''cell_1_0_0'' demo_child
      ''ann'' ''gw-pos-ann-0''"
    using child demo_joined_inv by (simp add: handoff_ready_def gateway_demo_def)
  have named: "proper_request \<lparr>ph_ParentCellId = ''root'', ph_ChildCellId = ''cell_1_0_0'', ph_PlayerId = ''ann'',
              ph_HandoffToken = ''gw-pos-ann-0'', ph_Reason = ''gateway_position_switch''\<rparr>"
    by (simp add: proper_request_def trimmedI ascii_graph_def)
  let ?env = "gateway_demo_env [''root'', ''cell_1_0_0'']" and ?g = "gateway_demo two_cells demo_session new_database"
  have g: "turns ?g = []" "clock ?g = 0" "session ?g = demo_session" by (simp_all add: gateway_demo_def)
  have s: "gs_playerID demo_session = ''ann''" "hasPos demo_session" "lastX demo_session = Fin (-500)"
      "lastZ demo_session = Fin (-500)" "\<not> hasResolvedPos demo_session" "switchRetryState demo_session = Map.empty"
      "downstream demo_session = Some \<lparr>ds_cellID = ''root'', ds_endpoint = ''root'', ds_entityID = 1\<rparr>"
    by (simp_all add: demo_session_def new_session_def)
  have e: "dial_error ?env ep = None" "registry_store ?env = MemoryCatalog (\<lambda>m. [''root'', ''cell_1_0_0''])" for ep
    by (simp_all add: gateway_demo_env_def)
  have c: "cs_Id half_cell = ''cell_1_0_0''" "cs_GrpcEndpoint half_cell = ''cell_1_0_0''" "cs_GrpcEndpoint (demo_cell ''root'') = ''root''"
    by (simp_all add: half_cell_def demo_cell_def)
  have due: "fst (markPositionResolveAttempt h n x z mm mi demo_session)" for h n x z mm mi
    using s by (simp add: markPositionResolveAttempt_def)
  show ?thesis
    unfolding switch_ready_def Let_def g s e c demo_token
    using due demo_resolve gateway_demo_dial named ready child
    by (simp add: allowPositionSwitchRetry_def s)
qed

theorem position_switch_moves_witness:
  "\<forall>input. \<exists>ds g2. ws_message (gateway_demo_env [''root'', ''cell_1_0_0'']) (Fin 0) (Fin 0) True (Some input)
      (gateway_demo two_cells demo_session new_database) = (True, g2)
    \<and> downstream (session g2) = Some ds \<and> ds_cellID ds = ''cell_1_0_0''"
proof
  fix input
  show "\<exists>ds g2. ws_message (gateway_demo_env [''root'', ''cell_1_0_0'']) (Fin 0) (Fin 0) True (Some input)
      (gateway_demo two_cells demo_session new_database) = (True, g2)
    \<and> downstream (session g2) = Some ds \<and> ds_cellID ds = ''cell_1_0_0''"
    using position_switch_moves[OF demo_switch_ready, of "''ann''" "Fin 0" "Fin 0" input]
    by (auto simp: gateway_demo_env_def gateway_demo_def demo_session_def new_session_def half_cell_def)
qed

section \<open>The stale last cell\<close>

definition seated_database :: database where
  "seated_database = \<lparr>tables = migrated_tables\<lparr>player_last_cell :=
     [(''ann'', \<lparr>lc_CellID = ''cell_1_0_0'', lc_ResolveX = Fin (-500), lc_ResolveZ = Fin (-500)\<rparr>)]\<rparr>, requests = 0\<rparr>"

abbreviation one_cell :: Memory where
  "one_cell \<equiv> \<lparr>cells = [''root'' \<mapsto> demo_cell ''root'']\<rparr>"

definition demo_requests :: "http_call list" where
  "demo_requests = [NewSession True (request_as ''POST'' []) (Some
     \<lparr>sq_PlayerID = ''ann'', sq_DisplayName = [], sq_ResolveX = Some (Fin 5), sq_ResolveZ = Some (Fin 5)\<rparr>)]"

lemma one_cell_resolves:
  "Registry_ResolvePosition (MemoryCatalog (\<lambda>m. [''root''])) (Some (x, z)) (gateway_demo one_cell s d) = Inr (Some c) \<Longrightarrow>
   cs_Id c = ''root''"
  by (auto simp: Registry_ResolvePosition_def gateway_demo_def demo_catalog cloneSpec_def split: if_splits option.splits)

theorem stale_last_cell_locks_out_witness:
  "\<not> (\<exists>x z. fst (ws_open (gateway_demo_env [''root'']) name_tokens (Fin 5, Fin 5) True (request_as ''GET'' ''ann'')
      (gateway_demo one_cell (new_session []) (http_run True steady_server name_tokens (Fin 0, Fin 0) demo_requests
        seated_database))) = WsOpen x z)"
proof -
  let ?rec = "\<lparr>lc_CellID = ''cell_1_0_0'', lc_ResolveX = Fin (-500), lc_ResolveZ = Fin (-500)\<rparr>"
  let ?g = "gateway_demo one_cell (new_session []) seated_database"
  let ?g' = "?g\<lparr>gatewayDB := http_run True steady_server name_tokens (Fin 0, Fin 0) demo_requests (gatewayDB ?g)\<rparr>"
  have same: "?g' = gateway_demo one_cell (new_session []) (http_run True steady_server name_tokens (Fin 0, Fin 0)
      demo_requests seated_database)"
    by (simp add: gateway_demo_def)
  have env: "gw_db (gateway_demo_env [''root''])" "\<not> allowCellIDMismatch (gateway_demo_env [''root''])"
      "\<forall>n. reply (gw_pg (gateway_demo_env [''root''])) n = Served" "accepts_text (gw_pg (gateway_demo_env [''root''])) ''ann''"
      "registry_store (gateway_demo_env [''root'']) = MemoryCatalog (\<lambda>m. [''root''])"
    by (simp_all add: gateway_demo_env_def steady_server_def)
  have seat: "map_of (player_last_cell (tables (gatewayDB ?g))) ''ann'' = Some ?rec" "turns ?g = []"
    by (simp_all add: gateway_demo_def seated_database_def)
  have found: "\<forall>x z c. Registry_ResolvePosition (registry_store (gateway_demo_env [''root''])) (Some (x, z)) ?g = Inr (Some c) \<longrightarrow>
      cs_Id c \<noteq> [] \<and> cs_Id c \<noteq> lc_CellID ?rec"
    unfolding env(5) by (auto dest: one_cell_resolves)
  have tok: "token_subject name_tokens (ws_token (request_as ''GET'' ''ann'')) =
      Some \<lparr>Subject = ''ann'', MmoHasResolve = False, MmoRX = Fin 0, MmoRZ = Fin 0\<rparr>"
    by (simp add: ws_token_def request_as_def token_subject_def name_tokens_def)
  show ?thesis
    using stale_last_cell_locks_out[OF env(1-4) seat(1) _ seat(2) found tok _ prod.collapse[symmetric],
        where upgraded = True and dflt = "(Fin 5, Fin 5)" and cs = demo_requests and has_db = True
          and pg = steady_server and tk' = name_tokens and dflt' = "(Fin 0, Fin 0)"]
    unfolding same by auto
qed

end
