(* ===== verification/Cell_Controller.thy ===== *)
theory Cell_Controller
  imports Split_Workflow Consul_Catalog
begin

text \<open>
  The cell controller (\<open>src/cmd/cell-controller/main.go\<close>, \<open>src/internal/splitcontrol/types.go\<close>): it turns
  the commands of the grid manager into a Kubernetes service and a deployment per cell, reports what
  became of them, and keeps the workflow events it sees in Redis. A request to the Kubernetes API is
  served, refused, or executed with its answer lost; a stored value is the map its JSON is made of
  (expiry times are left out).
\<close>

section \<open>The cluster\<close>

record ServicePort =
  port_Name :: string
  port_Port :: int

record KubeService =
  svc_Labels :: "string \<rightharpoonup> string"
  svc_Selector :: "string \<rightharpoonup> string"
  svc_Ports :: "ServicePort list"

record Container =
  ct_Image :: string
  ct_Command :: "string list"
  ct_Args :: "string list"
  ct_Env :: "(string \<times> string) list"
  ct_Secrets :: "string list"

record Deployment =
  dep_Labels :: "string \<rightharpoonup> string"
  dep_Replicas :: int
  dep_Containers :: "Container list"

record CellLifecycleEvent =
  le_CellID :: string
  le_Action :: string
  le_OK :: bool
  le_Message :: string
  le_ParentID :: string
  le_AtUnixMs :: int

datatype stored =
    RawEvent string
  | ServiceOf string
  | StateOf string string "string option" "string option" int string "(string \<times> string) list"

text \<open>
  \<open>StateOf\<close> has phase, parent, stage and child where they are written, time, message and attributes.
\<close>

record Controller =
  services :: "string \<rightharpoonup> KubeService"
  deployments :: "string \<rightharpoonup> Deployment"
  api_calls :: nat
  redis :: "string \<rightharpoonup> stored"
  redis_calls :: nat
  lifecycle :: "CellLifecycleEvent list"
  publishes :: nat

datatype api_fate = ApiServed | ApiRefused | ApiAnswerLost

datatype api_error = NotFound | ApiFailure

text \<open>Decoded messages; the decoders of their JSON are parameters.\<close>

record RuntimeCellDeleteRequest =
  del_CellID :: string
  del_Reason :: string

record ChildCellCreateRequest =
  cr_ParentCellID :: string
  cr_RequestID :: string
  cr_Child :: ChildCellSpec

record workflowEvent =
  we_CellID :: string
  we_ParentCellID :: string
  we_Stage :: string
  we_Message :: string
  we_ChildCell :: string
  we_Attrs :: "(string \<times> string) list"
  we_AtUnixMs :: int
  we_Successful :: bool

text \<open>
  \<open>redis_up\<close> is \<^const>\<open>None\<close> when no Redis is configured, and otherwise says which of its requests
  are executed; \<open>format_g\<close> is \<open>%g\<close>.
\<close>

record controller_env =
  api_fates :: "nat \<Rightarrow> api_fate"
  api_text :: "api_error \<Rightarrow> string"
  redis_up :: "(nat \<Rightarrow> bool) option"
  bus_up :: "nat \<Rightarrow> bool"
  unix_ms :: "nat \<Rightarrow> int"
  MMO_CELL_IMAGE :: string
  kube_ns :: string
  format_g :: "f64 \<Rightarrow> string"
  probe_op :: "string \<Rightarrow> string option"
  decode_delete :: "string \<Rightarrow> RuntimeCellDeleteRequest option"
  decode_create :: "string \<Rightarrow> ChildCellCreateRequest option"
  decode_event :: "string \<Rightarrow> workflowEvent option"

section \<open>Requests\<close>

definition api :: "controller_env \<Rightarrow> (Controller \<Rightarrow> (api_error + 'r) \<times> Controller) \<Rightarrow> Controller \<Rightarrow>
    (api_error + 'r) \<times> Controller" where
  "api env f k =
     (let k1 = k\<lparr>api_calls := Suc (api_calls k)\<rparr>
      in case api_fates env (api_calls k) of
           ApiServed \<Rightarrow> f k1
         | ApiRefused \<Rightarrow> (Inl ApiFailure, k1)
         | ApiAnswerLost \<Rightarrow> (Inl ApiFailure, snd (f k1)))"

definition get_from :: "(Controller \<Rightarrow> (string \<rightharpoonup> 'o)) \<Rightarrow> string \<Rightarrow> Controller \<Rightarrow> (api_error + 'o) \<times> Controller" where
  "get_from table nm k = (case table k nm of None \<Rightarrow> (Inl NotFound, k) | Some x \<Rightarrow> (Inr x, k))"

definition put_service :: "bool \<Rightarrow> string \<Rightarrow> KubeService \<Rightarrow> Controller \<Rightarrow> (api_error + unit) \<times> Controller" where
  "put_service new nm x k =
     (if (services k nm = None) = new then (Inr (), k\<lparr>services := (services k)(nm \<mapsto> x)\<rparr>)
      else (Inl (if new then ApiFailure else NotFound), k))"

definition put_deployment :: "bool \<Rightarrow> string \<Rightarrow> Deployment \<Rightarrow> Controller \<Rightarrow> (api_error + unit) \<times> Controller" where
  "put_deployment new nm x k =
     (if (deployments k nm = None) = new then (Inr (), k\<lparr>deployments := (deployments k)(nm \<mapsto> x)\<rparr>)
      else (Inl (if new then ApiFailure else NotFound), k))"

definition delete_service :: "string \<Rightarrow> Controller \<Rightarrow> (api_error + unit) \<times> Controller" where
  "delete_service nm k =
     (if services k nm = None then (Inl NotFound, k) else (Inr (), k\<lparr>services := (services k)(nm := None)\<rparr>))"

definition delete_deployment :: "string \<Rightarrow> Controller \<Rightarrow> (api_error + unit) \<times> Controller" where
  "delete_deployment nm k =
     (if deployments k nm = None then (Inl NotFound, k) else (Inr (), k\<lparr>deployments := (deployments k)(nm := None)\<rparr>))"

text \<open>The errors of Redis are dropped.\<close>

definition redis_set :: "controller_env \<Rightarrow> string \<Rightarrow> stored option \<Rightarrow> Controller \<Rightarrow> Controller" where
  "redis_set env rkey v k =
     (case redis_up env of
        None \<Rightarrow> k
      | Some up \<Rightarrow>
          (let k1 = k\<lparr>redis_calls := Suc (redis_calls k)\<rparr>
           in if up (redis_calls k) then k1\<lparr>redis := (redis k)(rkey := v)\<rparr> else k1))"

definition publishCellLifecycle :: "controller_env \<Rightarrow> CellLifecycleEvent \<Rightarrow> Controller \<Rightarrow> Controller" where
  "publishCellLifecycle env ev k =
     (let k1 = k\<lparr>publishes := Suc (publishes k)\<rparr>
      in if bus_up env (publishes k) then k1\<lparr>lifecycle := lifecycle k @ [ev\<lparr>le_AtUnixMs := unix_ms env (publishes k)\<rparr>]\<rparr>
         else k1)"

section \<open>Names\<close>

text \<open>
  \<open>strings.ToLower\<close> as far as the names need it: two letters outside ASCII have a lower case inside
  (U+0130 and U+212A); all others stay outside.
\<close>

fun lower_name :: "string \<Rightarrow> string" where
  "lower_name (a # b # c # s) =
     (if a = CHR 0xC4 \<and> b = CHR 0xB0 then CHR ''i'' # lower_name (c # s)
      else if a = CHR 0xE2 \<and> b = CHR 0x84 \<and> c = CHR 0xAA then CHR ''k'' # lower_name s
      else to_lower a # lower_name (b # c # s))"
| "lower_name [a, b] =
     (if a = CHR 0xC4 \<and> b = CHR 0xB0 then ''i'' else [to_lower a, to_lower b])"
| "lower_name s = map to_lower s"

definition name_char :: "char \<Rightarrow> bool" where
  "name_char c \<longleftrightarrow>
     (let n = (of_char c :: nat) in (97 \<le> n \<and> n \<le> 122) \<or> (48 \<le> n \<and> n \<le> 57) \<or> c = CHR ''-'')"

text \<open>\<open>nonRFC1123.ReplaceAllString(s, "-")\<close>: every run of other characters becomes one dash.\<close>

fun replace_runs :: "bool \<Rightarrow> string \<Rightarrow> string" where
  "replace_runs inside [] = []"
| "replace_runs inside (c # s) =
     (if name_char c then c # replace_runs False s
      else if inside then replace_runs True s
      else CHR ''-'' # replace_runs True s)"

definition trim_dashes :: "string \<Rightarrow> string" where
  "trim_dashes s = rev (dropWhile (\<lambda>c. c = CHR ''-'') (rev (dropWhile (\<lambda>c. c = CHR ''-'') s)))"

definition cell_label :: "string \<Rightarrow> string" where
  "cell_label cellID =
     (let s = map (\<lambda>c. if c = CHR ''_'' then CHR ''-'' else c) (lower_name (TrimSpace cellID));
          t = take 30 (trim_dashes (replace_runs False s))
      in if t = [] then ''auto'' else t)"

definition namesForCell :: "string \<Rightarrow> string \<times> string" where
  "namesForCell cellID = (''mmo-cell-auto-'' @ cell_label cellID, ''cell-node-auto-'' @ cell_label cellID)"

section \<open>Services and deployments\<close>

definition cell_labels :: "string \<Rightarrow> string \<rightharpoonup> string" where
  "cell_labels deployName = [''app'' \<mapsto> ''cell-node'', ''cell_shard'' \<mapsto> deployName]"

definition desired_service :: "string \<Rightarrow> KubeService" where
  "desired_service deployName = \<lparr>svc_Labels = cell_labels deployName, svc_Selector = cell_labels deployName,
     svc_Ports = [\<lparr>port_Name = ''grpc'', port_Port = 50051\<rparr>, \<lparr>port_Name = ''metrics'', port_Port = 9090\<rparr>]\<rparr>"

definition ensureCellService :: "controller_env \<Rightarrow> string \<Rightarrow> string \<Rightarrow> Controller \<Rightarrow>
    (api_error + unit) \<times> Controller" where
  "ensureCellService env serviceName deployName k =
     (case api env (get_from services serviceName) k of
        (Inl NotFound, k1) \<Rightarrow> api env (put_service True serviceName (desired_service deployName)) k1
      | (Inl e, k1) \<Rightarrow> (Inl e, k1)
      | (Inr cur, k1) \<Rightarrow>
          api env (put_service False serviceName (cur\<lparr>svc_Labels := svc_Labels (desired_service deployName),
            svc_Selector := svc_Selector (desired_service deployName),
            svc_Ports := svc_Ports (desired_service deployName)\<rparr>)) k1)"

definition desired_deployment :: "controller_env \<Rightarrow> string \<Rightarrow> string \<Rightarrow> string \<Rightarrow> ChildCellSpec \<Rightarrow> Deployment" where
  "desired_deployment env deployName serviceName img ch = \<lparr>dep_Labels = cell_labels deployName, dep_Replicas = 1,
     dep_Containers = [\<lparr>ct_Image = img, ct_Command = [''/cell-node''],
       ct_Args = [''-listen'', ''0.0.0.0:50051'', ''-id'', cc_ID ch, ''-level'', Itoa (cc_Level ch),
         ''-xmin'', format_g env (cc_XMin ch), ''-xmax'', format_g env (cc_XMax ch),
         ''-zmin'', format_g env (cc_ZMin ch), ''-zmax'', format_g env (cc_ZMax ch),
         ''-metrics-listen'', ''0.0.0.0:9090''],
       ct_Env = [(''MMO_CELL_GRPC_ADVERTISE'', serviceName @ ''.'' @ kube_ns env @ ''.svc.cluster.local:50051''),
                 (''MMO_LOG_FORMAT'', ''json'')],
       ct_Secrets = [''mmo-backend'']\<rparr>]\<rparr>"

definition ensureCellDeployment :: "controller_env \<Rightarrow> string \<Rightarrow> string \<Rightarrow> string \<Rightarrow> ChildCellSpec \<Rightarrow> Controller \<Rightarrow>
    (api_error + unit) \<times> Controller" where
  "ensureCellDeployment env deployName serviceName img ch k =
     (let desired = desired_deployment env deployName serviceName img ch
      in case api env (get_from deployments deployName) k of
           (Inl NotFound, k1) \<Rightarrow> api env (put_deployment True deployName desired) k1
         | (Inl e, k1) \<Rightarrow> (Inl e, k1)
         | (Inr cur, k1) \<Rightarrow> api env (put_deployment False deployName desired) k1)"

text \<open>The image of the environment, or of the first container of the deployment \<open>cell-node\<close>.\<close>

definition resolveCellImage :: "controller_env \<Rightarrow> Controller \<Rightarrow> (string + string) \<times> Controller" where
  "resolveCellImage env k =
     (if TrimSpace (MMO_CELL_IMAGE env) \<noteq> [] then (Inr (TrimSpace (MMO_CELL_IMAGE env)), k)
      else (case api env (get_from deployments ''cell-node'') k of
              (Inl e, k1) \<Rightarrow> (Inl (api_text env e), k1)
            | (Inr dep, k1) \<Rightarrow>
                (case dep_Containers dep of
                   [] \<Rightarrow> (Inl ''cell-node deployment has no containers'', k1)
                 | c # _ \<Rightarrow> (Inr (ct_Image c), k1))))"

section \<open>Commands\<close>

definition lifecycle_event :: "string \<Rightarrow> string \<Rightarrow> bool \<Rightarrow> string \<Rightarrow> string \<Rightarrow> CellLifecycleEvent" where
  "lifecycle_event cellID action ok msg parentID = \<lparr>le_CellID = cellID, le_Action = action, le_OK = ok,
     le_Message = msg, le_ParentID = parentID, le_AtUnixMs = 0\<rparr>"

definition handleRuntimeCellDelete :: "controller_env \<Rightarrow> RuntimeCellDeleteRequest \<Rightarrow> Controller \<Rightarrow> Controller" where
  "handleRuntimeCellDelete env del k =
     (let cid = TrimSpace (del_CellID del); (svc, dep) = namesForCell cid;
          failed = (\<lambda>what e. publishCellLifecycle env (lifecycle_event cid ''cell.failed'' False (what @ api_text env e) []))
      in if cid = [] then k
         else (case api env (delete_service svc) k of
           (Inl ApiFailure, k1) \<Rightarrow> failed ''delete service: '' ApiFailure k1
         | (_, k1) \<Rightarrow>
             (case api env (delete_deployment dep) k1 of
                (Inl ApiFailure, k2) \<Rightarrow> failed ''delete deployment: '' ApiFailure k2
              | (_, k2) \<Rightarrow>
                  redis_set env (''mmo:cell-controller:created:'' @ cid) None
                    (publishCellLifecycle env (lifecycle_event cid ''cell.deleted'' True
                       (''removed deployment='' @ dep @ '' service='' @ svc @ '' reason='' @ del_Reason del) []) k2))))"

definition handleControlEvent :: "controller_env \<Rightarrow> ChildCellCreateRequest \<Rightarrow> Controller \<Rightarrow> Controller" where
  "handleControlEvent env req k =
     (let i = cc_ID (cr_Child req); parent = cr_ParentCellID req; (svc, dep) = namesForCell i;
          failed = (\<lambda>msg. publishCellLifecycle env (lifecycle_event i ''cell.failed'' False msg parent))
      in if TrimSpace i = [] then k
         else (case resolveCellImage env k of
           (Inl err, k1) \<Rightarrow> failed (''resolve image: '' @ err) k1
         | (Inr img, k1) \<Rightarrow>
             (case ensureCellService env svc dep k1 of
                (Inl e, k2) \<Rightarrow> failed (''service: '' @ api_text env e) k2
              | (Inr _, k2) \<Rightarrow>
                  (case ensureCellDeployment env dep svc img (cr_Child req) k2 of
                     (Inl e, k3) \<Rightarrow> failed (''deployment: '' @ api_text env e) k3
                   | (Inr _, k3) \<Rightarrow>
                       redis_set env (''mmo:cell-controller:created:'' @ i) (Some (ServiceOf svc))
                         (publishCellLifecycle env (lifecycle_event i ''cell.created'' True
                            (''deployment='' @ dep @ '' service='' @ svc) parent) k3)))))"

definition handleControlMessage :: "controller_env \<Rightarrow> string \<Rightarrow> Controller \<Rightarrow> Controller" where
  "handleControlMessage env raw k =
     (case probe_op env raw of
        None \<Rightarrow> k
      | Some opn \<Rightarrow>
          if opn = ''delete_runtime_child''
          then (case decode_delete env raw of None \<Rightarrow> k | Some del \<Rightarrow> handleRuntimeCellDelete env del k)
          else (case decode_create env raw of None \<Rightarrow> k | Some req \<Rightarrow> handleControlEvent env req k))"

section \<open>Workflow events\<close>

definition writeAutomationCompleteState :: "controller_env \<Rightarrow> workflowEvent \<Rightarrow> Controller \<Rightarrow> Controller" where
  "writeAutomationCompleteState env ev =
     redis_set env (''mmo:cell-controller:automation_complete:'' @ we_CellID ev)
       (Some (StateOf ''automation_complete'' (we_CellID ev) None None (we_AtUnixMs ev) (we_Message ev) (we_Attrs ev)))"

definition writeRetireReadyState :: "controller_env \<Rightarrow> workflowEvent \<Rightarrow> Controller \<Rightarrow> Controller" where
  "writeRetireReadyState env ev k =
     (let v = StateOf ''retire_ready'' (we_CellID ev) None
                (if we_ChildCell ev \<noteq> [] then Some (we_ChildCell ev) else None)
                (we_AtUnixMs ev) (we_Message ev) (we_Attrs ev)
      in redis_set env (''mmo:cell-controller:retire_ready:'' @ we_CellID ev) (Some v)
           (redis_set env (''mmo:cell-controller:retire:'' @ we_CellID ev) (Some v) k))"

definition writeMergeAutomationState :: "controller_env \<Rightarrow> workflowEvent \<Rightarrow> Controller \<Rightarrow> Controller" where
  "writeMergeAutomationState env ev =
     redis_set env (''mmo:cell-controller:merge:automation_complete:'' @ we_CellID ev)
       (Some (StateOf ''automation_complete'' (we_CellID ev) (Some (we_Stage ev)) None
          (we_AtUnixMs ev) (we_Message ev) (we_Attrs ev)))"

definition handleWorkflowEvent :: "controller_env \<Rightarrow> string \<Rightarrow> Controller \<Rightarrow> Controller" where
  "handleWorkflowEvent env raw k =
     (case decode_event env raw of
        None \<Rightarrow> k
      | Some ev0 \<Rightarrow>
          (let cellID = (if TrimSpace (we_CellID ev0) \<noteq> [] then TrimSpace (we_CellID ev0)
                         else TrimSpace (we_ParentCellID ev0));
               ev = ev0\<lparr>we_CellID := cellID\<rparr>
           in if cellID = [] \<or> redis_up env = None then k
              else (let k1 = redis_set env (''mmo:cell-controller:last:'' @ cellID) (Some (RawEvent raw)) k
                    in if we_Successful ev \<and> (we_Stage ev = ''retire_ready'' \<or> we_Stage ev = ''parent_retiring'')
                       then writeRetireReadyState env ev k1
                       else if we_Successful ev \<and> we_Stage ev = ''automation_complete''
                       then writeAutomationCompleteState env ev k1
                       else if we_Successful ev \<and> we_Stage ev = ''topology_switched''
                       then writeMergeAutomationState env ev k1
                       else k1)))"

end
