(* ===== verification/Controller_Cells.thy ===== *)
theory Controller_Cells
  imports Cell_Controller
begin

text \<open>
  What the cell controller makes of the commands it gets: which cells have names of their own, and
  that the cluster runs exactly the cells that were asked for and not deleted since.
\<close>

section \<open>Names of path cells\<close>

definition path_code :: "int list \<Rightarrow> string" where
  "path_code p = concat (map (\<lambda>q. CHR ''-'' # seg q) p)"

definition dash :: "char \<Rightarrow> char" where
  "dash c = (if c = CHR ''_'' then CHR ''-'' else c)"

lemma path_code_simps [simp]: "path_code [] = []" "path_code (q # p) = CHR ''-'' # seg q @ path_code p" "path_code (p @ r) = path_code p @ path_code r"
  by (simp_all add: path_code_def)

lemma dash_line: "dash (CHR ''_'') = CHR ''-''"
  by (simp add: dash_def)

lemma seg_append_inject:
  assumes "0 \<le> q" "q \<le> 3" "0 \<le> r" "r \<le> 3"
  shows "seg q @ x = seg r @ y \<longleftrightarrow> q = r \<and> x = y"
  using quadrant_cases[OF assms(1,2)] quadrant_cases[OF assms(3,4)] by (elim disjE) (simp_all add: seg_values)

lemma dash_seg: "valid_path [q] \<Longrightarrow> map dash (seg q) = seg q"
  using quadrant_cases[of q] by (auto simp: seg_values dash_def)

lemma dash_Join:
  "valid_path p \<Longrightarrow> p \<noteq> [] \<Longrightarrow> CHR ''-'' # map dash (Join (map seg p) ''_'') = path_code p"
proof (induction p rule: induct_list012)
  case (2 q)
  then show ?case using dash_seg[of q] by simp
next
  case (3 q r p)
  then show ?case using dash_seg[of q] by (simp add: dash_line)
qed simp

lemma dash_path: "valid_path p \<Longrightarrow> p \<noteq> [] \<Longrightarrow> map dash (path_id p) = ''cell'' @ path_code p"
  using dash_Join[of p] by (simp add: path_id_def dash_def)

lemma length_path_code: "valid_path p \<Longrightarrow> length (path_code p) = 3 * length p"
  by (induction p) (auto dest!: quadrant_cases simp: seg_values)

lemma path_code_inject: "valid_path p \<Longrightarrow> valid_path r \<Longrightarrow> path_code p = path_code r \<Longrightarrow> p = r"
proof (induction p arbitrary: r)
  case Nil
  then show ?case by (cases r) auto
next
  case (Cons q p)
  then obtain q' r' where r: "r = q' # r'" by (cases r) auto
  have "q = q' \<and> path_code p = path_code r'"
    using Cons.prems r seg_append_inject[of q q' "path_code p" "path_code r'"] by simp
  with Cons r show ?case by simp
qed

text \<open>The characters of a path name.\<close>

abbreviation path_chars :: string where
  "path_chars \<equiv> ''cellrootq_0123''"

lemma chars_Join: "valid_path p \<Longrightarrow> set (Join (map seg p) ''_'') \<subseteq> set path_chars"
proof (induction p rule: induct_list012)
  case (2 q)
  then show ?case using quadrant_cases[of q] by (auto simp: seg_values)
next
  case (3 q r p)
  then show ?case using quadrant_cases[of q] by (auto simp: seg_values)
qed simp

lemma chars_path: "valid_path p \<Longrightarrow> set (path_id p) \<subseteq> set path_chars"
  using chars_Join[of p] by (auto simp: path_id_def)

lemma char_facts:
  "c \<in> set path_chars \<Longrightarrow> to_lower c = c \<and> name_char (dash c) \<and> c \<noteq> CHR 0xC4 \<and> c \<noteq> CHR 0xE2"
proof -
  have "list_all (\<lambda>c. to_lower c = c \<and> name_char (dash c) \<and> c \<noteq> CHR 0xC4 \<and> c \<noteq> CHR 0xE2) path_chars"
    by code_simp
  then show "c \<in> set path_chars \<Longrightarrow> ?thesis" by (auto simp: list_all_iff)
qed

lemma lower_name_same:
  "\<forall>c\<in>set s. to_lower c = c \<and> c \<noteq> CHR 0xC4 \<and> c \<noteq> CHR 0xE2 \<Longrightarrow> lower_name s = s"
  by (induction s rule: lower_name.induct) auto

lemma replace_runs_same: "\<forall>c\<in>set s. name_char c \<Longrightarrow> replace_runs b s = s"
  by (induction s arbitrary: b) auto

lemma trim_dashes_same:
  assumes "s \<noteq> []" "hd s \<noteq> CHR ''-''" "last s \<noteq> CHR ''-''"
  shows "trim_dashes s = s"
proof -
  have "dropWhile (\<lambda>c. c = CHR ''-'') s = s" using assms(1,2) by (cases s) auto
  moreover have "dropWhile (\<lambda>c. c = CHR ''-'') (rev s) = rev s"
    using assms(1,3) by (cases "rev s") (auto simp: hd_rev[symmetric])
  ultimately show ?thesis by (simp add: trim_dashes_def)
qed

lemma last_path_code: "valid_path p \<Longrightarrow> p \<noteq> [] \<Longrightarrow> last (path_code p) \<noteq> CHR ''-''"
proof (induction p)
  case (Cons q p)
  then show ?case using quadrant_cases[of q] by (cases p) (auto simp: seg_values)
qed simp

lemma take_path_code:
  assumes "valid_path p" "8 < length p"
  shows "take 26 (path_code p) = path_code (take 8 p) @ ''-q''"
proof -
  obtain q r where d: "drop 8 p = q # r" using assms(2) by (metis Cons_nth_drop_Suc)
  have v: "valid_path (take 8 p)" "valid_path (q # r)"
    using assms(1) append_take_drop_id[of 8 p] d by (metis valid_path_append)+
  have "path_code p = path_code (take 8 p) @ path_code (q # r)"
    using append_take_drop_id[of 8 p] d by (metis path_code_simps(3))
  moreover have "length (path_code (take 8 p)) = 24" using length_path_code[OF v(1)] assms(2) by simp
  moreover have "take 2 (path_code (q # r)) = ''-q''" using v(2) quadrant_cases[of q] by (auto simp: seg_values)
  ultimately show ?thesis by simp
qed

lemma cell_label_path:
  assumes "valid_path p"
  shows "cell_label (path_id p) = (if p = [] then ''cell-root''
     else if length p \<le> 8 then ''cell'' @ path_code p else ''cell'' @ path_code (take 8 p) @ ''-q'')"
proof -
  have low: "lower_name (TrimSpace (path_id p)) = path_id p"
    using lower_name_same[of "path_id p"] chars_path[OF assms] char_facts trimmed_path_id[OF assms]
    by (auto simp: TrimSpace_trimmed)
  have run: "replace_runs False (map dash (path_id p)) = map dash (path_id p)"
    using chars_path[OF assms] char_facts by (intro replace_runs_same) auto
  have label: "cell_label (path_id p) = (let t = take 30 (trim_dashes (map dash (path_id p))) in if t = [] then ''auto'' else t)"
    using run unfolding cell_label_def Let_def low dash_def by simp
  show ?thesis
  proof (cases "p = []")
    case True
    have "map dash (path_id []) = ''cell-root''" by (simp add: path_id_def dash_def)
    moreover have "trim_dashes ''cell-root'' = ''cell-root''" by (simp add: trim_dashes_same)
    ultimately show ?thesis using True label by simp
  next
    case False
    have trim: "trim_dashes (''cell'' @ path_code p) = ''cell'' @ path_code p"
      using last_path_code[OF assms False] False by (intro trim_dashes_same) (auto simp: path_code_def)
    have "cell_label (path_id p) = ''cell'' @ take 26 (path_code p)"
      using label dash_path[OF assms False] trim by simp
    then show ?thesis
      using False length_path_code[OF assms] take_path_code[OF assms] by simp
  qed
qed

lemma length_neq: "length x \<noteq> length y \<Longrightarrow> x \<noteq> y"
  by auto

lemma label_not_root:
  assumes "valid_path p" "p \<noteq> []"
  shows "cell_label (path_id p) \<noteq> ''cell-root''"
proof (cases "length p \<le> 8")
  case True
  obtain q t where p: "p = q # t" using assms(2) by (cases p) auto
  then have "q = 0 \<or> q = 1 \<or> q = 2 \<or> q = 3"
    using assms(1) quadrant_cases[of q] by simp
  then have "path_code p \<noteq> ''-root''"
    unfolding p by (elim disjE) (simp_all add: seg_values)
  then show ?thesis using True assms by (simp add: cell_label_path)
next
  case False
  have "valid_path (take 8 p)"
    using assms(1) append_take_drop_id[of 8 p] by (metis valid_path_append)
  then have "length (cell_label (path_id p)) = 30"
    using False assms length_path_code[of "take 8 p"] by (simp add: cell_label_path)
  then show ?thesis by auto
qed

lemma path_names_eq:
  assumes "valid_path p" "valid_path r"
  shows "namesForCell (path_id p) = namesForCell (path_id r) \<longleftrightarrow>
     p = r \<or> 8 < length p \<and> 8 < length r \<and> take 8 p = take 8 r"
proof -
  have v: "valid_path (take 8 p)" "valid_path (take 8 r)"
    using assms append_take_drop_id[of 8 p] append_take_drop_id[of 8 r] by (metis valid_path_append)+
  have len: "length (path_code p) = 3 * length p" "length (path_code r) = 3 * length r"
      "length (path_code (take 8 p)) = 3 * min (length p) 8" "length (path_code (take 8 r)) = 3 * min (length r) 8"
    using length_path_code[OF assms(1)] length_path_code[OF assms(2)] length_path_code[OF v(1)]
      length_path_code[OF v(2)] by simp_all
  have inj: "path_code p = path_code r \<longleftrightarrow> p = r" "path_code (take 8 p) = path_code (take 8 r) \<longleftrightarrow> take 8 p = take 8 r"
    using path_code_inject[OF assms] path_code_inject[OF v] by auto
  have "cell_label (path_id p) = cell_label (path_id r) \<longleftrightarrow>
     p = r \<or> 8 < length p \<and> 8 < length r \<and> take 8 p = take 8 r"
  proof (cases "p = [] \<or> r = []")
    case True
    then show ?thesis
      using label_not_root[OF assms(1)] label_not_root[OF assms(2)] cell_label_path[of "[]"] by auto
  next
    case False
    have "path_code p \<noteq> path_code (take 8 r) @ ''-q''" if "length p \<le> 8" "8 < length r"
      by (rule length_neq) (use len that in simp)
    moreover have "path_code r \<noteq> path_code (take 8 p) @ ''-q''" if "length r \<le> 8" "8 < length p"
      by (rule length_neq) (use len that in simp)
    ultimately show ?thesis
      using False inj assms by (auto simp: cell_label_path not_le)
  qed
  then show ?thesis by (simp add: namesForCell_def)
qed

text \<open>
  C36: the controller gives each cell of the quadtree a name of its own down to depth 8. Below, the cut
  at 30 characters leaves only the first eight steps of the path: all cells under one cell of depth 8
  share one deployment and one service, the four children of a split among them.
\<close>

theorem cell_names_distinct_to_depth_8:
  assumes "valid_path p" "valid_path r"
  shows "namesForCell (path_id p) = namesForCell (path_id r) \<longleftrightarrow>
     p = r \<or> 8 < length p \<and> 8 < length r \<and> take 8 p = take 8 r"
  by (rule path_names_eq[OF assms])

theorem cell_names_distinct_to_depth_8_witness:
  "namesForCell (path_id [0, 0, 0, 0, 0, 0, 0, 0, 1]) = namesForCell (path_id [0, 0, 0, 0, 0, 0, 0, 0, 2])"
  using cell_names_distinct_to_depth_8[of "[0, 0, 0, 0, 0, 0, 0, 0, 1]" "[0, 0, 0, 0, 0, 0, 0, 0, 2]"] by simp

section \<open>The cells that run\<close>

text \<open>The cells that have been asked for and not deleted since, by name.\<close>

definition wanted :: "controller_env \<Rightarrow> string \<Rightarrow> (string \<rightharpoonup> ChildCellSpec) \<Rightarrow> (string \<rightharpoonup> ChildCellSpec)" where
  "wanted env raw m =
     (case probe_op env raw of
        None \<Rightarrow> m
      | Some opn \<Rightarrow>
          if opn = ''delete_runtime_child''
          then (case decode_delete env raw of None \<Rightarrow> m | Some del \<Rightarrow> m(TrimSpace (del_CellID del) := None))
          else (case decode_create env raw of None \<Rightarrow> m
                | Some req \<Rightarrow> if TrimSpace (cc_ID (cr_Child req)) = [] then m
                             else m(TrimSpace (cc_ID (cr_Child req)) \<mapsto> cr_Child req)))"

text \<open>The cell a message is about is in \<open>N\<close>, if it is about a cell.\<close>

definition names_in :: "controller_env \<Rightarrow> string set \<Rightarrow> string \<Rightarrow> bool" where
  "names_in env N raw \<longleftrightarrow>
     (\<forall>del. decode_delete env raw = Some del \<longrightarrow> TrimSpace (del_CellID del) \<in> insert [] N)
     \<and> (\<forall>req. decode_create env raw = Some req \<longrightarrow> TrimSpace (cc_ID (cr_Child req)) \<in> insert [] N)"

text \<open>Of the cells in \<open>N\<close> exactly those of \<open>m\<close> run, each as it was asked for.\<close>

definition runs_cells :: "controller_env \<Rightarrow> string \<Rightarrow> string set \<Rightarrow> (string \<rightharpoonup> ChildCellSpec) \<Rightarrow> Controller \<Rightarrow> bool" where
  "runs_cells env img N m k \<longleftrightarrow>
     (\<forall>i\<in>N. services k (fst (namesForCell i)) = map_option (\<lambda>_. desired_service (snd (namesForCell i))) (m i)
        \<and> deployments k (snd (namesForCell i)) = map_option (desired_deployment env (snd (namesForCell i))
            (fst (namesForCell i)) img) (m i))"

text \<open>Nothing under other names than those of the cells in \<open>N\<close> differs.\<close>

definition same_but :: "string set \<Rightarrow> Controller \<Rightarrow> Controller \<Rightarrow> bool" where
  "same_but N k k' \<longleftrightarrow>
     (\<forall>nm. nm \<notin> (fst \<circ> namesForCell) ` N \<longrightarrow> services k' nm = services k nm)
     \<and> (\<forall>nm. nm \<notin> (snd \<circ> namesForCell) ` N \<longrightarrow> deployments k' nm = deployments k nm)"

lemma same_but_trans: "same_but N k k1 \<Longrightarrow> same_but N k1 k2 \<Longrightarrow> same_but N k k2"
  by (simp add: same_but_def)

lemma api_served: "\<forall>n. api_fates env n = ApiServed \<Longrightarrow> api env f k = f (k\<lparr>api_calls := Suc (api_calls k)\<rparr>)"
  by (simp add: api_def)

lemma redis_set_frame:
  "services (redis_set env i v k) = services k" "deployments (redis_set env i v k) = deployments k"
  by (simp_all add: redis_set_def Let_def split: option.split)

lemma publish_frame:
  "services (publishCellLifecycle env ev k) = services k" "deployments (publishCellLifecycle env ev k) = deployments k"
  by (simp_all add: publishCellLifecycle_def Let_def)

lemma service_ensured:
  assumes "\<forall>n. api_fates env n = ApiServed"
  obtains k' where "ensureCellService env svc dep k = (Inr (), k')"
    "services k' = (services k)(svc \<mapsto> desired_service dep)" "deployments k' = deployments k"
proof (cases "services k svc")
  case None
  show ?thesis
    by (rule that[of "k\<lparr>api_calls := Suc (Suc (api_calls k)), services := (services k)(svc \<mapsto> desired_service dep)\<rparr>"])
      (simp_all add: ensureCellService_def api_served[OF assms] get_from_def put_service_def None)
next
  case (Some cur)
  have same: "cur\<lparr>svc_Labels := svc_Labels (desired_service dep), svc_Selector := svc_Selector (desired_service dep),
      svc_Ports := svc_Ports (desired_service dep)\<rparr> = desired_service dep"
    by (simp add: desired_service_def)
  show ?thesis
    by (rule that[of "k\<lparr>api_calls := Suc (Suc (api_calls k)), services := (services k)(svc \<mapsto> desired_service dep)\<rparr>"])
      (simp_all add: ensureCellService_def api_served[OF assms] get_from_def put_service_def Some same)
qed

lemma deployment_ensured:
  assumes "\<forall>n. api_fates env n = ApiServed"
  obtains k' where "ensureCellDeployment env dep svc img ch k = (Inr (), k')"
    "deployments k' = (deployments k)(dep \<mapsto> desired_deployment env dep svc img ch)" "services k' = services k"
proof -
  let ?k' = "k\<lparr>api_calls := Suc (Suc (api_calls k)),
      deployments := (deployments k)(dep \<mapsto> desired_deployment env dep svc img ch)\<rparr>"
  show ?thesis
    by (rule that[of ?k'])
      (simp_all add: ensureCellDeployment_def api_served[OF assms] get_from_def put_deployment_def Let_def split: option.split)
qed

lemma image_found:
  assumes "\<forall>n. api_fates env n = ApiServed"
  shows "services (snd (resolveCellImage env k)) = services k" "deployments (snd (resolveCellImage env k)) = deployments k"
    and "deployments k' ''cell-node'' = deployments k ''cell-node'' \<Longrightarrow>
      fst (resolveCellImage env k') = fst (resolveCellImage env k)"
  using assms by (auto simp: resolveCellImage_def api_served get_from_def split: option.split list.split)

text \<open>No cell has the deployment the image is taken from.\<close>

lemma cell_node_apart: "''cell-node'' \<notin> (snd \<circ> namesForCell) ` N"
  by (auto simp: namesForCell_def)

lemma created_cell:
  assumes "\<forall>n. api_fates env n = ApiServed" "fst (resolveCellImage env k) = Inr img" "TrimSpace (cc_ID (cr_Child req)) \<noteq> []"
    and "namesForCell (cc_ID (cr_Child req)) = (svc, dep)"
  shows "services (handleControlEvent env req k) = (services k)(svc \<mapsto> desired_service dep)"
    "deployments (handleControlEvent env req k) = (deployments k)(dep \<mapsto> desired_deployment env dep svc img (cr_Child req))"
proof -
  obtain k0 where k0: "resolveCellImage env k = (Inr img, k0)" "services k0 = services k" "deployments k0 = deployments k"
    using assms(2) image_found(1,2)[OF assms(1), of k] by (cases "resolveCellImage env k") simp
  obtain k1 where k1: "ensureCellService env svc dep k0 = (Inr (), k1)"
      "services k1 = (services k0)(svc \<mapsto> desired_service dep)" "deployments k1 = deployments k0"
    by (rule service_ensured[OF assms(1)])
  obtain k2 where k2: "ensureCellDeployment env dep svc img (cr_Child req) k1 = (Inr (), k2)"
      "deployments k2 = (deployments k1)(dep \<mapsto> desired_deployment env dep svc img (cr_Child req))"
      "services k2 = services k1"
    by (rule deployment_ensured[OF assms(1)])
  show "services (handleControlEvent env req k) = (services k)(svc \<mapsto> desired_service dep)"
    "deployments (handleControlEvent env req k) = (deployments k)(dep \<mapsto> desired_deployment env dep svc img (cr_Child req))"
    using assms(3,4) k0 k1 k2 by (simp_all add: handleControlEvent_def Let_def redis_set_frame publish_frame)
qed

lemma deleted_cell:
  assumes "\<forall>n. api_fates env n = ApiServed" "TrimSpace (del_CellID del) \<noteq> []"
    and "namesForCell (TrimSpace (del_CellID del)) = (svc, dep)"
  shows "services (handleRuntimeCellDelete env del k) = (services k)(svc := None)"
    "deployments (handleRuntimeCellDelete env del k) = (deployments k)(dep := None)"
  using assms
  by (simp_all add: handleRuntimeCellDelete_def Let_def api_served delete_service_def delete_deployment_def
      redis_set_frame publish_frame fun_upd_idem)

lemma namesForCell_trim: "namesForCell (TrimSpace i) = namesForCell i"
  by (simp add: namesForCell_def cell_label_def TrimSpace_idem)

lemma names_differ:
  "inj_on namesForCell N \<Longrightarrow> i \<in> N \<Longrightarrow> j \<in> N \<Longrightarrow> i \<noteq> j \<Longrightarrow>
   fst (namesForCell i) \<noteq> fst (namesForCell j) \<and> snd (namesForCell i) \<noteq> snd (namesForCell j)"
  by (auto simp: inj_on_def namesForCell_def)

lemma runs_cells_step:
  assumes "\<forall>n. api_fates env n = ApiServed" "fst (resolveCellImage env k) = Inr img"
    and N: "inj_on namesForCell N" "[] \<notin> N" and "names_in env N raw" and runs: "runs_cells env img N m k"
  shows "runs_cells env img N (wanted env raw m) (handleControlMessage env raw k) \<and>
    same_but N k (handleControlMessage env raw k)"
proof -
  have create: "runs_cells env img N (m(i \<mapsto> cr_Child req)) (handleControlEvent env req k) \<and> same_but N k (handleControlEvent env req k)"
    if "i = TrimSpace (cc_ID (cr_Child req))" "i \<in> N" for i req
  proof -
    obtain svc dep where nm: "namesForCell i = (svc, dep)" by fastforce
    then have nm': "namesForCell (cc_ID (cr_Child req)) = (svc, dep)" using that(1) namesForCell_trim by metis
    have "i \<noteq> []" using that(2) N(2) by auto
    note c = created_cell[OF assms(1,2) _ nm']
    have "svc \<in> (fst \<circ> namesForCell) ` N" "dep \<in> (snd \<circ> namesForCell) ` N"
      using nm that(2) by (force simp: image_iff)+
    then have "same_but N k (handleControlEvent env req k)"
      using c that(1) \<open>i \<noteq> []\<close> by (auto simp: same_but_def)
    moreover have "runs_cells env img N (m(i \<mapsto> cr_Child req)) (handleControlEvent env req k)"
      using runs c that names_differ[OF N(1) _ that(2)] nm \<open>i \<noteq> []\<close>
      unfolding runs_cells_def by (auto simp: fun_upd_apply)
    ultimately show ?thesis by simp
  qed
  have delete: "runs_cells env img N (m(i := None)) (handleRuntimeCellDelete env del k) \<and> same_but N k (handleRuntimeCellDelete env del k)"
    if "i = TrimSpace (del_CellID del)" "i \<in> N" for i del
  proof -
    obtain svc dep where nm: "namesForCell i = (svc, dep)" by fastforce
    have "i \<noteq> []" using that(2) N(2) by auto
    note d = deleted_cell[OF assms(1) _ nm[unfolded that(1)], of k]
    have "svc \<in> (fst \<circ> namesForCell) ` N" "dep \<in> (snd \<circ> namesForCell) ` N"
      using nm that(2) by (force simp: image_iff)+
    then have "same_but N k (handleRuntimeCellDelete env del k)"
      using d that(1) \<open>i \<noteq> []\<close> by (auto simp: same_but_def)
    moreover have "runs_cells env img N (m(i := None)) (handleRuntimeCellDelete env del k)"
      using runs d that names_differ[OF N(1) _ that(2)] nm \<open>i \<noteq> []\<close>
      unfolding runs_cells_def by (auto simp: fun_upd_apply)
    ultimately show ?thesis by simp
  qed
  have same: "runs_cells env img N m k \<and> same_but N k k" using runs by (simp add: same_but_def)
  have blank: "handleRuntimeCellDelete env del k = k" if "TrimSpace (del_CellID del) = []" for del
    using that by (simp add: handleRuntimeCellDelete_def Let_def split: prod.split)
  have blank': "handleControlEvent env req k = k" if "TrimSpace (cc_ID (cr_Child req)) = []" for req
    using that by (simp add: handleControlEvent_def Let_def split: prod.split)
  have none: "runs_cells env img N (m([] := None)) k" using runs N(2) by (auto simp: runs_cells_def)
  show ?thesis
    using same none blank blank' create delete assms(5) N(2)
    by (auto simp: wanted_def handleControlMessage_def names_in_def split: option.split)
qed

lemma runs_cells_fold:
  assumes "\<forall>n. api_fates env n = ApiServed" "inj_on namesForCell N" "[] \<notin> N"
  shows "fst (resolveCellImage env k) = Inr img \<Longrightarrow> \<forall>raw\<in>set raws. names_in env N raw \<Longrightarrow> runs_cells env img N m k \<Longrightarrow>
    runs_cells env img N (fold (wanted env) raws m) (fold (handleControlMessage env) raws k) \<and>
    same_but N k (fold (handleControlMessage env) raws k)"
proof (induction raws arbitrary: m k)
  case (Cons raw raws)
  let ?k = "handleControlMessage env raw k"
  have s: "runs_cells env img N (wanted env raw m) ?k" "same_but N k ?k"
    using runs_cells_step[OF assms(1) Cons.prems(1) assms(2,3)] Cons.prems(2,3) by simp_all
  have "fst (resolveCellImage env ?k) = Inr img"
    using image_found(3)[OF assms(1), of ?k k] s(2) cell_node_apart[of N] Cons.prems(1) by (simp add: same_but_def)
  from Cons.IH[OF this _ s(1)] Cons.prems(2) same_but_trans[OF s(2)] show ?case by auto
qed (simp add: same_but_def)

lemma shallow_names:
  "inj_on namesForCell (path_id ` {p. valid_path p \<and> length p \<le> 8})"
  "[] \<notin> path_id ` {p. valid_path p \<and> length p \<le> 8}"
  using path_names_eq by (auto simp: inj_on_def) (simp add: path_id_def)

text \<open>
  C35: as long as the requests to the cluster are served and the image of the cells is known, from the
  environment or from the deployment \<open>cell-node\<close>, the cluster runs exactly the cells that were asked for
  and not deleted since. Let \<open>N\<close> be any set of cells with names of their own (by C36 all cells of the
  quadtree to depth 8, or fewer of the deeper ones), of which those in \<open>m\<close> run at the start. After any
  sequence of messages about them, in any order and however often repeated, a cell of \<open>N\<close> has its
  service, and its deployment with the level and bounds of the last request, if it was asked for after
  it was last deleted, or ran at the start and was not mentioned; otherwise it has neither. No service and
  no deployment under another name has changed.
\<close>

theorem controller_runs_wanted_cells:
  assumes "\<forall>n. api_fates env n = ApiServed" "fst (resolveCellImage env k) = Inr img"
    and "inj_on namesForCell N" "[] \<notin> N" "\<forall>raw\<in>set raws. names_in env N raw"
    and "runs_cells env img N m k"
  shows "runs_cells env img N (fold (wanted env) raws m) (fold (handleControlMessage env) raws k) \<and>
    same_but N k (fold (handleControlMessage env) raws k)"
  by (rule runs_cells_fold[OF assms(1,3,4,2,5,6)])

definition demo_create :: ChildCellCreateRequest where
  "demo_create = \<lparr>cr_ParentCellID = ''cell_root'', cr_RequestID = [],
     cr_Child = \<lparr>cc_ID = ''cell_q1'', cc_Level = 1, cc_XMin = Fin 0, cc_XMax = Fin 1000, cc_ZMin = Fin (-1000), cc_ZMax = Fin 0\<rparr>\<rparr>"

definition demo_delete :: RuntimeCellDeleteRequest where
  "demo_delete = \<lparr>del_CellID = ''cell_root'', del_Reason = ''split''\<rparr>"

definition demo_controller_env :: controller_env where
  "demo_controller_env = \<lparr>api_fates = (\<lambda>n. ApiServed), api_text = (\<lambda>e. []), redis_up = None, bus_up = (\<lambda>n. True),
     unix_ms = (\<lambda>n. 0), MMO_CELL_IMAGE = ''mmo'', kube_ns = ''mmo'', format_g = (\<lambda>x. ''0''),
     probe_op = (\<lambda>raw. Some (if raw = ''delete'' then ''delete_runtime_child'' else [])),
     decode_delete = (\<lambda>raw. if raw = ''delete'' then Some demo_delete else None),
     decode_create = (\<lambda>raw. if raw = ''create'' then Some demo_create else None),
     decode_event = (\<lambda>raw. None)\<rparr>"

definition root_spec :: ChildCellSpec where
  "root_spec = \<lparr>cc_ID = ''cell_root'', cc_Level = 0, cc_XMin = Fin (-1000), cc_XMax = Fin 1000, cc_ZMin = Fin (-1000), cc_ZMax = Fin 1000\<rparr>"

text \<open>The root cell runs, next to a deployment that is not the controller's.\<close>

definition demo_controller :: Controller where
  "demo_controller = \<lparr>services = [''mmo-cell-auto-cell-root'' \<mapsto> desired_service ''cell-node-auto-cell-root''],
     deployments = [''cell-node-auto-cell-root'' \<mapsto> desired_deployment demo_controller_env ''cell-node-auto-cell-root''
         ''mmo-cell-auto-cell-root'' ''mmo'' root_spec, ''gateway'' \<mapsto> \<lparr>dep_Labels = Map.empty, dep_Replicas = 2, dep_Containers = []\<rparr>],
     api_calls = 0, redis = Map.empty, redis_calls = 0, lifecycle = [], publishes = 0\<rparr>"

theorem controller_runs_wanted_cells_witness:
  "let k = fold (handleControlMessage demo_controller_env) [''create'', ''delete''] demo_controller in
   deployments k ''cell-node-auto-cell-q1'' =
     Some (desired_deployment demo_controller_env ''cell-node-auto-cell-q1'' ''mmo-cell-auto-cell-q1'' ''mmo'' (cr_Child demo_create))
   \<and> deployments k ''cell-node-auto-cell-root'' = None \<and> services k ''mmo-cell-auto-cell-root'' = None
   \<and> deployments k ''gateway'' = deployments demo_controller ''gateway''"
proof -
  let ?N = "path_id ` {p. valid_path p \<and> length p \<le> 8}" and ?m = "[''cell_root'' \<mapsto> root_spec]"
  have name: "path_id [1] = ''cell_q1''" "path_id [] = ''cell_root''"
    by (simp_all add: path_id_def seg_values)
  have "path_id [1] \<in> ?N" "path_id [] \<in> ?N" by (auto intro!: imageI)
  then have id: "''cell_q1'' \<in> ?N" "''cell_root'' \<in> ?N" by (simp_all only: name)
  have trims: "TrimSpace ''cell_q1'' = ''cell_q1''" "TrimSpace ''cell_root'' = ''cell_root''" "TrimSpace ''mmo'' = ''mmo''"
    by (simp_all add: TrimSpace_trimmed trimmedI ascii_graph_def)
  have nm: "namesForCell ''cell_q1'' = (''mmo-cell-auto-cell-q1'', ''cell-node-auto-cell-q1'')"
      "namesForCell ''cell_root'' = (''mmo-cell-auto-cell-root'', ''cell-node-auto-cell-root'')"
    using cell_label_path[of "[1]"] cell_label_path[of "[]"] by (simp_all add: name namesForCell_def seg_values)
  have msg: "\<forall>raw\<in>set [''create'', ''delete'']. names_in demo_controller_env ?N raw"
    using id trims by (simp add: names_in_def demo_controller_env_def demo_create_def demo_delete_def)
  have served: "\<forall>n. api_fates demo_controller_env n = ApiServed"
    "fst (resolveCellImage demo_controller_env demo_controller) = Inr ''mmo''"
    by (simp_all add: demo_controller_env_def resolveCellImage_def trims)
  have start: "runs_cells demo_controller_env ''mmo'' ?N ?m demo_controller"
    unfolding runs_cells_def
  proof
    fix i assume i: "i \<in> ?N"
    show "services demo_controller (fst (namesForCell i)) = map_option (\<lambda>_. desired_service (snd (namesForCell i))) (?m i)
        \<and> deployments demo_controller (snd (namesForCell i)) = map_option (desired_deployment demo_controller_env
            (snd (namesForCell i)) (fst (namesForCell i)) ''mmo'') (?m i)"
    proof (cases "i = ''cell_root''")
      case True
      then show ?thesis by (simp add: nm demo_controller_def)
    next
      case False
      then show ?thesis
        using names_differ[OF shallow_names(1) i id(2)] nm(2) by (auto simp: demo_controller_def namesForCell_def)
    qed
  qed
  have want: "fold (wanted demo_controller_env) [''create'', ''delete''] ?m = [''cell_q1'' \<mapsto> cr_Child demo_create]"
    by (auto simp: wanted_def demo_controller_env_def demo_create_def demo_delete_def trims)
  have "''gateway'' \<notin> (snd \<circ> namesForCell) ` ?N" by (auto simp: namesForCell_def)
  then show ?thesis
    using controller_runs_wanted_cells[OF served shallow_names msg start] id nm unfolding want
    by (force simp: Let_def runs_cells_def same_but_def)
qed

end
