(* ===== verification/Cell_Node.thy ===== *)
theory Cell_Node
  imports Gateway_Switch
begin

text \<open>
  The cell node (\<open>src/cmd/cell-node/main.go\<close>, \<open>persist.go\<close>): how a cell starts from its flags and from
  the state kept in Redis, how it registers, and what it leaves behind when it is stopped. Flags are
  given parsed, listening and the loops that run until the node is stopped are left out.
\<close>

section \<open>The persisted state\<close>

text \<open>
  \<open>redis_set_up\<close> says whether an address is configured; a read or a write may fail. The encoding of
  messages is a parameter.
\<close>

record node_env =
  redis_set_up :: bool
  redis_reads :: bool
  redis_writes :: bool
  proto_marshal :: "CellPersist \<Rightarrow> string option"
  proto_unmarshal :: "string \<Rightarrow> CellPersist option"

type_synonym state_store = "string \<rightharpoonup> string"

definition redisStateKey :: "string \<Rightarrow> string" where
  "redisStateKey cellID = ''mmo:cell:'' @ cellID @ '':state''"

definition loadPersistedState :: "node_env \<Rightarrow> state_store \<Rightarrow> string \<Rightarrow> Entity list \<Rightarrow> Runtime \<Rightarrow> bool \<times> Runtime" where
  "loadPersistedState env kv skey order sim =
     (if \<not> redis_set_up env \<or> \<not> redis_reads env then (False, sim)
      else case kv skey of
        None \<Rightarrow> (False, sim)
      | Some b \<Rightarrow>
          (case proto_unmarshal env b of
             None \<Rightarrow> (False, sim)
           | Some p \<Rightarrow>
               (case Decode order (Some p) (Some sim) of
                  Inl _ \<Rightarrow> (False, sim)
                | Inr sim' \<Rightarrow> (True, sim'))))"

definition savePersistedState :: "node_env \<Rightarrow> state_store \<Rightarrow> string \<Rightarrow> Entity list \<Rightarrow> Runtime \<Rightarrow> Server \<Rightarrow> state_store" where
  "savePersistedState env kv skey order sim cellSvc =
     (if \<not> redis_set_up env then kv
      else case proto_marshal env (Encode order (Some sim) (Some (isPlayer cellSvc))) of
        None \<Rightarrow> kv
      | Some b \<Rightarrow> if redis_writes env then kv(skey \<mapsto> b) else kv)"

definition tryLoadAndMaybeSpawnNPCs :: "node_env \<Rightarrow> state_store \<Rightarrow> string \<Rightarrow> Entity list \<Rightarrow> Runtime \<Rightarrow> int \<Rightarrow> bool \<Rightarrow>
    bool \<times> Runtime" where
  "tryLoadAndMaybeSpawnNPCs env kv skey order sim demoNPCs usePersist =
     (if \<not> usePersist \<or> \<not> redis_set_up env
      then (False, if demoNPCs > 0 then SpawnDemoNPCs demoNPCs sim else sim)
      else (case loadPersistedState env kv skey order sim of
              (True, sim') \<Rightarrow> (True, sim')
            | (False, sim') \<Rightarrow> (False, if demoNPCs > 0 then SpawnDemoNPCs demoNPCs sim' else sim')))"

definition saveOnShutdown :: "node_env \<Rightarrow> state_store \<Rightarrow> string \<Rightarrow> Entity list \<Rightarrow> Runtime \<Rightarrow> Server \<Rightarrow> bool \<Rightarrow> state_store" where
  "saveOnShutdown env kv skey order sim cellSvc usePersist =
     (if \<not> usePersist \<or> \<not> redis_set_up env then kv else savePersistedState env kv skey order sim cellSvc)"

section \<open>Starting and stopping\<close>

record node_options =
  opt_ID :: string
  opt_Level :: int
  opt_XMin :: f64
  opt_XMax :: f64
  opt_ZMin :: f64
  opt_ZMax :: f64
  opt_DemoNPCs :: int
  opt_Persist :: bool
  opt_Advertise :: string
  env_Advertise :: string
  env_Endpoint :: string

definition grpcEndpointForRegistry :: "node_options \<Rightarrow> string \<Rightarrow> string" where
  "grpcEndpointForRegistry opts listenAddr =
     (case filter (\<lambda>s. s \<noteq> []) (map TrimSpace [opt_Advertise opts, env_Advertise opts, env_Endpoint opts]) of
        [] \<Rightarrow> listenAddr
      | s # _ \<Rightarrow> s)"

datatype node_exit = Exit int string

definition node_bounds :: "node_options \<Rightarrow> Bounds" where
  "node_bounds opts = \<lparr>XMin = opt_XMin opts, XMax = opt_XMax opts, ZMin = opt_ZMin opts, ZMax = opt_ZMax opts\<rparr>"

text \<open>The cell to register and the server, before it serves anybody.\<close>

definition node_start :: "node_env \<Rightarrow> node_options \<Rightarrow> string \<Rightarrow> state_store \<Rightarrow> node_exit + CellSpec \<times> Server" where
  "node_start env opts listenAddr kv =
     (if opt_ID opts = [] then Inl (Exit 2 ''cell-node: -id is required'')
      else if fle (opt_XMax opts) (opt_XMin opts) \<or> fle (opt_ZMax opts) (opt_ZMin opts)
      then Inl (Exit 1 ''invalid bounds'')
      else
        (let usePersist = opt_Persist opts \<and> redis_set_up env;
             (_, sim) = tryLoadAndMaybeSpawnNPCs env kv (redisStateKey (opt_ID opts)) [] NewRuntime
               (opt_DemoNPCs opts) usePersist
         in Inr (\<lparr>cs_Id = opt_ID opts, cs_Level = to_int32 (opt_Level opts), cs_Bounds = Some (node_bounds opts),
                  cs_GrpcEndpoint = grpcEndpointForRegistry opts listenAddr\<rparr>,
                 new_server (opt_ID opts) (Some (node_bounds opts)) (to_int32 (opt_Level opts)) sim)))"

text \<open>
  The registration at the grid manager: the answer is dropped, only an error of the call is fatal.
  With Consul the node registers itself, and any error is fatal.
\<close>

definition node_register :: "('c, 'y) env_scheme \<Rightarrow> string \<Rightarrow> 'c Catalog \<Rightarrow> CellSpec \<Rightarrow> (unit, ('c, 'z) Grid_scheme) op" where
  "node_register env addr cat spec =
     andThen (registry_call env addr (\<lambda>g. let (resp, g') = Registry_Register cat (Some spec) g in (Inr resp, g')))
       (\<lambda>resp. give ())"

definition node_register_consul :: "(f64 \<Rightarrow> string) \<Rightarrow> string \<Rightarrow> 'a consul_client \<Rightarrow> CellSpec \<Rightarrow> 'a \<Rightarrow>
    consul_error option \<times> 'a" where
  "node_register_consul fmt hostname client spec = ConsulCatalog_RegisterCell fmt hostname client (Some spec)"

text \<open>Stopping saves the state and takes the node out of Consul, where one is configured; an error of
  that is only logged.\<close>

definition node_stop :: "node_env \<Rightarrow> node_options \<Rightarrow> string \<Rightarrow> 'a consul_client option \<Rightarrow> Entity list \<Rightarrow> Server \<Rightarrow>
    state_store \<Rightarrow> 'a \<Rightarrow> state_store \<times> 'a" where
  "node_stop env opts hostname oclient order s kv a =
     (case Sim s of
        None \<Rightarrow> (kv, a)
      | Some sim \<Rightarrow>
          (saveOnShutdown env kv (redisStateKey (opt_ID opts)) order sim s (opt_Persist opts \<and> redis_set_up env),
           case oclient of
             None \<Rightarrow> a
           | Some client \<Rightarrow> snd (ConsulCatalog_Deregister client (ConsulServiceInstanceID hostname (opt_ID opts)) a)))"

section \<open>A restart\<close>

text \<open>
  C37: a cell that is stopped and started again has the NPCs it had: the same entities at the same
  positions, velocities and health, in \<open>float32\<close>, at the same tick; the players are gone. The
  encoding of the message only has to be one that decodes to what was encoded.
\<close>

theorem restart_keeps_npcs:
  assumes "redis_set_up env" "redis_reads env" "redis_writes env" "opt_Persist opts" "opt_ID opts \<noteq> []"
    and "\<not> fle (opt_XMax opts) (opt_XMin opts)" "\<not> fle (opt_ZMax opts) (opt_ZMin opts)"
    and "Sim s = Some r" "world_inv (world r)" "visits order (alive (world r))" "has_room s"
    and "proto_marshal env (Encode order (Some r) (Some (isPlayer s))) = Some b"
    and "proto_unmarshal env b = Some (Encode order (Some r) (Some (isPlayer s)))"
    and "node_stop env opts hostname client order s kv a = (kv', a')"
  shows "\<exists>spec s' r'. node_start env opts listenAddr kv' = Inr (spec, s') \<and> Sim s' = Some r' \<and>
    TickCount (loop r') = TickCount (loop r) \<and> image_of (world r) (isPlayer s) (world r') \<and>
    players s' = {} \<and> playerByID s' = Map.empty \<and> server_inv s'"
proof -
  let ?p = "Encode order (Some r) (Some (isPlayer s))" and ?key = "redisStateKey (opt_ID opts)"
  have kv': "kv' ?key = Some b"
    using assms by (auto simp: node_stop_def saveOnShutdown_def savePersistedState_def)
  have fresh: "world_inv (world NewRuntime)" "visits [] (alive (world NewRuntime))"
    by (simp_all add: world_inv_NewRuntime) (simp add: NewRuntime_def NewWorld_def visits_def)
  obtain r' where dec: "Decode [] (Some ?p) (Some NewRuntime) = Inr r'" "TickCount (loop r') = TickCount (loop r)"
      "image_of (world r) (isPlayer s) (world r')"
    using Decode_image[OF assms(9,10) fresh, of "isPlayer s"] by blast
  have "tryLoadAndMaybeSpawnNPCs env kv' ?key [] NewRuntime (opt_DemoNPCs opts) True = (True, r')"
    using assms(1,2,13) kv' dec(1) by (simp add: tryLoadAndMaybeSpawnNPCs_def loadPersistedState_def)
  then have start: "node_start env opts listenAddr kv' = Inr
      (\<lparr>cs_Id = opt_ID opts, cs_Level = to_int32 (opt_Level opts), cs_Bounds = Some (node_bounds opts),
        cs_GrpcEndpoint = grpcEndpointForRegistry opts listenAddr\<rparr>,
       new_server (opt_ID opts) (Some (node_bounds opts)) (to_int32 (opt_Level opts)) r')"
    using assms(1,4-7) by (simp add: node_start_def)
  have small: "pe_EntityId x < - 1" if "Some x \<in> set (Entities ?p)" for x
  proof -
    from that obtain e where "e \<in> set order" "encode_entity (world r) (Some (isPlayer s)) e = Some x"
      by (auto simp: Encode_def List.map_filter_def)
    then have "pe_EntityId x \<in> alive (world r)"
      using encode_entity_id visits_set[OF assms(10)] by metis
    then have "pe_EntityId x \<le> nextID (world r)" using assms(9) by (auto simp: world_inv_def)
    then show ?thesis using assms(8,11) by (simp add: has_room_def room_def)
  qed
  have "world_inv (world r')"
    by (rule Decode_inv[OF fresh dec(1) small])
  then show ?thesis
    using start dec(2,3) server_inv_new by (auto simp: new_server_def)
qed

text \<open>A node with one NPC; its messages are encoded as one letter.\<close>

definition npc_runtime :: Runtime where
  "npc_runtime = NewRuntime\<lparr>world := sample_world\<rparr>"

definition npc_server :: Server where
  "npc_server = new_server ''root'' None 0 npc_runtime"

definition demo_node_env :: node_env where
  "demo_node_env = \<lparr>redis_set_up = True, redis_reads = True, redis_writes = True, proto_marshal = (\<lambda>p. Some ''s''),
     proto_unmarshal = (\<lambda>b. Some (Encode [1, 2] (Some npc_runtime) (Some (isPlayer npc_server))))\<rparr>"

definition demo_options :: node_options where
  "demo_options = \<lparr>opt_ID = ''root'', opt_Level = 0, opt_XMin = Fin (-1000), opt_XMax = Fin 1000, opt_ZMin = Fin (-1000),
     opt_ZMax = Fin 1000, opt_DemoNPCs = 0, opt_Persist = True, opt_Advertise = [], env_Advertise = [], env_Endpoint = []\<rparr>"

theorem restart_keeps_npcs_witness:
  "\<exists>spec s' r'. node_start demo_node_env demo_options ''addr''
      (fst (node_stop demo_node_env demo_options ''h'' None [1, 2] npc_server Map.empty ())) = Inr (spec, s')
    \<and> Sim s' = Some r' \<and> alive (world r') = {1}"
proof -
  have "visits [1, 2] (alive sample_world)" by (auto simp: visits_def)
  moreover obtain kv' a' where stop: "node_stop demo_node_env demo_options ''h'' None [1, 2] npc_server Map.empty () = (kv', a')"
    by (rule prod.exhaust)
  ultimately have "\<exists>spec s' r'. node_start demo_node_env demo_options ''addr'' kv' = Inr (spec, s') \<and> Sim s' = Some r' \<and>
      TickCount (loop r') = TickCount (loop npc_runtime) \<and>
      image_of (world npc_runtime) (isPlayer npc_server) (world r') \<and>
      players s' = {} \<and> playerByID s' = Map.empty \<and> server_inv s'"
    by (intro restart_keeps_npcs[where b = "''s''" and s = npc_server, OF _ _ _ _ _ _ _ _ _ _ _ _ _ stop])
       (simp_all add: demo_node_env_def demo_options_def npc_server_def npc_runtime_def new_server_def
         sample_world_inv has_room_def room_def)
  moreover have "saved (world npc_runtime) (isPlayer npc_server) = {1}"
    by (auto simp: saved_def npc_runtime_def npc_server_def new_server_def isPlayer_def NewWorld_def)
  ultimately show ?thesis by (auto simp: stop image_of_def)
qed

section \<open>A registration that is refused\<close>

text \<open>
  A node whose registration the grid manager refuses starts all the same, as if it were
  registered: the answer is not looked at, and the catalog does not have the cell.
\<close>

theorem refused_registration_is_ignored:
  assumes "turns g = []" "dial_error env addr = None" "RegisterCell cat (Some spec) (reg g) = Inl err"
  shows "node_register env addr cat spec g = (Inr (), g)"
  using assms by (simp add: node_register_def andThen_def registry_call_quiet Registry_Register_def give_def)

text \<open>A manager whose catalog is Consul, with an agent that does not answer.\<close>

theorem refused_registration_is_ignored_witness:
  "node_register demo_env ''manager''
     (MemoryCatalog (\<lambda>m. [])\<lparr>RegisterCell := (\<lambda>spec m. Inl ''agent unreachable'')\<rparr>) (demo_cell ''cell_2_0_0'') (demo_grid []) =
     (Inr (), demo_grid [])"
  by (rule refused_registration_is_ignored[where err = "''agent unreachable''"])
     (simp_all add: demo_grid_def demo_env_def)

end
