(* ===== verification/Env_Config.thy ===== *)
theory Env_Config
  imports Consul_Catalog Merge_Handoff
begin

text \<open>
  The settings of the infrastructure (\<open>src/internal/config/config.go\<close>,
  \<open>src/internal/normalize/consul_http.go\<close>). The environment is a function, empty where a variable is
  not set. Of \<open>net/url\<close> the escaping and the text of an address are modelled; reading an address as a
  whole is a parameter.
\<close>

section \<open>The text of an address\<close>

datatype url_mode = UserPassword | HostPart

definition shouldEscape :: "url_mode \<Rightarrow> char \<Rightarrow> bool" where
  "shouldEscape mode c =
     (let n = (of_char c :: nat)
      in if 97 \<le> n \<and> n \<le> 122 \<or> 65 \<le> n \<and> n \<le> 90 \<or> 48 \<le> n \<and> n \<le> 57 then False
         else if mode = HostPart \<and> (c \<in> set ''!$&()*+,;=:[]<>'' \<or> c = CHR 0x27 \<or> c = CHR 0x22) then False
         else if c \<in> set ''-_.~'' then False
         else if mode = UserPassword \<and> c \<in> set ''$&+,/:;=?@'' then c \<in> set ''@/?:''
         else True)"

definition upperhex :: "nat \<Rightarrow> char" where
  "upperhex d = char_of (if d < 10 then 48 + d else 55 + d)"

fun escape :: "url_mode \<Rightarrow> string \<Rightarrow> string" where
  "escape mode [] = []"
| "escape mode (c # s) =
     (if shouldEscape mode c
      then CHR ''%'' # upperhex (of_char c div 16) # upperhex (of_char c mod 16) # escape mode s
      else c # escape mode s)"

definition userinfo_text :: "string \<Rightarrow> string option \<Rightarrow> string" where
  "userinfo_text user pass =
     (if user = [] \<and> (pass = None \<or> pass = Some []) then []
      else escape UserPassword user @ (case pass of None \<Rightarrow> [] | Some p \<Rightarrow> CHR '':'' # escape UserPassword p))"

text \<open>\<open>URL.String\<close> of an address that has a scheme, perhaps a user, and a host.\<close>

definition url_text :: "string \<Rightarrow> (string \<times> string option) option \<Rightarrow> string \<Rightarrow> string" where
  "url_text scheme user host =
     scheme @ ''://'' @ (case user of None \<Rightarrow> [] | Some (u, p) \<Rightarrow> userinfo_text u p @ ''@'') @ escape HostPart host"

section \<open>The settings\<close>

record Config =
  GatewaySkipDBMigrations :: bool
  ConsulHTTPAddr :: string
  ConsulDNSAddr :: string
  ConsulHTTPToken :: string
  NATSURL :: string
  DatabaseURLRW :: string
  cfg_RedisAddr :: string
  cfg_RedisPassword :: string
  HarborRegistry :: string
  HarborUser :: string
  HarborPassword :: string
  CellGRPCAdvertise :: string

definition config_firstNonEmpty :: "string \<Rightarrow> string \<Rightarrow> string" where
  "config_firstNonEmpty a b = (if TrimSpace a \<noteq> [] then TrimSpace a else TrimSpace b)"

definition last_byte :: "string \<Rightarrow> char \<Rightarrow> nat option" where
  "last_byte s c = find (\<lambda>i. s ! i = c) (rev [0..<length s])"

definition nats_scheme :: "string \<Rightarrow> (string \<times> string) option" where
  "nats_scheme raw =
     (if prefix ''nats://'' raw then Some (''nats'', drop 7 raw)
      else if prefix ''tls://'' raw then Some (''tls'', drop 6 raw)
      else None)"

definition normalizeNATSURL :: "string \<Rightarrow> string" where
  "normalizeNATSURL raw0 =
     (let raw = TrimSpace raw0
      in case nats_scheme raw of
           None \<Rightarrow> raw
         | Some (scheme, rest) \<Rightarrow>
             (case last_byte rest (CHR ''@'') of
                None \<Rightarrow> raw
              | Some i \<Rightarrow>
                  (let userinfo = take i rest; hostport = drop (i + 1) rest
                   in if hostport = [] then raw
                      else url_text scheme
                        (case index_byte userinfo (CHR '':'') of
                           None \<Rightarrow> if userinfo \<noteq> [] then Some (userinfo, None) else None
                         | Some k \<Rightarrow> if k = 0 then Some ([], Some (drop 1 userinfo))
                                     else Some (take k userinfo, Some (drop (k + 1) userinfo))) hostport)))"

definition natsURLFromEnv :: "(string \<Rightarrow> string) \<Rightarrow> string" where
  "natsURLFromEnv env =
     (if TrimSpace (env ''NATS_URL'') \<noteq> [] then normalizeNATSURL (TrimSpace (env ''NATS_URL''))
      else if env ''NATS_HOST'' = [] \<or> env ''NATS_PORT'' = [] then []
      else url_text ''nats''
        (if env ''NATS_USER'' = [] then None
         else Some (env ''NATS_USER'', if env ''NATS_PASSWORD'' \<noteq> [] then Some (env ''NATS_PASSWORD'') else None))
        (JoinHostPort (env ''NATS_HOST'') (env ''NATS_PORT'')))"

text \<open>\<open>parse\<close> is \<open>url.Parse\<close> with scheme, host name and port of its result.\<close>

definition normalize_ConsulHTTPAddr :: "(string \<Rightarrow> (string \<times> string \<times> string) option) \<Rightarrow> string \<Rightarrow> string" where
  "normalize_ConsulHTTPAddr parse addr0 =
     (let addr = TrimSpace addr0
      in if addr = [] then []
         else if prefix ''http://'' addr \<or> prefix ''https://'' addr
         then (case parse addr of
                 None \<Rightarrow> addr
               | Some (scheme, host, port) \<Rightarrow>
                   host @ '':'' @ (if port \<noteq> [] then port else if scheme = ''https'' then ''443'' else ''80''))
         else addr)"

definition FromEnv :: "(string \<Rightarrow> (string \<times> string \<times> string) option) \<Rightarrow> (string \<Rightarrow> string) \<Rightarrow> Config" where
  "FromEnv parse env = \<lparr>
     GatewaySkipDBMigrations = (let s = TrimSpace (env ''GATEWAY_SKIP_DB_MIGRATIONS'') in EqualFold s ''1'' \<or> EqualFold s ''true''),
     ConsulHTTPAddr =
       (let a = TrimSpace (env ''CONSUL_HTTP_ADDR''); h = env ''CONSUL_HOST''; p = env ''CONSUL_PORT''
        in if a \<noteq> [] then normalize_ConsulHTTPAddr parse a
           else if h \<noteq> [] \<and> p \<noteq> [] then JoinHostPort h p else []),
     ConsulDNSAddr = TrimSpace (env ''CONSUL_DNS_ADDR''),
     ConsulHTTPToken = env ''CONSUL_HTTP_TOKEN'',
     NATSURL = natsURLFromEnv env,
     DatabaseURLRW = config_firstNonEmpty (env ''DATABASE_URL_RW'') (env ''DATABASE_URL''),
     cfg_RedisAddr = TrimSpace (env ''REDIS_ADDR''),
     cfg_RedisPassword = env ''REDIS_PASSWORD'',
     HarborRegistry = TrimSpace (env ''HARBOR_REGISTRY''),
     HarborUser = env ''HARBOR_USER'',
     HarborPassword = env ''HARBOR_PASSWORD'',
     CellGRPCAdvertise = config_firstNonEmpty (env ''MMO_CELL_GRPC_ADVERTISE'') (env ''CELL_GRPC_ENDPOINT'')\<rparr>"

section \<open>Reading an address\<close>

text \<open>
  How \<open>url.Parse\<close> reads user, password and host: the authority ends at a slash, a question mark or a
  hash, the user part at its last at-sign, the name in it at the first colon; both are unescaped.
\<close>

definition hex_value :: "char \<Rightarrow> nat option" where
  "hex_value c =
     (let n = (of_char c :: nat)
      in if 48 \<le> n \<and> n \<le> 57 then Some (n - 48) else if 65 \<le> n \<and> n \<le> 70 then Some (n - 55)
         else if 97 \<le> n \<and> n \<le> 102 then Some (n - 87) else None)"

fun unescape :: "string \<Rightarrow> string option" where
  "unescape [] = Some []"
| "unescape (c # s) =
     (if c \<noteq> CHR ''%'' then map_option ((#) c) (unescape s)
      else case s of
             a # b # t \<Rightarrow>
               (case (hex_value a, hex_value b) of
                  (Some x, Some y) \<Rightarrow> map_option ((#) (char_of (16 * x + y))) (unescape t)
                | _ \<Rightarrow> None)
           | _ \<Rightarrow> None)"

definition url_credentials :: "string \<Rightarrow> (string \<times> string option \<times> string) option" where
  "url_credentials url =
     (case nats_scheme url of
        None \<Rightarrow> None
      | Some (scheme, rest) \<Rightarrow>
          (let authority = takeWhile (\<lambda>c. c \<notin> set ''/?#'') rest
           in case last_byte authority (CHR ''@'') of
                None \<Rightarrow> None
              | Some i \<Rightarrow>
                  (let ui = take i authority; host = drop (i + 1) authority
                   in case index_byte ui (CHR '':'') of
                        None \<Rightarrow> map_option (\<lambda>u. (u, None, host)) (unescape ui)
                      | Some k \<Rightarrow>
                          (case (unescape (take k ui), unescape (drop (k + 1) ui)) of
                             (Some u, Some p) \<Rightarrow> Some (u, Some p, host)
                           | _ \<Rightarrow> None))))"

section \<open>Escaping and reading are inverse\<close>

lemma index_byte_sep:
  assumes "c \<notin> set x"
  shows "index_byte (x @ c # y) c = Some (length x)"
proof -
  have "(x @ c # y) ! j \<noteq> c" if "j < length x" for j
    using assms nth_mem[OF that] that by (auto simp: nth_append)
  then show ?thesis
    by (auto simp: index_byte_def find_Some_iff simp del: upt_Suc intro!: exI[of _ "length x"])
qed

lemma index_byte_free: "c \<notin> set x \<Longrightarrow> index_byte x c = None"
  by (auto simp: index_byte_def find_None_iff)

lemma last_byte_sep:
  assumes "c \<notin> set y"
  shows "last_byte (x @ c # y) c = Some (length x)"
proof -
  have "(x @ c # y) ! (length x + length y - j) \<noteq> c" if "j < length y" for j
  proof -
    have i: "length x + length y - j = Suc (length x) + (length y - Suc j)" using that by simp
    have "y ! (length y - Suc j) \<in> set y" using that by (intro nth_mem) simp
    then show ?thesis using assms unfolding i by (auto simp: nth_append)
  qed
  then show ?thesis
    by (auto simp: last_byte_def find_Some_iff rev_nth simp del: upt_Suc intro!: exI[of _ "length y"])
qed

lemma hex_value_upperhex: "d < 16 \<Longrightarrow> hex_value (upperhex d) = Some d"
  by (auto simp: hex_value_def upperhex_def)

lemma half_byte: "(of_char c :: nat) div 16 < 16"
  by (rule less_mult_imp_div_less) simp

lemma unescape_escape: "unescape (escape mode s) = Some s"
proof (induction s)
  case (Cons c s)
  have "c \<noteq> CHR ''%''" if "\<not> shouldEscape mode c"
    using that by (auto simp: shouldEscape_def)
  then show ?case
    using Cons by (simp add: hex_value_upperhex half_byte)
qed simp

text \<open>No byte with a meaning in an address is left in an escaped user or password.\<close>

lemma upperhex_plain: "d < 16 \<Longrightarrow> upperhex d \<notin> set ''@/?:#''"
proof
  assume d: "d < 16" and "upperhex d \<in> set ''@/?:#''"
  then have "of_char (upperhex d) \<in> (of_char ` set ''@/?:#'' :: nat set)" by blast
  then show False using d by (auto simp: upperhex_def split: if_splits)
qed

lemma escape_plain: "set (escape UserPassword s) \<inter> set ''@/?:#'' = {}"
proof (induction s)
  case (Cons c s)
  have "c \<notin> set ''@/?:#''" if "\<not> shouldEscape UserPassword c"
    using that by (auto simp: shouldEscape_def)
  then show ?case
    using Cons half_byte[of c] upperhex_plain[of "of_char c div 16"] upperhex_plain[of "of_char c mod 16"] by auto
qed simp

lemma escape_host: "\<forall>c \<in> set s. \<not> shouldEscape HostPart c \<Longrightarrow> escape HostPart s = s"
  by (induction s) auto

text \<open>An address that was put together from its parts is read back as these parts.\<close>

lemma url_text_credentials:
  assumes "scheme \<in> {''nats'', ''tls''}" "user \<noteq> [] \<or> pass \<noteq> []" "\<forall>c \<in> set host. \<not> shouldEscape HostPart c"
  shows "url_credentials (url_text scheme (Some (user, Some pass)) host) = Some (user, Some pass, host)"
proof -
  let ?u = "escape UserPassword user" and ?p = "escape UserPassword pass"
  let ?ui = "?u @ CHR '':'' # ?p"
  let ?rest = "?ui @ CHR ''@'' # host"
  have url: "url_text scheme (Some (user, Some pass)) host = scheme @ ''://'' @ ?rest"
    using assms(2,3) by (auto simp: url_text_def userinfo_text_def escape_host)
  then have scheme: "nats_scheme (url_text scheme (Some (user, Some pass)) host) = Some (scheme, ?rest)"
    using assms(1) by (auto simp: nats_scheme_def)
  have plain: "set host \<inter> set ''@/?#'' = {}"
    using assms(3) by (auto simp: shouldEscape_def)
  then have whole: "takeWhile (\<lambda>c. c \<notin> set ''/?#'') ?rest = ?rest"
    using escape_plain[of user] escape_plain[of pass] by (auto simp: takeWhile_eq_all_conv)
  have sign: "last_byte ?rest (CHR ''@'') = Some (length ?ui)"
    using plain by (intro last_byte_sep) auto
  have colon: "index_byte ?ui (CHR '':'') = Some (length ?u)"
    using escape_plain[of user] by (intro index_byte_sep) auto
  show ?thesis
    unfolding url_credentials_def scheme option.case prod.case Let_def whole
    using sign colon by (simp add: unescape_escape)
qed

section \<open>The credentials of NATS\<close>

text \<open>
  C40: whatever bytes the password of \<open>NATS_URL\<close> consists of, question marks, colons, at-signs and
  percent signs included, the address the programs connect to carries the same user, password and
  host. So a password that was escaped in \<open>NATS_URL\<close> is not unescaped: its escapes are taken literally.
\<close>

theorem nats_credentials_survive:
  assumes "TrimSpace (env ''NATS_URL'') = scheme @ ''://'' @ user @ '':'' @ pass @ ''@'' @ host"
    and "scheme = ''nats'' \<or> scheme = ''tls''" "CHR '':'' \<notin> set user" "user \<noteq> [] \<or> pass \<noteq> []"
    and "host \<noteq> []" "\<forall>c \<in> set host. \<not> shouldEscape HostPart c"
  shows "url_credentials (NATSURL (FromEnv parse env)) = Some (user, Some pass, host)"
proof -
  let ?ui = "user @ CHR '':'' # pass"
  let ?rest = "?ui @ CHR ''@'' # host"
  let ?raw = "TrimSpace (env ''NATS_URL'')"
  have raw: "TrimSpace ?raw = ?raw" "?raw \<noteq> []" "nats_scheme ?raw = Some (scheme, ?rest)"
    by simp (use assms(2) in \<open>auto simp: assms(1) nats_scheme_def\<close>)
  have "CHR ''@'' \<notin> set host"
    using assms(6) by (auto simp: shouldEscape_def)
  then have sign: "last_byte ?rest (CHR ''@'') = Some (length ?ui)"
    by (rule last_byte_sep)
  have colon: "index_byte ?ui (CHR '':'') = Some (length user)"
    using assms(3) by (rule index_byte_sep)
  have "NATSURL (FromEnv parse env) = url_text scheme (Some (user, Some pass)) host"
    using raw sign colon assms(5) by (simp add: FromEnv_def natsURLFromEnv_def normalizeNATSURL_def Let_def)
  then show ?thesis using url_text_credentials assms(2,4,6) by auto
qed

theorem nats_credentials_survive_witness:
  "url_credentials (NATSURL (FromEnv (\<lambda>a. None) (\<lambda>name. if name = ''NATS_URL'' then ''nats://mmo:a?b:c@d%40@nats:4222'' else []))) =
     Some (''mmo'', Some ''a?b:c@d%40'', ''nats:4222'')"
  by (rule nats_credentials_survive[where scheme = "''nats''"])
     (simp_all add: TrimSpace_trimmed trimmedI ascii_graph_def shouldEscape_def)

end
