(* ===== verification/Nats_Bus.thy ===== *)
theory Nats_Bus
  imports Go_Prelude
begin

text \<open>
  The client of the message bus (\<open>internal/bus/nats\<close>): the names of the subjects, the connection and the
  stream that keeps the events. The NATS library and its server are a parameter, \<open>nats_library\<close>:
  when a connection, a message or a subscription is refused, what arrives, and how JetStream answers
  over the streams it holds. Reconnecting is left to the library and not modelled.
\<close>

section \<open>Subjects\<close>

definition SubjectCellEvents :: string where "SubjectCellEvents = ''cell.events''"
definition SubjectCellMigration :: string where "SubjectCellMigration = ''cell.migration''"
definition SubjectCellControl :: string where "SubjectCellControl = ''cell.control''"
definition SubjectGridCommands :: string where "SubjectGridCommands = ''grid.commands''"
definition SubjectGridSplitWorkflow :: string where "SubjectGridSplitWorkflow = ''grid.split.workflow''"
definition SubjectGridMergeWorkflow :: string where "SubjectGridMergeWorkflow = ''grid.merge.workflow''"

definition CellMigrationSubject :: "string \<Rightarrow> string" where
  "CellMigrationSubject cellID = SubjectCellMigration @ ''.'' @ cellID"

section \<open>The library\<close>

datatype StorageType = FileStorage | MemoryStorage
datatype RetentionPolicy = LimitsPolicy | InterestPolicy | WorkQueuePolicy

text \<open>The fields of \<open>nats.StreamConfig\<close> that the program sets. Durations are in nanoseconds.\<close>

record StreamConfig =
  sc_Name :: string
  sc_Subjects :: "string list"
  sc_Storage :: StorageType
  sc_Retention :: RetentionPolicy
  sc_MaxAge :: int
  sc_Replicas :: int

type_synonym streams = "string \<rightharpoonup> StreamConfig"

text \<open>
  \<open>flush_outcome\<close> is the error of a flush to this server and whether the message was written nevertheless;
  \<open>next_msg\<close> is the message that a subscriber receives after so many others within a time, or the error;
  \<open>add_stream\<close> may answer with an error and still have created the stream.
\<close>

record nats_library =
  connect_error :: "string \<Rightarrow> string option"
  publish_error :: "string \<Rightarrow> string \<Rightarrow> string option"
  flush_outcome :: "string \<Rightarrow> (string \<times> bool) option"
  subscribe_error :: "string \<Rightarrow> string option"
  next_msg :: "string \<Rightarrow> string \<Rightarrow> nat \<Rightarrow> int \<Rightarrow> string + string"
  jetstream_error :: "string option"
  stream_info :: "streams \<Rightarrow> string \<Rightarrow> StreamConfig option"
  add_stream :: "streams \<Rightarrow> StreamConfig \<Rightarrow> (string + StreamConfig) \<times> streams"

section \<open>The client\<close>

definition Connect :: "nats_library \<Rightarrow> string \<Rightarrow> string + unit" where
  "Connect lib url =
     (if url = [] then Inl ''empty NATS server URL''
      else case connect_error lib url of Some e \<Rightarrow> Inl e | None \<Rightarrow> Inr ())"

record JetStreamConfig =
  js_StreamName :: string
  js_Subjects :: "string list"
  js_MaxAge :: int
  js_Replicas :: int

abbreviation hours :: "int \<Rightarrow> int" where
  "hours n \<equiv> n * 3600 * 1000000000"

definition DefaultJetStreamConfig :: JetStreamConfig where
  "DefaultJetStreamConfig =
     \<lparr>js_StreamName = ''MMO_EVENTS'',
      js_Subjects = [SubjectCellEvents, SubjectCellMigration @ ''.*'', SubjectCellControl, SubjectGridCommands,
                     SubjectGridSplitWorkflow, SubjectGridMergeWorkflow],
      js_MaxAge = hours 24, js_Replicas = 1\<rparr>"

definition new_stream :: "JetStreamConfig \<Rightarrow> StreamConfig" where
  "new_stream cfg =
     \<lparr>sc_Name = js_StreamName cfg, sc_Subjects = js_Subjects cfg, sc_Storage = FileStorage, sc_Retention = LimitsPolicy,
      sc_MaxAge = (if js_MaxAge cfg \<le> 0 then hours 24 else js_MaxAge cfg),
      sc_Replicas = (if js_Replicas cfg \<le> 0 then 1 else js_Replicas cfg)\<rparr>"

definition EnsureStream :: "nats_library \<Rightarrow> JetStreamConfig \<Rightarrow> streams \<Rightarrow> (string + StreamConfig) \<times> streams" where
  "EnsureStream lib cfg ss =
     (if TrimSpace (js_StreamName cfg) = [] then (Inl ''jetstream stream name is empty'', ss)
      else if js_Subjects cfg = [] then (Inl ''jetstream subjects are empty'', ss)
      else case stream_info lib ss (js_StreamName cfg) of
             Some si \<Rightarrow> (Inr si, ss)
           | None \<Rightarrow> add_stream lib ss (new_stream cfg))"

section \<open>What the stream is after the call\<close>

text \<open>
  A stream that exists is returned as it is: neither subjects nor age nor replicas that were asked for
  are applied to it.
\<close>

lemma EnsureStream_existing:
  assumes "stream_info lib ss (js_StreamName cfg) = Some si" "EnsureStream lib cfg ss = (r, ss')"
  shows "ss' = ss" "\<And>info. r = Inr info \<Longrightarrow> info = si"
  using assms by (auto simp: EnsureStream_def split: if_splits)

text \<open>A second call finds what the first one made, when the server knows what it has created.\<close>

lemma EnsureStream_twice:
  assumes "EnsureStream lib cfg ss = (Inr si, ss')"
    and "\<And>sc si ss'. add_stream lib ss sc = (Inr si, ss') \<Longrightarrow> stream_info lib ss' (sc_Name sc) = Some si"
  shows "EnsureStream lib cfg ss' = (Inr si, ss')"
proof (cases "stream_info lib ss (js_StreamName cfg)")
  case None
  then have "add_stream lib ss (new_stream cfg) = (Inr si, ss')"
    using assms(1) by (simp add: EnsureStream_def split: if_splits)
  then have "stream_info lib ss' (js_StreamName cfg) = Some si"
    using assms(2) by (fastforce simp: new_stream_def)
  then show ?thesis
    using assms(1) by (simp add: EnsureStream_def split: if_splits)
qed (use assms(1) in \<open>auto simp: EnsureStream_def split: if_splits\<close>)

end
