(* ===== verification/Mmoctl.thy ===== *)
theory Mmoctl
  imports Env_Config Nats_Bus Split_Workflow
begin

text \<open>
  The operator's command line (\<open>src/cmd/mmoctl\<close>): from the arguments to the calls it makes and the
  lines it prints. A command that ends with \<open>log.Fatal\<close> or a panic is a failed operation; what it
  printed before stays printed. What the commands for NATS publish and create is part of the grid they
  act on. Number formats, the flags of \<open>partition-plan\<close>, JSON, the NATS library, Redis and files are
  parameters, messages in Russian are given in English.
\<close>

section \<open>Printing\<close>

text \<open>
  Beside the grid: the lines printed, what arrived on the bus (server, subject and body) and the streams
  of each server.
\<close>

record 'c CtlGrid = "'c MergeGrid" +
  ctl_out :: "msg list list"
  bus_messages :: "(string \<times> string \<times> string) list"
  bus_streams :: "string \<Rightarrow> streams"

record plan_args =
  pa_id :: string
  pa_level :: int
  pa_bounds :: Bounds
  pa_format :: string
  pa_tfvars :: bool

text \<open>
  \<open>fmt0\<close>, \<open>fmt3\<close>, \<open>fmtg\<close> and \<open>quoted\<close> are the verbs \<open>%.0f\<close>, \<open>%.3f\<close>, \<open>%g\<close> and \<open>%q\<close>; \<open>read_body\<close> reads a file, or the
  input for a dash; \<open>url_user\<close> is user name and whether there is a password in an address that can be
  read and has a user, \<open>with_password\<close> the address with user and password replaced; \<open>nats_override\<close> is the
  flag \<open>-nats-url\<close>, \<open>parse_int\<close> and \<open>parse_duration\<close> read the value of a flag.
\<close>

record 'c ctl_env = "'c merge_env" +
  ctl_store :: "'c Catalog"
  fmt0 :: "f64 \<Rightarrow> string"
  fmt3 :: "f64 \<Rightarrow> string"
  fmtg :: "f64 \<Rightarrow> string"
  quoted :: "string \<Rightarrow> string"
  parse_float :: "string \<Rightarrow> string + f64"
  int32_error :: "string \<Rightarrow> string"
  read_body :: "string \<Rightarrow> string + string"
  url_user :: "string \<Rightarrow> (string \<times> bool) option"
  with_password :: "string \<Rightarrow> string \<Rightarrow> string \<Rightarrow> string"
  encode_plan :: "string \<Rightarrow> int \<Rightarrow> Bounds \<Rightarrow> PlanSplitResponseChild list \<Rightarrow> string + string"
  plan_flags :: "string list \<Rightarrow> string + plan_args"
  parse_int :: "string \<Rightarrow> string + int"
  parse_duration :: "string \<Rightarrow> string + int"
  nats_override :: string
  bus :: nats_library
  redis_get :: "string \<Rightarrow> string + string option"

definition say :: "msg list \<Rightarrow> (unit, ('c, 'z) CtlGrid_scheme) op" where
  "say line g = (Inr (), g\<lparr>ctl_out := ctl_out g @ [line]\<rparr>)"

definition fatal :: "string \<Rightarrow> ('a, 'g) op" where
  "fatal t = fail (Failed [Text t])"

definition panic :: "('a, 'g) op" where
  "panic = fatal ''nil pointer dereference''"

fun say_all :: "string list \<Rightarrow> (unit, ('c, 'z) CtlGrid_scheme) op" where
  "say_all [] = give ()"
| "say_all (t # ts) = andThen (say [Text t]) (\<lambda>_. say_all ts)"

definition go_bool :: "bool \<Rightarrow> string" where
  "go_bool b = (if b then ''true'' else ''false'')"

definition bounds_text :: "('c, 'y) ctl_env_scheme \<Rightarrow> Bounds \<Rightarrow> string" where
  "bounds_text env b = ''bounds=['' @ fmt0 env (XMin b) @ '','' @ fmt0 env (XMax b) @ '']x['' @
     fmt0 env (ZMin b) @ '','' @ fmt0 env (ZMax b) @ '']''"

section \<open>Arguments\<close>

definition splitCSV :: "string \<Rightarrow> string list" where
  "splitCSV raw =
     (if TrimSpace raw = [] then []
      else filter (\<lambda>p. p \<noteq> []) (map TrimSpace (Split1 (TrimSpace raw) (CHR '',''))))"

definition reason_arg :: "string list \<Rightarrow> string" where
  "reason_arg extra = (case extra of [] \<Rightarrow> ''mmoctl'' | r # _ \<Rightarrow> r)"

text \<open>The cells that \<open>merge-prepare\<close> names: specs with nothing but an identifier.\<close>

definition bare_spec :: "string \<Rightarrow> CellSpec" where
  "bare_spec i = \<lparr>cs_Id = i, cs_Level = 0, cs_Bounds = None, cs_GrpcEndpoint = []\<rparr>"

definition update_payload :: "('c, 'y) ctl_env_scheme \<Rightarrow> string \<Rightarrow> string list \<Rightarrow> string + UpdatePayload" where
  "update_payload env mode args =
     (if mode = ''noop'' then Inr Noop
      else if mode = ''tps'' then
        (case args of
           [v] \<Rightarrow> (case ParseInt32 v of None \<Rightarrow> Inl (int32_error env v) | Some n \<Rightarrow> Inr (SetTargetTps n))
         | _ \<Rightarrow> Inl ''forward-update: tps needs integer'')
      else if mode = ''split-prepare'' then Inr (SplitPrepare (Some (reason_arg args)))
      else if mode = ''split-drain'' then
        (case args of
           [v] \<Rightarrow> if v = ''true'' \<or> v = ''1'' \<or> v = ''yes'' then Inr (SetSplitDrain (Some True))
                  else if v = ''false'' \<or> v = ''0'' \<or> v = ''no'' then Inr (SetSplitDrain (Some False))
                  else Inl (''forward-update: split-drain: use true or false, got '' @ quoted env v)
         | _ \<Rightarrow> Inl ''forward-update: split-drain needs true or false'')
      else if mode = ''export-npc-persist'' then Inr (ExportNpcPersist (Some (reason_arg args)))
      else if mode = ''import-npc-persist'' then
        (case args of
           [] \<Rightarrow> Inl ''forward-update: import-npc-persist needs <path|-> [reason]''
         | path # extra \<Rightarrow>
             (case read_body env path of
                Inl e \<Rightarrow> Inl e
              | Inr body \<Rightarrow> Inr (ImportNpcPersist (Some (body, reason_arg extra)))))
      else if mode = ''merge-prepare'' then
        (case args of
           [] \<Rightarrow> Inl ''forward-update: merge-prepare needs <child_csv> [reason]''
         | csv # extra \<Rightarrow> Inr (MergePrepare (Some (reason_arg extra, map (\<lambda>i. Some (bare_spec i)) (splitCSV csv)))))
      else Inl (''forward-update: unknown mode '' @ quoted env mode))"

section \<open>Commands of the registry\<close>

fun print_cells :: "('c, 'y) ctl_env_scheme \<Rightarrow> CellSpec option list \<Rightarrow> (unit, ('c, 'z) CtlGrid_scheme) op" where
  "print_cells env [] = give ()"
| "print_cells env (None # cs) = panic"
| "print_cells env (Some c # cs) =
     (case cs_Bounds c of
        None \<Rightarrow> panic
      | Some b \<Rightarrow>
          andThen (say [Text (cs_Id c @ '' level='' @ Itoa (cs_Level c) @ '' endpoint='' @ cs_GrpcEndpoint c @ '' '' @ bounds_text env b)])
            (\<lambda>_. print_cells env cs))"

definition ctl_list :: "('c, 'y) ctl_env_scheme \<Rightarrow> string \<Rightarrow> (unit, ('c, 'z) CtlGrid_scheme) op" where
  "ctl_list env addr =
     andThen (registry_call env addr (\<lambda>g. (Registry_ListCells (ctl_store env) g, g))) (print_cells env)"

definition ctl_resolve :: "('c, 'y) ctl_env_scheme \<Rightarrow> string \<Rightarrow> string list \<Rightarrow> (unit, ('c, 'z) CtlGrid_scheme) op" where
  "ctl_resolve env addr rest =
     (case rest of
        [a, b] \<Rightarrow>
          (case (parse_float env a, parse_float env b) of
             (Inr x, Inr z) \<Rightarrow>
               andThen (registry_call env addr (\<lambda>g. (Registry_ResolvePosition (ctl_store env) (Some (x, z)) g, g))) (\<lambda>found.
                 case found of None \<Rightarrow> say [Text ''not found''] | Some c \<Rightarrow> print_cells env [Some c])
           | (Inl e, _) \<Rightarrow> fatal e
           | (_, Inl e) \<Rightarrow> fatal e)
      | _ \<Rightarrow> fatal ''resolve: need x z'')"

definition ctl_npc_handoff :: "('c, 'y) ctl_env_scheme \<Rightarrow> string \<Rightarrow> string list \<Rightarrow> (unit, ('c, 'z) CtlGrid_scheme) op" where
  "ctl_npc_handoff env addr rest =
     (case rest of
        parent # child # extra \<Rightarrow>
          andThen (registry_call env addr (ForwardNpcHandoff env (Some
              \<lparr>nh_ParentCellId = parent, nh_ChildCellId = child, nh_Reason = reason_arg extra\<rparr>))) (\<lambda>resp.
            say (Text (''ok=true npc_entities='' @ Itoa (nr_NpcEntityCount resp) @ '' '') # nr_Message resp))
      | _ \<Rightarrow> fatal ''forward-npc-handoff: need <parent_cell_id> <child_cell_id> [reason]'')"

definition merge_line :: "MergeHandoffResponse \<Rightarrow> string" where
  "merge_line resp = ''ok=true children='' @ Itoa (mhr_ChildCount resp) @ '' npc_entities='' @
     Itoa (mhr_NpcEntityCount resp) @ '' '' @ mhr_Message resp"

definition ctl_merge_handoff :: "('c, 'y) ctl_env_scheme \<Rightarrow> string \<Rightarrow> string list \<Rightarrow> (unit, ('c, 'z) CtlGrid_scheme) op" where
  "ctl_merge_handoff env addr rest =
     (case rest of
        parent # csv # extra \<Rightarrow>
          andThen (registry_call env addr (ForwardMergeHandoff env (Some
              \<lparr>mh_ParentCellId = TrimSpace parent, mh_ChildCellIds = splitCSV csv, mh_Reason = reason_arg extra\<rparr>))) (\<lambda>resp.
            say [Text (merge_line resp)])
      | _ \<Rightarrow> fatal ''forward-merge-handoff: need <parent_cell_id> <child_csv> [reason]'')"

definition ctl_forward_update :: "('c, 'y) ctl_env_scheme \<Rightarrow> string \<Rightarrow> string list \<Rightarrow> (unit, ('c, 'z) CtlGrid_scheme) op" where
  "ctl_forward_update env addr rest =
     (case rest of
        cellID # mode # args \<Rightarrow>
          (case update_payload env mode args of
             Inl e \<Rightarrow> fatal e
           | Inr p \<Rightarrow>
               andThen (registry_call env addr (ForwardCellUpdate env (Some (cellID, Some (Some p))))) (\<lambda>resp.
                 say ([Text (''ok='' @ go_bool (ur_Ok resp) @ '' ''), ur_Message resp] @
                      (if ur_NpcExportJson resp \<noteq> []
                       then [Text ('' npc_export_json_bytes='' @ Itoa (int (length (ur_NpcExportJson resp))))] else []))))
      | _ \<Rightarrow> fatal ''forward-update: need <cell_id> noop | tps | split-prepare | split-drain | export-npc-persist | import-npc-persist | merge-prepare ...'')"

section \<open>Commands of a cell\<close>

definition ctl_candidates_call :: "('c, 'y) ctl_env_scheme \<Rightarrow> string \<Rightarrow> (MigrationCandidate list, ('c, 'z) CtlGrid_scheme) op" where
  "ctl_candidates_call env ep =
     dialled_call env ep (\<lambda>now s. (ListMigrationCandidates (visit_live env s) (visit_names env s) s, s))"

definition ctl_dry_run :: "('c, 'y) ctl_env_scheme \<Rightarrow> string \<Rightarrow> string list \<Rightarrow> (unit, ('c, 'z) CtlGrid_scheme) op" where
  "ctl_dry_run env addr rest =
     (case rest of
        [] \<Rightarrow> fatal ''migration-dry-run: need cell_id''
      | i # _ \<Rightarrow>
          (let cellID = TrimSpace i
           in andThen (registry_call env addr (\<lambda>g. (Registry_ListCells (ctl_store env) g, g))) (\<lambda>listed.
              case find (\<lambda>c. (case c of None \<Rightarrow> [] | Some spec \<Rightarrow> cs_Id spec) = cellID) listed of
                Some (Some spec) \<Rightarrow>
                  if cs_GrpcEndpoint spec = [] then fatal ''migration-dry-run: empty grpc_endpoint''
                  else andThen (ctl_candidates_call env (cs_GrpcEndpoint spec)) (\<lambda>mc.
                       andThen (say [Text (''ListMigrationCandidates total='' @ Itoa (int (length mc)) @ '' (cell '' @ cellID @ '' direct gRPC)'')]) (\<lambda>_.
                       andThen (registry_call env addr (ForwardCellUpdate env (Some (cellID,
                           Some (Some (ExportNpcPersist (Some ''migration-dry-run'')))))) ) (\<lambda>ex.
                         say [Text (''ForwardCellUpdate export ok='' @ go_bool (ur_Ok ex) @ '' ''), ur_Message ex,
                              Text ('' json_bytes='' @ Itoa (int (length (ur_NpcExportJson ex))))])))
              | _ \<Rightarrow> fatal (''migration-dry-run: cell '' @ quoted env cellID @ '' not in registry''))))"

definition child_line :: "('c, 'y) ctl_env_scheme \<Rightarrow> PlanSplitResponseChild \<Rightarrow> string" where
  "child_line env ch = ch_Id ch @ '' level='' @ Itoa (ch_Level ch) @ '' '' @
     (case ch_Bounds ch of None \<Rightarrow> ''bounds=<nil>'' | Some b \<Rightarrow> bounds_text env b)"

definition ctl_plansplit :: "('c, 'y) ctl_env_scheme \<Rightarrow> string list \<Rightarrow> (unit, ('c, 'z) CtlGrid_scheme) op" where
  "ctl_plansplit env rest =
     (case rest of
        [ep] \<Rightarrow> andThen (dialled_call env ep (\<lambda>now s. (PlanSplit s, s))) (\<lambda>resp.
          case resp of Inl err \<Rightarrow> fail (plan_error_of err) | Inr children \<Rightarrow> say_all (map (child_line env) children))
      | _ \<Rightarrow> fatal ''plansplit: need host:port'')"

definition candidate_line :: "('c, 'y) ctl_env_scheme \<Rightarrow> MigrationCandidate \<Rightarrow> string" where
  "candidate_line env c = ''entity='' @ Itoa (uint (mc_EntityId c)) @ '' is_player='' @ go_bool (mc_IsPlayer c) @
     (case mc_Position c of
        None \<Rightarrow> '' position=<nil>''
      | Some p \<Rightarrow> '' pos=('' @ fmt3 env (vx p) @ '','' @ fmt3 env (vy p) @ '','' @ fmt3 env (vz p) @ '')'')"

definition ctl_candidates :: "('c, 'y) ctl_env_scheme \<Rightarrow> string list \<Rightarrow> (unit, ('c, 'z) CtlGrid_scheme) op" where
  "ctl_candidates env rest =
     (case rest of
        [] \<Rightarrow> fatal ''migration-candidates: need host:port''
      | ep # _ \<Rightarrow> andThen (ctl_candidates_call env ep) (\<lambda>mc.
          say_all (map (candidate_line env) mc @ [''total='' @ Itoa (int (length mc))])))"

definition ctl_ping :: "('c, 'y) ctl_env_scheme \<Rightarrow> string list \<Rightarrow> (unit, ('c, 'z) CtlGrid_scheme) op" where
  "ctl_ping env rest =
     (case rest of
        [ep] \<Rightarrow> andThen (dialled_call env ep (\<lambda>now s. (Ping (unix_ms now) s, s))) (\<lambda>p.
          say [Text (''cell_id='' @ ping_CellId p @ '' time_ms='' @ Itoa (ping_ServerTimeUnixMs p))])
      | _ \<Rightarrow> fatal ''ping: need host:port'')"

definition ctl_join :: "('c, 'y) ctl_env_scheme \<Rightarrow> string list \<Rightarrow> (unit, ('c, 'z) CtlGrid_scheme) op" where
  "ctl_join env rest =
     (case rest of
        [ep, playerID] \<Rightarrow> andThen (dialled_call env ep (\<lambda>now s. Server_Join playerID s)) (\<lambda>j.
          say [Text (''ok='' @ go_bool (jr_Ok j) @ '' cell_id='' @ jr_CellId j @ '' entity_id='' @
                 Itoa (uint (jr_EntityId j)) @ '' msg='' @ jr_Message j)])
      | _ \<Rightarrow> fatal ''join: need host:port player_id'')"

definition runRegistryOrPing :: "('c, 'y) ctl_env_scheme \<Rightarrow> string \<Rightarrow> string \<Rightarrow> string list \<Rightarrow> (unit, ('c, 'z) CtlGrid_scheme) op" where
  "runRegistryOrPing env addr cmd rest =
     (if cmd = ''list'' then ctl_list env addr
      else if cmd = ''resolve'' then ctl_resolve env addr rest
      else if cmd = ''forward-npc-handoff'' then ctl_npc_handoff env addr rest
      else if cmd = ''forward-merge-handoff'' then ctl_merge_handoff env addr rest
      else if cmd = ''forward-update'' then ctl_forward_update env addr rest
      else if cmd = ''migration-dry-run'' then ctl_dry_run env addr rest
      else if cmd = ''plansplit'' then ctl_plansplit env rest
      else if cmd = ''migration-candidates'' then ctl_candidates env rest
      else if cmd = ''ping'' then ctl_ping env rest
      else if cmd = ''join'' then ctl_join env rest
      else fatal (''unknown command '' @ quoted env cmd))"

section \<open>Commands without a call\<close>

definition skeleton_lines :: "('c, 'y) ctl_env_scheme \<Rightarrow> nat \<Rightarrow> PlanSplitResponseChild \<Rightarrow> Bounds \<Rightarrow> string list" where
  "skeleton_lines env i ch b =
     [''  child_'' @ Itoa (int i) @ '' = { # '' @ ch_Id ch, ''    id    = '' @ quoted env (ch_Id ch),
      ''    level = '' @ Itoa (ch_Level ch), ''    xmin  = '' @ fmtg env (XMin b), ''    xmax  = '' @ fmtg env (XMax b),
      ''    zmin  = '' @ fmtg env (ZMin b), ''    zmax  = '' @ fmtg env (ZMax b), ''  }'']"

fun say_skeletons :: "('c, 'y) ctl_env_scheme \<Rightarrow> nat \<Rightarrow> PlanSplitResponseChild list \<Rightarrow> (unit, ('c, 'z) CtlGrid_scheme) op" where
  "say_skeletons env i [] = give ()"
| "say_skeletons env i (ch # chs) =
     (case ch_Bounds ch of
        None \<Rightarrow> panic
      | Some b \<Rightarrow> andThen (say_all (skeleton_lines env i ch b)) (\<lambda>_. say_skeletons env (Suc i) chs))"

definition say_plan :: "('c, 'y) ctl_env_scheme \<Rightarrow> plan_args \<Rightarrow> PlanSplitResponseChild list \<Rightarrow> (unit, ('c, 'z) CtlGrid_scheme) op" where
  "say_plan env a children =
     (if map to_lower (TrimSpace (pa_format a)) = ''json''
      then (case encode_plan env (TrimSpace (pa_id a)) (pa_level a) (pa_bounds a) children of
              Inl e \<Rightarrow> fatal e | Inr t \<Rightarrow> say [Text t])
      else say_all ((if TrimSpace (pa_id a) \<noteq> []
                     then [''parent_id='' @ pa_id a @ '' level='' @ Itoa (pa_level a) @ '' '' @ bounds_text env (pa_bounds a)]
                     else []) @ map (child_line env) children))"

definition runPartitionPlan :: "('c, 'y) ctl_env_scheme \<Rightarrow> string list \<Rightarrow> (unit, ('c, 'z) CtlGrid_scheme) op" where
  "runPartitionPlan env args =
     (case plan_flags env args of
        Inl e \<Rightarrow> fatal e
      | Inr a \<Rightarrow>
          (let b = pa_bounds a
           in if fle (XMax b) (XMin b) \<or> fle (ZMax b) (ZMin b)
              then fatal ''partition-plan: need xmin < xmax and zmin < zmax''
              else (case ChildSpecsForSplit (TrimSpace (pa_id a)) (Some b) (to_int32 (pa_level a)) of
                Inl err \<Rightarrow> fail (Failed [WithPartitionError ''partition-plan: invalid parent id: '' err])
              | Inr children \<Rightarrow>
                  if length children \<noteq> 4 then fatal ''partition-plan: internal error, not 4 children''
                  else andThen (say_plan env a children) (\<lambda>_.
                    if \<not> pa_tfvars a then give ()
                    else andThen (say_all [[], ''# skeleton for cell_instances'']) (\<lambda>_. say_skeletons env 0 children)))))"

definition valOrUnset :: "string \<Rightarrow> string" where
  "valOrUnset s = (if s = [] then ''(unset)'' else s)"

definition maskSecret :: "string \<Rightarrow> string" where
  "maskSecret s = (if s = [] then ''(unset)'' else ''***'')"

definition maskDSN :: "string \<Rightarrow> string" where
  "maskDSN s = (if s = [] then ''(unset)'' else ''(set, '' @ Itoa (int (length s)) @ '' bytes)'')"

definition maskNATSURL :: "('c, 'y) ctl_env_scheme \<Rightarrow> string \<Rightarrow> string" where
  "maskNATSURL env raw =
     (if raw = [] then ''(unset)''
      else case url_user env raw of
             None \<Rightarrow> raw
           | Some (user, hasPass) \<Rightarrow> if \<not> hasPass then raw else with_password env raw user ''***'')"

definition printInfra :: "('c, 'y) ctl_env_scheme \<Rightarrow> Config \<Rightarrow> string list" where
  "printInfra env c =
     [''CONSUL_HTTP_ADDR='' @ valOrUnset (ConsulHTTPAddr c), ''CONSUL_DNS_ADDR='' @ valOrUnset (ConsulDNSAddr c),
      ''CONSUL_HTTP_TOKEN='' @ maskSecret (ConsulHTTPToken c), ''NATS_URL='' @ maskNATSURL env (NATSURL c),
      ''DATABASE_URL_RW='' @ maskDSN (DatabaseURLRW c), ''REDIS_ADDR='' @ valOrUnset (cfg_RedisAddr c),
      ''REDIS_PASSWORD='' @ maskSecret (cfg_RedisPassword c),
      ''MMO_CELL_GRPC_ADVERTISE/CELL_GRPC_ENDPOINT='' @ valOrUnset (CellGRPCAdvertise c),
      ''HARBOR_REGISTRY='' @ valOrUnset (HarborRegistry c), ''HARBOR_USER='' @ valOrUnset (HarborUser c),
      ''HARBOR_PASSWORD='' @ maskSecret (HarborPassword c)]"

text \<open>\<open>runMergeState\<close> and \<open>runSplitRetireState\<close> differ in the name of the command and of the key.\<close>

definition stored_state :: "('c, 'y) ctl_env_scheme \<Rightarrow> Config \<Rightarrow> string \<Rightarrow> string \<Rightarrow> string list \<Rightarrow>
    (unit, ('c, 'z) CtlGrid_scheme) op" where
  "stored_state env cfg cmd keyPrefix args =
     (case args of
        [] \<Rightarrow> fatal (cmd @ '': need <parent_cell_id>'')
      | i # _ \<Rightarrow>
          (let parent = TrimSpace i
           in if parent = [] then fatal (cmd @ '': empty parent_cell_id'')
              else if cfg_RedisAddr cfg = [] then fatal (cmd @ '': REDIS_ADDR is required'')
              else (case redis_get env (keyPrefix @ parent) of
                      Inl e \<Rightarrow> fatal (cmd @ '': redis: '' @ e)
                    | Inr None \<Rightarrow> say [Text ''{}'']
                    | Inr (Some v) \<Rightarrow> say [Text v])))"

definition runMergeState :: "('c, 'y) ctl_env_scheme \<Rightarrow> Config \<Rightarrow> string list \<Rightarrow> (unit, ('c, 'z) CtlGrid_scheme) op" where
  "runMergeState env cfg = stored_state env cfg ''merge-state'' ''mmo:grid:merge:state:''"

definition runSplitRetireState :: "('c, 'y) ctl_env_scheme \<Rightarrow> Config \<Rightarrow> string list \<Rightarrow> (unit, ('c, 'z) CtlGrid_scheme) op" where
  "runSplitRetireState env cfg = stored_state env cfg ''split-retire-state'' ''mmo:grid:split:retire_state:''"

section \<open>Commands of the bus\<close>

text \<open>
  \<open>FlagSet.Parse\<close> for flags with a value: the assignments in their order and the arguments that remain.
  A mistake ends the program, as the request for help does.
\<close>

fun flag_parse :: "string list \<Rightarrow> string list \<Rightarrow> string + ((string \<times> string) list \<times> string list)" where
  "flag_parse known [] = Inr ([], [])"
| "flag_parse known (a # args) =
     (if length a < 2 \<or> hd a \<noteq> CHR ''-'' then Inr ([], a # args)
      else if a = ''--'' then Inr ([], args)
      else
        (let body = (if a ! 1 = CHR ''-'' then drop 2 a else tl a);
             name = takeWhile (\<lambda>c. c \<noteq> CHR ''='') body
         in if name = [] \<or> hd name = CHR ''-'' then Inl (''bad flag syntax: '' @ a)
            else if name \<notin> set known then Inl (''flag provided but not defined: -'' @ name)
            else if name \<noteq> body then
              (case flag_parse known args of
                 Inl e \<Rightarrow> Inl e | Inr (fs, pos) \<Rightarrow> Inr ((name, drop (length name + 1) body) # fs, pos))
            else
              (case args of
                 [] \<Rightarrow> Inl (''flag needs an argument: -'' @ name)
               | v # more_args \<Rightarrow>
                   (case flag_parse known more_args of
                      Inl e \<Rightarrow> Inl e | Inr (fs, pos) \<Rightarrow> Inr ((name, v) # fs, pos)))))"

text \<open>The value of a flag: its last assignment, or the default; every assignment has to be readable.\<close>

fun flag_value :: "(string \<Rightarrow> string + 'v) \<Rightarrow> string \<Rightarrow> (string \<times> string) list \<Rightarrow> 'v \<Rightarrow> string + 'v" where
  "flag_value rd name [] v = Inr v"
| "flag_value rd name ((n, t) # fs) v =
     (if n = name then (case rd t of Inl e \<Rightarrow> Inl e | Inr w \<Rightarrow> flag_value rd name fs w) else flag_value rd name fs v)"

definition with_value :: "string + 'v \<Rightarrow> ('v \<Rightarrow> ('a, 'g) op) \<Rightarrow> ('a, 'g) op" where
  "with_value r k = (case r of Inl e \<Rightarrow> fatal e | Inr v \<Rightarrow> k v)"

fun ctl_firstNonEmpty :: "string list \<Rightarrow> string" where
  "ctl_firstNonEmpty [] = []"
| "ctl_firstNonEmpty (s # ss) = (if TrimSpace s \<noteq> [] then s else ctl_firstNonEmpty ss)"

definition nats_url :: "('c, 'y) ctl_env_scheme \<Rightarrow> Config \<Rightarrow> string \<Rightarrow> string" where
  "nats_url env cfg urlFlag = ctl_firstNonEmpty [urlFlag, nats_override env, NATSURL cfg]"

definition connected :: "('c, 'y) ctl_env_scheme \<Rightarrow> string \<Rightarrow> ('a, 'g) op \<Rightarrow> ('a, 'g) op" where
  "connected env nurl k = (case Connect (bus env) nurl of Inl e \<Rightarrow> fatal e | Inr _ \<Rightarrow> k)"

text \<open>A message that was accepted is on its way; a failing flush leaves open whether it was written.\<close>

definition publish_flush :: "('c, 'y) ctl_env_scheme \<Rightarrow> string \<Rightarrow> string \<Rightarrow> string \<Rightarrow> (unit, ('c, 'z) CtlGrid_scheme) op" where
  "publish_flush env nurl subject body g =
     (case publish_error (bus env) subject body of
        Some e \<Rightarrow> fatal e g
      | None \<Rightarrow>
          (let sent = g\<lparr>bus_messages := bus_messages g @ [(nurl, subject, body)]\<rparr>
           in case flush_outcome (bus env) nurl of
                None \<Rightarrow> (Inr (), sent)
              | Some (e, wrote) \<Rightarrow> fatal e (if wrote then sent else g)))"

definition runNATSPub :: "('c, 'y) ctl_env_scheme \<Rightarrow> string \<Rightarrow> string \<Rightarrow> string \<Rightarrow> (unit, ('c, 'z) CtlGrid_scheme) op" where
  "runNATSPub env nurl subject body =
     connected env nurl (andThen (publish_flush env nurl subject body) (\<lambda>_.
       say [Text (''published to '' @ subject @ '' ('' @ Itoa (int (length body)) @ '' bytes)'')]))"

fun print_messages :: "('c, 'y) ctl_env_scheme \<Rightarrow> string \<Rightarrow> string \<Rightarrow> int \<Rightarrow> nat \<Rightarrow> nat \<Rightarrow> (unit, ('c, 'z) CtlGrid_scheme) op" where
  "print_messages env nurl subject timeout i 0 = give ()"
| "print_messages env nurl subject timeout i (Suc n) =
     (case next_msg (bus env) nurl subject i timeout of
        Inl e \<Rightarrow> fatal e
      | Inr body \<Rightarrow> andThen (say [Text (''['' @ Itoa (int i + 1) @ ''] '' @ body)]) (\<lambda>_.
          print_messages env nurl subject timeout (Suc i) n))"

definition runNATSSub :: "('c, 'y) ctl_env_scheme \<Rightarrow> string \<Rightarrow> string \<Rightarrow> int \<Rightarrow> int \<Rightarrow> (unit, ('c, 'z) CtlGrid_scheme) op" where
  "runNATSSub env nurl subject wait timeout =
     connected env nurl
       (case subscribe_error (bus env) subject of
          Some e \<Rightarrow> fatal e
        | None \<Rightarrow> print_messages env nurl subject timeout 0 (nat wait))"

definition ensure_stream :: "('c, 'y) ctl_env_scheme \<Rightarrow> string \<Rightarrow> JetStreamConfig \<Rightarrow> (StreamConfig, ('c, 'z) CtlGrid_scheme) op" where
  "ensure_stream env nurl jcfg g =
     (case EnsureStream (bus env) jcfg (bus_streams g nurl) of
        (r, ss) \<Rightarrow> with_value r give (g\<lparr>bus_streams := (bus_streams g)(nurl := ss)\<rparr>))"

definition runNATSJetStreamEnsureStream :: "('c, 'y) ctl_env_scheme \<Rightarrow> string \<Rightarrow> JetStreamConfig \<Rightarrow>
    (unit, ('c, 'z) CtlGrid_scheme) op" where
  "runNATSJetStreamEnsureStream env nurl jcfg =
     connected env nurl
       (case jetstream_error (bus env) of
          Some e \<Rightarrow> fatal e
        | None \<Rightarrow> andThen (ensure_stream env nurl jcfg) (\<lambda>si.
            say [Text (''jetstream stream ready name='' @ sc_Name si @ '' subjects='' @
                   Itoa (int (length (sc_Subjects si))) @ '' replicas='' @ Itoa (sc_Replicas si))]))"

definition nats_pub :: "('c, 'y) ctl_env_scheme \<Rightarrow> Config \<Rightarrow> string list \<Rightarrow> (unit, ('c, 'z) CtlGrid_scheme) op" where
  "nats_pub env cfg args =
     with_value (flag_parse [''url''] args) (\<lambda>(fs, pos).
     with_value (flag_value Inr ''url'' fs []) (\<lambda>u.
       case pos of
         subject # body # _ \<Rightarrow> runNATSPub env (nats_url env cfg u) subject body
       | _ \<Rightarrow> fatal ''nats pub: need <subject> <body>''))"

definition nats_sub :: "('c, 'y) ctl_env_scheme \<Rightarrow> Config \<Rightarrow> string list \<Rightarrow> (unit, ('c, 'z) CtlGrid_scheme) op" where
  "nats_sub env cfg args =
     with_value (flag_parse [''url'', ''wait'', ''timeout''] args) (\<lambda>(fs, pos).
     with_value (flag_value Inr ''url'' fs []) (\<lambda>u.
     with_value (flag_value (parse_int env) ''wait'' fs 1) (\<lambda>wait.
     with_value (flag_value (parse_duration env) ''timeout'' fs (5 * 1000000000)) (\<lambda>timeout.
       case pos of
         subject # _ \<Rightarrow> runNATSSub env (nats_url env cfg u) subject wait timeout
       | _ \<Rightarrow> fatal ''nats sub: need <subject>''))))"

definition nats_js_ensure_stream :: "('c, 'y) ctl_env_scheme \<Rightarrow> Config \<Rightarrow> string list \<Rightarrow> (unit, ('c, 'z) CtlGrid_scheme) op" where
  "nats_js_ensure_stream env cfg args =
     (let std = DefaultJetStreamConfig
      in with_value (flag_parse [''url'', ''stream'', ''subjects'', ''max-age'', ''replicas''] args) (\<lambda>(fs, pos).
         with_value (flag_value Inr ''url'' fs []) (\<lambda>u.
         with_value (flag_value Inr ''stream'' fs (js_StreamName std)) (\<lambda>stream.
         with_value (flag_value Inr ''subjects'' fs (Join (js_Subjects std) '','')) (\<lambda>subjectsCSV.
         with_value (flag_value (parse_duration env) ''max-age'' fs (js_MaxAge std)) (\<lambda>maxAge.
         with_value (flag_value (parse_int env) ''replicas'' fs (js_Replicas std)) (\<lambda>replicas.
           runNATSJetStreamEnsureStream env (nats_url env cfg u)
             \<lparr>js_StreamName = stream, js_Subjects = splitCSV subjectsCSV, js_MaxAge = maxAge, js_Replicas = replicas\<rparr>)))))))"

definition ctl_nats :: "('c, 'y) ctl_env_scheme \<Rightarrow> Config \<Rightarrow> string list \<Rightarrow> (unit, ('c, 'z) CtlGrid_scheme) op" where
  "ctl_nats env cfg rest =
     (case rest of
        [] \<Rightarrow> fatal ''nats: need subcommand pub|sub|js-ensure-stream''
      | sub # args \<Rightarrow>
          if sub = ''pub'' then nats_pub env cfg args
          else if sub = ''sub'' then nats_sub env cfg args
          else if sub = ''js-ensure-stream'' then nats_js_ensure_stream env cfg args
          else fatal (''nats: unknown '' @ quoted env sub))"

definition mmoctl :: "('c, 'y) ctl_env_scheme \<Rightarrow> Config \<Rightarrow> string \<Rightarrow> string list \<Rightarrow> (unit, ('c, 'z) CtlGrid_scheme) op" where
  "mmoctl env cfg addr args =
     (case args of
        [] \<Rightarrow> fatal ''usage''
      | cmd # rest \<Rightarrow>
          if cmd = ''split-retire-state'' then runSplitRetireState env cfg rest
          else if cmd = ''merge-state'' then runMergeState env cfg rest
          else if cmd = ''infra-print'' then say_all (printInfra env cfg)
          else if cmd = ''partition-plan'' then runPartitionPlan env rest
          else if cmd = ''nats'' then ctl_nats env cfg rest
          else runRegistryOrPing env addr cmd rest)"

end
