(* ===== verification/Operator_Commands.thy ===== *)
theory Operator_Commands
  imports Mmoctl Controller_Cells
begin

text \<open>
  What the operator's commands do to the grid: which of them only look, which one cannot succeed, and
  how the names a plan prints reach the merge that undoes it.
\<close>

section \<open>Commands that only look\<close>

text \<open>On a quiet grid such a command changes nothing; it prints, perhaps in front of an error.\<close>

definition only_prints :: "(unit, ('c, 'z) CtlGrid_scheme) op \<Rightarrow> bool" where
  "only_prints m \<longleftrightarrow> (\<forall>g. turns g = [] \<longrightarrow> (\<exists>out. snd (m g) = g\<lparr>ctl_out := ctl_out g @ out\<rparr>))"

definition looks :: "('a, ('c, 'z) CtlGrid_scheme) op \<Rightarrow> bool" where
  "looks m \<longleftrightarrow> (\<forall>g. turns g = [] \<longrightarrow> snd (m g) = g)"

lemma only_prints_fatal [simp, intro]: "only_prints (fatal t)" "only_prints panic" "only_prints (fail e)" "only_prints (give u)"
  unfolding only_prints_def fatal_def panic_def fail_def give_def by (auto intro!: exI[of _ "[]"])

lemma only_prints_say [simp, intro]: "only_prints (say line)"
  by (auto simp: only_prints_def say_def)

lemma only_prints_then [intro]:
  fixes m :: "(unit, ('c, 'z) CtlGrid_scheme) op"
  assumes "only_prints m" "\<And>x. only_prints (k x)"
  shows "only_prints (andThen m k)"
  unfolding only_prints_def
proof (intro allI impI)
  fix g :: "('c, 'z) CtlGrid_scheme" assume g: "turns g = []"
  obtain r h where m: "m g = (r, h)" by fastforce
  then obtain out where h: "h = g\<lparr>ctl_out := ctl_out g @ out\<rparr>"
    using assms(1) g by (fastforce simp: only_prints_def)
  then have "turns h = []" using g by simp
  then have "\<exists>out2. snd (k x h) = h\<lparr>ctl_out := ctl_out h @ out2\<rparr>" for x
    using assms(2)[of x] by (simp add: only_prints_def)
  with h m show "\<exists>out. snd (andThen m k g) = g\<lparr>ctl_out := ctl_out g @ out\<rparr>"
    by (cases r) (auto simp: andThen_def)
qed

lemma only_prints_looked [intro]:
  fixes m :: "('a, ('c, 'z) CtlGrid_scheme) op"
  assumes "looks m" "\<And>x. only_prints (k x)"
  shows "only_prints (andThen m k)"
  unfolding only_prints_def
proof (intro allI impI)
  fix g :: "('c, 'z) CtlGrid_scheme" assume g: "turns g = []"
  obtain r where m: "m g = (r, g)" using assms(1) g by (metis looks_def prod.collapse)
  show "\<exists>out. snd (andThen m k g) = g\<lparr>ctl_out := ctl_out g @ out\<rparr>"
  proof (cases r)
    case (Inl e)
    then show ?thesis using m by (auto simp: andThen_def intro!: exI[of _ "[]"])
  next
    case (Inr x)
    then show ?thesis using m assms(2)[of x] g by (simp add: andThen_def only_prints_def)
  qed
qed

lemma looks_registry [intro]: "looks m \<Longrightarrow> looks (registry_call env addr m)"
  by (auto simp: looks_def registry_call_def next_turn_def fail_def split: option.splits)

lemma looks_pure [intro, simp]: "looks (\<lambda>g. (f g, g))"
  by (simp add: looks_def)

lemma looks_call [intro]:
  assumes "\<And>now s. snd (h now s) = s"
  shows "looks (call ep h :: ('r, ('c, 'z) CtlGrid_scheme) op)"
  unfolding looks_def
proof (intro allI impI)
  fix g :: "('c, 'z) CtlGrid_scheme" assume "turns g = []"
  then show "snd (call ep h g) = g"
  proof (cases "servers g ep")
    case (Some s)
    obtain r s' where hs: "h (clock g) s = (r, s')" by fastforce
    then have "s' = s" using assms[of "clock g" s] by simp
    then show ?thesis
      using Some hs \<open>turns g = []\<close> by (simp add: call_def next_turn_def fun_upd_idem)
  qed (simp add: call_def next_turn_def)
qed

lemma looks_dialled [intro]: "(\<And>now s. snd (h now s) = s) \<Longrightarrow> looks (dialled_call env ep h)"
  using looks_call[of h ep] by (auto simp: looks_def dialled_call_def fail_def split: option.splits)

text \<open>The payloads that leave the cell as it is.\<close>

fun inspecting :: "UpdatePayload \<Rightarrow> bool" where
  "inspecting (SetTargetTps n) = False"
| "inspecting (SetSplitDrain b) = False"
| "inspecting (ImportNpcPersist i) = False"
| "inspecting p = True"

lemma looks_update:
  assumes "inspecting p"
  shows "looks (ForwardCellUpdate env (Some (i, Some (Some p))) :: (UpdateResponse, ('c, 'z) CtlGrid_scheme) op)"
  unfolding looks_def
proof (intro allI impI)
  fix g :: "('c, 'z) CtlGrid_scheme" assume g: "turns g = []"
  have "snd (Update j ord (Some (Some p)) s) = s" for j ord s
    using assms by (cases p) (auto simp: Update_def)
  then have "looks (call ep (\<lambda>now s. Update (js env) (visit_live env s) (Some (Some p)) s) ::
      (UpdateResponse, ('c, 'z) CtlGrid_scheme) op)" for ep
    by (intro looks_call)
  then have asked: "snd (call ep (\<lambda>now s. Update (js env) (visit_live env s) (Some (Some p)) s) g) = g" for ep
    using g by (simp add: looks_def)
  obtain r where dial: "dialCellClient env i g = (r, g)" using dial_same by (metis prod.collapse)
  show "snd (ForwardCellUpdate env (Some (i, Some (Some p))) g) = g"
    using asked dial by (cases r) (auto simp: ForwardCellUpdate_def doForwardCellUpdate_def andThen_def fail_def)
qed

lemma say_all_prints [simp, intro]: "only_prints (say_all ts)"
  by (induction ts) auto

lemma print_cells_prints [simp, intro]: "only_prints (print_cells env cs)"
  by (induction env cs rule: print_cells.induct) (auto split: option.split)

lemma say_skeletons_prints [simp, intro]: "only_prints (say_skeletons env i chs)"
  by (induction env i chs rule: say_skeletons.induct) (auto split: option.split)

lemma candidates_look [intro]: "looks (ctl_candidates_call env ep)"
  unfolding ctl_candidates_call_def by (rule looks_dialled) simp

definition inspects :: "string list \<Rightarrow> bool" where
  "inspects args =
     (case args of
        [] \<Rightarrow> True
      | cmd # rest \<Rightarrow>
          if cmd = ''forward-update''
          then (case rest of
                  i # mode # _ \<Rightarrow> mode \<in> {''noop'', ''split-prepare'', ''export-npc-persist'', ''merge-prepare''}
                | _ \<Rightarrow> True)
          else if cmd = ''nats''
          then (case rest of sub # _ \<Rightarrow> sub \<notin> {''pub'', ''js-ensure-stream''} | [] \<Rightarrow> True)
          else cmd \<notin> {''forward-npc-handoff'', ''forward-merge-handoff'', ''join''})"

lemma update_prints:
  assumes "mode \<in> {''noop'', ''split-prepare'', ''export-npc-persist'', ''merge-prepare''}"
  shows "only_prints (ctl_forward_update env addr (i # mode # args))"
proof -
  have "inspecting p" if "update_payload env mode args = Inr p" for p
    using that assms by (auto simp: update_payload_def split: list.splits)
  then show ?thesis
    by (auto simp: ctl_forward_update_def split: sum.split intro!: looks_update)
qed

lemma listing_prints:
  "(\<And>cs. only_prints (k cs)) \<Longrightarrow> only_prints (andThen (registry_call env addr (\<lambda>g. (f g, g))) k)"
  by (intro only_prints_looked looks_registry looks_pure)

lemma dry_run_prints: "only_prints (ctl_dry_run env addr rest)"
proof -
  have export: "looks (registry_call env addr (ForwardCellUpdate env (Some (i, Some (Some (ExportNpcPersist r))))))" for i r
    by (intro looks_registry looks_update) simp
  show ?thesis
    unfolding ctl_dry_run_def Let_def
    by (auto split: list.split option.split intro!: listing_prints only_prints_looked[OF candidates_look]
        only_prints_looked[OF export] only_prints_then[OF only_prints_say])
qed

lemma plan_prints: "only_prints (runPartitionPlan env args)"
  by (auto simp: runPartitionPlan_def say_plan_def Let_def simp del: say_all.simps split: sum.split intro!: only_prints_then)

lemma state_prints: "only_prints (stored_state env cfg cmd k xs)"
  by (auto simp: stored_state_def Let_def split: list.split sum.split option.split)

lemma cells_print: "only_prints (ctl_list env addr)" "only_prints (ctl_resolve env addr rest)"
  unfolding ctl_list_def ctl_resolve_def
  by (auto simp del: print_cells.simps split: list.split sum.split option.split intro!: listing_prints)

lemma answers_print: "only_prints (ctl_plansplit env rest)" "only_prints (ctl_candidates env rest)" "only_prints (ctl_ping env rest)"
  unfolding ctl_plansplit_def ctl_candidates_def ctl_ping_def
  by (auto split: list.split sum.split intro!: only_prints_looked[OF looks_dialled] only_prints_looked[OF candidates_look])

lemma updates_print:
  assumes "inspects (''forward-update'' # rest)"
  shows "only_prints (ctl_forward_update env addr rest)"
proof (cases "\<exists>i mode xs. rest = i # mode # xs")
  case True
  then obtain i mode xs where rest: "rest = i # mode # xs" by blast
  show ?thesis
    unfolding rest by (rule update_prints) (use assms in \<open>simp add: inspects_def rest\<close>)
qed (auto simp: ctl_forward_update_def split: list.split)

lemma commands_print:
  assumes "cmd \<notin> {''forward-update'', ''forward-npc-handoff'', ''forward-merge-handoff'', ''join''}"
  shows "only_prints (runRegistryOrPing env addr cmd rest)"
  using assms by (simp add: runRegistryOrPing_def cells_print answers_print dry_run_prints)

lemma only_prints_value [intro]: "(\<And>v. r = Inr v \<Longrightarrow> only_prints (k v)) \<Longrightarrow> only_prints (with_value r k)"
  by (auto simp: with_value_def split: sum.split)

lemma only_prints_connected [intro]: "only_prints m \<Longrightarrow> only_prints (connected env nurl m)"
  by (auto simp: connected_def split: sum.split)

lemma messages_print [simp, intro]: "only_prints (print_messages env nurl subject timeout i n)"
  by (induction env nurl subject timeout i n rule: print_messages.induct) (auto split: sum.split)

lemma nats_sub_prints: "only_prints (nats_sub env cfg args)"
  unfolding nats_sub_def runNATSSub_def
  by (auto split: prod.split list.split option.split intro!: only_prints_value only_prints_connected)

lemma nats_prints:
  assumes "inspects (''nats'' # rest)"
  shows "only_prints (ctl_nats env cfg rest)"
  using assms by (auto simp: inspects_def ctl_nats_def nats_sub_prints split: list.splits)

text \<open>The two commands that are left out do act on the bus.\<close>

lemma pub_sends:
  assumes "publish_error (bus env) subject body = None" "flush_outcome (bus env) nurl = None" "Connect (bus env) nurl = Inr ()"
  shows "snd (runNATSPub env nurl subject body g) =
    g\<lparr>ctl_out := ctl_out g @ [[Text (''published to '' @ subject @ '' ('' @ Itoa (int (length body)) @ '' bytes)'')]],
      bus_messages := bus_messages g @ [(nurl, subject, body)]\<rparr>"
  using assms by (simp add: runNATSPub_def connected_def publish_flush_def andThen_def say_def)

lemma ensure_stream_streams:
  assumes "Connect (bus env) nurl = Inr ()" "jetstream_error (bus env) = None"
  shows "bus_streams (snd (runNATSJetStreamEnsureStream env nurl jcfg g)) =
    (bus_streams g)(nurl := snd (EnsureStream (bus env) jcfg (bus_streams g nurl)))"
  using assms by (simp add: runNATSJetStreamEnsureStream_def connected_def ensure_stream_def with_value_def andThen_def
      say_def give_def fatal_def fail_def split: prod.split sum.split)

lemma inspections_print:
  assumes "inspects args"
  shows "only_prints (mmoctl env cfg addr args)"
proof (cases args)
  case (Cons cmd rest)
  consider "cmd = ''forward-update''" | "cmd = ''nats''" | "cmd \<noteq> ''forward-update''" "cmd \<noteq> ''nats''" by blast
  then show ?thesis
  proof cases
    case 1
    then show ?thesis
      using assms Cons by (simp add: mmoctl_def runRegistryOrPing_def updates_print)
  next
    case 2
    then show ?thesis
      using assms Cons by (simp add: mmoctl_def nats_prints)
  next
    case 3
    then have "cmd \<notin> {''forward-update'', ''forward-npc-handoff'', ''forward-merge-handoff'', ''join''}"
      using assms Cons by (simp add: inspects_def)
    then show ?thesis
      using Cons 3
      by (simp add: mmoctl_def runMergeState_def runSplitRetireState_def plan_prints state_prints commands_print split: sum.split)
  qed
qed (simp add: mmoctl_def)

text \<open>
  C38: on a quiet grid the commands that are meant for looking change no cell and no registration,
  whatever arguments they are given and however they end: \<open>migration-dry-run\<close>, which exports the NPCs
  of a cell, the forwarded updates that only check, and \<open>nats sub\<close> included. Nor do they send a message on
  the bus or create a stream, as \<open>nats pub\<close> and \<open>nats js-ensure-stream\<close> do, which are no such commands.
  All they do is print.
\<close>

theorem inspection_changes_nothing:
  assumes "inspects args" "turns g = []"
  shows "\<exists>out. snd (mmoctl env cfg addr args g) = g\<lparr>ctl_out := ctl_out g @ out\<rparr>"
  using inspections_print[OF assms(1)] assms(2) unfolding only_prints_def by blast

text \<open>A quiet grid with one cell, and a bus on which everything succeeds.\<close>

definition ctl_demo_bus :: nats_library where
  "ctl_demo_bus = \<lparr>connect_error = (\<lambda>u. None), publish_error = (\<lambda>s b. None), flush_outcome = (\<lambda>u. None),
     subscribe_error = (\<lambda>s. None), next_msg = (\<lambda>u s i t. Inr ''hello''), jetstream_error = None,
     stream_info = (\<lambda>ss n. ss n), add_stream = (\<lambda>ss sc. (Inr sc, ss(sc_Name sc \<mapsto> sc)))\<rparr>"

definition ctl_demo_env :: "Memory ctl_env" where
  "ctl_demo_env = \<lparr>catalog_of = Some (MemoryCatalog (\<lambda>m. [''root''])), js = demo_json, dial_error = (\<lambda>ep. None),
     visit_live = (\<lambda>s. []), visit_names = (\<lambda>s. []), visit_prepared = (\<lambda>s. []), getenv = (\<lambda>name. []),
     natsConnected = False, redisSet = (\<lambda>k st store. (None, store)), ctl_store = MemoryCatalog (\<lambda>m. [''root'']),
     fmt0 = (\<lambda>x. []), fmt3 = (\<lambda>x. []), fmtg = (\<lambda>x. []), quoted = id, parse_float = (\<lambda>t. Inl t), int32_error = id,
     read_body = (\<lambda>path. Inl path), url_user = (\<lambda>u. None), with_password = (\<lambda>u n p. u),
     encode_plan = (\<lambda>i l b chs. Inl []), plan_flags = (\<lambda>args. Inl []), parse_int = Inl, parse_duration = Inl, nats_override = [], bus = ctl_demo_bus,
     redis_get = (\<lambda>k. Inr None)\<rparr>"

definition ctl_demo_grid :: "Memory CtlGrid" where
  "ctl_demo_grid = \<lparr>reg = \<lparr>cells = [''root'' \<mapsto> demo_cell ''root'']\<rparr>, servers = [''root'' \<mapsto> demo_joined],
     turns = [], clock = 0, mergeInFlight = {}, mergeEvents = [], mergeStates = Map.empty, ctl_out = [],
     bus_messages = [], bus_streams = (\<lambda>u. Map.empty)\<rparr>"

definition ctl_demo_cfg :: Config where
  "ctl_demo_cfg = FromEnv (\<lambda>a. None) (\<lambda>name. [])"

theorem inspection_changes_nothing_witness:
  "\<exists>out. snd (mmoctl ctl_demo_env ctl_demo_cfg ''manager'' [''migration-dry-run'', ''root''] ctl_demo_grid) = ctl_demo_grid\<lparr>ctl_out := out\<rparr>"
  using inspection_changes_nothing[of "[''migration-dry-run'', ''root'']" ctl_demo_grid ctl_demo_env ctl_demo_cfg "''manager''"]
  by (simp add: inspects_def ctl_demo_grid_def)

section \<open>A command that cannot succeed\<close>

lemma bare_specs_invalid: "ValidateMergeChildren (Some b) lvl (map (\<lambda>i. Some (bare_spec i)) ids) \<noteq> None"
proof (cases ids)
  case (Cons i rest)
  have "\<exists>e. validate_children want quads used seen (map (\<lambda>i. Some (bare_spec i)) ids) = Inl e" for want quads used seen
    unfolding Cons by (simp add: bare_spec_def Let_def)
  then show ?thesis by (auto simp: ValidateMergeChildren_def) (metis old.sum.simps(5) option.distinct(1))
qed (simp add: ValidateMergeChildren_def)

lemma bare_merge_refused:
  assumes "Update j ord (Some (Some (MergePrepare (Some (reason, map (\<lambda>i. Some (bare_spec i)) ids))))) s = (resp, s')"
  shows "\<not> ur_Ok resp" "ur_NpcExportJson resp = []"
proof -
  have "\<not> ur_Ok resp \<and> ur_NpcExportJson resp = []"
  proof (cases "srv_Bounds s")
    case (Some b)
    obtain e where "ValidateMergeChildren (Some b) (srv_Level s) (map (\<lambda>i. Some (bare_spec i)) ids) = Some e"
      using bare_specs_invalid by blast
    then show ?thesis using assms Some by (auto simp: Update_def update_merge_prepare_def)
  qed (use assms in \<open>auto simp: Update_def update_merge_prepare_def\<close>)
  then show "\<not> ur_Ok resp" "ur_NpcExportJson resp = []" by simp_all
qed

lemma call_answer:
  assumes "call ep h g = (Inr r, g')"
  obtains now s where "r = fst (h now s)"
proof -
  obtain ft g1 where t: "next_turn g = (ft, g1)" by fastforce
  with assms obtain s where s: "servers g1 ep = Some s" by (auto simp: call_def split: option.splits)
  obtain r1 s1 where "h (clock g1) s = (r1, s1)" by fastforce
  with assms t s have "r = fst (h (clock g1) s)" by (cases ft) (simp_all add: call_def)
  then show thesis by (rule that)
qed

interpretation printed: kept "\<lambda>g :: ('c, 'z) CtlGrid_scheme. ctl_out g = out" for out :: "msg list list"
  by unfold_locales (auto simp: next_turn_def Let_def split: list.splits prod.splits)

lemma update_answer:
  fixes g :: "('c, 'z) CtlGrid_scheme"
  assumes "registry_call env addr (ForwardCellUpdate env (Some (i, Some (Some p)))) g = (Inr resp, g')"
  shows "\<exists>j ord s. resp = fst (Update j ord (Some (Some p)) s)" "ctl_out g' = ctl_out g"
proof -
  obtain h where h: "ctl_out h = ctl_out g" "ForwardCellUpdate env (Some (i, Some (Some p))) h = (Inr resp, g')"
    using assms printed.kept_turn[of g "ctl_out g"]
    by (auto simp: registry_call_def fail_def Let_def split: option.splits prod.splits fate.splits)
  then have upd: "doForwardCellUpdate env i (Some (Some p)) h = (Inr resp, g')"
    by (auto simp: ForwardCellUpdate_def fail_def split: if_splits)
  then show "\<exists>j ord s. resp = fst (Update j ord (Some (Some p)) s)"
    by (auto simp: doForwardCellUpdate_def fail_def elim!: andThen_cases call_answer split: if_splits)
  show "ctl_out g' = ctl_out g"
    using keepsD[OF printed.kept_update[of "ctl_out g"] h(1) upd] .
qed

text \<open>
  C39: \<open>forward-update \<dots> merge-prepare\<close> is refused by every cell, for every list of children: the
  command sends the names alone, and the check of the cell requires the level and the bounds of each
  child. Whatever happens on the grid meanwhile, a call that is answered prints \<open>ok=false\<close>.
\<close>

theorem merge_prepare_never_accepted:
  assumes "mmoctl env cfg addr (''forward-update'' # cellID # ''merge-prepare'' # args) g = (Inr (), g')"
  shows "\<exists>reason. ctl_out g' = ctl_out g @ [[Text ''ok=false '', reason]]"
proof -
  obtain csv extra where args: "args = csv # extra"
    using assms by (cases args) (simp_all add: mmoctl_def runRegistryOrPing_def ctl_forward_update_def update_payload_def fatal_def fail_def)
  let ?p = "MergePrepare (Some (reason_arg extra, map (\<lambda>i. Some (bare_spec i)) (splitCSV csv)))"
  let ?m = "registry_call env addr (ForwardCellUpdate env (Some (cellID, Some (Some ?p))))"
  have run: "andThen ?m (\<lambda>resp. say ([Text (''ok='' @ go_bool (ur_Ok resp) @ '' ''), ur_Message resp] @
      (if ur_NpcExportJson resp \<noteq> [] then [Text ('' npc_export_json_bytes='' @ Itoa (int (length (ur_NpcExportJson resp))))] else []))) g
      = (Inr (), g')"
    using assms by (simp add: args mmoctl_def runRegistryOrPing_def ctl_forward_update_def update_payload_def)
  then obtain resp g1 where answered: "?m g = (Inr resp, g1)"
    by (cases rule: andThen_cases) auto
  note said = update_answer[OF answered]
  from said(1) have "\<not> ur_Ok resp" "ur_NpcExportJson resp = []"
    using bare_merge_refused by (metis prod.collapse)+
  then show ?thesis
    using run said(2) by (auto simp: andThen_Inr[where m = ?m, OF answered] say_def go_bool_def)
qed

theorem merge_prepare_never_accepted_witness:
  "\<exists>g' reason. mmoctl ctl_demo_env ctl_demo_cfg ''manager'' [''forward-update'', ''root'', ''merge-prepare'', ''a,b,c,d''] ctl_demo_grid = (Inr (), g')
     \<and> ctl_out g' = [[Text ''ok=false '', reason]]"
proof -
  have list: "FindCellByID (ListAll (MemoryCatalog (\<lambda>m. [''root''])) (reg ctl_demo_grid)) ''root'' = Inr (Some (demo_cell ''root''), True)"
    by (simp add: MemoryCatalog_def MemoryCatalog_List_def List_def FindCellByID_def ctl_demo_grid_def demo_cell_def cloneSpec_def)
  have "\<exists>g'. mmoctl ctl_demo_env ctl_demo_cfg ''manager'' [''forward-update'', ''root'', ''merge-prepare'', ''a,b,c,d''] ctl_demo_grid = (Inr (), g')"
    using list by (simp add: mmoctl_def runRegistryOrPing_def ctl_forward_update_def update_payload_def registry_call_def
        ForwardCellUpdate_def doForwardCellUpdate_def dialCellClient_def call_def next_turn_def andThen_def give_def say_def
        demo_cell_def ctl_demo_env_def ctl_demo_grid_def Let_def split: prod.split)
  then obtain g' where run: "mmoctl ctl_demo_env ctl_demo_cfg ''manager'' [''forward-update'', ''root'', ''merge-prepare'', ''a,b,c,d''] ctl_demo_grid = (Inr (), g')"
    by blast
  show ?thesis using merge_prepare_never_accepted[OF run] run by (auto simp: ctl_demo_grid_def)
qed

section \<open>From a plan to the merge\<close>

lemma plain_trimmed:
  assumes "s \<noteq> []" "set s \<subseteq> set ('','' @ path_chars)"
  shows "trimmed s"
proof -
  have "list_all ascii_graph ('','' @ path_chars)" by code_simp
  then have "\<forall>c \<in> set s. ascii_graph c" using assms(2) unfolding list_all_iff by blast
  then show ?thesis using assms(1) by (intro trimmedI) simp_all
qed

definition named :: "string \<Rightarrow> bool" where
  "named n \<longleftrightarrow> n \<noteq> [] \<and> set n \<subseteq> set path_chars"

lemma named_facts:
  assumes "named n"
  shows "n \<noteq> []" "trimmed n" "CHR '','' \<notin> set n"
proof -
  show "n \<noteq> []" using assms by (simp add: named_def)
  show "trimmed n"
    using assms unfolding named_def by (intro plain_trimmed) (simp, unfold set_append, blast)
  have "CHR '','' \<notin> set path_chars" by simp
  then show "CHR '','' \<notin> set n" using assms unfolding named_def by blast
qed

lemma set_Join: "set (Join ns sep) \<subseteq> \<Union> (set ` set ns) \<union> set sep"
  by (induction ns sep rule: Join.induct) auto

lemma child_names_plain:
  assumes "ChildSpecsForSplit parent (Some b) lvl = Inr children"
  shows "\<forall>n \<in> set (map ch_Id children). named n"
    "distinct (map ch_Id children)" "length children = 4"
proof -
  obtain p where p: "ParseCellPathID parent = Inr p" and
    plan: "children = map (\<lambda>i. \<lparr>ch_Id = path_id (p @ [i]), ch_Bounds = Some (SplitFour b ! nat i), ch_Level = to_int32 (lvl + 1)\<rparr>) [0, 1, 2, 3]"
    by (rule ChildSpecsForSplit_parses[OF assms])
  have valid: "valid_path (p @ [i])" if "i \<in> {0, 1, 2, 3}" for i
    using p that by (auto simp: ParseCellPathID_iff valid_path_def)
  have plain: "named (path_id (p @ [i]))" if "i \<in> {0, 1, 2, 3}" for i
    using chars_path[OF valid[OF that]] unfolding named_def by (simp add: path_id_def)
  have names: "path_id (p @ [i]) = path_id (p @ [j]) \<longleftrightarrow> i = j" if "i \<in> {0, 1, 2, 3}" "j \<in> {0, 1, 2, 3}" for i j
    using path_id_inject[OF valid[OF that(1)] valid[OF that(2)]] by simp
  show "\<forall>n \<in> set (map ch_Id children). named n"
    using plain by (simp add: plan)
  show "distinct (map ch_Id children)" by (simp add: plan names)
  show "length children = 4" by (simp add: plan)
qed

lemma Join_named:
  assumes "\<forall>n \<in> set ns. named n" "ns \<noteq> []"
  shows "Join ns '','' \<noteq> []" "trimmed (Join ns '','')"
proof -
  show nonempty: "Join ns '','' \<noteq> []"
    using assms named_facts(1) by (cases ns; cases "tl ns") auto
  have "set (Join ns '','') \<subseteq> set ('','' @ path_chars)"
    using set_Join[of ns "'',''"] assms(1) unfolding named_def set_append by blast
  with nonempty show "trimmed (Join ns '','')" by (rule plain_trimmed)
qed

lemma splitCSV_Join:
  assumes "\<forall>n \<in> set ns. named n" "ns \<noteq> []"
  shows "splitCSV (Join ns '','') = ns"
proof -
  have "map TrimSpace ns = ns" "filter (\<lambda>p. p \<noteq> []) ns = ns" "\<forall>n \<in> set ns. CHR '','' \<notin> set n"
    using assms(1) named_facts by (simp_all add: TrimSpace_trimmed map_idI filter_id_conv)
  then show ?thesis
    using assms(2) Join_named[OF assms] Split1_Join[of ns "CHR '',''"] by (simp add: splitCSV_def TrimSpace_trimmed)
qed

lemma unique_ids_same:
  "distinct ns \<Longrightarrow> set ns \<inter> seen = {} \<Longrightarrow> \<forall>n \<in> set ns. trimmed n \<and> n \<noteq> [] \<Longrightarrow> unique_ids ns seen = ns"
  by (induction ns arbitrary: seen) (auto simp: TrimSpace_trimmed Let_def)

text \<open>
  The names of the children that a plan prints, joined with commas, are the argument with which
  \<open>forward-merge-handoff\<close> asks for the merge of exactly these children, four different names as the
  handler requires, whatever text names the parent.
\<close>

theorem plan_names_reach_merge:
  assumes "ChildSpecsForSplit parent (Some b) lvl = Inr children"
  shows "mmoctl env cfg addr (''forward-merge-handoff'' # parent # Join (map ch_Id children) '','' # extra) =
      andThen (registry_call env addr (ForwardMergeHandoff env (Some \<lparr>mh_ParentCellId = TrimSpace parent,
          mh_ChildCellIds = map ch_Id children, mh_Reason = reason_arg extra\<rparr>)))
        (\<lambda>resp. say [Text (merge_line resp)])
    \<and> uniqueCellIDs (map ch_Id children) = map ch_Id children \<and> length (map ch_Id children) = 4"
proof -
  note names = child_names_plain[OF assms]
  have "splitCSV (Join (map ch_Id children) '','') = map ch_Id children"
    using names by (intro splitCSV_Join) auto
  moreover have "uniqueCellIDs (map ch_Id children) = map ch_Id children"
    unfolding uniqueCellIDs_def using names named_facts by (intro unique_ids_same) simp_all
  ultimately show ?thesis
    using names(3) by (simp add: mmoctl_def runRegistryOrPing_def ctl_merge_handoff_def)
qed

theorem plan_names_reach_merge_witness:
  "uniqueCellIDs (map ch_Id world_plan) = map ch_Id world_plan"
  using plan_names_reach_merge[OF world_plan, of ctl_demo_env] by blast

end
